(* ===== verification/Prelude.thy ===== *)
theory Prelude
  imports Main "HOL-Library.Word" "HOL-Library.Monad_Syntax"
begin

unbundle bit_operations_syntax

text \<open>
  Shared vocabulary of the development: the machine types of the C code, C arrays as lists
  whose accesses are checked, and the lemmas and collections the component theories share.

  Every operation of the model that can run into undefined behaviour of C (an access outside an
  array, a dereference of NULL, use of a freed object) has a result of type \<open>'a option\<close>:
  \<open>None\<close> stands for undefined behaviour and for nothing else. Error codes of the program are
  ordinary values under \<open>Some\<close>.
\<close>

section \<open>Types\<close>

type_synonym byte = "8 word"
type_synonym u16 = "16 word"
type_synonym u32 = "32 word"
type_synonym wchar = "32 word"

named_theorems buf_simps "accesses to C arrays"
named_theorems buf_iffs "inversion of accesses to C arrays"
named_theorems const_simps "preprocessor constants of the headers"

section \<open>Checked array accesses\<close>

text \<open>\<open>rd b i\<close> is the C expression \<open>b[i]\<close>, \<open>wr b i v\<close> the assignment \<open>b[i] = v\<close>.\<close>

definition rd :: "'a list \<Rightarrow> nat \<Rightarrow> 'a option" where
  "rd b i = (if i < length b then Some (b ! i) else None)"

definition wr :: "'a list \<Rightarrow> nat \<Rightarrow> 'a \<Rightarrow> 'a list option" where
  "wr b i v = (if i < length b then Some (b[i := v]) else None)"

text \<open>\<open>rd_block\<close> and \<open>wr_block\<close> are the two halves of \<open>memcpy\<close>, \<open>memcmp\<close> and \<open>memmove\<close>.\<close>

definition rd_block :: "'a list \<Rightarrow> nat \<Rightarrow> nat \<Rightarrow> 'a list option" where
  "rd_block b off n = (if off + n \<le> length b then Some (take n (drop off b)) else None)"

definition wr_block :: "'a list \<Rightarrow> nat \<Rightarrow> 'a list \<Rightarrow> 'a list option" where
  "wr_block b off xs =
     (if off + length xs \<le> length b
      then Some (take off b @ xs @ drop (off + length xs) b) else None)"

text \<open>
  Passing the pointer \<open>b + off\<close> to a function that works in place: the callee sees the rest of
  the array from \<open>off\<close> on, the bytes before it are out of its reach.
\<close>

definition at_off :: "nat \<Rightarrow> ('a list \<Rightarrow> 'a list option) \<Rightarrow> 'a list \<Rightarrow> 'a list option" where
  "at_off off f b =
     (if off \<le> length b then map_option ((@) (take off b)) (f (drop off b)) else None)"

lemma rd_Some [buf_simps]: "i < length b \<Longrightarrow> rd b i = Some (b ! i)"
  by (simp add: rd_def)

lemma wr_Some [buf_simps]: "i < length b \<Longrightarrow> wr b i v = Some (b[i := v])"
  by (simp add: wr_def)

lemma rd_eq_Some_iff [buf_iffs]: "rd b i = Some v \<longleftrightarrow> i < length b \<and> b ! i = v"
  by (auto simp: rd_def)

lemma wr_eq_Some_iff [buf_iffs]: "wr b i v = Some c \<longleftrightarrow> i < length b \<and> c = b[i := v]"
  by (auto simp: wr_def)

lemma rd_eq_None_iff [buf_iffs]: "rd b i = None \<longleftrightarrow> length b \<le> i"
  by (auto simp: rd_def)

lemma wr_eq_None_iff [buf_iffs]: "wr b i v = None \<longleftrightarrow> length b \<le> i"
  by (auto simp: wr_def)

lemma rd_block_eq_Some_iff [buf_iffs]:
  "rd_block b off n = Some xs \<longleftrightarrow> off + n \<le> length b \<and> xs = take n (drop off b)"
  by (auto simp: rd_block_def)

lemma rd_block_eq_None_iff [buf_iffs]: "rd_block b off n = None \<longleftrightarrow> length b < off + n"
  by (auto simp: rd_block_def)

lemma wr_block_eq_Some_iff [buf_iffs]:
  "wr_block b off xs = Some c \<longleftrightarrow>
     off + length xs \<le> length b \<and> c = take off b @ xs @ drop (off + length xs) b"
  by (auto simp: wr_block_def)

lemma wr_block_eq_None_iff [buf_iffs]:
  "wr_block b off xs = None \<longleftrightarrow> length b < off + length xs"
  by (auto simp: wr_block_def)

lemma wr_block_length: "wr_block b off xs = Some c \<Longrightarrow> length c = length b"
  by (auto simp: buf_iffs)

lemma at_off_eq_Some_iff:
  "at_off off f b = Some c \<longleftrightarrow>
     off \<le> length b \<and> (\<exists>r. f (drop off b) = Some r \<and> c = take off b @ r)"
  by (auto simp: at_off_def)

lemma at_off_length:
  assumes "at_off off f b = Some c" "\<And>r. f (drop off b) = Some r \<Longrightarrow> length r = length b - off"
  shows "length c = length b"
  using assms by (auto simp: at_off_eq_Some_iff)

text \<open>An in-place routine that only touches the first \<open>n\<close> bytes behind the pointer.\<close>

lemma at_off_frame:
  assumes "at_off off f b = Some c"
    and "\<And>r. f (drop off b) = Some r \<Longrightarrow> length r = length b - off \<and> drop n r = drop n (drop off b)"
  shows "off \<le> length b" "length c = length b" "take off c = take off b"
    "drop (off + n) c = drop (off + n) b" "f (drop off b) = Some (drop off c)"
  using assms by (auto simp: at_off_eq_Some_iff drop_append add.commute)

text \<open>The library's rule asks that the updated index is in range; here the index read is.\<close>

lemma upd_nth [buf_simps]: "k < length b \<Longrightarrow> b[i := v] ! k = (if i = k then v else b ! k)"
  by (auto simp: nth_list_update)

text \<open>Reading back what a block write stored, and what it left alone.\<close>

lemma wr_block_nth_inside:
  assumes "wr_block b off xs = Some c" "i < length xs"
  shows "c ! (off + i) = xs ! i"
  using assms by (auto simp: buf_iffs nth_append)

lemma wr_block_take:
  assumes "wr_block b off xs = Some c" "n \<le> off"
  shows "take n c = take n b"
  using assms by (auto simp: buf_iffs min_absorb1)

section \<open>The option monad\<close>

lemma bind_SomeE:
  assumes "Option.bind m f = Some r"
  obtains x where "m = Some x" "f x = Some r"
  using assms by (cases m) auto

lemma bind_Some_iff: "Option.bind m f = Some r \<longleftrightarrow> (\<exists>x. m = Some x \<and> f x = Some r)"
  by (cases m) auto

lemma bind_pair_Some_iff:
  "Option.bind m (\<lambda>(x, y). f x y) = Some r \<longleftrightarrow> (\<exists>x y. m = Some (x, y) \<and> f x y = Some r)"
  by (cases m) auto

text \<open>
  \<open>post Q m\<close>: if \<open>m\<close> returns, its result satisfies \<open>Q\<close>. The rules below walk through a \<open>do\<close> block;
  component theories add one rule per operation, collected in \<open>post_intros\<close>.
\<close>

named_theorems post_intros "rules for the results of operations"

definition post :: "('a \<Rightarrow> bool) \<Rightarrow> 'a option \<Rightarrow> bool" where
  "post Q m \<longleftrightarrow> (\<forall>r. m = Some r \<longrightarrow> Q r)"

lemma post_simps [simp]: "post Q (Some r) = Q r" "post Q None"
  by (simp_all add: post_def)

lemma post_bind: "post Q (Option.bind m f) \<longleftrightarrow> post (\<lambda>x. post Q (f x)) m"
  by (cases m) (simp_all add: post_def)

lemma post_bindI: "post R m \<Longrightarrow> (\<And>x. R x \<Longrightarrow> post Q (f x)) \<Longrightarrow> post Q (Option.bind m f)"
  by (cases m) (simp_all add: post_def)

lemma post_any: "(\<And>x. post Q (f x)) \<Longrightarrow> post Q (Option.bind m f)"
  by (cases m) (simp_all add: post_def)

lemmas post_buf [post_intros] =
  post_any [where m = "rd b i" for b i] post_any [where m = "wr b i v" for b i v]
  post_any [where m = "rd_block b off n" for b off n] post_any [where m = "wr_block b off xs" for b off xs]

lemma postD: "post Q m \<Longrightarrow> m = Some r \<Longrightarrow> Q r"
  by (simp add: post_def)

lemma postI: "(\<And>r. m = Some r \<Longrightarrow> Q r) \<Longrightarrow> post Q m"
  by (simp add: post_def)

section \<open>XOR on words\<close>

lemma xor_cancel_right [simp]: "(a XOR b) XOR b = (a :: 'a::len word)"
  by (simp add: xor.assoc)

lemma xor_cancel_left [simp]: "b XOR (b XOR a) = (a :: 'a::len word)"
  by (simp add: xor.assoc [symmetric])

lemma xor_right_inj [simp]: "a XOR c = b XOR c \<longleftrightarrow> a = (b :: 'a::len word)"
  by (metis xor_cancel_right)

lemma xor_left_inj [simp]: "c XOR a = c XOR b \<longleftrightarrow> a = (b :: 'a::len word)"
  by (metis xor_cancel_left)

section \<open>Bytes as numbers\<close>

lemma unat_byte_less [simp]: "unat (b :: byte) < 256"
  using unsigned_less [of b] by simp

lemma byte_int_bounds: "0 \<le> uint (b :: byte)" "uint (b :: byte) < 256"
  using unsigned_less [of b, where ?'a = int] by simp_all

end
