(* ===== verification/HidApi.thy ===== *)
theory HidApi
  imports Prelude
begin

text \<open>
  The interface \<^verbatim>\<open>hidapi.h\<close>: the record \<open>struct hid_device_info\<close> and the functions through which
  the token library reaches its devices. A linked list of infos is a list (NULL is \<open>[]\<close>); a
  wide string is the list of its characters in front of the terminating zero; an open device is
  the address of its \<open>hid_device\<close>.

  The token library is linked against one implementation of this header
  (\<^verbatim>\<open>lib/makefile\<close> takes \<^verbatim>\<open>hid-libusb.c\<close>), the repository has others. The record \<open>hidapi\<close> is the
  table of the functions the library calls, over the state \<open>'h\<close> of the implementation; the
  locale \<open>hid_backend\<close> states what the library relies on, and each implementation modelled in
  this development interprets it.
\<close>

section \<open>Device infos\<close>

record hid_device_info =
  path :: "string option"
  vendor_id :: u16
  product_id :: u16
  serial_number :: "wchar list option"
  release_number :: u16
  manufacturer_string :: "wchar list option"
  product_string :: "wchar list option"
  usage_page :: u16
  usage :: u16
  interface_number :: int

text \<open>The filter every \<open>hid_enumerate\<close> applies: 0 is a wild card.\<close>

definition id_match :: "u16 \<Rightarrow> u16 \<Rightarrow> u16 \<Rightarrow> u16 \<Rightarrow> bool" where
  "id_match vendor product dev_vid dev_pid \<longleftrightarrow>
     (vendor = 0 \<or> vendor = dev_vid) \<and> (product = 0 \<or> product = dev_pid)"

definition info_matches :: "u16 \<Rightarrow> u16 \<Rightarrow> hid_device_info \<Rightarrow> bool" where
  "info_matches vendor product d \<longleftrightarrow> id_match vendor product (vendor_id d) (product_id d)"

text \<open>
  The heap blocks one list node owns: the node and its strings. \<open>free(NULL)\<close> frees nothing, so a
  field that is NULL does not count.
\<close>

definition some_block :: "'a option \<Rightarrow> int" where
  "some_block p = (case p of None \<Rightarrow> 0 | Some _ \<Rightarrow> 1)"

definition info_blocks :: "hid_device_info \<Rightarrow> int" where
  "info_blocks d = 1 + some_block (path d) + some_block (serial_number d)
     + some_block (manufacturer_string d) + some_block (product_string d)"

definition list_blocks :: "hid_device_info list \<Rightarrow> int" where
  "list_blocks ds = sum_list (map info_blocks ds)"

lemma some_block_simps [simp]: "some_block None = 0" "some_block (Some x) = 1"
  by (simp_all add: some_block_def)

lemma list_blocks_simps [simp]:
  "list_blocks [] = 0" "list_blocks (d # ds) = info_blocks d + list_blocks ds"
  "list_blocks (ds @ es) = list_blocks ds + list_blocks es"
  by (simp_all add: list_blocks_def)

lemma info_blocks_pos: "0 < info_blocks d"
  by (auto simp: info_blocks_def some_block_def split: option.splits)

section \<open>The function table\<close>

text \<open>
  Data buffers are the bytes from the pointer passed to the end of its array. \<open>None\<close> is undefined
  behaviour; a NULL device or list is \<open>None\<close> or \<open>[]\<close> inside the result.
\<close>

record 'h hidapi =
  api_enumerate :: "u16 \<Rightarrow> u16 \<Rightarrow> 'h \<Rightarrow> (hid_device_info list \<times> 'h) option"
  api_free_enumeration :: "hid_device_info list \<Rightarrow> 'h \<Rightarrow> 'h option"
  api_open :: "u16 \<Rightarrow> u16 \<Rightarrow> wchar list option \<Rightarrow> 'h \<Rightarrow> (nat option \<times> 'h) option"
  api_send_feature_report :: "nat \<Rightarrow> byte list \<Rightarrow> nat \<Rightarrow> 'h \<Rightarrow> (int \<times> 'h) option"
  api_get_feature_report :: "nat \<Rightarrow> byte list \<Rightarrow> nat \<Rightarrow> 'h \<Rightarrow> (int \<times> byte list \<times> 'h) option"
  api_close :: "nat option \<Rightarrow> 'h \<Rightarrow> 'h option"
  api_exit :: "'h \<Rightarrow> (int \<times> 'h) option"

section \<open>The contract\<close>

text \<open>
  \<open>inv\<close> is the implementation's invariant, \<open>held\<close> what it holds open: its device structures and what it has opened in the system.
  \<open>over h d x\<close> says that \<open>d\<close> is an open device and \<open>x\<close> is what is still held once \<open>d\<close> has been closed; \<open>blocks\<close> is the number of
  heap blocks in use. The laws are about calls that return; that calls return under
  the documented behaviour of the system is a theorem of each implementation.
\<close>

locale hid_backend =
  fixes H :: "'h hidapi"
    and inv :: "'h \<Rightarrow> bool"
    and held :: "'h \<Rightarrow> 'r"
    and over :: "'h \<Rightarrow> nat \<Rightarrow> 'r \<Rightarrow> bool"
    and blocks :: "'h \<Rightarrow> int"
  assumes enumerate_law:
      "inv h \<Longrightarrow> api_enumerate H v p h = Some (ds, h') \<Longrightarrow>
        inv h' \<and> held h' = held h \<and> blocks h' = blocks h + list_blocks ds \<and>
        list_all (info_matches v p) ds"
    and free_law:
      "inv h \<Longrightarrow> api_free_enumeration H ds h = Some h' \<Longrightarrow>
        inv h' \<and> held h' = held h \<and> blocks h' = blocks h - list_blocks ds"
    and open_null_law:
      "inv h \<Longrightarrow> api_open H v p sn h = Some (None, h') \<Longrightarrow>
        inv h' \<and> held h' = held h \<and> blocks h' = blocks h"
    and open_law:
      "inv h \<Longrightarrow> api_open H v p sn h = Some (Some d, h') \<Longrightarrow>
        inv h' \<and> over h' d (held h)"
    and send_law:
      "inv h \<Longrightarrow> over h d x \<Longrightarrow> api_send_feature_report H d buf n h = Some (r, h') \<Longrightarrow>
        inv h' \<and> over h' d x"
    and get_law:
      "inv h \<Longrightarrow> over h d x \<Longrightarrow> 0 < n \<Longrightarrow> api_get_feature_report H d buf n h = Some (r, buf', h') \<Longrightarrow>
        inv h' \<and> over h' d x \<and> length buf' = length buf \<and> drop n buf' = drop n buf"
    and close_null_law: "api_close H None h = Some h"
    and close_law:
      "inv h \<Longrightarrow> over h d x \<Longrightarrow> api_close H (Some d) h = Some h' \<Longrightarrow>
        inv h' \<and> held h' = x"
    and exit_law:
      "inv h \<Longrightarrow> api_exit H h = Some (r, h') \<Longrightarrow>
        inv h' \<and> held h' = held h \<and> blocks h' = blocks h"

end
