(* ===== verification/UsbBus.thy ===== *)
theory UsbBus
  imports HidApi
begin

text \<open>
  What \<^verbatim>\<open>token-DLL/lib/hid-libusb.c\<close> works on: libusb, the state of the file, and the primitives over
  both.

  libusb is not part of the repository. Its calls are recorded in a history (\<open>trace\<close>), and the record
  \<open>usb_env\<close> says what each call returns as a function of the history in front of it, so that
  devices may come and go and every call may fail at any time. Built into the primitives is the
  documented shape of the calls: a transfer writes at most the bytes asked for, \<open>libusb_open\<close>
  creates a handle exactly when its result is not negative, a handle that is not open must not be
  used. \<open>libusb_get_device_descriptor\<close> returns a cached descriptor and does not fail.
\<close>

section \<open>Descriptors\<close>

record usb_endpoint =
  bEndpointAddress :: byte
  bmAttributes :: byte
  wMaxPacketSize :: u16

record usb_altsetting =
  bInterfaceNumber :: byte
  bInterfaceClass :: byte
  endpoint_list :: "usb_endpoint list"

text \<open>A configuration is the list of its interfaces, each the list of its alternate settings.\<close>

type_synonym usb_config = "usb_altsetting list list"

record usb_device =
  bus_number :: byte
  device_address :: byte
  idVendor :: u16
  idProduct :: u16
  bcdDevice :: u16
  iManufacturer :: byte
  iProduct :: byte
  iSerialNumber :: byte
  active_config :: "usb_config option"
  first_config :: "usb_config option"

definition LIBUSB_CLASS_HID :: byte where "LIBUSB_CLASS_HID = 3"

section \<open>The environment\<close>

datatype usb_call =
  CInit | CExit | CGetList
| COpen usb_device | CClose nat
| CString nat byte u16
| CKernelActive nat byte | CDetach nat byte | CClaim nat byte | CRelease nat byte
| CControlOut nat u16 byte "byte list"
| CControlIn nat u16 byte nat
| CInterruptOut nat byte "byte list"

text \<open>\<open>None\<close> stands for a negative result here.\<close>

record usb_env =
  env_init :: "usb_call list \<Rightarrow> int"
  env_list :: "usb_call list \<Rightarrow> usb_device list option"
  env_open :: "usb_call list \<Rightarrow> usb_device \<Rightarrow> int"
  env_string :: "usb_call list \<Rightarrow> usb_device \<Rightarrow> byte \<Rightarrow> u16 \<Rightarrow> byte list option"
  env_kernel_active :: "usb_call list \<Rightarrow> usb_device \<Rightarrow> byte \<Rightarrow> int"
  env_detach :: "usb_call list \<Rightarrow> usb_device \<Rightarrow> byte \<Rightarrow> int"
  env_claim :: "usb_call list \<Rightarrow> usb_device \<Rightarrow> byte \<Rightarrow> int"
  env_control_out :: "usb_call list \<Rightarrow> usb_device \<Rightarrow> u16 \<Rightarrow> byte \<Rightarrow> byte list \<Rightarrow> int"
  env_control_in :: "usb_call list \<Rightarrow> usb_device \<Rightarrow> u16 \<Rightarrow> byte \<Rightarrow> nat \<Rightarrow> byte list option"
  env_interrupt_out :: "usb_call list \<Rightarrow> usb_device \<Rightarrow> byte \<Rightarrow> byte list \<Rightarrow> int option"
  env_locale :: "string option"

section \<open>State\<close>

text \<open>
  \<open>struct hid_device_\<close>. The thread objects are counted (\<open>threads\<close>: read threads started and not
  joined), the mutex, condition and barrier have no state between calls. A report in the queue is
  its data.
\<close>

record hid_dev =
  device_handle :: "nat option"
  input_endpoint :: byte
  output_endpoint :: byte
  input_ep_max_packet_size :: u16
  interface :: byte
  manufacturer_index :: byte
  product_index :: byte
  serial_index :: byte
  blocking :: bool
  shutdown_thread :: bool
  threads :: nat
  input_reports :: "byte list list"

text \<open>
  The static \<open>usb_context\<close>, the allocated device structures by address, the open libusb handles with
  the device each refers to, the number of other heap blocks the file has allocated (device infos
  and strings), and the history.
\<close>

record ust =
  usb_context :: bool
  heap :: "nat \<Rightarrow> hid_dev option"
  next_dev :: nat
  handles :: "nat \<Rightarrow> usb_device option"
  next_handle :: nat
  ublocks :: int
  trace :: "usb_call list"

section \<open>Primitives\<close>

definition note_call :: "usb_call \<Rightarrow> ust \<Rightarrow> ust" where
  "note_call c s = s\<lparr>trace := trace s @ [c]\<rparr>"

definition libusb_init :: "usb_env \<Rightarrow> ust \<Rightarrow> int \<times> ust" where
  "libusb_init E s = (env_init E (trace s), note_call CInit s)"

definition libusb_get_device_list :: "usb_env \<Rightarrow> ust \<Rightarrow> usb_device list option \<times> ust" where
  "libusb_get_device_list E s = (env_list E (trace s), note_call CGetList s)"

definition libusb_open :: "usb_env \<Rightarrow> usb_device \<Rightarrow> ust \<Rightarrow> int \<times> nat \<times> ust" where
  "libusb_open E dev s =
     (let r = env_open E (trace s) dev; s1 = note_call (COpen dev) s; h = next_handle s in
      if r < 0 then (r, h, s1)
      else (r, h, s1\<lparr>handles := (handles s)(h \<mapsto> dev), next_handle := h + 1\<rparr>))"

definition libusb_close :: "nat \<Rightarrow> ust \<Rightarrow> ust option" where
  "libusb_close h s =
     (case handles s h of
        None \<Rightarrow> None
      | Some dev \<Rightarrow> Some ((note_call (CClose h) s)\<lparr>handles := (handles s)(h := None)\<rparr>))"

text \<open>\<open>on_handle h c f s\<close>: a call \<open>c\<close> on the open handle \<open>h\<close>, answered by \<open>f\<close>.\<close>

definition on_handle :: "nat \<Rightarrow> usb_call \<Rightarrow> (usb_call list \<Rightarrow> usb_device \<Rightarrow> 'r) \<Rightarrow> ust \<Rightarrow> ('r \<times> ust) option" where
  "on_handle h c f s = do { dev \<leftarrow> handles s h; Some (f (trace s) dev, note_call c s) }"

definition libusb_get_string_descriptor ::
    "usb_env \<Rightarrow> nat \<Rightarrow> byte \<Rightarrow> u16 \<Rightarrow> nat \<Rightarrow> ust \<Rightarrow> (byte list option \<times> ust) option" where
  "libusb_get_string_descriptor E h idx lang n s =
     on_handle h (CString h idx lang)
       (\<lambda>tr dev. map_option (take n) (env_string E tr dev idx lang)) s"

definition libusb_kernel_driver_active :: "usb_env \<Rightarrow> nat \<Rightarrow> byte \<Rightarrow> ust \<Rightarrow> (int \<times> ust) option" where
  "libusb_kernel_driver_active E h i s =
     on_handle h (CKernelActive h i) (\<lambda>tr dev. env_kernel_active E tr dev i) s"

definition libusb_detach_kernel_driver :: "usb_env \<Rightarrow> nat \<Rightarrow> byte \<Rightarrow> ust \<Rightarrow> (int \<times> ust) option" where
  "libusb_detach_kernel_driver E h i s =
     on_handle h (CDetach h i) (\<lambda>tr dev. env_detach E tr dev i) s"

definition libusb_claim_interface :: "usb_env \<Rightarrow> nat \<Rightarrow> byte \<Rightarrow> ust \<Rightarrow> (int \<times> ust) option" where
  "libusb_claim_interface E h i s = on_handle h (CClaim h i) (\<lambda>tr dev. env_claim E tr dev i) s"

definition libusb_release_interface :: "nat \<Rightarrow> byte \<Rightarrow> ust \<Rightarrow> (unit \<times> ust) option" where
  "libusb_release_interface h i s = on_handle h (CRelease h i) (\<lambda>tr dev. ()) s"

definition libusb_control_out ::
    "usb_env \<Rightarrow> nat \<Rightarrow> u16 \<Rightarrow> byte \<Rightarrow> byte list \<Rightarrow> ust \<Rightarrow> (int \<times> ust) option" where
  "libusb_control_out E h wValue wIndex data s =
     on_handle h (CControlOut h wValue wIndex data)
       (\<lambda>tr dev. env_control_out E tr dev wValue wIndex data) s"

definition libusb_control_in ::
    "usb_env \<Rightarrow> nat \<Rightarrow> u16 \<Rightarrow> byte \<Rightarrow> nat \<Rightarrow> ust \<Rightarrow> (byte list option \<times> ust) option" where
  "libusb_control_in E h wValue wIndex wLength s =
     on_handle h (CControlIn h wValue wIndex wLength)
       (\<lambda>tr dev. map_option (take wLength) (env_control_in E tr dev wValue wIndex wLength)) s"

definition libusb_interrupt_out ::
    "usb_env \<Rightarrow> nat \<Rightarrow> byte \<Rightarrow> byte list \<Rightarrow> ust \<Rightarrow> (int option \<times> ust) option" where
  "libusb_interrupt_out E h ep data s =
     on_handle h (CInterruptOut h ep data) (\<lambda>tr dev. env_interrupt_out E tr dev ep data) s"

lemmas libusb_handle_defs =
  libusb_get_string_descriptor_def libusb_kernel_driver_active_def libusb_detach_kernel_driver_def
  libusb_claim_interface_def libusb_release_interface_def libusb_control_out_def
  libusb_control_in_def libusb_interrupt_out_def

text \<open>\<open>traced s s'\<close>: only the history grew.\<close>

definition traced :: "ust \<Rightarrow> ust \<Rightarrow> bool" where
  "traced s s' \<longleftrightarrow> s' = s\<lparr>trace := trace s'\<rparr>"

lemma traced_refl [simp, intro]: "traced s s"
  by (simp add: traced_def)

lemma traced_note [simp, intro]: "traced s (note_call c s)"
  by (simp add: traced_def note_call_def)

lemma tracedD:
  assumes "traced s s'"
  shows "usb_context s' = usb_context s" "heap s' = heap s" "next_dev s' = next_dev s"
    "handles s' = handles s" "next_handle s' = next_handle s" "ublocks s' = ublocks s"
  using arg_cong [OF assms [unfolded traced_def], of usb_context]
    arg_cong [OF assms [unfolded traced_def], of heap]
    arg_cong [OF assms [unfolded traced_def], of next_dev]
    arg_cong [OF assms [unfolded traced_def], of handles]
    arg_cong [OF assms [unfolded traced_def], of next_handle]
    arg_cong [OF assms [unfolded traced_def], of ublocks]
  by simp_all

lemma traced_iff:
  "traced s s' \<longleftrightarrow> usb_context s' = usb_context s \<and> heap s' = heap s \<and> next_dev s' = next_dev s \<and>
    handles s' = handles s \<and> next_handle s' = next_handle s \<and> ublocks s' = ublocks s"
  (is "?l \<longleftrightarrow> ?r")
proof
  show "?l \<Longrightarrow> ?r" by (simp add: tracedD)
  show "?r \<Longrightarrow> ?l" by (simp add: traced_def)
qed

lemma traced_trans [trans]: "traced a b \<Longrightarrow> traced b c \<Longrightarrow> traced a c"
  by (simp add: traced_iff)

lemma on_handle_traced: "on_handle h c f s = Some (r, s') \<Longrightarrow> traced s s' \<and> handles s h \<noteq> None"
  by (auto simp: on_handle_def bind_Some_iff)

section \<open>Device paths\<close>

definition hex_char_of :: "nat \<Rightarrow> char" where
  "hex_char_of n = ''0123456789abcdef'' ! n"

fun hex_digits :: "nat \<Rightarrow> string" where
  "hex_digits n = (if n < 16 then [hex_char_of n] else hex_digits (n div 16) @ [hex_char_of (n mod 16)])"

definition zero_pad :: "nat \<Rightarrow> string \<Rightarrow> string" where
  "zero_pad w s = replicate (w - length s) CHR ''0'' @ s"

text \<open>
  \<open>snprintf (str, 64, "%04x:%04x:%02x", ...)\<close>: all three arguments are bytes, so the text has twelve
  characters and is never truncated.
\<close>

definition make_path :: "usb_device \<Rightarrow> byte \<Rightarrow> string" where
  "make_path dev ifnum =
     zero_pad 4 (hex_digits (unat (bus_number dev))) @ '':'' @
     zero_pad 4 (hex_digits (unat (device_address dev))) @ '':'' @
     zero_pad 2 (hex_digits (unat ifnum))"

declare hex_digits.simps [simp del]

lemma hex_byte:
  assumes "n < 256" "2 \<le> w"
  shows "zero_pad w (hex_digits n) =
    replicate (w - 2) CHR ''0'' @ [hex_char_of (n div 16), hex_char_of (n mod 16)]"
proof (cases "n < 16")
  case True
  then have "hex_digits n = [hex_char_of n]" by (simp add: hex_digits.simps)
  moreover have "replicate (w - 1) CHR ''0'' = replicate (w - 2) CHR ''0'' @ [CHR ''0'']"
    using assms(2) replicate_append_same [of "w - 2" "CHR ''0''"]
    by (simp add: numeral_2_eq_2 Suc_diff_Suc [symmetric] del: replicate_append_same)
  ultimately show ?thesis using True by (simp add: zero_pad_def hex_char_of_def)
next
  case False
  have "n div 16 < 16" using assms(1) by simp
  then have "hex_digits n = [hex_char_of (n div 16), hex_char_of (n mod 16)]"
    using False by (simp add: hex_digits.simps [of n] hex_digits.simps [of "n div 16"])
  then show ?thesis by (simp add: zero_pad_def)
qed

lemma hex_char_of_inj: "a < 16 \<Longrightarrow> b < 16 \<Longrightarrow> hex_char_of a = hex_char_of b \<Longrightarrow> a = b"
proof -
  have "distinct ''0123456789abcdef''" by code_simp
  then show "a < 16 \<Longrightarrow> b < 16 \<Longrightarrow> hex_char_of a = hex_char_of b \<Longrightarrow> a = b"
    unfolding hex_char_of_def by (subst (asm) nth_eq_iff_index_eq) simp_all
qed

lemma hex_byte_inj:
  assumes "2 \<le> w" "zero_pad w (hex_digits (unat (a :: byte))) = zero_pad w (hex_digits (unat b))"
  shows "a = b"
proof -
  have "hex_char_of (unat a div 16) = hex_char_of (unat b div 16)"
    "hex_char_of (unat a mod 16) = hex_char_of (unat b mod 16)"
    using assms by (simp_all add: hex_byte)
  then have "unat a div 16 = unat b div 16" "unat a mod 16 = unat b mod 16"
    using hex_char_of_inj unat_byte_less [of a] unat_byte_less [of b]
    by (simp_all add: less_mult_imp_div_less)
  then have "unat a = unat b" by (metis div_mult_mod_eq)
  then show ?thesis using word_eq_iff_unsigned by blast
qed

lemma hex_byte_length: "2 \<le> w \<Longrightarrow> length (zero_pad w (hex_digits (unat (a :: byte)))) = w"
  by (simp add: hex_byte)

lemma make_path_eq_iff:
  "make_path d i = make_path e j \<longleftrightarrow>
    bus_number d = bus_number e \<and> device_address d = device_address e \<and> i = j"
proof
  assume "make_path d i = make_path e j"
  then have "zero_pad 4 (hex_digits (unat (bus_number d))) = zero_pad 4 (hex_digits (unat (bus_number e)))"
    "zero_pad 4 (hex_digits (unat (device_address d))) = zero_pad 4 (hex_digits (unat (device_address e)))"
    "zero_pad 2 (hex_digits (unat i)) = zero_pad 2 (hex_digits (unat j))"
    by (simp_all add: make_path_def append_eq_append_conv hex_byte_length)
  then show "bus_number d = bus_number e \<and> device_address d = device_address e \<and> i = j"
    by (auto dest: hex_byte_inj [rotated])
qed (simp add: make_path_def)

text \<open>
  A path names one interface of one device: two paths are equal only if bus, device address and
  interface number are. Every path has twelve characters, well inside the 64 byte buffer.
\<close>

theorem make_path_identifies:
  "(make_path d i = make_path e j \<longleftrightarrow>
      bus_number d = bus_number e \<and> device_address d = device_address e \<and> i = j) \<and>
   length (make_path d i) = 12"
  by (simp add: make_path_eq_iff) (simp add: make_path_def hex_byte_length)

end
