(* ===== verification/LangMap.thy ===== *)
theory LangMap
  imports Prelude "HOL-Library.AList"
begin

text \<open>
  The language table of \<^verbatim>\<open>token-DLL/lib/hid-libusb.c\<close> and \<open>get_usb_code_for_current_locale\<close>, which
  picks the language id the strings of a device are requested in. A C string is the list of its
  characters in front of the terminating zero.
\<close>

section \<open>The table\<close>

text \<open>An entry is its locale name and its USB code; the English name in the first column is never read.\<close>

definition lang_map :: "(string \<times> u16) list" where
  "lang_map =
    [(''af'', 0x0436), (''sq'', 0x041C), (''ar_ae'', 0x3801), (''ar_bh'', 0x3C01),
     (''ar_dz'', 0x1401), (''ar_eg'', 0x0C01), (''ar_iq'', 0x0801), (''ar_jo'', 0x2C01),
     (''ar_kw'', 0x3401), (''ar_lb'', 0x3001), (''ar_ly'', 0x1001), (''ar_ma'', 0x1801),
     (''ar_om'', 0x2001), (''ar_qa'', 0x4001), (''ar_sa'', 0x0401), (''ar_sy'', 0x2801),
     (''ar_tn'', 0x1C01), (''ar_ye'', 0x2401), (''hy'', 0x042B), (''az_az'', 0x042C),
     (''az_az'', 0x082C), (''eu'', 0x042D), (''be'', 0x0423), (''bg'', 0x0402),
     (''ca'', 0x0403), (''zh_cn'', 0x0804), (''zh_hk'', 0x0C04), (''zh_mo'', 0x1404),
     (''zh_sg'', 0x1004), (''zh_tw'', 0x0404), (''hr'', 0x041A), (''cs'', 0x0405),
     (''da'', 0x0406), (''nl_nl'', 0x0413), (''nl_be'', 0x0813), (''en_au'', 0x0C09),
     (''en_bz'', 0x2809), (''en_ca'', 0x1009), (''en_cb'', 0x2409), (''en_ie'', 0x1809),
     (''en_jm'', 0x2009), (''en_nz'', 0x1409), (''en_ph'', 0x3409), (''en_za'', 0x1C09),
     (''en_tt'', 0x2C09), (''en_gb'', 0x0809), (''en_us'', 0x0409), (''et'', 0x0425),
     (''fa'', 0x0429), (''fi'', 0x040B), (''fo'', 0x0438), (''fr_fr'', 0x040C),
     (''fr_be'', 0x080C), (''fr_ca'', 0x0C0C), (''fr_lu'', 0x140C), (''fr_ch'', 0x100C),
     (''gd_ie'', 0x083C), (''gd'', 0x043C), (''de_de'', 0x0407), (''de_at'', 0x0C07),
     (''de_li'', 0x1407), (''de_lu'', 0x1007), (''de_ch'', 0x0807), (''el'', 0x0408),
     (''he'', 0x040D), (''hi'', 0x0439), (''hu'', 0x040E), (''is'', 0x040F),
     (''id'', 0x0421), (''it_it'', 0x0410), (''it_ch'', 0x0810), (''ja'', 0x0411),
     (''ko'', 0x0412), (''lv'', 0x0426), (''lt'', 0x0427), (''mk'', 0x042F),
     (''ms_my'', 0x043E), (''ms_bn'', 0x083E), (''mt'', 0x043A), (''mr'', 0x044E),
     (''no_no'', 0x0414), (''no_no'', 0x0814), (''pl'', 0x0415), (''pt_pt'', 0x0816),
     (''pt_br'', 0x0416), (''rm'', 0x0417), (''ro'', 0x0418), (''ro_mo'', 0x0818),
     (''ru'', 0x0419), (''ru_mo'', 0x0819), (''sa'', 0x044F), (''sr_sp'', 0x0C1A),
     (''sr_sp'', 0x081A), (''tn'', 0x0432), (''sl'', 0x0424), (''sk'', 0x041B),
     (''sb'', 0x042E), (''es_es'', 0x040A), (''es_ar'', 0x2C0A), (''es_bo'', 0x400A),
     (''es_cl'', 0x340A), (''es_co'', 0x240A), (''es_cr'', 0x140A), (''es_do'', 0x1C0A),
     (''es_ec'', 0x300A), (''es_gt'', 0x100A), (''es_hn'', 0x480A), (''es_mx'', 0x080A),
     (''es_ni'', 0x4C0A), (''es_pa'', 0x180A), (''es_pe'', 0x280A), (''es_pr'', 0x500A),
     (''es_py'', 0x3C0A), (''es_sv'', 0x440A), (''es_uy'', 0x380A), (''es_ve'', 0x200A),
     (''st'', 0x0430), (''sw'', 0x0441), (''sv_se'', 0x041D), (''sv_fi'', 0x081D),
     (''ta'', 0x0449), (''tt'', 0x0444), (''th'', 0x041E), (''tr'', 0x041F),
     (''ts'', 0x0431), (''uk'', 0x0422), (''ur'', 0x0420), (''uz_uz'', 0x0843),
     (''uz_uz'', 0x0443), (''vi'', 0x042A), (''xh'', 0x0434), (''yi'', 0x043D),
     (''zu'', 0x0435)]"

section \<open>The lookup\<close>

text \<open>\<open>tolower\<close> on ASCII characters; the locale names the function sees are ASCII.\<close>

definition tolower :: "char \<Rightarrow> char" where
  "tolower c = (let n = of_char c :: nat in if 65 \<le> n \<and> n \<le> 90 then char_of (n + 32) else c)"

text \<open>The loop that lowers the string and cuts it at the character \<open>stop\<close>.\<close>

fun chop_at :: "char \<Rightarrow> string \<Rightarrow> string" where
  "chop_at stop [] = []"
| "chop_at stop (c # cs) =
     (let c' = tolower c in if c' = stop then [] else c' # chop_at stop cs)"

fun find_lang :: "string \<Rightarrow> (string \<times> u16) list \<Rightarrow> u16 option" where
  "find_lang s [] = None"
| "find_lang s ((code, usb) # es) = (if code = s then Some usb else find_lang s es)"

text \<open>
  \<open>strncpy\<close> into 64 bytes keeps 63 characters. The string is cut at the encoding and looked up; then
  it is cut at the variant as well, but the second search is compiled out (\<open>#if 0\<close>).
\<close>

definition get_usb_code_for_current_locale :: "string option \<Rightarrow> u16" where
  "get_usb_code_for_current_locale locale =
     (case locale of
        None \<Rightarrow> 0
      | Some l \<Rightarrow>
          let search_string = chop_at CHR ''.'' (take 63 l) in
          case find_lang search_string lang_map of
            Some code \<Rightarrow> code
          | None \<Rightarrow> let search_string' = chop_at CHR ''_'' search_string in 0)"

section \<open>What it computes\<close>

lemma chop_at_eq:
  "tolower stop = stop \<Longrightarrow> \<forall>c. tolower c = stop \<longrightarrow> c = stop \<Longrightarrow>
    chop_at stop cs = map tolower (takeWhile (\<lambda>c. c \<noteq> stop) cs)"
  by (induction cs) (auto simp: Let_def)

lemma tolower_dot: "tolower c = CHR ''.'' \<longleftrightarrow> c = CHR ''.''"
proof
  assume h: "tolower c = CHR ''.''"
  show "c = CHR ''.''"
  proof (cases "65 \<le> (of_char c :: nat) \<and> (of_char c :: nat) \<le> 90")
    case True
    then have "of_char (tolower c) = (of_char c + 32 :: nat)"
      by (simp add: tolower_def Let_def)
    moreover have "of_char (tolower c) = (46 :: nat)" using h by simp
    ultimately show ?thesis using True by simp
  qed (use h in \<open>auto simp: tolower_def Let_def\<close>)
qed (simp add: tolower_def)

lemma find_lang_map_of: "find_lang s es = map_of es s"
  by (induction s es rule: find_lang.induct) auto

lemma find_lang_first:
  assumes "find_lang s es = Some u"
  shows "\<exists>i < length es. es ! i = (s, u) \<and> (\<forall>j < i. fst (es ! j) \<noteq> s)"
  using assms
proof (induction es)
  case (Cons e es)
  obtain c v where e: "e = (c, v)" by (cases e)
  show ?case
  proof (cases "c = s")
    case True
    then show ?thesis using Cons.prems e by (intro exI [of _ 0]) simp
  next
    case False
    then obtain i where "i < length es" "es ! i = (s, u)" "\<forall>j < i. fst (es ! j) \<noteq> s"
      using Cons e by auto
    then show ?thesis using False e by (intro exI [of _ "Suc i"]) (auto simp: nth_Cons split: nat.splits)
  qed
qed simp

lemma find_lang_clearjunk:
  assumes "find_lang s es = Some u"
  shows "u \<in> snd ` set (AList.clearjunk es)"
proof -
  have "map_of (AList.clearjunk es) s = Some u"
    using assms by (simp add: find_lang_map_of map_of_clearjunk)
  then show ?thesis by (force dest: map_of_SomeD)
qed

text \<open>
  The function looks up the locale without its encoding and in lower case, cut at 63 characters;
  anything that is not in the table, a bare language like \<open>de\<close> included, yields 0. (The comment in the
  code announces a second search by the language alone, which is compiled out.)
\<close>

theorem usb_code_is_table_lookup:
  "get_usb_code_for_current_locale None = 0 \<and>
   get_usb_code_for_current_locale (Some l) =
     (case map_of lang_map (map tolower (takeWhile (\<lambda>c. c \<noteq> CHR ''.'') (take 63 l))) of
        Some code \<Rightarrow> code | None \<Rightarrow> 0) \<and>
   get_usb_code_for_current_locale (Some ''de'') = 0 \<and>
   get_usb_code_for_current_locale (Some ''de_DE.UTF-8'') = 0x0407"
proof -
  have "chop_at CHR ''.'' cs = map tolower (takeWhile (\<lambda>c. c \<noteq> CHR ''.'') cs)" for cs
    using chop_at_eq [of "CHR ''.''"] tolower_dot by blast
  then have eq: "get_usb_code_for_current_locale (Some l) =
     (case map_of lang_map (map tolower (takeWhile (\<lambda>c. c \<noteq> CHR ''.'') (take 63 l))) of
        Some code \<Rightarrow> code | None \<Rightarrow> 0)" for l
    by (simp add: get_usb_code_for_current_locale_def find_lang_map_of Let_def split: option.split)
  have "get_usb_code_for_current_locale (Some ''de'') = 0"
    "get_usb_code_for_current_locale (Some ''de_DE.UTF-8'') = 0x0407"
    by code_simp+
  with eq show ?thesis by (simp add: get_usb_code_for_current_locale_def)
qed

text \<open>
  Four entries of the table can never be reached, because an earlier one has the same locale
  name: the codes of Azeri (Cyrillic), Norwegian (Nynorsk), Serbian (Latin) and Uzbek (Latin) are
  never returned, whatever the locale.
\<close>

theorem usb_code_unreachable_entries:
  "get_usb_code_for_current_locale l \<noteq> 0x082C \<and> get_usb_code_for_current_locale l \<noteq> 0x0814 \<and>
   get_usb_code_for_current_locale l \<noteq> 0x081A \<and> get_usb_code_for_current_locale l \<noteq> 0x0443"
proof -
  have "list_all (\<lambda>e. snd e \<noteq> 0x082C \<and> snd e \<noteq> 0x0814 \<and> snd e \<noteq> 0x081A \<and> snd e \<noteq> 0x0443)
      (AList.clearjunk lang_map)"
    by code_simp
  then have "u \<noteq> 0x082C \<and> u \<noteq> 0x0814 \<and> u \<noteq> 0x081A \<and> u \<noteq> 0x0443"
    if "find_lang s lang_map = Some u" for s u
    using find_lang_clearjunk [OF that] by (auto simp: list_all_iff)
  then show ?thesis
    by (auto simp: get_usb_code_for_current_locale_def Let_def split: option.splits)
qed

end
