(* ===== verification/UsbStrings.thy ===== *)
theory UsbStrings
  imports UsbBus LangMap
begin

text \<open>
  String descriptors in \<^verbatim>\<open>token-DLL/lib/hid-libusb.c\<close>: which language a string is requested in
  (\<open>get_first_language\<close>, \<open>is_language_supported\<close>) and how its UTF-16LE text becomes a wide string
  (\<open>get_usb_string\<close>, with \<open>iconv\<close> written out).

  The host is little endian, so that an element of the \<open>uint16_t buf[32]\<close> the bytes were received
  into is low byte first.
\<close>

section \<open>Languages\<close>

definition u16_of :: "byte \<Rightarrow> byte \<Rightarrow> u16" where
  "u16_of lo hi = ucast hi * 256 + ucast lo"

text \<open>\<open>buf[i]\<close> of the array of 16 bit words; only the received bytes are ever looked at.\<close>

definition u16_at :: "byte list \<Rightarrow> nat \<Rightarrow> u16 option" where
  "u16_at bs i = do { lo \<leftarrow> rd bs (2 * i); hi \<leftarrow> rd bs (2 * i + 1); Some (u16_of lo hi) }"

definition get_first_language :: "usb_env \<Rightarrow> nat \<Rightarrow> ust \<Rightarrow> (u16 \<times> ust) option" where
  "get_first_language E h s = do {
     (r, s1) \<leftarrow> libusb_get_string_descriptor E h 0 0 64 s;
     case r of
       None \<Rightarrow> Some (0, s1)
     | Some buf \<Rightarrow>
         if length buf < 4 then Some (0, s1)
         else do { l \<leftarrow> u16_at buf 1; Some (l, s1) }
   }"

fun lang_listed :: "byte list \<Rightarrow> u16 \<Rightarrow> nat list \<Rightarrow> bool option" where
  "lang_listed buf lang [] = Some False"
| "lang_listed buf lang (i # is) = do {
     l \<leftarrow> u16_at buf i;
     if l = lang then Some True else lang_listed buf lang is
   }"

definition is_language_supported :: "usb_env \<Rightarrow> nat \<Rightarrow> u16 \<Rightarrow> ust \<Rightarrow> (bool \<times> ust) option" where
  "is_language_supported E h lang s = do {
     (r, s1) \<leftarrow> libusb_get_string_descriptor E h 0 0 64 s;
     case r of
       None \<Rightarrow> Some (False, s1)
     | Some buf \<Rightarrow>
         if length buf < 4 then Some (False, s1)
         else do { b \<leftarrow> lang_listed buf lang [1..<length buf div 2]; Some (b, s1) }
   }"

section \<open>UTF-16LE\<close>

text \<open>
  \<open>iconv\<close> from UTF-16LE to \<open>wchar_t\<close>: \<open>None\<close> is its result -1, for an odd number of bytes or a
  surrogate that is not half of a pair.
\<close>

fun utf16_units :: "byte list \<Rightarrow> u16 list option" where
  "utf16_units [] = Some []"
| "utf16_units [b] = None"
| "utf16_units (lo # hi # bs) = map_option ((#) (u16_of lo hi)) (utf16_units bs)"

definition high_surrogate :: "u16 \<Rightarrow> bool" where
  "high_surrogate u \<longleftrightarrow> 0xD800 \<le> u \<and> u < 0xDC00"

definition low_surrogate :: "u16 \<Rightarrow> bool" where
  "low_surrogate u \<longleftrightarrow> 0xDC00 \<le> u \<and> u < 0xE000"

fun utf16_decode :: "u16 list \<Rightarrow> wchar list option" where
  "utf16_decode [] = Some []"
| "utf16_decode [u] = (if high_surrogate u \<or> low_surrogate u then None else Some [ucast u])"
| "utf16_decode (u # v # us) =
     (if high_surrogate u then
        (if low_surrogate v
         then map_option ((#) (0x10000 + (ucast u - 0xD800) * 0x400 + (ucast v - 0xDC00))) (utf16_decode us)
         else None)
      else if low_surrogate u then None
      else map_option ((#) (ucast u)) (utf16_decode (v # us)))"

definition iconv_utf16le :: "byte list \<Rightarrow> wchar list option" where
  "iconv_utf16le bs = Option.bind (utf16_units bs) utf16_decode"

text \<open>
  \<open>get_usb_string\<close>: the first element is the string (or NULL). \<open>len - 2\<close> is unsigned, so a
  descriptor of less than two bytes sends \<open>iconv\<close> past the buffer. 510 bytes are at most 255
  characters, so \<open>wbuf[256]\<close> is never full and the text is always terminated; \<open>wcsdup\<close> copies it up
  to the first NUL.
\<close>

definition get_usb_string :: "usb_env \<Rightarrow> nat \<Rightarrow> byte \<Rightarrow> ust \<Rightarrow> (wchar list option \<times> ust) option" where
  "get_usb_string E h idx s = do {
     let lang0 = get_usb_code_for_current_locale (env_locale E);
     (sup, s1) \<leftarrow> is_language_supported E h lang0 s;
     (lang, s2) \<leftarrow> (if sup then Some (lang0, s1) else get_first_language E h s1);
     (r, s3) \<leftarrow> libusb_get_string_descriptor E h idx lang 512 s2;
     case r of
       None \<Rightarrow> Some (None, s3)
     | Some buf \<Rightarrow>
         if length buf < 2 then None
         else (case iconv_utf16le (drop 2 buf) of
             None \<Rightarrow> Some (None, s3)
           | Some w \<Rightarrow> Some (Some (takeWhile (\<lambda>c. c \<noteq> 0) w), s3\<lparr>ublocks := ublocks s3 + 1\<rparr>))
   }"

section \<open>Lemmas\<close>

lemma string_descriptor_traced:
  "libusb_get_string_descriptor E h idx lang n s = Some (r, s') \<Longrightarrow>
    traced s s' \<and> handles s h \<noteq> None \<and> (\<forall>buf. r = Some buf \<longrightarrow> length buf \<le> n)"
  by (auto simp: libusb_get_string_descriptor_def on_handle_def bind_Some_iff)

lemma first_language_traced: "get_first_language E h s = Some (l, s') \<Longrightarrow> traced s s'"
  by (auto simp: get_first_language_def bind_Some_iff split: option.splits if_splits
      dest!: string_descriptor_traced)

lemma language_supported_traced: "is_language_supported E h lang s = Some (b, s') \<Longrightarrow> traced s s'"
  by (auto simp: is_language_supported_def bind_Some_iff split: option.splits if_splits
      dest!: string_descriptor_traced)

text \<open>\<open>plus_blocks n s s'\<close>: the history grew, and \<open>n\<close> heap blocks were allocated.\<close>

definition plus_blocks :: "int \<Rightarrow> ust \<Rightarrow> ust \<Rightarrow> bool" where
  "plus_blocks n s s' \<longleftrightarrow> traced (s\<lparr>ublocks := ublocks s + n\<rparr>) s'"

lemma plus_blocks_traced: "traced s s' \<longleftrightarrow> plus_blocks 0 s s'"
  by (simp add: plus_blocks_def)

lemma plus_blocks_trans: "plus_blocks m a b \<Longrightarrow> plus_blocks n b c \<Longrightarrow> plus_blocks (m + n) a c"
  by (simp add: plus_blocks_def traced_iff)

lemma get_usb_string_blocks:
  assumes "get_usb_string E h idx s = Some (str, s')"
  shows "plus_blocks (some_block str) s s'"
proof -
  from assms obtain sup s1 lang s2 r s3 where
    a: "is_language_supported E h (get_usb_code_for_current_locale (env_locale E)) s = Some (sup, s1)"
    and b: "(if sup then Some (get_usb_code_for_current_locale (env_locale E), s1)
      else get_first_language E h s1) = Some (lang, s2)"
    and c: "libusb_get_string_descriptor E h idx lang 512 s2 = Some (r, s3)"
    and d: "(str = None \<and> s' = s3) \<or> (\<exists>w. str = Some w \<and> s' = s3\<lparr>ublocks := ublocks s3 + 1\<rparr>)"
    unfolding get_usb_string_def Let_def
    by (elim bind_SomeE) (auto elim!: bind_SomeE split: option.splits if_splits)
  have "traced s s1" "traced s1 s2" "traced s2 s3"
    using language_supported_traced [OF a] b first_language_traced string_descriptor_traced [OF c]
    by (auto split: if_splits)
  then have "traced s s3" using traced_trans by blast
  then show ?thesis using d by (auto simp: plus_blocks_def traced_iff some_block_def)
qed

text \<open>Encoding, the specification the decoder is checked against.\<close>

definition utf16_encode_char :: "wchar \<Rightarrow> u16 list" where
  "utf16_encode_char c =
     (if c < 0x10000 then [ucast c]
      else [0xD800 + ucast (drop_bit 10 (c - 0x10000)), 0xDC00 + ucast (take_bit 10 (c - 0x10000))])"

definition unit_bytes :: "u16 \<Rightarrow> byte list" where
  "unit_bytes u = [ucast u, ucast (drop_bit 8 u)]"

definition utf16le :: "wchar list \<Rightarrow> byte list" where
  "utf16le cs = concat (map unit_bytes (concat (map utf16_encode_char cs)))"

text \<open>A Unicode scalar value.\<close>

definition scalar :: "wchar \<Rightarrow> bool" where
  "scalar c \<longleftrightarrow> c < 0x110000 \<and> \<not> (0xD800 \<le> c \<and> c < 0xE000)"

lemma unat_u16_of: "unat (u16_of lo hi) = unat hi * 256 + unat lo"
proof -
  have "unat hi < 256" "unat lo < 256" by simp_all
  then have "unat hi * 256 + unat lo < 65536" by linarith
  then show ?thesis
    by (simp add: u16_of_def unat_word_ariths unsigned_ucast_eq take_bit_eq_mod)
qed

lemma unat_byte_of: "unat (ucast (u :: u16) :: byte) = unat u mod 256"
  "unat (ucast (drop_bit 8 (u :: u16)) :: byte) = unat u div 256"
proof -
  have "unat u < 65536" using unsigned_less [of u] by simp
  then show "unat (ucast u :: byte) = unat u mod 256" "unat (ucast (drop_bit 8 u) :: byte) = unat u div 256"
    by (simp_all only: unsigned_ucast_eq take_bit_eq_mod unat_drop_bit_eq)
      (simp_all add: drop_bit_eq_div)
qed

lemma u16_of_bytes: "u16_of (ucast u) (ucast (drop_bit 8 u)) = u"
proof -
  have "unat (u16_of (ucast u) (ucast (drop_bit 8 u))) = unat u"
    unfolding unat_u16_of unat_byte_of(2) unfolding unat_byte_of(1) by simp
  then show ?thesis using word_eq_iff_unsigned by blast
qed

lemma utf16_units_bytes: "utf16_units (concat (map unit_bytes us)) = Some us"
  by (induction us) (simp_all add: unit_bytes_def u16_of_bytes)

lemma unat_ucast_up: "unat (ucast (u :: u16) :: wchar) = unat u"
proof -
  have "unat u < 65536" using unsigned_less [of u] by simp
  then show ?thesis by (simp add: unsigned_ucast_eq take_bit_eq_mod)
qed

lemma unat_ucast_down: "unat (ucast (c :: wchar) :: u16) = unat c mod 65536"
  by (simp add: unsigned_ucast_eq take_bit_eq_mod)

lemma surrogate_nat:
  "high_surrogate u \<longleftrightarrow> 0xD800 \<le> unat u \<and> unat u < 0xDC00"
  "low_surrogate u \<longleftrightarrow> 0xDC00 \<le> unat u \<and> unat u < 0xE000"
  by (simp_all add: high_surrogate_def low_surrogate_def word_le_nat_alt word_less_nat_alt)

lemma scalar_nat: "scalar c \<longleftrightarrow> unat c < 0x110000 \<and> \<not> (0xD800 \<le> unat c \<and> unat c < 0xE000)"
  by (simp add: scalar_def word_le_nat_alt word_less_nat_alt)

lemma pair_nat:
  fixes c :: wchar
  assumes "0x10000 \<le> unat c" "unat c < 0x110000"
  defines "x \<equiv> c - 0x10000"
  shows "unat x = unat c - 0x10000"
    "unat (0xD800 + ucast (drop_bit 10 x) :: u16) = 0xD800 + unat x div 1024"
    "unat (0xDC00 + ucast (take_bit 10 x) :: u16) = 0xDC00 + unat x mod 1024"
proof -
  show x: "unat x = unat c - 0x10000"
    unfolding x_def using assms(1) by (subst unat_sub) (simp_all add: word_le_nat_alt)
  then have xb: "unat x < 0x100000" using assms(2) by simp
  then have "unat x div 1024 < 1024" by simp
  then show "unat (0xD800 + ucast (drop_bit 10 x) :: u16) = 0xD800 + unat x div 1024"
    by (simp add: unat_word_ariths unsigned_ucast_eq take_bit_eq_mod unat_drop_bit_eq drop_bit_eq_div)
  have "unat x mod 1024 < 1024" by simp
  then show "unat (0xDC00 + ucast (take_bit 10 x) :: u16) = 0xDC00 + unat x mod 1024"
    by (simp add: unat_word_ariths unsigned_ucast_eq take_bit_eq_mod unsigned_take_bit_eq take_bit_eq_mod)
qed

lemma utf16_decode_char:
  assumes "scalar c"
  shows "utf16_decode (utf16_encode_char c @ us) = map_option ((#) c) (utf16_decode us)"
proof (cases "unat c < 0x10000")
  case True
  then have e: "utf16_encode_char c = [ucast c]"
    by (simp add: utf16_encode_char_def word_less_nat_alt)
  have u: "unat (ucast c :: u16) = unat c" using True by (simp add: unat_ucast_down)
  then have ns: "\<not> high_surrogate (ucast c)" "\<not> low_surrogate (ucast c)"
    using assms by (auto simp: surrogate_nat scalar_nat)
  have "unat (ucast (ucast c :: u16) :: wchar) = unat c" by (simp add: unat_ucast_up u)
  then have "ucast (ucast c :: u16) = c" using word_eq_iff_unsigned by blast
  then show ?thesis using ns by (cases us) (simp_all add: e)
next
  case False
  then have b: "0x10000 \<le> unat c" "unat c < 0x110000" using assms by (simp_all add: scalar_nat)
  let ?x = "c - 0x10000"
  let ?h = "0xD800 + ucast (drop_bit 10 ?x) :: u16" and ?l = "0xDC00 + ucast (take_bit 10 ?x) :: u16"
  have e: "utf16_encode_char c = [?h, ?l]"
    using False by (simp add: utf16_encode_char_def word_less_nat_alt)
  note p = pair_nat [OF b]
  have q: "unat ?x div 1024 < 1024" "unat ?x mod 1024 < 1024" using p(1) b(2) by simp_all
  have s: "high_surrogate ?h" "low_surrogate ?l"
    using p(2,3) q by (simp_all add: surrogate_nat)
  have a: "unat (ucast ?h - 0xD800 :: wchar) = unat ?x div 1024"
    using p(2) by (subst unat_sub) (simp_all add: word_le_nat_alt unat_ucast_up)
  have a': "unat (ucast ?l - 0xDC00 :: wchar) = unat ?x mod 1024"
    using p(3) by (subst unat_sub) (simp_all add: word_le_nat_alt unat_ucast_up)
  have "unat (0x10000 + (ucast ?h - 0xD800) * 0x400 + (ucast ?l - 0xDC00) :: wchar) = unat c"
    using p(1) b q unfolding unat_word_ariths a a' by simp
  then have "0x10000 + (ucast ?h - 0xD800) * 0x400 + (ucast ?l - 0xDC00) = c"
    using word_eq_iff_unsigned by blast
  then show ?thesis using s by (simp add: e)
qed

lemma utf16_decode_encode:
  assumes "list_all scalar cs"
  shows "utf16_decode (concat (map utf16_encode_char cs)) = Some cs"
  using assms by (induction cs) (simp_all add: utf16_decode_char)

lemma iconv_utf16le_encode:
  assumes "list_all scalar cs"
  shows "iconv_utf16le (utf16le cs) = Some cs"
  using assms by (simp add: iconv_utf16le_def utf16le_def utf16_units_bytes utf16_decode_encode)

text \<open>
  The text of a string descriptor is decoded without loss: the UTF-16LE encoding of a list of
  Unicode characters, supplementary ones included, is read back as that list; text of odd length or
  with a lone surrogate is rejected.
\<close>

lemma utf16_roundtrip:
  assumes "list_all scalar cs"
  shows "iconv_utf16le (utf16le cs) = Some cs \<and> iconv_utf16le (utf16le cs @ [b]) = None"
proof -
  have odd: "utf16_units (concat (map unit_bytes us) @ [b]) = None" for us
    by (induction us) (simp_all add: unit_bytes_def)
  then show ?thesis
    using iconv_utf16le_encode [OF assms] by (simp add: iconv_utf16le_def utf16le_def)
qed

section \<open>Whole strings\<close>

text \<open>
  A device that answers requests for string 0 with a list of languages and for string \<open>idx\<close>, in the
  language the code settles on, with the encoding of \<open>cs\<close>.
\<close>

definition offers_string :: "usb_env \<Rightarrow> usb_device \<Rightarrow> byte \<Rightarrow> wchar list \<Rightarrow> bool" where
  "offers_string E dev idx cs \<longleftrightarrow>
     list_all (\<lambda>c. c \<noteq> 0 \<and> scalar c) cs \<and> length (utf16le cs) \<le> 510 \<and>
     (\<forall>tr lang. \<exists>b0 b1. env_string E tr dev idx lang = Some (b0 # b1 # utf16le cs))"

lemma takeWhile_nonzero: "list_all (\<lambda>c. c \<noteq> 0 \<and> scalar c) cs \<Longrightarrow> takeWhile (\<lambda>c. c \<noteq> 0) cs = cs"
  by (induction cs) auto

lemma lang_listed_defined:
  "\<forall>i\<in>set is. 2 * i + 1 < length buf \<Longrightarrow> \<exists>b. lang_listed buf lang is = Some b"
  by (induction "is") (auto simp: u16_at_def rd_def)

lemma language_supported_returns:
  assumes "handles s h = Some dev"
  shows "\<exists>b s'. is_language_supported E h lang s = Some (b, s')"
proof -
  let ?r = "map_option (take 64) (env_string E (trace s) dev 0 0)"
  have d: "libusb_get_string_descriptor E h 0 0 64 s = Some (?r, note_call (CString h 0 0) s)"
    using assms by (simp add: libusb_get_string_descriptor_def on_handle_def)
  have "\<exists>b. lang_listed buf lang [1..<length buf div 2] = Some b" for buf
    by (rule lang_listed_defined) auto
  then obtain f where "\<And>buf. lang_listed buf lang [1..<length buf div 2] = Some (f buf)" by metis
  then show ?thesis
    by (cases ?r) (simp_all only: is_language_supported_def d bind.bind_lunit prod.case option.case, auto)
qed

lemma first_language_returns:
  assumes "handles s h = Some dev"
  shows "\<exists>l s'. get_first_language E h s = Some (l, s')"
  using assms
  by (auto simp: get_first_language_def libusb_get_string_descriptor_def on_handle_def u16_at_def rd_def
      split: option.splits)

lemma get_usb_string_ok:
  assumes "handles s h = Some dev" "offers_string E dev idx cs"
  shows "\<exists>s'. get_usb_string E h idx s = Some (Some cs, s') \<and> plus_blocks 1 s s'"
proof -
  let ?l0 = "get_usb_code_for_current_locale (env_locale E)"
  obtain sup s1 where a: "is_language_supported E h ?l0 s = Some (sup, s1)"
    using language_supported_returns [OF assms(1)] by blast
  have h1: "handles s1 h = Some dev"
    using language_supported_traced [OF a] assms(1) by (simp add: traced_iff)
  obtain lang s2 where b: "(if sup then Some (?l0, s1) else get_first_language E h s1) = Some (lang, s2)"
    using first_language_returns [OF h1, of E] by (cases sup) auto
  have h2: "handles s2 h = Some dev"
    using b first_language_traced h1 by (cases sup) (auto simp: traced_iff)
  obtain b0 b1 where o: "env_string E (trace s2) dev idx lang = Some (b0 # b1 # utf16le cs)"
    and cs: "list_all (\<lambda>c. c \<noteq> 0 \<and> scalar c) cs" "length (utf16le cs) \<le> 510"
    using assms(2) unfolding offers_string_def by blast
  have "list_all scalar cs" using cs(1) by (simp add: list_all_iff)
  then have dec: "iconv_utf16le (utf16le cs) = Some cs" by (rule iconv_utf16le_encode)
  let ?s3 = "note_call (CString h idx lang) s2"
  have c: "libusb_get_string_descriptor E h idx lang 512 s2 = Some (Some (b0 # b1 # utf16le cs), ?s3)"
    using h2 o cs(2) by (simp add: libusb_get_string_descriptor_def on_handle_def)
  have g: "get_usb_string E h idx s = Some (Some cs, ?s3\<lparr>ublocks := ublocks ?s3 + 1\<rparr>)"
    unfolding get_usb_string_def Let_def a bind.bind_lunit prod.case b c
    using dec takeWhile_nonzero [OF cs(1)] by simp
  then show ?thesis using get_usb_string_blocks [OF g] by auto
qed

end
