(* ===== verification/HidLibusb.thy ===== *)
theory HidLibusb
  imports UsbStrings
begin

text \<open>
  The libusb implementation of HIDAPI, \<^verbatim>\<open>token-DLL/lib/hid-libusb.c\<close> (the same file is
  \<^verbatim>\<open>hidapi-master/libusb/hid.c\<close>): initialisation, enumeration, opening and closing, output and feature
  reports, strings. The read thread runs concurrently and has a theory of its own; here its existence
  is a count in the device structure. \<open>malloc\<close>, \<open>calloc\<close> and \<open>strdup\<close> do not fail.

  The contract \<open>hid_backend\<close> is interpreted on it in \<open>HidLibusbContract\<close>.
\<close>

section \<open>Device structures\<close>

definition zero_dev :: hid_dev where
  "zero_dev = \<lparr>device_handle = None, input_endpoint = 0, output_endpoint = 0,
     input_ep_max_packet_size = 0, interface = 0, manufacturer_index = 0, product_index = 0,
     serial_index = 0, blocking = False, shutdown_thread = False, threads = 0, input_reports = []\<rparr>"

definition new_hid_device :: "ust \<Rightarrow> nat \<times> ust" where
  "new_hid_device s =
     (let a = next_dev s in
      (a, s\<lparr>heap := (heap s)(a \<mapsto> zero_dev\<lparr>blocking := True\<rparr>), next_dev := a + 1\<rparr>))"

text \<open>Freeing a structure a read thread still works on is undefined behaviour.\<close>

definition free_hid_device :: "nat \<Rightarrow> ust \<Rightarrow> ust option" where
  "free_hid_device a s = do {
     d \<leftarrow> heap s a;
     if threads d \<noteq> 0 then None else Some (s\<lparr>heap := (heap s)(a := None)\<rparr>)
   }"

definition update_dev :: "nat \<Rightarrow> (hid_dev \<Rightarrow> hid_dev) \<Rightarrow> ust \<Rightarrow> ust option" where
  "update_dev a f s = do { d \<leftarrow> heap s a; Some (s\<lparr>heap := (heap s)(a \<mapsto> f d)\<rparr>) }"

text \<open>
  \<open>return_data\<close> copies the first report of the queue to the caller and removes it; with an empty
  queue it would follow a NULL pointer. The result is the number of bytes and the caller's array.
\<close>

definition return_data :: "hid_dev \<Rightarrow> byte list \<Rightarrow> nat \<Rightarrow> (int \<times> byte list \<times> hid_dev) option" where
  "return_data d data len =
     (case input_reports d of
        [] \<Rightarrow> None
      | rpt # rest \<Rightarrow> do {
          let n = (if len < length rpt then len else length rpt);
          data' \<leftarrow> (if 0 < n then wr_block data 0 (take n rpt) else Some data);
          Some (int n, data', d\<lparr>input_reports := rest\<rparr>) })"

section \<open>Initialisation\<close>

definition hid_init :: "usb_env \<Rightarrow> ust \<Rightarrow> int \<times> ust" where
  "hid_init E s =
     (if \<not> usb_context s then
        (let (r, s1) = libusb_init E s in
         if r \<noteq> 0 then (-1, s1) else (0, s1\<lparr>usb_context := True\<rparr>))
      else (0, s))"

definition hid_exit :: "ust \<Rightarrow> int \<times> ust" where
  "hid_exit s = (if usb_context s then (0, (note_call CExit s)\<lparr>usb_context := False\<rparr>) else (0, s))"

section \<open>Enumeration\<close>

definition indexed_string :: "usb_env \<Rightarrow> nat \<Rightarrow> byte \<Rightarrow> ust \<Rightarrow> (wchar list option \<times> ust) option" where
  "indexed_string E h idx s = (if 0 < idx then get_usb_string E h idx s else Some (None, s))"

text \<open>One node of the list: it and its path are allocated, the strings are read if the device opens.\<close>

definition describe_interface ::
    "usb_env \<Rightarrow> usb_device \<Rightarrow> usb_altsetting \<Rightarrow> ust \<Rightarrow> (hid_device_info \<times> ust) option" where
  "describe_interface E dev alt s = do {
     let interface_num = bInterfaceNumber alt;
     let (res, h, s1) = libusb_open E dev (s\<lparr>ublocks := ublocks s + 2\<rparr>);
     (sn, mf, pr, s2) \<leftarrow>
       (if 0 \<le> res then do {
          (sn, t1) \<leftarrow> indexed_string E h (iSerialNumber dev) s1;
          (mf, t2) \<leftarrow> indexed_string E h (iManufacturer dev) t1;
          (pr, t3) \<leftarrow> indexed_string E h (iProduct dev) t2;
          t4 \<leftarrow> libusb_close h t3;
          Some (sn, mf, pr, t4) }
        else Some (None, None, None, s1));
     Some (\<lparr>path = Some (make_path dev interface_num), vendor_id = idVendor dev, product_id = idProduct dev,
       serial_number = sn, release_number = bcdDevice dev, manufacturer_string = mf, product_string = pr,
       usage_page = 0, usage = 0, interface_number = uint interface_num\<rparr>, s2)
   }"

text \<open>The loops over alternate settings, interfaces and devices; the list is built in that order.\<close>

fun enum_alts ::
    "usb_env \<Rightarrow> u16 \<Rightarrow> u16 \<Rightarrow> usb_device \<Rightarrow> usb_altsetting list \<Rightarrow> ust \<Rightarrow> (hid_device_info list \<times> ust) option" where
  "enum_alts E v p dev [] s = Some ([], s)"
| "enum_alts E v p dev (alt # alts) s =
     (if bInterfaceClass alt = LIBUSB_CLASS_HID \<and> id_match v p (idVendor dev) (idProduct dev)
      then do {
        (d, s1) \<leftarrow> describe_interface E dev alt s;
        (ds, s2) \<leftarrow> enum_alts E v p dev alts s1;
        Some (d # ds, s2) }
      else enum_alts E v p dev alts s)"

fun enum_interfaces ::
    "usb_env \<Rightarrow> u16 \<Rightarrow> u16 \<Rightarrow> usb_device \<Rightarrow> usb_config \<Rightarrow> ust \<Rightarrow> (hid_device_info list \<times> ust) option" where
  "enum_interfaces E v p dev [] s = Some ([], s)"
| "enum_interfaces E v p dev (intf # intfs) s = do {
     (ds, s1) \<leftarrow> enum_alts E v p dev intf s;
     (es, s2) \<leftarrow> enum_interfaces E v p dev intfs s1;
     Some (ds @ es, s2)
   }"

fun enum_devices ::
    "usb_env \<Rightarrow> u16 \<Rightarrow> u16 \<Rightarrow> usb_device list \<Rightarrow> ust \<Rightarrow> (hid_device_info list \<times> ust) option" where
  "enum_devices E v p [] s = Some ([], s)"
| "enum_devices E v p (dev # devs) s = do {
     let conf_desc = (case active_config dev of Some c \<Rightarrow> Some c | None \<Rightarrow> first_config dev);
     (ds, s1) \<leftarrow> (case conf_desc of None \<Rightarrow> Some ([], s) | Some c \<Rightarrow> enum_interfaces E v p dev c s);
     (es, s2) \<leftarrow> enum_devices E v p devs s1;
     Some (ds @ es, s2)
   }"

definition hid_enumerate :: "usb_env \<Rightarrow> u16 \<Rightarrow> u16 \<Rightarrow> ust \<Rightarrow> (hid_device_info list \<times> ust) option" where
  "hid_enumerate E v p s =
     (let (r, s1) = hid_init E s in
      if r < 0 then Some ([], s1)
      else let (l, s2) = libusb_get_device_list E s1 in
        case l of None \<Rightarrow> Some ([], s2) | Some devs \<Rightarrow> enum_devices E v p devs s2)"

fun hid_free_enumeration :: "hid_device_info list \<Rightarrow> ust \<Rightarrow> ust" where
  "hid_free_enumeration [] s = s"
| "hid_free_enumeration (d # ds) s = hid_free_enumeration ds
     (s\<lparr>ublocks := ublocks s - some_block (path d) - some_block (serial_number d)
        - some_block (manufacturer_string d) - some_block (product_string d) - 1\<rparr>)"

section \<open>Opening\<close>

definition pick_endpoint :: "hid_dev \<Rightarrow> usb_endpoint \<Rightarrow> hid_dev" where
  "pick_endpoint d ep =
     (let is_interrupt = (bmAttributes ep AND 3 = 3);
          is_output = (bEndpointAddress ep AND 0x80 = 0);
          is_input = (bEndpointAddress ep AND 0x80 = 0x80);
          d1 = (if input_endpoint d = 0 \<and> is_interrupt \<and> is_input
                then d\<lparr>input_endpoint := bEndpointAddress ep, input_ep_max_packet_size := wMaxPacketSize ep\<rparr>
                else d)
      in if output_endpoint d1 = 0 \<and> is_interrupt \<and> is_output
         then d1\<lparr>output_endpoint := bEndpointAddress ep\<rparr> else d1)"

text \<open>
  What happens to a device whose path matched. \<open>Open_failed\<close> leaves \<open>good_open\<close> as it was,
  \<open>Setup_failed\<close> clears it; both leave the loop over the alternate settings, and only that one.
\<close>

datatype open_outcome = Opened | Open_failed | Setup_failed

definition start_device :: "usb_device \<Rightarrow> usb_altsetting \<Rightarrow> hid_dev \<Rightarrow> hid_dev" where
  "start_device dev alt d =
     (let d1 = foldl pick_endpoint
        (d\<lparr>manufacturer_index := iManufacturer dev, product_index := iProduct dev,
           serial_index := iSerialNumber dev, interface := bInterfaceNumber alt\<rparr>) (endpoint_list alt)
      in d1\<lparr>threads := threads d1 + 1\<rparr>)"

definition open_interface ::
    "usb_env \<Rightarrow> nat \<Rightarrow> usb_device \<Rightarrow> usb_altsetting \<Rightarrow> ust \<Rightarrow> (open_outcome \<times> ust) option" where
  "open_interface E a dev alt s = do {
     let (res, h, s1) = libusb_open E dev s;
     if res < 0 then Some (Open_failed, s1)
     else do {
       s2 \<leftarrow> update_dev a (\<lambda>d. d\<lparr>device_handle := Some h\<rparr>) s1;
       (active, s3) \<leftarrow> libusb_kernel_driver_active E h (bInterfaceNumber alt) s2;
       (res2, s4) \<leftarrow> (if active = 1 then libusb_detach_kernel_driver E h (bInterfaceNumber alt) s3
                     else Some (0, s3));
       if res2 < 0 then do { s5 \<leftarrow> libusb_close h s4; Some (Setup_failed, s5) }
       else do {
         (res3, s5) \<leftarrow> libusb_claim_interface E h (bInterfaceNumber alt) s4;
         if res3 < 0 then do { s6 \<leftarrow> libusb_close h s5; Some (Setup_failed, s6) }
         else do { s6 \<leftarrow> update_dev a (start_device dev alt) s5; Some (Opened, s6) } } }
   }"

fun open_alts ::
    "usb_env \<Rightarrow> string \<Rightarrow> nat \<Rightarrow> usb_device \<Rightarrow> usb_altsetting list \<Rightarrow> bool \<Rightarrow> ust \<Rightarrow> (bool \<times> ust) option" where
  "open_alts E pa a dev [] good s = Some (good, s)"
| "open_alts E pa a dev (alt # alts) good s =
     (if bInterfaceClass alt = LIBUSB_CLASS_HID \<and> make_path dev (bInterfaceNumber alt) = pa
      then do {
        (r, s1) \<leftarrow> open_interface E a dev alt s;
        case r of
          Opened \<Rightarrow> open_alts E pa a dev alts True s1
        | Open_failed \<Rightarrow> Some (good, s1)
        | Setup_failed \<Rightarrow> Some (False, s1) }
      else open_alts E pa a dev alts good s)"

fun open_interfaces ::
    "usb_env \<Rightarrow> string \<Rightarrow> nat \<Rightarrow> usb_device \<Rightarrow> usb_config \<Rightarrow> bool \<Rightarrow> ust \<Rightarrow> (bool \<times> ust) option" where
  "open_interfaces E pa a dev [] good s = Some (good, s)"
| "open_interfaces E pa a dev (intf # intfs) good s = do {
     (good1, s1) \<leftarrow> open_alts E pa a dev intf good s;
     open_interfaces E pa a dev intfs good1 s1
   }"

fun open_devices ::
    "usb_env \<Rightarrow> string \<Rightarrow> nat \<Rightarrow> usb_device list \<Rightarrow> bool \<Rightarrow> ust \<Rightarrow> (bool \<times> ust) option" where
  "open_devices E pa a [] good s = Some (good, s)"
| "open_devices E pa a (dev # devs) good s =
     (case active_config dev of
        None \<Rightarrow> open_devices E pa a devs good s
      | Some conf \<Rightarrow> do {
          (good1, s1) \<leftarrow> open_interfaces E pa a dev conf good s;
          open_devices E pa a devs good1 s1 })"

text \<open>
  The structure is allocated before \<open>hid_init\<close>, whose failure leaves it behind. The result of
  \<open>libusb_get_device_list\<close> is not checked; without a list the loop reads an uninitialised pointer.
\<close>

definition hid_open_path :: "usb_env \<Rightarrow> string \<Rightarrow> ust \<Rightarrow> (nat option \<times> ust) option" where
  "hid_open_path E pa s =
     (let (a, s1) = new_hid_device s; (r, s2) = hid_init E s1 in
      if r < 0 then Some (None, s2)
      else let (l, s3) = libusb_get_device_list E s2 in do {
        devs \<leftarrow> l;
        (good_open, s4) \<leftarrow> open_devices E pa a devs False s3;
        if good_open then Some (Some a, s4)
        else do { s5 \<leftarrow> free_hid_device a s4; Some (None, s5) } })"

text \<open>
  \<open>hid_open\<close> takes the first device with the right ids and, if one is asked for, the right serial
  number; \<open>wcscmp\<close> on a device without a serial number would follow a NULL pointer.
\<close>

fun find_path :: "u16 \<Rightarrow> u16 \<Rightarrow> wchar list option \<Rightarrow> hid_device_info list \<Rightarrow> string option option" where
  "find_path v p sn [] = Some None"
| "find_path v p sn (d # ds) =
     (if vendor_id d = v \<and> product_id d = p then
        (case sn of
           None \<Rightarrow> Some (path d)
         | Some w \<Rightarrow> do {
             w' \<leftarrow> serial_number d;
             if w = w' then Some (path d) else find_path v p sn ds })
      else find_path v p sn ds)"

definition hid_open :: "usb_env \<Rightarrow> u16 \<Rightarrow> u16 \<Rightarrow> wchar list option \<Rightarrow> ust \<Rightarrow> (nat option \<times> ust) option" where
  "hid_open E v p sn s = do {
     (devs, s1) \<leftarrow> hid_enumerate E v p s;
     path_to_open \<leftarrow> find_path v p sn devs;
     (handle, s2) \<leftarrow> (case path_to_open of
         None \<Rightarrow> Some (None, s1)
       | Some pa \<Rightarrow> hid_open_path E pa s1);
     Some (handle, hid_free_enumeration devs s2)
   }"

section \<open>Reports\<close>

text \<open>
  Lengths are \<open>size_t\<close>: \<open>length--\<close> wraps at 0. \<open>libusb_control_transfer\<close> takes a 16 bit length, the
  functions return the length as an \<open>int\<close>.
\<close>

definition size_dec :: "nat \<Rightarrow> nat" where
  "size_dec n = (if n = 0 then 2 ^ 64 - 1 else n - 1)"

definition size_inc :: "nat \<Rightarrow> nat" where
  "size_inc n = (n + 1) mod 2 ^ 64"

definition c_int :: "nat \<Rightarrow> int" where
  "c_int n = signed_take_bit 31 (int n)"

text \<open>The device structure and the handle stored in it.\<close>

definition with_dev :: "nat \<Rightarrow> ust \<Rightarrow> (hid_dev \<times> nat) option" where
  "with_dev a s = do { d \<leftarrow> heap s a; h \<leftarrow> device_handle d; Some (d, h) }"

definition hid_write :: "usb_env \<Rightarrow> nat \<Rightarrow> byte list \<Rightarrow> nat \<Rightarrow> ust \<Rightarrow> (int \<times> ust) option" where
  "hid_write E a data len s = do {
     report_number \<leftarrow> rd data 0;
     let skipped = (report_number = 0);
     let data' = (if skipped then drop 1 data else data);
     let n = (if skipped then size_dec len else len);
     (d, h) \<leftarrow> with_dev a s;
     if output_endpoint d = 0 then do {
       buf \<leftarrow> rd_block data' 0 (n mod 2 ^ 16);
       (res, s1) \<leftarrow> libusb_control_out E h (0x0200 OR ucast report_number) (interface d) buf s;
       if res < 0 then Some (-1, s1)
       else Some (c_int (if skipped then size_inc n else n), s1) }
     else do {
       buf \<leftarrow> rd_block data' 0 n;
       (r, s1) \<leftarrow> libusb_interrupt_out E h (output_endpoint d) buf s;
       case r of
         None \<Rightarrow> Some (-1, s1)
       | Some actual_length \<Rightarrow> Some (if skipped then actual_length + 1 else actual_length, s1) }
   }"

definition hid_send_feature_report :: "usb_env \<Rightarrow> nat \<Rightarrow> byte list \<Rightarrow> nat \<Rightarrow> ust \<Rightarrow> (int \<times> ust) option" where
  "hid_send_feature_report E a data len s = do {
     report_number \<leftarrow> rd data 0;
     let skipped = (report_number = 0);
     let data' = (if skipped then drop 1 data else data);
     let n = (if skipped then size_dec len else len);
     (d, h) \<leftarrow> with_dev a s;
     buf \<leftarrow> rd_block data' 0 (n mod 2 ^ 16);
     (res, s1) \<leftarrow> libusb_control_out E h (0x0300 OR ucast report_number) (interface d) buf s;
     if res < 0 then Some (-1, s1)
     else Some (c_int (if skipped then size_inc n else n), s1)
   }"

definition hid_get_feature_report ::
    "usb_env \<Rightarrow> nat \<Rightarrow> byte list \<Rightarrow> nat \<Rightarrow> ust \<Rightarrow> (int \<times> byte list \<times> ust) option" where
  "hid_get_feature_report E a data len s = do {
     report_number \<leftarrow> rd data 0;
     let skipped = (report_number = 0);
     let off = (if skipped then 1 else 0);
     let n = (if skipped then size_dec len else len);
     (d, h) \<leftarrow> with_dev a s;
     (r, s1) \<leftarrow> libusb_control_in E h (0x0300 OR ucast report_number) (interface d) (n mod 2 ^ 16) s;
     case r of
       None \<Rightarrow> Some (-1, data, s1)
     | Some bs \<Rightarrow> do {
         data' \<leftarrow> wr_block data off bs;
         Some (if skipped then int (length bs) + 1 else int (length bs), data', s1) }
   }"

section \<open>Closing\<close>

text \<open>The loop that empties the queue.\<close>

fun clear_queue :: "nat \<Rightarrow> hid_dev \<Rightarrow> hid_dev option" where
  "clear_queue 0 d = Some d"
| "clear_queue (Suc n) d =
     (if input_reports d = [] then Some d
      else do { (r, b, d') \<leftarrow> return_data d [] 0; clear_queue n d' })"

text \<open>
  \<open>dev->transfer\<close> belongs to the read thread, so a structure whose thread never started has none to
  cancel. \<open>pthread_join\<close> waits for the one thread \<open>dev->thread\<close> names.
\<close>

definition hid_close :: "nat option \<Rightarrow> ust \<Rightarrow> ust option" where
  "hid_close dev s =
     (case dev of
        None \<Rightarrow> Some s
      | Some a \<Rightarrow> do {
          (d, h) \<leftarrow> with_dev a s;
          if threads d = 0 then None
          else do {
            s1 \<leftarrow> update_dev a (\<lambda>d. d\<lparr>shutdown_thread := True, threads := threads d - 1\<rparr>) s;
            (u, s2) \<leftarrow> libusb_release_interface h (interface d) s1;
            s3 \<leftarrow> libusb_close h s2;
            d3 \<leftarrow> heap s3 a;
            d4 \<leftarrow> clear_queue (length (input_reports d3)) d3;
            s4 \<leftarrow> update_dev a (\<lambda>_. d4) s3;
            free_hid_device a s4 } })"

section \<open>The rest of the interface\<close>

definition hid_set_nonblocking :: "nat \<Rightarrow> bool \<Rightarrow> ust \<Rightarrow> (int \<times> ust) option" where
  "hid_set_nonblocking a nonblock s = do {
     s' \<leftarrow> update_dev a (\<lambda>d. d\<lparr>blocking := \<not> nonblock\<rparr>) s;
     Some (0, s')
   }"

text \<open>\<open>wcsncpy\<close> pads with zeros; \<open>string[maxlen-1]\<close> is out of bounds for \<open>maxlen\<close> 0.\<close>

definition hid_get_indexed_string ::
    "usb_env \<Rightarrow> nat \<Rightarrow> byte \<Rightarrow> wchar list \<Rightarrow> nat \<Rightarrow> ust \<Rightarrow> (int \<times> wchar list \<times> ust) option" where
  "hid_get_indexed_string E a string_index str maxlen s = do {
     (d, h) \<leftarrow> with_dev a s;
     (r, s1) \<leftarrow> get_usb_string E h string_index s;
     case r of
       None \<Rightarrow> Some (-1, str, s1)
     | Some w \<Rightarrow> do {
         str1 \<leftarrow> wr_block str 0 (take maxlen (w @ replicate maxlen 0));
         str2 \<leftarrow> (if maxlen = 0 then None else wr str1 (maxlen - 1) 0);
         Some (0, str2, s1\<lparr>ublocks := ublocks s1 - 1\<rparr>) }
   }"

definition hid_get_manufacturer_string ::
    "usb_env \<Rightarrow> nat \<Rightarrow> wchar list \<Rightarrow> nat \<Rightarrow> ust \<Rightarrow> (int \<times> wchar list \<times> ust) option" where
  "hid_get_manufacturer_string E a str maxlen s = do {
     d \<leftarrow> heap s a; hid_get_indexed_string E a (manufacturer_index d) str maxlen s }"

definition hid_get_product_string ::
    "usb_env \<Rightarrow> nat \<Rightarrow> wchar list \<Rightarrow> nat \<Rightarrow> ust \<Rightarrow> (int \<times> wchar list \<times> ust) option" where
  "hid_get_product_string E a str maxlen s = do {
     d \<leftarrow> heap s a; hid_get_indexed_string E a (product_index d) str maxlen s }"

definition hid_get_serial_number_string ::
    "usb_env \<Rightarrow> nat \<Rightarrow> wchar list \<Rightarrow> nat \<Rightarrow> ust \<Rightarrow> (int \<times> wchar list \<times> ust) option" where
  "hid_get_serial_number_string E a str maxlen s = do {
     d \<leftarrow> heap s a; hid_get_indexed_string E a (serial_index d) str maxlen s }"

definition hid_error :: "nat \<Rightarrow> wchar list option" where
  "hid_error a = None"

definition libusb_backend :: "usb_env \<Rightarrow> ust hidapi" where
  "libusb_backend E =
     \<lparr>api_enumerate = hid_enumerate E,
      api_free_enumeration = (\<lambda>ds s. Some (hid_free_enumeration ds s)),
      api_open = hid_open E,
      api_send_feature_report = hid_send_feature_report E,
      api_get_feature_report = hid_get_feature_report E,
      api_close = hid_close,
      api_exit = (\<lambda>s. Some (hid_exit s))\<rparr>"

end
