(* ===== verification/HidLibusbContract.thy ===== *)
theory HidLibusbContract
  imports HidLibusb
begin

text \<open>
  \<^verbatim>\<open>hid-libusb.c\<close> keeps the contract of \<open>hid_backend\<close>: the invariant of its state, what enumeration,
  opening, the feature reports and closing do to devices, handles and heap blocks, and the
  interpretation of the locale, for every environment.
\<close>

section \<open>The invariant\<close>

text \<open>
  Addresses and handle numbers are used once; a device whose read thread runs has an open handle,
  and no two such devices share one.
\<close>

definition fresh_ids :: "ust \<Rightarrow> bool" where
  "fresh_ids s \<longleftrightarrow> (\<forall>a. heap s a \<noteq> None \<longrightarrow> a < next_dev s) \<and> (\<forall>h. handles s h \<noteq> None \<longrightarrow> h < next_handle s)"

definition usb_live :: "ust \<Rightarrow> nat set" where
  "usb_live s = {a. \<exists>d. heap s a = Some d \<and> threads d \<noteq> 0}"

definition handle_of :: "ust \<Rightarrow> nat \<Rightarrow> nat option" where
  "handle_of s a = Option.bind (heap s a) device_handle"

definition usb_inv :: "ust \<Rightarrow> bool" where
  "usb_inv s \<longleftrightarrow> fresh_ids s \<and> inj_on (handle_of s) (usb_live s) \<and>
     (\<forall>a\<in>usb_live s. \<exists>h. handle_of s a = Some h \<and> handles s h \<noteq> None)"

text \<open>
  What is held: the devices, and every handle open in libusb. Closing a device with one read thread gives its handle back; with a
  second thread, which a second open of the same structure has started, \<open>hid_close\<close> does not return properly.
\<close>

definition usb_held :: "ust \<Rightarrow> nat set \<times> (nat \<Rightarrow> usb_device option)" where
  "usb_held s = (usb_live s, handles s)"

definition usb_over :: "ust \<Rightarrow> nat \<Rightarrow> nat set \<times> (nat \<Rightarrow> usb_device option) \<Rightarrow> bool" where
  "usb_over s a x \<longleftrightarrow> a \<in> usb_live s \<and> (\<forall>d. heap s a = Some d \<longrightarrow> threads d = 1 \<longrightarrow>
     (\<exists>k. device_handle d = Some k \<and> x = (usb_live s - {a}, (handles s)(k := None))))"

text \<open>
  \<open>balanced n s s'\<close>: the devices and handles of \<open>s'\<close> are those of \<open>s\<close>, and \<open>n\<close> more heap blocks are in
  use. Handles opened in between have been closed.
\<close>

definition balanced :: "int \<Rightarrow> ust \<Rightarrow> ust \<Rightarrow> bool" where
  "balanced n s s' \<longleftrightarrow> heap s' = heap s \<and> next_dev s' = next_dev s \<and> handles s' = handles s \<and>
     next_handle s \<le> next_handle s' \<and> ublocks s' = ublocks s + n \<and> (usb_context s \<longrightarrow> usb_context s')"

lemma balanced_refl [simp]: "balanced 0 s s"
  by (simp add: balanced_def)

lemma balanced_trans: "balanced m a b \<Longrightarrow> balanced n b c \<Longrightarrow> balanced (m + n) a c"
  by (auto simp: balanced_def)

lemma balanced_fresh: "balanced n s s' \<Longrightarrow> fresh_ids s \<Longrightarrow> fresh_ids s'"
  by (auto simp: balanced_def fresh_ids_def intro: order_less_le_trans)

lemma balanced_inv: "balanced n s s' \<Longrightarrow> usb_inv s \<Longrightarrow> usb_inv s' \<and> usb_live s' = usb_live s"
proof -
  assume b: "balanced n s s'" and i: "usb_inv s"
  have "usb_live s' = usb_live s" "handle_of s' = handle_of s" "handles s' = handles s"
    using b by (auto simp: balanced_def usb_live_def handle_of_def fun_eq_iff)
  then show ?thesis using i balanced_fresh [OF b] by (simp add: usb_inv_def)
qed

lemma balanced_held: "balanced n s s' \<Longrightarrow> usb_inv s \<Longrightarrow> usb_inv s' \<and> usb_held s' = usb_held s \<and> (usb_over s a x \<longrightarrow> usb_over s' a x)"
  using balanced_inv [of n s s'] by (simp add: balanced_def usb_held_def usb_over_def)

lemma balanced_traced: "traced s s' \<Longrightarrow> balanced 0 s s'"
  by (simp add: balanced_def traced_iff)

lemma plus_blocks_balanced: "plus_blocks n s s' \<Longrightarrow> balanced n s s'"
  by (simp add: balanced_def plus_blocks_def traced_iff)

section \<open>Enumeration keeps devices and handles\<close>

lemma hid_init_balanced: "hid_init E s = (r, s') \<Longrightarrow> balanced 0 s s' \<and> (0 \<le> r \<longrightarrow> usb_context s')"
  by (auto simp: hid_init_def libusb_init_def note_call_def balanced_def split: if_splits)

lemma hid_exit_inv:
  assumes "usb_inv s" "hid_exit s = (r, s')"
  shows "usb_inv s' \<and> usb_live s' = usb_live s \<and> handles s' = handles s \<and> ublocks s' = ublocks s"
proof -
  have f: "heap s' = heap s" "next_dev s' = next_dev s" "handles s' = handles s"
    "next_handle s' = next_handle s" "ublocks s' = ublocks s"
    using assms(2) by (auto simp: hid_exit_def note_call_def split: if_splits)
  then have "usb_live s' = usb_live s" "handle_of s' = handle_of s"
    by (auto simp: usb_live_def handle_of_def fun_eq_iff)
  then show ?thesis using assms(1) f by (simp add: usb_inv_def fresh_ids_def)
qed

lemma get_device_list_balanced: "libusb_get_device_list E s = (l, s') \<Longrightarrow> balanced 0 s s'"
  by (auto simp: libusb_get_device_list_def note_call_def balanced_def)

lemma indexed_string_blocks:
  "indexed_string E h idx s = Some (str, s') \<Longrightarrow> plus_blocks (some_block str) s s'"
  by (auto simp: indexed_string_def plus_blocks_def dest: get_usb_string_blocks split: if_splits)

lemma describe_interface_balanced:
  assumes "fresh_ids s" "describe_interface E dev alt s = Some (d, s')"
  shows "balanced (info_blocks d) s s' \<and> vendor_id d = idVendor dev \<and> product_id d = idProduct dev"
proof -
  let ?s = "s\<lparr>ublocks := ublocks s + 2\<rparr>"
  obtain res h s1 where o: "libusb_open E dev ?s = (res, h, s1)" by (cases "libusb_open E dev ?s")
  show ?thesis
  proof (cases "0 \<le> res")
    case False
    then show ?thesis
      using assms(2) o
      by (auto simp: describe_interface_def libusb_open_def note_call_def Let_def balanced_def info_blocks_def
          split: if_splits)
  next
    case True
    then have s1: "s1 = (note_call (COpen dev) ?s)\<lparr>handles := (handles s)(h \<mapsto> dev), next_handle := h + 1\<rparr>"
      and h: "h = next_handle s"
      using o by (auto simp: libusb_open_def Let_def note_call_def split: if_splits)
    from assms(2) o True obtain sn t1 mf t2 pr t3 where
      str: "indexed_string E h (iSerialNumber dev) s1 = Some (sn, t1)"
        "indexed_string E h (iManufacturer dev) t1 = Some (mf, t2)"
        "indexed_string E h (iProduct dev) t2 = Some (pr, t3)"
      and cl: "libusb_close h t3 = Some s'"
      and d: "d = \<lparr>path = Some (make_path dev (bInterfaceNumber alt)), vendor_id = idVendor dev,
        product_id = idProduct dev, serial_number = sn, release_number = bcdDevice dev,
        manufacturer_string = mf, product_string = pr, usage_page = 0, usage = 0,
        interface_number = uint (bInterfaceNumber alt)\<rparr>"
      by (auto simp: describe_interface_def bind_Some_iff Let_def)
    have "plus_blocks (some_block sn + some_block mf + some_block pr) s1 t3"
      using plus_blocks_trans [OF plus_blocks_trans] str [THEN indexed_string_blocks] by blast
    moreover have "handles s h = None" using assms(1) h by (auto simp: fresh_ids_def)
    ultimately show ?thesis
      using cl h by (auto simp: s1 d plus_blocks_def traced_iff libusb_close_def note_call_def balanced_def
          info_blocks_def fun_upd_idem split: option.splits)
  qed
qed

lemma enum_alts_balanced:
  assumes "fresh_ids s" "enum_alts E v p dev alts s = Some (ds, s')"
  shows "balanced (list_blocks ds) s s' \<and> list_all (info_matches v p) ds"
  using assms
proof (induction alts arbitrary: s ds)
  case (Cons alt alts)
  show ?case
  proof (cases "bInterfaceClass alt = LIBUSB_CLASS_HID \<and> id_match v p (idVendor dev) (idProduct dev)")
    case True
    then obtain d s1 es where e: "describe_interface E dev alt s = Some (d, s1)"
      "enum_alts E v p dev alts s1 = Some (es, s')" "ds = d # es"
      using Cons.prems(2) by (auto simp: bind_Some_iff)
    note b = describe_interface_balanced [OF Cons.prems(1) e(1)]
    then have "fresh_ids s1" using balanced_fresh Cons.prems(1) by blast
    from Cons.IH [OF this e(2)] b True show ?thesis
      using balanced_trans e(3) by (auto simp: info_matches_def)
  qed (use Cons in auto)
qed simp

lemma enum_interfaces_balanced:
  assumes "fresh_ids s" "enum_interfaces E v p dev intfs s = Some (ds, s')"
  shows "balanced (list_blocks ds) s s' \<and> list_all (info_matches v p) ds"
  using assms
proof (induction intfs arbitrary: s ds)
  case (Cons intf intfs)
  then obtain d1 s1 d2 where e: "enum_alts E v p dev intf s = Some (d1, s1)"
    "enum_interfaces E v p dev intfs s1 = Some (d2, s')" "ds = d1 @ d2"
    by (auto simp: bind_Some_iff)
  note b = enum_alts_balanced [OF Cons.prems(1) e(1)]
  then have "fresh_ids s1" using balanced_fresh Cons.prems(1) by blast
  from Cons.IH [OF this e(2)] b e(3) balanced_trans show ?case by auto
qed simp

lemma enum_devices_balanced:
  assumes "fresh_ids s" "enum_devices E v p devs s = Some (ds, s')"
  shows "balanced (list_blocks ds) s s' \<and> list_all (info_matches v p) ds"
  using assms
proof (induction devs arbitrary: s ds)
  case (Cons dev devs)
  let ?conf = "case active_config dev of Some c \<Rightarrow> Some c | None \<Rightarrow> first_config dev"
  obtain d1 s1 d2 where e: "(case ?conf of None \<Rightarrow> Some ([], s) | Some c \<Rightarrow> enum_interfaces E v p dev c s) = Some (d1, s1)"
    "enum_devices E v p devs s1 = Some (d2, s')" "ds = d1 @ d2"
    using Cons.prems(2) by (auto simp: bind_Some_iff Let_def)
  have b: "balanced (list_blocks d1) s s1 \<and> list_all (info_matches v p) d1"
    using e(1) enum_interfaces_balanced [OF Cons.prems(1)] by (cases ?conf) auto
  then have "fresh_ids s1" using balanced_fresh Cons.prems(1) by blast
  from Cons.IH [OF this e(2)] b e(3) balanced_trans show ?case by auto
qed simp

lemma hid_enumerate_balanced:
  assumes "fresh_ids s" "hid_enumerate E v p s = Some (ds, s')"
  shows "balanced (list_blocks ds) s s' \<and> list_all (info_matches v p) ds"
proof -
  obtain r s1 where i: "hid_init E s = (r, s1)" by (cases "hid_init E s")
  obtain l s2 where g: "libusb_get_device_list E s1 = (l, s2)" by (cases "libusb_get_device_list E s1")
  have b1: "balanced 0 s s1" using hid_init_balanced [OF i] by simp
  have b2: "balanced 0 s s2" using balanced_trans [OF b1 get_device_list_balanced [OF g]] by simp
  show ?thesis
  proof (cases "r < 0 \<or> l = None")
    case True
    then show ?thesis using assms(2) b1 b2 i g by (auto simp: hid_enumerate_def split: if_splits)
  next
    case False
    then obtain devs where "enum_devices E v p devs s2 = Some (ds, s')"
      using assms(2) i g by (auto simp: hid_enumerate_def)
    from enum_devices_balanced [OF balanced_fresh [OF b2 assms(1)] this]
    show ?thesis using balanced_trans [OF b2] by fastforce
  qed
qed

lemma hid_free_enumeration_eq: "hid_free_enumeration ds s = s\<lparr>ublocks := ublocks s - list_blocks ds\<rparr>"
  by (induction ds arbitrary: s) (simp_all add: info_blocks_def algebra_simps)

lemma hid_free_enumeration_balanced: "balanced (- list_blocks ds) s (hid_free_enumeration ds s)"
  by (simp add: balanced_def hid_free_enumeration_eq)

section \<open>Opening and closing\<close>

text \<open>
  \<open>opens a lo s s'\<close>: from \<open>s\<close> to \<open>s'\<close> only the structure at \<open>a\<close> and handles from \<open>lo\<close> on have
  changed. \<open>running a lo s\<close>: the structure at \<open>a\<close> is started, on an open handle not below \<open>lo\<close>.
\<close>

definition opens :: "nat \<Rightarrow> nat \<Rightarrow> ust \<Rightarrow> ust \<Rightarrow> bool" where
  "opens a lo s s' \<longleftrightarrow> (\<forall>b. b \<noteq> a \<longrightarrow> heap s' b = heap s b) \<and> (heap s' a = None \<longleftrightarrow> heap s a = None) \<and>
     next_dev s' = next_dev s \<and> (\<forall>h<lo. handles s' h = handles s h) \<and>
     next_handle s \<le> next_handle s' \<and> (fresh_ids s \<longrightarrow> fresh_ids s') \<and> ublocks s' = ublocks s"

definition running :: "nat \<Rightarrow> nat \<Rightarrow> ust \<Rightarrow> bool" where
  "running a lo s \<longleftrightarrow> a \<in> usb_live s \<and>
     (\<exists>h. handle_of s a = Some h \<and> lo \<le> h \<and> handles s h \<noteq> None)"

lemma opens_refl [simp]: "opens a lo s s"
  by (simp add: opens_def)

lemma opens_trans [trans]: "opens a lo s t \<Longrightarrow> opens a lo t u \<Longrightarrow> opens a lo s u"
  by (auto simp: opens_def)

lemma opens_traced: "traced s s' \<Longrightarrow> opens a lo s s'"
  by (simp add: opens_def traced_iff fresh_ids_def)

lemma update_dev_opens: "update_dev a f s = Some s' \<Longrightarrow> opens a lo s s'"
  by (auto simp: update_dev_def bind_Some_iff opens_def fresh_ids_def split: if_splits)

lemma libusb_close_opens:
  "libusb_close h s = Some s' \<Longrightarrow> lo \<le> h \<Longrightarrow> opens a lo s s'"
  by (auto simp: libusb_close_def note_call_def opens_def fresh_ids_def split: option.splits if_splits)

lemma libusb_open_opens:
  assumes "libusb_open E dev s = (r, h, s')" "lo \<le> next_handle s"
  shows "opens a lo s s' \<and> h = next_handle s \<and> (0 \<le> r \<longrightarrow> handles s' h \<noteq> None) \<and> heap s' = heap s \<and>
    (r < 0 \<longrightarrow> traced s s')"
  using assms
  by (auto simp: libusb_open_def Let_def note_call_def opens_def fresh_ids_def traced_iff
      less_Suc_eq split: if_splits)

lemma pick_endpoint_fields:
  "device_handle (foldl pick_endpoint d eps) = device_handle d" "threads (foldl pick_endpoint d eps) = threads d"
  by (induction eps arbitrary: d) (simp_all add: pick_endpoint_def Let_def)

lemma start_device_fields:
  "device_handle (start_device dev alt d) = device_handle d" "threads (start_device dev alt d) = threads d + 1"
  by (simp_all add: start_device_def Let_def pick_endpoint_fields)

lemma handle_calls_traced:
  "libusb_kernel_driver_active E h i s = Some (r, s') \<Longrightarrow> traced s s'"
  "libusb_detach_kernel_driver E h i s = Some (r, s') \<Longrightarrow> traced s s'"
  "libusb_claim_interface E h i s = Some (r, s') \<Longrightarrow> traced s s'"
  "libusb_release_interface h i s = Some (u, s') \<Longrightarrow> traced s s'"
  "libusb_control_out E h w i data s = Some (r, s') \<Longrightarrow> traced s s'"
  "libusb_control_in E h w i n s = Some (q, s') \<Longrightarrow> traced s s'"
  "libusb_interrupt_out E h i data s = Some (v, s') \<Longrightarrow> traced s s'"
  unfolding libusb_handle_defs by (drule on_handle_traced, simp)+

lemma claim_interface_opens:
  assumes op: "opens a lo s s4" "lo \<le> h" "handles s4 h \<noteq> None" "handle_of s4 a = Some h"
    and rest: "(if res2 < 0 then do { s5 \<leftarrow> libusb_close h s4; Some (Setup_failed, s5) }
      else do {
        (res3, s5) \<leftarrow> libusb_claim_interface E h i s4;
        if res3 < 0 then do { s6 \<leftarrow> libusb_close h s5; Some (Setup_failed, s6) }
        else do { s6 \<leftarrow> update_dev a (start_device dev alt) s5; Some (Opened, s6) } }) = Some (r, s')"
  shows "opens a lo s s' \<and> (r = Opened \<longrightarrow> running a lo s') \<and> r \<noteq> Open_failed"
proof (cases "res2 < 0")
  case True
  then show ?thesis
    using rest op(1) libusb_close_opens [OF _ op(2)] opens_trans by (auto simp: bind_Some_iff)
next
  case r2: False
  then obtain res3 s5 where c: "libusb_claim_interface E h i s4 = Some (res3, s5)"
    using rest by (auto elim!: bind_SomeE)
  note t5 = handle_calls_traced(3) [OF c]
  have op5: "opens a lo s s5" using op(1) t5 opens_traced opens_trans by blast
  show ?thesis
  proof (cases "res3 < 0")
    case True
    then show ?thesis
      using rest r2 c op5 libusb_close_opens [OF _ op(2)] opens_trans by (auto simp: bind_Some_iff)
  next
    case False
    then have up: "update_dev a (start_device dev alt) s5 = Some s'" and r: "r = Opened"
      using rest r2 c by (auto simp: bind_Some_iff)
    have "running a lo s'"
      using up op(2-4) t5
      by (auto simp: update_dev_def bind_Some_iff running_def usb_live_def handle_of_def traced_iff
          start_device_fields)
    then show ?thesis using op5 update_dev_opens [OF up] opens_trans r by blast
  qed
qed

lemma open_interface_opens:
  assumes "open_interface E a dev alt s = Some (r, s')" "lo \<le> next_handle s"
  shows "opens a lo s s' \<and> (r = Opened \<longrightarrow> running a lo s') \<and> (r = Open_failed \<longrightarrow> traced s s')"
proof -
  obtain res h s1 where o: "libusb_open E dev s = (res, h, s1)" by (cases "libusb_open E dev s")
  note ho = libusb_open_opens [OF o assms(2), of a]
  show ?thesis
  proof (cases "res < 0")
    case True
    then show ?thesis using assms(1) o ho by (auto simp: open_interface_def)
  next
    case False
    let ?i = "bInterfaceNumber alt"
    from False assms(1) o obtain s2 active s3 res2 s4 where
      u: "update_dev a (\<lambda>d. d\<lparr>device_handle := Some h\<rparr>) s1 = Some s2"
      and k: "libusb_kernel_driver_active E h ?i s2 = Some (active, s3)"
      and dt: "(if active = 1 then libusb_detach_kernel_driver E h ?i s3 else Some (0, s3)) = Some (res2, s4)"
      and rest: "(if res2 < 0 then do { s5 \<leftarrow> libusb_close h s4; Some (Setup_failed, s5) }
       else do {
         (res3, s5) \<leftarrow> libusb_claim_interface E h ?i s4;
         if res3 < 0 then do { s6 \<leftarrow> libusb_close h s5; Some (Setup_failed, s6) }
         else do { s6 \<leftarrow> update_dev a (start_device dev alt) s5; Some (Opened, s6) } }) = Some (r, s')"
      unfolding open_interface_def Let_def by (auto elim!: bind_SomeE)
    have t24: "traced s2 s4"
      using handle_calls_traced(1) [OF k] dt handle_calls_traced(2) [of E h ?i s3] traced_trans
      by (auto split: if_splits)
    have lo: "lo \<le> h" using ho assms(2) by simp
    have "opens a lo s s4"
      using ho update_dev_opens [OF u] opens_traced [OF t24] opens_trans by blast
    moreover have "handles s4 h \<noteq> None" "handle_of s4 a = Some h"
      using u ho False t24 by (auto simp: update_dev_def bind_Some_iff traced_iff handle_of_def)
    ultimately show ?thesis using claim_interface_opens [OF _ lo _ _ rest] by blast
  qed
qed

text \<open>What becomes of the handle: it stays open only for a device that is started.\<close>

lemma open_interface_handles:
  assumes "open_interface E a dev alt s = Some (r, s')" "fresh_ids s" "heap s a = Some d"
  shows "\<exists>d'. heap s' a = Some d' \<and> (if r = Opened
    then threads d' = threads d + 1 \<and> device_handle d' = Some (next_handle s) \<and> handles s' = (handles s)(next_handle s \<mapsto> dev)
    else threads d' = threads d \<and> handles s' = handles s \<and> (r = Open_failed \<longrightarrow> d' = d))"
proof -
  let ?h = "next_handle s" and ?i = "bInterfaceNumber alt"
  have free: "handles s ?h = None" using assms(2) by (auto simp: fresh_ids_def)
  obtain res h s1 where o: "libusb_open E dev s = (res, h, s1)" by (cases "libusb_open E dev s")
  show ?thesis
  proof (cases "res < 0")
    case True
    then have "r = Open_failed" "handles s' = handles s" "heap s' = heap s"
      using assms(1) o by (auto simp: open_interface_def libusb_open_def note_call_def Let_def split: if_splits)
    then show ?thesis using assms(3) by simp
  next
    case False
    have h: "h = ?h" "handles s1 = (handles s)(?h \<mapsto> dev)" "heap s1 = heap s"
      using o False by (auto simp: libusb_open_def note_call_def Let_def split: if_splits)
    from False assms(1) o obtain s2 active s3 res2 s4 where
      u: "update_dev a (\<lambda>d. d\<lparr>device_handle := Some h\<rparr>) s1 = Some s2"
      and k: "libusb_kernel_driver_active E h ?i s2 = Some (active, s3)"
      and dt: "(if active = 1 then libusb_detach_kernel_driver E h ?i s3 else Some (0, s3)) = Some (res2, s4)"
      and rest: "(if res2 < 0 then do { s5 \<leftarrow> libusb_close h s4; Some (Setup_failed, s5) }
       else do {
         (res3, s5) \<leftarrow> libusb_claim_interface E h ?i s4;
         if res3 < 0 then do { s6 \<leftarrow> libusb_close h s5; Some (Setup_failed, s6) }
         else do { s6 \<leftarrow> update_dev a (start_device dev alt) s5; Some (Opened, s6) } }) = Some (r, s')"
      unfolding open_interface_def Let_def by (auto elim!: bind_SomeE)
    have t24: "traced s2 s4"
      using handle_calls_traced(1) [OF k] dt handle_calls_traced(2) [of E h ?i s3] traced_trans
      by (auto split: if_splits)
    have s4: "handles s4 = (handles s)(?h \<mapsto> dev)" "heap s4 a = Some (d\<lparr>device_handle := Some ?h\<rparr>)"
      using u h t24 assms(3) by (auto simp: update_dev_def traced_iff)
    have cl: "handles t' = handles s \<and> heap t' a = Some (d\<lparr>device_handle := Some ?h\<rparr>)"
      if "libusb_close h t = Some t'" "traced s4 t" for t t'
      using that s4 h(1) free by (auto simp: libusb_close_def note_call_def traced_iff fun_upd_idem split: option.splits)
    show ?thesis
    proof (cases "res2 < 0")
      case True
      then have "r = Setup_failed" "libusb_close h s4 = Some s'" using rest by (auto simp: bind_Some_iff)
      then show ?thesis using cl [of s4 s'] by simp
    next
      case r2: False
      then obtain res3 s5 where c: "libusb_claim_interface E h ?i s4 = Some (res3, s5)" using rest by (auto elim!: bind_SomeE)
      note t5 = handle_calls_traced(3) [OF c]
      show ?thesis
      proof (cases "res3 < 0")
        case True
        then have "r = Setup_failed" "libusb_close h s5 = Some s'" using rest r2 c by (auto simp: bind_Some_iff)
        then show ?thesis using cl [of s5 s'] t5 by simp
      next
        case False
        then have "r = Opened" "update_dev a (start_device dev alt) s5 = Some s'" using rest r2 c by (auto simp: bind_Some_iff)
        then show ?thesis using s4 t5 by (auto simp: update_dev_def traced_iff start_device_fields)
      qed
    qed
  qed
qed

text \<open>
  \<open>counted a s0 good s\<close>: since \<open>s0\<close> the structure at \<open>a\<close> has been started as often as it has threads; not started, no handle is open
  that was not before; started once, and \<open>good_open\<close> still set, exactly its own.
\<close>

definition counted :: "nat \<Rightarrow> ust \<Rightarrow> bool \<Rightarrow> ust \<Rightarrow> bool" where
  "counted a s0 good s \<longleftrightarrow> (\<exists>d. heap s a = Some d \<and> (threads d = 0 \<longrightarrow> \<not> good \<and> handles s = handles s0) \<and>
     (good \<longrightarrow> threads d = 1 \<longrightarrow> (\<exists>k dev. device_handle d = Some k \<and> next_handle s0 \<le> k \<and> handles s = (handles s0)(k \<mapsto> dev))))"

lemma counted_step:
  assumes "open_interface E a dev alt s = Some (r, s')" "fresh_ids s" "next_handle s0 \<le> next_handle s" "counted a s0 good s"
  shows "counted a s0 (case r of Opened \<Rightarrow> True | Open_failed \<Rightarrow> good | Setup_failed \<Rightarrow> False) s'"
proof -
  obtain d where d: "heap s a = Some d" using assms(4) by (auto simp: counted_def)
  from open_interface_handles [OF assms(1,2) d] show ?thesis using assms(3,4) d by (cases r) (auto simp: counted_def)
qed

lemma running_traced: "traced s s' \<Longrightarrow> running a lo s \<Longrightarrow> running a lo s'"
  by (simp add: running_def traced_iff usb_live_def handle_of_def)

text \<open>The three loops: whenever \<open>good_open\<close> is set at the end, the structure is running.\<close>

lemma open_alts_opens:
  assumes "open_alts E pa a dev alts good s = Some (good', s')" "lo \<le> next_handle s" "good \<longrightarrow> running a lo s"
  shows "opens a lo s s' \<and> (good' \<longrightarrow> running a lo s')"
  using assms
proof (induction alts arbitrary: good s)
  case (Cons alt alts)
  show ?case
  proof (cases "bInterfaceClass alt = LIBUSB_CLASS_HID \<and> make_path dev (bInterfaceNumber alt) = pa")
    case True
    then obtain r s1 where o: "open_interface E a dev alt s = Some (r, s1)"
      and rest: "(case r of Opened \<Rightarrow> open_alts E pa a dev alts True s1
        | Open_failed \<Rightarrow> Some (good, s1) | Setup_failed \<Rightarrow> Some (False, s1)) = Some (good', s')"
      using Cons.prems(1) by (auto simp: bind_Some_iff)
    note f = open_interface_opens [OF o Cons.prems(2)]
    have lo1: "lo \<le> next_handle s1" using f Cons.prems(2) by (simp add: opens_def)
    show ?thesis
    proof (cases r)
      case Opened
      then show ?thesis using Cons.IH [OF _ lo1, of True] rest f opens_trans by auto
    next
      case Open_failed
      then show ?thesis using rest f Cons.prems(3) running_traced by auto
    next
      case Setup_failed
      then show ?thesis using rest f by auto
    qed
  next
    case False
    then have "open_alts E pa a dev alts good s = Some (good', s')" using Cons.prems(1) by auto
    then show ?thesis using Cons.IH Cons.prems(2,3) by blast
  qed
qed simp

lemma open_interfaces_opens:
  assumes "open_interfaces E pa a dev intfs good s = Some (good', s')" "lo \<le> next_handle s"
    "good \<longrightarrow> running a lo s"
  shows "opens a lo s s' \<and> (good' \<longrightarrow> running a lo s')"
  using assms
proof (induction intfs arbitrary: good s)
  case (Cons intf intfs)
  then obtain g1 s1 where o: "open_alts E pa a dev intf good s = Some (g1, s1)"
    "open_interfaces E pa a dev intfs g1 s1 = Some (good', s')" by (auto simp: bind_Some_iff)
  note f = open_alts_opens [OF o(1) Cons.prems(2,3)]
  then have "lo \<le> next_handle s1" using Cons.prems(2) by (simp add: opens_def)
  from Cons.IH [OF o(2) this] f show ?case using opens_trans by blast
qed simp

lemma open_devices_opens:
  assumes "open_devices E pa a devs good s = Some (good', s')" "lo \<le> next_handle s" "good \<longrightarrow> running a lo s"
  shows "opens a lo s s' \<and> (good' \<longrightarrow> running a lo s')"
  using assms
proof (induction devs arbitrary: good s)
  case (Cons dev devs)
  show ?case
  proof (cases "active_config dev")
    case None
    then show ?thesis using Cons by auto
  next
    case (Some conf)
    then obtain g1 s1 where o: "open_interfaces E pa a dev conf good s = Some (g1, s1)"
      "open_devices E pa a devs g1 s1 = Some (good', s')"
      using Cons.prems(1) by (auto simp: bind_Some_iff)
    note f = open_interfaces_opens [OF o(1) Cons.prems(2,3)]
    then have "lo \<le> next_handle s1" using Cons.prems(2) by (simp add: opens_def)
    from Cons.IH [OF o(2) this] f show ?thesis using opens_trans by blast
  qed
qed simp

lemma open_alts_counted:
  assumes "open_alts E pa a dev alts good s = Some (good', s')" "fresh_ids s" "next_handle s0 \<le> next_handle s" "counted a s0 good s"
  shows "counted a s0 good' s'"
  using assms
proof (induction alts arbitrary: good s)
  case (Cons alt alts)
  show ?case
  proof (cases "bInterfaceClass alt = LIBUSB_CLASS_HID \<and> make_path dev (bInterfaceNumber alt) = pa")
    case True
    then obtain r s1 where o: "open_interface E a dev alt s = Some (r, s1)"
      and rest: "(case r of Opened \<Rightarrow> open_alts E pa a dev alts True s1
        | Open_failed \<Rightarrow> Some (good, s1) | Setup_failed \<Rightarrow> Some (False, s1)) = Some (good', s')"
      using Cons.prems(1) by (auto simp: bind_Some_iff)
    note f = open_interface_opens [OF o, of 0]
    have "fresh_ids s1" "next_handle s0 \<le> next_handle s1" using f Cons.prems(2,3) by (auto simp: opens_def)
    then show ?thesis using Cons.IH [of True s1] rest counted_step [OF o Cons.prems(2-4)] by (cases r) auto
  next
    case False
    then show ?thesis using Cons by auto
  qed
qed simp

lemma open_interfaces_counted:
  assumes "open_interfaces E pa a dev intfs good s = Some (good', s')" "fresh_ids s" "next_handle s0 \<le> next_handle s"
    "counted a s0 good s" "good \<longrightarrow> running a 0 s"
  shows "counted a s0 good' s'"
  using assms
proof (induction intfs arbitrary: good s)
  case (Cons intf intfs)
  then obtain g1 s1 where o: "open_alts E pa a dev intf good s = Some (g1, s1)"
    "open_interfaces E pa a dev intfs g1 s1 = Some (good', s')" by (auto simp: bind_Some_iff)
  have "opens a 0 s s1 \<and> (g1 \<longrightarrow> running a 0 s1)" using open_alts_opens [OF o(1)] Cons.prems(5) by blast
  then show ?case using Cons.IH [OF o(2)] open_alts_counted [OF o(1) Cons.prems(2-4)] Cons.prems(2,3) by (auto simp: opens_def)
qed simp

lemma open_devices_counted:
  assumes "open_devices E pa a devs good s = Some (good', s')" "fresh_ids s" "next_handle s0 \<le> next_handle s"
    "counted a s0 good s" "good \<longrightarrow> running a 0 s"
  shows "counted a s0 good' s'"
  using assms
proof (induction devs arbitrary: good s)
  case (Cons dev devs)
  show ?case
  proof (cases "active_config dev")
    case (Some conf)
    then obtain g1 s1 where o: "open_interfaces E pa a dev conf good s = Some (g1, s1)"
      "open_devices E pa a devs g1 s1 = Some (good', s')"
      using Cons.prems(1) by (auto simp: bind_Some_iff)
    have "opens a 0 s s1 \<and> (g1 \<longrightarrow> running a 0 s1)" using open_interfaces_opens [OF o(1)] Cons.prems(5) by blast
    then show ?thesis using Cons.IH [OF o(2)] open_interfaces_counted [OF o(1) Cons.prems(2-5)] Cons.prems(2,3) by (auto simp: opens_def)
  qed (use Cons in auto)
qed simp

text \<open>Opening a path: on success one more device is live, otherwise the devices are as before.\<close>

lemma usb_inv_other:
  assumes "usb_inv s" "next_dev s = a" "opens a (next_handle s) s1 s'"
    and "heap s1 = (heap s)(a \<mapsto> d0)" "next_dev s1 = a + 1" "handles s1 = handles s"
      "next_handle s1 = next_handle s"
  shows "fresh_ids s' \<and> usb_live s' - {a} = usb_live s \<and> (\<forall>b\<in>usb_live s. handle_of s' b = handle_of s b \<and>
    (\<exists>h. handle_of s b = Some h \<and> h < next_handle s \<and> handles s' h \<noteq> None))"
proof -
  have f: "fresh_ids s" using assms(1) by (simp add: usb_inv_def)
  have a: "heap s a = None" using f assms(2) by (auto simp: fresh_ids_def)
  have "fresh_ids s1" using f assms by (auto simp: fresh_ids_def less_Suc_eq split: if_splits)
  then have f': "fresh_ids s'" using assms(3) by (simp add: opens_def)
  have h': "heap s' b = heap s b" if "b \<noteq> a" for b
    using that assms(3,4) by (simp add: opens_def)
  have na: "a \<notin> usb_live s" using a by (simp add: usb_live_def)
  have "b \<in> usb_live s' - {a} \<longleftrightarrow> b \<in> usb_live s" for b
    using h' [of b] na by (cases "b = a") (simp_all add: usb_live_def)
  then have l: "usb_live s' - {a} = usb_live s" by blast
  have "handle_of s' b = handle_of s b \<and>
    (\<exists>h. handle_of s b = Some h \<and> h < next_handle s \<and> handles s' h \<noteq> None)" if b: "b \<in> usb_live s" for b
  proof -
    obtain h where h: "handle_of s b = Some h" "handles s h \<noteq> None"
      using assms(1) b unfolding usb_inv_def by blast
    have "h < next_handle s" using f h(2) by (simp add: fresh_ids_def)
    moreover from this have "handles s' h = handles s h"
      using assms(3,6) by (simp add: opens_def)
    moreover have "handle_of s' b = handle_of s b"
      using h' [of b] b na by (cases "b = a") (simp_all add: handle_of_def)
    ultimately show ?thesis using h by auto
  qed
  then show ?thesis using f' l by blast
qed

text \<open>The two ends of \<open>hid_open_path\<close>: the new device stays, or its structure is freed again.\<close>

lemma usb_inv_added:
  assumes "usb_inv s" "opens (next_dev s) (next_handle s) s1 s'" "running (next_dev s) (next_handle s) s'"
    and "heap s1 = (heap s)(next_dev s \<mapsto> d0)" "next_dev s1 = next_dev s + 1" "handles s1 = handles s"
      "next_handle s1 = next_handle s"
  shows "usb_inv s' \<and> next_dev s \<notin> usb_live s \<and> usb_live s' = insert (next_dev s) (usb_live s)"
proof -
  let ?a = "next_dev s"
  note k = usb_inv_other [OF assms(1) refl assms(2,4-7)]
  have ai: "inj_on (handle_of s) (usb_live s)" using assms(1) by (simp add: usb_inv_def)
  have na: "?a \<notin> usb_live s" using assms(1) by (auto simp: usb_inv_def fresh_ids_def usb_live_def)
  obtain h where h: "handle_of s' ?a = Some h" "next_handle s \<le> h" "handles s' h \<noteq> None"
    and live: "?a \<in> usb_live s'" using assms(3) by (auto simp: running_def)
  have lv: "usb_live s' = insert ?a (usb_live s)" using k live by auto
  have "inj_on (handle_of s') (usb_live s)" using ai k by (auto simp: inj_on_def)
  moreover have "handle_of s' ?a \<notin> handle_of s' ` usb_live s" using h k by fastforce
  ultimately have "inj_on (handle_of s') (usb_live s')" using na lv by simp
  moreover have "\<forall>b\<in>usb_live s'. \<exists>h. handle_of s' b = Some h \<and> handles s' h \<noteq> None"
    using h k unfolding lv by auto
  ultimately show ?thesis using k na lv by (simp add: usb_inv_def)
qed

lemma usb_inv_dropped:
  assumes "usb_inv s" "opens (next_dev s) (next_handle s) s1 s4"
    and "heap s1 = (heap s)(next_dev s \<mapsto> d0)" "next_dev s1 = next_dev s + 1" "handles s1 = handles s"
      "next_handle s1 = next_handle s"
    and s': "s' = s4\<lparr>heap := (heap s4)(next_dev s := None)\<rparr>"
  shows "usb_inv s' \<and> usb_live s' = usb_live s"
proof -
  let ?a = "next_dev s"
  note k = usb_inv_other [OF assms(1) refl assms(2-6)]
  have ai: "inj_on (handle_of s) (usb_live s)" using assms(1) by (simp add: usb_inv_def)
  have na: "?a \<notin> usb_live s" using assms(1) by (auto simp: usb_inv_def fresh_ids_def usb_live_def)
  have "usb_live s' = usb_live s4 - {?a}" by (auto simp: usb_live_def s')
  then have lv: "usb_live s' = usb_live s" using k by simp
  have ho: "handle_of s' b = handle_of s b" if "b \<in> usb_live s" for b
    using k that na by (auto simp: handle_of_def s')
  have "fresh_ids s'" using k by (auto simp: fresh_ids_def s')
  moreover have "inj_on (handle_of s') (usb_live s')"
    using ai ho unfolding lv by (auto simp: inj_on_def)
  moreover have "\<forall>b\<in>usb_live s'. \<exists>h. handle_of s' b = Some h \<and> handles s' h \<noteq> None"
    using k ho unfolding lv by (auto simp: s')
  ultimately show ?thesis using lv by (simp add: usb_inv_def)
qed

lemma hid_open_path_law:
  assumes "usb_inv s" "hid_open_path E pa s = Some (r, s')" "usb_context s"
  shows "usb_inv s' \<and> ublocks s' = ublocks s \<and>
    (case r of None \<Rightarrow> usb_held s' = usb_held s
     | Some d \<Rightarrow> d \<notin> usb_live s \<and> usb_live s' = insert d (usb_live s) \<and> usb_over s' d (usb_held s))"
proof -
  let ?a = "next_dev s"
  define s1 where "s1 = snd (new_hid_device s)"
  have s1: "s1 = s\<lparr>heap := (heap s)(?a \<mapsto> zero_dev\<lparr>blocking := True\<rparr>), next_dev := ?a + 1\<rparr>"
    by (simp add: s1_def new_hid_device_def Let_def)
  have init: "hid_init E s1 = (0, s1)" using assms(3) by (simp add: hid_init_def s1)
  let ?s3 = "note_call CGetList s1"
  obtain devs good s4 where o: "open_devices E pa ?a devs False ?s3 = Some (good, s4)"
    and rest: "(if good then Some (Some ?a, s4)
      else do { s5 \<leftarrow> free_hid_device ?a s4; Some (None, s5) }) = Some (r, s')"
    using assms(2) init
    by (auto simp: hid_open_path_def new_hid_device_def Let_def s1 libusb_get_device_list_def
        elim!: bind_SomeE)
  have f3: "heap ?s3 = (heap s)(?a \<mapsto> zero_dev\<lparr>blocking := True\<rparr>)" "next_dev ?s3 = ?a + 1"
    "handles ?s3 = handles s" "next_handle ?s3 = next_handle s" "ublocks ?s3 = ublocks s"
    by (simp_all add: s1 note_call_def)
  have op: "opens ?a (next_handle s) ?s3 s4" "good \<longrightarrow> running ?a (next_handle s) s4"
    using open_devices_opens [OF o, of "next_handle s"] f3(4) by simp_all
  have bl: "ublocks s4 = ublocks s" using op(1) f3(5) by (simp add: opens_def)
  have fr: "fresh_ids s" using assms(1) by (simp add: usb_inv_def)
  have "fresh_ids ?s3" using fr f3(1-4) by (auto simp: fresh_ids_def less_Suc_eq split: if_splits)
  moreover have "counted ?a s False ?s3" using f3(1,3) by (simp add: counted_def zero_dev_def)
  ultimately have ct: "counted ?a s good s4" using open_devices_counted [OF o] f3(4) by simp
  show ?thesis
  proof (cases good)
    case True
    then have r: "r = Some ?a" "s' = s4" using rest by auto
    have i: "usb_inv s' \<and> ?a \<notin> usb_live s \<and> usb_live s' = insert ?a (usb_live s)"
      using usb_inv_added [OF assms(1) op(1) _ f3(1-4)] op(2) True r by simp
    have "(handles s)(k \<mapsto> dev, k := None) = handles s" if "next_handle s \<le> k" for k dev
      using fr that by (auto simp: fresh_ids_def fun_upd_idem_iff)
    then have "usb_over s' ?a (usb_held s)"
      using ct True i by (auto simp: counted_def usb_over_def usb_held_def r(2))
    then show ?thesis using i r bl by simp
  next
    case False
    then have "r = None" "s' = s4\<lparr>heap := (heap s4)(?a := None)\<rparr>"
      using rest by (auto simp: free_hid_device_def bind_Some_iff split: if_splits)
    moreover have "handles s4 = handles s" using rest False ct by (auto simp: counted_def free_hid_device_def split: if_splits)
    ultimately show ?thesis using usb_inv_dropped [OF assms(1) op(1) f3(1-4)] bl by (simp add: usb_held_def)
  qed
qed

lemma hid_enumerate_context:
  assumes "fresh_ids s" "hid_enumerate E v p s = Some (ds, s')" "ds \<noteq> []"
  shows "usb_context s'"
proof -
  obtain r s1 where i: "hid_init E s = (r, s1)" by (cases "hid_init E s")
  obtain l s2 where g: "libusb_get_device_list E s1 = (l, s2)" by (cases "libusb_get_device_list E s1")
  have b: "balanced 0 s s2"
    using balanced_trans [of 0 s s1 0 s2] hid_init_balanced [OF i] get_device_list_balanced [OF g] by simp
  from assms(2,3) i g obtain devs where r: "\<not> r < 0" and e: "enum_devices E v p devs s2 = Some (ds, s')"
    by (auto simp: hid_enumerate_def split: if_splits option.splits)
  have "usb_context s2"
    using hid_init_balanced [OF i] r get_device_list_balanced [OF g] by (simp add: balanced_def)
  then show ?thesis
    using enum_devices_balanced [OF balanced_fresh [OF b assms(1)] e] by (simp add: balanced_def)
qed

lemma find_path_empty: "find_path v p sn [] = Some pa \<Longrightarrow> pa = None"
  by simp

lemma hid_open_law:
  assumes "usb_inv s" "hid_open E v p sn s = Some (r, s')"
  shows "usb_inv s' \<and> ublocks s' = ublocks s \<and>
    (case r of None \<Rightarrow> usb_held s' = usb_held s
     | Some d \<Rightarrow> d \<notin> usb_live s \<and> usb_live s' = insert d (usb_live s) \<and> usb_over s' d (usb_held s))"
proof -
  obtain devs s1 pa s2 where en: "hid_enumerate E v p s = Some (devs, s1)"
    and fp: "find_path v p sn devs = Some pa"
    and op: "(case pa of None \<Rightarrow> Some (None, s1) | Some q \<Rightarrow> hid_open_path E q s1) = Some (r, s2)"
    and s': "s' = hid_free_enumeration devs s2"
    using assms(2) unfolding hid_open_def by (elim bind_SomeE) (auto elim!: bind_SomeE)
  have f: "fresh_ids s" using assms(1) by (simp add: usb_inv_def)
  note e = hid_enumerate_balanced [OF f en]
  have i1: "usb_inv s1" "usb_held s1 = usb_held s" using balanced_held e assms(1) by blast+
  note fr = hid_free_enumeration_balanced [of devs s2]
  show ?thesis
  proof (cases pa)
    case None
    then have "s2 = s1" "r = None" using op by simp_all
    then show ?thesis
      using balanced_held [OF fr] i1 e fr by (simp add: s' balanced_def)
  next
    case (Some q)
    then have "devs \<noteq> []" using fp by auto
    then have c: "usb_context s1" by (rule hid_enumerate_context [OF f en])
    have "hid_open_path E q s1 = Some (r, s2)" using op Some by simp
    note o = hid_open_path_law [OF i1(1) this c]
    then show ?thesis
      using balanced_held [OF fr] i1 e fr by (auto simp: s' balanced_def usb_held_def split: option.splits)
  qed
qed

section \<open>Reports and closing\<close>

lemma hid_send_traced: "hid_send_feature_report E a data n s = Some (r, s') \<Longrightarrow> traced s s'"
  by (auto simp: hid_send_feature_report_def Let_def bind_Some_iff dest!: handle_calls_traced split: if_splits)

lemma hid_get_traced:
  assumes "hid_get_feature_report E a data n s = Some (r, data', s')"
  shows "traced s s' \<and> length data' = length data \<and> (0 < n \<longrightarrow> drop n data' = drop n data)"
proof -
  let ?n = "\<lambda>rn::byte. if rn = 0 then size_dec n else n"
  obtain rn where rn: "rd data 0 = Some rn"
    using assms by (cases "rd data 0") (simp_all add: hid_get_feature_report_def)
  obtain d h where d: "with_dev a s = Some (d, h)"
    using assms rn by (cases "with_dev a s") (auto simp: hid_get_feature_report_def)
  from assms rn d obtain q s1 where
    c: "libusb_control_in E h (0x0300 OR ucast rn) (interface d) (?n rn mod 2 ^ 16) s = Some (q, s1)"
    and rest: "(case q of None \<Rightarrow> Some (- 1, data, s1)
      | Some bs \<Rightarrow> do {
         data' \<leftarrow> wr_block data (if rn = 0 then 1 else 0) bs;
         Some (if rn = 0 then int (length bs) + 1 else int (length bs), data', s1) }) = Some (r, data', s')"
    unfolding hid_get_feature_report_def Let_def by (auto elim!: bind_SomeE)
  show ?thesis
  proof (cases q)
    case None
    then show ?thesis using rest handle_calls_traced(6) [OF c] by simp
  next
    case (Some bs)
    have w: "wr_block data (if rn = 0 then 1 else 0) bs = Some data'" "s' = s1"
      using rest Some by (auto simp: bind_Some_iff)
    have "length bs \<le> ?n rn mod 2 ^ 16"
      using c Some by (auto simp: libusb_control_in_def on_handle_def bind_Some_iff)
    then have "length bs \<le> ?n rn"
      using mod_less_eq_dividend le_trans by blast
    then have "0 < n \<longrightarrow> drop n data' = drop n data"
      using w(1) by (auto simp: buf_iffs size_dec_def split: if_splits)
    then show ?thesis
      using w handle_calls_traced(6) [OF c] wr_block_length by auto
  qed
qed

lemma clear_queue_ok:
  "length (input_reports d) \<le> n \<Longrightarrow> clear_queue n d = Some (d\<lparr>input_reports := []\<rparr>)"
proof (induction n arbitrary: d)
  case (Suc n)
  then show ?case
    by (cases "input_reports d") (simp_all add: return_data_def Let_def)
qed simp

text \<open>Closing takes the structure and its handle away, and nothing else.\<close>

lemma hid_close_effect:
  assumes "hid_close (Some a) s = Some s'" "a \<in> usb_live s"
  shows "\<exists>h. handle_of s a = Some h \<and> heap s' = (heap s)(a := None) \<and> handles s' = (handles s)(h := None) \<and>
    next_dev s' = next_dev s \<and> next_handle s' = next_handle s \<and> ublocks s' = ublocks s \<and> map_option threads (heap s a) = Some 1"
proof -
  from assms obtain d h where d: "heap s a = Some d" "device_handle d = Some h" "threads d \<noteq> 0"
    by (auto simp: hid_close_def with_dev_def bind_Some_iff usb_live_def)
  define d1 where "d1 = d\<lparr>shutdown_thread := True, threads := threads d - 1\<rparr>"
  let ?s1 = "s\<lparr>heap := (heap s)(a \<mapsto> d1)\<rparr>"
  have s1: "update_dev a (\<lambda>d. d\<lparr>shutdown_thread := True, threads := threads d - 1\<rparr>) s = Some ?s1"
    using d by (simp add: update_dev_def d1_def)
  obtain u s2 s3 d3 d4 s4 where
    r: "libusb_release_interface h (interface d) ?s1 = Some (u, s2)"
    and c: "libusb_close h s2 = Some s3"
    and q: "heap s3 a = Some d3" "clear_queue (length (input_reports d3)) d3 = Some d4"
      "update_dev a (\<lambda>_. d4) s3 = Some s4"
    and f: "free_hid_device a s4 = Some s'"
    using assms(1) d s1 by (auto simp: hid_close_def with_dev_def elim!: bind_SomeE)
  note t = tracedD [OF handle_calls_traced(4) [OF r]]
  have s3: "heap s3 = (heap s)(a \<mapsto> d1)" "handles s3 = (handles s)(h := None)" "next_dev s3 = next_dev s"
    "next_handle s3 = next_handle s" "ublocks s3 = ublocks s"
    using c t by (auto simp: libusb_close_def note_call_def split: option.splits)
  then have s4: "s4 = s3\<lparr>heap := (heap s)(a \<mapsto> d4)\<rparr>" and d3: "d3 = d1"
    using q by (auto simp: update_dev_def bind_Some_iff)
  have "threads d4 = threads d1" using q(2) clear_queue_ok [of d3 "length (input_reports d3)"] d3 by auto
  then have "threads d = 1" using f d s4 by (auto simp: free_hid_device_def d1_def split: if_splits)
  then show ?thesis
    using f d s3 s4 by (auto simp: free_hid_device_def bind_Some_iff handle_of_def split: if_splits)
qed

lemma hid_close_law:
  assumes "usb_inv s" "a \<in> usb_live s" "hid_close (Some a) s = Some s'"
  shows "usb_inv s' \<and> usb_live s' = usb_live s - {a} \<and> ublocks s' = ublocks s \<and> (usb_over s a x \<longrightarrow> usb_held s' = x)"
proof -
  obtain h where h: "handle_of s a = Some h" and e: "heap s' = (heap s)(a := None)"
    "handles s' = (handles s)(h := None)" "next_dev s' = next_dev s" "next_handle s' = next_handle s"
    "ublocks s' = ublocks s" "map_option threads (heap s a) = Some 1"
    using hid_close_effect [OF assms(3,2)] by blast
  have lv: "usb_live s' = usb_live s - {a}" by (auto simp: usb_live_def e)
  have ho: "handle_of s' b = handle_of s b" if "b \<noteq> a" for b using that by (simp add: handle_of_def e)
  have inj: "inj_on (handle_of s) (usb_live s)" using assms(1) by (simp add: usb_inv_def)
  have "\<exists>k. handle_of s' b = Some k \<and> handles s' k \<noteq> None" if b: "b \<in> usb_live s'" for b
  proof -
    have b': "b \<in> usb_live s" "b \<noteq> a" using b lv by auto
    then obtain k where k: "handle_of s b = Some k" "handles s k \<noteq> None"
      using assms(1) unfolding usb_inv_def by blast
    have "k \<noteq> h" using inj_onD [OF inj _ b'(1) assms(2)] b'(2) k(1) h by auto
    then show ?thesis using k ho [OF b'(2)] by (auto simp: e)
  qed
  moreover have "inj_on (handle_of s') (usb_live s')"
    using inj ho unfolding lv by (auto simp: inj_on_def)
  moreover have "fresh_ids s'"
    using assms(1) by (auto simp: usb_inv_def fresh_ids_def e)
  moreover have "usb_held s' = x" if "usb_over s a x"
    using that h e(2,6) by (auto simp: usb_over_def usb_held_def lv handle_of_def)
  ultimately show ?thesis by (simp add: usb_inv_def lv e(2,5))
qed

section \<open>The contract holds\<close>

interpretation usb: hid_backend "libusb_backend E" usb_inv usb_held usb_over ublocks for E
proof unfold_locales
  fix h h' :: ust and v p ds sn d buf buf' n r x
  show "usb_inv h' \<and> usb_held h' = usb_held h \<and> ublocks h' = ublocks h + list_blocks ds \<and> list_all (info_matches v p) ds"
    if "usb_inv h" "api_enumerate (libusb_backend E) v p h = Some (ds, h')"
    using that hid_enumerate_balanced [of h E v p ds h'] balanced_held [of "list_blocks ds" h h']
    by (auto simp: libusb_backend_def usb_inv_def balanced_def)
  show "usb_inv h' \<and> usb_held h' = usb_held h \<and> ublocks h' = ublocks h - list_blocks ds"
    if "usb_inv h" "api_free_enumeration (libusb_backend E) ds h = Some h'"
    using that hid_free_enumeration_balanced [of ds h] balanced_held [of "- list_blocks ds" h h']
    by (auto simp: libusb_backend_def balanced_def)
  show "usb_inv h' \<and> usb_held h' = usb_held h \<and> ublocks h' = ublocks h"
    if "usb_inv h" "api_open (libusb_backend E) v p sn h = Some (None, h')"
    using that hid_open_law [of h E v p sn None h'] by (simp add: libusb_backend_def)
  show "usb_inv h' \<and> usb_over h' d (usb_held h)"
    if "usb_inv h" "api_open (libusb_backend E) v p sn h = Some (Some d, h')"
    using that hid_open_law [of h E v p sn "Some d" h'] by (simp add: libusb_backend_def)
  show "usb_inv h' \<and> usb_over h' d x"
    if "usb_inv h" "usb_over h d x" "api_send_feature_report (libusb_backend E) d buf n h = Some (r, h')"
    using that hid_send_traced [of E d buf n h r h'] balanced_held [OF balanced_traced, of h h'] by (simp add: libusb_backend_def)
  show "usb_inv h' \<and> usb_over h' d x \<and> length buf' = length buf \<and> drop n buf' = drop n buf"
    if "usb_inv h" "usb_over h d x" "0 < n" "api_get_feature_report (libusb_backend E) d buf n h = Some (r, buf', h')"
    using that hid_get_traced [of E d buf n h r buf' h'] balanced_held [OF balanced_traced, of h h'] by (simp add: libusb_backend_def)
  show "api_close (libusb_backend E) None h = Some h" by (simp add: libusb_backend_def hid_close_def)
  show "usb_inv h' \<and> usb_held h' = x"
    if "usb_inv h" "usb_over h d x" "api_close (libusb_backend E) (Some d) h = Some h'"
    using that hid_close_law [of h d h' x] by (simp add: libusb_backend_def usb_over_def)
  show "usb_inv h' \<and> usb_held h' = usb_held h \<and> ublocks h' = ublocks h"
    if "usb_inv h" "api_exit (libusb_backend E) h = Some (r, h')"
    using that hid_exit_inv [of h r h'] by (simp add: libusb_backend_def usb_held_def)
qed

end
