(* ===== verification/NovinConsts.thy ===== *)
theory NovinConsts
  imports Prelude
begin

text \<open>
  The headers of the token library: \<^verbatim>\<open>token-DLL/lib/novin-error.h\<close> (error codes, the bits of the
  token's status word) and \<^verbatim>\<open>token-DLL/lib/novin-op-code.h\<close> (USB ids, report ids, op-codes and
  the global token table \<open>tk\<close> with the macro that looks for its active entry).
  A C \<open>int\<close> is an \<open>int\<close> here: every value these definitions compute lies between
  -255 and 65535.
\<close>

section \<open>Error codes\<close>

definition nErr_OK :: int where "nErr_OK = 0"
definition nErr_DNF :: int where "nErr_DNF = 1"
definition nErr_IOE :: int where "nErr_IOE = 3"
definition nErr_DIS :: int where "nErr_DIS = 13"
definition nErr_BLK :: int where "nErr_BLK = 14"
definition nErr_OTE :: int where "nErr_OTE = 16"
definition nErr_CAT :: int where "nErr_CAT = 19"
definition nErr_RSANS :: int where "nErr_RSANS = 60"
definition nErr_INVKT :: int where "nErr_INVKT = 64"
definition nErr_INSGN :: int where "nErr_INSGN = 65"
definition nErr_DNS :: int where "nErr_DNS = 132"

lemmas nErr_defs [const_simps] =
  nErr_OK_def nErr_DNF_def nErr_IOE_def nErr_DIS_def nErr_BLK_def nErr_OTE_def nErr_CAT_def
  nErr_RSANS_def nErr_INVKT_def nErr_INSGN_def nErr_DNS_def

section \<open>The status word\<close>

definition CS_Disabled :: int where "CS_Disabled = 0x0100"
definition CS_Suspended :: int where "CS_Suspended = 0x0200"
definition CS_Blocked :: int where "CS_Blocked = 0x0400"
definition CS_RSA1024 :: int where "CS_RSA1024 = 0x0800"

text \<open>The macros are used as C conditions: the masked bit is not zero.\<close>

definition IS_DISABLED :: "int \<Rightarrow> bool" where
  "IS_DISABLED stat \<longleftrightarrow> CS_Disabled AND stat \<noteq> 0"

definition IS_BLOCKED :: "int \<Rightarrow> bool" where
  "IS_BLOCKED stat \<longleftrightarrow> CS_Blocked AND stat \<noteq> 0"

definition IS_SUSPEND :: "int \<Rightarrow> bool" where
  "IS_SUSPEND stat \<longleftrightarrow> CS_Suspended AND stat \<noteq> 0"

definition RSA1024_ENABLED :: "int \<Rightarrow> bool" where
  "RSA1024_ENABLED stat \<longleftrightarrow> CS_RSA1024 AND stat \<noteq> 0"

lemmas status_defs =
  IS_DISABLED_def IS_BLOCKED_def IS_SUSPEND_def RSA1024_ENABLED_def
  CS_Disabled_def CS_Suspended_def CS_Blocked_def CS_RSA1024_def

text \<open>Masking with a power of two tests one bit.\<close>

lemma and_exp_int_eq_0_iff: "2 ^ n AND x = (0::int) \<longleftrightarrow> \<not> bit x n"
  by (simp add: and.commute [of "2 ^ n"] and_exp_eq_0_iff_not_bit)

lemma status_bits:
  "IS_DISABLED stat \<longleftrightarrow> bit stat 8"
  "IS_SUSPEND stat \<longleftrightarrow> bit stat 9"
  "IS_BLOCKED stat \<longleftrightarrow> bit stat 10"
  "RSA1024_ENABLED stat \<longleftrightarrow> bit stat 11"
  using and_exp_int_eq_0_iff [of 8 stat] and_exp_int_eq_0_iff [of 9 stat]
    and_exp_int_eq_0_iff [of 10 stat] and_exp_int_eq_0_iff [of 11 stat]
  by (simp_all add: status_defs)

text \<open>None of the four bits the library looks at is in the low byte.\<close>

lemma low_byte_no_status_bit:
  assumes "0 \<le> stat" "stat < 256" "8 \<le> n"
  shows "\<not> bit (stat :: int) n"
proof -
  have "(256::int) \<le> 2 ^ n"
    using power_increasing [of 8 n "2::int"] assms(3) by simp
  then have "stat < 2 ^ n" using assms(2) by linarith
  then have "stat div 2 ^ n = 0" using assms(1) by simp
  then show ?thesis by (simp add: bit_iff_odd)
qed

section \<open>USB ids, reports and op-codes\<close>

definition VID :: u16 where "VID = 0x03eb"
definition PID :: u16 where "PID = 0x8ac7"

definition MAX_TOKEN_SUPPORT :: nat where "MAX_TOKEN_SUPPORT = 8"
definition PWD_LEN :: nat where "PWD_LEN = 16"

definition ReportID_GetLarge :: nat where "ReportID_GetLarge = 2"
definition ReportID_GetRSAKEY :: nat where "ReportID_GetRSAKEY = 3"
definition OpCode_GetRSAKEY :: byte where "OpCode_GetRSAKEY = 0x38"
definition KT_Private :: nat where "KT_Private = 1"
definition KT_Public :: nat where "KT_Public = 2"
definition KT_Exponent :: nat where "KT_Exponent = 3"
definition ReportID_GetDeviceInfo :: nat where "ReportID_GetDeviceInfo = 1"
definition OpCode_GetDeviceInfo :: byte where "OpCode_GetDeviceInfo = 0x3c"

lemmas op_code_defs [const_simps] =
  VID_def PID_def MAX_TOKEN_SUPPORT_def PWD_LEN_def ReportID_GetLarge_def ReportID_GetRSAKEY_def
  OpCode_GetRSAKEY_def KT_Private_def KT_Public_def KT_Exponent_def ReportID_GetDeviceInfo_def
  OpCode_GetDeviceInfo_def

section \<open>The token table\<close>

record token =
  serial :: "byte list"
  inUse :: int
  selected :: int

text \<open>\<open>memset (tk, 0, sizeof(tk))\<close>, also the initial value of the global.\<close>

definition zero_token :: token where
  "zero_token = \<lparr>serial = [0, 0, 0, 0], inUse = 0, selected = 0\<rparr>"

definition zero_tk :: "token list" where
  "zero_tk = replicate MAX_TOKEN_SUPPORT zero_token"

text \<open>
  \<open>scan_active\<close> is the loop of the macro \<open>GET_ACTIVE_TOKEN\<close>: the first index with \<open>inUse\<close> set,
  8 when there is none. The macro then reads \<open>tk[i].inUse\<close> again, at index 8 past the end of the
  array; \<open>past\<close> is what that read yields on the machine at hand, \<open>None\<close> where it is undefined
  behaviour (strict C).
\<close>

fun scan_active :: "nat \<Rightarrow> token list \<Rightarrow> nat" where
  "scan_active i [] = i"
| "scan_active i (t # ts) = (if inUse t \<noteq> 0 then i else scan_active (Suc i) ts)"

definition GET_ACTIVE_TOKEN :: "int option \<Rightarrow> token list \<Rightarrow> int option" where
  "GET_ACTIVE_TOKEN past tks =
     (let i = scan_active 0 (take MAX_TOKEN_SUPPORT tks) in
      do {
        u \<leftarrow> (if i < length tks then Some (inUse (tks ! i)) else past);
        Some (if u = 0 then - nErr_DNF else int i)
      })"

text \<open>\<open>tk[tkNo]\<close> for an \<open>int\<close> index that may be -1 or 8.\<close>

definition tok_at :: "token list \<Rightarrow> int \<Rightarrow> token option" where
  "tok_at tks i = (if 0 \<le> i then rd tks (nat i) else None)"

definition tk_ok :: "token list \<Rightarrow> bool" where
  "tk_ok tks \<longleftrightarrow> length tks = MAX_TOKEN_SUPPORT \<and> list_all (\<lambda>t. length (serial t) = 4) tks"

lemma scan_active_ge: "i \<le> scan_active i ts"
  by (induction ts arbitrary: i) (auto intro: Suc_leD)

lemma scan_active_le: "scan_active i ts \<le> i + length ts"
proof (induction ts arbitrary: i)
  case (Cons t ts)
  show ?case using Cons.IH [of "Suc i"] by simp
qed simp

lemma scan_active_hit:
  "scan_active i ts < i + length ts \<Longrightarrow> inUse (ts ! (scan_active i ts - i)) \<noteq> 0"
proof (induction ts arbitrary: i)
  case (Cons t ts)
  show ?case
  proof (cases "inUse t \<noteq> 0")
    case False
    then have "scan_active (Suc i) ts - i = Suc (scan_active (Suc i) ts - Suc i)"
      using scan_active_ge [of "Suc i" ts] by linarith
    with False Cons show ?thesis by simp
  qed simp
qed simp

lemma scan_active_before:
  "i + j < scan_active i ts \<Longrightarrow> j < length ts \<Longrightarrow> inUse (ts ! j) = 0"
proof (induction ts arbitrary: i j)
  case (Cons t ts)
  then show ?case
    using Cons.IH [of "Suc i" "j - 1"] by (cases j) (auto split: if_splits)
qed simp

lemma scan_active_miss:
  "scan_active i ts = i + length ts \<longleftrightarrow> (\<forall>t\<in>set ts. inUse t = 0)"
proof (induction ts arbitrary: i)
  case (Cons t ts)
  show ?case using Cons.IH [of "Suc i"] by auto
qed simp

lemma zero_tk_ok: "tk_ok zero_tk"
  by (simp add: tk_ok_def zero_tk_def zero_token_def list_all_iff const_simps)

lemma tk_ok_length: "tk_ok tks \<Longrightarrow> length tks = 8"
  by (simp add: tk_ok_def const_simps)

lemma tk_ok_serial: "tk_ok tks \<Longrightarrow> i < 8 \<Longrightarrow> length (serial (tks ! i)) = 4"
  by (auto simp: tk_ok_def const_simps list_all_length)

text \<open>The three outcomes of the macro.\<close>

lemma GET_ACTIVE_TOKEN_some:
  assumes "tk_ok tks" "i < 8" "inUse (tks ! i) \<noteq> 0" "\<And>j. j < i \<Longrightarrow> inUse (tks ! j) = 0"
  shows "GET_ACTIVE_TOKEN past tks = Some (int i)"
proof -
  note len = tk_ok_length [OF assms(1)]
  let ?k = "scan_active 0 tks"
  have "\<not> (\<forall>t\<in>set tks. inUse t = 0)"
    using assms(2,3) len by (metis nth_mem)
  then have k8: "?k < 8"
    using scan_active_miss [of 0 tks] scan_active_le [of 0 tks] len by auto
  then have hit: "inUse (tks ! ?k) \<noteq> 0" using scan_active_hit [of 0 tks] len by simp
  then have "i \<le> ?k" using assms(4) [of ?k] by (meson not_le)
  moreover have "\<not> i < ?k"
    using scan_active_before [of 0 i tks] assms(2,3) len by auto
  ultimately have "?k = i" by simp
  then show ?thesis
    using assms(2,3) len by (simp add: GET_ACTIVE_TOKEN_def const_simps)
qed

lemma GET_ACTIVE_TOKEN_none:
  assumes "tk_ok tks" "\<forall>t\<in>set tks. inUse t = 0"
  shows "GET_ACTIVE_TOKEN past tks = map_option (\<lambda>u. if u = 0 then -1 else 8) past"
proof -
  have "scan_active 0 tks = 8"
    using scan_active_miss [of 0 tks] assms tk_ok_length [OF assms(1)] by simp
  then show ?thesis
    using tk_ok_length [OF assms(1)]
    by (cases past) (simp_all add: GET_ACTIVE_TOKEN_def const_simps)
qed

lemma GET_ACTIVE_TOKEN_cases:
  assumes "tk_ok tks" "GET_ACTIVE_TOKEN past tks = Some n"
  obtains (active) i where "n = int i" "i < 8" "inUse (tks ! i) \<noteq> 0"
  | (none) "n = -1" "past = Some 0" "\<forall>t\<in>set tks. inUse t = 0"
  | (beyond) v where "n = 8" "past = Some v" "v \<noteq> 0" "\<forall>t\<in>set tks. inUse t = 0"
proof (cases "\<forall>t\<in>set tks. inUse t = 0")
  case True
  then show thesis
    using none beyond assms(2) GET_ACTIVE_TOKEN_none [OF assms(1) True, of past]
    by (auto split: if_splits)
next
  case False
  let ?k = "scan_active 0 tks"
  have "?k < 8"
    using scan_active_miss [of 0 tks] scan_active_le [of 0 tks] tk_ok_length [OF assms(1)] False
    by auto
  moreover from this have "inUse (tks ! ?k) \<noteq> 0"
    using scan_active_hit [of 0 tks] tk_ok_length [OF assms(1)] by simp
  ultimately show thesis
    using active [of ?k] assms(2) tk_ok_length [OF assms(1)]
    by (auto simp: GET_ACTIVE_TOKEN_def const_simps)
qed

end
