(* ===== verification/PacketCrypt.thy ===== *)
theory PacketCrypt
  imports NovinConsts
begin

text \<open>
  The packet cipher of \<^verbatim>\<open>token-DLL/lib/novintools.c\<close>: \<open>_encrypt_packet\<close> masks a request in place
  with the token's serial, \<open>_decrypt_packet\<close> unmasks a response. Both take a pointer behind the
  report id, so \<open>buff\<close> is the rest of the caller's array from there on.

  Proved: which serial byte each round uses and that it is inside the serial, exactly when the two
  routines stay inside their buffers, a closed form of every output byte, that the request mask is
  injective, and how the response unmasking relates to the request mask (it inverts its twelve
  chained rounds on the bytes both touch, and not the first two bytes).
\<close>

section \<open>The routines\<close>

definition SecretIndex :: "nat list" where
  "SecretIndex =
    [1, 3, 1, 6, 2, 3, 4, 4, 5, 6, 7, 8, 9, 8, 7, 7, 6, 5, 4, 3, 2, 1, 0, 1, 2, 3, 4, 5, 6, 7, 8, 9,
     7, 9, 1, 11, 2, 3, 4, 11, 5, 6, 7, 8, 9, 0, 1, 11, 2, 3, 4, 5, 6, 7, 8, 9, 0, 1, 2, 3, 4, 5, 6,
     14]"

definition ReportLength :: "nat list" where
  "ReportLength = [0, 3, 18, 27, 39]"

abbreviation SI :: "nat \<Rightarrow> int" where
  "SI k \<equiv> int (SecretIndex ! k)"

text \<open>The \<open>switch (i)\<close> of the encryption loop: the serial index \<open>j\<close> of round \<open>i\<close>.\<close>

definition enc_index :: "nat \<Rightarrow> int" where
  "enc_index i =
    (if i = 0 then (SI 0 - 1) * 2 + 1 - 1
     else if i = 1 then (SI 1 - 2) * 2 + 1 - 2
     else if i = 2 then (SI 3 - 3) * 2 + 1 - 4
     else if i = 3 then (SI 7 - 4) * 2 + 1 - 1
     else if i = 4 then (SI 15 - 5) * 2 + 1 - 3
     else if i = 5 then (SI 31 - 6) * 2 + 1 - 4
     else if i = 6 then (SI 32 - 7) * 2 + 1 - 1
     else if i = 7 then (SI 33 - 8) * 2 + 1 - 2
     else if i = 8 then (SI 35 - 9) * 2 + 1 - 3
     else if i = 9 then (SI 39 - 10) * 2 + 1 - 2
     else if i = 10 then (SI 47 - 11) * 2 + 1 - 1
     else (SI 63 - 12) * 2 + 1 - 3)"

text \<open>The shorter \<open>switch\<close> of the decryption loop.\<close>

definition dec_index :: "nat \<Rightarrow> int" where
  "dec_index i =
    (if i = 0 then (SI 0 - 1) * 2 + 1 - 1
     else if i = 1 then (SI 1 - 2) * 2 + 1 - 2
     else if i = 2 then (SI 3 - 3) * 2 + 1 - 4
     else if i = 3 then (SI 7 - 4) * 2 + 1 - 1
     else (SI 15 - 5) * 2 + 1 - 3)"

definition serial_at :: "byte list \<Rightarrow> int \<Rightarrow> byte option" where
  "serial_at ser j = (if 0 \<le> j then rd ser (nat j) else None)"

text \<open>One pass of the loop body: \<open>b[d] = b[d] ^ b[s]\<close> and \<open>b[d] = b[d] ^ v\<close>.\<close>

definition xor_from :: "nat \<Rightarrow> nat \<Rightarrow> byte list \<Rightarrow> byte list option" where
  "xor_from d s b = do { x \<leftarrow> rd b d; y \<leftarrow> rd b s; wr b d (x XOR y) }"

definition xor_with :: "nat \<Rightarrow> byte \<Rightarrow> byte list \<Rightarrow> byte list option" where
  "xor_with d v b = do { x \<leftarrow> rd b d; wr b d (x XOR v) }"

fun encrypt_rounds :: "nat list \<Rightarrow> byte list \<Rightarrow> byte list \<Rightarrow> byte list option" where
  "encrypt_rounds [] buff ser = Some buff"
| "encrypt_rounds (i # is) buff ser = do {
     x \<leftarrow> serial_at ser (enc_index i);
     let tmp = x XOR 0xFF;
     b1 \<leftarrow> xor_from ((i + 1) * 3 + 0 - 1) ((i + 1) * 3 + 1 - 1) buff;
     b2 \<leftarrow> xor_from ((i + 1) * 3 + 1 - 1) ((i + 1) * 3 + 2 - 1) b1;
     b3 \<leftarrow> xor_with ((i + 1) * 3 + 2 - 1) tmp b2;
     encrypt_rounds is b3 ser
   }"

definition encrypt_packet :: "byte list \<Rightarrow> byte list \<Rightarrow> byte list option" where
  "encrypt_packet buff ser = do {
     s2 \<leftarrow> rd ser 2; s3 \<leftarrow> rd ser 3;
     let tmp = s2 XOR s3;
     b0 \<leftarrow> xor_with 0 (tmp XOR 0xFF) buff;
     s0 \<leftarrow> rd ser 0; s1 \<leftarrow> rd ser 1;
     let tmp = s0 XOR s1;
     b1 \<leftarrow> xor_with 1 tmp b0;
     encrypt_rounds [0..<12] b1 ser
   }"

fun decrypt_rounds :: "nat list \<Rightarrow> byte list \<Rightarrow> byte list \<Rightarrow> byte list option" where
  "decrypt_rounds [] buff ser = Some buff"
| "decrypt_rounds (i # is) buff ser = do {
     x \<leftarrow> serial_at ser (dec_index i);
     let tmp = x XOR 0xFF;
     b1 \<leftarrow> xor_with ((i + 1) * 3 + 2 - 1) tmp buff;
     b2 \<leftarrow> xor_from ((i + 1) * 3 + 1 - 1) ((i + 1) * 3 + 2 - 1) b1;
     b3 \<leftarrow> xor_from ((i + 1) * 3 + 0 - 1) ((i + 1) * 3 + 1 - 1) b2;
     decrypt_rounds is b3 ser
   }"

definition decrypt_packet :: "byte list \<Rightarrow> byte list \<Rightarrow> byte list option" where
  "decrypt_packet buff ser = do {
     s0 \<leftarrow> rd ser 0; s2 \<leftarrow> rd ser 2;
     let tmp = s0 XOR s2;
     b0 \<leftarrow> xor_with 0 (tmp XOR 0xFF) buff;
     s1 \<leftarrow> rd ser 1; s3 \<leftarrow> rd ser 3;
     let tmp = s1 XOR s3;
     b1 \<leftarrow> xor_with 1 (tmp XOR 0xFF) b0;
     decrypt_rounds [0..<5] b1 ser
   }"

section \<open>The serial byte of each round\<close>

definition mask_index :: "nat \<Rightarrow> nat" where
  "mask_index i = [0, 1, 3, 0, 2, 3, 0, 1, 2, 1, 0, 2] ! i"

lemma less_12_cases:
  assumes "(i::nat) < 12"
  shows "i = 0 \<or> i = 1 \<or> i = 2 \<or> i = 3 \<or> i = 4 \<or> i = 5 \<or> i = 6 \<or> i = 7 \<or> i = 8 \<or> i = 9
    \<or> i = 10 \<or> i = 11"
  using assms by presburger

lemma enc_index_mask: "i < 12 \<Longrightarrow> enc_index i = int (mask_index i)"
  using less_12_cases [of i] by (auto simp: enc_index_def mask_index_def SecretIndex_def)

lemma dec_index_mask: "i < 5 \<Longrightarrow> dec_index i = int (mask_index i)"
  using less_12_cases [of i] by (auto simp: dec_index_def mask_index_def SecretIndex_def)

lemma mask_index_less: "i < 12 \<Longrightarrow> mask_index i < 4"
  using less_12_cases [of i] by (auto simp: mask_index_def)

lemma serial_at_enc:
  "i < 12 \<Longrightarrow> 4 \<le> length ser \<Longrightarrow> serial_at ser (enc_index i) = Some (ser ! mask_index i)"
  using mask_index_less [of i] by (simp add: serial_at_def enc_index_mask buf_simps)

lemma serial_at_dec:
  "i < 5 \<Longrightarrow> 4 \<le> length ser \<Longrightarrow> serial_at ser (dec_index i) = Some (ser ! mask_index i)"
  using mask_index_less [of i] by (simp add: serial_at_def dec_index_mask buf_simps)

section \<open>Closed forms\<close>

text \<open>
  \<open>round_mask ser i\<close> is the byte XORed into the last byte of round \<open>i\<close>'s triple. The triples
  \<open>3i+2, 3i+3, 3i+4\<close> of different rounds do not overlap, so each output byte has a closed form.
\<close>

definition round_mask :: "byte list \<Rightarrow> nat \<Rightarrow> byte" where
  "round_mask ser i = ser ! mask_index i XOR 0xFF"

definition enc_triple :: "nat \<Rightarrow> byte \<Rightarrow> byte list \<Rightarrow> byte list" where
  "enc_triple i t b = b[3*i+2 := b ! (3*i+2) XOR b ! (3*i+3),
                        3*i+3 := b ! (3*i+3) XOR b ! (3*i+4),
                        3*i+4 := b ! (3*i+4) XOR t]"

definition dec_triple :: "nat \<Rightarrow> byte \<Rightarrow> byte list \<Rightarrow> byte list" where
  "dec_triple i t b = b[3*i+4 := b ! (3*i+4) XOR t,
                        3*i+3 := b ! (3*i+3) XOR (b ! (3*i+4) XOR t),
                        3*i+2 := b ! (3*i+2) XOR (b ! (3*i+3) XOR (b ! (3*i+4) XOR t))]"

lemma triple_length [simp]:
  "length (enc_triple i t b) = length b" "length (dec_triple i t b) = length b"
  by (simp_all add: enc_triple_def dec_triple_def)

lemma triple_index:
  "(i + 1) * 3 + 0 - 1 = 3 * i + 2" "(i + 1) * 3 + 1 - 1 = 3 * i + 3"
  "(i + 1) * 3 + 2 - 1 = 3 * i + (4::nat)"
  by simp_all

lemma encrypt_round_eq:
  assumes "i < 12" "4 \<le> length ser" "3 * i + 4 < length buff"
  shows "encrypt_rounds (i # is) buff ser =
    encrypt_rounds is (enc_triple i (round_mask ser i) buff) ser"
  using assms
  by (simp only: encrypt_rounds.simps triple_index)
    (simp add: serial_at_enc xor_from_def xor_with_def buf_simps enc_triple_def round_mask_def
      Let_def del: encrypt_rounds.simps)

lemma decrypt_round_eq:
  assumes "i < 5" "4 \<le> length ser" "3 * i + 4 < length buff"
  shows "decrypt_rounds (i # is) buff ser =
    decrypt_rounds is (dec_triple i (round_mask ser i) buff) ser"
  using assms
  by (simp only: decrypt_rounds.simps triple_index)
    (simp add: serial_at_dec xor_from_def xor_with_def buf_simps dec_triple_def round_mask_def
      Let_def del: decrypt_rounds.simps)


definition enc_rounds :: "byte list \<Rightarrow> nat \<Rightarrow> byte list \<Rightarrow> byte list" where
  "enc_rounds ser n b = fold (\<lambda>i. enc_triple i (round_mask ser i)) [0..<n] b"

definition dec_rounds :: "byte list \<Rightarrow> nat \<Rightarrow> byte list \<Rightarrow> byte list" where
  "dec_rounds ser n b = fold (\<lambda>i. dec_triple i (round_mask ser i)) [0..<n] b"

lemma rounds_length [simp]:
  "length (enc_rounds ser n b) = length b" "length (dec_rounds ser n b) = length b"
  by (induction n) (simp_all add: enc_rounds_def dec_rounds_def)

lemma rounds_Suc:
  "enc_rounds ser (Suc n) b = enc_triple n (round_mask ser n) (enc_rounds ser n b)"
  "dec_rounds ser (Suc n) b = dec_triple n (round_mask ser n) (dec_rounds ser n b)"
  by (simp_all add: enc_rounds_def dec_rounds_def)

lemma rounds_0 [simp]: "enc_rounds ser 0 b = b" "dec_rounds ser 0 b = b"
  by (simp_all add: enc_rounds_def dec_rounds_def)

lemma encrypt_rounds_fold:
  assumes "set is \<subseteq> {..<12}" "4 \<le> length ser" "38 \<le> length b"
  shows "encrypt_rounds is b ser = Some (fold (\<lambda>i. enc_triple i (round_mask ser i)) is b)"
  using assms
proof (induction "is" arbitrary: b)
  case (Cons i "is")
  then have "i < 12" by simp
  moreover from this have "3 * i + 4 < length b" using Cons.prems(3) by linarith
  ultimately have "encrypt_rounds (i # is) b ser =
      encrypt_rounds is (enc_triple i (round_mask ser i) b) ser"
    using Cons.prems(2) by (simp only: encrypt_round_eq)
  then show ?case using Cons by simp
qed simp

lemma decrypt_rounds_fold:
  assumes "set is \<subseteq> {..<5}" "4 \<le> length ser" "17 \<le> length b"
  shows "decrypt_rounds is b ser = Some (fold (\<lambda>i. dec_triple i (round_mask ser i)) is b)"
  using assms
proof (induction "is" arbitrary: b)
  case (Cons i "is")
  then have "i < 5" by simp
  moreover from this have "3 * i + 4 < length b" using Cons.prems(3) by linarith
  ultimately have "decrypt_rounds (i # is) b ser =
      decrypt_rounds is (dec_triple i (round_mask ser i) b) ser"
    using Cons.prems(2) by (simp only: decrypt_round_eq)
  then show ?case using Cons by simp
qed simp

lemma rounds_untouched:
  "k < 2 \<or> 3 * n + 2 \<le> k \<Longrightarrow> enc_rounds ser n b ! k = b ! k"
  "k < 2 \<or> 3 * n + 2 \<le> k \<Longrightarrow> dec_rounds ser n b ! k = b ! k"
  by (induction n) (auto simp: rounds_Suc enc_triple_def dec_triple_def)

lemma enc_rounds_nth:
  assumes "i < n" "3 * n + 1 < length b"
  shows "enc_rounds ser n b ! (3*i+2) = b ! (3*i+2) XOR b ! (3*i+3)"
    and "enc_rounds ser n b ! (3*i+3) = b ! (3*i+3) XOR b ! (3*i+4)"
    and "enc_rounds ser n b ! (3*i+4) = b ! (3*i+4) XOR round_mask ser i"
  using assms
proof (induction n)
  case (Suc n)
  {
    case 1 then show ?case
      using Suc.IH(1) rounds_untouched(1) [where n = n and b = b and ser = ser]
      by (cases "i = n") (auto simp: rounds_Suc enc_triple_def nth_list_update)
  next
    case 2 then show ?case
      using Suc.IH(2) rounds_untouched(1) [where n = n and b = b and ser = ser]
      by (cases "i = n") (auto simp: rounds_Suc enc_triple_def nth_list_update)
  next
    case 3 then show ?case
      using Suc.IH(3) rounds_untouched(1) [where n = n and b = b and ser = ser]
      by (cases "i = n") (auto simp: rounds_Suc enc_triple_def nth_list_update)
  }
qed simp_all

lemma dec_rounds_nth:
  assumes "i < n" "3 * n + 1 < length b"
  shows "dec_rounds ser n b ! (3*i+4) = b ! (3*i+4) XOR round_mask ser i"
    and "dec_rounds ser n b ! (3*i+3) = b ! (3*i+3) XOR (b ! (3*i+4) XOR round_mask ser i)"
    and "dec_rounds ser n b ! (3*i+2) =
      b ! (3*i+2) XOR (b ! (3*i+3) XOR (b ! (3*i+4) XOR round_mask ser i))"
  using assms
proof (induction n)
  case (Suc n)
  {
    case 1 then show ?case
      using Suc.IH(1) rounds_untouched(2) [where n = n and b = b and ser = ser]
      by (cases "i = n") (auto simp: rounds_Suc dec_triple_def nth_list_update)
  next
    case 2 then show ?case
      using Suc.IH(2) rounds_untouched(2) [where n = n and b = b and ser = ser]
      by (cases "i = n") (auto simp: rounds_Suc dec_triple_def nth_list_update)
  next
    case 3 then show ?case
      using Suc.IH(3) rounds_untouched(2) [where n = n and b = b and ser = ser]
      by (cases "i = n") (auto simp: rounds_Suc dec_triple_def nth_list_update)
  }
qed simp_all


section \<open>The whole routines\<close>

definition enc_head :: "byte list \<Rightarrow> byte list \<Rightarrow> byte list" where
  "enc_head ser b = b[0 := b ! 0 XOR ((ser ! 2 XOR ser ! 3) XOR 0xFF),
    1 := b ! 1 XOR (ser ! 0 XOR ser ! 1)]"

definition dec_head :: "byte list \<Rightarrow> byte list \<Rightarrow> byte list" where
  "dec_head ser b =
    b[0 := b ! 0 XOR ((ser ! 0 XOR ser ! 2) XOR 0xFF),
      1 := b ! 1 XOR ((ser ! 1 XOR ser ! 3) XOR 0xFF)]"

lemma head_length [simp]: "length (enc_head ser b) = length b" "length (dec_head ser b) = length b"
  by (simp_all add: enc_head_def dec_head_def)

lemma xor_from_length: "xor_from d s b = Some c \<Longrightarrow> length c = length b \<and> d < length b"
  by (auto simp: xor_from_def bind_Some_iff buf_iffs)

lemma xor_with_length: "xor_with d v b = Some c \<Longrightarrow> length c = length b \<and> d < length b"
  by (auto simp: xor_with_def bind_Some_iff buf_iffs)

lemma encrypt_rounds_needs:
  "encrypt_rounds is b ser = Some c \<Longrightarrow> i \<in> set is \<Longrightarrow> 3 * i + 4 < length b"
proof (induction "is" arbitrary: b)
  case (Cons k "is")
  from Cons.prems(1) obtain b1 b2 b3 where
    "xor_from (3*k+2) (3*k+3) b = Some b1" "xor_from (3*k+3) (3*k+4) b1 = Some b2"
    "xor_with (3*k+4) (the (serial_at ser (enc_index k)) XOR 0xFF) b2 = Some b3"
    "encrypt_rounds is b3 ser = Some c"
    by (simp only: encrypt_rounds.simps triple_index) (auto simp: bind_Some_iff Let_def)
  with Cons.IH [of b3] Cons.prems(2) show ?case
    by (auto dest!: xor_from_length xor_with_length)
qed simp

lemma decrypt_rounds_needs:
  "decrypt_rounds is b ser = Some c \<Longrightarrow> i \<in> set is \<Longrightarrow> 3 * i + 4 < length b"
proof (induction "is" arbitrary: b)
  case (Cons k "is")
  from Cons.prems(1) obtain b1 b2 b3 where
    "xor_with (3*k+4) (the (serial_at ser (dec_index k)) XOR 0xFF) b = Some b1"
    "xor_from (3*k+3) (3*k+4) b1 = Some b2" "xor_from (3*k+2) (3*k+3) b2 = Some b3"
    "decrypt_rounds is b3 ser = Some c"
    by (simp only: decrypt_rounds.simps triple_index) (auto simp: bind_Some_iff Let_def)
  with Cons.IH [of b3] Cons.prems(2) show ?case
    by (auto dest!: xor_from_length xor_with_length)
qed simp

lemma upt_bounds: "set [0..<12] \<subseteq> {..<12}" "set [0..<5] \<subseteq> {..<5}"
  by auto

lemma nonempty_of_length: "numeral k \<le> length xs \<Longrightarrow> xs \<noteq> []"
  by auto

lemma encrypt_packet_eq:
  assumes "38 \<le> length b" "4 \<le> length ser"
  shows "encrypt_packet b ser = Some (enc_rounds ser 12 (enc_head ser b))"
  using assms encrypt_rounds_fold [OF upt_bounds(1) assms(2), of "enc_head ser b"]
    nonempty_of_length [OF assms(1)] nonempty_of_length [OF assms(2)]
  by (simp add: encrypt_packet_def xor_with_def buf_simps enc_head_def enc_rounds_def Let_def)

lemma decrypt_packet_eq:
  assumes "17 \<le> length b" "4 \<le> length ser"
  shows "decrypt_packet b ser = Some (dec_rounds ser 5 (dec_head ser b))"
  using assms decrypt_rounds_fold [OF upt_bounds(2) assms(2), of "dec_head ser b"]
    nonempty_of_length [OF assms(1)] nonempty_of_length [OF assms(2)]
  by (simp add: decrypt_packet_def xor_with_def buf_simps dec_head_def dec_rounds_def Let_def)

lemma encrypt_packet_needs: "encrypt_packet b ser = Some c \<Longrightarrow> 38 \<le> length b \<and> 4 \<le> length ser"
  using encrypt_rounds_needs [where i = 11]
  by (fastforce simp: encrypt_packet_def bind_Some_iff buf_iffs Let_def dest!: xor_with_length)

lemma decrypt_packet_needs: "decrypt_packet b ser = Some c \<Longrightarrow> 17 \<le> length b \<and> 4 \<le> length ser"
  using decrypt_rounds_needs [where i = 4]
  by (fastforce simp: decrypt_packet_def bind_Some_iff buf_iffs Let_def dest!: xor_with_length)

lemma packet_lengths:
  "encrypt_packet b ser = Some c \<Longrightarrow> length c = length b"
  "decrypt_packet b ser = Some c \<Longrightarrow> length c = length b"
  by (frule encrypt_packet_needs, elim conjE,
      metis encrypt_packet_eq head_length(1) option.inject rounds_length(1))
    (frule decrypt_packet_needs, elim conjE,
      metis decrypt_packet_eq head_length(2) option.inject rounds_length(2))

lemma packet_frames:
  "encrypt_packet b ser = Some c \<Longrightarrow> drop 38 c = drop 38 b"
  "decrypt_packet b ser = Some c \<Longrightarrow> drop 17 c = drop 17 b"
proof -
  assume e: "encrypt_packet b ser = Some c"
  then have "c = enc_rounds ser 12 (enc_head ser b)"
    using encrypt_packet_needs [OF e] by (simp add: encrypt_packet_eq)
  then show "drop 38 c = drop 38 b"
    by (auto intro!: nth_equalityI simp: rounds_untouched enc_head_def)
next
  assume d: "decrypt_packet b ser = Some c"
  then have "c = dec_rounds ser 5 (dec_head ser b)"
    using decrypt_packet_needs [OF d] by (simp add: decrypt_packet_eq)
  then show "drop 17 c = drop 17 b"
    by (auto intro!: nth_equalityI simp: rounds_untouched dec_head_def)
qed

text \<open>
  C38. \<open>_encrypt_packet\<close> stays inside its arrays exactly when the caller passes at least 38 bytes
  behind the report id and a serial of at least 4 bytes; \<open>_decrypt_packet\<close> needs 17 bytes. The
  bounds do not depend on the report length that is put on the wire.
\<close>

theorem packet_cipher_bounds:
  "(encrypt_packet b ser \<noteq> None \<longleftrightarrow> 38 \<le> length b \<and> 4 \<le> length ser) \<and>
   (decrypt_packet b ser \<noteq> None \<longleftrightarrow> 17 \<le> length b \<and> 4 \<le> length ser)"
  by (auto simp: encrypt_packet_eq decrypt_packet_eq
      dest: encrypt_packet_needs decrypt_packet_needs)

section \<open>The other side of the wire\<close>

text \<open>
  What the token has to compute: \<open>unmask_request\<close> takes the request mask off, \<open>mask_response\<close>
  puts on the mask that \<open>_decrypt_packet\<close> expects. They are specifications: closed forms, not
  the loops of the C code.
\<close>

definition unmask_request :: "byte list \<Rightarrow> byte list \<Rightarrow> byte list" where
  "unmask_request b ser = enc_head ser (dec_rounds ser 12 b)"

definition mask_response :: "byte list \<Rightarrow> byte list \<Rightarrow> byte list" where
  "mask_response b ser = dec_head ser (enc_rounds ser 5 b)"

text \<open>Every index is one of the two head bytes, in some triple, or behind the last triple.\<close>

lemma triple_cases:
  fixes k n :: nat
  obtains "k < 2 \<or> 3 * n + 2 \<le> k"
  | i where "i < n" "k = 3 * i + 2" | i where "i < n" "k = 3 * i + 3" | i where "i < n" "k = 3 * i + 4"
proof -
  define i where "i = (k - 2) div 3"
  show thesis
  proof (cases "k < 2 \<or> 3 * n + 2 \<le> k")
    case False
    then have "i < n" and "k = 3 * i + 2 \<or> k = 3 * i + 3 \<or> k = 3 * i + 4"
      unfolding i_def by presburger+
    then show thesis using that by blast
  qed (rule that(1))
qed

lemmas rounds_nth =
  enc_rounds_nth dec_rounds_nth enc_rounds_nth(1) [simplified] dec_rounds_nth(3) [simplified]

lemma rounds_inverse:
  assumes "3 * n + 1 < length b"
  shows "dec_rounds ser n (enc_rounds ser n b) = b" "enc_rounds ser n (dec_rounds ser n b) = b"
proof -
  have "dec_rounds ser n (enc_rounds ser n b) ! k = b ! k \<and>
        enc_rounds ser n (dec_rounds ser n b) ! k = b ! k" for k
    using assms
    by (cases rule: triple_cases [where k = k and n = n])
      (simp_all add: rounds_untouched rounds_nth xor.assoc)
  then show "dec_rounds ser n (enc_rounds ser n b) = b" "enc_rounds ser n (dec_rounds ser n b) = b"
    by (auto intro!: nth_equalityI)
qed

lemma head_nth:
  "k < length b \<Longrightarrow> enc_head ser b ! k =
    (if k = 0 then b ! k XOR ((ser ! 2 XOR ser ! 3) XOR 0xFF)
     else if k = 1 then b ! k XOR (ser ! 0 XOR ser ! 1) else b ! k)"
  "k < length b \<Longrightarrow> dec_head ser b ! k =
    (if k = 0 then b ! k XOR ((ser ! 0 XOR ser ! 2) XOR 0xFF)
     else if k = 1 then b ! k XOR ((ser ! 1 XOR ser ! 3) XOR 0xFF) else b ! k)"
  by (auto simp: enc_head_def dec_head_def upd_nth)

lemma head_inverse [simp]: "enc_head ser (enc_head ser b) = b" "dec_head ser (dec_head ser b) = b"
proof -
  have "enc_head ser (enc_head ser b) ! k = b ! k \<and> dec_head ser (dec_head ser b) ! k = b ! k"
    if "k < length b" for k
    using that by (cases "k = 0"; cases "k = 1") (auto simp: head_nth)
  then show "enc_head ser (enc_head ser b) = b" "dec_head ser (dec_head ser b) = b"
    by (auto intro!: nth_equalityI)
qed

lemma head_nth_ge2 [simp]:
  "2 \<le> k \<Longrightarrow> enc_head ser b ! k = b ! k" "2 \<le> k \<Longrightarrow> dec_head ser b ! k = b ! k"
  by (simp_all add: enc_head_def dec_head_def)

text \<open>
  C18. A token that knows its serial recovers every request, so two different packets never look
  alike on the wire; the host in turn recovers every response of such a token.
\<close>

theorem packet_cipher_roundtrip:
  assumes "38 \<le> length req" "17 \<le> length resp" "4 \<le> length ser"
  shows "map_option (\<lambda>c. unmask_request c ser) (encrypt_packet req ser) = Some req \<and>
         decrypt_packet (mask_response resp ser) ser = Some resp"
  using assms
  by (simp add: encrypt_packet_eq decrypt_packet_eq unmask_request_def mask_response_def
      rounds_inverse)

theorem packet_cipher_roundtrip_witness:
  "map_option (\<lambda>c. unmask_request c [91, 0, 2, 110]) (encrypt_packet (replicate 38 7) [91, 0, 2, 110])
     = Some (replicate 38 7) \<and>
   decrypt_packet (mask_response (replicate 17 5) [91, 0, 2, 110]) [91, 0, 2, 110]
     = Some (replicate 17 5)"
  by (rule packet_cipher_roundtrip) simp_all

text \<open>
  The two routines are not inverse to each other: decrypting an encrypted packet gives back
  the bytes 2 to 16, and changes the first two (where \<open>_send_packet\<close> finds the status of a response)
  by \<open>serial[0] ^ serial[3]\<close>, the second also by \<open>0xFF\<close>.
\<close>

theorem decrypt_after_encrypt:
  assumes "38 \<le> length b" "4 \<le> length ser" "encrypt_packet b ser = Some c" "decrypt_packet c ser = Some d"
  shows "d ! 0 = b ! 0 XOR (ser ! 0 XOR ser ! 3) \<and>
         d ! 1 = b ! 1 XOR (ser ! 0 XOR ser ! 3) XOR 0xFF \<and>
         take 15 (drop 2 d) = take 15 (drop 2 b)"
proof -
  let ?e = "enc_rounds ser 12 (enc_head ser b)"
  have c: "c = ?e" and d: "d = dec_rounds ser 5 (dec_head ser ?e)"
    using assms(1-3) assms(4) [symmetric] packet_lengths(1) [OF assms(3)]
    by (auto simp: encrypt_packet_eq decrypt_packet_eq)
  have len: "3 * 12 + 1 < length b" "3 * 5 + 1 < length b" using assms(1) by simp_all
  have mid: "d ! k = b ! k" if "2 \<le> k" "k < 17" for k
  proof (cases rule: triple_cases [where k = k and n = 5])
    case 1 with that show ?thesis by simp
  next
    case (2 i) then show ?thesis
      using len by (simp add: d rounds_nth xor.assoc)
  next
    case (3 i) then show ?thesis
      using len by (simp add: d rounds_nth xor.assoc)
  next
    case (4 i) then show ?thesis
      using len by (simp add: d rounds_nth xor.assoc)
  qed
  have "length d = length b" by (simp add: d)
  then have "take 15 (drop 2 d) = take 15 (drop 2 b)"
    using assms(1) mid by (auto intro!: nth_equalityI)
  moreover have "d ! 0 = b ! 0 XOR (ser ! 0 XOR ser ! 3)" "d ! 1 = b ! 1 XOR (ser ! 0 XOR ser ! 3) XOR 0xFF"
    using assms(1) nonempty_of_length [OF assms(1)]
    by (simp_all add: d rounds_untouched head_nth ac_simps)
  ultimately show ?thesis by simp
qed

theorem decrypt_after_encrypt_witness:
  "\<exists>c d. encrypt_packet (replicate 38 7) [91, 0, 2, 110] = Some c \<and>
     decrypt_packet c [91, 0, 2, 110] = Some d \<and> d ! 0 = 50 \<and> d ! 1 = 205 \<and>
     take 15 (drop 2 d) = replicate 15 7"
proof -
  let ?b = "replicate 38 (7::byte)" and ?s = "[91, 0, 2, 110 :: byte]"
  obtain c where c: "encrypt_packet ?b ?s = Some c" by (simp add: encrypt_packet_eq)
  then have "length c = 38" using packet_lengths(1) by fastforce
  then obtain d where d: "decrypt_packet c ?s = Some d" by (simp add: decrypt_packet_eq)
  show ?thesis
    using decrypt_after_encrypt [OF _ _ c d] c d by simp
qed

section \<open>Prefixes\<close>

text \<open>
  Only the first bytes of a packet go on the wire. All report lengths are multiples of three, so
  behind the report id the wire carries the two head bytes and a whole number of triples, and the
  rounds act on it as they do on the whole array.
\<close>

lemma take_triple:
  assumes "m = 3 * n + 2"
  shows "take m (enc_triple i t b) = (if i < n then enc_triple i t (take m b) else take m b)"
    and "take m (dec_triple i t b) = (if i < n then dec_triple i t (take m b) else take m b)"
  using assms by (auto simp: enc_triple_def dec_triple_def take_update_swap list_update_beyond)

lemma take_rounds:
  assumes "m = 3 * n + 2"
  shows "take m (enc_rounds ser k b) = enc_rounds ser (min k n) (take m b)"
    and "take m (dec_rounds ser k b) = dec_rounds ser (min k n) (take m b)"
proof (induction k)
  case (Suc k)
  {
    case 1 then show ?case
      using Suc.IH(1) by (auto simp: rounds_Suc take_triple [OF assms] min_def le_Suc_eq not_less_eq_eq)
  next
    case 2 then show ?case
      using Suc.IH(2) by (auto simp: rounds_Suc take_triple [OF assms] min_def le_Suc_eq not_less_eq_eq)
  }
qed simp_all

lemma take_head:
  "2 \<le> m \<Longrightarrow> take m (enc_head ser b) = enc_head ser (take m b)"
  "2 \<le> m \<Longrightarrow> take m (dec_head ser b) = dec_head ser (take m b)"
  by (simp_all add: enc_head_def dec_head_def take_update_swap)

text \<open>\<open>unmask_wire\<close> is the token's view of a request: it sees only the bytes on the wire.\<close>

definition unmask_wire :: "byte list \<Rightarrow> byte list \<Rightarrow> byte list" where
  "unmask_wire w ser = enc_head ser (dec_rounds ser ((length w - 2) div 3) w)"

lemma unmask_wire_encrypt:
  assumes "encrypt_packet b ser = Some c" "n \<le> 12" "m = 3 * n + 2"
  shows "unmask_wire (take m c) ser = take m b"
proof -
  have len: "38 \<le> length b" "4 \<le> length ser" using encrypt_packet_needs [OF assms(1)] by simp_all
  have c: "c = enc_rounds ser 12 (enc_head ser b)"
    using assms(1) len by (simp add: encrypt_packet_eq)
  have "take m c = enc_rounds ser n (enc_head ser (take m b))"
    unfolding c take_rounds [OF assms(3)] using assms(2,3) by (subst take_head) simp_all
  moreover have "length (take m b) = m" using len assms(2,3) by simp
  ultimately show ?thesis using assms(3) by (simp add: unmask_wire_def rounds_inverse)
qed

lemma decrypt_packet_masked:
  assumes "take 17 b = mask_response r ser" "length r = 17" "4 \<le> length ser" "17 \<le> length b"
  shows "\<exists>c. decrypt_packet b ser = Some c \<and> take 17 c = r \<and> length c = length b"
proof -
  have "take 17 (dec_rounds ser 5 (dec_head ser b)) = dec_rounds ser 5 (dec_head ser (take 17 b))"
    by (simp add: take_rounds [where n = 5] take_head)
  then show ?thesis
    using assms by (simp add: decrypt_packet_eq mask_response_def rounds_inverse)
qed

text \<open>
  The bytes of a packet that reach the wire are enough for the token: from the first
  \<open>ReportLength - 1\<close> bytes behind the report id it recovers exactly those bytes of the request,
  for each of the report ids the library sends.
\<close>

theorem wire_request_recovered:
  assumes "38 \<le> length b" "4 \<le> length ser" "rid \<in> {1, 3, 4}"
  shows "\<exists>c n. encrypt_packet b ser = Some c \<and> rd ReportLength rid = Some (Suc n) \<and>
    unmask_wire (take n c) ser = take n b"
proof -
  obtain c where c: "encrypt_packet b ser = Some c" using assms by (simp add: encrypt_packet_eq)
  have "unmask_wire (take 2 c) ser = take 2 b" "unmask_wire (take 26 c) ser = take 26 b"
    "unmask_wire (take 38 c) ser = take 38 b"
    using unmask_wire_encrypt [OF c, of 0 2] unmask_wire_encrypt [OF c, of 8 26]
      unmask_wire_encrypt [OF c, of 12 38] by auto
  then show ?thesis using c assms(3) by (auto simp: ReportLength_def rd_def)
qed

theorem wire_request_recovered_witness:
  "\<exists>c n. encrypt_packet (map of_nat [0..<38]) [91, 0, 2, 110] = Some c \<and>
    rd ReportLength 3 = Some (Suc n) \<and>
    unmask_wire (take n c) [91, 0, 2, 110] = take n (map of_nat [0..<38])"
  by (rule wire_request_recovered) simp_all

end
