(* ===== verification/SerialConv.thy ===== *)
theory SerialConv
  imports NovinConsts
begin

text \<open>
  \<open>_cnv_hex_to_decimal_serial\<close> of \<^verbatim>\<open>token-DLL/lib/novintools.c\<close>: it turns the serial string of a
  device, a wide string of hexadecimal digits, into the four bytes the library works with.

  The conversion of one wide character to the multibyte encoding of the locale is a parameter
  \<open>cv\<close> (\<open>None\<close> for a character the encoding lacks), and so are the bytes \<open>ser\<close> the uninitialised
  local array happens to hold.
\<close>

section \<open>The routine\<close>

text \<open>
  \<open>wcstombs (dst, src, n)\<close>: the bytes it stores. It stops in front of a character that has no
  encoding or whose encoding does not fit into the \<open>n\<close> bytes, and stores the terminating zero
  when there is room for it.
\<close>

fun wcstombs :: "(wchar \<Rightarrow> byte list option) \<Rightarrow> wchar list \<Rightarrow> nat \<Rightarrow> byte list" where
  "wcstombs cv [] n = (if 0 < n then [0] else [])"
| "wcstombs cv (c # cs) n =
     (case cv c of
        None \<Rightarrow> []
      | Some bs \<Rightarrow> if length bs \<le> n then bs @ wcstombs cv cs (n - length bs) else [])"

text \<open>The three hexadecimal branches of the loop body; \<open>None\<close> is the branch that breaks out.\<close>

definition hex_digit :: "byte \<Rightarrow> byte option" where
  "hex_digit c =
    (if 48 \<le> c \<and> c \<le> 57 then Some (c - 48)
     else if 65 \<le> c \<and> c \<le> 70 then Some (c - 65 + 10)
     else if 97 \<le> c \<and> c \<le> 102 then Some (c - 97 + 10)
     else None)"

fun hex_loop :: "nat list \<Rightarrow> byte list \<Rightarrow> byte list option" where
  "hex_loop [] ser = Some ser"
| "hex_loop (i # is) ser = do {
     c \<leftarrow> rd ser i;
     (case hex_digit c of
        None \<Rightarrow> Some ser
      | Some tmp \<Rightarrow> do { ser' \<leftarrow> wr ser i tmp; hex_loop is ser' })
   }"

text \<open>The loop \<open>dest[i] = 16 * ser[2*i] + ser[2*i+1]\<close>, a sum of ints cut to one byte.\<close>

definition pack_pair :: "byte list \<Rightarrow> nat \<Rightarrow> byte option" where
  "pack_pair ser i = do { a \<leftarrow> rd ser (2*i); b \<leftarrow> rd ser (2*i+1); Some (16 * a + b) }"

definition cnv_hex_to_decimal_serial ::
    "(wchar \<Rightarrow> byte list option) \<Rightarrow> byte list \<Rightarrow> wchar list option \<Rightarrow> byte list option" where
  "cnv_hex_to_decimal_serial cv ser src = do {
     s \<leftarrow> src;
     ser1 \<leftarrow> wr_block ser 0 (wcstombs cv s (length s));
     ser2 \<leftarrow> hex_loop [0..<length s + 1] ser1;
     d0 \<leftarrow> pack_pair ser2 0; d1 \<leftarrow> pack_pair ser2 1;
     d2 \<leftarrow> pack_pair ser2 2; d3 \<leftarrow> pack_pair ser2 3;
     Some [d0, d1, d2, d3]
   }"

section \<open>Hexadecimal strings\<close>

text \<open>
  \<open>ascii_locale cv\<close>: the locale encodes ASCII characters as themselves, as the C locale and every
  ASCII-based one does.
\<close>

definition ascii_locale :: "(wchar \<Rightarrow> byte list option) \<Rightarrow> bool" where
  "ascii_locale cv \<longleftrightarrow> (\<forall>c < 128. cv c = Some [ucast c])"

definition hex_char :: "nat \<Rightarrow> wchar" where
  "hex_char v = (if v < 10 then 48 + of_nat v else 65 + of_nat v - 10)"

definition hex_char_lower :: "nat \<Rightarrow> wchar" where
  "hex_char_lower v = (if v < 10 then 48 + of_nat v else 97 + of_nat v - 10)"

text \<open>The serial string a token reports for its four bytes.\<close>

definition serial_string :: "(nat \<Rightarrow> wchar) \<Rightarrow> byte list \<Rightarrow> wchar list" where
  "serial_string hx bs = concat (map (\<lambda>b. [hx (unat b div 16), hx (unat b mod 16)]) bs)"

definition hex_printer :: "(nat \<Rightarrow> wchar) \<Rightarrow> bool" where
  "hex_printer hx \<longleftrightarrow>
     list_all (\<lambda>v. hx v < 128 \<and> hex_digit (ucast (hx v)) = Some (of_nat v)) [0..<16]"

lemma hex_printers: "hex_printer hex_char" "hex_printer hex_char_lower"
  by code_simp+

lemma wcstombs_ascii:
  assumes "ascii_locale cv" "\<forall>c\<in>set s. c < 128" "length s \<le> n"
  shows "wcstombs cv s n = map ucast s @ (if length s < n then [0] else [])"
  using assms
  by (induction s arbitrary: n) (auto simp: ascii_locale_def)

text \<open>A run of digits is replaced by its values, and the loop goes on behind it.\<close>

lemma hex_loop_digits:
  assumes "\<forall>i\<in>set is. i < length ser \<and> hex_digit (ser ! i) = Some (f i)" "distinct is"
  shows "hex_loop (is @ js) ser = hex_loop js (fold (\<lambda>i s. s[i := f i]) is ser)"
  using assms
proof (induction "is" arbitrary: ser)
  case (Cons i "is")
  have "hex_loop ((i # is) @ js) ser = hex_loop (is @ js) (ser[i := f i])"
    using Cons.prems(1) by (simp add: buf_simps)
  also have "\<dots> = hex_loop js (fold (\<lambda>i s. s[i := f i]) is (ser[i := f i]))"
    using Cons.prems by (intro Cons.IH) (auto simp: nth_list_update)
  finally show ?case by simp
qed simp

lemma fold_update_length [simp]: "length (fold (\<lambda>i s. s[i := f i]) is ser) = length ser"
  by (induction "is" arbitrary: ser) auto

lemma fold_update_nth:
  "k < length ser \<Longrightarrow> fold (\<lambda>i s. s[i := f i]) is ser ! k = (if k \<in> set is then f k else ser ! k)"
  by (induction "is" arbitrary: ser) (auto simp: upd_nth)

text \<open>One more step of the loop never touches what is in front of it.\<close>

lemma hex_loop_frame:
  "hex_loop is ser = Some t \<Longrightarrow> length t = length ser \<and> (\<forall>k. k \<notin> set is \<longrightarrow> t ! k = ser ! k)"
  by (induction "is" arbitrary: ser) (fastforce simp: bind_Some_iff buf_iffs split: option.splits)+


lemma hex_loop_defined:
  "\<forall>i\<in>set is. i < length ser \<Longrightarrow> \<exists>t. hex_loop is ser = Some t"
  by (induction "is" arbitrary: ser) (auto simp: buf_simps split: option.splits)

lemma pack_nibbles: "16 * of_nat (unat b div 16) + of_nat (unat b mod 16) = (b :: byte)"
proof -
  have "16 * of_nat (unat b div 16) + of_nat (unat b mod 16) =
      (of_nat (16 * (unat b div 16) + unat b mod 16) :: byte)"
    by (simp only: of_nat_add of_nat_mult of_nat_numeral)
  also have "\<dots> = b" by (simp add: mult.commute)
  finally show ?thesis .
qed

lemma serial_string_nth:
  assumes "length bs = 4" "i < 8"
  shows "serial_string hx bs ! i =
    hx (if even i then unat (bs ! (i div 2)) div 16 else unat (bs ! (i div 2)) mod 16)"
proof -
  from assms(1) obtain a b c d where "bs = [a, b, c, d]"
    by (auto simp: numeral_eq_Suc length_Suc_conv)
  moreover from assms(2) have "i = 0 \<or> i = 1 \<or> i = 2 \<or> i = 3 \<or> i = 4 \<or> i = 5 \<or> i = 6 \<or> i = 7"
    by presburger
  ultimately show ?thesis by (elim disjE) (simp_all add: serial_string_def)
qed

lemma length_serial_string: "length (serial_string hx bs) = 2 * length bs"
  by (induction bs) (simp_all add: serial_string_def)

lemma hex_printerD:
  "hex_printer hx \<Longrightarrow> v < 16 \<Longrightarrow> hx v < 128"
  "hex_printer hx \<Longrightarrow> v < 16 \<Longrightarrow> hex_digit (ucast (hx v)) = Some (of_nat v)"
  by (simp_all add: hex_printer_def list_all_iff)

lemma serial_string_ascii:
  assumes "hex_printer hx" shows "\<forall>c\<in>set (serial_string hx bs). c < 128"
proof -
  have "unat b div 16 < 16" "unat b mod 16 < 16" for b :: byte
    using unat_byte_less [of b] by (simp_all add: less_mult_imp_div_less)
  then show ?thesis by (auto simp: serial_string_def hex_printerD(1) [OF assms])
qed

lemma cnv_serial_string:
  assumes "ascii_locale cv" "hex_printer hx" "length bs = 4" "16 \<le> length ser"
    and "\<forall>c\<in>set rest. c < 128" "length rest < 8"
  shows "cnv_hex_to_decimal_serial cv ser (Some (serial_string hx bs @ rest)) = Some bs"
proof -
  let ?s = "serial_string hx bs @ rest"
  let ?ser = "map ucast ?s @ drop (length ?s) ser"
  define nib where "nib i = (if even i then unat (bs ! (i div 2)) div 16 else unat (bs ! (i div 2)) mod 16)" for i
  have len8: "length (serial_string hx bs) = 8" and len: "length ?s < 16"
    using assms by (simp_all add: length_serial_string)
  have nib16: "nib i < 16" for i
    using unat_byte_less [of "bs ! (i div 2)"] by (simp add: nib_def less_mult_imp_div_less)
  have "wr_block ser 0 (wcstombs cv ?s (length ?s)) = Some ?ser"
    using len assms serial_string_ascii [OF assms(2), of bs]
    by (subst wcstombs_ascii) (auto simp: wr_block_def)
  moreover
  have digits: "\<forall>i\<in>set [0..<8]. i < length ?ser \<and> hex_digit (?ser ! i) = Some (of_nat (nib i))"
    using len assms(3,4) len8 nib16
    by (auto simp: nth_append serial_string_nth hex_printerD [OF assms(2)] nib_def)
  have "[0..<length ?s + 1] = [0..<8] @ [8..<length ?s + 1]"
    using upt_add_eq_append [of 0 8 "length ?s + 1 - 8"] len8 by simp
  then have "hex_loop [0..<length ?s + 1] ?ser =
      hex_loop [8..<length ?s + 1] (fold (\<lambda>i s. s[i := of_nat (nib i)]) [0..<8] ?ser)"
    using hex_loop_digits [OF digits] by simp
  moreover
  have "\<forall>i\<in>set [8..<length ?s + 1]. i < length (fold (\<lambda>i s. s[i := of_nat (nib i)]) [0..<8] ?ser)"
    using len assms(4) by (simp del: upt_Suc)
  then obtain t where t: "hex_loop [8..<length ?s + 1]
      (fold (\<lambda>i s. s[i := of_nat (nib i)]) [0..<8] ?ser) = Some t"
    using hex_loop_defined by blast
  moreover have lt: "16 \<le> length t" and ti: "\<And>i. i < 8 \<Longrightarrow> t ! i = of_nat (nib i)"
    using hex_loop_frame [OF t] len assms(4) by (auto simp: fold_update_nth)
  have "pack_pair t i = Some (bs ! i)" if "i < 4" for i
    using that ti [of "2 * i"] ti [of "Suc (2 * i)"] lt
    by (simp add: pack_pair_def buf_simps nib_def pack_nibbles)
  moreover have "bs = [bs ! 0, bs ! 1, bs ! 2, bs ! 3]"
    using assms(3) by (auto intro!: nth_equalityI simp: less_Suc_eq numeral_eq_Suc)
  ultimately show ?thesis
    by (simp add: cnv_hex_to_decimal_serial_def)
qed

text \<open>
  C39. A serial string of eight hexadecimal digits in either case, followed by up to seven more
  ASCII characters, is read as the four bytes it prints, whatever the local buffer held before.
\<close>

theorem serial_conversion_roundtrip:
  assumes "ascii_locale cv" "hex_printer hx" "length bs = 4" "16 \<le> length ser"
    and "\<forall>c\<in>set rest. c < 128" "length rest < 8"
  shows "cnv_hex_to_decimal_serial cv ser (Some (serial_string hx bs @ rest)) = Some bs"
  using assms by (rule cnv_serial_string)

theorem serial_conversion_roundtrip_witness:
  "cnv_hex_to_decimal_serial (\<lambda>c. Some [ucast c]) (replicate 16 0xCC)
     (Some (serial_string hex_char_lower [0x5b, 0, 2, 0x6e] @ [48, 49])) = Some [0x5b, 0, 2, 0x6e]"
  by (rule serial_conversion_roundtrip) (auto simp: ascii_locale_def hex_printers)

text \<open>The loop looks at one byte behind the digits it converts.\<close>

lemma hex_loop_all_digits:
  assumes "\<And>i. k \<le> i \<Longrightarrow> i < length ser \<Longrightarrow> hex_digit (ser ! i) \<noteq> None" "k \<le> length ser"
  shows "hex_loop [k..<length ser + 1] ser = None"
  using assms
proof (induction "length ser - k" arbitrary: k ser)
  case 0
  then show ?case by (simp add: upt_conv_Cons rd_def)
next
  case (Suc n)
  then have k: "k < length ser" by simp
  then obtain v where v: "hex_digit (ser ! k) = Some v" using Suc.prems(1) by auto
  have "hex_loop [k..<length ser + 1] ser = hex_loop [Suc k..<length ser + 1] (ser[k := v])"
    using k v by (simp add: upt_conv_Cons buf_simps)
  also have "\<dots> = None"
    using Suc.hyps(1) [of "ser[k := v]" "Suc k"] Suc.hyps(2) Suc.prems(1) k by auto
  finally show ?case .
qed

text \<open>
  The conversion has defined behaviour only for strings shorter than the local array: 16
  hexadecimal digits make the loop read \<open>ser[16]\<close>, more of them overflow it already in
  \<open>wcstombs\<close>; and so is a device that reports no serial string (NULL).
\<close>

theorem serial_conversion_overflow:
  assumes "ascii_locale cv" "length ser = 16"
    and "\<forall>c\<in>set s. c < 128 \<and> hex_digit (ucast c) \<noteq> None" "16 \<le> length s"
  shows "cnv_hex_to_decimal_serial cv ser (Some s) = None \<and> cnv_hex_to_decimal_serial cv ser None = None"
proof (cases "length s = 16")
  case True
  have "wr_block ser 0 (wcstombs cv s (length s)) = Some (map ucast s)"
    using assms True by (subst wcstombs_ascii) (auto simp: wr_block_def)
  moreover have "hex_loop [0..<length s + 1] (map ucast s) = None"
    using hex_loop_all_digits [of 0 "map ucast s :: byte list"] assms(3) by fastforce
  ultimately show ?thesis by (simp add: cnv_hex_to_decimal_serial_def)
next
  case False
  then have "wr_block ser 0 (wcstombs cv s (length s)) = None"
    using assms by (subst wcstombs_ascii) (auto simp: wr_block_def)
  then show ?thesis by (simp add: cnv_hex_to_decimal_serial_def)
qed

theorem serial_conversion_overflow_witness:
  "cnv_hex_to_decimal_serial (\<lambda>c. Some [ucast c]) (replicate 16 0) (Some (replicate 16 48)) = None"
  using serial_conversion_overflow [of "\<lambda>c. Some [ucast c]" "replicate 16 0" "replicate 16 48"]
  by (simp add: ascii_locale_def hex_digit_def)

text \<open>A string that ends early leaves the rest of the local array as it was.\<close>

lemma hex_loop_prefix:
  "k \<le> length pre \<Longrightarrow> \<exists>pre'. length pre' = length pre \<and>
     (\<forall>suf. suf \<noteq> [] \<longrightarrow> hex_digit (hd suf) = None \<longrightarrow>
        hex_loop [k..<length pre + 1] (pre @ suf) = Some (pre' @ suf))"
proof (induction "length pre - k" arbitrary: k pre)
  case 0
  then have "hex_loop [k..<length pre + 1] (pre @ suf) = Some (pre @ suf)"
    if "suf \<noteq> []" "hex_digit (hd suf) = None" for suf
    using that by (simp add: upt_conv_Cons buf_simps nth_append hd_conv_nth)
  then show ?case by blast
next
  case (Suc n)
  then have k: "k < length pre" by simp
  show ?case
  proof (cases "hex_digit (pre ! k)")
    case None
    then have "hex_loop [k..<length pre + 1] (pre @ suf) = Some (pre @ suf)" for suf
      using k by (simp add: upt_conv_Cons buf_simps nth_append)
    then show ?thesis by blast
  next
    case (Some v)
    then have "hex_loop [k..<length pre + 1] (pre @ suf) =
        hex_loop [Suc k..<length (pre[k := v]) + 1] (pre[k := v] @ suf)" for suf
      using k by (simp add: upt_conv_Cons buf_simps nth_append list_update_append)
    then show ?thesis
      using Suc.hyps(1) [of "pre[k := v]" "Suc k"] Suc.hyps(2) k by auto
  qed
qed

text \<open>
  For a serial string of fewer than eight characters the result depends on what the
  uninitialised local array held: the same string is read as different serials.
\<close>

theorem short_serial_reads_stack:
  assumes "ascii_locale cv" "\<forall>c\<in>set s. c < 128" "length s < 8"
  shows "\<exists>ser1 ser2. length ser1 = 16 \<and> length ser2 = 16 \<and>
    cnv_hex_to_decimal_serial cv ser1 (Some s) \<noteq> cnv_hex_to_decimal_serial cv ser2 (Some s) \<and>
    cnv_hex_to_decimal_serial cv ser1 (Some s) \<noteq> None \<and>
    cnv_hex_to_decimal_serial cv ser2 (Some s) \<noteq> None"
proof -
  let ?pre = "map ucast s :: byte list"
  obtain pre where pre: "length pre = length s"
    and loop: "\<And>suf. suf \<noteq> [] \<Longrightarrow> hex_digit (hd suf) = None \<Longrightarrow>
      hex_loop [0..<length s + 1] (?pre @ suf) = Some (pre @ suf)"
    using hex_loop_prefix [of 0 ?pre] by auto
  define junk :: "byte \<Rightarrow> byte list" where "junk v = (replicate 16 0xFF)[7 := v]" for v
  have junk: "length (junk v) = 16" for v by (simp add: junk_def)
  have "cnv_hex_to_decimal_serial cv (junk v) (Some s) =
      Some [16 * t 0 + t 1, 16 * t 2 + t 3, 16 * t 4 + t 5, 16 * t 6 + v]"
    if v: "v = 0xFF \<or> v = 0xFE" and t: "t = (\<lambda>i. (pre @ replicate 8 0xFF) ! i)" for v t
  proof -
    let ?suf = "drop (length s) (junk v)"
    have "hd ?suf \<in> {0xFF, 0xFE}"
      using assms(3) v by (auto simp: junk_def hd_drop_conv_nth upd_nth)
    then have "hex_digit (hd ?suf) = None" by (auto simp: hex_digit_def)
    then have "hex_loop [0..<length s + 1] (?pre @ ?suf) = Some (pre @ ?suf)"
      using assms(3) junk [of v] by (intro loop) auto
    moreover have "wr_block (junk v) 0 (wcstombs cv s (length s)) = Some (?pre @ ?suf)"
      using assms junk [of v] by (subst wcstombs_ascii) (auto simp: wr_block_def)
    moreover have "(pre @ ?suf) ! 7 = v" "\<And>i. i < 7 \<Longrightarrow> (pre @ ?suf) ! i = t i"
      using assms(3) pre by (auto simp: junk_def nth_append t upd_nth)
    moreover have "length (pre @ ?suf) = 16" using pre assms(3) junk [of v] by simp
    ultimately show ?thesis
      by (simp add: cnv_hex_to_decimal_serial_def pack_pair_def buf_simps)
  qed
  from this [of "0xFF", OF _ refl] this [of "0xFE", OF _ refl] show ?thesis
    using junk by (intro exI [of _ "junk 0xFF"] exI [of _ "junk 0xFE"]) auto
qed

theorem short_serial_reads_stack_witness:
  "\<exists>ser1 ser2. length ser1 = 16 \<and> length ser2 = 16 \<and>
    cnv_hex_to_decimal_serial (\<lambda>c. Some [ucast c]) ser1 (Some [49, 50]) \<noteq>
    cnv_hex_to_decimal_serial (\<lambda>c. Some [ucast c]) ser2 (Some [49, 50])"
  using short_serial_reads_stack [of "\<lambda>c. Some [ucast c]" "[49, 50]"]
  by (auto simp: ascii_locale_def)

end
