(* ===== verification/NovinTools.thy ===== *)
theory NovinTools
  imports PacketCrypt SerialConv HidApi
begin

text \<open>
  The rest of \<^verbatim>\<open>token-DLL/lib/novintools.c\<close>: the checks whether a device is connected and selected,
  the packet exchange with the token, and the functions that fetch the RSA key and the status
  word over it. All of them run over a table \<open>H\<close> of HIDAPI functions.

  The record \<open>platform\<close> holds what C leaves to the machine: what a read of \<open>tk[8].inUse\<close> yields
  (\<open>past_tk\<close>), how many bytes behind a local array are addressable and belong to no other object
  (\<open>stack_pad\<close>; 0 is strict C, where every access behind an array is undefined), the contents of
  uninitialised local arrays (\<open>junk k i\<close>: byte \<open>i\<close> of the \<open>k\<close>-th array) and the multibyte encoding.
\<close>

section \<open>State\<close>

record platform =
  past_tk :: "int option"
  stack_pad :: nat
  junk :: "nat \<Rightarrow> nat \<Rightarrow> byte"
  wc_to_mb :: "wchar \<Rightarrow> byte list option"

text \<open>
  The library's globals \<open>tk\<close> and \<open>LAST_ERR_NO\<close>, the state \<open>hid\<close> of the HIDAPI implementation, the
  number \<open>frames\<close> of local arrays allocated so far, and for \<^verbatim>\<open>novinlib.c\<close> the number of OpenSSL calls
  so far, the number of BIGNUMs in use, the number of open \<open>FILE\<close>s and the files below \<^verbatim>\<open>/tmp\<close>.
\<close>

record 'h nst =
  tk :: "token list"
  LAST_ERR_NO :: int
  hid :: 'h
  frames :: nat
  ssl_calls :: nat
  bignums :: int
  streams :: int
  files :: "string \<Rightarrow> byte list option"

text \<open>\<open>hid_only s s'\<close>: going from \<open>s\<close> to \<open>s'\<close> changed nothing but the state of the HIDAPI layer.\<close>

definition hid_only :: "'h nst \<Rightarrow> 'h nst \<Rightarrow> bool" where
  "hid_only s s' \<longleftrightarrow> s' = s\<lparr>hid := hid s'\<rparr>"

lemma hid_only_refl [simp, intro]: "hid_only s s"
  by (simp add: hid_only_def)

lemma hid_only_update [simp, intro]: "hid_only s (s\<lparr>hid := h\<rparr>)"
  by (simp add: hid_only_def)

lemma hid_only_trans [trans]: "hid_only a b \<Longrightarrow> hid_only b c \<Longrightarrow> hid_only a c"
  unfolding hid_only_def by (metis nst.fold_congs(3) nst.simps(3) nst.surjective nst.update_convs(3))

lemma hid_onlyD:
  assumes "hid_only s s'"
  shows "tk s' = tk s" "LAST_ERR_NO s' = LAST_ERR_NO s" "frames s' = frames s"
    "ssl_calls s' = ssl_calls s" "bignums s' = bignums s" "files s' = files s"
    "streams s' = streams s"
  using arg_cong [OF assms [unfolded hid_only_def], of tk]
    arg_cong [OF assms [unfolded hid_only_def], of LAST_ERR_NO]
    arg_cong [OF assms [unfolded hid_only_def], of frames]
    arg_cong [OF assms [unfolded hid_only_def], of ssl_calls]
    arg_cong [OF assms [unfolded hid_only_def], of bignums]
    arg_cong [OF assms [unfolded hid_only_def], of files]
    arg_cong [OF assms [unfolded hid_only_def], of streams]
  by simp_all

definition local_array :: "platform \<Rightarrow> nat \<Rightarrow> nat \<Rightarrow> byte list" where
  "local_array P n k = map (junk P k) [0..<n + stack_pad P]"

lemma length_local_array [simp]: "length (local_array P n k) = n + stack_pad P"
  by (simp add: local_array_def)

section \<open>Connected and selected devices\<close>

fun scan_connected ::
    "platform \<Rightarrow> byte list \<Rightarrow> hid_device_info list \<Rightarrow> nat \<Rightarrow> (int \<times> nat) option" where
  "scan_connected P ser [] fr = Some (nErr_DNF, fr)"
| "scan_connected P ser (d # ds) fr = do {
     tmp \<leftarrow> cnv_hex_to_decimal_serial (wc_to_mb P) (local_array P 16 fr) (serial_number d);
     want \<leftarrow> rd_block ser 0 4;
     if tmp = want then Some (nErr_OK, Suc fr) else scan_connected P ser ds (Suc fr)
   }"

definition check_dev_connected ::
    "platform \<Rightarrow> 'h hidapi \<Rightarrow> byte list \<Rightarrow> 'h nst \<Rightarrow> (int \<times> 'h nst) option" where
  "check_dev_connected P H ser s = do {
     (devs, h) \<leftarrow> api_enumerate H VID PID (hid s);
     (err, fr) \<leftarrow> scan_connected P ser devs (frames s);
     h' \<leftarrow> api_free_enumeration H devs h;
     Some (err, s\<lparr>hid := h', frames := fr\<rparr>)
   }"

fun scan_selected :: "byte list \<Rightarrow> token list \<Rightarrow> int option" where
  "scan_selected ser [] = Some nErr_DNS"
| "scan_selected ser (t # ts) =
     (if selected t \<noteq> 0
      then do {
        a \<leftarrow> rd_block ser 0 4;
        b \<leftarrow> rd_block (serial t) 0 4;
        if a = b then Some nErr_OK else scan_selected ser ts }
      else scan_selected ser ts)"

definition check_dev_selected :: "byte list \<Rightarrow> 'h nst \<Rightarrow> int option" where
  "check_dev_selected ser s = scan_selected ser (take MAX_TOKEN_SUPPORT (tk s))"

section \<open>The packet exchange\<close>

text \<open>
  \<open>_send_packet\<close> in three parts: what it does with a response that has arrived (unmask it, take
  the status byte, move the payload to the front), the reception, and everything between
  \<open>_encrypt_packet\<close> and the label \<open>out\<close>. \<open>result\<close> and \<open>packet\<close> are the caller's arrays, \<open>off\<close> the
  offset of the pointer passed as \<open>result\<close>.
\<close>

definition response_code :: "byte \<Rightarrow> int" where
  "response_code stat = (if uint stat = 128 then nErr_OK else uint stat * -1)"

definition decode_response :: "token \<Rightarrow> byte list \<Rightarrow> nat \<Rightarrow> nat \<Rightarrow> (int \<times> byte list) option" where
  "decode_response t result off rid = do {
     result1 \<leftarrow> at_off (off + 1) (\<lambda>b. decrypt_packet b (serial t)) result;
     stat \<leftarrow> rd result1 (off + 1);
     rlen \<leftarrow> rd ReportLength rid;
     moved \<leftarrow> rd_block result1 (off + 2) rlen;
     result2 \<leftarrow> wr_block result1 off moved;
     Some (response_code stat, result2)
   }"

definition receive_response ::
    "'h hidapi \<Rightarrow> nat \<Rightarrow> token \<Rightarrow> byte list \<Rightarrow> nat \<Rightarrow> nat \<Rightarrow> 'h \<Rightarrow> (int \<times> byte list \<times> 'h) option" where
  "receive_response H d t result off rid h = do {
     result1 \<leftarrow> wr result off (of_nat rid);
     rlen \<leftarrow> rd ReportLength rid;
     (res, tail, h1) \<leftarrow> api_get_feature_report H d (drop off result1) rlen h;
     let result2 = take off result1 @ tail;
     if res < 0 then Some (- nErr_IOE, result2, h1)
     else do {
       (stat, result3) \<leftarrow> decode_response t result2 off rid;
       Some (stat, result3, h1)
     }
   }"

definition packet_exchange ::
    "'h hidapi \<Rightarrow> nat \<Rightarrow> token \<Rightarrow> byte list \<Rightarrow> nat \<Rightarrow> nat \<Rightarrow> byte list \<Rightarrow> nat \<Rightarrow> 'h \<Rightarrow>
      (int \<times> byte list \<times> byte list \<times> 'h) option" where
  "packet_exchange H d t result off rid packet pid h = do {
     packet1 \<leftarrow> at_off 1 (\<lambda>b. encrypt_packet b (serial t)) packet;
     plen \<leftarrow> rd ReportLength pid;
     (res, h1) \<leftarrow> api_send_feature_report H d packet1 plen h;
     if res < 0 then Some (- nErr_IOE, result, packet1, h1)
     else do {
       (stat, result', h2) \<leftarrow> receive_response H d t result off rid h1;
       Some (stat, result', packet1, h2)
     }
   }"

definition send_packet ::
    "platform \<Rightarrow> 'h hidapi \<Rightarrow> byte list \<Rightarrow> nat \<Rightarrow> nat \<Rightarrow> byte list \<Rightarrow> nat \<Rightarrow> 'h nst \<Rightarrow>
      (int \<times> byte list \<times> byte list \<times> 'h nst) option" where
  "send_packet P H result off rid packet pid s = do {
     tkNo \<leftarrow> GET_ACTIVE_TOKEN (past_tk P) (tk s);
     (handle, h1) \<leftarrow> api_open H VID PID None (hid s);
     (res, result', packet', h2) \<leftarrow>
       (case handle of
          None \<Rightarrow> Some (- nErr_DNF, result, packet, h1)
        | Some d \<Rightarrow> do {
            t \<leftarrow> tok_at (tk s) tkNo;
            if selected t = 0 then Some (- nErr_DNS, result, packet, h1)
            else packet_exchange H d t result off rid packet pid h1 });
     h3 \<leftarrow> api_close H handle h2;
     (r, h4) \<leftarrow> api_exit H h3;
     Some (res, result', packet', s\<lparr>hid := h4\<rparr>)
   }"

section \<open>Reading the RSA key\<close>

definition public_request :: "nat \<Rightarrow> nat \<Rightarrow> byte list \<Rightarrow> byte list option" where
  "public_request key_type key_index packet = do {
     p0 \<leftarrow> wr packet 0 (of_nat ReportID_GetRSAKEY);
     p1 \<leftarrow> wr p0 1 OpCode_GetRSAKEY;
     p2 \<leftarrow> wr p1 (2 + PWD_LEN) (of_nat key_type);
     wr p2 (3 + PWD_LEN) (of_nat key_index)
   }"

definition private_request :: "byte list \<Rightarrow> nat \<Rightarrow> nat \<Rightarrow> byte list \<Rightarrow> byte list option" where
  "private_request pwd key_type key_index packet = do {
     p0 \<leftarrow> wr packet 0 (of_nat ReportID_GetRSAKEY);
     p1 \<leftarrow> wr p0 1 OpCode_GetRSAKEY;
     w \<leftarrow> rd_block pwd 0 PWD_LEN;
     p2 \<leftarrow> wr_block p1 2 w;
     p3 \<leftarrow> wr p2 (2 + PWD_LEN) (of_nat key_type);
     wr p3 (3 + PWD_LEN) (of_nat key_index)
   }"

text \<open>
  The loop over \<open>key_index\<close>, the same in both functions up to how the request is filled in
  (\<open>req\<close>). The arrays \<open>result\<close> and \<open>packet\<close> are carried from packet to packet.
\<close>

fun key_chunks ::
    "platform \<Rightarrow> 'h hidapi \<Rightarrow> (nat \<Rightarrow> nat \<Rightarrow> byte list \<Rightarrow> byte list option) \<Rightarrow> nat \<Rightarrow> nat list \<Rightarrow>
      byte list \<Rightarrow> byte list \<Rightarrow> 'h nst \<Rightarrow> (int \<times> byte list \<times> byte list \<times> 'h nst) option" where
  "key_chunks P H req kt [] result packet s = Some (nErr_OK, result, packet, s)"
| "key_chunks P H req kt (k # ks) result packet s = do {
     packet1 \<leftarrow> req kt k packet;
     (res, result', packet', s') \<leftarrow>
       send_packet P H result (16 * k) ReportID_GetLarge packet1 ReportID_GetRSAKEY s;
     if res \<noteq> nErr_OK then Some (res * -1, result', packet', s')
     else key_chunks P H req kt ks result' packet' s'
   }"

text \<open>
  The loop over \<open>key_type\<close>: after its eight packets the 128 bytes in \<open>result\<close> are copied to the
  output array of that type, \<open>fst_type\<close> to the first and \<open>KT_Exponent\<close> to the second.
\<close>

fun key_types ::
    "platform \<Rightarrow> 'h hidapi \<Rightarrow> (nat \<Rightarrow> nat \<Rightarrow> byte list \<Rightarrow> byte list option) \<Rightarrow> nat \<Rightarrow> nat list \<Rightarrow>
      byte list \<Rightarrow> byte list \<Rightarrow> byte list \<Rightarrow> byte list \<Rightarrow> 'h nst \<Rightarrow>
      (int \<times> byte list \<times> byte list \<times> 'h nst) option" where
  "key_types P H req fst_type [] result packet out exponent s = Some (nErr_OK, out, exponent, s)"
| "key_types P H req fst_type (kt # kts) result packet out exponent s = do {
     (res, result', packet', s') \<leftarrow> key_chunks P H req kt [0..<8] result packet s;
     if res \<noteq> nErr_OK then Some (res, out, exponent, s')
     else do {
       out' \<leftarrow> (if kt = fst_type
               then do { b \<leftarrow> rd_block result' 0 128; wr_block out 0 b } else Some out);
       exponent' \<leftarrow> (if kt = KT_Exponent
               then do { b \<leftarrow> rd_block result' 0 128; wr_block exponent 0 b } else Some exponent);
       key_types P H req fst_type kts result' packet' out' exponent' s'
     }
   }"

definition novin_get_public_key ::
    "platform \<Rightarrow> 'h hidapi \<Rightarrow> byte list \<Rightarrow> byte list \<Rightarrow> 'h nst \<Rightarrow>
      (int \<times> byte list \<times> byte list \<times> 'h nst) option" where
  "novin_get_public_key P H public exponent s =
     (let packet = local_array P 128 (frames s);
          result = local_array P 128 (frames s + 1)
      in key_types P H public_request KT_Public [KT_Public..<KT_Exponent + 1] result packet
           public exponent (s\<lparr>frames := frames s + 2\<rparr>))"

definition novin_get_private_key ::
    "platform \<Rightarrow> 'h hidapi \<Rightarrow> byte list \<Rightarrow> byte list \<Rightarrow> byte list \<Rightarrow> 'h nst \<Rightarrow>
      (int \<times> byte list \<times> byte list \<times> 'h nst) option" where
  "novin_get_private_key P H private exponent pwd s =
     (let packet = local_array P 128 (frames s);
          result = local_array P 128 (frames s + 1)
      in key_types P H (private_request pwd) KT_Private [KT_Private, KT_Private + 2] result packet
           private exponent (s\<lparr>frames := frames s + 2\<rparr>))"

section \<open>The status word\<close>

definition get_dev_status_internal :: "platform \<Rightarrow> 'h hidapi \<Rightarrow> 'h nst \<Rightarrow> (int \<times> 'h nst) option" where
  "get_dev_status_internal P H s = do {
     let packet = local_array P 128 (frames s);
     let result = local_array P 128 (frames s + 1);
     p0 \<leftarrow> wr packet 0 (of_nat ReportID_GetDeviceInfo);
     p1 \<leftarrow> wr p0 1 OpCode_GetDeviceInfo;
     result0 \<leftarrow> wr_block result 0 (replicate 128 0);
     (res, result', packet', s') \<leftarrow>
       send_packet P H result0 0 ReportID_GetLarge p1 ReportID_GetDeviceInfo
         (s\<lparr>frames := frames s + 2\<rparr>);
     if res \<noteq> nErr_OK then Some (res * -1, s')
     else do {
       hi \<leftarrow> rd result' 1;
       lo \<leftarrow> rd result' 0;
       Some (uint hi * 256 + uint lo, s')
     }
   }"


section \<open>Frames and ranges\<close>

lemma ReportLength_GetLarge [simp]: "rd ReportLength ReportID_GetLarge = Some 18"
  by (simp add: ReportLength_def rd_def const_simps)

text \<open>
  What one exchange does to the caller's arrays: lengths stay, and only the 18 bytes of the large
  report change in \<open>result\<close>. The result code is 0 or the negated error code.
\<close>

definition frame_18 :: "nat \<Rightarrow> byte list \<Rightarrow> byte list \<Rightarrow> bool" where
  "frame_18 off r r' \<longleftrightarrow>
     length r' = length r \<and> take off r' = take off r \<and> drop (off + 18) r' = drop (off + 18) r"

lemma frame_18_refl [simp]: "frame_18 off r r"
  by (simp add: frame_18_def)

lemma frame_18_trans [trans]: "frame_18 off a b \<Longrightarrow> frame_18 off b c \<Longrightarrow> frame_18 off a c"
  by (simp add: frame_18_def)

lemma frame_18_wr: "wr r off v = Some r' \<Longrightarrow> frame_18 off r r'"
  by (auto simp: buf_iffs frame_18_def)

lemma frame_18_wr_block:
  "wr_block r off xs = Some r' \<Longrightarrow> length xs \<le> 18 \<Longrightarrow> frame_18 off r r'"
  by (auto simp: buf_iffs frame_18_def drop_append ac_simps)

lemma frame_18_tail:
  "off \<le> length r \<Longrightarrow> length ys = length (drop off r) \<Longrightarrow> drop 18 ys = drop 18 (drop off r) \<Longrightarrow>
    frame_18 off r (take off r @ ys)"
  by (auto simp: frame_18_def drop_append add.commute)

lemma frame_18_decrypt:
  assumes "at_off (off + 1) (\<lambda>b. decrypt_packet b ser) r = Some r'"
  shows "frame_18 off r r'"
proof -
  have *: "decrypt_packet (drop (off + 1) r) ser = Some x \<Longrightarrow>
      length x = length r - (off + 1) \<and> drop 17 x = drop 17 (drop (off + 1) r)" for x
    using packet_lengths(2) packet_frames(2) by fastforce
  note f = at_off_frame [OF assms *]
  have "take off (take (off + 1) r') = take off (take (off + 1) r)" using f(3) by simp
  moreover have "drop (off + 18) r' = drop (off + 18) r" using f(4) by (simp add: add.commute)
  ultimately show ?thesis using f(2) by (simp add: frame_18_def)
qed

lemma encrypt_at_1_length:
  "at_off 1 (\<lambda>b. encrypt_packet b ser) p = Some p' \<Longrightarrow> length p' = length p"
  by (rule at_off_length) (auto dest: packet_lengths(1))

lemma response_code_range: "- 255 \<le> response_code stat \<and> response_code stat \<le> 0"
  using byte_int_bounds [of stat] by (auto simp: response_code_def const_simps)

text \<open>
  \<open>reply_ok off result result' res\<close>: what every stage of an exchange guarantees. A code of 0 is
  only reached when 20 bytes from \<open>off\<close> on are addressable: the 18 bytes of the report and the two
  more that \<open>memmove (result, result+2, 18)\<close> reads behind them.
\<close>

definition reply_ok :: "nat \<Rightarrow> byte list \<Rightarrow> byte list \<Rightarrow> int \<Rightarrow> bool" where
  "reply_ok off result result' res \<longleftrightarrow>
     frame_18 off result result' \<and> - 255 \<le> res \<and> res \<le> 0 \<and>
     (res = 0 \<longrightarrow> off + 20 \<le> length result)"

lemma reply_ok_error [intro]:
  "frame_18 off r r' \<Longrightarrow> reply_ok off r r' (- nErr_IOE)"
  "frame_18 off r r' \<Longrightarrow> reply_ok off r r' (- nErr_DNF)"
  "frame_18 off r r' \<Longrightarrow> reply_ok off r r' (- nErr_DNS)"
  by (simp_all add: reply_ok_def const_simps)

lemma reply_ok_trans: "frame_18 off a b \<Longrightarrow> reply_ok off b c res \<Longrightarrow> reply_ok off a c res"
  by (auto simp: reply_ok_def frame_18_def)

lemma decode_response_frame:
  assumes "decode_response t result off ReportID_GetLarge = Some (res, result')"
  shows "reply_ok off result result' res"
proof -
  from assms obtain result1 stat moved where
    dec: "at_off (off + 1) (\<lambda>b. decrypt_packet b (serial t)) result = Some result1"
    and mv: "rd_block result1 (off + 2) 18 = Some moved" "wr_block result1 off moved = Some result'"
    and res: "res = response_code stat"
    by (auto simp: decode_response_def bind_Some_iff)
  have "frame_18 off result1 result'"
    using mv by (intro frame_18_wr_block) (auto simp: buf_iffs)
  with frame_18_decrypt [OF dec] have "frame_18 off result result'"
    by (rule frame_18_trans)
  moreover have "off + 20 \<le> length result"
    using mv(1) frame_18_decrypt [OF dec] by (auto simp: buf_iffs frame_18_def)
  ultimately show ?thesis
    using response_code_range [of stat] by (simp add: res reply_ok_def)
qed

context hid_backend
begin

lemma receive_response_frame:
  assumes "inv h" "over h d x"
    and "receive_response H d t result off ReportID_GetLarge h = Some (res, result', h')"
  shows "inv h' \<and> over h' d x \<and> reply_ok off result result' res"
proof -
  from assms(3) obtain result1 r tail where
    w: "wr result off (of_nat ReportID_GetLarge) = Some result1"
    and get: "api_get_feature_report H d (drop off result1) 18 h = Some (r, tail, h')"
    and rest: "(res = - nErr_IOE \<and> result' = take off result1 @ tail) \<or>
      decode_response t (take off result1 @ tail) off ReportID_GetLarge = Some (res, result')"
    by (auto simp: receive_response_def bind_Some_iff Let_def split: if_splits)
  note law = get_law [OF assms(1,2) _ get, simplified]
  have "off < length result" "length result1 = length result" using w by (auto simp: buf_iffs)
  then have f: "frame_18 off result (take off result1 @ tail)"
    using frame_18_trans [OF frame_18_wr [OF w] frame_18_tail] law by simp
  from rest show ?thesis
    using f law decode_response_frame reply_ok_trans [OF f] by auto
qed

lemma packet_exchange_frame:
  assumes "inv h" "over h d x"
    and "packet_exchange H d t result off ReportID_GetLarge packet pid h = Some (res, result', packet', h')"
  shows "inv h' \<and> over h' d x \<and> length packet' = length packet \<and> reply_ok off result result' res"
proof -
  from assms(3) obtain plen r h1 where
    p: "at_off 1 (\<lambda>b. encrypt_packet b (serial t)) packet = Some packet'"
    and send: "api_send_feature_report H d packet' plen h = Some (r, h1)"
    and rest: "(res = - nErr_IOE \<and> result' = result \<and> h' = h1) \<or>
      receive_response H d t result off ReportID_GetLarge h1 = Some (res, result', h')"
    by (fastforce simp: packet_exchange_def bind_Some_iff split: if_splits)
  note h1 = send_law [OF assms(1,2) send] and len = encrypt_at_1_length [OF p]
  from rest show ?thesis
    using receive_response_frame [of h1 d x] h1 len by auto
qed

text \<open>
  The whole call: the device it opened is closed again on every path, and the library's own
  state is untouched.
\<close>

lemma send_packet_frame:
  assumes "inv (hid s)"
    and "send_packet P H result off ReportID_GetLarge packet pid s = Some (res, result', packet', s')"
  shows "inv (hid s') \<and> held (hid s') = held (hid s) \<and> hid_only s s' \<and>
    length packet' = length packet \<and> reply_ok off result result' res"
proof -
  from assms(2) obtain tkNo handle h1 h2 h3 h4 r where
    op: "api_open H VID PID None (hid s) = Some (handle, h1)"
    and mid: "(case handle of
          None \<Rightarrow> Some (- nErr_DNF, result, packet, h1)
        | Some d \<Rightarrow> do {
            t \<leftarrow> tok_at (tk s) tkNo;
            if selected t = 0 then Some (- nErr_DNS, result, packet, h1)
            else packet_exchange H d t result off ReportID_GetLarge packet pid h1 })
        = Some (res, result', packet', h2)"
    and cl: "api_close H handle h2 = Some h3" and ex: "api_exit H h3 = Some (r, h4)"
    and s': "s' = s\<lparr>hid := h4\<rparr>"
    by (auto simp: send_packet_def bind_Some_iff)
  show ?thesis
  proof (cases handle)
    case None
    then have "h3 = h1" "h2 = h1" "packet' = packet" "reply_ok off result result' res"
      using mid cl close_null_law by auto
    then show ?thesis
      using open_null_law [OF assms(1)] op None exit_law [of h3 r h4] ex s' by auto
  next
    case (Some d)
    note o = open_law [OF assms(1) op [unfolded Some]]
    from mid Some obtain t where "(res = - nErr_DNS \<and> result' = result \<and> packet' = packet \<and> h2 = h1) \<or>
        packet_exchange H d t result off ReportID_GetLarge packet pid h1 = Some (res, result', packet', h2)"
      by (auto simp: bind_Some_iff split: if_splits)
    then have "inv h2 \<and> over h2 d (held (hid s)) \<and> length packet' = length packet \<and>
        reply_ok off result result' res"
      using o packet_exchange_frame [of h1 d "held (hid s)"] by auto
    moreover from this have "inv h3 \<and> held h3 = held (hid s)"
      using close_law [of h2 d "held (hid s)" h3] cl Some by auto
    ultimately show ?thesis using exit_law [of h3 r h4] ex s' by auto
  qed
qed

text \<open>
  The loops over the key: no device stays open, the code is 0 or a positive error code, and a
  loop that succeeds has had 20 addressable bytes behind every chunk's offset.
\<close>

lemma key_chunks_frame:
  assumes "inv (hid s)"
    and "key_chunks P H req kt ks result packet s = Some (res, result', packet', s')"
  shows "inv (hid s') \<and> held (hid s') = held (hid s) \<and> hid_only s s' \<and>
    length result' = length result \<and> 0 \<le> res \<and> res \<le> 255 \<and>
    (res = 0 \<longrightarrow> (\<forall>k\<in>set ks. 16 * k + 20 \<le> length result))"
  using assms
proof (induction ks arbitrary: result packet s)
  case (Cons k ks)
  from Cons.prems(2) obtain packet1 r1 result1 packet2 s1 where
    send: "send_packet P H result (16 * k) ReportID_GetLarge packet1 ReportID_GetRSAKEY s
      = Some (r1, result1, packet2, s1)"
    and rest: "(r1 \<noteq> nErr_OK \<and> res = r1 * -1 \<and> result' = result1 \<and> s' = s1) \<or>
      (r1 = nErr_OK \<and> key_chunks P H req kt ks result1 packet2 s1 = Some (res, result', packet', s'))"
    by (auto simp: bind_Some_iff split: if_splits)
  note f = send_packet_frame [OF Cons.prems(1) send]
  from rest show ?case
  proof
    assume "r1 = nErr_OK \<and> key_chunks P H req kt ks result1 packet2 s1 = Some (res, result', packet', s')"
    then show ?thesis
      using Cons.IH [of s1 result1 packet2] f hid_only_trans [of s s1 s']
      by (auto simp: reply_ok_def frame_18_def const_simps)
  qed (use f in \<open>auto simp: reply_ok_def frame_18_def const_simps\<close>)
qed (auto simp: const_simps)

lemma key_types_frame:
  assumes "inv (hid s)"
    and "key_types P H req ft kts result packet out ex s = Some (res, out', ex', s')"
  shows "inv (hid s') \<and> held (hid s') = held (hid s) \<and> hid_only s s' \<and>
    length out' = length out \<and> length ex' = length ex \<and> 0 \<le> res \<and> res \<le> 255 \<and>
    (res = 0 \<longrightarrow> kts \<noteq> [] \<longrightarrow> 132 \<le> length result)"
  using assms
proof (induction kts arbitrary: result packet out ex s)
  case (Cons kt kts)
  from Cons.prems(2) obtain r1 result1 packet1 s1 where
    chunks: "key_chunks P H req kt [0..<8] result packet s = Some (r1, result1, packet1, s1)"
    by (auto simp: bind_Some_iff)
  note f = key_chunks_frame [OF Cons.prems(1) chunks]
  have big: "r1 = 0 \<Longrightarrow> 132 \<le> length result"
    using f by (auto dest: bspec [of _ _ 7])
  show ?case
  proof (cases "r1 = 0")
    case True
    then obtain out1 ex1 where
      "length out1 = length out" "length ex1 = length ex"
      "key_types P H req ft kts result1 packet1 out1 ex1 s1 = Some (res, out', ex', s')"
      using Cons.prems(2) chunks
      by (fastforce simp: bind_Some_iff const_simps dest: wr_block_length split: if_splits)
    with Cons.IH [of s1 result1 packet1 out1 ex1] f big [OF True] show ?thesis
      using hid_only_trans [of s s1 s'] by auto
  next
    case False
    then show ?thesis using Cons.prems(2) chunks f by (auto simp: const_simps)
  qed
qed (auto simp: const_simps)

end

end
