(* ===== verification/TokenKey.thy ===== *)
theory TokenKey
  imports NovinTools
begin

text \<open>
  The token library against a token that answers: what an exchange of \<^verbatim>\<open>novintools.c\<close> yields when
  the device behind the HIDAPI table speaks the protocol of \<^verbatim>\<open>novin-op-code.h\<close>.

  The token's firmware is not part of the repository. It is an argument of the definitions here:
  \<open>f\<close> maps an unmasked request to the 17 bytes of an unmasked response (status and payload).
  \<open>token_model\<close> is the specification of such an \<open>f\<close> as the comments of the header give it: a
  status word under the op-code for the device info, the 16 byte pieces of three 128 byte keys under
  the op-code for the RSA key.
\<close>

section \<open>A backend with a token behind it\<close>

definition token_answer :: "byte list \<Rightarrow> (byte list \<Rightarrow> byte list) \<Rightarrow> byte list \<Rightarrow> byte list" where
  "token_answer ser f p = of_nat ReportID_GetLarge # mask_response (f (unmask_wire (tl p) ser)) ser"

text \<open>
  \<open>serves H ready answer\<close>: from a \<open>ready\<close> state the device can be opened, every numbered feature
  report of up to 64 bytes sent to it is followed by the response \<open>answer\<close> gives for it, and after closing it the state is \<open>ready\<close>
  again.
\<close>

definition serves :: "'h hidapi \<Rightarrow> ('h \<Rightarrow> bool) \<Rightarrow> (byte list \<Rightarrow> byte list) \<Rightarrow> bool" where
  "serves H ready answer \<longleftrightarrow>
     (\<forall>h. ready h \<longrightarrow> (\<exists>d h1. api_open H VID PID None h = Some (Some d, h1) \<and>
       (\<forall>buf n. 0 < n \<longrightarrow> n \<le> 64 \<longrightarrow> n \<le> length buf \<longrightarrow> buf ! 0 \<noteq> 0 \<longrightarrow>
         (\<exists>r2 h2. api_send_feature_report H d buf n h1 = Some (r2, h2) \<and> 0 \<le> r2 \<and>
           (\<forall>buf'. 18 \<le> length buf' \<longrightarrow> buf' ! 0 = of_nat ReportID_GetLarge \<longrightarrow>
             (\<exists>r3 h3 h4 r5 h5.
               api_get_feature_report H d buf' 18 h2 = Some (r3, answer (take n buf) @ drop 18 buf', h3) \<and>
               0 \<le> r3 \<and> api_close H (Some d) h3 = Some h4 \<and> api_exit H h4 = Some (r5, h5) \<and>
               ready h5))))))"

definition token_model ::
    "byte \<times> byte \<Rightarrow> (byte \<Rightarrow> byte list \<Rightarrow> byte + byte list) \<Rightarrow> byte list \<Rightarrow> byte list" where
  "token_model status key b =
     (if b ! 0 = OpCode_GetDeviceInfo then 128 # fst status # snd status # replicate 14 0
      else if b ! 0 = OpCode_GetRSAKEY then
        (case key (b ! 17) (take 16 (drop 1 b)) of
           Inl e \<Rightarrow> e # replicate 16 0
         | Inr K \<Rightarrow> 128 # take 16 (drop (16 * unat (b ! 18)) K @ replicate 16 0))
      else 1 # replicate 16 0)"

lemma token_model_length [simp]: "length (token_model status key b) = 17"
  by (auto simp: token_model_def split: sum.splits)

text \<open>
  \<open>token_ready\<close>: some token is active and selected, and it is the one behind the backend.
\<close>

definition token_ready ::
    "platform \<Rightarrow> 'h hidapi \<Rightarrow> ('h \<Rightarrow> bool) \<Rightarrow> (byte list \<Rightarrow> byte list) \<Rightarrow> 'h nst \<Rightarrow> bool" where
  "token_ready P H ready f s \<longleftrightarrow> ready (hid s) \<and>
     (\<exists>i. GET_ACTIVE_TOKEN (past_tk P) (tk s) = Some (int i) \<and> i < length (tk s) \<and>
       selected (tk s ! i) \<noteq> 0 \<and> length (serial (tk s ! i)) = 4 \<and>
       serves H ready (token_answer (serial (tk s ! i)) f))"

lemma token_ready_hid_only:
  "token_ready P H ready f s \<Longrightarrow> hid_only s s' \<Longrightarrow> ready (hid s') \<Longrightarrow> token_ready P H ready f s'"
  by (simp add: token_ready_def hid_onlyD(1))

lemma token_ready_frames [simp]:
  "token_ready P H ready f (s\<lparr>frames := k\<rparr>) = token_ready P H ready f s"
  by (simp add: token_ready_def)

section \<open>One exchange\<close>

lemma decode_response_ok:
  assumes "off + 20 \<le> length result" "take 17 (drop (off + 1) result) = mask_response r (serial t)"
    and "length r = 17" "length (serial t) = 4"
  shows "\<exists>result'. decode_response t result off ReportID_GetLarge = Some (response_code (hd r), result') \<and>
    length result' = length result \<and> take off result' = take off result \<and>
    take 16 (drop off result') = tl r"
proof -
  obtain c where c: "decrypt_packet (drop (off + 1) result) (serial t) = Some c" "take 17 c = r"
    "length c = length result - (off + 1)"
  proof -
    have "17 \<le> length (drop (off + 1) result)" using assms(1) by simp
    from decrypt_packet_masked [OF assms(2,3) _ this] show thesis
      using that assms(4) by auto
  qed
  let ?r1 = "take (off + 1) result @ c"
  have at: "at_off (off + 1) (\<lambda>b. decrypt_packet b (serial t)) result = Some ?r1"
    using c(1) assms(1) by (simp add: at_off_def)
  have "hd r = c ! 0" using c(2) assms(3) by (cases c) auto
  then have stat: "rd ?r1 (off + 1) = Some (hd r)"
    using assms(1) c(3) by (simp add: rd_def nth_append)
  have len: "length ?r1 = length result" using assms(1) c(3) by simp
  have mv: "rd_block ?r1 (off + 2) 18 = Some (take 18 (drop 1 c))"
    using assms(1) len by (simp add: rd_block_def)
  let ?r2 = "take off ?r1 @ take 18 (drop 1 c) @ drop (off + 18) ?r1"
  have l18: "length (take 18 (drop 1 c)) = 18" using assms(1) c(3) by simp
  have wb: "wr_block ?r1 off (take 18 (drop 1 c)) = Some ?r2"
    unfolding wr_block_def l18 using assms(1) len by simp
  have "take 16 (take 18 (drop 1 c)) = drop 1 (take 17 c)" by (simp add: drop_take min_def)
  then have "take 16 (drop off ?r2) = tl r" using c(2) assms(1) l18 by (simp add: drop_Suc)
  moreover have "take off ?r2 = take off result" "length ?r2 = length result"
    using assms(1) len l18 by simp_all
  ultimately show ?thesis
    unfolding decode_response_def at ReportLength_GetLarge bind.bind_lunit stat mv wb by blast
qed


lemma receive_response_ok:
  assumes get: "\<And>buf'. 18 \<le> length buf' \<Longrightarrow> buf' ! 0 = of_nat ReportID_GetLarge \<Longrightarrow>
      \<exists>r3 h3. api_get_feature_report H d buf' 18 h =
        Some (r3, (of_nat ReportID_GetLarge # mask_response r (serial t)) @ drop 18 buf', h3) \<and>
        0 \<le> r3 \<and> Q h3"
    and len: "off + 20 \<le> length result" "length r = 17" "length (serial t) = 4"
  shows "\<exists>result' h'. receive_response H d t result off ReportID_GetLarge h =
      Some (response_code (hd r), result', h') \<and> Q h' \<and>
    length result' = length result \<and> take off result' = take off result \<and>
    take 16 (drop off result') = tl r"
proof -
  let ?id = "of_nat ReportID_GetLarge :: byte"
  let ?r1 = "result[off := ?id]"
  obtain r3 h3 where g: "api_get_feature_report H d (drop off ?r1) 18 h =
      Some (r3, (?id # mask_response r (serial t)) @ drop 18 (drop off ?r1), h3)" "0 \<le> r3" "Q h3"
  proof -
    have "18 \<le> length (drop off ?r1)" "drop off ?r1 ! 0 = ?id" using len(1) by simp_all
    from get [OF this] show thesis using that by blast
  qed
  let ?m = "mask_response r (serial t)"
  let ?r2 = "take off ?r1 @ (?id # ?m) @ drop 18 (drop off ?r1)"
  have lm: "length ?m = 17" using len(2) by (simp add: mask_response_def)
  have l2: "length ?r2 = length result" using len(1) lm by simp
  have t17: "take 17 (drop (off + 1) ?r2) = ?m" using len(1) lm by simp
  have t2: "take off ?r2 = take off result" using len(1) by simp
  obtain result' where d: "decode_response t ?r2 off ReportID_GetLarge = Some (response_code (hd r), result')"
    "length result' = length result" "take off result' = take off result" "take 16 (drop off result') = tl r"
    using decode_response_ok [OF _ t17 len(2,3)] l2 t2 len(1) by auto
  have w: "wr result off ?id = Some ?r1" using len(1) by (simp add: wr_def)
  have "receive_response H d t result off ReportID_GetLarge h =
      Some (response_code (hd r), result', h3)"
    unfolding receive_response_def w ReportLength_GetLarge bind.bind_lunit g(1)
    using g(2) d(1) by (simp add: Let_def)
  with d g(3) show ?thesis by blast
qed

text \<open>
  The whole call: a request of any of the three report lengths reaches the token, its status
  byte becomes the result code and its payload lands at \<open>off\<close>.
\<close>

lemma packet_exchange_ok:
  assumes send: "\<And>buf n. 0 < n \<Longrightarrow> n \<le> 64 \<Longrightarrow> n \<le> length buf \<Longrightarrow> buf ! 0 \<noteq> 0 \<Longrightarrow>
      \<exists>r2 h2. api_send_feature_report H d buf n h1 = Some (r2, h2) \<and> 0 \<le> r2 \<and>
        (\<forall>buf'. 18 \<le> length buf' \<longrightarrow> buf' ! 0 = of_nat ReportID_GetLarge \<longrightarrow>
          (\<exists>r3 h3. api_get_feature_report H d buf' 18 h2 =
            Some (r3, token_answer (serial t) f (take n buf) @ drop 18 buf', h3) \<and> 0 \<le> r3 \<and> Q h3))"
    and f: "\<And>b. length (f b) = 17"
    and len: "off + 20 \<le> length result" "39 \<le> length packet" "length (serial t) = 4" and id: "packet ! 0 \<noteq> 0"
    and pid: "rd ReportLength pid = Some (Suc m)" "m = 3 * n + 2" "n \<le> 12"
  defines "r \<equiv> f (take m (tl packet))"
  shows "\<exists>result' packet' h3. packet_exchange H d t result off ReportID_GetLarge packet pid h1 =
      Some (response_code (hd r), result', packet', h3) \<and> Q h3 \<and> length packet' = length packet \<and>
    length result' = length result \<and> take off result' = take off result \<and>
    take 16 (drop off result') = tl r"
proof -
  obtain c where c: "encrypt_packet (drop 1 packet) (serial t) = Some c"
    using encrypt_packet_eq [of "drop 1 packet" "serial t"] len(2,3) by auto
  let ?p1 = "take 1 packet @ c"
  have at: "at_off 1 (\<lambda>b. encrypt_packet b (serial t)) packet = Some ?p1"
    using c len(2) by (simp add: at_off_def)
  have lp: "length ?p1 = length packet" using packet_lengths(1) [OF c] len(2) by (simp add: min_def)
  have "tl (take (Suc m) ?p1) = take m c"
    using len(2) by (cases packet) simp_all
  then have ans: "token_answer (serial t) f (take (Suc m) ?p1) =
      of_nat ReportID_GetLarge # mask_response r (serial t)"
    using unmask_wire_encrypt [OF c pid(3,2)] by (simp add: token_answer_def r_def drop_Suc)
  have "Suc m \<le> length ?p1" "Suc m \<le> 64" using lp len(2) pid(2,3) by linarith+
  moreover have "?p1 ! 0 \<noteq> 0" using id len(2) by (cases packet) simp_all
  ultimately obtain r2 h2 where
    s2: "api_send_feature_report H d ?p1 (Suc m) h1 = Some (r2, h2)" "0 \<le> r2"
    and get: "\<And>buf'. 18 \<le> length buf' \<Longrightarrow> buf' ! 0 = of_nat ReportID_GetLarge \<Longrightarrow>
             \<exists>r3 h3. api_get_feature_report H d buf' 18 h2 =
                 Some (r3, (of_nat ReportID_GetLarge # mask_response r (serial t)) @ drop 18 buf', h3) \<and>
               0 \<le> r3 \<and> Q h3"
    using send [of "Suc m" ?p1] unfolding ans by auto
  obtain result' h3 where "receive_response H d t result off ReportID_GetLarge h2 =
      Some (response_code (hd r), result', h3)" "Q h3"
    "length result' = length result" "take off result' = take off result"
    "take 16 (drop off result') = tl r"
    using receive_response_ok [OF get len(1) _ len(3)] f by (auto simp: r_def)
  then show ?thesis using at pid(1) s2 lp by (simp add: packet_exchange_def)
qed

lemma send_packet_ok:
  assumes ready: "token_ready P H ready f s" and f: "\<And>b. length (f b) = 17"
    and len: "off + 20 \<le> length result" "39 \<le> length packet" and id: "packet ! 0 \<noteq> 0"
    and pid: "rd ReportLength pid = Some (Suc m)" "m = 3 * n + 2" "n \<le> 12"
  defines "r \<equiv> f (take m (tl packet))"
  shows "\<exists>result' packet' s'. send_packet P H result off ReportID_GetLarge packet pid s =
      Some (response_code (hd r), result', packet', s') \<and>
    token_ready P H ready f s' \<and> hid_only s s' \<and> length packet' = length packet \<and>
    length result' = length result \<and> take off result' = take off result \<and>
    take 16 (drop off result') = tl r"
proof -
  from ready obtain i where i: "GET_ACTIVE_TOKEN (past_tk P) (tk s) = Some (int i)" "i < length (tk s)"
    "selected (tk s ! i) \<noteq> 0" "length (serial (tk s ! i)) = 4"
    and srv: "serves H ready (token_answer (serial (tk s ! i)) f)" and rdy: "ready (hid s)"
    by (auto simp: token_ready_def)
  let ?t = "tk s ! i"
  define Q where "Q d h3 \<longleftrightarrow> (\<exists>h4 r5 h5. api_close H (Some d) h3 = Some h4 \<and>
      api_exit H h4 = Some (r5, h5) \<and> ready h5)" for d h3
  obtain d h1 where op: "api_open H VID PID None (hid s) = Some (Some d, h1)"
    and send: "\<And>buf n. 0 < n \<Longrightarrow> n \<le> 64 \<Longrightarrow> n \<le> length buf \<Longrightarrow> buf ! 0 \<noteq> 0 \<Longrightarrow>
         \<exists>r2 h2. api_send_feature_report H d buf n h1 = Some (r2, h2) \<and> 0 \<le> r2 \<and>
           (\<forall>buf'. 18 \<le> length buf' \<longrightarrow> buf' ! 0 = of_nat ReportID_GetLarge \<longrightarrow>
             (\<exists>r3 h3. api_get_feature_report H d buf' 18 h2 =
                 Some (r3, token_answer (serial ?t) f (take n buf) @ drop 18 buf', h3) \<and> 0 \<le> r3 \<and> Q d h3))"
    using srv rdy unfolding serves_def Q_def by metis
  obtain result' packet' h3 where ex: "packet_exchange H d ?t result off ReportID_GetLarge packet pid h1 =
      Some (response_code (hd r), result', packet', h3)" "Q d h3" and lens: "length packet' = length packet"
    "length result' = length result" "take off result' = take off result" "take 16 (drop off result') = tl r"
    using packet_exchange_ok [OF send f len i(4) id pid] unfolding r_def by blast
  obtain h4 r5 h5 where fin: "api_close H (Some d) h3 = Some h4" "api_exit H h4 = Some (r5, h5)" "ready h5"
    using ex(2) by (auto simp: Q_def)
  have "tok_at (tk s) (int i) = Some ?t" using i(2) by (simp add: tok_at_def rd_def)
  then have "send_packet P H result off ReportID_GetLarge packet pid s =
      Some (response_code (hd r), result', packet', s\<lparr>hid := h5\<rparr>)"
    using i op ex(1) fin by (simp add: send_packet_def)
  moreover have "token_ready P H ready f (s\<lparr>hid := h5\<rparr>)"
    using token_ready_hid_only [OF ready hid_only_update] fin(3) by simp
  ultimately show ?thesis using lens by blast
qed

section \<open>A whole key\<close>

lemma report_lengths:
  "rd ReportLength ReportID_GetRSAKEY = Some (Suc 26)" "(26::nat) = 3 * 8 + 2" "(8::nat) \<le> 12"
  "rd ReportLength ReportID_GetDeviceInfo = Some (Suc 2)" "(2::nat) = 3 * 0 + 2" "(0::nat) \<le> 12"
  by (simp_all add: ReportLength_def rd_def const_simps)

lemmas GetRSAKEY_length = report_lengths(1-3)
lemmas GetDeviceInfo_length = report_lengths(4-6)

lemma response_code_128: "response_code 128 = nErr_OK"
  by (simp add: response_code_def)

text \<open>\<open>asks req kt f K\<close>: the requests \<open>req\<close> builds for key type \<open>kt\<close> make \<open>f\<close> answer with the pieces of \<open>K\<close>.\<close>

definition asks ::
    "(nat \<Rightarrow> nat \<Rightarrow> byte list \<Rightarrow> byte list option) \<Rightarrow> nat \<Rightarrow> (byte list \<Rightarrow> byte list) \<Rightarrow> byte list \<Rightarrow> bool" where
  "asks req kt f K \<longleftrightarrow> (\<forall>k p. k < 8 \<longrightarrow> 39 \<le> length p \<longrightarrow>
     (\<exists>p'. req kt k p = Some p' \<and> length p' = length p \<and> p' ! 0 \<noteq> 0 \<and>
       f (take 26 (tl p')) = 128 # take 16 (drop (16 * k) K)))"

text \<open>Eight exchanges, each for 16 bytes of \<open>K\<close>, fill the first 128 bytes of \<open>result\<close>.\<close>

lemma key_chunks_ok:
  assumes f: "\<And>b. length (f b) = 17"
    and req: "asks req kt f K"
    and K: "length K = 128"
    and "token_ready P H ready f s" "132 \<le> length result" "39 \<le> length packet" "j \<le> 8"
    and "take (16 * j) result = take (16 * j) K"
  shows "\<exists>result' packet' s'. key_chunks P H req kt [j..<8] result packet s =
      Some (nErr_OK, result', packet', s') \<and> token_ready P H ready f s' \<and> hid_only s s' \<and>
    length result' = length result \<and> length packet' = length packet \<and> take 128 result' = K"
  using assms(4-8)
proof (induction "8 - j" arbitrary: j result packet s)
  case 0
  then have "j = 8" by simp
  then show ?case using 0 K by simp
next
  case (Suc n)
  then have j: "j < 8" "[j..<8] = j # [Suc j..<8]" by (simp_all add: upt_conv_Cons)
  obtain p1 where p1: "req kt j packet = Some p1" "length p1 = length packet" and p10: "p1 ! 0 \<noteq> 0"
    and fp1: "f (take 26 (tl p1)) = 128 # take 16 (drop (16 * j) K)"
    using req j(1) Suc.prems(3) unfolding asks_def by blast
  have off: "16 * j + 20 \<le> length result" and lp1: "39 \<le> length p1"
    using j(1) Suc.prems(2,3) p1(2) by simp_all
  obtain result1 packet1 s1 where sp:
    "send_packet P H result (16 * j) ReportID_GetLarge p1 ReportID_GetRSAKEY s =
      Some (nErr_OK, result1, packet1, s1)"
    and r1: "token_ready P H ready f s1" "hid_only s s1" "length packet1 = length packet"
      "length result1 = length result" "take (16 * j) result1 = take (16 * j) result"
      "take 16 (drop (16 * j) result1) = take 16 (drop (16 * j) K)"
    using send_packet_ok [OF Suc.prems(1) f off lp1 p10 GetRSAKEY_length,
        unfolded p1(2) fp1 list.sel response_code_128] by blast
  have "take (16 * Suc j) result1 = take (16 * j) result1 @ take 16 (drop (16 * j) result1)"
    by (simp add: take_add [symmetric] add.commute)
  also have "\<dots> = take (16 * Suc j) K"
    using r1(5,6) Suc.prems(5) by (simp add: take_add [symmetric] add.commute)
  finally have t: "take (16 * Suc j) result1 = take (16 * Suc j) K" .
  have "n = 8 - Suc j" using Suc.hyps(2) by simp
  moreover have "132 \<le> length result1" "39 \<le> length packet1" "Suc j \<le> 8"
    using Suc.prems(2,3) r1(3,4) j(1) by simp_all
  note Suc.hyps(1) [OF calculation r1(1) this t, unfolded r1(3,4)]
  then obtain result' packet' s' where
    "key_chunks P H req kt [Suc j..<8] result1 packet1 s1 = Some (nErr_OK, result', packet', s')"
    "token_ready P H ready f s'" "hid_only s1 s'" "length result' = length result"
    "length packet' = length packet" "take 128 result' = K"
    by blast
  then show ?case
    using j(2) p1(1) sp r1(2) hid_only_trans [of s s1 s'] by simp
qed

text \<open>
  The two calls: what they store is the token's modulus and its public or private exponent, under
  the key types the token knows them by.
\<close>

definition good_stack :: "platform \<Rightarrow> bool" where
  "good_stack P \<longleftrightarrow> 4 \<le> stack_pad P"

lemma key_types_ok:
  assumes f: "\<And>b. length (f b) = 17" and ft: "ft \<noteq> KT_Exponent"
    and req: "asks req ft f (K ft)" "asks req KT_Exponent f (K KT_Exponent)"
    and K: "length (K ft) = 128" "length (K KT_Exponent) = 128"
    and st: "token_ready P H ready f s" "132 \<le> length result" "39 \<le> length packet"
    and out: "length out = 128" "length ex = 128"
  shows "\<exists>s'. key_types P H req ft [ft, KT_Exponent] result packet out ex s =
      Some (nErr_OK, K ft, K KT_Exponent, s') \<and> token_ready P H ready f s' \<and> hid_only s s'"
proof -
  from key_chunks_ok [OF f req(1) K(1) st, of 0] obtain result1 packet1 s1 where
    c1: "key_chunks P H req ft [0..<8] result packet s = Some (nErr_OK, result1, packet1, s1)"
    and s1: "token_ready P H ready f s1" "hid_only s s1" "length result1 = length result"
      "length packet1 = length packet" "take 128 result1 = K ft" by auto
  have "132 \<le> length result1" "39 \<le> length packet1" using st s1(3,4) by simp_all
  from key_chunks_ok [OF f req(2) K(2) s1(1) this, of 0]
  obtain result2 packet2 s2 where
    c2: "key_chunks P H req KT_Exponent [0..<8] result1 packet1 s1 = Some (nErr_OK, result2, packet2, s2)"
    and s2: "token_ready P H ready f s2" "hid_only s1 s2" "length result2 = length result1"
      "take 128 result2 = K KT_Exponent" by auto
  have cp: "rd_block result1 0 128 = Some (K ft)" "rd_block result2 0 128 = Some (K KT_Exponent)"
    using s1(3,5) s2(3,4) st(2) by (simp_all add: rd_block_def)
  have wb: "wr_block out 0 (K ft) = Some (K ft)" "wr_block ex 0 (K KT_Exponent) = Some (K KT_Exponent)"
    using out K by (simp_all add: wr_block_def)
  show ?thesis
    using s2(1) hid_only_trans [OF s1(2) s2(2)] c1 c2 cp wb ft by (auto simp: const_simps)
qed

lemma public_request_asks:
  assumes "f = token_model status key" "KT = KT_Public \<or> KT = KT_Exponent"
    and "\<And>pwd. key (of_nat KT) pwd = Inr K" "length K = 128"
  shows "asks public_request KT f K"
  unfolding asks_def
proof (intro allI impI)
  fix k :: nat and p :: "byte list" assume k: "k < 8" "39 \<le> length p"
  let ?p = "p[0 := of_nat ReportID_GetRSAKEY, 1 := OpCode_GetRSAKEY, 18 := of_nat KT, 19 := of_nat k]"
  have pne: "p \<noteq> []" using k(2) by auto
  have r: "public_request KT k p = Some ?p"
    using k(2) pne by (simp add: public_request_def wr_def const_simps)
  have b: "take 26 (tl ?p) ! 0 = OpCode_GetRSAKEY" "take 26 (tl ?p) ! 17 = of_nat KT"
    "take 26 (tl ?p) ! 18 = of_nat k"
    using k(2) pne by (simp_all add: nth_tl)
  have u: "unat (of_nat k :: byte) = k" using k(1) by (simp add: unat_of_nat)
  have "f (take 26 (tl ?p)) = 128 # take 16 (drop (16 * k) K)"
    using assms(3,4) k(1) unfolding assms(1) token_model_def b u by (simp add: const_simps)
  moreover have "?p ! 0 \<noteq> 0" using pne by (simp add: const_simps)
  ultimately show "\<exists>p'. public_request KT k p = Some p' \<and> length p' = length p \<and> p' ! 0 \<noteq> 0 \<and>
      f (take 26 (tl p')) = 128 # take 16 (drop (16 * k) K)" using r k(2) by simp
qed

text \<open>What a request for a private key looks like to the token: the operation, the password, key type and piece.\<close>

lemma private_request_fields:
  assumes "16 \<le> length pwd" "k < 8" "39 \<le> length p"
  shows "\<exists>p'. private_request pwd KT k p = Some p' \<and> length p' = length p \<and> p' ! 0 \<noteq> 0 \<and>
    take 26 (tl p') ! 0 = OpCode_GetRSAKEY \<and> take 26 (tl p') ! 17 = of_nat KT \<and> unat (take 26 (tl p') ! 18) = k \<and>
    take 16 (drop 1 (take 26 (tl p'))) = take 16 pwd"
proof -
  let ?a = "p[0 := of_nat ReportID_GetRSAKEY, 1 := OpCode_GetRSAKEY]"
  let ?b = "take 2 ?a @ take 16 pwd @ drop 18 ?a"
  let ?p = "?b[18 := of_nat KT, 19 := of_nat k]"
  have lb: "length ?b = length p" using assms(1,3) by simp
  have w: "rd_block pwd 0 PWD_LEN = Some (take 16 pwd)"
    using assms(1) by (simp add: rd_block_def const_simps)
  have wb: "wr_block ?a 2 (take 16 pwd) = Some ?b"
    using assms(1,3) by (simp add: wr_block_def)
  have wa: "wr p 0 (of_nat ReportID_GetRSAKEY) = Some (p[0 := of_nat ReportID_GetRSAKEY])"
    "wr (p[0 := of_nat ReportID_GetRSAKEY]) 1 OpCode_GetRSAKEY = Some ?a"
    "wr ?b (2 + PWD_LEN) (of_nat KT) = Some (?b[18 := of_nat KT])"
    "wr (?b[18 := of_nat KT]) (3 + PWD_LEN) (of_nat k) = Some ?p"
    using assms(3) lb by (auto simp: wr_def PWD_LEN_def)
  have r: "private_request pwd KT k p = Some ?p"
    unfolding private_request_def wa bind.bind_lunit w wb ..
  have b: "take 26 (tl ?p) ! 0 = OpCode_GetRSAKEY" "take 26 (tl ?p) ! 17 = of_nat KT"
    "take 26 (tl ?p) ! 18 = of_nat k"
    using assms(1,3) lb by (simp_all add: nth_tl nth_append)
  have pwd_field: "take 16 (drop 1 (take 26 (tl xs))) = drop 2 (take 18 xs)" for xs :: "byte list"
    by (cases xs) (simp_all add: drop_take)
  note pwd_field [of ?p]
  also have "take 18 ?p = take 18 ?b" by (simp add: take_update_swap list_update_beyond)
  also have "drop 2 (take 18 ?b) = take 16 pwd" using assms(1,3) by simp
  finally have b4: "take 16 (drop 1 (take 26 (tl ?p))) = take 16 pwd" .
  have "?p ! 0 \<noteq> 0" using assms(3) by (cases p) (auto simp: nth_append const_simps)
  moreover have "unat (of_nat k :: byte) = k" using assms(2) by (simp add: unat_of_nat)
  ultimately show ?thesis using r b b4 lb by (intro exI [of _ ?p]) simp
qed

lemma private_request_asks:
  assumes "f = token_model status key" "KT = KT_Private \<or> KT = KT_Exponent"
    and "key (of_nat KT) (take 16 pwd) = Inr K" "length K = 128" "16 \<le> length pwd"
  shows "asks (private_request pwd) KT f K"
  unfolding asks_def
proof (intro allI impI)
  fix k :: nat and p :: "byte list" assume k: "k < 8" "39 \<le> length p"
  obtain p' where p': "private_request pwd KT k p = Some p'" "length p' = length p" "p' ! 0 \<noteq> 0"
    and b: "take 26 (tl p') ! 0 = OpCode_GetRSAKEY" "take 26 (tl p') ! 17 = of_nat KT" "unat (take 26 (tl p') ! 18) = k"
      "take 16 (drop 1 (take 26 (tl p'))) = take 16 pwd"
    using private_request_fields [OF assms(5) k] by blast
  have "f (take 26 (tl p')) = 128 # take 16 (drop (16 * k) K)"
    using assms(3,4) k(1) unfolding assms(1) token_model_def b by (simp add: const_simps)
  then show "\<exists>p'. private_request pwd KT k p = Some p' \<and> length p' = length p \<and> p' ! 0 \<noteq> 0 \<and>
      f (take 26 (tl p')) = 128 # take 16 (drop (16 * k) K)" using p' by blast
qed

lemma get_public_key_ok:
  assumes "f = token_model status key" "token_ready P H ready f s" "good_stack P"
    and "\<And>pwd. key (of_nat KT_Public) pwd = Inr E" "\<And>pwd. key (of_nat KT_Exponent) pwd = Inr N"
    and "length E = 128" "length N = 128" "length out = 128" "length ex = 128"
  shows "\<exists>s'. novin_get_public_key P H out ex s = Some (nErr_OK, E, N, s') \<and>
    token_ready P H ready f s' \<and> hid_only (s\<lparr>frames := frames s + 2\<rparr>) s'"
proof -
  let ?s = "s\<lparr>frames := frames s + 2\<rparr>"
  let ?K = "\<lambda>kt. if kt = KT_Public then E else N"
  have ne: "KT_Public \<noteq> KT_Exponent" "KT_Exponent \<noteq> KT_Public" by (simp_all add: const_simps)
  have "[KT_Public..<KT_Exponent + 1] = [KT_Public, KT_Exponent]" by (simp add: const_simps)
  moreover have "token_ready P H ready f ?s" using assms(2) by simp
  moreover have "asks public_request KT_Public f E" "asks public_request KT_Exponent f N"
    using public_request_asks [OF assms(1) _ assms(4,6)] public_request_asks [OF assms(1) _ assms(5,7)]
    by simp_all
  ultimately show ?thesis
    using key_types_ok [of f KT_Public public_request ?K P H ready ?s
        "local_array P 128 (frames s + 1)" "local_array P 128 (frames s)" out ex]
      assms ne by (simp add: novin_get_public_key_def good_stack_def)
qed

lemma get_private_key_ok:
  assumes "f = token_model status key" "token_ready P H ready f s" "good_stack P"
    and "key (of_nat KT_Private) (take 16 pwd) = Inr D" "key (of_nat KT_Exponent) (take 16 pwd) = Inr N"
    and "16 \<le> length pwd"
    and "length D = 128" "length N = 128" "length out = 128" "length ex = 128"
  shows "\<exists>s'. novin_get_private_key P H out ex pwd s = Some (nErr_OK, D, N, s') \<and>
    token_ready P H ready f s' \<and> hid_only (s\<lparr>frames := frames s + 2\<rparr>) s'"
proof -
  let ?s = "s\<lparr>frames := frames s + 2\<rparr>"
  let ?K = "\<lambda>kt. if kt = KT_Private then D else N"
  have ne: "KT_Private \<noteq> KT_Exponent" "KT_Exponent \<noteq> KT_Private" by (simp_all add: const_simps)
  have "[KT_Private, KT_Private + 2] = [KT_Private, KT_Exponent]" by (simp add: const_simps)
  moreover have "token_ready P H ready f ?s" using assms(2) by simp
  moreover have "asks (private_request pwd) KT_Private f D" "asks (private_request pwd) KT_Exponent f N"
    using private_request_asks [OF assms(1) _ assms(4,7,6)] private_request_asks [OF assms(1) _ assms(5,8,6)]
    by simp_all
  ultimately show ?thesis
    using key_types_ok [of f KT_Private "private_request pwd" ?K P H ready ?s
        "local_array P 128 (frames s + 1)" "local_array P 128 (frames s)" out ex]
      assms ne by (simp add: novin_get_private_key_def good_stack_def)
qed

text \<open>
  A token that refuses the password answers the first request with its error code, and nothing is read. The codes 0 and 128 are taken
  for success.
\<close>

lemma get_private_key_refused:
  assumes "f = token_model status key" "token_ready P H ready f s" "good_stack P"
    and "key (of_nat KT_Private) (take 16 pwd) = Inl e" "e \<noteq> 0" "e \<noteq> 128" "16 \<le> length pwd"
  shows "\<exists>s'. novin_get_private_key P H out ex pwd s = Some (uint e, out, ex, s') \<and>
    token_ready P H ready f s' \<and> hid_only (s\<lparr>frames := frames s + 2\<rparr>) s'"
proof -
  let ?s = "s\<lparr>frames := frames s + 2\<rparr>" and ?r = "local_array P 128 (frames s + 1)"
  have f: "\<And>b. length (f b) = 17" by (simp add: assms(1))
  have st: "token_ready P H ready f ?s" using assms(2) by simp
  have len: "0 + 20 \<le> length ?r" "39 \<le> length (local_array P 128 (frames s))" by simp_all
  obtain p where p: "private_request pwd KT_Private 0 (local_array P 128 (frames s)) = Some p"
    "length p = length (local_array P 128 (frames s))" "p ! 0 \<noteq> 0"
    and b: "take 26 (tl p) ! 0 = OpCode_GetRSAKEY" "take 26 (tl p) ! 17 = of_nat KT_Private"
      "take 16 (drop 1 (take 26 (tl p))) = take 16 pwd"
    using private_request_fields [OF assms(7) _ len(2), of 0] by auto
  have ans: "f (take 26 (tl p)) = e # replicate 16 0"
    using assms(4) unfolding assms(1) token_model_def b by (simp add: const_simps)
  have code: "response_code e = - uint e" "- uint e \<noteq> nErr_OK"
    using assms(5,6) by (auto simp: response_code_def const_simps word_uint_eq_iff)
  obtain result' packet' s' where sp: "send_packet P H ?r 0 ReportID_GetLarge p ReportID_GetRSAKEY ?s =
      Some (response_code e, result', packet', s')" "token_ready P H ready f s'" "hid_only ?s s'"
    using send_packet_ok [OF st f len(1) _ p(3) GetRSAKEY_length] len(2) p(2) ans by auto
  have "key_chunks P H (private_request pwd) KT_Private [0..<8] ?r (local_array P 128 (frames s)) ?s =
      Some (uint e, result', packet', s')"
    using p(1) sp(1) code by (simp add: upt_conv_Cons [of 0 8])
  then have "novin_get_private_key P H out ex pwd s = Some (uint e, out, ex, s')"
    using code(2) by (simp add: novin_get_private_key_def const_simps)
  then show ?thesis using sp(2,3) by blast
qed

section \<open>The status word\<close>

lemma get_dev_status_ok:
  assumes "f = token_model (lo, hi) key" "token_ready P H ready f s"
  shows "\<exists>s'. get_dev_status_internal P H s = Some (uint hi * 256 + uint lo, s') \<and>
    token_ready P H ready f s' \<and> hid_only (s\<lparr>frames := frames s + 2\<rparr>) s'"
proof -
  let ?s = "s\<lparr>frames := frames s + 2\<rparr>"
  let ?p = "(local_array P 128 (frames s))[0 := of_nat ReportID_GetDeviceInfo, 1 := OpCode_GetDeviceInfo]"
  let ?r = "replicate 128 0 @ drop 128 (local_array P 128 (frames s + 1))"
  have f: "\<And>b. length (f b) = 17" by (simp add: assms(1))
  have w: "wr (local_array P 128 (frames s)) 0 (of_nat ReportID_GetDeviceInfo) =
      Some ((local_array P 128 (frames s))[0 := of_nat ReportID_GetDeviceInfo])"
    "wr ((local_array P 128 (frames s))[0 := of_nat ReportID_GetDeviceInfo]) 1 OpCode_GetDeviceInfo = Some ?p"
    "wr_block (local_array P 128 (frames s + 1)) 0 (replicate 128 0) = Some ?r"
    by (simp_all only: wr_def wr_block_def length_local_array length_list_update length_replicate)
      simp_all
  have "?p \<noteq> []" "2 \<le> length ?p" by (simp_all flip: length_greater_0_conv)
  then have "take 2 (tl ?p) ! 0 = OpCode_GetDeviceInfo" by (simp add: nth_tl)
  then have ans: "f (take 2 (tl ?p)) = 128 # lo # hi # replicate 14 0"
    by (simp add: assms(1) token_model_def)
  have st: "token_ready P H ready f ?s" and len: "0 + 20 \<le> length ?r" "39 \<le> length ?p"
    using assms(2) by simp_all
  have id: "?p ! 0 \<noteq> 0" by (simp add: const_simps flip: length_greater_0_conv)
  obtain result' packet' s' where
    sp: "send_packet P H ?r 0 ReportID_GetLarge ?p ReportID_GetDeviceInfo ?s =
      Some (nErr_OK, result', packet', s')"
    and s': "token_ready P H ready f s'" "hid_only ?s s'" "length result' = length ?r"
      "take 16 (drop 0 result') = lo # hi # replicate 14 0"
    using send_packet_ok [OF st f len id GetDeviceInfo_length,
        unfolded ans list.sel response_code_128] by blast
  have "take 16 result' ! 1 = hi" "take 16 result' ! 0 = lo" using s'(4) by simp_all
  then have r: "rd result' 1 = Some hi" "rd result' 0 = Some lo"
    using s'(3) by (simp_all add: rd_def)
  show ?thesis
    unfolding get_dev_status_internal_def Let_def w sp bind.bind_lunit prod.case r
    using s'(1,2) by simp
qed

end
