(* ===== verification/NovinLib.thy ===== *)
theory NovinLib
  imports TokenKey
begin

text \<open>
  The public functions of the token library, \<^verbatim>\<open>token-DLL/lib/novinlib.c\<close>: finding and selecting a
  token, its status, RSA encryption, decryption and signatures with the keys the token hands out,
  and the export of a key as PEM text.

  OpenSSL and stdio are not part of the repository: the record \<open>openssl\<close> holds what their calls do,
  the allocating ones indexed by the number of the call (\<open>ssl_calls\<close>), so that each may fail
  independently. Modelled of their effects is what the library relies on: results, bytes written
  to the caller's buffers, the number of BIGNUMs in use, open streams, and the files.
\<close>

section \<open>OpenSSL and stdio\<close>

text \<open>The three fields of the \<open>RSA\<close> structure the library touches; a BIGNUM is its value.\<close>

record rsa_key =
  rsa_n :: "nat option"
  rsa_e :: "nat option"
  rsa_d :: "nat option"

definition empty_rsa :: rsa_key where
  "empty_rsa = \<lparr>rsa_n = None, rsa_e = None, rsa_d = None\<rparr>"

datatype rsa_op = RSA_public_encrypt | RSA_private_encrypt | RSA_public_decrypt | RSA_private_decrypt

record openssl =
  ssl_RSA_new :: "nat \<Rightarrow> bool"
  ssl_BN_new :: "nat \<Rightarrow> bool"
  ssl_BN_bin2bn :: "nat \<Rightarrow> byte list \<Rightarrow> nat option"
  ssl_RSA_crypt :: "rsa_op \<Rightarrow> int \<Rightarrow> byte list \<Rightarrow> rsa_key \<Rightarrow> int \<times> byte list"
  ssl_SHA1 :: "byte list \<Rightarrow> byte list"
  ssl_RSA_sign :: "int \<Rightarrow> byte list \<Rightarrow> rsa_key \<Rightarrow> int \<times> byte list"
  ssl_RSA_verify :: "int \<Rightarrow> byte list \<Rightarrow> byte list \<Rightarrow> rsa_key \<Rightarrow> int"
  ssl_PEM_public :: "rsa_key \<Rightarrow> byte list option"
  ssl_PEM_private :: "rsa_key \<Rightarrow> byte list option"
  io_fopen :: "nat \<Rightarrow> bool"
  io_malloc :: "nat \<Rightarrow> bool"
  io_fread :: "nat \<Rightarrow> nat \<Rightarrow> nat"

text \<open>
  The documented part of the results: \<open>BN_bin2bn\<close> reads a big-endian number, the RSA functions
  return -1 on error and a length otherwise, \<open>SHA1\<close> yields 20 bytes.
\<close>

definition big_endian :: "byte list \<Rightarrow> nat" where
  "big_endian bs = fold (\<lambda>b v. 256 * v + unat b) bs 0"

definition openssl_documented :: "openssl \<Rightarrow> bool" where
  "openssl_documented S \<longleftrightarrow>
     (\<forall>k bs v. ssl_BN_bin2bn S k bs = Some v \<longrightarrow> v = big_endian bs) \<and>
     (\<forall>op flen from key. - 1 \<le> fst (ssl_RSA_crypt S op flen from key)) \<and>
     (\<forall>m. length (ssl_SHA1 S m) = 20)"

text \<open>Nothing OpenSSL or stdio allocates fails.\<close>

definition openssl_succeeds :: "openssl \<Rightarrow> bool" where
  "openssl_succeeds S \<longleftrightarrow>
     (\<forall>k. ssl_RSA_new S k \<and> ssl_BN_new S k \<and> io_fopen S k \<and> io_malloc S k) \<and>
     (\<forall>k bs. ssl_BN_bin2bn S k bs = Some (big_endian bs)) \<and>
     (\<forall>k n. io_fread S k n = n)"

definition tick :: "'h nst \<Rightarrow> 'h nst" where
  "tick s = s\<lparr>ssl_calls := ssl_calls s + 1\<rparr>"

definition RSA_new :: "openssl \<Rightarrow> 'h nst \<Rightarrow> rsa_key option \<times> 'h nst" where
  "RSA_new S s = (if ssl_RSA_new S (ssl_calls s) then Some empty_rsa else None, tick s)"

definition BN_new :: "openssl \<Rightarrow> 'h nst \<Rightarrow> nat option \<times> 'h nst" where
  "BN_new S s =
     (if ssl_BN_new S (ssl_calls s) then (Some 0, tick s\<lparr>bignums := bignums s + 1\<rparr>) else (None, tick s))"

definition BN_bin2bn :: "openssl \<Rightarrow> byte list \<Rightarrow> 'h nst \<Rightarrow> nat option \<times> 'h nst" where
  "BN_bin2bn S bs s =
     (case ssl_BN_bin2bn S (ssl_calls s) bs of
        Some v \<Rightarrow> (Some v, tick s\<lparr>bignums := bignums s + 1\<rparr>)
      | None \<Rightarrow> (None, tick s))"

text \<open>\<open>RSA_free\<close> also frees the BIGNUMs the structure points to when it is called.\<close>

definition RSA_free :: "rsa_key \<Rightarrow> 'h nst \<Rightarrow> 'h nst" where
  "RSA_free rsa s = s\<lparr>bignums :=
     bignums s - some_block (rsa_n rsa) - some_block (rsa_e rsa) - some_block (rsa_d rsa)\<rparr>"

definition set_err :: "int \<Rightarrow> 'h nst \<Rightarrow> 'h nst" where
  "set_err err s = s\<lparr>LAST_ERR_NO := err\<rparr>"

section \<open>Tokens\<close>

definition novin_init :: "'h nst \<Rightarrow> 'h nst" where
  "novin_init s = s"

definition get_err_no :: "'h nst \<Rightarrow> int" where
  "get_err_no s = LAST_ERR_NO s"

text \<open>
  The loop that stores the serials of the enumerated devices: \<open>tk[i++].serial\<close>, with no check that
  \<open>i\<close> stays below 8.
\<close>

fun store_serials ::
    "platform \<Rightarrow> hid_device_info list \<Rightarrow> nat \<Rightarrow> nat \<Rightarrow> token list \<Rightarrow> (token list \<times> nat) option" where
  "store_serials P [] i fr tks = Some (tks, fr)"
| "store_serials P (d # ds) i fr tks = do {
     ser \<leftarrow> cnv_hex_to_decimal_serial (wc_to_mb P) (local_array P 16 fr) (serial_number d);
     t \<leftarrow> rd tks i;
     tks' \<leftarrow> wr tks i (t\<lparr>serial := ser\<rparr>);
     store_serials P ds (i + 1) (Suc fr) tks'
   }"

definition get_first_device :: "platform \<Rightarrow> 'h hidapi \<Rightarrow> 'h nst \<Rightarrow> 'h nst option" where
  "get_first_device P H s = do {
     let s0 = s\<lparr>tk := zero_tk\<rparr>;
     (devs, h) \<leftarrow> api_enumerate H VID PID (hid s0);
     if devs = [] then do {
       h' \<leftarrow> api_free_enumeration H devs h;
       Some (set_err nErr_DNF (s0\<lparr>hid := h'\<rparr>)) }
     else do {
       (tks, fr) \<leftarrow> store_serials P devs 0 (frames s0) (tk s0);
       t \<leftarrow> rd tks 0;
       tks' \<leftarrow> wr tks 0 (t\<lparr>inUse := 1\<rparr>);
       h' \<leftarrow> api_free_enumeration H devs h;
       Some (set_err nErr_OK (s0\<lparr>tk := tks', hid := h', frames := fr\<rparr>)) }
   }"

text \<open>
  The checks the functions below start with: an active token, still connected (\<open>ser\<close> picks the
  serial to look for), and, for some of them, selected. The result is the error code to leave with,
  \<open>nErr_OK\<close> to go on.
\<close>

definition get_curr_dev_serial ::
    "platform \<Rightarrow> 'h hidapi \<Rightarrow> byte list \<Rightarrow> 'h nst \<Rightarrow> (byte list \<times> 'h nst) option" where
  "get_curr_dev_serial P H ser s = do {
     tkNo \<leftarrow> GET_ACTIVE_TOKEN (past_tk P) (tk s);
     if tkNo = - nErr_DNF then Some (ser, set_err nErr_DNF s)
     else do {
       t \<leftarrow> tok_at (tk s) tkNo;
       (c, s1) \<leftarrow> check_dev_connected P H (serial t) s;
       if c = nErr_DNF then Some (ser, set_err nErr_DNF s1)
       else do {
         b \<leftarrow> rd_block (serial t) 0 4;
         ser' \<leftarrow> wr_block ser 0 b;
         Some (ser', set_err nErr_OK s1) } }
   }"

definition select_device :: "platform \<Rightarrow> 'h hidapi \<Rightarrow> byte list \<Rightarrow> 'h nst \<Rightarrow> 'h nst option" where
  "select_device P H ser s = do {
     tkNo \<leftarrow> GET_ACTIVE_TOKEN (past_tk P) (tk s);
     if tkNo = - nErr_DNF then Some (set_err nErr_DNF s)
     else do {
       (c, s1) \<leftarrow> check_dev_connected P H ser s;
       if c = nErr_DNF then Some (set_err nErr_DNF s1)
       else do {
         t \<leftarrow> tok_at (tk s1) tkNo;
         tks \<leftarrow> wr (tk s1) (nat tkNo) (t\<lparr>selected := 1\<rparr>);
         Some (set_err nErr_OK (s1\<lparr>tk := tks\<rparr>)) } }
   }"

definition get_serial ::
    "platform \<Rightarrow> 'h hidapi \<Rightarrow> byte list \<Rightarrow> 'h nst \<Rightarrow> (byte list \<times> 'h nst) option" where
  "get_serial P H ser s = do {
     ser0 \<leftarrow> wr_block ser 0 [0, 0, 0, 0];
     tkNo \<leftarrow> GET_ACTIVE_TOKEN (past_tk P) (tk s);
     if tkNo = - nErr_DNF then Some (ser0, set_err nErr_DNF s)
     else do {
       t \<leftarrow> tok_at (tk s) tkNo;
       (c, s1) \<leftarrow> check_dev_connected P H (serial t) s;
       if c = nErr_DNF then Some (ser0, set_err nErr_DNF s1)
       else do {
         sel \<leftarrow> check_dev_selected (serial t) s1;
         if sel = nErr_DNS then Some (ser0, set_err nErr_DNS s1)
         else do {
           b \<leftarrow> rd_block (serial t) 0 4;
           ser' \<leftarrow> wr_block ser0 0 b;
           Some (ser', set_err nErr_OK s1) } } }
   }"

definition get_device_count :: "'h hidapi \<Rightarrow> 'h nst \<Rightarrow> (int \<times> 'h nst) option" where
  "get_device_count H s = do {
     (devs, h) \<leftarrow> api_enumerate H VID PID (hid s);
     h' \<leftarrow> api_free_enumeration H devs h;
     Some (int (length devs), set_err nErr_OK (s\<lparr>hid := h'\<rparr>))
   }"

text \<open>The order of the tests is the code's: suspended, blocked, disabled.\<close>

definition status_error :: "int \<Rightarrow> int" where
  "status_error stat =
     (if stat < 0 then stat
      else if IS_SUSPEND stat then nErr_CAT
      else if IS_BLOCKED stat then nErr_BLK
      else if IS_DISABLED stat then nErr_DIS
      else nErr_OK)"

definition get_device_status :: "platform \<Rightarrow> 'h hidapi \<Rightarrow> 'h nst \<Rightarrow> (int \<times> 'h nst) option" where
  "get_device_status P H s = do {
     tkNo \<leftarrow> GET_ACTIVE_TOKEN (past_tk P) (tk s);
     if tkNo = - nErr_DNF then Some (nErr_DNF, set_err nErr_DNF s)
     else do {
       t \<leftarrow> tok_at (tk s) tkNo;
       (c, s1) \<leftarrow> check_dev_connected P H (serial t) s;
       if c = nErr_DNF then Some (nErr_DNF, set_err nErr_DNF s1)
       else do {
         sel \<leftarrow> check_dev_selected (serial t) s1;
         if sel = nErr_DNS then Some (nErr_DNS, set_err nErr_DNS s1)
         else do {
           (stat, s2) \<leftarrow> get_dev_status_internal P H s1;
           Some (status_error stat, set_err (status_error stat) s2) } } }
   }"

section \<open>Encryption and decryption\<close>

text \<open>
  Filling the RSA structure from the arrays the key was read into. The code does this in two
  orders: \<open>n\<close> first in the public branch of \<open>rsa_encrypt\<close> and \<open>rsa_decrypt\<close>, \<open>e\<close> first elsewhere.
\<close>

definition fill_n_e :: "openssl \<Rightarrow> byte list \<Rightarrow> byte list \<Rightarrow> 'h nst \<Rightarrow> (rsa_key \<times> 'h nst) option" where
  "fill_n_e S public exponent s = do {
     bn \<leftarrow> rd_block exponent 0 128;
     let (n, s1) = BN_bin2bn S bn s;
     be \<leftarrow> rd_block public 0 128;
     let (e, s2) = BN_bin2bn S be s1;
     Some (\<lparr>rsa_n = n, rsa_e = e, rsa_d = None\<rparr>, s2)
   }"

definition fill_e_n :: "openssl \<Rightarrow> byte list \<Rightarrow> byte list \<Rightarrow> 'h nst \<Rightarrow> (rsa_key \<times> 'h nst) option" where
  "fill_e_n S public exponent s = do {
     be \<leftarrow> rd_block public 0 128;
     let (e, s1) = BN_bin2bn S be s;
     bn \<leftarrow> rd_block exponent 0 128;
     let (n, s2) = BN_bin2bn S bn s1;
     Some (\<lparr>rsa_n = n, rsa_e = e, rsa_d = None\<rparr>, s2)
   }"

definition fill_e_n_d ::
    "openssl \<Rightarrow> byte list \<Rightarrow> byte list \<Rightarrow> byte list \<Rightarrow> 'h nst \<Rightarrow> (rsa_key \<times> 'h nst) option" where
  "fill_e_n_d S public exponent private s = do {
     (rsa, s1) \<leftarrow> fill_e_n S public exponent s;
     bd \<leftarrow> rd_block private 0 128;
     let (d, s2) = BN_bin2bn S bd s1;
     Some (rsa\<lparr>rsa_d := d\<rparr>, s2)
   }"

text \<open>One call of an RSA function: it reads \<open>flen\<close> bytes of \<open>from\<close> and writes its output to \<open>to\<close>.\<close>

definition RSA_call ::
    "openssl \<Rightarrow> rsa_op \<Rightarrow> int \<Rightarrow> byte list \<Rightarrow> byte list \<Rightarrow> rsa_key \<Rightarrow> (int \<times> byte list) option" where
  "RSA_call S op flen from to rsa = do {
     inp \<leftarrow> rd_block from 0 (nat flen);
     let (tlen, out) = ssl_RSA_crypt S op flen inp rsa;
     to' \<leftarrow> wr_block to 0 out;
     Some (tlen, to')
   }"

text \<open>
  The branches of the \<open>switch (key_type)\<close>: the error code, \<open>tlen\<close>, the output buffer and the RSA
  structure that \<open>memfree_out\<close> frees.
\<close>

definition rsa_public_case ::
    "platform \<Rightarrow> 'h hidapi \<Rightarrow> openssl \<Rightarrow> rsa_op \<Rightarrow> int \<Rightarrow> byte list \<Rightarrow> byte list \<Rightarrow> 'h nst \<Rightarrow>
      (int \<times> int \<times> byte list \<times> rsa_key \<times> 'h nst) option" where
  "rsa_public_case P H S op flen from to s = do {
     (err, public, exponent, s1) \<leftarrow>
       novin_get_public_key P H (replicate 256 0) (replicate 256 0) s;
     if err \<noteq> nErr_OK then Some (err, -1, to, empty_rsa, s1)
     else do {
       (rsa, s2) \<leftarrow> fill_n_e S public exponent s1;
       if rsa_n rsa = None \<or> rsa_e rsa = None then Some (nErr_OTE, -1, to, rsa, s2)
       else do {
         (tlen, to') \<leftarrow> RSA_call S op flen from to rsa;
         Some (if tlen = -1 then nErr_INVKT else err, tlen, to', rsa, s2) } }
   }"

definition rsa_private_case ::
    "platform \<Rightarrow> 'h hidapi \<Rightarrow> openssl \<Rightarrow> rsa_op \<Rightarrow> int \<Rightarrow> byte list \<Rightarrow> byte list \<Rightarrow> byte list \<Rightarrow>
      'h nst \<Rightarrow> (int \<times> int \<times> byte list \<times> rsa_key \<times> 'h nst) option" where
  "rsa_private_case P H S op flen from to supwd s = do {
     (err, public, exponent, s1) \<leftarrow>
       novin_get_public_key P H (replicate 256 0) (replicate 256 0) s;
     if err \<noteq> nErr_OK then Some (err, -1, to, empty_rsa, s1)
     else do {
       (err', private, exponent', s2) \<leftarrow>
         novin_get_private_key P H (replicate 256 0) exponent supwd s1;
       if err' \<noteq> nErr_OK then Some (err', -1, to, empty_rsa, s2)
       else do {
         (rsa, s3) \<leftarrow> fill_e_n_d S public exponent' private s2;
         if rsa_n rsa = None \<or> rsa_d rsa = None \<or> rsa_e rsa = None
         then Some (nErr_OTE, -1, to, rsa, s3)
         else do {
           (tlen, to') \<leftarrow> RSA_call S op flen from to rsa;
           Some (if tlen = -1 then nErr_INVKT else err', tlen, to', rsa, s3) } } }
   }"

definition rsa_switch ::
    "platform \<Rightarrow> 'h hidapi \<Rightarrow> openssl \<Rightarrow> rsa_op \<Rightarrow> rsa_op \<Rightarrow> int \<Rightarrow> int \<Rightarrow> byte list \<Rightarrow> byte list \<Rightarrow>
      byte list \<Rightarrow> 'h nst \<Rightarrow> (int \<times> int \<times> byte list \<times> rsa_key \<times> 'h nst) option" where
  "rsa_switch P H S pub_op priv_op key_type flen from to supwd s =
     (if key_type = 1 then rsa_public_case P H S pub_op flen from to s
      else if key_type = 2 then rsa_private_case P H S priv_op flen from to supwd s
      else Some (nErr_INVKT, -1, to, empty_rsa, s))"

text \<open>
  \<open>rsa_encrypt\<close> and \<open>rsa_decrypt\<close> are the same code up to the two OpenSSL functions. The status is
  read twice, by \<open>get_device_status\<close> and for the RSA bit.
\<close>

definition rsa_crypt ::
    "platform \<Rightarrow> 'h hidapi \<Rightarrow> openssl \<Rightarrow> rsa_op \<Rightarrow> rsa_op \<Rightarrow> int \<Rightarrow> int \<Rightarrow> byte list \<Rightarrow> byte list \<Rightarrow>
      byte list \<Rightarrow> 'h nst \<Rightarrow> (int \<times> byte list \<times> 'h nst) option" where
  "rsa_crypt P H S pub_op priv_op key_type flen from to supwd s = do {
     (err, s1) \<leftarrow> get_device_status P H s;
     if err \<noteq> nErr_OK then Some (-1, to, set_err err s1)
     else do {
       (stat, s2) \<leftarrow> get_dev_status_internal P H s1;
       if stat < 0 then Some (-1, to, set_err stat s2)
       else if \<not> RSA1024_ENABLED stat then Some (-1, to, set_err nErr_RSANS s2)
       else (case RSA_new S s2 of
               (None, s3) \<Rightarrow> Some (-1, to, set_err nErr_OTE s3)
             | (Some _, s3) \<Rightarrow> do {
                 (err', tlen, to', rsa, s4) \<leftarrow>
                   rsa_switch P H S pub_op priv_op key_type flen from to supwd s3;
                 Some (tlen, to', set_err err' (RSA_free rsa s4)) }) }
   }"

definition rsa_encrypt ::
    "platform \<Rightarrow> 'h hidapi \<Rightarrow> openssl \<Rightarrow> int \<Rightarrow> int \<Rightarrow> byte list \<Rightarrow> byte list \<Rightarrow> byte list \<Rightarrow> 'h nst \<Rightarrow>
      (int \<times> byte list \<times> 'h nst) option" where
  "rsa_encrypt P H S = rsa_crypt P H S RSA_public_encrypt RSA_private_encrypt"

definition rsa_decrypt ::
    "platform \<Rightarrow> 'h hidapi \<Rightarrow> openssl \<Rightarrow> int \<Rightarrow> int \<Rightarrow> byte list \<Rightarrow> byte list \<Rightarrow> byte list \<Rightarrow> 'h nst \<Rightarrow>
      (int \<times> byte list \<times> 'h nst) option" where
  "rsa_decrypt P H S = rsa_crypt P H S RSA_public_decrypt RSA_private_decrypt"

section \<open>Signatures\<close>

text \<open>
  The three \<open>BN_new\<close> calls of \<open>get_signature\<close>, each with its own exit; the fields are overwritten
  right afterwards.
\<close>

definition new_e_n_d :: "openssl \<Rightarrow> 'h nst \<Rightarrow> bool \<times> rsa_key \<times> 'h nst" where
  "new_e_n_d S s =
     (let (e, s1) = BN_new S s in
      if e = None then (False, empty_rsa, s1)
      else let (n, s2) = BN_new S s1 in
        if n = None then (False, empty_rsa\<lparr>rsa_e := e\<rparr>, s2)
        else let (d, s3) = BN_new S s2 in
          (d \<noteq> None, \<lparr>rsa_n = n, rsa_e = e, rsa_d = d\<rparr>, s3))"

definition get_signature ::
    "platform \<Rightarrow> 'h hidapi \<Rightarrow> openssl \<Rightarrow> int \<Rightarrow> byte list \<Rightarrow> nat \<Rightarrow> byte list \<Rightarrow> int \<Rightarrow> byte list \<Rightarrow>
      'h nst \<Rightarrow> (int \<times> byte list \<times> int \<times> 'h nst) option" where
  "get_signature P H S typ m m_len sigret siglen sUPWD s0 = do {
     let fr = frames s0;
     let s = s0\<lparr>frames := fr + 4\<rparr>;
     let public = local_array P 128 fr;
     let private = local_array P 128 (fr + 1);
     let exponent = local_array P 128 (fr + 2);
     (err, s1) \<leftarrow> get_device_status P H s;
     if err \<noteq> nErr_OK then Some (err, sigret, siglen, set_err err s1)
     else do {
       (err1, public', exponent', s2) \<leftarrow> novin_get_public_key P H public exponent s1;
       if err1 \<noteq> nErr_OK then Some (err1, sigret, siglen, set_err err1 s2)
       else do {
         (err2, private', exponent'', s3) \<leftarrow> novin_get_private_key P H private exponent' sUPWD s2;
         if err2 \<noteq> nErr_OK then Some (err2, sigret, siglen, set_err err2 s3)
         else (case RSA_new S s3 of
             (None, s4) \<Rightarrow> Some (nErr_OTE, sigret, siglen, set_err nErr_OTE s4)
           | (Some _, s4) \<Rightarrow>
               (case new_e_n_d S s4 of
                  (False, rsa, s5) \<Rightarrow>
                    Some (nErr_OTE, sigret, siglen, set_err nErr_OTE (RSA_free rsa s5))
                | (True, rsa0, s5) \<Rightarrow> do {
                    (rsa, s6) \<leftarrow> fill_e_n_d S public' exponent'' private' s5;
                    if rsa_n rsa = None \<or> rsa_d rsa = None \<or> rsa_e rsa = None
                    then Some (nErr_OTE, sigret, siglen, set_err nErr_OTE (RSA_free rsa s6))
                    else do {
                      msg \<leftarrow> rd_block m 0 m_len;
                      let (ok, sig) = ssl_RSA_sign S typ (ssl_SHA1 S msg) rsa;
                      sigret' \<leftarrow> wr_block sigret 0 sig;
                      let err' = (if ok \<noteq> 1 then nErr_OTE else err2);
                      Some (err', sigret', if ok \<noteq> 1 then siglen else int (length sig),
                        set_err err' (RSA_free rsa s6)) } })) } }
   }"

definition verify_signature ::
    "platform \<Rightarrow> 'h hidapi \<Rightarrow> openssl \<Rightarrow> int \<Rightarrow> byte list \<Rightarrow> nat \<Rightarrow> byte list \<Rightarrow> nat \<Rightarrow> 'h nst \<Rightarrow>
      (int \<times> 'h nst) option" where
  "verify_signature P H S typ m m_len sigbuf siglen s0 = do {
     let fr = frames s0;
     let s = s0\<lparr>frames := fr + 3\<rparr>;
     let public = local_array P 128 fr;
     let exponent = local_array P 128 (fr + 1);
     (err, s1) \<leftarrow> get_device_status P H s;
     if err \<noteq> nErr_OK then Some (err, set_err err s1)
     else do {
       (err1, public', exponent', s2) \<leftarrow> novin_get_public_key P H public exponent s1;
       if err1 \<noteq> nErr_OK then Some (err1, set_err err1 s2)
       else (case RSA_new S s2 of
           (None, s3) \<Rightarrow> Some (nErr_OTE, set_err nErr_OTE s3)
         | (Some _, s3) \<Rightarrow> do {
             (rsa, s4) \<leftarrow> fill_e_n S public' exponent' s3;
             if rsa_n rsa = None \<or> rsa_e rsa = None
             then Some (nErr_OTE, set_err nErr_OTE (RSA_free rsa s4))
             else do {
               msg \<leftarrow> rd_block m 0 m_len;
               sig \<leftarrow> rd_block sigbuf 0 siglen;
               let err' = (if ssl_RSA_verify S typ (ssl_SHA1 S msg) sig rsa \<noteq> 1
                           then nErr_INSGN else err1);
               Some (err', set_err err' (RSA_free rsa s4)) } }) }
   }"

section \<open>PEM export\<close>

text \<open>
  The functions return \<open>buff\<close>, which is declared behind the \<open>goto\<close>s: on the early exits it is
  returned without ever having been assigned.
\<close>

datatype cstring = Heap "byte list" | Indeterminate

text \<open>
  Writing the PEM text to \<open>ftmp\<close> and reading it back. A failing \<open>fopen\<close> or \<open>malloc\<close> is not checked,
  the NULL it returns is used. When the PEM routine fails the stream stays open.
\<close>

definition pem_file ::
    "platform \<Rightarrow> openssl \<Rightarrow> string \<Rightarrow> byte list option \<Rightarrow> bool \<Rightarrow> 'h nst \<Rightarrow> (int \<times> cstring \<times> 'h nst) option" where
  "pem_file P S ftmp pem unlink s =
     (if \<not> io_fopen S (ssl_calls s) then None
      else do {
        let s1 = tick s\<lparr>files := (files s)(ftmp \<mapsto> []), streams := streams s + 1\<rparr>;
        case pem of
          None \<Rightarrow> Some (nErr_OTE, Indeterminate, s1)
        | Some text \<Rightarrow> do {
            let s2 = s1\<lparr>files := (files s1)(ftmp \<mapsto> text), streams := streams s1 - 1\<rparr>;
            if \<not> io_fopen S (ssl_calls s2) \<or> \<not> io_malloc S (ssl_calls s2) then None
            else do {
              let fz = length text;
              let got = min fz (io_fread S (ssl_calls s2) fz);
              let buff = take got text @ map (junk P (frames s2)) [got..<fz] @ [0];
              let s3 = tick s2\<lparr>frames := frames s2 + 1\<rparr>;
              let s4 = (if unlink then s3\<lparr>files := (files s3)(ftmp := None)\<rparr> else s3);
              Some (if got \<noteq> fz then nErr_OTE else nErr_OK, Heap buff, s4) } } })"

definition get_public_key ::
    "platform \<Rightarrow> 'h hidapi \<Rightarrow> openssl \<Rightarrow> 'h nst \<Rightarrow> (cstring \<times> 'h nst) option" where
  "get_public_key P H S s = do {
     (err, public, exponent, s1) \<leftarrow>
       novin_get_public_key P H (replicate 256 0) (replicate 256 0) s;
     if err \<noteq> nErr_OK then Some (Indeterminate, set_err err s1)
     else (case RSA_new S s1 of
         (None, s2) \<Rightarrow> Some (Indeterminate, set_err nErr_OTE s2)
       | (Some _, s2) \<Rightarrow> do {
           (rsa, s3) \<leftarrow> fill_e_n S public exponent s2;
           if rsa_n rsa = None \<or> rsa_e rsa = None
           then Some (Indeterminate, set_err nErr_OTE (RSA_free rsa s3))
           else do {
             (err', buff, s4) \<leftarrow> pem_file P S ''/tmp/public.txt'' (ssl_PEM_public S rsa) True s3;
             Some (buff, set_err err' (RSA_free rsa s4)) } })
   }"

text \<open>
  The private export puts the private exponent into \<open>rsa->e\<close>, leaves \<open>rsa->d\<close> unset, and does not
  remove its file (the \<open>remove\<close> is commented out).
\<close>

definition get_private_key ::
    "platform \<Rightarrow> 'h hidapi \<Rightarrow> openssl \<Rightarrow> byte list \<Rightarrow> 'h nst \<Rightarrow> (cstring \<times> 'h nst) option" where
  "get_private_key P H S sUPWD s = do {
     (err, private, exponent, s1) \<leftarrow>
       novin_get_private_key P H (replicate 256 0) (replicate 256 0) sUPWD s;
     if err \<noteq> nErr_OK then Some (Indeterminate, set_err err s1)
     else (case RSA_new S s1 of
         (None, s2) \<Rightarrow> Some (Indeterminate, set_err nErr_OTE s2)
       | (Some _, s2) \<Rightarrow> do {
           (rsa, s3) \<leftarrow> fill_e_n S private exponent s2;
           if rsa_n rsa = None \<or> rsa_e rsa = None
           then Some (Indeterminate, set_err nErr_OTE (RSA_free rsa s3))
           else do {
             (err', buff, s4) \<leftarrow> pem_file P S ''/tmp/private.txt'' (ssl_PEM_private S rsa) False s3;
             Some (buff, set_err err' (RSA_free rsa s4)) } })
   }"

section \<open>Frames\<close>

text \<open>\<open>quiet s s'\<close>: the tokens, the BIGNUMs, the streams and the files are as before.\<close>

definition quiet :: "'h nst \<Rightarrow> 'h nst \<Rightarrow> bool" where
  "quiet s s' \<longleftrightarrow> tk s' = tk s \<and> bignums s' = bignums s \<and> streams s' = streams s \<and> files s' = files s"

lemma quiet_refl [simp, intro]: "quiet s s"
  by (simp add: quiet_def)

lemma quiet_trans [trans]: "quiet a b \<Longrightarrow> quiet b c \<Longrightarrow> quiet a c"
  by (simp add: quiet_def)

lemma hid_only_quiet: "hid_only s s' \<Longrightarrow> quiet s s'"
  by (simp add: quiet_def hid_onlyD)

lemma quiet_updates [simp]:
  "quiet s (set_err e s') = quiet s s'" "quiet s (tick s') = quiet s s'"
  "quiet s (s'\<lparr>frames := k\<rparr>) = quiet s s'" "quiet s (s'\<lparr>hid := h\<rparr>) = quiet s s'"
  "quiet (s\<lparr>frames := k\<rparr>) s' = quiet s s'"
  by (simp_all add: quiet_def set_err_def tick_def)

lemma set_err_simps [simp]:
  "tk (set_err e s) = tk s" "LAST_ERR_NO (set_err e s) = e" "hid (set_err e s) = hid s"
  "frames (set_err e s) = frames s" "ssl_calls (set_err e s) = ssl_calls s"
  "bignums (set_err e s) = bignums s" "streams (set_err e s) = streams s" "files (set_err e s) = files s"
  by (simp_all add: set_err_def)

lemma tick_simps [simp]:
  "tk (tick s) = tk s" "LAST_ERR_NO (tick s) = LAST_ERR_NO s" "hid (tick s) = hid s"
  "frames (tick s) = frames s" "ssl_calls (tick s) = ssl_calls s + 1"
  "bignums (tick s) = bignums s" "streams (tick s) = streams s" "files (tick s) = files s"
  by (simp_all add: tick_def)

lemma RSA_free_simps [simp]:
  "tk (RSA_free r s) = tk s" "LAST_ERR_NO (RSA_free r s) = LAST_ERR_NO s" "hid (RSA_free r s) = hid s"
  "frames (RSA_free r s) = frames s" "ssl_calls (RSA_free r s) = ssl_calls s"
  "bignums (RSA_free r s) = bignums s - some_block (rsa_n r) - some_block (rsa_e r) - some_block (rsa_d r)"
  "streams (RSA_free r s) = streams s" "files (RSA_free r s) = files s"
  by (simp_all add: RSA_free_def)

lemma empty_rsa_simps [simp]: "rsa_n empty_rsa = None" "rsa_e empty_rsa = None" "rsa_d empty_rsa = None"
  by (simp_all add: empty_rsa_def)

text \<open>
  \<open>owns rsa s s'\<close>: \<open>s'\<close> differs from \<open>s\<close>, as far as \<open>quiet\<close> looks, only by the BIGNUMs \<open>rsa\<close>
  points to, so that \<open>RSA_free\<close> restores the balance.
\<close>

definition owns :: "rsa_key \<Rightarrow> 'h nst \<Rightarrow> 'h nst \<Rightarrow> bool" where
  "owns rsa s s' \<longleftrightarrow> quiet s (RSA_free rsa s') \<and> hid s' = hid s"

lemma RSA_new_frame: "RSA_new S s = (r, s') \<Longrightarrow> quiet s s' \<and> hid s' = hid s"
  by (auto simp: RSA_new_def)

lemma BN_bin2bn_simps [simp]:
  "tk (snd (BN_bin2bn S bs s)) = tk s" "streams (snd (BN_bin2bn S bs s)) = streams s"
  "files (snd (BN_bin2bn S bs s)) = files s" "hid (snd (BN_bin2bn S bs s)) = hid s"
  "bignums (snd (BN_bin2bn S bs s)) = bignums s + some_block (fst (BN_bin2bn S bs s))"
  by (cases "ssl_BN_bin2bn S (ssl_calls s) bs"; simp add: BN_bin2bn_def)+

lemma BN_new_simps [simp]:
  "tk (snd (BN_new S s)) = tk s" "streams (snd (BN_new S s)) = streams s"
  "files (snd (BN_new S s)) = files s" "hid (snd (BN_new S s)) = hid s"
  "bignums (snd (BN_new S s)) = bignums s + some_block (fst (BN_new S s))"
  by (simp_all add: BN_new_def)

lemmas owns_defs = owns_def quiet_def Let_def case_prod_beta bind_Some_iff

lemma fill_owns:
  "fill_n_e S public exponent s = Some (rsa, s') \<Longrightarrow> owns rsa s s'"
  "fill_e_n S public exponent s = Some (rsa, s') \<Longrightarrow> owns rsa s s' \<and> rsa_d rsa = None"
  "fill_e_n_d S public exponent private s = Some (rsa, s') \<Longrightarrow> owns rsa s s'"
  by (auto simp: fill_n_e_def fill_e_n_def fill_e_n_d_def owns_defs)

lemma RSA_call_documented:
  assumes "RSA_call S op flen from to rsa = Some (tlen, to')" "openssl_documented S"
  shows "- 1 \<le> tlen"
proof -
  obtain inp where "tlen = fst (ssl_RSA_crypt S op flen inp rsa)"
    using assms(1) by (auto simp: RSA_call_def bind_Some_iff case_prod_beta Let_def)
  then show ?thesis using assms(2) by (simp add: openssl_documented_def)
qed

definition crypt_result ::
    "platform \<Rightarrow> openssl \<Rightarrow> 'h nst \<Rightarrow> int \<Rightarrow> int \<Rightarrow> rsa_key \<Rightarrow> 'h nst \<Rightarrow> bool" where
  "crypt_result P S s err tlen rsa s' \<longleftrightarrow> quiet s (RSA_free rsa s') \<and>
     (openssl_documented S \<longrightarrow> - 1 \<le> tlen \<and> (tlen = - 1 \<longleftrightarrow> err \<noteq> nErr_OK)) \<and>
     (err = nErr_OK \<longrightarrow> 4 \<le> stack_pad P)"

lemma crypt_result_error:
  "quiet s s' \<Longrightarrow> err \<noteq> nErr_OK \<Longrightarrow> crypt_result P S s err (- 1) empty_rsa s'"
  by (simp add: crypt_result_def quiet_def)

lemma crypt_result_owns:
  assumes "quiet s s1" "owns rsa s1 s'" "4 \<le> stack_pad P"
    and "(err = nErr_OTE \<and> tlen = - 1) \<or>
      (RSA_call S op flen from to rsa = Some (tlen, to') \<and>
        err = (if tlen = - 1 then nErr_INVKT else nErr_OK))"
  shows "crypt_result P S s err tlen rsa s'"
proof -
  have "quiet s (RSA_free rsa s')" using assms(1,2) quiet_trans by (auto simp: owns_def)
  then show ?thesis
    using assms(3,4) RSA_call_documented [of S op flen "from" to rsa tlen to']
    by (auto simp: crypt_result_def const_simps split: if_splits)
qed

text \<open>The codes \<open>get_device_status\<close> returns.\<close>

definition status_codes :: "int set" where
  "status_codes = {nErr_OK, nErr_DNF, nErr_DNS, nErr_CAT, nErr_BLK, nErr_DIS}"

lemma status_error_range:
  assumes "0 \<le> stat"
  shows "status_error stat \<in> {nErr_OK, nErr_CAT, nErr_BLK, nErr_DIS}"
  using assms by (simp add: status_error_def)

lemma check_dev_selected_range:
  "check_dev_selected ser s = Some e \<Longrightarrow> e = nErr_OK \<or> e = nErr_DNS"
proof -
  have "scan_selected ser ts = Some e \<Longrightarrow> e = nErr_OK \<or> e = nErr_DNS" for ts
    by (induction ts) (auto simp: bind_Some_iff split: if_splits)
  then show "check_dev_selected ser s = Some e \<Longrightarrow> e = nErr_OK \<or> e = nErr_DNS"
    by (simp add: check_dev_selected_def)
qed

lemma scan_connected_range:
  "scan_connected P ser ds fr = Some (e, fr') \<Longrightarrow> e = nErr_OK \<or> e = nErr_DNF"
  by (induction ds arbitrary: fr) (auto simp: bind_Some_iff split: if_splits)

context hid_backend
begin

lemma check_dev_connected_frame:
  assumes "inv (hid s)" "check_dev_connected P H ser s = Some (e, s')"
  shows "inv (hid s') \<and> held (hid s') = held (hid s) \<and> blocks (hid s') = blocks (hid s) \<and>
    quiet s s' \<and> (e = nErr_OK \<or> e = nErr_DNF)"
proof -
  from assms(2) obtain devs h fr h' where
    en: "api_enumerate H VID PID (hid s) = Some (devs, h)"
    and sc: "scan_connected P ser devs (frames s) = Some (e, fr)"
    and fe: "api_free_enumeration H devs h = Some h'" and s': "s' = s\<lparr>hid := h', frames := fr\<rparr>"
    by (auto simp: check_dev_connected_def bind_Some_iff)
  from enumerate_law [OF assms(1) en] free_law [of h devs h', OF _ fe]
  have "inv h' \<and> held h' = held (hid s) \<and> blocks h' = blocks (hid s)" by simp
  moreover have "quiet s s'" by (simp add: s')
  ultimately show ?thesis using scan_connected_range [OF sc] s' by simp
qed

lemma get_dev_status_internal_frame:
  assumes "inv (hid s)" "get_dev_status_internal P H s = Some (stat, s')"
  shows "inv (hid s') \<and> held (hid s') = held (hid s) \<and> quiet s s' \<and> 0 \<le> stat \<and> stat < 65536"
proof -
  from assms(2) obtain r0 p1 res r' p' s1 where
    sp1: "send_packet P H r0 0 ReportID_GetLarge p1 ReportID_GetDeviceInfo (s\<lparr>frames := frames s + 2\<rparr>)
      = Some (res, r', p', s1)"
    and rest: "(if res \<noteq> nErr_OK then Some (res * -1, s1)
      else do { hi \<leftarrow> rd r' 1; lo \<leftarrow> rd r' 0; Some (uint hi * 256 + uint lo, s1) }) = Some (stat, s')"
    unfolding get_dev_status_internal_def Let_def by (elim bind_SomeE) auto
  have word: "0 \<le> uint hi * 256 + uint lo \<and> uint hi * 256 + uint lo < 65536" for hi lo :: byte
    using byte_int_bounds [of hi] byte_int_bounds [of lo] by linarith
  have s1: "s1 = s'" and st: "stat = - res \<or> 0 \<le> stat \<and> stat < 65536"
    using rest word by (auto simp: bind_Some_iff split: if_splits)
  note sp = sp1 [unfolded s1]
  note f = send_packet_frame [OF _ sp]
  have "0 \<le> stat \<and> stat < 65536"
    using st f assms(1) by (auto simp: reply_ok_def)
  then show ?thesis using f assms(1) hid_only_quiet by force
qed

lemma key_calls_frame:
  "inv (hid s) \<Longrightarrow> novin_get_public_key P H out ex s = Some (res, out', ex', s') \<Longrightarrow>
    inv (hid s') \<and> held (hid s') = held (hid s) \<and> quiet s s' \<and> 0 \<le> res \<and> res \<le> 255 \<and>
    (res = 0 \<longrightarrow> 4 \<le> stack_pad P)"
  "inv (hid s) \<Longrightarrow> novin_get_private_key P H out ex pwd s = Some (res, out', ex', s') \<Longrightarrow>
    inv (hid s') \<and> held (hid s') = held (hid s) \<and> quiet s s' \<and> 0 \<le> res \<and> res \<le> 255 \<and>
    (res = 0 \<longrightarrow> 4 \<le> stack_pad P)"
proof -
  assume i: "inv (hid s)" and g: "novin_get_public_key P H out ex s = Some (res, out', ex', s')"
  note f = key_types_frame [OF _ g [unfolded novin_get_public_key_def Let_def]]
  show "inv (hid s') \<and> held (hid s') = held (hid s) \<and> quiet s s' \<and> 0 \<le> res \<and> res \<le> 255 \<and>
    (res = 0 \<longrightarrow> 4 \<le> stack_pad P)"
    using f i hid_only_quiet [of "s\<lparr>frames := frames s + 2\<rparr>" s'] by (simp add: const_simps)
next
  assume i: "inv (hid s)" and g: "novin_get_private_key P H out ex pwd s = Some (res, out', ex', s')"
  note f = key_types_frame [OF _ g [unfolded novin_get_private_key_def Let_def]]
  show "inv (hid s') \<and> held (hid s') = held (hid s) \<and> quiet s s' \<and> 0 \<le> res \<and> res \<le> 255 \<and>
    (res = 0 \<longrightarrow> 4 \<le> stack_pad P)"
    using f i hid_only_quiet [of "s\<lparr>frames := frames s + 2\<rparr>" s'] by (simp add: const_simps)
qed

text \<open>
  The status call, on every path: its result is what \<open>LAST_ERR_NO\<close> holds afterwards, and one of
  six codes. In particular it is never an I/O error.
\<close>

lemma get_device_status_frame:
  assumes "inv (hid s)" "get_device_status P H s = Some (err, s')"
  shows "inv (hid s') \<and> held (hid s') = held (hid s) \<and> quiet s s' \<and> LAST_ERR_NO s' = err \<and>
    err \<in> status_codes"
proof -
  have codes: "nErr_DNF \<in> status_codes" "nErr_DNS \<in> status_codes" by (simp_all add: status_codes_def)
  consider (none) "err = nErr_DNF" "s' = set_err nErr_DNF s"
    | (gone) ser s1 where "check_dev_connected P H ser s = Some (nErr_DNF, s1)"
        "err = nErr_DNF" "s' = set_err nErr_DNF s1"
    | (unsel) ser c s1 where "check_dev_connected P H ser s = Some (c, s1)"
        "err = nErr_DNS" "s' = set_err nErr_DNS s1"
    | (stat) ser c s1 stat s2 where "check_dev_connected P H ser s = Some (c, s1)"
        "get_dev_status_internal P H s1 = Some (stat, s2)"
        "err = status_error stat" "s' = set_err err s2"
    using assms(2) unfolding get_device_status_def
    by (elim bind_SomeE) (auto split: if_splits elim!: bind_SomeE)
  then show ?thesis
  proof cases
    case none then show ?thesis using assms(1) codes by simp
  next
    case gone then show ?thesis using check_dev_connected_frame [OF assms(1) gone(1)] codes by simp
  next
    case unsel then show ?thesis using check_dev_connected_frame [OF assms(1) unsel(1)] codes by simp
  next
    case stat
    note c = check_dev_connected_frame [OF assms(1) stat(1)]
    then have i: "inv (hid s1)" by simp
    note d = get_dev_status_internal_frame [OF i stat(2)]
    then have "status_error stat \<in> status_codes"
      using status_error_range [of stat] by (auto simp: status_codes_def)
    then show ?thesis using c d stat(3,4) quiet_trans [of s s1 s2] by auto
  qed
qed

text \<open>
  \<open>crypt_result\<close>: what every branch of the switch guarantees. \<open>tlen\<close> is -1 exactly on an error, and
  freeing the RSA structure gives back every BIGNUM the branch took.
\<close>

lemma rsa_public_case_frame:
  assumes "inv (hid s)" "rsa_public_case P H S op flen from to s = Some (err, tlen, to', rsa, s')"
  shows "inv (hid s') \<and> held (hid s') = held (hid s) \<and> crypt_result P S s err tlen rsa s'"
proof -
  from assms(2) obtain e1 a b s1 where
    g: "novin_get_public_key P H (replicate 256 0) (replicate 256 0) s = Some (e1, a, b, s1)"
    unfolding rsa_public_case_def by (elim bind_SomeE) auto
  note f = key_calls_frame(1) [OF assms(1) g]
  show ?thesis
  proof (cases "e1 = nErr_OK")
    case False
    then show ?thesis
      using assms(2) g f by (auto simp: rsa_public_case_def crypt_result_error)
  next
    case True
    then obtain r s2 where fl: "fill_n_e S a b s1 = Some (r, s2)"
      using assms(2) g by (auto simp: rsa_public_case_def elim!: bind_SomeE)
    have "owns rsa s1 s' \<and> ((err = nErr_OTE \<and> tlen = - 1) \<or>
        (RSA_call S op flen from to rsa = Some (tlen, to') \<and>
          err = (if tlen = - 1 then nErr_INVKT else nErr_OK)))"
      using assms(2) g True fl fill_owns(1) [OF fl]
      by (auto simp: rsa_public_case_def bind_Some_iff split: if_splits)
    then show ?thesis using f True crypt_result_owns [of s s1 rsa s'] by (auto simp: owns_def const_simps)
  qed
qed

lemma rsa_private_case_frame:
  assumes "inv (hid s)" "rsa_private_case P H S op flen from to pwd s = Some (err, tlen, to', rsa, s')"
  shows "inv (hid s') \<and> held (hid s') = held (hid s) \<and> crypt_result P S s err tlen rsa s'"
proof -
  from assms(2) obtain e1 a b s1 where
    g: "novin_get_public_key P H (replicate 256 0) (replicate 256 0) s = Some (e1, a, b, s1)"
    unfolding rsa_private_case_def by (elim bind_SomeE) auto
  note f = key_calls_frame(1) [OF assms(1) g]
  show ?thesis
  proof (cases "e1 = nErr_OK")
    case False
    then show ?thesis
      using assms(2) g f by (auto simp: rsa_private_case_def crypt_result_error)
  next
    case True
    then obtain e2 c d s2 where
      g2: "novin_get_private_key P H (replicate 256 0) b pwd s1 = Some (e2, c, d, s2)"
      using assms(2) g by (auto simp: rsa_private_case_def elim!: bind_SomeE)
    have i1: "inv (hid s1)" using f by simp
    note f2 = key_calls_frame(2) [OF i1 g2]
    have q: "quiet s s2" using f f2 quiet_trans by blast
    show ?thesis
    proof (cases "e2 = nErr_OK")
      case False
      then show ?thesis
        using assms(2) g g2 True f f2 q by (auto simp: rsa_private_case_def crypt_result_error)
    next
      case e2: True
      then obtain r s3 where fl: "fill_e_n_d S a d c s2 = Some (r, s3)"
        using assms(2) g g2 True by (auto simp: rsa_private_case_def elim!: bind_SomeE)
      have "owns rsa s2 s' \<and> ((err = nErr_OTE \<and> tlen = - 1) \<or>
          (RSA_call S op flen from to rsa = Some (tlen, to') \<and>
            err = (if tlen = - 1 then nErr_INVKT else nErr_OK)))"
        using assms(2) g g2 True e2 fl fill_owns(3) [OF fl]
        by (auto simp: rsa_private_case_def bind_Some_iff split: if_splits)
      then show ?thesis
        using f f2 e2 q crypt_result_owns [of s s2 rsa s'] by (auto simp: owns_def const_simps)
    qed
  qed
qed

lemma rsa_switch_frame:
  assumes "inv (hid s)"
    and "rsa_switch P H S po qo kt flen from to pwd s = Some (err, tlen, to', rsa, s')"
  shows "inv (hid s') \<and> held (hid s') = held (hid s) \<and> crypt_result P S s err tlen rsa s'"
proof -
  consider "kt = 1" | "kt = 2" | "kt \<noteq> 1" "kt \<noteq> 2" by blast
  then show ?thesis
  proof cases
    case 1
    then have "rsa_public_case P H S po flen from to s = Some (err, tlen, to', rsa, s')"
      using assms(2) by (simp add: rsa_switch_def)
    then show ?thesis by (rule rsa_public_case_frame [OF assms(1)])
  next
    case 2
    then have "rsa_private_case P H S qo flen from to pwd s = Some (err, tlen, to', rsa, s')"
      using assms(2) by (simp add: rsa_switch_def)
    then show ?thesis by (rule rsa_private_case_frame [OF assms(1)])
  next
    case 3
    then show ?thesis
      using assms crypt_result_error [of s s nErr_INVKT P S] by (auto simp: rsa_switch_def const_simps)
  qed
qed

end

end
