(* ===== verification/LibFrames.thy ===== *)
theory LibFrames
  imports NovinLib
begin

text \<open>
  What each public function of \<^verbatim>\<open>novinlib.c\<close> leaves as it found it, over any HIDAPI implementation
  that keeps the contract: the open devices, the tokens, BIGNUMs, streams and files, with the leaks
  of \<open>get_signature\<close> and of the PEM export counted exactly; and which error code is recorded.
\<close>

text \<open>
  \<open>kept I L s s'\<close>: the HIDAPI layer is in order with the same devices open as in \<open>s\<close>, and
  nothing of the rest that \<open>quiet\<close> looks at has changed.
\<close>

definition kept :: "('h \<Rightarrow> bool) \<Rightarrow> ('h \<Rightarrow> 'r) \<Rightarrow> 'h nst \<Rightarrow> 'h nst \<Rightarrow> bool" where
  "kept I L s s' \<longleftrightarrow> I (hid s') \<and> L (hid s') = L (hid s) \<and> quiet s s'"

lemma kept_refl [simp]: "kept I L s s = I (hid s)"
  by (simp add: kept_def)

lemma kept_updates [simp]:
  "kept I L s (set_err e s') = kept I L s s'" "kept I L s (tick s') = kept I L s s'"
  "kept I L s (s'\<lparr>frames := k\<rparr>) = kept I L s s'"
  by (simp_all add: kept_def)

lemma kept_RSA_free_empty [simp]: "kept I L s (RSA_free empty_rsa s') = kept I L s s'"
  by (simp add: kept_def quiet_def)

lemma kept_trans: "kept I L a b \<Longrightarrow> kept I L b c \<Longrightarrow> kept I L a c"
  by (auto simp: kept_def intro: quiet_trans)

lemma kept_owns: "kept I L a b \<Longrightarrow> owns rsa b c \<Longrightarrow> kept I L a (RSA_free rsa c)"
  by (auto simp: kept_def owns_def intro: quiet_trans)

lemma error_codes_neq [simp]:
  "nErr_RSANS \<noteq> nErr_OK" "nErr_OTE \<noteq> nErr_OK" "nErr_INVKT \<noteq> nErr_OK" "nErr_INSGN \<noteq> nErr_OK"
  by (simp_all add: const_simps)

lemma RSA_new_eq: "RSA_new S s = (if ssl_RSA_new S (ssl_calls s) then Some empty_rsa else None, tick s)"
  by (simp add: RSA_new_def)

lemma kept_intros [post_intros]:
  "kept I L s s' \<Longrightarrow> kept I L s (tick s')" "kept I L s s' \<Longrightarrow> kept I L s (set_err e s')"
  "kept I L s s' \<Longrightarrow> kept I L s (s'\<lparr>frames := k\<rparr>)"
  by simp_all

lemma post_fill_any:
  assumes "\<And>rsa s'. m = Some (rsa, s') \<Longrightarrow> owns rsa s s'" "kept I L s0 s"
    and "\<And>rsa s'. kept I L s0 (RSA_free rsa s') \<Longrightarrow> post Q (f (rsa, s'))"
  shows "post Q (Option.bind m f)"
proof (rule post_bindI)
  show "post (\<lambda>(rsa, s'). kept I L s0 (RSA_free rsa s')) m"
    using assms(1,2) kept_owns by (fastforce simp: post_def)
qed (use assms(3) in auto)

text \<open>\<open>lost k s\<close> is \<open>s\<close> with \<open>k\<close> BIGNUMs struck off: \<open>kept I L a (lost k b)\<close> says that \<open>k\<close> leaked.\<close>

definition lost :: "int \<Rightarrow> 'h nst \<Rightarrow> 'h nst" where
  "lost k s = s\<lparr>bignums := bignums s - k\<rparr>"

lemma kept_lost_simps [simp]:
  "kept I L s (lost k (set_err e s')) = kept I L s (lost k s')"
  by (simp add: kept_def quiet_def lost_def)

lemma lost_owns: "kept I L a (lost k b) \<Longrightarrow> owns rsa b c \<Longrightarrow> kept I L a (lost k (RSA_free rsa c))"
  by (auto simp: kept_def owns_def quiet_def lost_def)

lemma new_e_n_d_frame:
  assumes "new_e_n_d S s = (ok, rsa, s')"
  shows "owns rsa s s' \<and> (ok \<longrightarrow> RSA_free rsa s' = lost 3 s')"
  using assms
  by (auto simp: new_e_n_d_def BN_new_def owns_def quiet_def empty_rsa_def RSA_free_def lost_def
      split: if_splits)

text \<open>
  The PEM export also touches the files and the streams: \<open>filed a b\<close> is \<open>b\<close> with those of \<open>a\<close>, and
  \<open>pem_outcome\<close> says what becomes of them. Without a PEM text the stream stays open and an empty
  file is left; with one, the file is removed or stays, according to \<open>unlink\<close>.
\<close>

definition filed :: "'h nst \<Rightarrow> 'h nst \<Rightarrow> 'h nst" where
  "filed a b = b\<lparr>files := files a, streams := streams a\<rparr>"

lemma kept_filed [simp]: "kept I L a (filed a (set_err e b)) = kept I L a (filed a b)"
  by (simp add: kept_def quiet_def filed_def)

lemma kept_filedI: "kept I L a b \<Longrightarrow> kept I L a (filed a b)"
  by (simp add: kept_def quiet_def filed_def)

definition pem_outcome ::
    "string \<Rightarrow> byte list option \<Rightarrow> bool \<Rightarrow> 'h nst \<Rightarrow> int \<Rightarrow> cstring \<Rightarrow> 'h nst \<Rightarrow> bool" where
  "pem_outcome name pem unlink s err buff s' \<longleftrightarrow>
     (case pem of
        None \<Rightarrow> err = nErr_OTE \<and> buff = Indeterminate \<and> files s' = (files s)(name \<mapsto> []) \<and>
          streams s' = streams s + 1
      | Some text \<Rightarrow> files s' = (files s)(name := if unlink then None else Some text) \<and>
          streams s' = streams s \<and>
          (err = nErr_OK \<and> buff = Heap (text @ [0]) \<or> err = nErr_OTE \<and> (\<exists>b. buff = Heap b)))"

lemma pem_file_None:
  "pem_file P S name None unlink s = Some (err, buff, s') \<Longrightarrow>
    err = nErr_OTE \<and> buff = Indeterminate \<and>
    s' = tick s\<lparr>files := (files s)(name \<mapsto> []), streams := streams s + 1\<rparr>"
  by (auto simp: pem_file_def Let_def split: if_splits)

lemma pem_file_Some:
  "pem_file P S name (Some text) unlink s = Some (err, buff, s') \<Longrightarrow>
    files s' = (files s)(name := if unlink then None else Some text) \<and> streams s' = streams s \<and>
    tk s' = tk s \<and> bignums s' = bignums s \<and> hid s' = hid s \<and>
    (err = nErr_OK \<and> buff = Heap (text @ [0]) \<or> err = nErr_OTE \<and> (\<exists>b. buff = Heap b))"
  by (cases unlink) (auto simp: pem_file_def Let_def min_def split: if_splits)

lemma pem_file_frame:
  assumes "kept I L s0 (RSA_free rsa s)" "pem_file P S name pem unlink s = Some (err, buff, s')"
  shows "kept I L s0 (filed s0 (RSA_free rsa s')) \<and> pem_outcome name pem unlink s0 err buff (RSA_free rsa s')"
proof (cases pem)
  case None
  then show ?thesis
    using pem_file_None [OF assms(2) [unfolded None]] assms(1)
    by (simp add: kept_def quiet_def filed_def pem_outcome_def)
next
  case (Some t)
  show ?thesis
    using pem_file_Some [OF assms(2) [unfolded Some]] assms(1)
    by (simp add: Some kept_def quiet_def filed_def pem_outcome_def)
qed

text \<open>
  \<open>hid_call\<close> is the contract with one state \<open>s0\<close> singled out, the one a call of the library starts in.
\<close>

locale hid_call = hid_backend H inv held over blocks
  for H :: "'h hidapi" and inv :: "'h \<Rightarrow> bool" and held :: "'h \<Rightarrow> 'r" and over :: "'h \<Rightarrow> nat \<Rightarrow> 'r \<Rightarrow> bool"
    and blocks :: "'h \<Rightarrow> int" +
  fixes s0 :: "'h nst"

context hid_call
begin

lemma post_fill [post_intros]:
  assumes "kept inv held s0 s" "\<And>rsa s'. kept inv held s0 (RSA_free rsa s') \<Longrightarrow> post Q (f (rsa, s'))"
  shows "post Q (Option.bind (fill_n_e S public exponent s) f)"
    and "post Q (Option.bind (fill_e_n S public exponent s) f)"
    and "post Q (Option.bind (fill_e_n_d S public exponent private s) f)"
  using assms by (blast intro: post_fill_any dest: fill_owns)+

lemma post_status [post_intros]:
  assumes "kept inv held s0 s"
    and "\<And>err s'. kept inv held s0 s' \<Longrightarrow> LAST_ERR_NO s' = err \<Longrightarrow>
        err \<in> status_codes \<Longrightarrow> post Q (f (err, s'))"
  shows "post Q (Option.bind (get_device_status P H s) f)"
proof (rule post_bindI)
  show "post (\<lambda>(err, s'). kept inv held s0 s' \<and> LAST_ERR_NO s' = err \<and>
      err \<in> status_codes) (get_device_status P H s)"
    using assms(1) get_device_status_frame [of s] quiet_trans
    by (fastforce simp: post_def kept_def)
qed (use assms(2) in auto)

lemma post_internal [post_intros]:
  assumes "kept inv held s0 s"
    and "\<And>stat s'. kept inv held s0 s' \<Longrightarrow> 0 \<le> stat \<Longrightarrow> stat < 65536 \<Longrightarrow> post Q (f (stat, s'))"
  shows "post Q (Option.bind (get_dev_status_internal P H s) f)"
proof (rule post_bindI)
  show "post (\<lambda>(stat, s'). kept inv held s0 s' \<and> 0 \<le> stat \<and> stat < 65536) (get_dev_status_internal P H s)"
    using assms(1) get_dev_status_internal_frame [of s] quiet_trans
    by (fastforce simp: post_def kept_def)
qed (use assms(2) in auto)

lemma post_public_key [post_intros]:
  assumes "kept inv held s0 s"
    and "\<And>err a b s'. kept inv held s0 s' \<Longrightarrow> 0 \<le> err \<Longrightarrow> err \<le> 255 \<Longrightarrow>
        err = nErr_OK \<longrightarrow> 4 \<le> stack_pad P \<Longrightarrow> post Q (f (err, a, b, s'))"
  shows "post Q (Option.bind (novin_get_public_key P H out ex s) f)"
proof (rule post_bindI)
  show "post (\<lambda>(err, a, b, s'). kept inv held s0 s' \<and> 0 \<le> err \<and> err \<le> 255 \<and>
      (err = nErr_OK \<longrightarrow> 4 \<le> stack_pad P)) (novin_get_public_key P H out ex s)"
    using assms(1) key_calls_frame(1) [of s P out ex] quiet_trans
    by (fastforce simp: post_def kept_def const_simps)
qed (use assms(2) in auto)

lemma post_private_key [post_intros]:
  assumes "kept inv held s0 s"
    and "\<And>err a b s'. kept inv held s0 s' \<Longrightarrow> 0 \<le> err \<Longrightarrow> err \<le> 255 \<Longrightarrow>
        err = nErr_OK \<longrightarrow> 4 \<le> stack_pad P \<Longrightarrow> post Q (f (err, a, b, s'))"
  shows "post Q (Option.bind (novin_get_private_key P H out ex pwd s) f)"
proof (rule post_bindI)
  show "post (\<lambda>(err, a, b, s'). kept inv held s0 s' \<and> 0 \<le> err \<and> err \<le> 255 \<and>
      (err = nErr_OK \<longrightarrow> 4 \<le> stack_pad P)) (novin_get_private_key P H out ex pwd s)"
    using assms(1) key_calls_frame(2) [of s P out ex pwd] quiet_trans
    by (fastforce simp: post_def kept_def const_simps)
qed (use assms(2) in auto)

lemma post_connected [post_intros]:
  assumes "kept inv held s0 s"
    and "\<And>c s'. kept inv held s0 s' \<Longrightarrow> tk s' = tk s \<Longrightarrow> blocks (hid s') = blocks (hid s) \<Longrightarrow>
        c = nErr_OK \<or> c = nErr_DNF \<Longrightarrow> post Q (f (c, s'))"
  shows "post Q (Option.bind (check_dev_connected P H ser s) f)"
proof (rule post_bindI)
  show "post (\<lambda>(c, s'). kept inv held s0 s' \<and> tk s' = tk s \<and> blocks (hid s') = blocks (hid s) \<and>
      (c = nErr_OK \<or> c = nErr_DNF)) (check_dev_connected P H ser s)"
    using assms(1) check_dev_connected_frame [of s] quiet_trans
    by (fastforce simp: post_def kept_def quiet_def)
qed (use assms(2) in auto)

lemma post_switch [post_intros]:
  assumes "kept inv held s0 s"
    and "\<And>err tlen to' rsa s'. kept inv held s0 (RSA_free rsa s') \<Longrightarrow>
        openssl_documented S \<longrightarrow> - 1 \<le> tlen \<and> (tlen = - 1 \<longleftrightarrow> err \<noteq> nErr_OK) \<Longrightarrow>
        err = nErr_OK \<longrightarrow> 4 \<le> stack_pad P \<Longrightarrow> post Q (f (err, tlen, to', rsa, s'))"
  shows "post Q (Option.bind (rsa_switch P H S po qo kt flen from to pwd s) f)"
proof (rule post_bindI)
  show "post (\<lambda>(err, tlen, to', rsa, s'). kept inv held s0 (RSA_free rsa s') \<and>
      (openssl_documented S \<longrightarrow> - 1 \<le> tlen \<and> (tlen = - 1 \<longleftrightarrow> err \<noteq> nErr_OK)) \<and>
      (err = nErr_OK \<longrightarrow> 4 \<le> stack_pad P)) (rsa_switch P H S po qo kt flen from to pwd s)"
    using assms(1) rsa_switch_frame [of s P S po qo kt flen "from" to pwd] quiet_trans
    by (fastforce simp: post_def kept_def crypt_result_def)
qed (use assms(2) in auto)

text \<open>\<open>verify_signature\<close> keeps everything and records the code it returns.\<close>

lemma verify_signature_frame:
  assumes "kept inv held s0 s"
  shows "post (\<lambda>(err, s'). kept inv held s0 s' \<and> LAST_ERR_NO s' = err)
    (verify_signature P H S typ m m_len sig siglen s)"
  unfolding verify_signature_def Let_def RSA_new_eq
  using assms by (auto intro!: post_intros split: if_splits)

text \<open>
  \<open>rsa_encrypt\<close> and \<open>rsa_decrypt\<close> too, on every path; they return -1 exactly when they record an
  error, and succeed only where the stack behind \<open>result\<close> is addressable.
\<close>

lemma rsa_crypt_frame:
  assumes "kept inv held s0 s"
  shows "post (\<lambda>(tlen, to', s'). kept inv held s0 s' \<and>
      (openssl_documented S \<longrightarrow> - 1 \<le> tlen \<and> (tlen = - 1 \<longleftrightarrow> LAST_ERR_NO s' \<noteq> nErr_OK)) \<and>
      (LAST_ERR_NO s' = nErr_OK \<longrightarrow> 4 \<le> stack_pad P))
    (rsa_crypt P H S po qo kt flen from to pwd s)"
  unfolding rsa_crypt_def RSA_new_eq
  using assms by (auto intro!: post_intros split: if_splits)

text \<open>
  \<open>get_signature\<close> allocates three BIGNUMs with \<open>BN_new\<close> and overwrites the pointers: a call that
  succeeds has lost exactly three, a call that fails before that none, one that fails in
  \<open>BN_bin2bn\<close> or \<open>RSA_sign\<close> three as well.
\<close>

lemma post_new_e_n_d:
  assumes "kept inv held s0 s" "\<And>rsa s'. kept inv held s0 (RSA_free rsa s') \<Longrightarrow> post Q (f rsa s')"
    and "\<And>rsa s'. kept inv held s0 (lost 3 s') \<Longrightarrow> post Q (g rsa s')"
  shows "post Q (case new_e_n_d S s of (False, rsa, s') \<Rightarrow> f rsa s' | (True, rsa, s') \<Rightarrow> g rsa s')"
  using new_e_n_d_frame [of S s] assms kept_owns [OF assms(1)]
  by (cases "new_e_n_d S s") (fastforce split: bool.splits)

lemma post_fill_lost:
  assumes "kept inv held s0 (lost k s)"
    and "\<And>rsa s'. kept inv held s0 (lost k (RSA_free rsa s')) \<Longrightarrow> post Q (f (rsa, s'))"
  shows "post Q (Option.bind (fill_e_n_d S public exponent private s) f)"
proof (rule post_bindI)
  show "post (\<lambda>(rsa, s'). kept inv held s0 (lost k (RSA_free rsa s'))) (fill_e_n_d S public exponent private s)"
    using assms(1) lost_owns fill_owns(3) by (fastforce simp: post_def)
qed (use assms(2) in auto)

lemma post_sign:
  "(\<And>ok sig. post Q (f ok sig)) \<Longrightarrow> post Q (case ssl_RSA_sign S typ d rsa of (ok, sig) \<Rightarrow> f ok sig)"
  by (simp split: prod.splits)

lemma get_signature_frame:
  assumes "kept inv held s0 s"
  shows "post (\<lambda>(err, sigret', siglen', s'). LAST_ERR_NO s' = err \<and>
      (kept inv held s0 s' \<and> err \<noteq> nErr_OK \<or> kept inv held s0 (lost 3 s')))
    (get_signature P H S typ m m_len sigret siglen pwd s)"
  unfolding get_signature_def Let_def RSA_new_eq
  using assms by (auto intro!: post_status post_public_key post_private_key post_buf
      post_new_e_n_d post_fill_lost [where k = 3] kept_intros
      post_sign split: if_splits)

lemma post_fill_e_n:
  assumes "kept inv held s0 s"
    and "\<And>rsa s'. kept inv held s0 (RSA_free rsa s') \<Longrightarrow> rsa_d rsa = None \<Longrightarrow> post Q (f (rsa, s'))"
  shows "post Q (Option.bind (fill_e_n S public exponent s) f)"
proof (rule post_bindI)
  show "post (\<lambda>(rsa, s'). kept inv held s0 (RSA_free rsa s') \<and> rsa_d rsa = None) (fill_e_n S public exponent s)"
    using assms(1) kept_owns fill_owns(2) by (fastforce simp: post_def)
qed (use assms(2) in auto)

lemma post_pem:
  assumes "kept inv held s0 (RSA_free rsa s)"
    and "\<And>err buff s'. kept inv held s0 (filed s0 (RSA_free rsa s')) \<Longrightarrow>
        pem_outcome name pem unlink s0 err buff (RSA_free rsa s') \<Longrightarrow> post Q (f (err, buff, s'))"
  shows "post Q (Option.bind (pem_file P S name pem unlink s) f)"
proof (rule post_bindI)
  show "post (\<lambda>(err, buff, s'). kept inv held s0 (filed s0 (RSA_free rsa s')) \<and>
      pem_outcome name pem unlink s0 err buff (RSA_free rsa s')) (pem_file P S name pem unlink s)"
    using pem_file_frame [OF assms(1)] by (fastforce simp: post_def)
qed (use assms(2) in auto)

end

text \<open>
  \<open>exported name enc unlink s s' buff\<close>: the call either ended before the file was opened, with an
  error and an indeterminate result, or had the outcome of the PEM file for some modulus and exponent.
\<close>

definition exported ::
    "string \<Rightarrow> (rsa_key \<Rightarrow> byte list option) \<Rightarrow> bool \<Rightarrow> 'h nst \<Rightarrow> cstring \<Rightarrow> 'h nst \<Rightarrow> bool" where
  "exported name enc unlink s buff s' \<longleftrightarrow>
     (LAST_ERR_NO s' \<noteq> nErr_OK \<and> buff = Indeterminate \<and> files s' = files s \<and> streams s' = streams s) \<or>
     (\<exists>n e. pem_outcome name (enc \<lparr>rsa_n = Some n, rsa_e = Some e, rsa_d = None\<rparr>) unlink s
        (LAST_ERR_NO s') buff s')"

lemma exported_early:
  "kept I L s s' \<Longrightarrow> err \<noteq> nErr_OK \<Longrightarrow> exported name enc unlink s Indeterminate (set_err err s')"
  by (simp add: exported_def kept_def quiet_def)

lemma exported_late:
  assumes "pem_outcome name (enc rsa) unlink s err buff s'"
    and "rsa_d rsa = None" "rsa_n rsa \<noteq> None" "rsa_e rsa \<noteq> None"
  shows "exported name enc unlink s buff (set_err err s')"
proof -
  obtain n e where "rsa = \<lparr>rsa_n = Some n, rsa_e = Some e, rsa_d = None\<rparr>"
    using assms(2-4) by (cases rsa) auto
  moreover have "pem_outcome name p unlink s err b (set_err err s') = pem_outcome name p unlink s err b s'"
    for p b by (simp add: pem_outcome_def split: option.splits)
  ultimately show ?thesis using assms(1) by (auto simp: exported_def)
qed

context hid_call
begin

lemma get_public_key_frame:
  assumes "kept inv held s0 s"
  shows "post (\<lambda>(buff, s'). kept inv held s0 (filed s0 s') \<and>
      exported ''/tmp/public.txt'' (ssl_PEM_public S) True s0 buff s') (get_public_key P H S s)"
  unfolding get_public_key_def Let_def RSA_new_eq
  using assms by (auto intro!: post_public_key post_fill_e_n post_pem kept_intros split: if_splits)
    (assumption | rule kept_filedI exported_early exported_late | simp)+

lemma get_private_key_frame:
  assumes "kept inv held s0 s"
  shows "post (\<lambda>(buff, s'). kept inv held s0 (filed s0 s') \<and>
      exported ''/tmp/private.txt'' (ssl_PEM_private S) False s0 buff s') (get_private_key P H S pwd s)"
  unfolding get_private_key_def Let_def RSA_new_eq
  using assms by (auto intro!: post_private_key post_fill_e_n post_pem kept_intros split: if_splits)
    (assumption | rule kept_filedI exported_early exported_late | simp)+

end

end
