(* ===== verification/LibSession.thy ===== *)
theory LibSession
  imports LibFrames
begin

text \<open>
  A session with the token library: the functions that find, activate and select a token, and the
  state machine a client drives by calling the public functions in any order. The invariant is
  about the table \<open>tk\<close>: at most its first entry is ever active, only an active entry is selected.
\<close>

definition session_ok :: "token list \<Rightarrow> bool" where
  "session_ok tks \<longleftrightarrow> tk_ok tks \<and> list_all (\<lambda>t. inUse t = 0 \<and> selected t = 0) (tl tks) \<and>
     (selected (tks ! 0) \<noteq> 0 \<longrightarrow> inUse (tks ! 0) \<noteq> 0)"

lemma session_ok_zero: "session_ok zero_tk"
  by (simp add: session_ok_def zero_tk_ok) (simp add: zero_tk_def zero_token_def const_simps list_all_iff)

lemma session_ok_rest:
  assumes "session_ok tks" "0 < i" "i < 8"
  shows "inUse (tks ! i) = 0" "selected (tks ! i) = 0"
proof -
  have "length tks = 8" using assms(1) by (simp add: session_ok_def tk_ok_length)
  then have "tl tks ! (i - 1) = tks ! i" "i - 1 < length (tl tks)" using assms(2,3) by (simp_all add: nth_tl)
  then show "inUse (tks ! i) = 0" "selected (tks ! i) = 0"
    using assms(1) by (auto simp: session_ok_def list_all_length)
qed

lemma session_ok_select:
  assumes "session_ok tks" "i < 8" "inUse (tks ! i) \<noteq> 0"
  shows "session_ok (tks[i := (tks ! i)\<lparr>selected := 1\<rparr>])"
proof -
  have i: "i = 0" using session_ok_rest(1) [OF assms(1) _ assms(2)] assms(3) by (cases i) auto
  have len: "length tks = 8" using assms(1) by (simp add: session_ok_def tk_ok_length)
  then have "tl (tks[0 := t]) = tl tks" for t by (cases tks) simp_all
  moreover have "tk_ok (tks[0 := (tks ! 0)\<lparr>selected := 1\<rparr>])"
    using assms(1) len
    by (auto simp: session_ok_def tk_ok_def const_simps list_all_length upd_nth)
  ultimately show ?thesis
    using assms len by (simp add: i session_ok_def)
qed

lemma cnv_length: "cnv_hex_to_decimal_serial cv ser src = Some bs \<Longrightarrow> length bs = 4"
  by (cases src) (auto simp: cnv_hex_to_decimal_serial_def bind_Some_iff)

lemma list_all_update: "list_all p xs \<Longrightarrow> p x \<Longrightarrow> list_all p (xs[i := x])"
  by (auto simp: list_all_length upd_nth)

text \<open>Storing serials leaves the flags alone, and needs an entry per device.\<close>

definition same_flags :: "token list \<Rightarrow> token list \<Rightarrow> bool" where
  "same_flags a b \<longleftrightarrow> map inUse a = map inUse b \<and> map selected a = map selected b"

lemma same_flagsD:
  assumes "same_flags a b"
  shows "length a = length b" "i < length a \<Longrightarrow> inUse (a ! i) = inUse (b ! i) \<and> selected (a ! i) = selected (b ! i)"
proof -
  show len: "length a = length b" using assms unfolding same_flags_def by (metis length_map)
  assume "i < length a"
  then show "inUse (a ! i) = inUse (b ! i) \<and> selected (a ! i) = selected (b ! i)"
    using assms len unfolding same_flags_def by (metis nth_map)
qed

lemma store_serials_frame:
  assumes "store_serials P ds i fr tks = Some (tks', fr')"
  shows "same_flags tks' tks \<and>
    (list_all (\<lambda>t. length (serial t) = 4) tks \<longrightarrow> list_all (\<lambda>t. length (serial t) = 4) tks') \<and>
    (ds \<noteq> [] \<longrightarrow> i + length ds \<le> length tks)"
  using assms
proof (induction ds arbitrary: i fr tks)
  case (Cons d ds)
  then obtain ser where
    ser: "length ser = 4" "i < length tks"
    and rest: "store_serials P ds (i + 1) (Suc fr) (tks[i := (tks ! i)\<lparr>serial := ser\<rparr>]) = Some (tks', fr')"
    by (auto simp: bind_Some_iff buf_iffs dest: cnv_length)
  have "same_flags (tks[i := (tks ! i)\<lparr>serial := ser\<rparr>]) tks"
    using ser(2) by (auto simp: same_flags_def map_update intro!: nth_equalityI simp: nth_list_update)
  then show ?case
    using Cons.IH [OF rest] ser by (auto simp: same_flags_def intro: list_all_update)
qed (simp add: same_flags_def)

text \<open>\<open>retoken a b\<close> is \<open>b\<close> with the tokens of \<open>a\<close>: \<open>kept I L a (retoken a b)\<close> says that only \<open>tk\<close> changed.\<close>

definition retoken :: "'h nst \<Rightarrow> 'h nst \<Rightarrow> 'h nst" where
  "retoken a b = b\<lparr>tk := tk a\<rparr>"

lemma kept_retokenI: "kept I L a b \<Longrightarrow> kept I L a (retoken a b)"
  by (simp add: kept_def quiet_def retoken_def)

lemma kept_retoken_simps [simp]:
  "kept I L a (retoken a (set_err e b)) = kept I L a (retoken a b)"
  "kept I L a (retoken a (b\<lparr>tk := t\<rparr>)) = kept I L a (retoken a b)"
  by (simp_all add: kept_def quiet_def retoken_def)

context hid_call
begin

lemma get_first_device_frame:
  assumes "inv (hid s0)" "get_first_device P H s0 = Some s'"
  shows "kept inv held s0 (retoken s0 s') \<and> blocks (hid s') = blocks (hid s0) \<and> session_ok (tk s') \<and>
    (LAST_ERR_NO s' = nErr_OK \<and> inUse (tk s' ! 0) \<noteq> 0 \<or> LAST_ERR_NO s' = nErr_DNF \<and> tk s' = zero_tk)"
proof -
  from assms(2) obtain devs h h' where
    en: "api_enumerate H VID PID (hid s0) = Some (devs, h)"
    and fe: "api_free_enumeration H devs h = Some h'"
    and cs: "devs = [] \<and> s' = set_err nErr_DNF (s0\<lparr>tk := zero_tk, hid := h'\<rparr>) \<or>
      devs \<noteq> [] \<and> (\<exists>tks fr. store_serials P devs 0 (frames s0) zero_tk = Some (tks, fr) \<and> 0 < length tks \<and>
        s' = set_err nErr_OK (s0\<lparr>tk := tks[0 := (tks ! 0)\<lparr>inUse := 1\<rparr>], hid := h', frames := fr\<rparr>))"
    by (auto simp: get_first_device_def bind_Some_iff Let_def buf_iffs split: if_splits)
  note e = enumerate_law [OF assms(1) en]
  have f: "inv h' \<and> held h' = held (hid s0) \<and> blocks h' = blocks (hid s0)"
    using e free_law [OF _ fe] by simp
  from cs show ?thesis
  proof
    assume "devs = [] \<and> s' = set_err nErr_DNF (s0\<lparr>tk := zero_tk, hid := h'\<rparr>)"
    then show ?thesis
      using f session_ok_zero by (simp add: kept_def quiet_def retoken_def)
  next
    assume "devs \<noteq> [] \<and> (\<exists>tks fr. store_serials P devs 0 (frames s0) zero_tk = Some (tks, fr) \<and> 0 < length tks \<and>
        s' = set_err nErr_OK (s0\<lparr>tk := tks[0 := (tks ! 0)\<lparr>inUse := 1\<rparr>], hid := h', frames := fr\<rparr>))"
    then obtain tks fr where st: "store_serials P devs 0 (frames s0) zero_tk = Some (tks, fr)"
      and s': "s' = set_err nErr_OK (s0\<lparr>tk := tks[0 := (tks ! 0)\<lparr>inUse := 1\<rparr>], hid := h', frames := fr\<rparr>)"
      by blast
    note g = store_serials_frame [OF st]
    have len: "length tks = 8" and ser: "list_all (\<lambda>t. length (serial t) = 4) tks"
      using g same_flagsD(1) zero_tk_ok by (fastforce simp: tk_ok_def const_simps)+
    have fl: "inUse (tks ! i) = 0 \<and> selected (tks ! i) = 0" if "i < 8" for i
      using g same_flagsD(2) [of tks zero_tk i] len that
      by (simp add: zero_tk_def zero_token_def const_simps)
    have "tk_ok (tk s')"
      using len ser by (auto simp: s' tk_ok_def const_simps list_all_length nth_list_update)
    moreover have "list_all (\<lambda>t. inUse t = 0 \<and> selected t = 0) (tl (tk s'))"
      using len fl by (auto simp: s' list_all_length nth_tl)
    ultimately have "session_ok (tk s')" using len by (simp add: session_ok_def s')
    then show ?thesis
      using f len by (simp add: s' kept_def quiet_def retoken_def)
  qed
qed

text \<open>
  \<open>select_device\<close> marks the active token, whatever connected serial it was called with.
\<close>

lemma select_device_frame:
  assumes "inv (hid s0)" "tk_ok (tk s0)" "select_device P H ser s0 = Some s'"
  shows "kept inv held s0 (retoken s0 s') \<and> blocks (hid s') = blocks (hid s0) \<and>
    (LAST_ERR_NO s' = nErr_DNF \<and> tk s' = tk s0 \<or>
     LAST_ERR_NO s' = nErr_OK \<and> (\<exists>i < 8. GET_ACTIVE_TOKEN (past_tk P) (tk s0) = Some (int i) \<and>
       inUse (tk s0 ! i) \<noteq> 0 \<and> tk s' = (tk s0)[i := (tk s0 ! i)\<lparr>selected := 1\<rparr>]))"
proof -
  from assms(3) obtain n where n: "GET_ACTIVE_TOKEN (past_tk P) (tk s0) = Some n"
    by (auto simp: select_device_def bind_Some_iff)
  from assms(2) n show ?thesis
  proof (cases rule: GET_ACTIVE_TOKEN_cases)
    case none
    then show ?thesis
      using assms(1,3) n by (auto simp: select_device_def const_simps kept_retokenI)
  next
    case (beyond v)
    then obtain c s1 where c: "check_dev_connected P H ser s0 = Some (c, s1)"
      using assms(3) n by (auto simp: select_device_def bind_Some_iff const_simps)
    note f = check_dev_connected_frame [OF assms(1) c]
    then have k: "kept inv held s0 s1" and t1: "tk s1 = tk s0" by (simp_all add: kept_def quiet_def)
    have "s' = set_err nErr_DNF s1"
      using assms(2,3) n c beyond t1
      by (auto simp: select_device_def const_simps tok_at_def rd_def tk_ok_def split: if_splits)
    then show ?thesis using f t1 kept_retokenI [OF k] by simp
  next
    case (active i)
    then obtain c s1 where c: "check_dev_connected P H ser s0 = Some (c, s1)"
      using assms(3) n by (auto simp: select_device_def bind_Some_iff const_simps)
    note f = check_dev_connected_frame [OF assms(1) c]
    then have t1: "tk s1 = tk s0" by (simp add: quiet_def)
    have k: "kept inv held s0 s1" using f by (simp add: kept_def)
    show ?thesis
    proof (cases "c = nErr_DNF")
      case True
      then have "s' = set_err nErr_DNF s1"
        using assms(3) n c active by (simp add: select_device_def const_simps)
      then show ?thesis using f t1 kept_retokenI [OF k] by simp
    next
      case False
      then have "s' = set_err nErr_OK (s1\<lparr>tk := (tk s0)[i := (tk s0 ! i)\<lparr>selected := 1\<rparr>]\<rparr>)"
        using assms(3) n c active t1
        by (auto simp: select_device_def bind_Some_iff tok_at_def buf_iffs const_simps)
      then show ?thesis using f active n kept_retokenI [OF k] by auto
    qed
  qed
qed

lemmas post_tokens =
  post_any [where m = "GET_ACTIVE_TOKEN p t" for p t] post_any [where m = "tok_at t n" for t n]
  post_any [where m = "check_dev_selected ser s" for ser s]

lemma get_curr_dev_serial_frame:
  assumes "inv (hid s0)"
  shows "post (\<lambda>(ser', s'). kept inv held s0 s' \<and>
      (LAST_ERR_NO s' = nErr_OK \<or> LAST_ERR_NO s' = nErr_DNF \<and> ser' = ser)) (get_curr_dev_serial P H ser s0)"
proof -
  have "kept inv held s0 s0" using assms by simp
  then show ?thesis
    unfolding get_curr_dev_serial_def
    by (auto intro!: post_tokens post_connected post_buf kept_intros split: if_splits)
qed

lemma get_serial_frame:
  assumes "inv (hid s0)"
  shows "post (\<lambda>(ser', s'). kept inv held s0 s' \<and>
      (LAST_ERR_NO s' = nErr_OK \<or> LAST_ERR_NO s' \<in> {nErr_DNF, nErr_DNS} \<and> take 4 ser' = [0, 0, 0, 0]))
    (get_serial P H ser s0)"
proof -
  have k: "kept inv held s0 s0" using assms by simp
  have "post (\<lambda>ser0. take 4 ser0 = [0, 0, 0, 0]) (wr_block ser 0 [0, 0, 0, 0])"
    by (auto simp: post_def buf_iffs)
  then show ?thesis
    unfolding get_serial_def
    by (rule post_bindI)
      (use k in \<open>auto intro!: post_tokens post_connected post_buf kept_intros split: if_splits\<close>)
qed

lemma get_device_count_frame:
  assumes "inv (hid s0)" "get_device_count H s0 = Some (n, s')"
  shows "kept inv held s0 s' \<and> blocks (hid s') = blocks (hid s0) \<and> 0 \<le> n \<and> LAST_ERR_NO s' = nErr_OK"
proof -
  from assms(2) obtain devs h h' where en: "api_enumerate H VID PID (hid s0) = Some (devs, h)"
    and fe: "api_free_enumeration H devs h = Some h'"
    and r: "n = int (length devs)" "s' = set_err nErr_OK (s0\<lparr>hid := h'\<rparr>)"
    by (auto simp: get_device_count_def bind_Some_iff)
  show ?thesis
    using enumerate_law [OF assms(1) en] free_law [OF _ fe] r by (auto simp: kept_def)
qed

end

section \<open>The state machine\<close>

text \<open>One call of a public function, with any arguments and any result.\<close>

inductive lib_step :: "platform \<Rightarrow> 'h hidapi \<Rightarrow> openssl \<Rightarrow> 'h nst \<Rightarrow> 'h nst \<Rightarrow> bool"
  for P H S s where
  step_first: "get_first_device P H s = Some s' \<Longrightarrow> lib_step P H S s s'"
| step_current: "get_curr_dev_serial P H ser s = Some (ser', s') \<Longrightarrow> lib_step P H S s s'"
| step_select: "select_device P H ser s = Some s' \<Longrightarrow> lib_step P H S s s'"
| step_serial: "get_serial P H ser s = Some (ser', s') \<Longrightarrow> lib_step P H S s s'"
| step_count: "get_device_count H s = Some (n, s') \<Longrightarrow> lib_step P H S s s'"
| step_status: "get_device_status P H s = Some (err, s') \<Longrightarrow> lib_step P H S s s'"
| step_encrypt: "rsa_encrypt P H S kt flen from to pwd s = Some (tlen, to', s') \<Longrightarrow> lib_step P H S s s'"
| step_decrypt: "rsa_decrypt P H S kt flen from to pwd s = Some (tlen, to', s') \<Longrightarrow> lib_step P H S s s'"
| step_sign: "get_signature P H S typ m m_len sig siglen pwd s = Some (err, sig', siglen', s') \<Longrightarrow>
    lib_step P H S s s'"
| step_verify: "verify_signature P H S typ m m_len sig n s = Some (err, s') \<Longrightarrow> lib_step P H S s s'"
| step_public: "get_public_key P H S s = Some (buff, s') \<Longrightarrow> lib_step P H S s s'"
| step_private: "get_private_key P H S pwd s = Some (buff, s') \<Longrightarrow> lib_step P H S s s'"

inductive lib_reach :: "platform \<Rightarrow> 'h hidapi \<Rightarrow> openssl \<Rightarrow> 'h nst \<Rightarrow> 'h nst \<Rightarrow> bool"
  for P H S s where
  reach_start: "lib_reach P H S s s"
| reach_step: "lib_reach P H S s t \<Longrightarrow> lib_step P H S t u \<Longrightarrow> lib_reach P H S s u"

text \<open>The start of the program: \<open>tk\<close> is a global, so its initial value is zero.\<close>

definition lib_start :: "'h \<Rightarrow> 'h nst \<Rightarrow> bool" where
  "lib_start h s \<longleftrightarrow> tk s = zero_tk \<and> LAST_ERR_NO s = nErr_OK \<and> hid s = h"

lemma kept_tokens:
  "kept I L a b \<Longrightarrow> tk b = tk a \<and> I (hid b) \<and> L (hid b) = L (hid a)"
  "kept I L a (retoken a b) \<Longrightarrow> I (hid b) \<and> L (hid b) = L (hid a)"
  "kept I L a (filed a b) \<Longrightarrow> tk b = tk a \<and> I (hid b) \<and> L (hid b) = L (hid a)"
  "kept I L a (lost k b) \<Longrightarrow> tk b = tk a \<and> I (hid b) \<and> L (hid b) = L (hid a)"
  by (simp_all add: kept_def quiet_def retoken_def filed_def lost_def)

context hid_call
begin

lemma kept_session:
  assumes "kept inv held s0 s' \<or> kept inv held s0 (filed s0 s') \<or> kept inv held s0 (lost k s')" "session_ok (tk s0)"
  shows "inv (hid s') \<and> held (hid s') = held (hid s0) \<and> session_ok (tk s')"
  using assms kept_tokens(1) [of inv held s0 s'] kept_tokens(3) [of inv held s0 s'] kept_tokens(4) [of inv held s0 k s']
  by auto

lemma lib_step_keeps:
  assumes "lib_step P H S s0 s'" "inv (hid s0)" "session_ok (tk s0)"
  shows "inv (hid s') \<and> held (hid s') = held (hid s0) \<and> session_ok (tk s')"
proof -
  have k: "kept inv held s0 s0" using assms(2) by simp
  note rsa = postD [OF rsa_crypt_frame [OF k]]
  from assms(1) show ?thesis
  proof cases
    case step_first
    then show ?thesis using get_first_device_frame [OF assms(2) step_first] kept_tokens(2) by blast
  next
    case (step_select ser)
    have "tk_ok (tk s0)" using assms(3) by (simp add: session_ok_def)
    note f = select_device_frame [OF assms(2) this step_select]
    then have "session_ok (tk s')" using assms(3) session_ok_select by auto
    then show ?thesis using f kept_tokens(2) [of inv held s0 s'] by blast
  next
    case step_current
    from postD [OF get_curr_dev_serial_frame [OF assms(2)] this] show ?thesis by (intro kept_session [OF _ assms(3)]) simp
  next
    case step_serial
    from postD [OF get_serial_frame [OF assms(2)] this] show ?thesis by (intro kept_session [OF _ assms(3)]) simp
  next
    case step_count
    from get_device_count_frame [OF assms(2) this] show ?thesis by (intro kept_session [OF _ assms(3)]) simp
  next
    case step_status
    from get_device_status_frame [OF assms(2) this] show ?thesis using assms(3) by (simp add: quiet_def)
  next
    case step_encrypt
    from rsa [OF this [unfolded rsa_encrypt_def]] show ?thesis by (intro kept_session [OF _ assms(3)]) simp
  next
    case step_decrypt
    from rsa [OF this [unfolded rsa_decrypt_def]] show ?thesis by (intro kept_session [OF _ assms(3)]) simp
  next
    case step_sign
    from postD [OF get_signature_frame [OF k] this] show ?thesis
      by (intro kept_session [where k = 3, OF _ assms(3)]) auto
  next
    case step_verify
    from postD [OF verify_signature_frame [OF k] this] show ?thesis by (intro kept_session [OF _ assms(3)]) simp
  next
    case step_public
    from postD [OF get_public_key_frame [OF k] this] show ?thesis by (intro kept_session [OF _ assms(3)]) simp
  next
    case step_private
    from postD [OF get_private_key_frame [OF k] this] show ?thesis by (intro kept_session [OF _ assms(3)]) simp
  qed
qed

end

context hid_backend
begin

lemma lib_reach_keeps:
  assumes "lib_reach P H S s s'" "inv (hid s)" "session_ok (tk s)"
  shows "inv (hid s') \<and> held (hid s') = held (hid s) \<and> session_ok (tk s')"
  using assms
proof (induction rule: lib_reach.induct)
  case (reach_step t u)
  have c: "hid_call H inv held over blocks" using hid_backend_axioms by (rule hid_call.intro)
  from reach_step show ?case using hid_call.lib_step_keeps [OF c reach_step.hyps(2)] by simp
qed simp

end

end
