(* ===== verification/TokenSession.thy ===== *)
theory TokenSession
  imports LibSession
begin

text \<open>
  What the public functions of \<^verbatim>\<open>novinlib.c\<close> compute when a token is attached: the status, and RSA
  with exactly the keys the token holds. These are the total counterparts of the frame lemmas: the
  calls return, with the result stated.
\<close>

text \<open>\<open>lists H ready sn\<close>: enumerating the token's ids from a \<open>ready\<close> state yields one device, with serial \<open>sn\<close>.\<close>

definition lists :: "'h hidapi \<Rightarrow> ('h \<Rightarrow> bool) \<Rightarrow> wchar list option \<Rightarrow> bool" where
  "lists H ready sn \<longleftrightarrow> (\<forall>h. ready h \<longrightarrow> (\<exists>d h1 h2. api_enumerate H VID PID h = Some ([d], h1) \<and>
     serial_number d = sn \<and> api_free_enumeration H [d] h1 = Some h2 \<and> ready h2))"

text \<open>
  \<open>present\<close>: the one token on the bus has serial \<open>ser\<close> and prints it as a hex string; \<open>attached\<close>: it
  also answers as the token model with this status word and these keys; \<open>refuses\<close>: the device cannot
  be opened.
\<close>

definition present :: "platform \<Rightarrow> 'h hidapi \<Rightarrow> ('h \<Rightarrow> bool) \<Rightarrow> byte list \<Rightarrow> bool" where
  "present P H ready ser \<longleftrightarrow> length ser = 4 \<and> ascii_locale (wc_to_mb P) \<and>
     (\<exists>hx. hex_printer hx \<and> lists H ready (Some (serial_string hx ser)))"

definition attached ::
    "platform \<Rightarrow> 'h hidapi \<Rightarrow> ('h \<Rightarrow> bool) \<Rightarrow> byte list \<Rightarrow> byte \<times> byte \<Rightarrow>
      (byte \<Rightarrow> byte list \<Rightarrow> byte + byte list) \<Rightarrow> bool" where
  "attached P H ready ser status key \<longleftrightarrow>
     present P H ready ser \<and> serves H ready (token_answer ser (token_model status key))"

definition refuses :: "'h hidapi \<Rightarrow> ('h \<Rightarrow> bool) \<Rightarrow> bool" where
  "refuses H ready \<longleftrightarrow> (\<forall>h. ready h \<longrightarrow> (\<exists>h1 h2 r h3. api_open H VID PID None h = Some (None, h1) \<and>
     api_close H None h1 = Some h2 \<and> api_exit H h2 = Some (r, h3) \<and> ready h3))"

lemma serial_string_text:
  assumes "hex_printer hx"
  shows "0 \<notin> set (serial_string hx ser)" "length (serial_string hx ser) = 2 * length ser"
proof -
  have "hx v \<noteq> 0" if "v < 16" for v
  proof
    assume "hx v = 0"
    then have "hex_digit (ucast (0 :: wchar)) = Some (of_nat v)" using hex_printerD(2) [OF assms that] by metis
    moreover have "hex_digit (ucast (0 :: wchar)) = None" by code_simp
    ultimately show False by simp
  qed
  moreover have "unat (b :: byte) div 16 < 16" for b using unat_byte_less [of b] by linarith
  ultimately show "0 \<notin> set (serial_string hx ser)" by (force simp: serial_string_def)
  show "length (serial_string hx ser) = 2 * length ser" by (induction ser) (simp_all add: serial_string_def)
qed

lemma attached_present: "attached P H ready ser status key \<Longrightarrow> present P H ready ser"
  by (simp add: attached_def)

text \<open>\<open>active_token ser s\<close>: entry 0 of \<open>tk\<close> is in use and holds \<open>ser\<close>.\<close>

definition active_token :: "byte list \<Rightarrow> token list \<Rightarrow> bool" where
  "active_token ser tks \<longleftrightarrow> tk_ok tks \<and> inUse (tks ! 0) \<noteq> 0 \<and> serial (tks ! 0) = ser"

lemma active_token_GET:
  "active_token ser tks \<Longrightarrow> GET_ACTIVE_TOKEN past tks = Some 0"
  using GET_ACTIVE_TOKEN_some [of tks 0 past] by (simp add: active_token_def)

lemma active_token_at: "active_token ser tks \<Longrightarrow> tok_at tks 0 = Some (tks ! 0)"
  by (auto simp: active_token_def tok_at_def rd_def dest: tk_ok_length)

lemma check_connected_any:
  assumes "present P H ready ser" "ready (hid s)" "4 \<le> length want"
  shows "\<exists>s'. check_dev_connected P H want s = Some (if take 4 want = ser then nErr_OK else nErr_DNF, s') \<and>
    ready (hid s') \<and> quiet s s'"
proof -
  obtain hx where hx: "hex_printer hx" "lists H ready (Some (serial_string hx ser))"
    and ser: "length ser = 4" "ascii_locale (wc_to_mb P)"
    using assms(1) unfolding present_def by blast
  obtain d h1 h2 where d: "serial_number d = Some (serial_string hx ser)"
    and h: "api_enumerate H VID PID (hid s) = Some ([d], h1)" "api_free_enumeration H [d] h1 = Some h2" "ready h2"
    using hx(2) assms(2) unfolding lists_def by blast
  have "cnv_hex_to_decimal_serial (wc_to_mb P) (local_array P 16 (frames s)) (serial_number d) = Some ser"
    using cnv_serial_string [OF ser(2) hx(1) ser(1), of "local_array P 16 (frames s)" "[]"] d by simp
  then have "scan_connected P want [d] (frames s) = Some (if take 4 want = ser then nErr_OK else nErr_DNF, Suc (frames s))"
    using assms(3) by (simp add: rd_block_def)
  then show ?thesis
    using h by (auto simp: check_dev_connected_def)
qed

lemma check_connected_ok:
  assumes "present P H ready ser" "ready (hid s)"
  shows "\<exists>s'. check_dev_connected P H ser s = Some (nErr_OK, s') \<and> ready (hid s') \<and> quiet s s'"
proof -
  have "length ser = 4" using assms(1) by (simp add: present_def)
  then show ?thesis using check_connected_any [OF assms, of ser] by simp
qed

lemma scan_selected_hit:
  assumes "t \<in> set ts" "selected t \<noteq> 0" "serial t = ser" "length ser = 4"
    and "list_all (\<lambda>t. length (serial t) = 4) ts"
  shows "scan_selected ser ts = Some nErr_OK"
  using assms(1,5)
  by (induction ts) (use assms(2-4) in \<open>auto simp: rd_block_def\<close>)

text \<open>\<open>in_session\<close>: the attached token is the active one, and it is selected.\<close>

definition in_session :: "('h \<Rightarrow> bool) \<Rightarrow> byte list \<Rightarrow> 'h nst \<Rightarrow> bool" where
  "in_session ready ser s \<longleftrightarrow> ready (hid s) \<and> active_token ser (tk s) \<and> selected (tk s ! 0) \<noteq> 0"

lemma in_session_quiet: "in_session ready ser s \<Longrightarrow> quiet s s' \<Longrightarrow> ready (hid s') \<Longrightarrow> in_session ready ser s'"
  by (simp add: in_session_def quiet_def)

lemma in_session_updates [simp]:
  "in_session ready ser (set_err e s) = in_session ready ser s"
  "in_session ready ser (tick s) = in_session ready ser s"
  "in_session ready ser (RSA_free r s) = in_session ready ser s"
  "in_session ready ser (s\<lparr>frames := k\<rparr>) = in_session ready ser s"
  by (simp_all add: in_session_def)

lemma in_session_token_ready:
  assumes "attached P H ready ser status key" "in_session ready ser s"
  shows "token_ready P H ready (token_model status key) s"
proof -
  have "tk_ok (tk s)" using assms(2) by (simp add: in_session_def active_token_def)
  then show ?thesis
    using assms active_token_GET [of ser "tk s" "past_tk P"] tk_ok_length [of "tk s"]
    by (auto simp: token_ready_def in_session_def active_token_def attached_def present_def intro!: exI [of _ 0])
qed

lemma in_session_hid_only:
  "in_session ready ser s \<Longrightarrow> hid_only (s\<lparr>frames := k\<rparr>) s' \<Longrightarrow> ready (hid s') \<Longrightarrow>
    in_session ready ser s' \<and> quiet s s'"
  using hid_only_quiet [of "s\<lparr>frames := k\<rparr>" s'] in_session_quiet [of ready ser s s'] by simp

lemma token_ready_ready: "token_ready P H ready f s \<Longrightarrow> ready (hid s)"
  by (simp add: token_ready_def)

lemma internal_status_ok:
  assumes "attached P H ready ser (lo, hi) key" "in_session ready ser s"
  shows "\<exists>s'. get_dev_status_internal P H s = Some (uint hi * 256 + uint lo, s') \<and>
    in_session ready ser s' \<and> quiet s s'"
  using get_dev_status_ok [OF refl in_session_token_ready [OF assms]]
    in_session_hid_only [OF assms(2)] token_ready_ready by blast

text \<open>In a session the checks in front of the status request pass, whatever becomes of the request.\<close>

lemma device_status_via:
  assumes "present P H ready ser" "in_session ready ser s"
    and st: "\<And>s. in_session ready ser s \<Longrightarrow>
      \<exists>s'. get_dev_status_internal P H s = Some (stat, s') \<and> in_session ready ser s' \<and> quiet s s'"
  shows "\<exists>s'. get_device_status P H s = Some (status_error stat, s') \<and> in_session ready ser s' \<and> quiet s s' \<and>
    LAST_ERR_NO s' = status_error stat"
proof -
  have act: "active_token ser (tk s)" and sel: "selected (tk s ! 0) \<noteq> 0" and rdy: "ready (hid s)"
    using assms(2) by (simp_all add: in_session_def)
  note act' = active_token_GET [OF act] active_token_at [OF act]
  have ser: "serial (tk s ! 0) = ser" "length ser = 4" and tk: "tk_ok (tk s)"
    using act assms(1) by (simp_all add: active_token_def present_def)
  obtain s1 where c: "check_dev_connected P H ser s = Some (nErr_OK, s1)" "ready (hid s1)" "quiet s s1"
    using check_connected_ok [OF assms(1) rdy] by blast
  have "tk s ! 0 \<in> set (take MAX_TOKEN_SUPPORT (tk s1))"
    using c(3) tk_ok_length [OF tk] by (simp add: quiet_def const_simps)
  then have sl: "check_dev_selected ser s1 = Some nErr_OK"
    using scan_selected_hit [of "tk s ! 0"] sel ser tk c(3)
    by (simp add: check_dev_selected_def quiet_def tk_ok_def)
  obtain s2 where i: "get_dev_status_internal P H s1 = Some (stat, s2)"
    "in_session ready ser s2" "quiet s1 s2"
    using st [OF in_session_quiet [OF assms(2) c(3,2)]] by blast
  have "quiet s s2" using c(3) i(3) by (rule quiet_trans)
  then show ?thesis
    using act' c(1) sl i ser(1) by (simp add: get_device_status_def const_simps)
qed

lemma device_status_ok:
  assumes "attached P H ready ser (lo, hi) key" "in_session ready ser s"
  shows "\<exists>s'. get_device_status P H s = Some (status_error (uint hi * 256 + uint lo), s') \<and>
    in_session ready ser s' \<and> quiet s s'"
  using device_status_via [OF attached_present [OF assms(1)] assms(2) internal_status_ok [OF assms(1)]] by blast

section \<open>A token that cannot be opened\<close>

text \<open>
  \<open>_get_dev_status_internal\<close> turns the error into a small positive number, in which none of the status
  bits is set.
\<close>

lemma refused_internal:
  assumes "present P H ready ser" "refuses H ready" "in_session ready ser s"
  shows "\<exists>s'. get_dev_status_internal P H s = Some (nErr_DNF, s') \<and> in_session ready ser s' \<and> quiet s s'"
proof -
  obtain h1 h2 r h3 where o: "api_open H VID PID None (hid s) = Some (None, h1)"
    "api_close H None h1 = Some h2" "api_exit H h2 = Some (r, h3)" "ready h3"
    using assms(2,3) unfolding refuses_def in_session_def by blast
  have act: "active_token ser (tk s)" using assms(3) by (simp add: in_session_def)
  have "get_dev_status_internal P H s = Some (nErr_DNF, s\<lparr>hid := h3, frames := frames s + 2\<rparr>)"
    using o active_token_GET [OF act]
    by (simp add: get_dev_status_internal_def send_packet_def Let_def wr_def wr_block_def local_array_def const_simps)
  moreover have "in_session ready ser (s\<lparr>hid := h3, frames := frames s + 2\<rparr>)"
    using assms(3) o(4) by (simp add: in_session_def)
  ultimately show ?thesis by (auto simp: quiet_def)
qed

lemma refused_calls:
  assumes "present P H ready ser" "refuses H ready" "in_session ready ser s"
  shows "\<exists>s'. get_device_status P H s = Some (nErr_OK, s') \<and> in_session ready ser s' \<and> LAST_ERR_NO s' = nErr_OK \<and>
      quiet s s'"
    and "\<exists>s'. rsa_crypt P H S po qo kt flen from to pwd s = Some (- 1, to, s') \<and> LAST_ERR_NO s' = nErr_RSANS \<and>
      in_session ready ser s' \<and> quiet s s'"
proof -
  have c: "status_error nErr_DNF = nErr_OK" "\<not> RSA1024_ENABLED nErr_DNF" "\<not> nErr_DNF < 0" by code_simp+
  obtain s1 where st: "get_device_status P H s = Some (nErr_OK, s1)" "in_session ready ser s1"
    "LAST_ERR_NO s1 = nErr_OK" "quiet s s1"
    using device_status_via [OF assms(1,3) refused_internal [OF assms(1,2)]] c(1) by auto
  then show "\<exists>s'. get_device_status P H s = Some (nErr_OK, s') \<and> in_session ready ser s' \<and>
      LAST_ERR_NO s' = nErr_OK \<and> quiet s s'" by blast
  obtain s2 where i: "get_dev_status_internal P H s1 = Some (nErr_DNF, s2)" "in_session ready ser s2" "quiet s1 s2"
    using refused_internal [OF assms(1,2) st(2)] by blast
  have "rsa_crypt P H S po qo kt flen from to pwd s = Some (- 1, to, set_err nErr_RSANS s2)"
    using st(1) i(1) c(2,3) by (simp add: rsa_crypt_def)
  then show "\<exists>s'. rsa_crypt P H S po qo kt flen from to pwd s = Some (- 1, to, s') \<and> LAST_ERR_NO s' = nErr_RSANS \<and>
      in_session ready ser s' \<and> quiet s s'"
    using i(2,3) st(4) quiet_trans by fastforce
qed

section \<open>Keys\<close>

text \<open>The public exponent \<open>E\<close>, the modulus \<open>N\<close> and, under password \<open>pwd\<close>, the private exponent \<open>D\<close>.\<close>

definition holds_public :: "(byte \<Rightarrow> byte list \<Rightarrow> byte + byte list) \<Rightarrow> byte list \<Rightarrow> byte list \<Rightarrow> bool" where
  "holds_public key E N \<longleftrightarrow> (\<forall>pwd. key (of_nat KT_Public) pwd = Inr E \<and> key (of_nat KT_Exponent) pwd = Inr N) \<and>
     length E = 128 \<and> length N = 128"

definition holds_private ::
    "(byte \<Rightarrow> byte list \<Rightarrow> byte + byte list) \<Rightarrow> byte list \<Rightarrow> byte list \<Rightarrow> byte list \<Rightarrow> bool" where
  "holds_private key pwd D N \<longleftrightarrow> key (of_nat KT_Private) pwd = Inr D \<and>
     key (of_nat KT_Exponent) pwd = Inr N \<and> length D = 128 \<and> length N = 128"

lemma wr_block_256: "length (replicate 256 (0::byte)) = 256"
  by simp

text \<open>
  \<open>get_public_key_ok\<close> is about 128 byte output arrays; \<open>rsa_encrypt\<close> and the PEM export pass 256 byte
  arrays, of which the key fills the first half.
\<close>

lemma key_types_extend:
  assumes "key_types P H req ft kts result packet out ex s = Some (res, out', ex', s')"
  shows "key_types P H req ft kts result packet (out @ a) (ex @ b) s = Some (res, out' @ a, ex' @ b, s')"
  using assms
proof (induction kts arbitrary: result packet out ex s)
  case (Cons kt kts)
  define upd :: "bool \<Rightarrow> byte list \<Rightarrow> byte list \<Rightarrow> byte list option" where
    "upd c r xs = (if c then do { b \<leftarrow> rd_block r 0 128; wr_block xs 0 b } else Some xs)" for c r xs
  have ext: "upd c r (xs @ z) = Some (ys @ z)" if "upd c r xs = Some ys" for c r xs ys z
    using that by (auto simp: upd_def bind_Some_iff buf_iffs split: if_splits)
  from Cons.prems obtain r1 result1 packet1 s1 where
    chunks: "key_chunks P H req kt [0..<8] result packet s = Some (r1, result1, packet1, s1)"
    by (auto simp: bind_Some_iff)
  show ?case
  proof (cases "r1 = nErr_OK")
    case True
    then obtain out1 ex1 where "upd (kt = ft) result1 out = Some out1" "upd (kt = KT_Exponent) result1 ex = Some ex1"
      "key_types P H req ft kts result1 packet1 out1 ex1 s1 = Some (res, out', ex', s')"
      using Cons.prems chunks by (auto simp: upd_def elim!: bind_SomeE split: if_splits)
    then show ?thesis
      using chunks True ext [of "kt = ft" result1 out out1 a] ext [of "kt = KT_Exponent" result1 ex ex1 b] Cons.IH
      by (simp add: upd_def [symmetric])
  qed (use Cons.prems chunks in simp)
qed simp

lemma session_public_key:
  assumes "attached P H ready ser status key" "in_session ready ser s" "good_stack P"
    and "holds_public key E N" "length out = 128 + n" "length ex = 128 + n"
  shows "\<exists>s'. novin_get_public_key P H out ex s = Some (nErr_OK, E @ drop 128 out, N @ drop 128 ex, s') \<and>
    in_session ready ser s' \<and> quiet s s'"
proof -
  obtain s' where g: "novin_get_public_key P H (take 128 out) (take 128 ex) s = Some (nErr_OK, E, N, s')"
    "token_ready P H ready (token_model status key) s'" "hid_only (s\<lparr>frames := frames s + 2\<rparr>) s'"
    using get_public_key_ok [OF refl in_session_token_ready [OF assms(1,2)] assms(3),
        of E N "take 128 out" "take 128 ex"] assms(4-6) by (auto simp: holds_public_def)
  have "novin_get_public_key P H out ex s = Some (nErr_OK, E @ drop 128 out, N @ drop 128 ex, s')"
    using key_types_extend [OF g(1) [unfolded novin_get_public_key_def Let_def], of "drop 128 out" "drop 128 ex"]
    by (simp add: novin_get_public_key_def Let_def)
  then show ?thesis
    using in_session_hid_only [OF assms(2) g(3)] token_ready_ready [OF g(2)] by blast
qed

lemma session_private_key:
  assumes "attached P H ready ser status key" "in_session ready ser s" "good_stack P"
    and "holds_private key (take 16 pwd) D N" "16 \<le> length pwd" "length out = 128 + n" "length ex = 128 + n"
  shows "\<exists>s'. novin_get_private_key P H out ex pwd s = Some (nErr_OK, D @ drop 128 out, N @ drop 128 ex, s') \<and>
    in_session ready ser s' \<and> quiet s s'"
proof -
  obtain s' where g: "novin_get_private_key P H (take 128 out) (take 128 ex) pwd s = Some (nErr_OK, D, N, s')"
    "token_ready P H ready (token_model status key) s'" "hid_only (s\<lparr>frames := frames s + 2\<rparr>) s'"
    using get_private_key_ok [OF refl in_session_token_ready [OF assms(1,2)] assms(3),
        of pwd D N "take 128 out" "take 128 ex"] assms(4-7) by (auto simp: holds_private_def)
  have "novin_get_private_key P H out ex pwd s = Some (nErr_OK, D @ drop 128 out, N @ drop 128 ex, s')"
    using key_types_extend [OF g(1) [unfolded novin_get_private_key_def Let_def], of "drop 128 out" "drop 128 ex"]
    by (simp add: novin_get_private_key_def Let_def)
  then show ?thesis
    using in_session_hid_only [OF assms(2) g(3)] token_ready_ready [OF g(2)] by blast
qed

lemma session_private_refused:
  assumes "attached P H ready ser status key" "in_session ready ser s" "good_stack P"
    and "key (of_nat KT_Private) (take 16 pwd) = Inl e" "e \<noteq> 0" "e \<noteq> 128" "16 \<le> length pwd"
  shows "\<exists>s'. novin_get_private_key P H out ex pwd s = Some (uint e, out, ex, s') \<and>
    in_session ready ser s' \<and> quiet s s'"
  using get_private_key_refused [OF refl in_session_token_ready [OF assms(1,2)] assms(3-7), of out ex]
    in_session_hid_only [OF assms(2)] token_ready_ready by blast

section \<open>RSA with the token's key\<close>

lemma bin2bn_ok:
  assumes "openssl_succeeds S"
  shows "BN_bin2bn S bs s = (Some (big_endian bs), tick s\<lparr>bignums := bignums s + 1\<rparr>)"
  using assms by (simp add: BN_bin2bn_def openssl_succeeds_def)

lemma RSA_new_ok: "openssl_succeeds S \<Longrightarrow> RSA_new S s = (Some empty_rsa, tick s)"
  by (simp add: RSA_new_def openssl_succeeds_def)

text \<open>\<open>rsa_value\<close> is the key OpenSSL is called with.\<close>

definition rsa_value :: "byte list \<Rightarrow> byte list \<Rightarrow> byte list option \<Rightarrow> rsa_key" where
  "rsa_value E N d = \<lparr>rsa_n = Some (big_endian N), rsa_e = Some (big_endian E), rsa_d = map_option big_endian d\<rparr>"

lemma in_session_bignums [simp]:
  "in_session ready ser (s\<lparr>bignums := k\<rparr>) = in_session ready ser s"
  by (simp add: in_session_def)

lemma fill_ok:
  assumes "openssl_succeeds S" "length E = 128" "length N = 128" "in_session ready ser s"
  shows "\<exists>s'. fill_n_e S (E @ a) (N @ b) s = Some (rsa_value E N None, s') \<and> in_session ready ser s' \<and>
      owns (rsa_value E N None) s s'"
    and "\<exists>s'. fill_e_n S (E @ a) (N @ b) s = Some (rsa_value E N None, s') \<and> in_session ready ser s' \<and>
      owns (rsa_value E N None) s s'"
    and "length D = 128 \<Longrightarrow> \<exists>s'. fill_e_n_d S (E @ a) (N @ b) (D @ c) s = Some (rsa_value E N (Some D), s') \<and>
      in_session ready ser s' \<and> owns (rsa_value E N (Some D)) s s'"
proof -
  note d = fill_n_e_def fill_e_n_def fill_e_n_d_def bin2bn_ok [OF assms(1)] rd_block_def Let_def
  obtain s1 where "fill_n_e S (E @ a) (N @ b) s = Some (rsa_value E N None, s1)" "in_session ready ser s1"
    using assms(2-4) by (simp add: d rsa_value_def)
  then show "\<exists>s'. fill_n_e S (E @ a) (N @ b) s = Some (rsa_value E N None, s') \<and> in_session ready ser s' \<and>
      owns (rsa_value E N None) s s'" using fill_owns(1) by blast
  obtain s2 where "fill_e_n S (E @ a) (N @ b) s = Some (rsa_value E N None, s2)" "in_session ready ser s2"
    using assms(2-4) by (simp add: d rsa_value_def)
  then show "\<exists>s'. fill_e_n S (E @ a) (N @ b) s = Some (rsa_value E N None, s') \<and> in_session ready ser s' \<and>
      owns (rsa_value E N None) s s'" using fill_owns(2) by blast
  assume "length D = 128"
  then obtain s3 where "fill_e_n_d S (E @ a) (N @ b) (D @ c) s = Some (rsa_value E N (Some D), s3)"
    "in_session ready ser s3"
    using assms(2-4) by (simp add: d rsa_value_def)
  then show "\<exists>s'. fill_e_n_d S (E @ a) (N @ b) (D @ c) s = Some (rsa_value E N (Some D), s') \<and>
      in_session ready ser s' \<and> owns (rsa_value E N (Some D)) s s'" using fill_owns(3) by blast
qed

text \<open>
  The outcome of the RSA function: a length of -1 becomes the error \<open>nErr_INVKT\<close>.
\<close>

definition crypt_error :: "int \<Rightarrow> int" where
  "crypt_error tlen = (if tlen = - 1 then nErr_INVKT else nErr_OK)"

lemma rsa_public_case_ok:
  assumes "attached P H ready ser status key" "in_session ready ser s" "good_stack P"
    and "openssl_succeeds S" "holds_public key E N"
    and call: "RSA_call S op flen from to (rsa_value E N None) = Some (tlen, to')"
  shows "\<exists>s'. rsa_public_case P H S op flen from to s =
      Some (crypt_error tlen, tlen, to', rsa_value E N None, s') \<and> in_session ready ser s' \<and>
    quiet s (RSA_free (rsa_value E N None) s')"
proof -
  have len: "length E = 128" "length N = 128" using assms(5) by (simp_all add: holds_public_def)
  have rep: "length (replicate 256 (0::byte)) = 128 + 128" by simp
  obtain s1 where g: "novin_get_public_key P H (replicate 256 0) (replicate 256 0) s =
      Some (nErr_OK, E @ drop 128 (replicate 256 0), N @ drop 128 (replicate 256 0), s1)"
    "in_session ready ser s1" "quiet s s1"
    using session_public_key [OF assms(1-3,5) rep rep] by blast
  obtain s2 where f: "fill_n_e S (E @ drop 128 (replicate 256 0)) (N @ drop 128 (replicate 256 0)) s1 =
      Some (rsa_value E N None, s2)" "in_session ready ser s2" "owns (rsa_value E N None) s1 s2"
    using fill_ok(1) [OF assms(4) len g(2)] by blast
  have "rsa_public_case P H S op flen from to s =
      Some (crypt_error tlen, tlen, to', rsa_value E N None, s2)"
    unfolding rsa_public_case_def g(1) bind.bind_lunit prod.case f(1)
    using call by (simp add: crypt_error_def rsa_value_def)
  then show ?thesis using f(2,3) quiet_trans [OF g(3)] by (auto simp: owns_def)
qed

lemma rsa_private_case_ok:
  assumes "attached P H ready ser status key" "in_session ready ser s" "good_stack P"
    and "openssl_succeeds S" "holds_public key E N"
    and "holds_private key (take 16 pwd) D N" "16 \<le> length pwd"
    and call: "RSA_call S op flen from to (rsa_value E N (Some D)) = Some (tlen, to')"
  shows "\<exists>s'. rsa_private_case P H S op flen from to pwd s =
      Some (crypt_error tlen, tlen, to', rsa_value E N (Some D), s') \<and> in_session ready ser s' \<and>
    quiet s (RSA_free (rsa_value E N (Some D)) s')"
proof -
  have len: "length E = 128" "length N = 128" "length D = 128"
    using assms(5,6) by (simp_all add: holds_public_def holds_private_def)
  have rep: "length (replicate 256 (0::byte)) = 128 + 128" by simp
  obtain s1 where g: "novin_get_public_key P H (replicate 256 0) (replicate 256 0) s =
      Some (nErr_OK, E @ drop 128 (replicate 256 0), N @ drop 128 (replicate 256 0), s1)"
    "in_session ready ser s1" "quiet s s1"
    using session_public_key [OF assms(1-3,5) rep rep] by blast
  let ?ex = "N @ drop 128 (replicate 256 (0::byte))"
  have lex: "length ?ex = 128 + 128" using len by simp
  have nex: "N @ drop 128 ?ex = ?ex" using len by simp
  obtain s2 where g2: "novin_get_private_key P H (replicate 256 0) ?ex pwd s1 =
      Some (nErr_OK, D @ drop 128 (replicate 256 0), ?ex, s2)"
    "in_session ready ser s2" "quiet s1 s2"
    using session_private_key [OF assms(1) g(2) assms(3,6,7) rep lex] unfolding nex by blast
  obtain s3 where f: "fill_e_n_d S (E @ drop 128 (replicate 256 0)) ?ex (D @ drop 128 (replicate 256 0)) s2 =
      Some (rsa_value E N (Some D), s3)" "in_session ready ser s3" "owns (rsa_value E N (Some D)) s2 s3"
    using fill_ok(3) [OF assms(4) len(1,2) g2(2) len(3)] by blast
  have "rsa_private_case P H S op flen from to pwd s =
      Some (crypt_error tlen, tlen, to', rsa_value E N (Some D), s3)"
    unfolding rsa_private_case_def g(1) bind.bind_lunit prod.case
    by (simp only: g2(1) f(1) bind.bind_lunit prod.case if_False not_True_eq_False simp_thms call)
      (simp add: crypt_error_def rsa_value_def)
  then show ?thesis
    using f(2,3) quiet_trans [OF quiet_trans [OF g(3) g2(3)]] by (auto simp: owns_def)
qed

text \<open>
  The two public functions, with a token whose status word has the RSA bit and none of the three
  blocking bits: the result is that of the RSA function under the token's key.
\<close>

definition usable :: "int \<Rightarrow> bool" where
  "usable stat \<longleftrightarrow> status_error stat = nErr_OK \<and> RSA1024_ENABLED stat"

lemma rsa_crypt_ok:
  assumes "attached P H ready ser (lo, hi) key" "in_session ready ser s" "openssl_succeeds S"
    and "usable (uint hi * 256 + uint lo)"
    and sw: "\<And>s. in_session ready ser s \<Longrightarrow>
      \<exists>s'. rsa_switch P H S po qo kt flen from to pwd s = Some (err, tlen, to', rsa, s') \<and>
        in_session ready ser s' \<and> quiet s (RSA_free rsa s')"
  shows "\<exists>s'. rsa_crypt P H S po qo kt flen from to pwd s = Some (tlen, to', s') \<and>
    in_session ready ser s' \<and> quiet s s' \<and> LAST_ERR_NO s' = err"
proof -
  let ?st = "uint hi * 256 + uint lo"
  obtain s1 where d: "get_device_status P H s = Some (status_error ?st, s1)"
    "in_session ready ser s1" "quiet s s1"
    using device_status_ok [OF assms(1,2)] by blast
  obtain s2 where i: "get_dev_status_internal P H s1 = Some (?st, s2)"
    "in_session ready ser s2" "quiet s1 s2"
    using internal_status_ok [OF assms(1) d(2)] by blast
  have "in_session ready ser (tick s2)" using i(2) by simp
  from sw [OF this] obtain s3 where
    w: "rsa_switch P H S po qo kt flen from to pwd (tick s2) = Some (err, tlen, to', rsa, s3)"
    "in_session ready ser s3" "quiet (tick s2) (RSA_free rsa s3)" by blast
  have nn: "\<not> ?st < 0" using byte_int_bounds [of hi] byte_int_bounds [of lo] by linarith
  have u: "status_error ?st = nErr_OK" "RSA1024_ENABLED ?st" using assms(4) by (simp_all add: usable_def)
  have "rsa_crypt P H S po qo kt flen from to pwd s = Some (tlen, to', set_err (err) (RSA_free rsa s3))"
    unfolding rsa_crypt_def d(1) u(1) bind.bind_lunit prod.case i(1)
    using nn u(2) by (simp add: RSA_new_ok [OF assms(3)] w(1))
  moreover have "quiet s (RSA_free rsa s3)"
    using d(3) i(3) w(3) by (simp add: quiet_def)
  ultimately show ?thesis using w(2) by auto
qed

lemma rsa_public_ok:
  assumes "attached P H ready ser (lo, hi) key" "in_session ready ser s" "good_stack P"
    and "openssl_succeeds S" "usable (uint hi * 256 + uint lo)" "holds_public key E N"
    and "RSA_call S po flen from to (rsa_value E N None) = Some (tlen, to')"
  shows "\<exists>s'. rsa_crypt P H S po qo 1 flen from to pwd s = Some (tlen, to', s') \<and>
    in_session ready ser s' \<and> quiet s s' \<and> LAST_ERR_NO s' = crypt_error tlen"
proof (rule rsa_crypt_ok [OF assms(1,2,4,5)])
  fix s assume "in_session ready ser s"
  from rsa_public_case_ok [OF assms(1) this assms(3,4,6,7)]
  show "\<exists>s'. rsa_switch P H S po qo 1 flen from to pwd s =
      Some (crypt_error tlen, tlen, to', rsa_value E N None, s') \<and>
    in_session ready ser s' \<and> quiet s (RSA_free (rsa_value E N None) s')"
    by (simp add: rsa_switch_def)
qed

lemma rsa_private_ok:
  assumes "attached P H ready ser (lo, hi) key" "in_session ready ser s" "good_stack P"
    and "openssl_succeeds S" "usable (uint hi * 256 + uint lo)" "holds_public key E N"
    and "holds_private key (take 16 pwd) D N" "16 \<le> length pwd"
    and "RSA_call S qo flen from to (rsa_value E N (Some D)) = Some (tlen, to')"
  shows "\<exists>s'. rsa_crypt P H S po qo 2 flen from to pwd s = Some (tlen, to', s') \<and>
    in_session ready ser s' \<and> quiet s s' \<and> LAST_ERR_NO s' = crypt_error tlen"
proof (rule rsa_crypt_ok [OF assms(1,2,4,5)])
  fix s assume "in_session ready ser s"
  from rsa_private_case_ok [OF assms(1) this assms(3,4,6,7,8,9)]
  show "\<exists>s'. rsa_switch P H S po qo 2 flen from to pwd s =
      Some (crypt_error tlen, tlen, to', rsa_value E N (Some D), s') \<and>
    in_session ready ser s' \<and> quiet s (RSA_free (rsa_value E N (Some D)) s')"
    by (simp add: rsa_switch_def)
qed

section \<open>Signatures and PEM text\<close>

lemma new_e_n_d_ok:
  assumes "openssl_succeeds S"
  shows "\<exists>rsa s'. new_e_n_d S s = (True, rsa, s') \<and> in_session ready ser s' = in_session ready ser s \<and>
    quiet s (lost 3 s')"
  using assms
  by (simp add: new_e_n_d_def BN_new_def openssl_succeeds_def Let_def quiet_def lost_def)

lemma local_array_pad: "length (local_array P 128 k) = 128 + stack_pad P"
  by simp

lemma both_keys_ok:
  assumes "attached P H ready ser status key" "in_session ready ser s" "good_stack P"
    and "holds_public key E N" "holds_private key (take 16 pwd) D N" "16 \<le> length pwd"
    and "length a = 128 + n" "length b = 128 + n" "length c = 128 + n"
  shows "\<exists>s1 s2. novin_get_public_key P H a c s = Some (nErr_OK, E @ drop 128 a, N @ drop 128 c, s1) \<and>
    novin_get_private_key P H b (N @ drop 128 c) pwd s1 = Some (nErr_OK, D @ drop 128 b, N @ drop 128 c, s2) \<and>
    in_session ready ser s2 \<and> quiet s s2"
proof -
  have N: "length (N @ drop 128 c) = 128 + n" "N @ drop 128 (N @ drop 128 c) = N @ drop 128 c"
    using assms(4,9) by (simp_all add: holds_public_def)
  obtain s1 where s1: "novin_get_public_key P H a c s = Some (nErr_OK, E @ drop 128 a, N @ drop 128 c, s1)"
    "in_session ready ser s1" "quiet s s1"
    using session_public_key [OF assms(1-4,7,9)] by blast
  obtain s2 where "novin_get_private_key P H b (N @ drop 128 c) pwd s1 =
      Some (nErr_OK, D @ drop 128 b, N @ drop 128 c, s2)" "in_session ready ser s2" "quiet s1 s2"
    using session_private_key [OF assms(1) s1(2) assms(3,5,6,8) N(1)] N(2) by auto
  then show ?thesis using s1 quiet_trans by blast
qed

lemma quiet_lost: "quiet a b \<Longrightarrow> quiet b (lost k c) \<Longrightarrow> quiet a (lost k c)"
  by (rule quiet_trans)

lemma sign_ok:
  assumes "attached P H ready ser (lo, hi) key" "in_session ready ser s" "good_stack P" "openssl_succeeds S"
    and "status_error (uint hi * 256 + uint lo) = nErr_OK" "holds_public key E N"
    and "holds_private key (take 16 pwd) D N" "16 \<le> length pwd" "m_len \<le> length m"
    and "ssl_RSA_sign S typ (ssl_SHA1 S (take m_len m)) (rsa_value E N (Some D)) = (1, sig)" "length sig \<le> length sigret"
  shows "\<exists>s'. get_signature P H S typ m m_len sigret siglen pwd s =
      Some (nErr_OK, sig @ drop (length sig) sigret, int (length sig), s') \<and>
    in_session ready ser s' \<and> quiet s (lost 3 s') \<and> LAST_ERR_NO s' = nErr_OK"
proof -
  let ?s = "s\<lparr>frames := frames s + 4\<rparr>" and ?st = "uint hi * 256 + uint lo"
  have len: "length E = 128" "length N = 128" "length D = 128"
    using assms(6,7) by (simp_all add: holds_public_def holds_private_def)
  obtain s1 where d: "get_device_status P H ?s = Some (nErr_OK, s1)" "in_session ready ser s1" "quiet ?s s1"
    using device_status_ok [OF assms(1), of ?s] assms(2,5) by auto
  let ?a = "\<lambda>k. drop 128 (local_array P 128 k)"
  obtain s2 s3 where k:
    "novin_get_public_key P H (local_array P 128 (frames s)) (local_array P 128 (frames s + 2)) s1
      = Some (nErr_OK, E @ ?a (frames s), N @ ?a (frames s + 2), s2)"
    "novin_get_private_key P H (local_array P 128 (frames s + 1)) (N @ ?a (frames s + 2)) pwd s2
      = Some (nErr_OK, D @ ?a (frames s + 1), N @ ?a (frames s + 2), s3)"
    "in_session ready ser s3" "quiet s1 s3"
    using both_keys_ok [OF assms(1) d(2) assms(3,6-8) local_array_pad local_array_pad local_array_pad] by blast
  have t: "in_session ready ser (tick s3)" using k(3) by simp
  obtain rsa0 s5 where n: "new_e_n_d S (tick s3) = (True, rsa0, s5)" "in_session ready ser s5" "quiet (tick s3) (lost 3 s5)"
    using new_e_n_d_ok [OF assms(4), of "tick s3"] t by metis
  obtain s6 where f: "fill_e_n_d S (E @ ?a (frames s)) (N @ ?a (frames s + 2)) (D @ ?a (frames s + 1)) s5 = Some (rsa_value E N (Some D), s6)" "in_session ready ser s6"
    "owns (rsa_value E N (Some D)) s5 s6"
    using fill_ok(3) [OF assms(4) len(1,2) n(2) len(3)] by blast
  let ?s' = "set_err nErr_OK (RSA_free (rsa_value E N (Some D)) s6)"
  have "get_signature P H S typ m m_len sigret siglen pwd s =
      Some (nErr_OK, sig @ drop (length sig) sigret, int (length sig), ?s')"
    unfolding get_signature_def Let_def d(1) bind.bind_lunit prod.case k(1,2) RSA_new_ok [OF assms(4)] n(1)
    using f(1) assms(9-11) by (simp add: rsa_value_def rd_block_def wr_block_def)
  moreover have "quiet s (lost 3 ?s')"
    using d(3) k(4) n(3) f(3) by (simp add: quiet_def lost_def owns_def)
  ultimately show ?thesis using f(2) by auto
qed

lemma verify_ok:
  assumes "attached P H ready ser (lo, hi) key" "in_session ready ser s" "good_stack P" "openssl_succeeds S"
    and "status_error (uint hi * 256 + uint lo) = nErr_OK" "holds_public key E N" "m_len \<le> length m"
    and "n \<le> length sig"
  shows "\<exists>s'. verify_signature P H S typ m m_len sig n s =
      Some (if ssl_RSA_verify S typ (ssl_SHA1 S (take m_len m)) (take n sig) (rsa_value E N None) = 1 then nErr_OK else nErr_INSGN, s') \<and>
    in_session ready ser s' \<and> quiet s s' \<and>
    LAST_ERR_NO s' = (if ssl_RSA_verify S typ (ssl_SHA1 S (take m_len m)) (take n sig) (rsa_value E N None) = 1 then nErr_OK else nErr_INSGN)"
proof -
  let ?s = "s\<lparr>frames := frames s + 3\<rparr>" and ?st = "uint hi * 256 + uint lo"
  have len: "length E = 128" "length N = 128"
    using assms(6) by (simp_all add: holds_public_def)
  obtain s1 where d: "get_device_status P H ?s = Some (nErr_OK, s1)" "in_session ready ser s1" "quiet ?s s1"
    using device_status_ok [OF assms(1), of ?s] assms(2,5) by auto
  obtain s2 where k:
    "novin_get_public_key P H (local_array P 128 (frames s)) (local_array P 128 (frames s + 1)) s1
      = Some (nErr_OK, E @ drop 128 (local_array P 128 (frames s)),
          N @ drop 128 (local_array P 128 (frames s + 1)), s2)" "in_session ready ser s2" "quiet s1 s2"
    using session_public_key [OF assms(1) d(2) assms(3,6) local_array_pad local_array_pad] by blast
  have t: "in_session ready ser (tick s2)" using k(2) by simp
  obtain s4 where f: "fill_e_n S (E @ drop 128 (local_array P 128 (frames s)))
      (N @ drop 128 (local_array P 128 (frames s + 1))) (tick s2) = Some (rsa_value E N None, s4)" "in_session ready ser s4"
    "owns (rsa_value E N None) (tick s2) s4"
    using fill_ok(2) [OF assms(4) len t] by blast
  let ?e = "if ssl_RSA_verify S typ (ssl_SHA1 S (take m_len m)) (take n sig) (rsa_value E N None) = 1 then nErr_OK else nErr_INSGN"
  have "verify_signature P H S typ m m_len sig n s = Some (?e, set_err ?e (RSA_free (rsa_value E N None) s4))"
    unfolding verify_signature_def Let_def d(1) bind.bind_lunit prod.case k(1) RSA_new_ok [OF assms(4)]
    using f(1) assms(7,8) by (simp add: rsa_value_def rd_block_def)
  moreover have "quiet s (RSA_free (rsa_value E N None) s4)"
    using d(3) k(3) f(3) by (simp add: quiet_def owns_def)
  ultimately show ?thesis using f(2) by auto
qed

lemma public_pem_ok:
  assumes "attached P H ready ser status key" "in_session ready ser s" "good_stack P" "openssl_succeeds S"
    and "holds_public key E N" "ssl_PEM_public S (rsa_value E N None) = Some pem"
  shows "\<exists>s'. get_public_key P H S s = Some (Heap (pem @ [0]), s') \<and> in_session ready ser s' \<and>
    LAST_ERR_NO s' = nErr_OK \<and> quiet (s\<lparr>files := (files s)(''/tmp/public.txt'' := None)\<rparr>) s'"
proof -
  let ?z = "replicate 256 (0::byte)"
  have len: "length E = 128" "length N = 128" "length ?z = 128 + 128"
    using assms(5) by (simp_all add: holds_public_def)
  obtain s1 where k: "novin_get_public_key P H ?z ?z s = Some (nErr_OK, E @ drop 128 ?z, N @ drop 128 ?z, s1)"
    "in_session ready ser s1" "quiet s s1"
    using session_public_key [OF assms(1-3,5) len(3) len(3)] by blast
  have t: "in_session ready ser (tick s1)" using k(2) by simp
  obtain s3 where f: "fill_e_n S (E @ drop 128 ?z) (N @ drop 128 ?z) (tick s1) = Some (rsa_value E N None, s3)"
    "in_session ready ser s3" "owns (rsa_value E N None) (tick s1) s3"
    using fill_ok(2) [OF assms(4) len(1,2) t] by blast
  obtain s4 where p: "pem_file P S ''/tmp/public.txt'' (Some pem) True s3 = Some (nErr_OK, Heap (pem @ [0]), s4)"
    "hid s4 = hid s3" "tk s4 = tk s3" "bignums s4 = bignums s3" "streams s4 = streams s3"
    "files s4 = (files s3)(''/tmp/public.txt'' := None)"
    using assms(4) by (simp add: pem_file_def openssl_succeeds_def Let_def)
  have "get_public_key P H S s = Some (Heap (pem @ [0]), set_err nErr_OK (RSA_free (rsa_value E N None) s4))"
    unfolding get_public_key_def k(1) bind.bind_lunit prod.case RSA_new_ok [OF assms(4)]
    using f(1) p(1) assms(6) by (simp add: rsa_value_def)
  moreover have "in_session ready ser (RSA_free (rsa_value E N None) s4)"
    using f(2) p(2,3) by (simp add: in_session_def)
  moreover have "quiet (s\<lparr>files := (files s)(''/tmp/public.txt'' := None)\<rparr>) (RSA_free (rsa_value E N None) s4)"
    using k(3) f(3) p(3-6) by (simp add: quiet_def owns_def)
  ultimately show ?thesis by auto
qed

section \<open>Opening a session\<close>

lemma first_device_ok:
  assumes "present P H ready ser" "ready (hid s)"
  shows "\<exists>s'. get_first_device P H s = Some s' \<and> ready (hid s') \<and> active_token ser (tk s') \<and>
    selected (tk s' ! 0) = 0 \<and> LAST_ERR_NO s' = nErr_OK \<and> quiet s (retoken s s') \<and> session_ok (tk s')"
proof -
  obtain hx where hx: "hex_printer hx" "lists H ready (Some (serial_string hx ser))"
    and ser: "length ser = 4" "ascii_locale (wc_to_mb P)"
    using assms(1) unfolding present_def by blast
  obtain d h1 h2 where d: "serial_number d = Some (serial_string hx ser)"
    and h: "api_enumerate H VID PID (hid s) = Some ([d], h1)" "api_free_enumeration H [d] h1 = Some h2" "ready h2"
    using hx(2) assms(2) unfolding lists_def by blast
  have cnv: "cnv_hex_to_decimal_serial (wc_to_mb P) (local_array P 16 (frames s)) (serial_number d) = Some ser"
    using cnv_serial_string [OF ser(2) hx(1) ser(1), of "local_array P 16 (frames s)" "[]"] d by simp
  let ?t = "zero_token\<lparr>serial := ser\<rparr>"
  have z: "zero_tk = zero_token # replicate 7 zero_token"
    by (simp add: zero_tk_def const_simps numeral_eq_Suc)
  have "get_first_device P H s = Some (set_err nErr_OK
      (s\<lparr>tk := (?t\<lparr>inUse := 1\<rparr>) # replicate 7 zero_token, hid := h2, frames := Suc (frames s)\<rparr>))"
    using h(1,2) cnv by (simp add: get_first_device_def Let_def z buf_simps)
  moreover have "tk_ok ((?t\<lparr>inUse := 1\<rparr>) # replicate 7 zero_token)"
    using ser(1) by (simp add: tk_ok_def const_simps list_all_iff zero_token_def)
  moreover have "list_all (\<lambda>t. inUse t = 0 \<and> selected t = 0) (replicate 7 zero_token)"
    by (simp add: list_all_iff zero_token_def)
  ultimately show ?thesis
    using h(3) by (simp add: active_token_def quiet_def retoken_def zero_token_def session_ok_def)
qed

lemma select_device_ok:
  assumes "present P H ready ser" "ready (hid s)" "active_token ser (tk s)"
  shows "\<exists>s'. select_device P H ser s = Some s' \<and> in_session ready ser s' \<and> LAST_ERR_NO s' = nErr_OK \<and>
    quiet s (retoken s s')"
proof -
  obtain s1 where c: "check_dev_connected P H ser s = Some (nErr_OK, s1)" "ready (hid s1)" "quiet s s1"
    using check_connected_ok [OF assms(1,2)] by blast
  have t1: "tk s1 = tk s" using c(3) by (simp add: quiet_def)
  have tok: "tk_ok (tk s)" using assms(3) by (simp add: active_token_def)
  then have len: "length (tk s) = 8" by (rule tk_ok_length)
  then have ne: "tk s \<noteq> []" by auto
  let ?s = "set_err nErr_OK (s1\<lparr>tk := (tk s)[0 := (tk s ! 0)\<lparr>selected := 1\<rparr>]\<rparr>)"
  have "select_device P H ser s = Some ?s"
    using active_token_GET [OF assms(3), of "past_tk P"] active_token_at [OF assms(3)] c(1) ne
    by (simp add: select_device_def t1 const_simps wr_def)
  moreover have "tk_ok ((tk s)[0 := (tk s ! 0)\<lparr>selected := 1\<rparr>])"
    using tok len by (auto simp: tk_ok_def list_all_length upd_nth)
  ultimately show ?thesis
    using assms(3) c(2,3) len by (simp add: in_session_def active_token_def quiet_def retoken_def)
qed

lemma current_serial_ok:
  assumes "present P H ready ser" "ready (hid s)" "active_token ser (tk s)" "4 \<le> length buf"
  shows "\<exists>s'. get_curr_dev_serial P H buf s = Some (ser @ drop 4 buf, s') \<and> ready (hid s') \<and> quiet s s' \<and>
    LAST_ERR_NO s' = nErr_OK"
proof -
  obtain s1 where c: "check_dev_connected P H ser s = Some (nErr_OK, s1)" "ready (hid s1)" "quiet s s1"
    using check_connected_ok [OF assms(1,2)] by blast
  have ser: "serial (tk s ! 0) = ser" "length ser = 4"
    using assms(1,3) by (simp_all add: active_token_def present_def)
  show ?thesis
    using active_token_GET [OF assms(3), of "past_tk P"] active_token_at [OF assms(3)] c ser assms(4)
    by (simp add: get_curr_dev_serial_def const_simps rd_block_def wr_block_def)
qed

end
