(* ===== verification/UsbToken.thy ===== *)
theory UsbToken
  imports HidLibusbContract TokenSession
begin

text \<open>
  The token library on top of \<^verbatim>\<open>hid-libusb.c\<close>: a description of a bus with one token on it, as USB and
  the documentation of libusb have it, and the proof that through this implementation the token is
  found, opened and talked to as the library needs it.
\<close>

section \<open>A bus with a token\<close>

text \<open>A string the device does not have, or offers.\<close>

definition may_offer :: "usb_env \<Rightarrow> usb_device \<Rightarrow> byte \<Rightarrow> wchar list option \<Rightarrow> bool" where
  "may_offer E dev idx str \<longleftrightarrow>
     (case str of None \<Rightarrow> idx = 0 | Some cs \<Rightarrow> 0 < idx \<and> offers_string E dev idx cs)"

text \<open>
  \<open>listed_bus E dev alt hx ser\<close>: libusb works, \<open>dev\<close> is the one device on the bus, with one HID
  interface; it has the token's ids and offers its serial number as a hex string.
  \<open>token_bus\<close>: moreover its interface can be claimed, it accepts feature reports, and it answers a request
  for report 2 that follows one as \<open>f\<close> says. \<open>busy_bus\<close>: the interface is claimed by somebody else.
\<close>

definition listed_bus ::
    "usb_env \<Rightarrow> usb_device \<Rightarrow> usb_altsetting \<Rightarrow> (nat \<Rightarrow> wchar) \<Rightarrow> byte list \<Rightarrow> bool" where
  "listed_bus E dev alt hx ser \<longleftrightarrow>
     (\<forall>tr. env_init E tr = 0 \<and> env_list E tr = Some [dev] \<and> 0 \<le> env_open E tr dev) \<and>
     (\<forall>tr i. 0 \<le> env_detach E tr dev i) \<and>
     active_config dev = Some [[alt]] \<and> bInterfaceClass alt = LIBUSB_CLASS_HID \<and>
     idVendor dev = VID \<and> idProduct dev = PID \<and>
     may_offer E dev (iSerialNumber dev) (Some (serial_string hx ser)) \<and>
     (\<exists>mf. may_offer E dev (iManufacturer dev) mf) \<and> (\<exists>pr. may_offer E dev (iProduct dev) pr)"

definition token_bus ::
    "usb_env \<Rightarrow> usb_device \<Rightarrow> usb_altsetting \<Rightarrow> (nat \<Rightarrow> wchar) \<Rightarrow> byte list \<Rightarrow> (byte list \<Rightarrow> byte list) \<Rightarrow> bool" where
  "token_bus E dev alt hx ser f \<longleftrightarrow> listed_bus E dev alt hx ser \<and>
     (\<forall>tr i. 0 \<le> env_claim E tr dev i) \<and>
     (\<forall>tr w i p. 0 \<le> env_control_out E tr dev w i p) \<and>
     (\<forall>tr h w i p. env_control_in E (tr @ [CControlOut h w i p]) dev 0x0302 i 18 = Some (token_answer ser f p))"

definition busy_bus ::
    "usb_env \<Rightarrow> usb_device \<Rightarrow> usb_altsetting \<Rightarrow> (nat \<Rightarrow> wchar) \<Rightarrow> byte list \<Rightarrow> bool" where
  "busy_bus E dev alt hx ser \<longleftrightarrow> listed_bus E dev alt hx ser \<and> (\<forall>tr i. env_claim E tr dev i < 0)"

lemma token_bus_listed: "token_bus E dev alt hx ser f \<Longrightarrow> listed_bus E dev alt hx ser"
  by (simp add: token_bus_def)

lemma indexed_string_ok:
  assumes "handles s h = Some dev" "may_offer E dev idx str"
  shows "\<exists>s'. indexed_string E h idx s = Some (str, s') \<and> plus_blocks (some_block str) s s'"
  using assms get_usb_string_ok [of s h dev E idx]
  by (cases str) (auto simp: indexed_string_def may_offer_def plus_blocks_def)

definition token_info ::
    "usb_device \<Rightarrow> usb_altsetting \<Rightarrow> wchar list option \<Rightarrow> wchar list option \<Rightarrow> wchar list option \<Rightarrow> hid_device_info" where
  "token_info dev alt sn mf pr =
     \<lparr>path = Some (make_path dev (bInterfaceNumber alt)), vendor_id = idVendor dev, product_id = idProduct dev,
      serial_number = sn, release_number = bcdDevice dev, manufacturer_string = mf, product_string = pr,
      usage_page = 0, usage = 0, interface_number = uint (bInterfaceNumber alt)\<rparr>"

lemma plus_blocks_handles: "plus_blocks n s s' \<Longrightarrow> handles s' = handles s"
  by (simp add: plus_blocks_def traced_iff)

lemma describe_token:
  assumes "\<And>tr. 0 \<le> env_open E tr dev" "may_offer E dev (iSerialNumber dev) sn"
    "may_offer E dev (iManufacturer dev) mf" "may_offer E dev (iProduct dev) pr"
  shows "\<exists>s'. describe_interface E dev alt s = Some (token_info dev alt sn mf pr, s')"
proof -
  let ?s = "s\<lparr>ublocks := ublocks s + 2\<rparr>" and ?h = "next_handle s"
  let ?s1 = "(note_call (COpen dev) ?s)\<lparr>handles := (handles s)(?h \<mapsto> dev), next_handle := ?h + 1\<rparr>"
  let ?r = "env_open E (trace s) dev"
  have r: "\<not> ?r < 0" using assms(1) by (simp add: not_less)
  then have o: "libusb_open E dev ?s = (?r, ?h, ?s1)"
    by (simp add: libusb_open_def Let_def note_call_def)
  have h1: "handles ?s1 ?h = Some dev" by simp
  obtain t1 where t1: "indexed_string E ?h (iSerialNumber dev) ?s1 = Some (sn, t1)" "handles t1 = handles ?s1"
    using indexed_string_ok [OF h1 assms(2)] plus_blocks_handles by blast
  then have h2: "handles t1 ?h = Some dev" by simp
  obtain t2 where t2: "indexed_string E ?h (iManufacturer dev) t1 = Some (mf, t2)" "handles t2 = handles t1"
    using indexed_string_ok [OF h2 assms(3)] plus_blocks_handles by blast
  then have h3: "handles t2 ?h = Some dev" using h2 by simp
  obtain t3 where t3: "indexed_string E ?h (iProduct dev) t2 = Some (pr, t3)" "handles t3 = handles t2"
    using indexed_string_ok [OF h3 assms(4)] plus_blocks_handles by blast
  then have "\<exists>t4. libusb_close ?h t3 = Some t4" using h3 by (simp add: libusb_close_def)
  then show ?thesis
    using o r t1(1) t2(1) t3(1) by (auto simp: describe_interface_def token_info_def Let_def)
qed

lemma hid_init_ok:
  assumes "\<And>tr. env_init E tr = 0"
  shows "\<exists>s'. hid_init E s = (0, s') \<and> balanced 0 s s' \<and> usb_context s'"
proof -
  obtain r s' where h: "hid_init E s = (r, s')" by (cases "hid_init E s")
  then have "r = 0" using assms by (auto simp: hid_init_def libusb_init_def Let_def split: if_splits)
  then show ?thesis using hid_init_balanced [OF h] h by simp
qed

text \<open>Enumerating the token's ids yields one node, the same every time.\<close>

lemma token_enumerate:
  assumes "listed_bus E dev alt hx ser"
  shows "\<exists>d. serial_number d = Some (serial_string hx ser) \<and> vendor_id d = VID \<and> product_id d = PID \<and>
    path d = Some (make_path dev (bInterfaceNumber alt)) \<and>
    (\<forall>s. \<exists>s'. hid_enumerate E VID PID s = Some ([d], s'))"
proof -
  obtain mf pr where b: "\<And>tr. env_init E tr = 0" "\<And>tr. env_list E tr = Some [dev]" "\<And>tr. 0 \<le> env_open E tr dev"
    "active_config dev = Some [[alt]]" "bInterfaceClass alt = LIBUSB_CLASS_HID"
    "idVendor dev = VID" "idProduct dev = PID"
    "may_offer E dev (iSerialNumber dev) (Some (serial_string hx ser))"
    "may_offer E dev (iManufacturer dev) mf" "may_offer E dev (iProduct dev) pr"
    using assms unfolding listed_bus_def by auto
  let ?d = "token_info dev alt (Some (serial_string hx ser)) mf pr"
  have "\<exists>s'. hid_enumerate E VID PID s = Some ([?d], s')" for s
  proof -
    obtain s1 where i: "hid_init E s = (0, s1)" using hid_init_ok [of E s] b(1) by blast
    obtain s2 where "describe_interface E dev alt (note_call CGetList s1) = Some (?d, s2)"
      using describe_token [of E dev] b(3,8-10) by blast
    then show ?thesis
      using i b(2,4-7) by (simp add: hid_enumerate_def libusb_get_device_list_def id_match_def)
  qed
  then show ?thesis
    using b(6,7) by (intro exI [of _ ?d]) (simp add: token_info_def)
qed

section \<open>Opening the token\<close>

text \<open>\<open>connected dev i a s\<close>: \<open>a\<close> is a live device structure, open on interface \<open>i\<close> of \<open>dev\<close>.\<close>

definition connected :: "usb_device \<Rightarrow> byte \<Rightarrow> nat \<Rightarrow> ust \<Rightarrow> bool" where
  "connected dev i a s \<longleftrightarrow> (\<exists>d h. heap s a = Some d \<and> device_handle d = Some h \<and> threads d = 1 \<and>
     interface d = i \<and> handles s h = Some dev)"

lemma connected_traced: "traced s s' \<Longrightarrow> connected dev i a s \<Longrightarrow> connected dev i a s'"
  by (simp add: connected_def traced_iff)

lemma start_device_interface: "interface (start_device dev alt d) = bInterfaceNumber alt"
proof -
  have "interface (foldl pick_endpoint e eps) = interface e" for e eps
    by (induction eps arbitrary: e) (simp_all add: pick_endpoint_def Let_def)
  then show ?thesis by (simp add: start_device_def Let_def)
qed

lemma on_handle_ok: "handles s h = Some dev \<Longrightarrow> on_handle h c g s = Some (g (trace s) dev, note_call c s)"
  by (simp add: on_handle_def)

lemma detach_ok:
  assumes "handles s h = Some dev" "\<And>tr i. 0 \<le> env_detach E tr dev i"
  obtains r s' where "(if c then libusb_detach_kernel_driver E h i s else Some (0, s)) = Some (r, s')"
    "\<not> r < 0" "traced s s'"
proof (cases c)
  case True
  have "libusb_detach_kernel_driver E h i s = Some (env_detach E (trace s) dev i, note_call (CDetach h i) s)"
    by (simp add: libusb_detach_kernel_driver_def on_handle_ok [OF assms(1)])
  then show ?thesis
    using that [of "env_detach E (trace s) dev i" "note_call (CDetach h i) s"] True assms(2) by (simp add: not_less)
next
  case False
  then show ?thesis using that [of 0 s] by simp
qed

text \<open>Up to the claim, whose outcome decides.\<close>

lemma open_interface_claim:
  assumes "\<And>tr. 0 \<le> env_open E tr dev" "\<And>tr i. 0 \<le> env_detach E tr dev i" "heap s a = Some d"
  obtains h s5 tr where "handles s5 h = Some dev" "heap s5 a = Some (d\<lparr>device_handle := Some h\<rparr>)"
    "open_interface E a dev alt s =
      (if env_claim E tr dev (bInterfaceNumber alt) < 0
       then do { s6 \<leftarrow> libusb_close h s5; Some (Setup_failed, s6) }
       else do { s6 \<leftarrow> update_dev a (start_device dev alt) s5; Some (Opened, s6) })"
proof -
  let ?i = "bInterfaceNumber alt"
  obtain r h s1 where o: "libusb_open E dev s = (r, h, s1)" "\<not> r < 0" "handles s1 h = Some dev" "heap s1 = heap s"
    using assms(1) [of "trace s"] by (simp add: libusb_open_def Let_def note_call_def not_less [symmetric])
  let ?d2 = "d\<lparr>device_handle := Some h\<rparr>"
  obtain s2 where u: "update_dev a (\<lambda>d. d\<lparr>device_handle := Some h\<rparr>) s1 = Some s2"
    "handles s2 h = Some dev" "heap s2 a = Some ?d2"
    using assms(3) o(3,4) by (simp add: update_dev_def)
  obtain ka s3 where k: "libusb_kernel_driver_active E h ?i s2 = Some (ka, s3)" "traced s2 s3"
    by (simp add: libusb_kernel_driver_active_def on_handle_ok [OF u(2)])
  have t3: "handles s3 h = Some dev" using k(2) u(2) by (simp add: traced_iff)
  obtain res2 s4 where dt: "(if ka = 1 then libusb_detach_kernel_driver E h ?i s3 else Some (0, s3)) = Some (res2, s4)"
    "\<not> res2 < 0" "traced s3 s4"
    by (rule detach_ok [OF t3 assms(2)])
  have h4: "handles s4 h = Some dev" "heap s4 a = Some ?d2"
    using k(2) u dt(3) by (simp_all add: traced_iff)
  obtain s5 where c: "libusb_claim_interface E h ?i s4 = Some (env_claim E (trace s4) dev ?i, s5)" "traced s4 s5"
    by (simp add: libusb_claim_interface_def on_handle_ok [OF h4(1)])
  show ?thesis
  proof (rule that [of s5 h "trace s4"])
    show "handles s5 h = Some dev" "heap s5 a = Some ?d2" using h4 c(2) by (simp_all add: traced_iff)
  qed (use o u(1) k(1) dt(1,2) c(1) in \<open>simp add: open_interface_def\<close>)
qed

lemma open_interface_ok:
  assumes "\<And>tr. 0 \<le> env_open E tr dev" "\<And>tr i. 0 \<le> env_detach E tr dev i" "\<And>tr i. 0 \<le> env_claim E tr dev i"
    and "heap s a = Some d" "threads d = 0"
  shows "\<exists>s'. open_interface E a dev alt s = Some (Opened, s') \<and> connected dev (bInterfaceNumber alt) a s'"
proof -
  obtain h s5 tr where c: "handles s5 h = Some dev" "heap s5 a = Some (d\<lparr>device_handle := Some h\<rparr>)"
    "open_interface E a dev alt s =
      (if env_claim E tr dev (bInterfaceNumber alt) < 0
       then do { s6 \<leftarrow> libusb_close h s5; Some (Setup_failed, s6) }
       else do { s6 \<leftarrow> update_dev a (start_device dev alt) s5; Some (Opened, s6) })"
    using open_interface_claim [OF assms(1,2,4)] by metis
  have "\<not> env_claim E tr dev (bInterfaceNumber alt) < 0" using assms(3) by (simp add: not_less)
  then show ?thesis
    using c assms(5) by (simp add: update_dev_def connected_def start_device_fields start_device_interface)
qed

text \<open>
  \<open>hid_open\<close> on such a bus: enumerate, take the one path, allocate a structure and try the one
  interface; \<open>r\<close> is what becomes of that.
\<close>

lemma listed_open:
  assumes "listed_bus E dev alt hx ser"
  obtains a s0 d where "heap s0 a = Some d" "threads d = 0"
    "\<And>r s'. open_interface E a dev alt s0 = Some (r, s') \<Longrightarrow> r = Opened \<Longrightarrow>
      \<exists>k. hid_open E VID PID None s = Some (Some a, s'\<lparr>ublocks := k\<rparr>)"
    "\<And>r s'. open_interface E a dev alt s0 = Some (r, s') \<Longrightarrow> r = Setup_failed \<Longrightarrow> map_option threads (heap s' a) = Some 0 \<Longrightarrow>
      \<exists>s''. hid_open E VID PID None s = Some (None, s'')"
proof -
  let ?i = "bInterfaceNumber alt"
  have b: "\<And>tr. env_init E tr = 0" "\<And>tr. env_list E tr = Some [dev]"
    "active_config dev = Some [[alt]]" "bInterfaceClass alt = LIBUSB_CLASS_HID"
    using assms unfolding listed_bus_def by auto
  obtain d s1 where e: "hid_enumerate E VID PID s = Some ([d], s1)" "vendor_id d = VID" "product_id d = PID"
    "path d = Some (make_path dev ?i)"
    using token_enumerate [OF assms] by blast
  let ?a = "next_dev s1" and ?z = "zero_dev\<lparr>blocking := True\<rparr>"
  let ?t = "s1\<lparr>heap := (heap s1)(?a \<mapsto> ?z), next_dev := ?a + 1\<rparr>"
  obtain s2 where i: "hid_init E ?t = (0, s2)" "balanced 0 ?t s2" using hid_init_ok [of E ?t] b(1) by blast
  let ?s0 = "note_call CGetList s2"
  have h2: "heap ?s0 ?a = Some ?z" using i(2) by (simp add: balanced_def note_call_def)
  have z: "threads ?z = 0" by (simp add: zero_dev_def)
  have p: "hid_open_path E (make_path dev ?i) s1 = (do {
      (r, s') \<leftarrow> open_interface E ?a dev alt ?s0;
      case r of Opened \<Rightarrow> Some (Some ?a, s')
      | _ \<Rightarrow> do { s5 \<leftarrow> free_hid_device ?a s'; Some (None, s5) } })"
    using i(1) b(2-4)
    by (cases "open_interface E ?a dev alt ?s0")
      (auto simp: hid_open_path_def new_hid_device_def Let_def libusb_get_device_list_def split: open_outcome.splits)
  show ?thesis
    by (rule that [OF h2 z])
      (use e p in \<open>auto simp: hid_open_def free_hid_device_def hid_free_enumeration_eq\<close>)
qed

lemma token_open:
  assumes "token_bus E dev alt hx ser f"
  shows "\<exists>a s'. hid_open E VID PID None s = Some (Some a, s') \<and> connected dev (bInterfaceNumber alt) a s'"
proof -
  have b: "\<And>tr. 0 \<le> env_open E tr dev" "\<And>tr i. 0 \<le> env_detach E tr dev i" "\<And>tr i. 0 \<le> env_claim E tr dev i"
    using assms unfolding token_bus_def listed_bus_def by auto
  obtain a s0 d where o: "heap s0 a = Some d" "threads d = 0"
    "\<And>r s'. open_interface E a dev alt s0 = Some (r, s') \<Longrightarrow> r = Opened \<Longrightarrow>
      \<exists>k. hid_open E VID PID None s = Some (Some a, s'\<lparr>ublocks := k\<rparr>)"
    using listed_open [OF token_bus_listed [OF assms]] by metis
  obtain s' where s': "open_interface E a dev alt s0 = Some (Opened, s')" "connected dev (bInterfaceNumber alt) a s'"
    using open_interface_ok [OF b o(1,2)] by blast
  then obtain k where "hid_open E VID PID None s = Some (Some a, s'\<lparr>ublocks := k\<rparr>)" using o(3) by blast
  moreover have "connected dev (bInterfaceNumber alt) a (s'\<lparr>ublocks := k\<rparr>)"
    using s'(2) by (simp add: connected_def)
  ultimately show ?thesis by blast
qed

lemma busy_open:
  assumes "busy_bus E dev alt hx ser"
  shows "\<exists>s'. hid_open E VID PID None s = Some (None, s')"
proof -
  have b: "\<And>tr. 0 \<le> env_open E tr dev" "\<And>tr i. 0 \<le> env_detach E tr dev i" "\<And>tr i. env_claim E tr dev i < 0"
    and l: "listed_bus E dev alt hx ser"
    using assms unfolding busy_bus_def listed_bus_def by auto
  obtain a s0 d where o: "heap s0 a = Some d" "threads d = 0"
    "\<And>r s'. open_interface E a dev alt s0 = Some (r, s') \<Longrightarrow> r = Setup_failed \<Longrightarrow> map_option threads (heap s' a) = Some 0 \<Longrightarrow>
      \<exists>s''. hid_open E VID PID None s = Some (None, s'')"
    using listed_open [OF l] by metis
  obtain h s5 where c: "handles s5 h = Some dev" "heap s5 a = Some (d\<lparr>device_handle := Some h\<rparr>)"
    "open_interface E a dev alt s0 = do { s6 \<leftarrow> libusb_close h s5; Some (Setup_failed, s6) }"
    using open_interface_claim [OF b(1,2) o(1)] b(3) by metis
  obtain s6 where "libusb_close h s5 = Some s6" "heap s6 = heap s5"
    using c(1) by (simp add: libusb_close_def note_call_def)
  then show ?thesis using o(3) [of Setup_failed s6] o(2) c(2,3) by simp
qed

section \<open>Talking to it\<close>

lemma with_dev_connected:
  assumes "connected dev i a s"
  obtains d h where "with_dev a s = Some (d, h)" "interface d = i" "handles s h = Some dev" "threads d = 1"
    "handle_of s a = Some h"
  using assms by (auto simp: connected_def with_dev_def handle_of_def)

lemma c_int_small: "n \<le> 64 \<Longrightarrow> c_int n = int n"
  by (simp add: c_int_def signed_take_bit_int_eq_self)

lemma token_send:
  assumes "\<And>tr w i p. 0 \<le> env_control_out E tr dev w i p" "connected dev i a s"
    and "0 < n" "n \<le> 64" "n \<le> length buf" "buf ! 0 \<noteq> 0"
  shows "\<exists>h w s'. hid_send_feature_report E a buf n s = Some (int n, s') \<and> traced s s' \<and>
    handle_of s a = Some h \<and> trace s' = trace s @ [CControlOut h w i (take n buf)]"
proof -
  obtain d h where d: "with_dev a s = Some (d, h)" "interface d = i" "handles s h = Some dev"
    "handle_of s a = Some h"
    using with_dev_connected [OF assms(2)] by metis
  let ?w = "0x0300 OR ucast (buf ! 0) :: u16"
  let ?s = "note_call (CControlOut h ?w i (take n buf)) s"
  have c: "libusb_control_out E h ?w i (take n buf) s = Some (env_control_out E (trace s) dev ?w i (take n buf), ?s)"
    using on_handle_ok [OF d(3)] by (simp add: libusb_control_out_def)
  have m: "n mod 65536 = n" using assms(4) by simp
  have b: "buf \<noteq> []" using assms(3,5) by auto
  have "hid_send_feature_report E a buf n s = Some (int n, ?s)"
    using d c assms(1) [of "trace s" ?w i "take n buf"] assms(3-6) b
    by (simp add: hid_send_feature_report_def Let_def rd_def rd_block_def m c_int_small)
  moreover have "trace ?s = trace s @ [CControlOut h ?w i (take n buf)]" by (simp add: note_call_def)
  ultimately show ?thesis using d(4) by blast
qed

lemma token_get:
  assumes "env_control_in E (trace s) dev 0x0302 i 18 = Some ans" "connected dev i a s"
    and "length ans = 18" "18 \<le> length buf" "buf ! 0 = 2"
  shows "\<exists>s'. hid_get_feature_report E a buf 18 s = Some (18, ans @ drop 18 buf, s') \<and> traced s s'"
proof -
  obtain d h' where d: "with_dev a s = Some (d, h')" "interface d = i" "handles s h' = Some dev"
    using with_dev_connected [OF assms(2)] by metis
  let ?s = "note_call (CControlIn h' 0x0302 i 18) s"
  have b: "buf \<noteq> []" using assms(4) by auto
  have w: "(0x0300 OR ucast (2::byte)) = (0x0302 :: u16)" by code_simp
  have c: "libusb_control_in E h' 0x0302 i 18 s = Some (Some ans, ?s)"
    using assms(1,3) by (simp add: libusb_control_in_def on_handle_ok [OF d(3)])
  have "hid_get_feature_report E a buf 18 s = Some (18, ans @ drop 18 buf, ?s)"
    using d c assms(3-5) b w by (simp add: hid_get_feature_report_def Let_def rd_def wr_block_def)
  then show ?thesis by blast
qed

text \<open>The worker thread is running, so \<open>hid_close\<close> can join it and free the structure.\<close>

lemma token_close:
  assumes "connected dev i a s"
  shows "\<exists>s'. hid_close (Some a) s = Some s'"
proof -
  obtain d h where d: "heap s a = Some d" "device_handle d = Some h" "threads d = 1" "handles s h = Some dev"
    using assms by (auto simp: connected_def)
  let ?d1 = "d\<lparr>shutdown_thread := True, threads := 0\<rparr>"
  obtain s1 where u: "update_dev a (\<lambda>d. d\<lparr>shutdown_thread := True, threads := threads d - 1\<rparr>) s = Some s1"
    "heap s1 a = Some ?d1" "handles s1 = handles s"
    using d by (simp add: update_dev_def)
  have h1: "handles s1 h = Some dev" using u(3) d(4) by simp
  obtain s2 where r: "libusb_release_interface h (interface d) s1 = Some ((), s2)" "traced s1 s2"
    by (simp add: libusb_release_interface_def on_handle_ok [OF h1])
  obtain s3 where c: "libusb_close h s2 = Some s3" "heap s3 = heap s2"
    using r(2) h1 by (auto simp: libusb_close_def traced_iff note_call_def)
  have h3: "heap s3 a = Some ?d1" using c(2) r(2) u(2) by (simp add: traced_iff)
  show ?thesis
    using d u(1) r(1) c(1) h3
    by (simp add: hid_close_def with_dev_def clear_queue_ok update_dev_def free_hid_device_def)
qed

section \<open>The token is attached\<close>

text \<open>What a bus description says besides the enumeration.\<close>

lemma token_busD:
  assumes "token_bus E dev alt hx ser f"
  shows "\<And>tr w i p. 0 \<le> env_control_out E tr dev w i p"
    and "\<And>tr h w i p. env_control_in E (tr @ [CControlOut h w i p]) dev 0x0302 i 18 = Some (token_answer ser f p)"
  using assms unfolding token_bus_def by auto

lemma token_report:
  assumes "token_bus E dev alt hx ser f" "\<And>p. length (f p) = 17"
    and "usb_inv s" "connected dev i a s" "a \<in> usb_live s"
    and "0 < n" "n \<le> 64" "n \<le> length buf" "buf ! 0 \<noteq> 0"
  shows "\<exists>s2. hid_send_feature_report E a buf n s = Some (int n, s2) \<and>
    (\<forall>buf'. 18 \<le> length buf' \<longrightarrow> buf' ! 0 = of_nat ReportID_GetLarge \<longrightarrow>
      (\<exists>s3 s4 r5 s5. hid_get_feature_report E a buf' 18 s2 =
          Some (18, token_answer ser f (take n buf) @ drop 18 buf', s3) \<and>
        hid_close (Some a) s3 = Some s4 \<and> hid_exit s4 = (r5, s5) \<and> usb_inv s5))"
proof -
  obtain h w s2 where d: "hid_send_feature_report E a buf n s = Some (int n, s2)" "traced s s2"
    "trace s2 = trace s @ [CControlOut h w i (take n buf)]"
    using token_send [OF token_busD(1) [OF assms(1)] assms(4,6-9)] by blast
  have c2: "connected dev i a s2" by (rule connected_traced [OF d(2) assms(4)])
  have l: "length (token_answer ser f (take n buf)) = 18"
    using assms(2) by (simp add: token_answer_def mask_response_def)
  have in2: "env_control_in E (trace s2) dev 0x0302 i 18 = Some (token_answer ser f (take n buf))"
    unfolding d(3) by (rule token_busD(2) [OF assms(1)])
  have "\<exists>s3 s4 r5 s5. hid_get_feature_report E a buf' 18 s2 =
          Some (18, token_answer ser f (take n buf) @ drop 18 buf', s3) \<and>
        hid_close (Some a) s3 = Some s4 \<and> hid_exit s4 = (r5, s5) \<and> usb_inv s5"
    if b: "18 \<le> length buf'" "buf' ! 0 = of_nat ReportID_GetLarge" for buf'
  proof -
    obtain s3 where g: "hid_get_feature_report E a buf' 18 s2 =
        Some (18, token_answer ser f (take n buf) @ drop 18 buf', s3)" "traced s2 s3"
      using token_get [OF in2 c2 l] b by (auto simp: ReportID_GetLarge_def)
    have t: "traced s s3" using d(2) g(2) by (simp add: traced_iff)
    obtain s4 where cl: "hid_close (Some a) s3 = Some s4"
      using token_close [OF connected_traced [OF g(2) c2]] by blast
    have i3: "usb_inv s3" "a \<in> usb_live s3"
      using balanced_inv [OF balanced_traced [OF t] assms(3)] assms(5) by simp_all
    obtain r5 s5 where x: "hid_exit s4 = (r5, s5)" by (cases "hid_exit s4")
    have "usb_inv s5" using hid_close_law [OF i3 cl] hid_exit_inv [OF _ x] by blast
    then show ?thesis using g(1) cl x by blast
  qed
  then show ?thesis using d(1) by blast
qed

lemma token_serves:
  assumes "token_bus E dev alt hx ser f" "\<And>p. length (f p) = 17"
  shows "serves (libusb_backend E) usb_inv (token_answer ser f)"
  unfolding serves_def
proof (intro allI impI)
  fix s assume i: "usb_inv s"
  obtain a s1 where o: "hid_open E VID PID None s = Some (Some a, s1)" "connected dev (bInterfaceNumber alt) a s1"
    using token_open [OF assms(1)] by blast
  have i1: "usb_inv s1" "a \<in> usb_live s1"
    using hid_open_law [OF i o(1)] by simp_all
  show "\<exists>d h1. api_open (libusb_backend E) VID PID None s = Some (Some d, h1) \<and>
       (\<forall>buf n. 0 < n \<longrightarrow> n \<le> 64 \<longrightarrow> n \<le> length buf \<longrightarrow> buf ! 0 \<noteq> 0 \<longrightarrow>
         (\<exists>r2 h2. api_send_feature_report (libusb_backend E) d buf n h1 = Some (r2, h2) \<and> 0 \<le> r2 \<and>
           (\<forall>buf'. 18 \<le> length buf' \<longrightarrow> buf' ! 0 = of_nat ReportID_GetLarge \<longrightarrow>
             (\<exists>r3 h3 h4 r5 h5.
               api_get_feature_report (libusb_backend E) d buf' 18 h2 =
                 Some (r3, token_answer ser f (take n buf) @ drop 18 buf', h3) \<and>
               0 \<le> r3 \<and> api_close (libusb_backend E) (Some d) h3 = Some h4 \<and>
               api_exit (libusb_backend E) h4 = Some (r5, h5) \<and> usb_inv h5))))"
  proof (intro exI [of _ a] exI [of _ s1] conjI allI impI)
    show "api_open (libusb_backend E) VID PID None s = Some (Some a, s1)"
      using o(1) by (simp add: libusb_backend_def)
  next
    fix buf :: "byte list" and n
    assume b: "0 < n" "n \<le> 64" "n \<le> length buf" "buf ! 0 \<noteq> 0"
    show "\<exists>r2 h2. api_send_feature_report (libusb_backend E) a buf n s1 = Some (r2, h2) \<and> 0 \<le> r2 \<and>
           (\<forall>buf'. 18 \<le> length buf' \<longrightarrow> buf' ! 0 = of_nat ReportID_GetLarge \<longrightarrow>
             (\<exists>r3 h3 h4 r5 h5.
               api_get_feature_report (libusb_backend E) a buf' 18 h2 =
                 Some (r3, token_answer ser f (take n buf) @ drop 18 buf', h3) \<and>
               0 \<le> r3 \<and> api_close (libusb_backend E) (Some a) h3 = Some h4 \<and>
               api_exit (libusb_backend E) h4 = Some (r5, h5) \<and> usb_inv h5))"
      using token_report [OF assms i1(1) o(2) i1(2) b] by (fastforce simp: libusb_backend_def)
  qed
qed

lemma token_lists:
  assumes "listed_bus E dev alt hx ser"
  shows "lists (libusb_backend E) usb_inv (Some (serial_string hx ser))"
proof -
  obtain d where d: "serial_number d = Some (serial_string hx ser)"
    "\<And>s. \<exists>s'. hid_enumerate E VID PID s = Some ([d], s')"
    using token_enumerate [OF assms] by blast
  have "\<exists>h1 h2. api_enumerate (libusb_backend E) VID PID s = Some ([d], h1) \<and>
     api_free_enumeration (libusb_backend E) [d] h1 = Some h2 \<and> usb_inv h2" if i: "usb_inv s" for s
  proof -
    obtain s1 where e: "hid_enumerate E VID PID s = Some ([d], s1)" using d(2) by blast
    have "fresh_ids s" using i by (simp add: usb_inv_def)
    then have "usb_inv s1" using hid_enumerate_balanced [OF _ e] balanced_inv i by blast
    then have "usb_inv (hid_free_enumeration [d] s1)"
      using balanced_inv [OF hid_free_enumeration_balanced] by blast
    then show ?thesis using e by (simp add: libusb_backend_def)
  qed
  then show ?thesis using d(1) unfolding lists_def by blast
qed

lemma listed_present:
  assumes "listed_bus E dev alt hx ser" "hex_printer hx" "length ser = 4" "ascii_locale (wc_to_mb P)"
  shows "present P (libusb_backend E) usb_inv ser"
  using token_lists [OF assms(1)] assms(2-4) unfolding present_def by blast

theorem token_attached:
  assumes "token_bus E dev alt hx ser (token_model status key)" "hex_printer hx" "length ser = 4"
    "ascii_locale (wc_to_mb P)"
  shows "attached P (libusb_backend E) usb_inv ser status key"
  using listed_present [OF token_bus_listed [OF assms(1)] assms(2-4)] token_serves [OF assms(1)]
  by (simp add: attached_def)

lemma busy_refuses:
  assumes "busy_bus E dev alt hx ser"
  shows "refuses (libusb_backend E) usb_inv"
  unfolding refuses_def
proof (intro allI impI)
  fix s assume i: "usb_inv s"
  obtain s1 where o: "hid_open E VID PID None s = Some (None, s1)" using busy_open [OF assms] by blast
  have i1: "usb_inv s1" using hid_open_law [OF i o] by simp
  obtain r s2 where x: "hid_exit s1 = (r, s2)" by (cases "hid_exit s1")
  show "\<exists>h1 h2 r h3. api_open (libusb_backend E) VID PID None s = Some (None, h1) \<and>
     api_close (libusb_backend E) None h1 = Some h2 \<and> api_exit (libusb_backend E) h2 = Some (r, h3) \<and> usb_inv h3"
    using o x hid_exit_inv [OF i1 x] by (simp add: libusb_backend_def hid_close_def)
qed

text \<open>\<open>plugged\<close>: such a bus, a serial of four bytes, and a locale that encodes ASCII as itself.\<close>

definition plugged ::
    "platform \<Rightarrow> usb_env \<Rightarrow> byte list \<Rightarrow> byte \<times> byte \<Rightarrow> (byte \<Rightarrow> byte list \<Rightarrow> byte + byte list) \<Rightarrow> bool" where
  "plugged P E ser status key \<longleftrightarrow> length ser = 4 \<and> ascii_locale (wc_to_mb P) \<and>
     (\<exists>dev alt hx. hex_printer hx \<and> token_bus E dev alt hx ser (token_model status key))"

lemma plugged_attached: "plugged P E ser status key \<Longrightarrow> attached P (libusb_backend E) usb_inv ser status key"
  unfolding plugged_def using token_attached by blast

text \<open>The contract of the client, for this implementation.\<close>

interpretation usbcall: hid_call "libusb_backend E" usb_inv usb_held usb_over ublocks s0 for E s0
  by (rule hid_call.intro) (rule usb.hid_backend_axioms)

end
