(* ===== verification/TokenExample.thy ===== *)
theory TokenExample
  imports UsbToken
begin

text \<open>
  One concrete bus with one concrete token, an OpenSSL that works, and a stack layout: the input the
  properties of the token library are applied to.
\<close>

definition example_ser :: "byte list" where
  "example_ser = [0x5b, 0, 2, 0x6e]"

text \<open>The public exponent 65537, a modulus and a private exponent under the password of sixteen ones.\<close>

definition example_E :: "byte list" where "example_E = replicate 125 0 @ [1, 0, 1]"
definition example_N :: "byte list" where "example_N = replicate 128 0xC5"
definition example_D :: "byte list" where "example_D = replicate 128 0x35"
definition example_pwd :: "byte list" where "example_pwd = replicate 16 0x31"

definition example_key :: "byte \<Rightarrow> byte list \<Rightarrow> byte + byte list" where
  "example_key kt pwd =
     (if kt = of_nat KT_Public then Inr example_E
      else if kt = of_nat KT_Exponent then Inr example_N
      else if kt = of_nat KT_Private then if pwd = example_pwd then Inr example_D else Inl 5
      else Inl 1)"

definition example_alt :: usb_altsetting where
  "example_alt = \<lparr>bInterfaceNumber = 0, bInterfaceClass = 3,
     endpoint_list = [\<lparr>bEndpointAddress = 0x81, bmAttributes = 3, wMaxPacketSize = 64\<rparr>]\<rparr>"

definition example_dev :: usb_device where
  "example_dev = \<lparr>bus_number = 1, device_address = 4, idVendor = VID, idProduct = PID, bcdDevice = 0x100,
     iManufacturer = 0, iProduct = 0, iSerialNumber = 3, active_config = Some [[example_alt]],
     first_config = None\<rparr>"

definition example_usb :: "byte \<times> byte \<Rightarrow> usb_env" where
  "example_usb status =
    \<lparr>env_init = (\<lambda>tr. 0), env_list = (\<lambda>tr. Some [example_dev]), env_open = (\<lambda>tr dev. 0),
     env_string = (\<lambda>tr dev idx lang. Some (18 # 3 # utf16le (serial_string hex_char example_ser))),
     env_kernel_active = (\<lambda>tr dev i. 1), env_detach = (\<lambda>tr dev i. 0), env_claim = (\<lambda>tr dev i. 0),
     env_control_out = (\<lambda>tr dev w i data. int (length data)),
     env_control_in = (\<lambda>tr dev w i n. case rev tr of
         CControlOut h w' i' p # rest \<Rightarrow> Some (token_answer example_ser (token_model status example_key) p)
       | _ \<Rightarrow> None),
     env_interrupt_out = (\<lambda>tr dev ep data. None), env_locale = None\<rparr>"

definition example_platform :: platform where
  "example_platform = \<lparr>past_tk = None, stack_pad = 4, junk = (\<lambda>k i. 0xCC),
     wc_to_mb = (\<lambda>c. if c < 128 then Some [ucast c] else None)\<rparr>"

text \<open>RSA copies its input; signatures are their digest.\<close>

definition example_ssl :: openssl where
  "example_ssl = \<lparr>ssl_RSA_new = (\<lambda>k. True), ssl_BN_new = (\<lambda>k. True), ssl_BN_bin2bn = (\<lambda>k bs. Some (big_endian bs)),
     ssl_RSA_crypt = (\<lambda>op flen from key. (int (length from), from)), ssl_SHA1 = (\<lambda>m. take 20 (m @ replicate 20 0)),
     ssl_RSA_sign = (\<lambda>typ d key. (1, d)), ssl_RSA_verify = (\<lambda>typ d sig key. if sig = d then 1 else 0),
     ssl_PEM_public = (\<lambda>key. Some [65, 66]), ssl_PEM_private = (\<lambda>key. None),
     io_fopen = (\<lambda>k. True), io_malloc = (\<lambda>k. True), io_fread = (\<lambda>k n. n)\<rparr>"

definition example_start :: "ust nst" where
  "example_start = \<lparr>tk = zero_tk, LAST_ERR_NO = nErr_OK,
     hid = \<lparr>usb_context = False, heap = (\<lambda>a. None), next_dev = 0, handles = (\<lambda>h. None), next_handle = 0,
            ublocks = 0, trace = []\<rparr>,
     frames = 0, ssl_calls = 0, bignums = 0, streams = 0, files = (\<lambda>f. None)\<rparr>"

lemma example_serial_string: "serial_string hex_char example_ser = [53, 66, 48, 48, 48, 50, 54, 69]"
  by (simp add: serial_string_def example_ser_def hex_char_def)

lemma example_bus:
  "token_bus (example_usb status) example_dev example_alt hex_char example_ser (token_model status example_key)"
proof -
  have "offers_string (example_usb status) example_dev 3 (serial_string hex_char example_ser)"
    unfolding offers_string_def example_serial_string
    by (simp add: example_usb_def example_serial_string scalar_def utf16le_def utf16_encode_char_def unit_bytes_def)
  then have "may_offer (example_usb status) example_dev 3 (Some (serial_string hex_char example_ser))"
    by (simp add: may_offer_def)
  moreover have "may_offer (example_usb status) example_dev 0 None"
    by (simp add: may_offer_def)
  ultimately show ?thesis
    unfolding token_bus_def listed_bus_def
    by (auto simp: example_usb_def example_dev_def example_alt_def LIBUSB_CLASS_HID_def)
qed

text \<open>The same token with its interface claimed by another process.\<close>

definition example_busy :: usb_env where
  "example_busy = (example_usb (0, 8))\<lparr>env_claim := (\<lambda>tr dev i. - 6)\<rparr>"

lemma example_busy_bus: "busy_bus example_busy example_dev example_alt hex_char example_ser"
proof -
  have l: "listed_bus (example_usb (0, 8)) example_dev example_alt hex_char example_ser"
    by (rule token_bus_listed [OF example_bus])
  have "may_offer example_busy = may_offer (example_usb (0, 8))"
    by (intro ext) (simp add: example_busy_def may_offer_def offers_string_def split: option.splits)
  then have "listed_bus example_busy example_dev example_alt hex_char example_ser"
    using l unfolding listed_bus_def by (simp add: example_busy_def)
  then show ?thesis by (simp add: busy_bus_def example_busy_def)
qed

lemma example_ok:
  "hex_printer hex_char" "length example_ser = 4" "ascii_locale (wc_to_mb example_platform)"
  "good_stack example_platform" "openssl_succeeds example_ssl" "openssl_documented example_ssl"
  "holds_public example_key example_E example_N"
  "holds_private example_key (take 16 example_pwd) example_D example_N" "16 \<le> length example_pwd"
  by (auto simp: hex_printers example_ser_def example_platform_def ascii_locale_def good_stack_def
      openssl_succeeds_def openssl_documented_def example_ssl_def holds_public_def holds_private_def
      example_key_def example_E_def example_N_def example_D_def example_pwd_def const_simps)

lemma example_plugged: "plugged example_platform (example_usb status) example_ser status example_key"
  unfolding plugged_def using example_ok(1-3) example_bus by blast

lemma example_usable: "usable (uint (8::byte) * 256 + uint (0::byte))"
  by code_simp

lemma example_start_ok:
  "usb_inv (hid example_start)" "usb_live (hid example_start) = {}" "lib_start (hid example_start) example_start"
  by (simp_all add: example_start_def usb_inv_def fresh_ids_def usb_live_def lib_start_def)

end
