(* ===== verification/SessionProps.thy ===== *)
theory SessionProps
  imports TokenExample
begin

text \<open>
  Sessions with a token, through \<^verbatim>\<open>novinlib.c\<close>, \<^verbatim>\<open>novintools.c\<close> and \<^verbatim>\<open>hid-libusb.c\<close> down to the calls of
  libusb: what the application gets from a token that answers as the protocol has it.
\<close>

text \<open>\<open>session P H ser s s'\<close>: the two calls that open a session.\<close>

definition session :: "platform \<Rightarrow> 'h hidapi \<Rightarrow> byte list \<Rightarrow> 'h nst \<Rightarrow> 'h nst option" where
  "session P H ser s = do { s1 \<leftarrow> get_first_device P H s; select_device P H ser s1 }"

lemma session_starts:
  assumes "present P H ready ser" "ready (hid s)"
  shows "\<exists>s'. session P H ser s = Some s' \<and> in_session ready ser s' \<and> LAST_ERR_NO s' = nErr_OK \<and>
    quiet s (retoken s s')"
proof -
  obtain s1 where f: "get_first_device P H s = Some s1" "ready (hid s1)" "active_token ser (tk s1)"
    "quiet s (retoken s s1)"
    using first_device_ok [OF assms] by blast
  obtain s2 where "select_device P H ser s1 = Some s2" "in_session ready ser s2" "LAST_ERR_NO s2 = nErr_OK"
    "quiet s1 (retoken s1 s2)"
    using select_device_ok [OF assms(1) f(2,3)] by blast
  then show ?thesis
    using f(1,4) by (simp add: session_def quiet_def retoken_def)
qed

text \<open>The token is selected when \<open>ser\<close> is what the application asks for.\<close>

lemma plugged_session:
  assumes "plugged P E ser status key" "usb_inv (hid s)"
  obtains s' where "session P (libusb_backend E) ser s = Some s'" "in_session usb_inv ser s'"
    "LAST_ERR_NO s' = nErr_OK" "quiet s (retoken s s')"
  using session_starts [OF attached_present [OF plugged_attached [OF assms(1)]] assms(2)] by blast

lemma quiet_retoken: "quiet s (retoken s a) \<Longrightarrow> quiet a b \<Longrightarrow> quiet s (retoken s b)"
  by (simp add: quiet_def retoken_def)

lemma in_session_ready: "in_session I ser s \<Longrightarrow> I (hid s)"
  by (simp add: in_session_def)

text \<open>
  \<open>works s s'\<close>: the libusb layer is in order again and, tokens apart, nothing has changed: no BIGNUM
  and no stream lost, no file left behind.
\<close>

definition works :: "ust nst \<Rightarrow> ust nst \<Rightarrow> bool" where
  "works s s' \<longleftrightarrow> usb_inv (hid s') \<and> quiet s (retoken s s')"

lemma session_encrypt_aux:
  assumes "plugged P E ser (lo, hi) key" "usb_inv (hid s)" "good_stack P" "openssl_succeeds S"
    and "usable (uint hi * 256 + uint lo)" "holds_public key Ke N"
    and "RSA_call S RSA_public_encrypt flen from to (rsa_value Ke N None) = Some (tlen, to')"
  shows "\<exists>s1 s2. session P (libusb_backend E) ser s = Some s1 \<and>
    rsa_encrypt P (libusb_backend E) S 1 flen from to pwd s1 = Some (tlen, to', s2) \<and>
    LAST_ERR_NO s2 = crypt_error tlen \<and> works s s2 \<and> in_session usb_inv ser s2"
proof -
  obtain s1 where s1: "session P (libusb_backend E) ser s = Some s1" "in_session usb_inv ser s1"
    "quiet s (retoken s s1)"
    using plugged_session [OF assms(1,2)] by blast
  obtain s2 where "rsa_encrypt P (libusb_backend E) S 1 flen from to pwd s1 = Some (tlen, to', s2)"
    "in_session usb_inv ser s2" "quiet s1 s2" "LAST_ERR_NO s2 = crypt_error tlen"
    using rsa_public_ok [OF plugged_attached [OF assms(1)] s1(2) assms(3-7)] by (auto simp: rsa_encrypt_def)
  then show ?thesis
    using s1 quiet_retoken in_session_ready unfolding works_def by blast
qed

lemma session_decrypt_aux:
  assumes "attached P H ready ser (lo, hi) key" "in_session ready ser s" "good_stack P" "openssl_succeeds S"
    and "usable (uint hi * 256 + uint lo)" "holds_public key Ke N"
    and "holds_private key (take 16 pwd) D N" "16 \<le> length pwd"
    and "RSA_call S RSA_private_decrypt flen from to (rsa_value Ke N (Some D)) = Some (tlen, to')"
  shows "\<exists>s'. rsa_decrypt P H S 2 flen from to pwd s = Some (tlen, to', s') \<and>
    LAST_ERR_NO s' = crypt_error tlen \<and> in_session ready ser s' \<and> quiet s s'"
  using rsa_private_ok [OF assms] by (auto simp: rsa_decrypt_def)

text \<open>
  The application finds the plugged token, selects it and encrypts with key type 1: the whole
  path returns, and the result is that of \<open>RSA_public_encrypt\<close> under the public exponent and the modulus
  the token holds; \<open>LAST_ERR_NO\<close> says whether OpenSSL refused, and nothing leaks.
\<close>

theorem session_encrypt:
  assumes "plugged P E ser (lo, hi) key" "usb_inv (hid s)" "good_stack P" "openssl_succeeds S"
    and "usable (uint hi * 256 + uint lo)" "holds_public key Ke N"
    and "RSA_call S RSA_public_encrypt flen from to (rsa_value Ke N None) = Some (tlen, to')"
  shows "\<exists>s1 s2. session P (libusb_backend E) ser s = Some s1 \<and>
    rsa_encrypt P (libusb_backend E) S 1 flen from to pwd s1 = Some (tlen, to', s2) \<and>
    LAST_ERR_NO s2 = crypt_error tlen \<and> works s s2"
  using session_encrypt_aux [OF assms] by blast

theorem session_encrypt_witness:
  "\<exists>s1 s2. session example_platform (libusb_backend (example_usb (0, 8))) example_ser example_start = Some s1 \<and>
    rsa_encrypt example_platform (libusb_backend (example_usb (0, 8))) example_ssl 1 3 [72, 105, 33, 0]
      (replicate 128 0) [] s1 = Some (3, [72, 105, 33] @ replicate 125 0, s2) \<and> LAST_ERR_NO s2 = crypt_error 3"
  using session_encrypt [OF example_plugged [of "(0, 8)"] example_start_ok(1) example_ok(4,5) example_usable
      example_ok(7), of 3 "[72, 105, 33, 0]" "replicate 128 0" 3 "[72, 105, 33] @ replicate 125 0" "[]"]
  by (fastforce simp: RSA_call_def rd_block_def wr_block_def example_ssl_def)

text \<open>
  With key type 2 and the right password, \<open>rsa_decrypt\<close> is \<open>RSA_private_decrypt\<close> under the token's
  full private key.
\<close>

theorem session_decrypt:
  assumes "plugged P E ser (lo, hi) key" "usb_inv (hid s)" "good_stack P" "openssl_succeeds S"
    and "usable (uint hi * 256 + uint lo)" "holds_public key Ke N"
    and "holds_private key (take 16 pwd) D N" "16 \<le> length pwd"
    and "RSA_call S RSA_private_decrypt flen from to (rsa_value Ke N (Some D)) = Some (tlen, to')"
  shows "\<exists>s1 s2. session P (libusb_backend E) ser s = Some s1 \<and>
    rsa_decrypt P (libusb_backend E) S 2 flen from to pwd s1 = Some (tlen, to', s2) \<and>
    LAST_ERR_NO s2 = crypt_error tlen \<and> works s s2"
proof -
  obtain s1 where s1: "session P (libusb_backend E) ser s = Some s1" "in_session usb_inv ser s1"
    "quiet s (retoken s s1)"
    using plugged_session [OF assms(1,2)] by blast
  then show ?thesis
    using session_decrypt_aux [OF plugged_attached [OF assms(1)] s1(2) assms(3-9)]
      quiet_retoken in_session_ready unfolding works_def by blast
qed

theorem session_decrypt_witness:
  "\<exists>s1 s2. session example_platform (libusb_backend (example_usb (0, 8))) example_ser example_start = Some s1 \<and>
    rsa_decrypt example_platform (libusb_backend (example_usb (0, 8))) example_ssl 2 2 [7, 9] [0, 0, 0]
      example_pwd s1 = Some (2, [7, 9, 0], s2) \<and> works example_start s2"
  using session_decrypt [OF example_plugged [of "(0, 8)"] example_start_ok(1) example_ok(4,5) example_usable
      example_ok(7-9), of 2 "[7, 9]" "[0, 0, 0]" 2 "[7, 9, 0]"]
  by (fastforce simp: RSA_call_def rd_block_def wr_block_def example_ssl_def)

text \<open>
  \<open>rsa_pair S pub priv m\<close>: for the message \<open>m\<close>, OpenSSL's decryption under \<open>priv\<close> undoes its
  encryption under \<open>pub\<close>, which yields 128 bytes.
\<close>

definition rsa_pair :: "openssl \<Rightarrow> rsa_key \<Rightarrow> rsa_key \<Rightarrow> byte list \<Rightarrow> bool" where
  "rsa_pair S pub priv m \<longleftrightarrow>
     (\<exists>c. ssl_RSA_crypt S RSA_public_encrypt (int (length m)) m pub = (128, c) \<and> length c = 128 \<and>
        ssl_RSA_crypt S RSA_private_decrypt 128 c priv = (int (length m), m))"

text \<open>
  In one session, what \<open>rsa_encrypt\<close> with key type 1 puts into the buffer, \<open>rsa_decrypt\<close> with key
  type 2 turns back into the message, whenever the key pair on the token is one for which OpenSSL's two
  functions are inverse.
\<close>

theorem session_roundtrip:
  assumes "plugged P E ser (lo, hi) key" "usb_inv (hid s)" "good_stack P" "openssl_succeeds S"
    and "usable (uint hi * 256 + uint lo)" "holds_public key Ke N"
    and "holds_private key (take 16 pwd) D N" "16 \<le> length pwd"
    and "rsa_pair S (rsa_value Ke N None) (rsa_value Ke N (Some D)) m"
    and "128 \<le> length buf" "length m \<le> length out"
  shows "\<exists>s1 s2 s3 buf'. session P (libusb_backend E) ser s = Some s1 \<and>
    rsa_encrypt P (libusb_backend E) S 1 (int (length m)) m buf pwd s1 = Some (128, buf', s2) \<and>
    rsa_decrypt P (libusb_backend E) S 2 128 buf' out pwd s2
      = Some (int (length m), m @ drop (length m) out, s3) \<and>
    LAST_ERR_NO s3 = nErr_OK \<and> works s s3"
proof -
  obtain c where c: "ssl_RSA_crypt S RSA_public_encrypt (int (length m)) m (rsa_value Ke N None) = (128, c)"
    "length c = 128" "ssl_RSA_crypt S RSA_private_decrypt 128 c (rsa_value Ke N (Some D)) = (int (length m), m)"
    using assms(9) unfolding rsa_pair_def by blast
  let ?buf = "c @ drop 128 buf"
  have e: "RSA_call S RSA_public_encrypt (int (length m)) m buf (rsa_value Ke N None) = Some (128, ?buf)"
    using c assms(10) by (simp add: RSA_call_def rd_block_def wr_block_def)
  have d: "RSA_call S RSA_private_decrypt 128 ?buf out (rsa_value Ke N (Some D)) =
      Some (int (length m), m @ drop (length m) out)"
    using c assms(11) by (simp add: RSA_call_def rd_block_def wr_block_def)
  obtain s1 s2 where s12: "session P (libusb_backend E) ser s = Some s1"
    "rsa_encrypt P (libusb_backend E) S 1 (int (length m)) m buf pwd s1 = Some (128, ?buf, s2)"
    "works s s2" "in_session usb_inv ser s2"
    using session_encrypt_aux [OF assms(1-6) e] by blast
  obtain s3 where s3: "rsa_decrypt P (libusb_backend E) S 2 128 ?buf out pwd s2 =
      Some (int (length m), m @ drop (length m) out, s3)"
    "LAST_ERR_NO s3 = crypt_error (int (length m))" "in_session usb_inv ser s3" "quiet s2 s3"
    using session_decrypt_aux [OF plugged_attached [OF assms(1)] s12(4) assms(3-8) d] by blast
  have "works s s3"
    using s12(3) s3(3,4) quiet_retoken in_session_ready unfolding works_def by blast
  moreover have "crypt_error (int (length m)) = nErr_OK" by (simp add: crypt_error_def)
  ultimately show ?thesis using s12(1,2) s3(1,2) by metis
qed

text \<open>For the witness: encryption pads with zeros, decryption returns two bytes.\<close>

definition example_padding :: openssl where
  "example_padding = example_ssl\<lparr>ssl_RSA_crypt := (\<lambda>op flen from key.
     if op = RSA_public_encrypt then (128, from @ replicate (128 - length from) 0) else (2, take 2 from))\<rparr>"

theorem session_roundtrip_witness:
  "\<exists>s1 s2 s3 buf'. session example_platform (libusb_backend (example_usb (0, 8))) example_ser example_start = Some s1 \<and>
    rsa_encrypt example_platform (libusb_backend (example_usb (0, 8))) example_padding 1 2 [72, 105]
      (replicate 200 1) example_pwd s1 = Some (128, buf', s2) \<and>
    rsa_decrypt example_platform (libusb_backend (example_usb (0, 8))) example_padding 2 128 buf' [0, 0, 0]
      example_pwd s2 = Some (2, [72, 105, 0], s3)"
proof -
  have "openssl_succeeds example_padding"
    by (simp add: openssl_succeeds_def example_padding_def example_ssl_def)
  moreover have "rsa_pair example_padding pub priv [72, 105]" for pub priv
    by (simp add: rsa_pair_def example_padding_def)
  ultimately show ?thesis
    using session_roundtrip [OF example_plugged [of "(0, 8)"] example_start_ok(1) example_ok(4) _ example_usable
        example_ok(7-9), of example_padding "[72, 105]" "replicate 200 1" "[0, 0, 0]"]
    by fastforce
qed

section \<open>Status, serial and keys\<close>

text \<open>The bits of the status word the token sends, as \<open>get_device_status\<close> ranks them.\<close>

definition status_outcome :: "byte \<Rightarrow> int" where
  "status_outcome hi =
     (if bit hi 1 then nErr_CAT else if bit hi 2 then nErr_BLK else if bit hi 0 then nErr_DIS else nErr_OK)"

lemma bit_high_byte:
  assumes "8 \<le> n"
  shows "bit (uint (hi :: byte) * 256 + uint (lo :: byte)) n = bit hi (n - 8)"
proof -
  obtain k where n: "n = 8 + k" using assms le_Suc_ex by blast
  have "(uint hi * 256 + uint lo) div 2 ^ n = (uint hi * 256 + uint lo) div 256 div 2 ^ k"
    by (simp add: n power_add zdiv_zmult2_eq)
  also have "(uint hi * 256 + uint lo) div 256 = uint hi"
    using byte_int_bounds [of lo] by simp
  finally show ?thesis
    by (auto simp: n bit_iff_odd [of "uint hi * 256 + uint lo"] bit_iff_odd [of "uint hi", symmetric] bit_uint_iff
        dest: bit_imp_le_length)
qed

lemma status_outcome_eq: "status_error (uint hi * 256 + uint (lo :: byte)) = status_outcome hi"
proof -
  have "\<not> uint hi * 256 + uint lo < 0" using byte_int_bounds [of hi] byte_int_bounds [of lo] by linarith
  then show ?thesis
    unfolding status_error_def status_outcome_def status_bits by (simp only: bit_high_byte) simp
qed

text \<open>
  In a session \<open>get_device_status\<close> reports what the status word of the token says, with suspension
  before blocking before disabling, for every one of the 65536 words.
\<close>

theorem session_status:
  assumes "plugged P E ser (lo, hi) key" "usb_inv (hid s)"
  shows "\<exists>s1 s2. session P (libusb_backend E) ser s = Some s1 \<and>
    get_device_status P (libusb_backend E) s1 = Some (status_outcome hi, s2) \<and> works s s2"
proof -
  obtain s1 where s1: "session P (libusb_backend E) ser s = Some s1" "in_session usb_inv ser s1"
    "quiet s (retoken s s1)"
    using plugged_session [OF assms(1,2)] by blast
  then show ?thesis
    using device_status_ok [OF plugged_attached [OF assms(1)] s1(2)]
      quiet_retoken in_session_ready unfolding works_def status_outcome_eq by blast
qed

theorem session_status_witness:
  "\<exists>s1 s2. session example_platform (libusb_backend (example_usb (1, 6))) example_ser example_start = Some s1 \<and>
    get_device_status example_platform (libusb_backend (example_usb (1, 6))) s1 = Some (nErr_CAT, s2)"
proof -
  have "status_outcome 6 = nErr_CAT" by code_simp
  then show ?thesis
    using session_status [OF example_plugged [of "(1, 6)"] example_start_ok(1)] by fastforce
qed

text \<open>
  Once a token has been found, \<open>get_curr_dev_serial\<close> copies its four serial bytes to the caller; but
  \<open>get_serial\<close> refuses with \<open>nErr_DNS\<close> and zeros until the token has been selected.
\<close>

theorem session_serial:
  assumes "plugged P E ser status key" "usb_inv (hid s)" "length buf = 4"
  shows "\<exists>s1 s2 s3. get_first_device P (libusb_backend E) s = Some s1 \<and>
    get_curr_dev_serial P (libusb_backend E) buf s1 = Some (ser, s2) \<and> LAST_ERR_NO s2 = nErr_OK \<and>
    get_serial P (libusb_backend E) buf s2 = Some ([0, 0, 0, 0], s3) \<and> LAST_ERR_NO s3 = nErr_DNS"
proof -
  note a = attached_present [OF plugged_attached [OF assms(1)]]
  have b: "4 \<le> length buf" and len: "length ser = 4" using assms(1,3) by (simp_all add: plugged_def)
  obtain s1 where f: "get_first_device P (libusb_backend E) s = Some s1" "usb_inv (hid s1)"
    "active_token ser (tk s1)" "selected (tk s1 ! 0) = 0" "session_ok (tk s1)"
    using first_device_ok [OF a assms(2)] usbcall.get_first_device_frame [OF assms(2)] by blast
  obtain s2 where g: "get_curr_dev_serial P (libusb_backend E) buf s1 = Some (ser @ drop 4 buf, s2)"
    "usb_inv (hid s2)" "quiet s1 s2" "LAST_ERR_NO s2 = nErr_OK"
    using current_serial_ok [OF a f(2,3) b] by blast
  have act: "active_token ser (tk s2)" and so: "session_ok (tk s2)" and sel: "selected (tk s2 ! 0) = 0"
    using f(3-5) g(3) by (simp_all add: quiet_def)
  obtain s3 where c: "check_dev_connected P (libusb_backend E) ser s2 = Some (nErr_OK, s3)" "quiet s2 s3"
    using check_connected_ok [OF a g(2)] by blast
  have unsel: "list_all (\<lambda>t. selected t = 0 \<and> length (serial t) = 4) (tk s3)"
  proof -
    have "tk s3 = tk s2" using c(2) by (simp add: quiet_def)
    then show ?thesis
      using so sel by (cases "tk s2") (simp_all add: session_ok_def tk_ok_def list_all_iff)
  qed
  have "scan_selected ser ts = Some nErr_DNS"
    if "list_all (\<lambda>t. selected t = 0 \<and> length (serial t) = 4) ts" for ts
    using that len by (induction ts) (auto simp: rd_block_def)
  then have "check_dev_selected ser s3 = Some nErr_DNS"
    using unsel by (auto simp: check_dev_selected_def list_all_iff dest: in_set_takeD)
  moreover have "wr_block buf 0 [0, 0, 0, 0] = Some [0, 0, 0, 0]"
    using assms(3) by (simp add: wr_block_def)
  moreover have "serial (tk s2 ! 0) = ser" using act by (simp add: active_token_def)
  ultimately have "get_serial P (libusb_backend E) buf s2 = Some ([0, 0, 0, 0], set_err nErr_DNS s3)"
    using active_token_GET [OF act] active_token_at [OF act] c(1)
    by (simp add: get_serial_def const_simps)
  then show ?thesis
    using f(1) g(1,4) assms(3) by (intro exI conjI) (assumption | simp)+
qed

theorem session_serial_witness:
  "\<exists>s1 s2. get_first_device example_platform (libusb_backend (example_usb (0, 8))) example_start = Some s1 \<and>
    get_curr_dev_serial example_platform (libusb_backend (example_usb (0, 8))) [9, 9, 9, 9] s1
      = Some ([0x5b, 0, 2, 0x6e], s2)"
  using session_serial [OF example_plugged [of "(0, 8)"] example_start_ok(1), of "[9, 9, 9, 9]"]
  by (fastforce simp: example_ser_def)

text \<open>
  When another process holds the token's interface, so that it cannot be opened, a session is still
  established, \<open>get_device_status\<close> reports \<open>nErr_OK\<close>, and \<open>rsa_encrypt\<close> fails with the error for "RSA is not
  supported": the error of the status request has been taken for a status word.
\<close>

theorem busy_token_reported_ok:
  assumes "busy_bus E dev alt hx ser" "hex_printer hx" "length ser = 4" "ascii_locale (wc_to_mb P)"
    and "usb_inv (hid s)"
  shows "\<exists>s1 s2 s3. session P (libusb_backend E) ser s = Some s1 \<and>
    get_device_status P (libusb_backend E) s1 = Some (nErr_OK, s2) \<and> LAST_ERR_NO s2 = nErr_OK \<and>
    rsa_encrypt P (libusb_backend E) S kt flen from to pwd s2 = Some (- 1, to, s3) \<and>
    LAST_ERR_NO s3 = nErr_RSANS \<and> works s s3"
proof -
  have l: "listed_bus E dev alt hx ser" using assms(1) by (simp add: busy_bus_def)
  have p: "present P (libusb_backend E) usb_inv ser" by (rule listed_present [OF l assms(2-4)])
  have r: "refuses (libusb_backend E) usb_inv" by (rule busy_refuses [OF assms(1)])
  obtain s1 where s1: "session P (libusb_backend E) ser s = Some s1" "in_session usb_inv ser s1"
    "quiet s (retoken s s1)"
    using session_starts [OF p assms(5)] by blast
  obtain s2 where s2: "get_device_status P (libusb_backend E) s1 = Some (nErr_OK, s2)" "in_session usb_inv ser s2"
    "LAST_ERR_NO s2 = nErr_OK" "quiet s1 s2"
    using refused_calls(1) [OF p r s1(2)] by blast
  obtain s3 where s3: "rsa_encrypt P (libusb_backend E) S kt flen from to pwd s2 = Some (- 1, to, s3)"
    "LAST_ERR_NO s3 = nErr_RSANS" "in_session usb_inv ser s3" "quiet s2 s3"
    using refused_calls(2) [OF p r s2(2)] unfolding rsa_encrypt_def by blast
  have "works s s3"
    using quiet_retoken [OF quiet_retoken [OF s1(3) s2(4)] s3(4)] in_session_ready [OF s3(3)] by (simp add: works_def)
  then show ?thesis using s1(1) s2(1,3) s3(1,2) by blast
qed

theorem busy_token_reported_ok_witness:
  "\<exists>s1 s2. session example_platform (libusb_backend example_busy) example_ser example_start = Some s1 \<and>
    get_device_status example_platform (libusb_backend example_busy) s1 = Some (0, s2)"
  using busy_token_reported_ok [OF example_busy_bus example_ok(1-3) example_start_ok(1)]
  by (fastforce simp: const_simps)

end
