(* ===== verification/UsbProps.thy ===== *)
theory UsbProps
  imports SessionProps
begin

text \<open>
  Opening, closing and enumerating USB devices with \<^verbatim>\<open>hid-libusb.c\<close>.
\<close>



text \<open>
  Whatever libusb answers, \<open>hid_enumerate\<close> lists only devices with the ids asked for, opens and closes
  nothing for good, and \<open>hid_free_enumeration\<close> returns every block it allocated.
\<close>

theorem enumeration_balance:
  assumes "usb_inv s" "hid_enumerate E v p s = Some (ds, s1)"
  shows "list_all (info_matches v p) ds \<and> handles s1 = handles s \<and> heap s1 = heap s \<and>
    handles (hid_free_enumeration ds s1) = handles s \<and> ublocks (hid_free_enumeration ds s1) = ublocks s"
proof -
  have "fresh_ids s" using assms(1) by (simp add: usb_inv_def)
  then show ?thesis
    using hid_enumerate_balanced [OF _ assms(2)] by (simp add: balanced_def hid_free_enumeration_eq)
qed

theorem enumeration_balance_witness:
  "\<exists>d s1. hid_enumerate (example_usb (0, 8)) VID PID (hid example_start) = Some ([d], s1) \<and>
    info_matches VID PID d \<and> ublocks (hid_free_enumeration [d] s1) = 0"
proof -
  obtain d where d: "\<And>s. \<exists>s'. hid_enumerate (example_usb (0, 8)) VID PID s = Some ([d], s')"
    using token_enumerate [OF token_bus_listed [OF example_bus [of "(0, 8)"]]] by blast
  obtain s1 where s1: "hid_enumerate (example_usb (0, 8)) VID PID (hid example_start) = Some ([d], s1)"
    using d by blast
  show ?thesis
    using s1 enumeration_balance [OF example_start_ok(1) s1] by (auto simp: example_start_def)
qed

text \<open>
  When a HID interface has two alternate settings, both have the path \<open>hid_open_path\<close> looks for,
  and it opens both: the first handle is overwritten and stays open, a second reader thread runs on the
  same structure, and \<open>hid_close\<close>, which joins one thread, then frees the structure under the other.
\<close>

theorem open_path_twice:
  assumes "\<forall>tr. env_init E tr = 0 \<and> env_list E tr = Some [dev] \<and> 0 \<le> env_open E tr dev"
    and "\<forall>tr i. 0 \<le> env_detach E tr dev i \<and> 0 \<le> env_claim E tr dev i"
    and "active_config dev = Some [[alt, alt']]" "bInterfaceClass alt = LIBUSB_CLASS_HID"
    and "bInterfaceClass alt' = LIBUSB_CLASS_HID" "bInterfaceNumber alt' = bInterfaceNumber alt"
  shows "\<exists>a s'. hid_open_path E (make_path dev (bInterfaceNumber alt)) s = Some (Some a, s') \<and>
    map_option threads (heap s' a) = Some 2 \<and> hid_close (Some a) s' = None"
proof -
  have b: "\<And>tr. 0 \<le> env_open E tr dev" "\<And>tr i. 0 \<le> env_detach E tr dev i" "\<And>tr i. 0 \<le> env_claim E tr dev i"
    using assms(1,2) by auto
  then have nc: "\<And>tr i. \<not> env_claim E tr dev i < 0" by (simp add: not_less)
  let ?a = "next_dev s" and ?z = "zero_dev\<lparr>blocking := True\<rparr>"
  let ?t = "s\<lparr>heap := (heap s)(?a \<mapsto> ?z), next_dev := ?a + 1\<rparr>"
  obtain s2 where i: "hid_init E ?t = (0, s2)" "balanced 0 ?t s2" using hid_init_ok [of E ?t] assms(1) by blast
  let ?s0 = "note_call CGetList s2"
  have h: "heap ?s0 ?a = Some ?z" "threads ?z = 0"
    using i(2) by (simp_all add: balanced_def note_call_def zero_dev_def)
  obtain s3 where o1: "open_interface E ?a dev alt ?s0 = Some (Opened, s3)" "connected dev (bInterfaceNumber alt) ?a s3"
    using open_interface_ok [OF b h] by blast
  obtain d1 where d1: "heap s3 ?a = Some d1" "threads d1 = 1" using o1(2) by (auto simp: connected_def)
  obtain h5 s5 tr where c: "handles s5 h5 = Some dev" "heap s5 ?a = Some (d1\<lparr>device_handle := Some h5\<rparr>)"
    "open_interface E ?a dev alt' s3 =
      (if env_claim E tr dev (bInterfaceNumber alt') < 0
       then do { s6 \<leftarrow> libusb_close h5 s5; Some (Setup_failed, s6) }
       else do { s6 \<leftarrow> update_dev ?a (start_device dev alt') s5; Some (Opened, s6) })"
    using open_interface_claim [OF b(1,2) d1(1)] by metis
  obtain s6 d6 where o2: "open_interface E ?a dev alt' s3 = Some (Opened, s6)" "heap s6 ?a = Some d6"
    "threads d6 = 2" "device_handle d6 = Some h5" "handles s6 h5 = Some dev"
    using c nc d1(2) by (simp add: update_dev_def start_device_fields)
  have p: "hid_open_path E (make_path dev (bInterfaceNumber alt)) s = Some (Some ?a, s6)"
    using i(1) o1(1) o2(1) assms
    by (simp add: hid_open_path_def new_hid_device_def Let_def libusb_get_device_list_def)
  let ?d7 = "d6\<lparr>shutdown_thread := True, threads := 1\<rparr>"
  obtain s7 where u: "update_dev ?a (\<lambda>d. d\<lparr>shutdown_thread := True, threads := threads d - 1\<rparr>) s6 = Some s7"
    "heap s7 ?a = Some ?d7" "handles s7 h5 = Some dev"
    using o2(2-5) by (simp add: update_dev_def)
  obtain s8 where r: "libusb_release_interface h5 (interface d6) s7 = Some ((), s8)" "traced s7 s8"
    by (simp add: libusb_release_interface_def on_handle_ok [OF u(3)])
  obtain s9 where cl: "libusb_close h5 s8 = Some s9" "heap s9 = heap s8"
    using r(2) u(3) by (auto simp: libusb_close_def traced_iff note_call_def)
  have "heap s9 ?a = Some ?d7" using cl(2) r(2) u(2) by (simp add: traced_iff)
  then have "hid_close (Some ?a) s6 = None"
    using o2(2-5) u(1) r(1) cl(1)
    by (simp add: hid_close_def with_dev_def clear_queue_ok update_dev_def free_hid_device_def)
  then show ?thesis using p o2(2,3) by auto
qed

text \<open>The token with a second alternate setting.\<close>

definition alt2_dev :: usb_device where
  "alt2_dev = example_dev\<lparr>active_config := Some [[example_alt, example_alt]]\<rparr>"

definition alt2_usb :: usb_env where
  "alt2_usb = (example_usb (0, 8))\<lparr>env_list := (\<lambda>tr. Some [alt2_dev])\<rparr>"

theorem open_path_twice_witness:
  "\<exists>a s'. hid_open_path alt2_usb (make_path alt2_dev 0) (hid example_start) = Some (Some a, s') \<and>
    hid_close (Some a) s' = None"
  using open_path_twice [of alt2_usb alt2_dev example_alt example_alt "hid example_start"]
  by (auto simp: alt2_usb_def alt2_dev_def example_usb_def example_alt_def LIBUSB_CLASS_HID_def)

text \<open>
  On an open handle \<open>get_usb_string\<close> returns a string descriptor exactly as the device encodes it, for every
  list of at most 255 UTF-16 code units without zero, supplementary characters included, in whatever
  language the code settles on.
\<close>

theorem usb_string_read:
  assumes "handles s h = Some dev" "offers_string E dev idx cs"
  shows "\<exists>s'. get_usb_string E h idx s = Some (Some cs, s') \<and> handles s' = handles s \<and> heap s' = heap s"
  using get_usb_string_ok [OF assms] by (auto simp: plus_blocks_def traced_iff)

definition clef_usb :: usb_env where
  "clef_usb = (example_usb (0, 8))\<lparr>env_string := (\<lambda>tr dev idx lang. Some (8 # 3 # utf16le [0x41, 0x1D11E]))\<rparr>"

theorem usb_string_read_witness:
  "\<exists>s'. get_usb_string clef_usb 7 3 ((hid example_start)\<lparr>handles := [7 \<mapsto> example_dev]\<rparr>)
      = Some (Some [0x41, 0x1D11E], s')"
proof -
  have "offers_string clef_usb example_dev 3 [0x41, 0x1D11E]"
    by (simp add: offers_string_def clef_usb_def scalar_def utf16le_def unit_bytes_def utf16_encode_char_def)
  then show ?thesis
    using usb_string_read [of "(hid example_start)\<lparr>handles := [7 \<mapsto> example_dev]\<rparr>" 7 example_dev clef_usb 3
        "[0x41, 0x1D11E]"] by fastforce
qed

end
