(* ===== verification/BoundedBuffer.thy ===== *)
theory BoundedBuffer
  imports Prelude
begin

text \<open>
  What the input queues of HIDAPI promise: the abstract bounded buffer of 32 reports, the contract \<open>report_queue\<close> of the two
  functions that put reports in and take them out, and the contract \<open>buffered_threads\<close> of two threads around such a queue. The
  implementations over libusb and on Mac OS X interpret both.
\<close>

section \<open>Runs\<close>

lemma run_invariant:
  "step\<^sup>*\<^sup>* s t \<Longrightarrow> I s \<Longrightarrow> (\<And>u v. step u v \<Longrightarrow> I u \<Longrightarrow> I v) \<Longrightarrow> I t"
  by (induction rule: rtranclp_induct) blast+

section \<open>The bounded buffer\<close>

text \<open>
  What has been put in, what has come out, and the contents. It takes reports at the end, gives
  them out at the front, and when 32 are in it the next one pushes the oldest out.
\<close>

record buffer =
  put_in :: "byte list list"
  come_out :: "byte list list"
  contents :: "byte list list"

inductive buffer_step :: "buffer \<Rightarrow> buffer \<Rightarrow> bool" for b where
  buffer_stay [simp]: "buffer_step b b"
| buffer_put: "length (contents b) < 32 \<Longrightarrow>
    buffer_step b (b\<lparr>put_in := put_in b @ [r], contents := contents b @ [r]\<rparr>)"
| buffer_push_out: "contents b = x # q \<Longrightarrow> length (contents b) = 32 \<Longrightarrow>
    buffer_step b (b\<lparr>put_in := put_in b @ [r], come_out := come_out b @ [x], contents := q @ [r]\<rparr>)"
| buffer_get: "contents b = x # q \<Longrightarrow> buffer_step b (b\<lparr>come_out := come_out b @ [x], contents := q\<rparr>)"

inductive_cases buffer_stepE: "buffer_step b b'"

text \<open>What came in is what left, in that order, and what is in it.\<close>

definition buffer_ok :: "buffer \<Rightarrow> bool" where
  "buffer_ok b \<longleftrightarrow> length (contents b) \<le> 32 \<and> put_in b = come_out b @ contents b"

lemma buffer_step_ok: "buffer_step b b' \<Longrightarrow> buffer_ok b \<Longrightarrow> buffer_ok b'"
  by (auto simp: buffer_ok_def elim: buffer_stepE)

text \<open>What has left a queue \<open>q\<close> to which \<open>new\<close> has been added, when \<open>q'\<close> is left.\<close>

definition departed :: "'a list \<Rightarrow> 'a list \<Rightarrow> 'a list \<Rightarrow> 'a list" where
  "departed q new q' = take (length (q @ new) - length q') (q @ new)"

lemma departed_simps [simp]:
  "departed q [] q = []" "departed q [r] (q @ [r]) = []" "departed (x # q) [] q = [x]" "departed (x # q) [r] (q @ [r]) = [x]"
  by (simp_all add: departed_def)

section \<open>Queues of reports\<close>

locale report_queue =
  fixes reports :: "'d \<Rightarrow> byte list list"
    and set_reports :: "byte list list \<Rightarrow> 'd \<Rightarrow> 'd"
    and put :: "byte list \<Rightarrow> 'd \<Rightarrow> 'd option"
    and get :: "'d \<Rightarrow> byte list \<Rightarrow> nat \<Rightarrow> (int \<times> byte list \<times> 'd) option"
  assumes reports_set [simp]: "reports (set_reports q d) = q"
    and put_law: "put r d =
      Some (set_reports ((if length (reports d) \<le> 31 then reports d else tl (reports d)) @ [r]) d)"
    and get_law: "get d data len = Some (n, data', d') \<Longrightarrow> \<exists>r. reports d = r # reports d' \<and> d' = set_reports (reports d') d"
begin

text \<open>At most the first report is taken out, and nothing else changes.\<close>

definition taken :: "'d \<Rightarrow> 'd \<Rightarrow> bool" where
  "taken d d' \<longleftrightarrow> d' = d \<or> (\<exists>r. reports d = r # reports d' \<and> d' = set_reports (reports d') d)"

lemma taken_refl [simp]: "taken d d"
  by (simp add: taken_def)

lemma get_taken: "get d data len = Some (n, data', d') \<Longrightarrow> taken d d'"
  using get_law unfolding taken_def by blast

lemma taken_keeps: "taken d d' \<Longrightarrow> (\<And>q. f (set_reports q d) = f d) \<Longrightarrow> f d' = f d"
  unfolding taken_def by metis

lemma taken_empty: "taken d d' \<Longrightarrow> reports d = [] \<Longrightarrow> reports d' = []"
  by (auto simp: taken_def)

lemma put_buffer:
  assumes "put r d = Some d'" "length (reports d) \<le> 32"
  shows "buffer_step \<lparr>put_in = i, come_out = k, contents = reports d\<rparr>
    \<lparr>put_in = i @ [r], come_out = k @ departed (reports d) [r] (reports d'), contents = reports d'\<rparr>"
proof (cases "length (reports d) \<le> 31")
  case True
  then have "reports d' = reports d @ [r]" using assms(1) by (auto simp: put_law)
  then show ?thesis using True buffer_put [of "\<lparr>put_in = i, come_out = k, contents = reports d\<rparr>" r] by simp
next
  case False
  then obtain x q where q: "reports d = x # q" "length (reports d) = 32" using assms(2) by (cases "reports d") auto
  then have "reports d' = q @ [r]" using assms(1) by (auto simp: put_law)
  then show ?thesis using q buffer_push_out [of "\<lparr>put_in = i, come_out = k, contents = reports d\<rparr>" x q r] by simp
qed

lemma taken_buffer:
  assumes "taken d d'"
  shows "buffer_step \<lparr>put_in = i, come_out = k, contents = reports d\<rparr>
    \<lparr>put_in = i, come_out = k @ departed (reports d) [] (reports d'), contents = reports d'\<rparr>"
proof -
  from assms consider "d' = d" | r where "reports d = r # reports d'" unfolding taken_def by blast
  then show ?thesis
  proof cases
    case (2 r)
    then show ?thesis using buffer_get [of "\<lparr>put_in = i, come_out = k, contents = reports d\<rparr>" r "reports d'"] by simp
  qed simp
qed

end

section \<open>Threads around a queue\<close>

text \<open>\<open>buf\<close> reads the buffer off a state, \<open>ok\<close> is what else holds of the threads.\<close>

locale buffered_threads =
  fixes start :: "'s \<Rightarrow> bool" and step :: "'s \<Rightarrow> 's \<Rightarrow> bool" and buf :: "'s \<Rightarrow> buffer" and ok :: "'s \<Rightarrow> bool"
  assumes start_ok: "start s \<Longrightarrow> ok s \<and> buffer_ok (buf s)"
    and step_ok: "step s t \<Longrightarrow> ok s \<Longrightarrow> ok t"
    and step_buffer: "step s t \<Longrightarrow> buffer_ok (buf s) \<Longrightarrow> buffer_step (buf s) (buf t)"
begin

lemma reach_ok:
  assumes "start s" "step\<^sup>*\<^sup>* s t"
  shows "ok t \<and> buffer_ok (buf t)"
  by (rule run_invariant [OF assms(2)]) (use start_ok [OF assms(1)] step_ok step_buffer buffer_step_ok in blast)+

lemma reach_step_refines: "start s \<Longrightarrow> step\<^sup>*\<^sup>* s t \<Longrightarrow> step t u \<Longrightarrow> buffer_step (buf t) (buf u)"
  using reach_ok step_buffer by blast

text \<open>Every run of the threads is a run of the buffer.\<close>

lemma run_refines:
  assumes "start s" "step\<^sup>*\<^sup>* s t"
  shows "buffer_step\<^sup>*\<^sup>* (buf s) (buf t)"
  using assms(2)
proof (induction rule: rtranclp_induct)
  case (step u v)
  then show ?case using reach_step_refines [OF assms(1)] by (meson rtranclp.rtrancl_into_rtrancl)
qed simp

end

end
