(* ===== verification/InputQueue.thy ===== *)
theory InputQueue
  imports HidLibusb BoundedBuffer
begin

text \<open>
  Input reports in \<^verbatim>\<open>token-DLL/lib/hid-libusb.c\<close>: what \<open>read_callback\<close> does with a finished transfer and
  what \<open>hid_read_timeout\<close> does while it holds the mutex. Both are functions on the device structure;
  how the two threads take turns is the subject of \<open>ReaderThread\<close>.
\<close>

section \<open>Queueing\<close>

text \<open>
  The loop that walks to the last node counts its steps, so \<open>num_queued\<close> is the number of nodes behind the
  first one.
\<close>

definition queue_report :: "byte list \<Rightarrow> hid_dev \<Rightarrow> hid_dev option" where
  "queue_report rpt d =
     (if input_reports d = [] then Some (d\<lparr>input_reports := [rpt]\<rparr>)
      else let num_queued = length (tl (input_reports d));
               d' = d\<lparr>input_reports := input_reports d @ [rpt]\<rparr>
           in if 30 < num_queued then do { (n, data, d'') \<leftarrow> return_data d' [] 0; Some d'' } else Some d')"

datatype transfer_status = Completed "byte list" | Cancelled | No_device | Timed_out | Transfer_error

text \<open>
  \<open>read_callback\<close>: \<open>submit\<close> is the result \<open>libusb_submit_transfer\<close> has when it is called. The second component of
  the result says whether the transfer is under way again, the third whether the condition was signalled.
\<close>

definition read_callback :: "transfer_status \<Rightarrow> int \<Rightarrow> hid_dev \<Rightarrow> (hid_dev \<times> bool \<times> bool) option" where
  "read_callback st submit d =
     (let resubmit = (\<lambda>d sig. if submit \<noteq> 0 then Some (d\<lparr>shutdown_thread := True\<rparr>, False, sig)
                              else Some (d, True, sig)) in
      case st of
        Completed rpt \<Rightarrow> do { d' \<leftarrow> queue_report rpt d; resubmit d' (input_reports d = []) }
      | Cancelled \<Rightarrow> Some (d\<lparr>shutdown_thread := True\<rparr>, False, False)
      | No_device \<Rightarrow> Some (d\<lparr>shutdown_thread := True\<rparr>, False, False)
      | Timed_out \<Rightarrow> resubmit d False
      | Transfer_error \<Rightarrow> resubmit d False)"

section \<open>Reading\<close>

text \<open>
  \<open>hid_read_timeout\<close> up to the point where it may have to wait: a queued report is returned, a
  disconnected device is an error, and without a report the mode decides. \<open>Wait_for\<close> carries the deadline.
\<close>

datatype read_step = Return int "byte list" hid_dev | Wait_forever | Wait_until "int \<times> int"

text \<open>The deadline: seconds and nanoseconds of \<open>CLOCK_REALTIME\<close>, carried over at one second.\<close>

definition deadline :: "int \<times> int \<Rightarrow> int \<Rightarrow> int \<times> int" where
  "deadline now milliseconds =
     (let sec = fst now + milliseconds div 1000; nsec = snd now + (milliseconds mod 1000) * 1000000
      in if 1000000000 \<le> nsec then (sec + 1, nsec - 1000000000) else (sec, nsec))"

definition read_start :: "hid_dev \<Rightarrow> byte list \<Rightarrow> nat \<Rightarrow> int \<Rightarrow> int \<times> int \<Rightarrow> read_step option" where
  "read_start d data len milliseconds now =
     (if input_reports d \<noteq> [] then do { (n, data', d') \<leftarrow> return_data d data len; Some (Return n data' d') }
      else if shutdown_thread d then Some (Return (- 1) data d)
      else if milliseconds = - 1 then Some Wait_forever
      else if 0 < milliseconds then Some (Wait_until (deadline now milliseconds))
      else Some (Return 0 data d))"

text \<open>
  What happens each time the blocking loop looks at the queue, and each time the timed loop does,
  with \<open>res\<close> the result of \<open>pthread_cond_timedwait\<close>; \<open>None\<close> in the inner option is another turn of the loop.
\<close>

definition read_blocking :: "hid_dev \<Rightarrow> byte list \<Rightarrow> nat \<Rightarrow> read_step option option" where
  "read_blocking d data len =
     (if input_reports d = [] \<and> \<not> shutdown_thread d then Some None
      else if input_reports d \<noteq> []
      then do { (n, data', d') \<leftarrow> return_data d data len; Some (Some (Return n data' d')) }
      else Some (Some (Return (- 1) data d)))"

datatype timedwait = Signalled | Timeout | Wait_error

definition read_timed :: "timedwait \<Rightarrow> hid_dev \<Rightarrow> byte list \<Rightarrow> nat \<Rightarrow> read_step option option" where
  "read_timed res d data len =
     (case res of
        Signalled \<Rightarrow>
          if input_reports d \<noteq> []
          then do { (n, data', d') \<leftarrow> return_data d data len; Some (Some (Return n data' d')) }
          else if shutdown_thread d then Some (Some (Return (- 1) data d)) else Some None
      | Timeout \<Rightarrow> Some (Some (Return 0 data d))
      | Wait_error \<Rightarrow> Some (Some (Return (- 1) data d)))"

text \<open>\<open>hid_read\<close> picks the mode.\<close>

definition read_mode :: "hid_dev \<Rightarrow> int" where
  "read_mode d = (if blocking d then - 1 else 0)"

section \<open>Properties of the queue\<close>

lemma return_data_some:
  assumes "input_reports d = rpt # rest" "min len (length rpt) \<le> length data"
  shows "return_data d data len =
    Some (int (min len (length rpt)), take len rpt @ drop (min len (length rpt)) data, d\<lparr>input_reports := rest\<rparr>)"
  using assms by (auto simp: return_data_def Let_def wr_block_def min_def)

text \<open>One report enters at the end; when the queue holds 32 already, the oldest leaves.\<close>

lemma queue_report_eq:
  "queue_report rpt d = Some (d\<lparr>input_reports :=
     (if length (input_reports d) \<le> 31 then input_reports d else tl (input_reports d)) @ [rpt]\<rparr>)"
proof (cases "input_reports d")
  case (Cons r q)
  then show ?thesis by (simp add: queue_report_def return_data_def Let_def)
qed (simp add: queue_report_def)

lemma return_data_queue:
  "return_data d data len = Some (n, data', d') \<Longrightarrow>
    \<exists>r. input_reports d = r # input_reports d' \<and> d' = d\<lparr>input_reports := input_reports d'\<rparr>"
  by (auto simp: return_data_def Let_def bind_Some_iff split: list.splits)

interpretation usbq: report_queue input_reports "\<lambda>q. input_reports_update (\<lambda>_. q)" queue_report return_data
  by unfold_locales (auto simp: queue_report_eq dest: return_data_queue)

text \<open>
  The deadline of a timed read is the current time plus the timeout, exactly, as a normalised \<open>timespec\<close>.
\<close>

theorem read_deadline_exact:
  assumes "0 \<le> snd now" "snd now < 1000000000" "0 < ms"
  shows "0 \<le> snd (deadline now ms) \<and> snd (deadline now ms) < 1000000000 \<and>
    fst (deadline now ms) * 1000000000 + snd (deadline now ms) =
      fst now * 1000000000 + snd now + ms * 1000000"
proof -
  have r: "0 \<le> ms mod 1000" "ms mod 1000 < 1000" by simp_all
  have "ms div 1000 * 1000000000 + ms mod 1000 * 1000000 = ms * 1000000"
    using div_mult_mod_eq [of ms 1000] by linarith
  then show ?thesis using assms r by (auto simp: deadline_def Let_def)
qed

theorem read_deadline_exact_witness:
  "fst (deadline (7, 999000000) 1500) * 1000000000 + snd (deadline (7, 999000000) 1500) = 9499000000"
  using read_deadline_exact [of "(7, 999000000)" 1500] by simp

text \<open>
  A read with a report in the queue never waits, in any mode: it copies the first report, cut to the length
  asked for, into the caller's array, removes exactly that report, and returns the number of bytes copied.
\<close>

theorem read_returns_first_report:
  assumes "input_reports d = rpt # rest" "min len (length rpt) \<le> length data"
  shows "read_start d data len ms now =
    Some (Return (int (min len (length rpt))) (take len rpt @ drop (min len (length rpt)) data)
      (d\<lparr>input_reports := rest\<rparr>))"
  using return_data_some [OF assms] assms(1) by (simp add: read_start_def)

theorem read_returns_first_report_witness:
  "read_start (zero_dev\<lparr>input_reports := [[1, 2, 3], [4]]\<rparr>) [9, 9, 9, 9] 2 (- 1) (0, 0) =
    Some (Return 2 [1, 2, 9, 9] (zero_dev\<lparr>input_reports := [[4]]\<rparr>))"
  using read_returns_first_report [of "zero_dev\<lparr>input_reports := [[1, 2, 3], [4]]\<rparr>" "[1, 2, 3]" "[[4]]"
      2 "[9, 9, 9, 9]" "- 1" "(0, 0)"] by simp

end
