(* ===== verification/ReaderThread.thy ===== *)
theory ReaderThread
  imports InputQueue
begin

text \<open>
  The two threads of an open device in \<^verbatim>\<open>token-DLL/lib/hid-libusb.c\<close>: \<open>read_thread\<close>, started by
  \<open>hid_open_path\<close>, and the application thread that reads and closes. A step is the code between two points
  where the other thread can get in: a section under the mutex, a call of libusb, a wait. What
  libusb answers is left open (any result code, any order of completions); a transfer under way is delivered
  by \<open>libusb_handle_events\<close> or not, as it chooses.
\<close>

section \<open>State\<close>

text \<open>
  Where the reader is: before the first submission, at the barrier, at the head of the loop, in
  \<open>libusb_handle_events\<close>, at \<open>libusb_cancel_transfer\<close>, in the wait for the cancelled transfer, at the
  broadcast, and ended.
\<close>

datatype reader_loc = R_start | R_barrier | R_loop | R_events | R_cancel | R_drain | R_wake | R_done

text \<open>
  Where the application is: in \<open>hid_open_path\<close> at the barrier, outside, waiting in \<open>pthread_cond_wait\<close>,
  woken from it, waiting in \<open>pthread_cond_timedwait\<close>, in \<open>hid_close\<close> in front of the
  cancellation, of the join and of the clean-up, and back from it.
\<close>

datatype client_loc =
  M_barrier | M_idle | M_wait | M_woken | M_timed | M_cancel | M_join | M_free | M_gone

text \<open>The transfer: not allocated, not submitted, submitted, submitted and cancelled, freed.\<close>

datatype transfer_state = No_transfer | Not_submitted | In_flight | Cancelling | Freed

record thread_state =
  shared :: hid_dev
  reader :: reader_loc
  client :: client_loc
  transfer :: transfer_state
  received :: "byte list list"
  consumed :: "byte list list"

abbreviation queue :: "thread_state \<Rightarrow> byte list list" where
  "queue s \<equiv> input_reports (shared s)"

abbreviation stopping :: "thread_state \<Rightarrow> bool" where
  "stopping s \<equiv> shutdown_thread (shared s)"

text \<open>\<open>received\<close> and \<open>consumed\<close> are history: reports completed, and reports that have left the queue.\<close>

definition threads_start :: "hid_dev \<Rightarrow> thread_state" where
  "threads_start d = \<lparr>shared = d\<lparr>input_reports := [], shutdown_thread := False\<rparr>, reader = R_start,
     client = M_barrier, transfer = No_transfer, received = [], consumed = []\<rparr>"

section \<open>The reader\<close>

text \<open>\<open>pthread_cond_signal\<close> and \<open>pthread_cond_broadcast\<close>: a waiting application is woken.\<close>

definition wake :: "bool \<Rightarrow> client_loc \<Rightarrow> client_loc" where
  "wake sig c = (if sig \<and> c = M_wait then M_woken else c)"

definition completed :: "transfer_status \<Rightarrow> byte list list" where
  "completed st = (case st of Completed r \<Rightarrow> [r] | _ \<Rightarrow> [])"

definition deliver :: "transfer_status \<Rightarrow> int \<Rightarrow> thread_state \<Rightarrow> thread_state option" where
  "deliver st submit s = do {
     (d', again, sig) \<leftarrow> read_callback st submit (shared s);
     Some (s\<lparr>shared := d', transfer := (if again then In_flight else Not_submitted),
       client := wake sig (client s), received := received s @ completed st,
       consumed := consumed s @ departed (queue s) (completed st) (input_reports d')\<rparr>)
   }"

text \<open>
  \<open>libusb_handle_events\<close>: it may return without having run the callback. A cancelled transfer completes
  as cancelled, or still as whatever it was about to be.
\<close>

inductive handle_events :: "thread_state \<Rightarrow> int \<Rightarrow> thread_state \<Rightarrow> bool" for s where
  events_none: "handle_events s res s"
| events_transfer: "transfer s = In_flight \<Longrightarrow> st \<noteq> Cancelled \<Longrightarrow> deliver st submit s = Some s' \<Longrightarrow>
    handle_events s res s'"
| events_cancelled: "transfer s = Cancelling \<Longrightarrow> deliver st submit s = Some s' \<Longrightarrow> handle_events s res s'"

text \<open>The codes after which the loop goes on: busy, timeout, overflow, interrupted.\<close>

definition fatal :: "int \<Rightarrow> bool" where
  "fatal res \<longleftrightarrow> res < 0 \<and> res \<noteq> - 6 \<and> res \<noteq> - 7 \<and> res \<noteq> - 8 \<and> res \<noteq> - 10"

inductive reader_step :: "thread_state \<Rightarrow> thread_state \<Rightarrow> bool" for s where
  r_submit: "reader s = R_start \<Longrightarrow>
    reader_step s (s\<lparr>transfer := (if ok then In_flight else Not_submitted), reader := R_barrier\<rparr>)"
| r_barrier: "reader s = R_barrier \<Longrightarrow> client s = M_barrier \<Longrightarrow>
    reader_step s (s\<lparr>reader := R_loop, client := M_idle\<rparr>)"
| r_stop: "reader s = R_loop \<Longrightarrow> stopping s \<Longrightarrow> reader_step s (s\<lparr>reader := R_cancel\<rparr>)"
| r_go: "reader s = R_loop \<Longrightarrow> \<not> stopping s \<Longrightarrow> reader_step s (s\<lparr>reader := R_events\<rparr>)"
| r_events: "reader s = R_events \<Longrightarrow> handle_events s res s' \<Longrightarrow>
    reader_step s (s'\<lparr>reader := (if fatal res then R_cancel else R_loop)\<rparr>)"
| r_cancel: "reader s = R_cancel \<Longrightarrow> transfer s = In_flight \<Longrightarrow>
    reader_step s (s\<lparr>transfer := Cancelling, reader := R_drain\<rparr>)"
| r_cancel_again: "reader s = R_cancel \<Longrightarrow> transfer s = Cancelling \<Longrightarrow>
    reader_step s (s\<lparr>reader := (if ok then R_drain else R_wake)\<rparr>)"
| r_cancel_fails: "reader s = R_cancel \<Longrightarrow> transfer s \<notin> {In_flight, Cancelling} \<Longrightarrow>
    reader_step s (s\<lparr>reader := R_wake\<rparr>)"
| r_drain: "reader s = R_drain \<Longrightarrow> handle_events s res s' \<Longrightarrow> reader_step s (s'\<lparr>reader := R_wake\<rparr>)"
| r_wake: "reader s = R_wake \<Longrightarrow> reader_step s (s\<lparr>reader := R_done, client := wake True (client s)\<rparr>)"

section \<open>The application\<close>

definition leave :: "hid_dev \<Rightarrow> thread_state \<Rightarrow> thread_state" where
  "leave d' s = s\<lparr>shared := d', client := M_idle, consumed := consumed s @ departed (queue s) [] (input_reports d')\<rparr>"

inductive client_step :: "thread_state \<Rightarrow> thread_state \<Rightarrow> bool" for s where
  c_read: "client s = M_idle \<Longrightarrow> read_start (shared s) data len ms now = Some (Return n data' d') \<Longrightarrow>
    client_step s (leave d' s)"
| c_block: "client s = M_idle \<Longrightarrow> read_start (shared s) data len ms now = Some Wait_forever \<Longrightarrow>
    client_step s (s\<lparr>client := M_wait\<rparr>)"
| c_timed: "client s = M_idle \<Longrightarrow> read_start (shared s) data len ms now = Some (Wait_until t) \<Longrightarrow>
    client_step s (s\<lparr>client := M_timed\<rparr>)"
| c_spurious: "client s = M_wait \<Longrightarrow> client_step s (s\<lparr>client := M_woken\<rparr>)"
| c_again: "client s = M_woken \<Longrightarrow> read_blocking (shared s) data len = Some None \<Longrightarrow>
    client_step s (s\<lparr>client := M_wait\<rparr>)"
| c_woken: "client s = M_woken \<Longrightarrow> read_blocking (shared s) data len = Some (Some (Return n data' d')) \<Longrightarrow>
    client_step s (leave d' s)"
| c_timed_again: "client s = M_timed \<Longrightarrow> read_timed res (shared s) data len = Some None \<Longrightarrow> client_step s s"
| c_timed_out: "client s = M_timed \<Longrightarrow> read_timed res (shared s) data len = Some (Some (Return n data' d')) \<Longrightarrow>
    client_step s (leave d' s)"
| c_close: "client s = M_idle \<Longrightarrow>
    client_step s (s\<lparr>shared := (shared s)\<lparr>shutdown_thread := True\<rparr>, client := M_cancel\<rparr>)"
| c_cancel: "client s = M_cancel \<Longrightarrow>
    client_step s (s\<lparr>transfer := (if transfer s = In_flight then Cancelling else transfer s), client := M_join\<rparr>)"
| c_join: "client s = M_join \<Longrightarrow> reader s = R_done \<Longrightarrow> client_step s (s\<lparr>client := M_free\<rparr>)"
| c_free: "client s = M_free \<Longrightarrow> client_step s (s\<lparr>transfer := Freed, client := M_gone\<rparr>)"

definition thread_step :: "thread_state \<Rightarrow> thread_state \<Rightarrow> bool" where
  "thread_step s s' \<longleftrightarrow> reader_step s s' \<or> client_step s s'"

abbreviation thread_steps :: "thread_state \<Rightarrow> thread_state \<Rightarrow> bool" where
  "thread_steps \<equiv> thread_step\<^sup>*\<^sup>*"

definition thread_reach :: "hid_dev \<Rightarrow> thread_state \<Rightarrow> bool" where
  "thread_reach d s \<longleftrightarrow> thread_steps (threads_start d) s"

section \<open>The queue as a bounded buffer\<close>

definition buffer_of :: "thread_state \<Rightarrow> buffer" where
  "buffer_of s = \<lparr>put_in = received s, come_out = consumed s, contents = queue s\<rparr>"

lemma buffer_of_updates [simp]:
  "buffer_of (s\<lparr>reader := r\<rparr>) = buffer_of s" "buffer_of (s\<lparr>client := c\<rparr>) = buffer_of s"
  "buffer_of (s\<lparr>transfer := t\<rparr>) = buffer_of s"
  "buffer_of (s\<lparr>shared := (shared s)\<lparr>shutdown_thread := True\<rparr>\<rparr>) = buffer_of s"
  by (simp_all add: buffer_of_def)

lemma read_callback_effect:
  assumes "read_callback st submit d = Some (d', again, sig)"
  shows "(completed st = [] \<and> input_reports d' = input_reports d \<or>
      (\<exists>r d''. completed st = [r] \<and> queue_report r d = Some d'' \<and> input_reports d' = input_reports d'')) \<and>
    (shutdown_thread d \<longrightarrow> shutdown_thread d') \<and> (sig \<longleftrightarrow> completed st \<noteq> [] \<and> input_reports d = [])"
  using assms
  by (cases st) (auto simp: read_callback_def queue_report_eq completed_def Let_def split: if_splits)

lemma deliver_buffer:
  assumes "deliver st submit s = Some s'" "buffer_ok (buffer_of s)"
  shows "buffer_step (buffer_of s) (buffer_of s')"
proof -
  from assms(1) obtain d' again sig where c: "read_callback st submit (shared s) = Some (d', again, sig)"
    and b: "buffer_of s' = \<lparr>put_in = received s @ completed st,
      come_out = consumed s @ departed (queue s) (completed st) (input_reports d'), contents = input_reports d'\<rparr>"
    unfolding deliver_def by (elim bind_SomeE) (auto simp: buffer_of_def)
  have l: "length (queue s) \<le> 32" using assms(2) by (simp add: buffer_ok_def buffer_of_def)
  consider "completed st = []" "input_reports d' = queue s"
    | r d'' where "completed st = [r]" "queue_report r (shared s) = Some d''" "input_reports d' = input_reports d''"
    using read_callback_effect [OF c] by blast
  then show ?thesis
    by cases (use b usbq.put_buffer [OF _ l] in \<open>simp_all add: buffer_of_def\<close>)
qed

lemma read_start_taken: "read_start d data len ms now = Some (Return n data' d') \<Longrightarrow> usbq.taken d d'"
  unfolding read_start_def by (auto simp: bind_Some_iff usbq.get_taken split: if_split_asm)

lemma read_blocking_taken: "read_blocking d data len = Some (Some (Return n data' d')) \<Longrightarrow> usbq.taken d d'"
  unfolding read_blocking_def by (auto simp: bind_Some_iff usbq.get_taken split: if_split_asm)

lemma read_timed_taken: "read_timed res d data len = Some (Some (Return n data' d')) \<Longrightarrow> usbq.taken d d'"
  unfolding read_timed_def
  by (cases res) (auto simp: bind_Some_iff usbq.get_taken split: if_split_asm)

lemmas read_taken = read_start_taken read_blocking_taken read_timed_taken

lemma leave_buffer: "usbq.taken (shared s) d' \<Longrightarrow> buffer_step (buffer_of s) (buffer_of (leave d' s))"
  using usbq.taken_buffer by (simp add: buffer_of_def leave_def)

lemma thread_step_buffer:
  assumes "thread_step s t" "buffer_ok (buffer_of s)"
  shows "buffer_step (buffer_of s) (buffer_of t)"
  using assms(1) unfolding thread_step_def
proof (elim disjE)
  have e: "buffer_step (buffer_of s) (buffer_of u)" if "handle_events s res u" for res u
    using that by cases (use deliver_buffer assms(2) in auto)
  assume "reader_step s t"
  then show ?thesis by cases (simp_all add: e)
next
  assume "client_step s t"
  then show ?thesis by cases (simp_all add: leave_buffer read_taken)
qed

section \<open>The invariant\<close>

text \<open>The locations that exclude each other, and what waiting means: nothing to read, and if the device is
  being shut down the broadcast is still to come.\<close>

definition threads_ok :: "thread_state \<Rightarrow> bool" where
  "threads_ok s \<longleftrightarrow>
     (reader s \<in> {R_start, R_barrier} \<longleftrightarrow> client s = M_barrier) \<and>
     (reader s = R_start \<longleftrightarrow> transfer s = No_transfer) \<and>
     (transfer s = Freed \<longleftrightarrow> client s = M_gone) \<and>
     (client s \<in> {M_free, M_gone} \<longrightarrow> reader s = R_done) \<and>
     (client s \<in> {M_cancel, M_join, M_free, M_gone} \<longrightarrow> stopping s) \<and>
     (client s = M_wait \<longrightarrow> queue s = [] \<and> (stopping s \<longrightarrow> reader s \<noteq> R_done))"

lemma deliver_effect:
  assumes "deliver st submit s = Some s'"
  shows "reader s' = reader s \<and> transfer s' \<in> {In_flight, Not_submitted} \<and> (stopping s \<longrightarrow> stopping s') \<and>
    (client s' = client s \<and> (client s = M_wait \<longrightarrow> queue s = [] \<longrightarrow> queue s' = []) \<or>
     client s = M_wait \<and> client s' = M_woken)"
proof -
  from assms obtain d' again sig where c: "read_callback st submit (shared s) = Some (d', again, sig)"
    and s': "s' = s\<lparr>shared := d', transfer := (if again then In_flight else Not_submitted),
       client := wake sig (client s), received := received s @ completed st,
       consumed := consumed s @ departed (queue s) (completed st) (input_reports d')\<rparr>"
    unfolding deliver_def by (elim bind_SomeE) auto
  show ?thesis using read_callback_effect [OF c] by (auto simp: s' wake_def)
qed

lemma events_effect:
  assumes "handle_events s res s'"
  shows "reader s' = reader s \<and> (stopping s \<longrightarrow> stopping s') \<and>
    (s' = s \<or> transfer s \<in> {In_flight, Cancelling} \<and> transfer s' \<in> {In_flight, Not_submitted}) \<and>
    (client s' = client s \<and> (client s = M_wait \<longrightarrow> queue s = [] \<longrightarrow> queue s' = []) \<or>
     client s = M_wait \<and> client s' = M_woken)"
  using assms by cases (simp, (use deliver_effect in blast)+)

lemma threads_ok_facts:
  assumes "threads_ok s"
  shows "client s = M_wait \<Longrightarrow> queue s = []" "client s \<in> {M_cancel, M_join, M_free, M_gone} \<Longrightarrow> stopping s"
    "client s \<in> {M_free, M_gone} \<Longrightarrow> reader s = R_done" "transfer s = Freed \<Longrightarrow> client s = M_gone"
    "transfer s = No_transfer \<Longrightarrow> reader s = R_start" "client s = M_barrier \<Longrightarrow> reader s \<in> {R_start, R_barrier}"
    "client s = M_wait \<Longrightarrow> stopping s \<Longrightarrow> reader s \<noteq> R_done"
    "reader s \<in> {R_start, R_barrier} \<Longrightarrow> client s = M_barrier"
  using assms unfolding threads_ok_def by blast+

lemma threads_okI:
  assumes "client s \<notin> {M_barrier, M_free, M_gone}" "transfer s \<notin> {No_transfer, Freed}"
    and "reader s \<notin> {R_start, R_barrier}"
    and "client s \<in> {M_cancel, M_join} \<Longrightarrow> stopping s"
    and "client s = M_wait \<Longrightarrow> queue s = [] \<and> (stopping s \<longrightarrow> reader s \<noteq> R_done)"
  shows "threads_ok s"
  using assms unfolding threads_ok_def by blast

text \<open>The reader in \<open>libusb_handle_events\<close>, on its way to another location short of the end.\<close>

lemma events_threads_ok:
  assumes h: "handle_events s res t" and ok: "threads_ok s"
    and at: "reader s \<in> {R_events, R_drain}" and r: "r \<in> {R_loop, R_cancel, R_wake}"
  shows "threads_ok (t\<lparr>reader := r\<rparr>)"
proof (rule threads_okI)
  note e = events_effect [OF h]
  have cl: "client t = client s \<or> client s = M_wait \<and> client t = M_woken" using e by blast
  have c: "client s \<notin> {M_barrier, M_free, M_gone}" using at threads_ok_facts(3,6) [OF ok] by force
  show "client (t\<lparr>reader := r\<rparr>) \<notin> {M_barrier, M_free, M_gone}" using cl c by force
  have x: "transfer s \<notin> {No_transfer, Freed}" using c at threads_ok_facts(4,5) [OF ok] by force
  have "transfer t = transfer s \<or> transfer t \<in> {In_flight, Not_submitted}" using e by blast
  then show "transfer (t\<lparr>reader := r\<rparr>) \<notin> {No_transfer, Freed}" using x by force
  show "reader (t\<lparr>reader := r\<rparr>) \<notin> {R_start, R_barrier}" using r by force
  show "stopping (t\<lparr>reader := r\<rparr>)" if "client (t\<lparr>reader := r\<rparr>) \<in> {M_cancel, M_join}"
  proof -
    have "client s \<in> {M_cancel, M_join, M_free, M_gone}" using that cl by force
    then show ?thesis using threads_ok_facts(2) [OF ok] e by simp
  qed
  show "queue (t\<lparr>reader := r\<rparr>) = [] \<and> (stopping (t\<lparr>reader := r\<rparr>) \<longrightarrow> reader (t\<lparr>reader := r\<rparr>) \<noteq> R_done)"
    if "client (t\<lparr>reader := r\<rparr>) = M_wait"
  proof -
    have "client s = M_wait" using that cl by force
    then show ?thesis using threads_ok_facts(1) [OF ok] e r that by force
  qed
qed

lemma reader_step_ok:
  assumes "reader_step s s'" "threads_ok s"
  shows "threads_ok s'"
  using assms(1)
proof cases
  case (r_events res t)
  then show ?thesis using events_threads_ok [OF r_events(3) assms(2), of "if fatal res then R_cancel else R_loop"] by simp
next
  case (r_drain res t)
  then show ?thesis using events_threads_ok [OF r_drain(3) assms(2), of R_wake] by simp
next
  case r_wake
  then show ?thesis using assms(2) by (cases "client s") (auto simp: threads_ok_def wake_def)
qed (use assms(2) in \<open>simp_all add: threads_ok_def\<close>)

lemma client_waits:
  "read_start d data len ms now = Some Wait_forever \<Longrightarrow> input_reports d = [] \<and> \<not> shutdown_thread d"
  "read_blocking d data len = Some None \<Longrightarrow> input_reports d = [] \<and> \<not> shutdown_thread d"
  by (auto simp: read_start_def read_blocking_def bind_Some_iff split: if_splits)

lemma client_step_ok:
  assumes "client_step s s'" "threads_ok s"
  shows "threads_ok s'"
  using assms(1)
proof cases
  case (c_block data len ms now)
  then show ?thesis using client_waits(1) [OF c_block(3)] assms(2) by (auto simp: threads_ok_def)
next
  case (c_again data len)
  then show ?thesis using client_waits(2) [OF c_again(3)] assms(2) by (auto simp: threads_ok_def)
qed (use assms(2) in \<open>auto simp: threads_ok_def leave_def\<close>)

lemma threads_start_ok: "threads_ok (threads_start d) \<and> buffer_ok (buffer_of (threads_start d))"
  by (simp add: threads_start_def threads_ok_def buffer_ok_def buffer_of_def)

interpretation usb_threads: buffered_threads "\<lambda>s. \<exists>d. s = threads_start d" thread_step buffer_of threads_ok
  by unfold_locales
    (use threads_start_ok thread_step_buffer reader_step_ok client_step_ok in \<open>auto simp: thread_step_def\<close>)

lemma thread_reach_ok: "thread_reach d s \<Longrightarrow> threads_ok s"
  using usb_threads.reach_ok unfolding thread_reach_def by blast

lemma thread_reach_buffer: "thread_reach d s \<Longrightarrow> buffer_ok (buffer_of s)"
  using usb_threads.reach_ok unfolding thread_reach_def by blast

section \<open>Runs\<close>

lemma thread_reach_start: "thread_reach d (threads_start d)"
  by (simp add: thread_reach_def)

lemma thread_reach_reader: "thread_reach d s \<Longrightarrow> reader_step s t \<Longrightarrow> thread_reach d t"
  unfolding thread_reach_def thread_step_def by (erule rtranclp.rtrancl_into_rtrancl) simp

lemma thread_reach_client: "thread_reach d s \<Longrightarrow> client_step s t \<Longrightarrow> thread_reach d t"
  unfolding thread_reach_def thread_step_def by (erule rtranclp.rtrancl_into_rtrancl) simp

text \<open>A state in which no report has come in yet.\<close>

definition quiet :: "hid_dev \<Rightarrow> bool \<Rightarrow> reader_loc \<Rightarrow> client_loc \<Rightarrow> transfer_state \<Rightarrow> thread_state" where
  "quiet d stop r c x = \<lparr>shared = d\<lparr>input_reports := [], shutdown_thread := stop\<rparr>, reader = r, client = c,
     transfer = x, received = [], consumed = []\<rparr>"

lemma quiet_start: "threads_start d = quiet d False R_start M_barrier No_transfer"
  by (simp add: threads_start_def quiet_def)

lemma quiet_running: "thread_reach d (quiet d False R_loop M_idle In_flight)"
proof -
  have "reader_step (quiet d False R_start M_barrier No_transfer) (quiet d False R_barrier M_barrier In_flight)"
    using r_submit [of "quiet d False R_start M_barrier No_transfer" True] by (simp add: quiet_def)
  then have "thread_reach d (quiet d False R_barrier M_barrier In_flight)"
    using thread_reach_reader thread_reach_start quiet_start by metis
  then show ?thesis
    using thread_reach_reader r_barrier [of "quiet d False R_barrier M_barrier In_flight"]
    by (simp add: quiet_def)
qed

lemma quiet_waiting: "thread_reach d (quiet d False R_loop M_wait In_flight)"
proof -
  have "client_step (quiet d False R_loop M_idle In_flight) (quiet d False R_loop M_wait In_flight)"
    using c_block [of "quiet d False R_loop M_idle In_flight" "[]" 0 "- 1" "(0, 0)"]
    by (simp add: quiet_def read_start_def)
  then show ?thesis by (rule thread_reach_client [OF quiet_running])
qed

lemma quiet_closing: "thread_reach d (quiet d True R_loop M_cancel In_flight)"
proof -
  have "client_step (quiet d False R_loop M_idle In_flight) (quiet d True R_loop M_cancel In_flight)"
    using c_close [of "quiet d False R_loop M_idle In_flight"] by (simp add: quiet_def)
  then show ?thesis by (rule thread_reach_client [OF quiet_running])
qed

lemma quiet_joining: "thread_reach d (quiet d True R_loop M_join Cancelling)"
proof -
  have "client_step (quiet d True R_loop M_cancel In_flight) (quiet d True R_loop M_join Cancelling)"
    using c_cancel [of "quiet d True R_loop M_cancel In_flight"] by (simp add: quiet_def)
  then show ?thesis by (rule thread_reach_client [OF quiet_closing])
qed

text \<open>Waiting without a hope: no report, no shutdown, and the reader has ended.\<close>

definition hung :: "thread_state \<Rightarrow> bool" where
  "hung s \<longleftrightarrow> reader s = R_done \<and> \<not> stopping s \<and> queue s = [] \<and> client s \<in> {M_wait, M_woken}"

lemma hung_step: "hung s \<Longrightarrow> thread_step s t \<Longrightarrow> hung t"
  unfolding thread_step_def
  by (elim disjE reader_step.cases client_step.cases) (auto simp: hung_def read_blocking_def)

lemma hung_steps: "thread_steps s t \<Longrightarrow> hung s \<Longrightarrow> hung t"
  by (erule run_invariant) (auto intro: hung_step)

lemma hang_reachable: "thread_reach d (quiet d False R_done M_woken Cancelling)"
proof -
  let ?q = "quiet d False"
  note 1 = quiet_waiting [of d]
  have "reader_step (?q R_loop M_wait In_flight) (?q R_events M_wait In_flight)"
    using r_go [of "?q R_loop M_wait In_flight"] by (simp add: quiet_def)
  note 2 = thread_reach_reader [OF 1 this]
  have "reader_step (?q R_events M_wait In_flight) (?q R_cancel M_wait In_flight)"
    using r_events [OF _ events_none, of "?q R_events M_wait In_flight" "- 1"] by (simp add: quiet_def fatal_def)
  note 3 = thread_reach_reader [OF 2 this]
  have "reader_step (?q R_cancel M_wait In_flight) (?q R_drain M_wait Cancelling)"
    using r_cancel [of "?q R_cancel M_wait In_flight"] by (simp add: quiet_def)
  note 4 = thread_reach_reader [OF 3 this]
  have "reader_step (?q R_drain M_wait Cancelling) (?q R_wake M_wait Cancelling)"
    using r_drain [OF _ events_none, of "?q R_drain M_wait Cancelling"] by (simp add: quiet_def)
  note 5 = thread_reach_reader [OF 4 this]
  have "reader_step (?q R_wake M_wait Cancelling) (?q R_done M_woken Cancelling)"
    using r_wake [of "?q R_wake M_wait Cancelling"] by (simp add: quiet_def wake_def)
  then show ?thesis by (rule thread_reach_reader [OF 5])
qed

lemma freed_in_flight_reachable: "thread_reach d (quiet d True R_done M_free Cancelling)"
proof -
  let ?q = "quiet d True"
  note 2 = quiet_joining [of d]
  have "reader_step (?q R_loop M_join Cancelling) (?q R_cancel M_join Cancelling)"
    using r_stop [of "?q R_loop M_join Cancelling"] by (simp add: quiet_def)
  note 3 = thread_reach_reader [OF 2 this]
  have "reader_step (?q R_cancel M_join Cancelling) (?q R_drain M_join Cancelling)"
    using r_cancel_again [of "?q R_cancel M_join Cancelling" True] by (simp add: quiet_def)
  note 4 = thread_reach_reader [OF 3 this]
  have "reader_step (?q R_drain M_join Cancelling) (?q R_wake M_join Cancelling)"
    using r_drain [OF _ events_none, of "?q R_drain M_join Cancelling"] by (simp add: quiet_def)
  note 5 = thread_reach_reader [OF 4 this]
  have "reader_step (?q R_wake M_join Cancelling) (?q R_done M_join Cancelling)"
    using r_wake [of "?q R_wake M_join Cancelling"] by (simp add: quiet_def wake_def)
  note 6 = thread_reach_reader [OF 5 this]
  have "client_step (?q R_done M_join Cancelling) (?q R_done M_free Cancelling)"
    using c_join [of "?q R_done M_join Cancelling"] by (simp add: quiet_def)
  then show ?thesis by (rule thread_reach_client [OF 6])
qed

section \<open>The end of the reader\<close>

fun reader_rank :: "reader_loc \<Rightarrow> nat" where
  "reader_rank R_start = 7"
| "reader_rank R_barrier = 6"
| "reader_rank R_events = 5"
| "reader_rank R_loop = 4"
| "reader_rank R_cancel = 3"
| "reader_rank R_drain = 2"
| "reader_rank R_wake = 1"
| "reader_rank R_done = 0"

lemma reader_enabled:
  assumes "reader s = R_barrier \<Longrightarrow> client s = M_barrier" "reader s \<noteq> R_done"
  shows "\<exists>t. reader_step s t"
  using assms
proof (cases "reader s")
  case R_events
  then show ?thesis using r_events [OF _ events_none] by blast
next
  case R_drain
  then show ?thesis using r_drain [OF _ events_none] by blast
next
  case R_cancel
  then show ?thesis by (cases "transfer s \<in> {In_flight, Cancelling}") (auto intro: reader_step.intros)
next
  case R_loop
  then show ?thesis by (cases "stopping s") (auto intro: reader_step.intros)
qed (auto intro: reader_step.intros)

text \<open>Once the device is shutting down, every step of the reader brings it closer to its end.\<close>

lemma reader_step_stopping:
  assumes "reader_step s t" "stopping s"
  shows "reader_rank (reader t) < reader_rank (reader s) \<and> stopping t"
  using assms(1)
proof cases
  case (r_events res s')
  then show ?thesis using events_effect [OF r_events(3)] assms(2) by simp
next
  case (r_drain res s')
  then show ?thesis using events_effect [OF r_drain(3)] assms(2) by simp
qed (use assms(2) in auto)

lemma reader_step_client:
  assumes "reader_step s t" "client s = M_join"
  shows "client t = M_join"
  using assms(1)
proof cases
  case (r_events res s')
  then show ?thesis using events_effect [OF r_events(3)] assms(2) by auto
next
  case (r_drain res s')
  then show ?thesis using events_effect [OF r_drain(3)] assms(2) by auto
qed (use assms(2) in \<open>auto simp: wake_def\<close>)

lemma join_returns:
  "thread_reach d s \<Longrightarrow> client s = M_join \<Longrightarrow> \<exists>t. thread_steps s t \<and> client t = M_join \<and> reader t = R_done"
proof (induction "reader_rank (reader s)" arbitrary: s rule: less_induct)
  case less
  note ok = thread_reach_ok [OF less.prems(1)]
  have st: "stopping s" using threads_ok_facts(2) ok less.prems(2) by blast
  show ?case
  proof (cases "reader s = R_done")
    case True
    then show ?thesis using less.prems(2) by blast
  next
    case False
    then obtain t where t: "reader_step s t"
      using reader_enabled threads_ok_facts(8) ok less.prems(2) by blast
    then obtain u where "thread_steps t u" "client u = M_join" "reader u = R_done"
      using less.hyps [of t] reader_step_stopping [OF t] reader_step_client [OF t] ok st less.prems
        thread_reach_reader [OF _ t] by blast
    moreover have "thread_steps s t" using t by (simp add: thread_step_def r_into_rtranclp)
    ultimately show ?thesis by (meson rtranclp_trans)
  qed
qed

text \<open>\<open>hid_close\<close>, from its cancellation on: every step of either thread brings its return closer, and until then there is one.\<close>

fun client_rank :: "client_loc \<Rightarrow> nat" where
  "client_rank M_cancel = 3"
| "client_rank M_join = 2"
| "client_rank M_free = 1"
| "client_rank c = 0"

definition closing :: "thread_state \<Rightarrow> bool" where
  "closing s \<longleftrightarrow> client s \<in> {M_cancel, M_join, M_free, M_gone}"

lemma reader_step_closing:
  assumes "reader_step s t" "closing s"
  shows "client t = client s"
  using assms(1)
proof cases
  case (r_events res s')
  then show ?thesis using events_effect [OF r_events(3)] assms(2) by (auto simp: closing_def)
next
  case (r_drain res s')
  then show ?thesis using events_effect [OF r_drain(3)] assms(2) by (auto simp: closing_def)
qed (use assms(2) in \<open>auto simp: closing_def wake_def\<close>)

lemma client_step_closing:
  assumes "client_step s t" "closing s"
  shows "closing t \<and> client_rank (client t) < client_rank (client s) \<and> reader t = reader s"
  using assms(1) by cases (use assms(2) in \<open>auto simp: closing_def\<close>)

lemma closing_step:
  assumes "thread_step s t" "closing s" "threads_ok s"
  shows "closing t \<and> client_rank (client t) + reader_rank (reader t) < client_rank (client s) + reader_rank (reader s)"
  using assms(1) unfolding thread_step_def
proof (elim disjE)
  assume r: "reader_step s t"
  have "stopping s" using threads_ok_facts(2) [OF assms(3)] assms(2) by (auto simp: closing_def)
  then show ?thesis using reader_step_stopping [OF r] reader_step_closing [OF r assms(2)] assms(2) by (simp add: closing_def)
qed (use client_step_closing [OF _ assms(2)] in auto)

lemma closing_enabled:
  assumes "closing s" "threads_ok s" "client s \<noteq> M_gone"
  shows "\<exists>t. thread_step s t"
proof (cases "reader s = R_done")
  case True
  then have "\<exists>t. client_step s t" using assms(1,3) by (auto simp: closing_def intro: client_step.intros)
  then show ?thesis by (auto simp: thread_step_def)
next
  case False
  then show ?thesis
    using reader_enabled [of s] threads_ok_facts(8) [OF assms(2)] by (auto simp: thread_step_def)
qed

lemma closing_run:
  assumes "(thread_step ^^ k) s t" "closing s" "threads_ok s"
  shows "closing t \<and> threads_ok t \<and>
    k + client_rank (client t) + reader_rank (reader t) \<le> client_rank (client s) + reader_rank (reader s)"
  using assms(1)
proof (induction k arbitrary: t)
  case 0
  then show ?case using assms(2,3) by simp
next
  case (Suc k)
  then obtain u where u: "(thread_step ^^ k) s u" "thread_step u t" by auto
  have i: "closing u" "threads_ok u" "k + client_rank (client u) + reader_rank (reader u) \<le> client_rank (client s) + reader_rank (reader s)"
    using Suc.IH [OF u(1)] by simp_all
  then show ?case using closing_step [OF u(2) i(1,2)] usb_threads.step_ok [OF u(2) i(2)] by simp
qed

section \<open>Properties of the two threads\<close>

text \<open>
  At every moment of every run the reports received are those that have left the queue followed by
  those still in it, in the order of arrival, and the queue never holds more than 32 of them.
\<close>

theorem reports_accounted:
  assumes "thread_reach d s"
  shows "received s = consumed s @ queue s \<and> length (queue s) \<le> 32"
  using thread_reach_buffer [OF assms] by (simp add: buffer_ok_def buffer_of_def)

theorem reports_accounted_witness:
  "received (quiet zero_dev False R_done M_woken Cancelling) =
    consumed (quiet zero_dev False R_done M_woken Cancelling) @ queue (quiet zero_dev False R_done M_woken Cancelling)"
  using reports_accounted [OF hang_reachable [of zero_dev]] by blast

text \<open>
  C27. No wake-up is lost: an application asleep in \<open>hid_read\<close> has nothing to read, and when the device has been
  marked as disconnected the reader has its broadcast still in front of it.
\<close>

theorem no_lost_wakeup:
  assumes "thread_reach d s" "client s = M_wait"
  shows "queue s = [] \<and> \<not> (stopping s \<and> reader s = R_done)"
  using thread_reach_ok [OF assms(1)] threads_ok_facts(1,7) assms(2) by blast

theorem no_lost_wakeup_witness:
  "\<exists>s. thread_reach zero_dev s \<and> client s = M_wait \<and> queue s = []"
  using no_lost_wakeup [OF quiet_waiting [of zero_dev]] quiet_waiting [of zero_dev] by (auto simp: quiet_def)

text \<open>
  When \<open>libusb_handle_events\<close> fails for good and the cancelled transfer is not reported back, \<open>read_thread\<close> ends
  without marking the device as disconnected: a blocking \<open>hid_read\<close> that is asleep then never returns,
  whatever happens next.
\<close>

theorem fatal_error_hangs_read:
  "\<exists>s. thread_reach d s \<and> reader s = R_done \<and> client s = M_woken \<and>
    (\<forall>t. thread_steps s t \<longrightarrow> client t = M_wait \<or> client t = M_woken)"
proof -
  have "hung (quiet d False R_done M_woken Cancelling)" by (simp add: hung_def quiet_def)
  then have "\<forall>t. thread_steps (quiet d False R_done M_woken Cancelling) t \<longrightarrow> client t = M_wait \<or> client t = M_woken"
    using hung_steps unfolding hung_def by blast
  moreover have "reader (quiet d False R_done M_woken Cancelling) = R_done \<and>
      client (quiet d False R_done M_woken Cancelling) = M_woken" by (simp add: quiet_def)
  ultimately show ?thesis using hang_reachable [of d] by blast
qed

theorem fatal_error_hangs_read_witness:
  "\<exists>s. thread_reach zero_dev s \<and> reader s = R_done \<and> client s = M_woken"
  using fatal_error_hangs_read [of zero_dev] by blast

text \<open>
  \<open>hid_close\<close> can free the transfer while libusb still owns it: the reader waits for the cancelled transfer with
  a single \<open>libusb_handle_events\<close>, which may return without having delivered it.
\<close>

theorem close_frees_pending_transfer:
  "\<exists>s. thread_reach d s \<and> transfer s = Cancelling \<and> client_step s (s\<lparr>transfer := Freed, client := M_gone\<rparr>)"
  using freed_in_flight_reachable [of d] c_free [of "quiet d True R_done M_free Cancelling"]
  by (intro exI [of _ "quiet d True R_done M_free Cancelling"]) (simp add: quiet_def)

text \<open>
  Once the device is shutting down, each step of the reader lowers its distance to the end, at most seven steps:
  whatever libusb answers and however the threads interleave, \<open>pthread_join\<close> in \<open>hid_close\<close> gets its turn.
\<close>

theorem reader_ends_after_shutdown:
  assumes "stopping s" "reader_step s t"
  shows "reader_rank (reader t) < reader_rank (reader s) \<and> stopping t"
  by (rule reader_step_stopping [OF assms(2,1)])

theorem reader_ends_after_shutdown_witness:
  "\<exists>s t. thread_reach zero_dev s \<and> reader_step s t \<and> reader_rank (reader t) < reader_rank (reader s)"
proof -
  let ?s = "quiet zero_dev True R_loop M_cancel In_flight" and ?t = "quiet zero_dev True R_cancel M_cancel In_flight"
  have "reader_step ?s ?t" using r_stop [of ?s] by (simp add: quiet_def)
  moreover have "stopping ?s" by (simp add: quiet_def)
  ultimately show ?thesis using reader_ends_after_shutdown quiet_closing [of zero_dev] by blast
qed

text \<open>
  \<open>hid_close\<close> is never stuck: from every reachable state in which it has come to \<open>pthread_join\<close> a run
  leads to its return.
\<close>

theorem close_can_finish:
  assumes "thread_reach d s" "client s = M_join"
  shows "\<exists>t. thread_steps s t \<and> client t = M_gone"
proof -
  obtain t where t: "thread_steps s t" "client t = M_join" "reader t = R_done" using join_returns [OF assms] by blast
  have "client_step t (t\<lparr>client := M_free\<rparr>)" using t(2,3) by (rule c_join)
  moreover have "client_step (t\<lparr>client := M_free\<rparr>) (t\<lparr>client := M_free\<rparr>\<lparr>transfer := Freed, client := M_gone\<rparr>)"
    by (rule c_free) simp
  ultimately have "thread_steps s (t\<lparr>client := M_free\<rparr>\<lparr>transfer := Freed, client := M_gone\<rparr>)"
    using t(1) by (meson rtranclp.rtrancl_into_rtrancl thread_step_def)
  then show ?thesis by (intro exI conjI) (assumption, simp)
qed

theorem close_can_finish_witness:
  "\<exists>s t. thread_reach zero_dev s \<and> client s = M_join \<and> thread_steps s t \<and> client t = M_gone"
  using close_can_finish [OF quiet_joining [of zero_dev]] quiet_joining [of zero_dev]
  by (auto simp: quiet_def)

text \<open>
  C37. \<open>hid_close\<close> over libusb returns, however the two threads are scheduled and whatever libusb answers: once it has marked the device as
  shutting down, a run has at most ten steps, and a run that has not come to its return can be continued.
\<close>

theorem close_returns:
  assumes "thread_reach d s" "client s \<in> {M_cancel, M_join, M_free}" "(thread_step ^^ k) s t"
  shows "k \<le> 10 \<and> (client t = M_gone \<or> (\<exists>u. thread_step t u))"
proof -
  have c: "closing s" using assms(2) by (auto simp: closing_def)
  note r = closing_run [OF assms(3) c thread_reach_ok [OF assms(1)]]
  have "client_rank (client s) \<le> 3" "reader_rank (reader s) \<le> 7" by (cases "client s"; simp) (cases "reader s"; simp)
  then have "k \<le> 10" using r by linarith
  then show ?thesis using closing_enabled r by blast
qed

theorem close_returns_witness:
  "\<exists>s. thread_reach zero_dev s \<and> client s = M_join \<and> (\<forall>k t. (thread_step ^^ k) s t \<longrightarrow> k \<le> 10)"
  using close_returns [OF quiet_joining [of zero_dev]] quiet_joining [of zero_dev]
  by (intro exI [of _ "quiet zero_dev True R_loop M_join Cancelling"]) (auto simp: quiet_def)

text \<open>
  C19. The two threads implement a bounded buffer: every step of either is a step of the buffer on what has been
  received, what has left the queue, and the queue.
\<close>

theorem threads_refine_buffer:
  assumes "thread_reach d s" "thread_step s t"
  shows "buffer_step (buffer_of s) (buffer_of t)"
  using usb_threads.reach_step_refines assms unfolding thread_reach_def by blast

theorem threads_refine_buffer_witness:
  "\<exists>t. buffer_step \<lparr>put_in = [], come_out = [], contents = []\<rparr> (buffer_of t) \<and> queue t = [[7]]"
proof -
  let ?s = "quiet zero_dev False R_events M_idle In_flight"
  have "reader_step (quiet zero_dev False R_loop M_idle In_flight) ?s"
    using r_go [of "quiet zero_dev False R_loop M_idle In_flight"] by (simp add: quiet_def)
  note 1 = thread_reach_reader [OF quiet_running this]
  obtain t where t: "deliver (Completed [7]) 0 ?s = Some t" "queue t = [[7]]"
    by (simp add: deliver_def read_callback_def queue_report_def quiet_def)
  have "handle_events ?s 0 t" by (rule events_transfer [OF _ _ t(1)]) (simp_all add: quiet_def)
  then have "reader_step ?s (t\<lparr>reader := (if fatal 0 then R_cancel else R_loop)\<rparr>)"
    by (intro r_events) (simp_all add: quiet_def)
  then have "thread_step ?s (t\<lparr>reader := (if fatal 0 then R_cancel else R_loop)\<rparr>)" by (simp add: thread_step_def)
  from threads_refine_buffer [OF 1 this] t(2) show ?thesis
    by (intro exI [of _ t]) (simp add: buffer_of_def quiet_def)
qed

end
