(* ===== verification/Uevent.thy ===== *)
theory Uevent
  imports HidApi
begin

text \<open>
  The text formats \<^verbatim>\<open>hidapi-master/linux/hid.c\<close> reads: the \<open>uevent\<close> attribute of a HID device
  (\<open>parse_uevent_info\<close>), hexadecimal attributes and the kernel release. \<open>scanf\<close> and \<open>strtol\<close> are modelled as far as
  the formats of the file go; a number that does not fit its target is undefined behaviour.
\<close>

section \<open>Numbers\<close>

definition is_space :: "char \<Rightarrow> bool" where
  "is_space c \<longleftrightarrow> (let n = of_char c :: nat in n = 32 \<or> 9 \<le> n \<and> n \<le> 13)"

definition hex_val :: "char \<Rightarrow> nat option" where
  "hex_val c = (let n = of_char c :: nat in
     if 48 \<le> n \<and> n \<le> 57 then Some (n - 48)
     else if 97 \<le> n \<and> n \<le> 102 then Some (n - 87)
     else if 65 \<le> n \<and> n \<le> 70 then Some (n - 55) else None)"

definition dec_val :: "char \<Rightarrow> nat option" where
  "dec_val c = (let n = of_char c :: nat in if 48 \<le> n \<and> n \<le> 57 then Some (n - 48) else None)"

fun scan_digits :: "(char \<Rightarrow> nat option) \<Rightarrow> nat \<Rightarrow> nat \<Rightarrow> string \<Rightarrow> nat \<times> string" where
  "scan_digits dv base v [] = (v, [])"
| "scan_digits dv base v (c # cs) =
     (case dv c of Some d \<Rightarrow> scan_digits dv base (base * v + d) cs | None \<Rightarrow> (v, c # cs))"

text \<open>Leading space, a sign, and for hexadecimal numbers the prefix \<open>0x\<close>; \<open>None\<close> when no digit follows.\<close>

definition scan_number :: "(char \<Rightarrow> nat option) \<Rightarrow> nat \<Rightarrow> string \<Rightarrow> (int \<times> string) option" where
  "scan_number dv base s =
     (let s1 = dropWhile is_space s;
          neg = (s1 \<noteq> [] \<and> hd s1 = CHR ''-'');
          s2 = (if s1 \<noteq> [] \<and> (hd s1 = CHR ''-'' \<or> hd s1 = CHR ''+'') then tl s1 else s1);
          s3 = (if base = 16 \<and> 2 \<le> length s2 \<and> s2 ! 0 = CHR ''0'' \<and> (s2 ! 1 = CHR ''x'' \<or> s2 ! 1 = CHR ''X'')
                then drop 2 s2 else s2)
      in if s3 = [] \<or> dv (hd s3) = None then None
         else let (v, r) = scan_digits dv base 0 s3 in Some (if neg then - int v else int v, r))"

definition scan_char :: "char \<Rightarrow> string \<Rightarrow> string option" where
  "scan_char c s = (case s of [] \<Rightarrow> None | x # r \<Rightarrow> if x = c then Some r else None)"

definition to_word :: "int \<Rightarrow> 'a::len word option" where
  "to_word v = (if \<bar>v\<bar> < 2 ^ LENGTH('a) then Some (word_of_int v) else None)"

text \<open>\<open>strtol(str, NULL, 16)\<close>, which saturates.\<close>

definition strtol16 :: "string \<Rightarrow> int" where
  "strtol16 s = (case scan_number hex_val 16 s of None \<Rightarrow> 0 | Some (v, _) \<Rightarrow> max (- (2 ^ 63)) (min (2 ^ 63 - 1) v))"

section \<open>The uevent attribute\<close>

text \<open>\<open>strtok_r(tmp, "\n", &saveptr)\<close>: the non-empty pieces between newlines.\<close>

fun tokens :: "char \<Rightarrow> string \<Rightarrow> string \<Rightarrow> string list" where
  "tokens d acc [] = (if acc = [] then [] else [acc])"
| "tokens d acc (c # cs) =
     (if c = d then (if acc = [] then tokens d [] cs else acc # tokens d [] cs) else tokens d (acc @ [c]) cs)"

text \<open>The first \<open>=\<close> of a line ends the key.\<close>

fun key_value :: "string \<Rightarrow> (string \<times> string) option" where
  "key_value [] = None"
| "key_value (c # cs) =
     (if c = CHR ''='' then Some ([], cs)
      else case key_value cs of None \<Rightarrow> None | Some (k, v) \<Rightarrow> Some (c # k, v))"

text \<open>
  The variables of the caller, \<open>None\<close> where nothing has been assigned, the three flags, and the number of strings whose
  only pointer has been overwritten.
\<close>

record uevent =
  ue_bus :: "u32 option"
  ue_vendor :: "u16 option"
  ue_product :: "u16 option"
  ue_serial :: "string option"
  ue_name :: "string option"
  found_id :: bool
  found_serial :: bool
  found_name :: bool
  ue_lost :: int

definition uevent_start :: uevent where
  "uevent_start = \<lparr>ue_bus = None, ue_vendor = None, ue_product = None, ue_serial = None, ue_name = None,
     found_id = False, found_serial = False, found_name = False, ue_lost = 0\<rparr>"

text \<open>\<open>sscanf(value, "%x:%hx:%hx", bus_type, vendor_id, product_id)\<close>: what it assigns before it stops stays.\<close>

definition scan_id :: "string \<Rightarrow> uevent \<Rightarrow> (nat \<times> uevent) option" where
  "scan_id value u =
     (case scan_number hex_val 16 value of
        None \<Rightarrow> Some (0, u)
      | Some (b, r1) \<Rightarrow> do {
          bw \<leftarrow> to_word b;
          let u1 = u\<lparr>ue_bus := Some bw\<rparr>;
          case Option.bind (scan_char (CHR '':'') r1) (scan_number hex_val 16) of
            None \<Rightarrow> Some (1, u1)
          | Some (v, r2) \<Rightarrow> do {
              vw \<leftarrow> to_word v;
              let u2 = u1\<lparr>ue_vendor := Some vw\<rparr>;
              case Option.bind (scan_char (CHR '':'') r2) (scan_number hex_val 16) of
                None \<Rightarrow> Some (2, u2)
              | Some (p, r3) \<Rightarrow> do {
                  pw \<leftarrow> to_word p;
                  Some (3, u2\<lparr>ue_product := Some pw\<rparr>) } } })"

definition uevent_line :: "string \<Rightarrow> uevent \<Rightarrow> uevent option" where
  "uevent_line line u =
     (case key_value line of
        None \<Rightarrow> Some u
      | Some (key, value) \<Rightarrow>
          if key = ''HID_ID'' then do {
            (ret, u1) \<leftarrow> scan_id value u;
            Some (if ret = 3 then u1\<lparr>found_id := True\<rparr> else u1) }
          else if key = ''HID_NAME''
          then Some (u\<lparr>ue_name := Some value, found_name := True, ue_lost := ue_lost u + some_block (ue_name u)\<rparr>)
          else if key = ''HID_UNIQ''
          then Some (u\<lparr>ue_serial := Some value, found_serial := True, ue_lost := ue_lost u + some_block (ue_serial u)\<rparr>)
          else Some u)"

fun uevent_lines :: "string list \<Rightarrow> uevent \<Rightarrow> uevent option" where
  "uevent_lines [] u = Some u"
| "uevent_lines (l # ls) u = do { u1 \<leftarrow> uevent_line l u; uevent_lines ls u1 }"

text \<open>\<open>strdup\<close> of a missing attribute would follow a NULL pointer.\<close>

definition parse_uevent_info :: "string option \<Rightarrow> (bool \<times> uevent) option" where
  "parse_uevent_info text = do {
     t \<leftarrow> text;
     u \<leftarrow> uevent_lines (tokens (CHR 0x0A) [] t) uevent_start;
     Some (found_id u \<and> found_name u \<and> found_serial u, u)
   }"

section \<open>Reading back what the kernel prints\<close>

fun fixed_hex :: "nat \<Rightarrow> nat \<Rightarrow> string" where
  "fixed_hex 0 v = []"
| "fixed_hex (Suc n) v = fixed_hex n (v div 16) @ [''0123456789ABCDEF'' ! (v mod 16)]"

text \<open>The attribute as the kernel's HID core writes it, after the comment in the code.\<close>

definition kernel_uevent :: "u32 \<Rightarrow> u16 \<Rightarrow> u16 \<Rightarrow> string \<Rightarrow> string \<Rightarrow> string \<Rightarrow> string" where
  "kernel_uevent bus vid pid name phys uniq =
     ''DRIVER=hid-generic'' @ [CHR 0x0A] @
     ''HID_ID='' @ fixed_hex 4 (unat bus) @ '':'' @ fixed_hex 8 (unat vid) @ '':'' @ fixed_hex 8 (unat pid) @ [CHR 0x0A] @
     ''HID_NAME='' @ name @ [CHR 0x0A] @ ''HID_PHYS='' @ phys @ [CHR 0x0A] @ ''HID_UNIQ='' @ uniq @ [CHR 0x0A]"

lemma hex_val_digit: "d < 16 \<Longrightarrow> hex_val (''0123456789ABCDEF'' ! d) = Some d"
proof -
  have "list_all (\<lambda>d. hex_val (''0123456789ABCDEF'' ! d) = Some d) [0..<16]" by code_simp
  then show "d < 16 \<Longrightarrow> ?thesis" by (simp only: list_all_iff) simp
qed

lemma scan_digits_append:
  "list_all (\<lambda>c. hex_val c \<noteq> None) ds \<Longrightarrow>
    scan_digits hex_val 16 v (ds @ r) = scan_digits hex_val 16 (fst (scan_digits hex_val 16 v ds)) r"
  by (induction ds arbitrary: v) auto

lemma scan_fixed_hex: "v < 16 ^ n \<Longrightarrow> scan_digits hex_val 16 a (fixed_hex n v) = (a * 16 ^ n + v, [])"
proof (induction n arbitrary: v)
  case (Suc n)
  have all: "list_all (\<lambda>c. hex_val c \<noteq> None) (fixed_hex n w)" for w
    by (induction n arbitrary: w) (auto simp: hex_val_digit)
  have "v div 16 < 16 ^ n" using Suc.prems by (simp add: less_mult_imp_div_less mult.commute)
  then show ?case
    using Suc.IH [of "v div 16"] all
    by (simp add: scan_digits_append hex_val_digit algebra_simps)
qed simp

lemma fixed_hex_set: "set (fixed_hex n v) \<subseteq> set ''0123456789ABCDEF''"
proof (induction n arbitrary: v)
  case (Suc n)
  have "''0123456789ABCDEF'' ! (v mod 16) \<in> set ''0123456789ABCDEF''" by (rule nth_mem) simp
  then show ?case using Suc [of "v div 16"] by simp
qed simp

lemma length_fixed_hex [simp]: "length (fixed_hex n v) = n"
  by (induction n arbitrary: v) simp_all

text \<open>None of the sixteen digits is taken for space, a sign or the letter of the prefix.\<close>

lemma hex_digit_plain:
  assumes "c \<in> set ''0123456789ABCDEF''"
  shows "\<not> is_space c \<and> c \<noteq> CHR ''-'' \<and> c \<noteq> CHR ''+'' \<and> c \<noteq> CHR ''x'' \<and> c \<noteq> CHR ''X'' \<and> hex_val c \<noteq> None \<and> c \<noteq> CHR 0x0A"
proof -
  have "list_all (\<lambda>c. \<not> is_space c \<and> c \<noteq> CHR ''-'' \<and> c \<noteq> CHR ''+'' \<and> c \<noteq> CHR ''x'' \<and> c \<noteq> CHR ''X'' \<and>
      hex_val c \<noteq> None \<and> c \<noteq> CHR 0x0A) ''0123456789ABCDEF''" by code_simp
  then show ?thesis using assms unfolding list_all_iff by (rule bspec)
qed

lemma scan_number_hex:
  assumes "v < 16 ^ n" "2 \<le> n" "r = [] \<or> hex_val (hd r) = None"
  shows "scan_number hex_val 16 (fixed_hex n v @ r) = Some (int v, r)"
proof -
  let ?h = "fixed_hex n v"
  obtain a b t where h: "?h = a # b # t"
    using assms(2) length_fixed_hex [of n v] by (metis Suc_le_length_iff numeral_2_eq_2)
  have "a \<in> set ?h" "b \<in> set ?h" using h by simp_all
  then have "a \<in> set ''0123456789ABCDEF''" "b \<in> set ''0123456789ABCDEF''" using fixed_hex_set [of n v] by blast+
  then have p: "\<not> is_space a" "a \<noteq> CHR ''-''" "a \<noteq> CHR ''+''" "hex_val a \<noteq> None" "b \<noteq> CHR ''x''" "b \<noteq> CHR ''X''"
    using hex_digit_plain by blast+
  have all: "list_all (\<lambda>c. hex_val c \<noteq> None) ?h"
    using fixed_hex_set [of n v] hex_digit_plain unfolding list_all_iff by blast
  have "scan_digits hex_val 16 0 (?h @ r) = scan_digits hex_val 16 v r"
    using scan_digits_append [OF all, of 0 r] scan_fixed_hex [OF assms(1), of 0] by simp
  also have "\<dots> = (v, r)" using assms(3) by (cases r) auto
  finally have d: "scan_digits hex_val 16 0 (a # b # t @ r) = (v, r)" by (simp add: h)
  show ?thesis using p d by (simp add: scan_number_def h Let_def del: scan_digits.simps)
qed

lemma tokens_line:
  "d \<notin> set l \<Longrightarrow> acc @ l \<noteq> [] \<Longrightarrow> tokens d acc (l @ d # r) = (acc @ l) # tokens d [] r"
proof (induction l arbitrary: acc)
  case (Cons c l)
  then show ?case by (cases "l = []") auto
qed simp

lemma scan_id_printed:
  assumes "unat bus < 2 ^ 16"
  shows "scan_id (fixed_hex 4 (unat bus) @ CHR '':'' # fixed_hex 8 (unat vid) @ CHR '':'' # fixed_hex 8 (unat pid)) u =
    Some (3, u\<lparr>ue_bus := Some bus, ue_vendor := Some vid, ue_product := Some pid\<rparr>)"
proof -
  have w: "unat w < 16 ^ 8" for w :: u16
  proof -
    have "uint w < 65536" using unsigned_less [of w, where ?'a = int] by simp
    then have "nat (uint w) < 16 ^ 8" by (simp del: nat_uint_eq)
    then show ?thesis unfolding nat_uint_eq .
  qed
  have colon: "hex_val (CHR '':'') = None" by code_simp
  have fits: "to_word (uint w) = Some w" for w :: u16
    using unsigned_less [of w, where ?'a = int] by (simp add: to_word_def)
  have fitsb: "to_word (uint bus) = Some bus"
    using unsigned_less [of bus, where ?'a = int] by (simp add: to_word_def)
  have 1: "scan_number hex_val 16 (fixed_hex 4 (unat bus) @ CHR '':'' # r) = Some (int (unat bus), CHR '':'' # r)" for r
    by (rule scan_number_hex) (use assms colon in simp_all)
  have 2: "scan_number hex_val 16 (fixed_hex 8 (unat vid) @ CHR '':'' # r) = Some (int (unat vid), CHR '':'' # r)" for r
    by (rule scan_number_hex) (use w [of vid] colon in simp_all)
  have 3: "scan_number hex_val 16 (fixed_hex 8 (unat pid)) = Some (int (unat pid), [])"
    using scan_number_hex [of "unat pid" 8 "[]"] w [of pid] by simp
  show ?thesis by (simp add: scan_id_def 1 2 3 fits fitsb scan_char_def)
qed

lemma tokens_kernel_uevent:
  assumes "CHR 0x0A \<notin> set name" "CHR 0x0A \<notin> set phys" "CHR 0x0A \<notin> set uniq"
  shows "tokens (CHR 0x0A) [] (kernel_uevent bus vid pid name phys uniq) =
    [''DRIVER=hid-generic'',
     ''HID_ID='' @ fixed_hex 4 (unat bus) @ CHR '':'' # fixed_hex 8 (unat vid) @ CHR '':'' # fixed_hex 8 (unat pid),
     ''HID_NAME='' @ name, ''HID_PHYS='' @ phys, ''HID_UNIQ='' @ uniq]"
proof -
  let ?id = "fixed_hex 4 (unat bus) @ CHR '':'' # fixed_hex 8 (unat vid) @ CHR '':'' # fixed_hex 8 (unat pid)"
  have nl: "CHR 0x0A \<notin> set (fixed_hex n v)" for n v
    using fixed_hex_set [of n v] hex_digit_plain by blast
  have e: "kernel_uevent bus vid pid name phys uniq = ''DRIVER=hid-generic'' @ CHR 0x0A # (''HID_ID='' @ ?id) @ CHR 0x0A #
      (''HID_NAME='' @ name) @ CHR 0x0A # (''HID_PHYS='' @ phys) @ CHR 0x0A # (''HID_UNIQ='' @ uniq) @ CHR 0x0A # []"
    by (simp add: kernel_uevent_def)
  have l: "tokens (CHR 0x0A) [] (l @ CHR 0x0A # r) = l # tokens (CHR 0x0A) [] r" if "CHR 0x0A \<notin> set l" "l \<noteq> []" for l r
    using tokens_line [of "CHR 0x0A" l "[]" r] that by simp
  have n: "CHR 0x0A \<notin> set ''DRIVER=hid-generic''" "CHR 0x0A \<notin> set (''HID_ID='' @ ?id)"
    "CHR 0x0A \<notin> set (''HID_NAME='' @ name)" "CHR 0x0A \<notin> set (''HID_PHYS='' @ phys)" "CHR 0x0A \<notin> set (''HID_UNIQ='' @ uniq)"
    using assms nl by auto
  show ?thesis unfolding e by (simp only: l n append_is_Nil_conv list.distinct simp_thms tokens.simps if_True)
qed

lemma uevent_keys:
  "key_value (''HID_ID='' @ v) = Some (''HID_ID'', v)" "key_value (''HID_NAME='' @ v) = Some (''HID_NAME'', v)"
  "key_value (''HID_PHYS='' @ v) = Some (''HID_PHYS'', v)" "key_value (''HID_UNIQ='' @ v) = Some (''HID_UNIQ'', v)"
  "key_value ''DRIVER=hid-generic'' = Some (''DRIVER'', ''hid-generic'')"
  by simp_all

text \<open>
  \<open>parse_uevent_info\<close> reads back what the kernel prints: bus type, vendor, product, name and serial number, for
  every device on a bus with a sixteen bit number, whatever its strings are as long as they hold no newline; nothing is lost.
\<close>

theorem uevent_roundtrip:
  assumes "unat bus < 2 ^ 16" "CHR 0x0A \<notin> set name" "CHR 0x0A \<notin> set phys" "CHR 0x0A \<notin> set uniq"
  shows "parse_uevent_info (Some (kernel_uevent bus vid pid name phys uniq)) = Some (True,
    \<lparr>ue_bus = Some bus, ue_vendor = Some vid, ue_product = Some pid, ue_serial = Some uniq, ue_name = Some name,
     found_id = True, found_serial = True, found_name = True, ue_lost = 0\<rparr>)"
  unfolding parse_uevent_info_def bind.bind_lunit tokens_kernel_uevent [OF assms(2-4)] uevent_lines.simps
    uevent_line_def uevent_keys
  by (simp add: scan_id_printed [OF assms(1)] uevent_start_def)

theorem uevent_roundtrip_witness:
  "parse_uevent_info (Some (kernel_uevent 3 0x5ac 0x8242 ''Novin=Token'' ''usb-1'' '''')) = Some (True,
    \<lparr>ue_bus = Some 3, ue_vendor = Some 0x5ac, ue_product = Some 0x8242, ue_serial = Some '''', ue_name = Some ''Novin=Token'',
     found_id = True, found_serial = True, found_name = True, ue_lost = 0\<rparr>)"
  using uevent_roundtrip [of 3 "''Novin=Token''" "''usb-1''" "''''" "0x5ac" "0x8242"] by simp

end
