(* ===== verification/ReportDesc.thy ===== *)
theory ReportDesc
  imports Prelude
begin

text \<open>
  The two parsers of HID report descriptors: \<open>get_usage\<close> of \<^verbatim>\<open>token-DLL/lib/hid-libusb.c\<close> (compiled in with
  \<open>INVASIVE_GET_USAGE\<close>) and \<open>uses_numbered_reports\<close> of \<^verbatim>\<open>hidapi-master/linux/hid.c\<close>. Both walk over the items of
  the descriptor with an index of type \<open>unsigned int\<close>, modelled as a natural number with the wrap-around at 2^32 written
  out; the loops are partial functions, for which \<open>None\<close> covers a loop that never ends as well.
\<close>

section \<open>The parsers\<close>

text \<open>
  The length of the data and of the key of the item at \<open>i\<close>: a long item has its length in the next byte, a short one in
  the lower two bits of the key. The two files have the same text for it.
\<close>

definition report_item :: "byte list \<Rightarrow> nat \<Rightarrow> nat \<Rightarrow> (nat \<times> nat) option" where
  "report_item rpt sz i = do {
     key \<leftarrow> rd rpt i;
     if key AND 0xf0 = 0xf0 then do {
       data_len \<leftarrow> (if (i + 1) mod 2 ^ 32 < sz then map_option unat (rd rpt ((i + 1) mod 2 ^ 32)) else Some 0);
       Some (data_len, 3) }
     else let size_code = unat (key AND 0x3) in Some (if size_code = 3 then 4 else size_code, 1)
   }"

text \<open>
  The bytes are promoted to \<open>int\<close>: four bytes whose top byte is 128 or more overflow it, which C leaves undefined.
\<close>

definition get_bytes :: "byte list \<Rightarrow> nat \<Rightarrow> nat \<Rightarrow> nat \<Rightarrow> u32 option" where
  "get_bytes rpt len num_bytes cur =
     (if len \<le> cur + num_bytes then Some 0
      else if num_bytes = 0 then Some 0
      else if num_bytes = 1 then do { b1 \<leftarrow> rd rpt (cur + 1); Some (ucast b1) }
      else if num_bytes = 2 then do {
        b2 \<leftarrow> rd rpt (cur + 2); b1 \<leftarrow> rd rpt (cur + 1);
        Some (ucast b2 * 256 + ucast b1) }
      else if num_bytes = 4 then do {
        b4 \<leftarrow> rd rpt (cur + 4); b3 \<leftarrow> rd rpt (cur + 3); b2 \<leftarrow> rd rpt (cur + 2); b1 \<leftarrow> rd rpt (cur + 1);
        if 128 \<le> b4 then None
        else Some (ucast b4 * 0x01000000 + ucast b3 * 0x00010000 + ucast b2 * 0x00000100 + ucast b1) }
      else Some 0)"

text \<open>The result, \<open>*usage_page\<close> and \<open>*usage\<close>.\<close>

partial_function (option) get_usage_loop ::
    "byte list \<Rightarrow> nat \<Rightarrow> nat \<Rightarrow> u16 \<Rightarrow> u16 \<Rightarrow> bool \<Rightarrow> bool \<Rightarrow> (int \<times> u16 \<times> u16) option" where
  "get_usage_loop rpt sz i page usage page_found usage_found =
     (if sz \<le> i then Some (- 1, page, usage)
      else do {
        key \<leftarrow> rd rpt i;
        (data_len, key_size) \<leftarrow> report_item rpt sz i;
        (page', page_found') \<leftarrow> (if key AND 0xfc = 0x4
            then do { v \<leftarrow> get_bytes rpt sz data_len i; Some (ucast v, True) } else Some (page, page_found));
        (usage', usage_found') \<leftarrow> (if key AND 0xfc = 0x8
            then do { v \<leftarrow> get_bytes rpt sz data_len i; Some (ucast v, True) } else Some (usage, usage_found));
        if page_found' \<and> usage_found' then Some (0, page', usage')
        else get_usage_loop rpt sz ((i + (data_len + key_size)) mod 2 ^ 32) page' usage' page_found' usage_found' })"

definition get_usage :: "byte list \<Rightarrow> nat \<Rightarrow> u16 \<Rightarrow> u16 \<Rightarrow> (int \<times> u16 \<times> u16) option" where
  "get_usage report_descriptor sz usage_page usage =
     get_usage_loop report_descriptor sz 0 usage_page usage False False"

partial_function (option) numbered_loop :: "byte list \<Rightarrow> nat \<Rightarrow> nat \<Rightarrow> bool option" where
  "numbered_loop rpt sz i =
     (if sz \<le> i then Some False
      else do {
        key \<leftarrow> rd rpt i;
        if key = 0x85 then Some True
        else do {
          (data_len, key_size) \<leftarrow> report_item rpt sz i;
          numbered_loop rpt sz ((i + (data_len + key_size)) mod 2 ^ 32) } })"

definition uses_numbered_reports :: "byte list \<Rightarrow> nat \<Rightarrow> bool option" where
  "uses_numbered_reports report_descriptor sz = numbered_loop report_descriptor sz 0"

section \<open>The items of a descriptor\<close>

text \<open>The reference: a descriptor cut into items, each a key and its data.\<close>

fun item_head :: "byte list \<Rightarrow> nat \<times> nat" where
  "item_head [] = (0, 1)"
| "item_head (k # r) =
     (if k AND 0xf0 = 0xf0 then (case r of [] \<Rightarrow> (0, 3) | n # _ \<Rightarrow> (unat n, 3))
      else (if unat (k AND 3) = 3 then 4 else unat (k AND 3), 1))"

definition item_length :: "byte list \<Rightarrow> nat" where
  "item_length bs = fst (item_head bs) + snd (item_head bs)"

lemma item_length_pos: "0 < item_length bs"
  by (cases bs) (auto simp: item_length_def split: list.splits)

lemma item_length_bound: "item_length bs \<le> 258"
proof (cases bs)
  case (Cons k r)
  have "unat n + 3 \<le> 258 \<and> Suc (unat n) \<le> 258" for n :: byte
    using unat_byte_less [of n] by linarith
  then show ?thesis using Cons by (auto simp: item_length_def split: list.splits)
qed (simp add: item_length_def)

function report_items :: "byte list \<Rightarrow> (byte \<times> byte list) list" where
  "report_items [] = []"
| "report_items (k # r) =
     (k, take (fst (item_head (k # r))) (drop (snd (item_head (k # r))) (k # r))) #
       report_items (drop (item_length (k # r)) (k # r))"
  by pat_completeness auto
termination
proof (relation "measure length")
  show "(drop (item_length (k # r)) (k # r), k # r) \<in> measure length" for k r
    using item_length_pos [of "k # r"] by simp
qed simp

declare report_items.simps(2) [simp del] item_head.simps(2) [simp del]

lemma report_items_step:
  assumes "bs \<noteq> []"
  shows "report_items bs = (hd bs, take (fst (item_head bs)) (drop (snd (item_head bs)) bs)) #
    report_items (drop (item_length bs) bs)"
  using assms by (cases bs) (simp_all add: report_items.simps(2))

lemma report_item_head:
  assumes "i < sz" "sz \<le> length rpt" "sz < 2 ^ 32"
  shows "report_item rpt sz i = Some (item_head (drop i (take sz rpt)))"
proof -
  have d: "drop i (take sz rpt) = rpt ! i # drop (Suc i) (take sz rpt)"
    using Cons_nth_drop_Suc [of i "take sz rpt"] assms by simp
  show ?thesis
  proof (cases "i + 1 < sz")
    case True
    then have "drop (Suc i) (take sz rpt) = rpt ! Suc i # drop (Suc (Suc i)) (take sz rpt)"
      using Cons_nth_drop_Suc [of "Suc i" "take sz rpt"] assms by simp
    then show ?thesis using assms True by (simp add: report_item_def d rd_def Let_def item_head.simps(2))
  next
    case False
    then have "(i + 1) mod 2 ^ 32 = sz \<or> (i + 1) mod 2 ^ 32 = i + 1" using assms by simp
    then show ?thesis using assms False by (simp add: report_item_def d rd_def Let_def item_head.simps(2))
  qed
qed

text \<open>Short of 2^32 - 258 bytes the index does not wrap around.\<close>

lemma next_index:
  assumes "i < sz" "sz \<le> 2 ^ 32 - 258"
  shows "(i + item_length bs) mod 2 ^ 32 = i + item_length bs"
  using assms item_length_bound [of bs] by simp

lemma numbered_loop_items:
  assumes "sz \<le> length rpt" "sz \<le> 2 ^ 32 - 258"
  shows "numbered_loop rpt sz i = Some (\<exists>it \<in> set (report_items (drop i (take sz rpt))). fst it = 0x85)"
proof (induction "sz - i" arbitrary: i rule: less_induct)
  case less
  show ?case
  proof (cases "sz \<le> i")
    case True
    then show ?thesis by (simp add: numbered_loop.simps)
  next
    case False
    let ?bs = "drop i (take sz rpt)"
    obtain dl ks where h: "item_head ?bs = (dl, ks)" by force
    have len: "item_length ?bs = dl + ks" by (simp add: item_length_def h)
    have bs: "?bs \<noteq> []" "hd ?bs = rpt ! i" using assms(1) False by (auto simp: hd_drop_conv_nth)
    have d: "report_item rpt sz i = Some (dl, ks)" using report_item_head assms False h by simp
    have "numbered_loop rpt sz (i + (dl + ks)) =
        Some (\<exists>it \<in> set (report_items (drop (dl + ks) ?bs)). fst it = 0x85)"
    proof -
      have "sz - (i + (dl + ks)) < sz - i" using item_length_pos [of ?bs] False len by linarith
      then show ?thesis using less [of "i + (dl + ks)"] by (simp add: add.commute)
    qed
    moreover have "(i + (dl + ks)) mod 2 ^ 32 = i + (dl + ks)"
      using next_index [of i sz ?bs] assms(2) False len by simp
    moreover have "rd rpt i = Some (rpt ! i)" using assms(1) False by (simp add: rd_def)
    ultimately show ?thesis
      using False d bs len report_items_step [OF bs(1)] by (subst numbered_loop.simps) simp
  qed
qed

text \<open>A descriptor whose four byte usage items do not overflow \<open>int\<close>.\<close>

definition no_overflow :: "byte list \<Rightarrow> nat \<Rightarrow> bool" where
  "no_overflow rpt sz \<longleftrightarrow>
     list_all (\<lambda>i. rpt ! i AND 0xfc \<noteq> 4 \<and> rpt ! i AND 0xfc \<noteq> 8 \<or> rpt ! (i + 4) < 128) [0..<sz - 4]"

lemma get_bytes_returns:
  assumes "cur < sz" "sz \<le> length rpt" "no_overflow rpt sz" "rpt ! cur AND 0xfc = 4 \<or> rpt ! cur AND 0xfc = 8"
  shows "\<exists>v. get_bytes rpt sz n cur = Some v"
proof -
  have top: "\<not> 128 \<le> rpt ! (cur + 4)" if "cur + 4 < sz"
  proof -
    have "cur \<in> set [0..<sz - 4]" using that by simp
    then show ?thesis using assms(3,4) unfolding no_overflow_def list_all_iff by (auto simp: not_le)
  qed
  show ?thesis
  proof (cases "sz \<le> cur + n")
    case False
    then show ?thesis using assms(2) top by (auto simp: get_bytes_def rd_def)
  qed (simp add: get_bytes_def)
qed

lemma get_usage_loop_returns:
  assumes "sz \<le> length rpt" "sz \<le> 2 ^ 32 - 258" "no_overflow rpt sz"
  shows "\<exists>r p u. get_usage_loop rpt sz i page usage pf uf = Some (r, p, u) \<and> (r = 0 \<or> r = - 1)"
proof (induction "sz - i" arbitrary: i page usage pf uf rule: less_induct)
  case less
  show ?case
  proof (cases "sz \<le> i")
    case True
    then show ?thesis by (simp add: get_usage_loop.simps)
  next
    case False
    let ?bs = "drop i (take sz rpt)"
    obtain dl ks where h: "item_head ?bs = (dl, ks)" by force
    have len: "item_length ?bs = dl + ks" by (simp add: item_length_def h)
    have d: "report_item rpt sz i = Some (dl, ks)" using report_item_head assms(1,2) False h by simp
    have k: "rd rpt i = Some (rpt ! i)" using assms(1) False by (simp add: rd_def)
    have i: "(i + (dl + ks)) mod 2 ^ 32 = i + (dl + ks)"
      using next_index [of i sz ?bs] assms(2) False len by simp
    have "sz - (i + (dl + ks)) < sz - i" using item_length_pos [of ?bs] False len by linarith
    note IH = less [OF this]
    obtain page' pf' where p: "(if rpt ! i AND 0xfc = 0x4
        then do { v \<leftarrow> get_bytes rpt sz dl i; Some (ucast v, True) } else Some (page, pf)) = Some (page', pf')"
      using get_bytes_returns [of i sz rpt dl] assms(1,3) False by (cases "rpt ! i AND 0xfc = 0x4") auto
    obtain usage' uf' where u: "(if rpt ! i AND 0xfc = 0x8
        then do { v \<leftarrow> get_bytes rpt sz dl i; Some (ucast v, True) } else Some (usage, uf)) = Some (usage', uf')"
      using get_bytes_returns [of i sz rpt dl] assms(1,3) False by (cases "rpt ! i AND 0xfc = 0x8") auto
    have "get_usage_loop rpt sz i page usage pf uf =
        (if pf' \<and> uf' then Some (0, page', usage') else get_usage_loop rpt sz (i + (dl + ks)) page' usage' pf' uf')"
      using False by (subst get_usage_loop.simps) (simp only: k d p u i if_False Option.bind.bind_lunit prod.case)
    then show ?thesis using IH [of page' usage' pf' uf'] by auto
  qed
qed

lemma ucast_byte: "(ucast (ucast (b :: byte) :: u32) :: u16) = ucast b"
  by (rule bit_word_eqI) (auto simp: bit_simps)

section \<open>Properties\<close>

text \<open>
  C40. \<open>uses_numbered_reports\<close> ends, stays inside the descriptor, and answers whether one of the items the
  descriptor is made of is a Report ID: a byte 0x85 inside the data of an item does not count.
\<close>

theorem numbered_reports_items:
  assumes "sz \<le> length rpt" "sz \<le> 2 ^ 32 - 258"
  shows "uses_numbered_reports rpt sz = Some (\<exists>it \<in> set (report_items (take sz rpt)). fst it = 0x85)"
  using numbered_loop_items [OF assms, of 0] by (simp add: uses_numbered_reports_def)

theorem numbered_reports_items_witness:
  "uses_numbered_reports [0x05, 0x85, 0x85, 0x01] 4 = Some True \<and> uses_numbered_reports [0x05, 0x85, 0x09] 3 = Some False"
proof -
  have 1: "report_items [0x05, 0x85, 0x85, 0x01] = [(0x05, [0x85]), (0x85, [0x01])]"
    by (simp add: report_items_step item_length_def item_head.simps(2))
  have 2: "report_items [0x05, 0x85, 0x09] = [(0x05, [0x85]), (0x09, [])]"
    by (simp add: report_items_step item_length_def item_head.simps(2))
  show ?thesis
    using numbered_reports_items [of 4 "[0x05, 0x85, 0x85, 0x01]"] numbered_reports_items [of 3 "[0x05, 0x85, 0x09]"]
    by (simp add: 1 2)
qed

text \<open>
  \<open>get_usage\<close> ends with 0 or -1 on every descriptor, cut off or malformed, and reads nothing outside it, as long
  as no four byte usage item overflows \<open>int\<close>.
\<close>

theorem get_usage_returns:
  assumes "sz \<le> length rpt" "sz \<le> 2 ^ 32 - 258" "no_overflow rpt sz"
  shows "\<exists>r p u. get_usage rpt sz page usage = Some (r, p, u) \<and> (r = 0 \<or> r = - 1)"
  using get_usage_loop_returns [OF assms] by (simp add: get_usage_def)

theorem get_usage_returns_witness:
  "\<exists>r p u. get_usage [0x07, 0xff, 0x05] 3 0 0 = Some (r, p, u)"
  using get_usage_returns [of 3 "[0x07, 0xff, 0x05]" 0 0] by (auto simp: no_overflow_def)

text \<open>
  Of two Usage Pages in front of the first Usage \<open>get_usage\<close> returns the second one.
\<close>

theorem get_usage_latest_page:
  fixes p q u :: byte
  shows "get_usage ([0x05, p, 0x05, q, 0x09, u] @ rest) (6 + length rest) page usage = Some (0, ucast q, ucast u)"
  by (simp add: get_usage_def get_usage_loop.simps report_item_def get_bytes_def rd_def ucast_byte)

end
