(* ===== verification/HidLinux.thy ===== *)
theory HidLinux
  imports HidLibusb Uevent ReportDesc
begin

text \<open>
  The Linux implementation of HIDAPI over hidraw devices, \<^verbatim>\<open>token-DLL/hidapi-master/linux/hid.c\<close>. Its names
  carry the suffix \<open>_hidraw\<close> here. The kernel and libudev are not part of the repository: as for libusb, the calls
  are recorded in a history, and the record \<open>raw_env\<close> says what each answers as a function of it. Built into the
  primitives is what is documented: \<open>open\<close> takes the lowest free descriptor, a call on a descriptor that is not open fails,
  \<open>HIDIOCGRDESC\<close> refuses more than 4095 bytes, a read or feature request yields at most the bytes asked for.
\<close>

section \<open>Devices as the kernel and udev show them\<close>

text \<open>
  \<open>raw_uevent\<close>: no parent in the subsystem hid, or its attribute, which may be missing; \<open>usb_attrs\<close> and
  \<open>intf_attrs\<close>: the attributes of the parents \<open>usb_device\<close> and \<open>usb_interface\<close>, if there are any.
\<close>

record raw_node =
  devnode :: "string option"
  raw_uevent :: "string option option"
  usb_attrs :: "(string \<Rightarrow> string option) option"
  intf_attrs :: "(string \<Rightarrow> string option) option"

datatype raw_call =
  KUdev | KScan | KOpen string | KClose nat | KDescSize nat | KDesc nat nat | KSet nat "byte list" | KGet nat nat
| KWrite nat "byte list" | KPoll nat int | KRead nat nat | KStat nat

text \<open>What \<open>read\<close> answers: bytes, or an error, which may be one of \<open>EAGAIN\<close> and \<open>EINPROGRESS\<close>.\<close>

datatype read_answer = Got "byte list" | Again | Failed

text \<open>\<open>None\<close> stands for a negative result. \<open>re_mbs\<close>: the wide characters of a string up to an invalid one, and whether
  there is none; \<open>re_junk\<close>: what \<open>malloc\<close> leaves in the two usage fields.\<close>

record raw_env =
  re_udev :: "raw_call list \<Rightarrow> bool"
  re_scan :: "raw_call list \<Rightarrow> raw_node list"
  re_open :: "raw_call list \<Rightarrow> string \<Rightarrow> raw_node option"
  re_desc_size :: "raw_call list \<Rightarrow> raw_node \<Rightarrow> nat option"
  re_desc :: "raw_call list \<Rightarrow> raw_node \<Rightarrow> byte list option"
  re_set :: "raw_call list \<Rightarrow> raw_node \<Rightarrow> byte list \<Rightarrow> int"
  re_get :: "raw_call list \<Rightarrow> raw_node \<Rightarrow> nat \<Rightarrow> byte list option"
  re_write :: "raw_call list \<Rightarrow> raw_node \<Rightarrow> byte list \<Rightarrow> int"
  re_poll :: "raw_call list \<Rightarrow> raw_node \<Rightarrow> int \<Rightarrow> int \<times> u16"
  re_read :: "raw_call list \<Rightarrow> raw_node \<Rightarrow> nat \<Rightarrow> read_answer"
  re_stat :: "raw_call list \<Rightarrow> raw_node \<Rightarrow> raw_node option"
  re_release :: string
  re_mbs :: "string \<Rightarrow> wchar list \<times> bool"
  re_junk :: "raw_call list \<Rightarrow> u16 \<times> u16"

section \<open>State\<close>

text \<open>\<open>struct hid_device_\<close> of this file.\<close>

record raw_dev =
  raw_handle :: int
  raw_blocking :: bool
  numbered_reports :: bool

datatype raw_file = Closed | Other_file | Hidraw raw_node

text \<open>
  The allocated device structures, the descriptor table of the process, the static \<open>kernel_version\<close>, the heap blocks
  of device infos and strings, and the strings the parser of uevents has lost.
\<close>

record rst =
  raw_heap :: "nat \<Rightarrow> raw_dev option"
  raw_next :: nat
  fds :: "raw_file list"
  kernel_version :: u32
  rblocks :: int
  rlost :: int
  rtrace :: "raw_call list"

definition note_raw :: "raw_call \<Rightarrow> rst \<Rightarrow> rst" where
  "note_raw c s = s\<lparr>rtrace := rtrace s @ [c]\<rparr>"

fun first_closed :: "raw_file list \<Rightarrow> nat" where
  "first_closed [] = 0"
| "first_closed (f # fs) = (if f = Closed then 0 else Suc (first_closed fs))"

definition open_raw :: "raw_env \<Rightarrow> string \<Rightarrow> rst \<Rightarrow> int \<times> rst" where
  "open_raw E pa s =
     (case re_open E (rtrace s) pa of
        None \<Rightarrow> (-1, note_raw (KOpen pa) s)
      | Some n \<Rightarrow>
          let i = first_closed (fds s) in
          (int i, (note_raw (KOpen pa) s)\<lparr>fds := (if i < length (fds s) then (fds s)[i := Hidraw n] else fds s @ [Hidraw n])\<rparr>))"

definition close_raw :: "int \<Rightarrow> rst \<Rightarrow> rst" where
  "close_raw fd s = (if 0 \<le> fd \<and> nat fd < length (fds s)
     then (note_raw (KClose (nat fd)) s)\<lparr>fds := (fds s)[nat fd := Closed]\<rparr> else s)"

definition node_of :: "rst \<Rightarrow> int \<Rightarrow> raw_node option" where
  "node_of s fd = (if 0 \<le> fd \<and> nat fd < length (fds s)
     then (case fds s ! nat fd of Hidraw n \<Rightarrow> Some n | _ \<Rightarrow> None) else None)"

text \<open>A call on a descriptor: \<open>bad\<close> when it is not an open device, else what \<open>f\<close> answers.\<close>

definition on_fd :: "int \<Rightarrow> raw_call \<Rightarrow> 'r \<Rightarrow> (raw_call list \<Rightarrow> raw_node \<Rightarrow> 'r) \<Rightarrow> rst \<Rightarrow> 'r \<times> rst" where
  "on_fd fd c bad f s = (case node_of s fd of None \<Rightarrow> (bad, s) | Some n \<Rightarrow> (f (rtrace s) n, note_raw c s))"

section \<open>Helpers of the file\<close>

definition new_hid_device_hidraw :: "rst \<Rightarrow> nat \<times> rst" where
  "new_hid_device_hidraw s =
     (let a = raw_next s in
      (a, s\<lparr>raw_heap := (raw_heap s)(a \<mapsto> \<lparr>raw_handle = - 1, raw_blocking = True, numbered_reports = False\<rparr>),
            raw_next := a + 1\<rparr>))"

text \<open>A string that cannot be converted becomes the empty one.\<close>

definition utf8_to_wchar_t :: "raw_env \<Rightarrow> string option \<Rightarrow> wchar list option" where
  "utf8_to_wchar_t E utf8 =
     (case utf8 of None \<Rightarrow> None | Some t \<Rightarrow> (case re_mbs E t of (w, ok) \<Rightarrow> Some (if ok then w else [])))"

definition copy_udev_string :: "raw_env \<Rightarrow> (string \<Rightarrow> string option) \<Rightarrow> string \<Rightarrow> wchar list option" where
  "copy_udev_string E attrs name = utf8_to_wchar_t E (attrs name)"

datatype device_string_id = DEVICE_STRING_MANUFACTURER | DEVICE_STRING_PRODUCT | DEVICE_STRING_SERIAL

fun device_string_names :: "device_string_id \<Rightarrow> string" where
  "device_string_names DEVICE_STRING_MANUFACTURER = ''manufacturer''"
| "device_string_names DEVICE_STRING_PRODUCT = ''product''"
| "device_string_names DEVICE_STRING_SERIAL = ''serial''"

text \<open>\<open>mbstowcs(string, str, maxlen)\<close>: it stops when the array is full, before it could meet an invalid character.\<close>

definition mbstowcs :: "raw_env \<Rightarrow> wchar list \<Rightarrow> string \<Rightarrow> nat \<Rightarrow> (int \<times> wchar list) option" where
  "mbstowcs E str t maxlen =
     (case re_mbs E t of (w, ok) \<Rightarrow>
        if maxlen \<le> length w then do { str' \<leftarrow> wr_block str 0 (take maxlen w); Some (int maxlen, str') }
        else if ok then do { str' \<leftarrow> wr_block str 0 (w @ [0]); Some (int (length w), str') }
        else do { str' \<leftarrow> wr_block str 0 w; Some (-1, str') })"

definition converted :: "raw_env \<Rightarrow> wchar list \<Rightarrow> string option \<Rightarrow> nat \<Rightarrow> (int \<times> wchar list) option" where
  "converted E str t maxlen = do {
     t' \<leftarrow> t;
     (retm, str') \<leftarrow> mbstowcs E str t' maxlen;
     Some (if retm = -1 then -1 else 0, str')
   }"

definition BUS_USB :: u32 where "BUS_USB = 3"
definition BUS_BLUETOOTH :: u32 where "BUS_BLUETOOTH = 5"

text \<open>
  The result of the parser is the result of the function unless something else is assigned; \<open>bus_type\<close> is
  read whatever the parser says.
\<close>

definition get_device_string ::
    "raw_env \<Rightarrow> nat \<Rightarrow> device_string_id \<Rightarrow> wchar list \<Rightarrow> nat \<Rightarrow> rst \<Rightarrow> (int \<times> wchar list \<times> rst) option" where
  "get_device_string E a key str maxlen s = do {
     dev \<leftarrow> raw_heap s a;
     let ok = re_udev E (rtrace s);
     let s1 = note_raw KUdev s;
     if \<not> ok then Some (-1, str, s1)
     else do {
       let (udev_dev, s2) = on_fd (raw_handle dev) (KStat (nat (raw_handle dev))) None (re_stat E) s1;
       case udev_dev of
         None \<Rightarrow> Some (-1, str, s2)
       | Some node \<Rightarrow>
           (case raw_uevent node of
              None \<Rightarrow> Some (-1, str, s2)
            | Some ue \<Rightarrow> do {
                (ret, u) \<leftarrow> parse_uevent_info ue;
                let s3 = s2\<lparr>rlost := rlost s2 + ue_lost u\<rparr>;
                bus \<leftarrow> ue_bus u;
                if bus = BUS_BLUETOOTH then
                  (case key of
                     DEVICE_STRING_MANUFACTURER \<Rightarrow> do {
                       str' \<leftarrow> wr_block str 0 (replicate maxlen 0);
                       Some (0, str', s3) }
                   | DEVICE_STRING_PRODUCT \<Rightarrow> do {
                       (r, str') \<leftarrow> converted E str (ue_name u) maxlen;
                       Some (r, str', s3) }
                   | DEVICE_STRING_SERIAL \<Rightarrow> do {
                       (r, str') \<leftarrow> converted E str (ue_serial u) maxlen;
                       Some (r, str', s3) })
                else
                  (case usb_attrs node of
                     None \<Rightarrow> Some (if ret then 1 else 0, str, s3)
                   | Some attrs \<Rightarrow>
                       (case attrs (device_string_names key) of
                          None \<Rightarrow> Some (if ret then 1 else 0, str, s3)
                        | Some t \<Rightarrow> do {
                            (r, str') \<leftarrow> converted E str (Some t) maxlen;
                            Some (r, str', s3) })) }) } }"

section \<open>Enumeration\<close>

definition hid_init_hidraw :: "rst \<Rightarrow> int \<times> rst" where
  "hid_init_hidraw s = (0, s)"

definition hid_exit_hidraw :: "rst \<Rightarrow> int \<times> rst" where
  "hid_exit_hidraw s = (0, s)"

text \<open>
  The record for a device that matches. The fields of the usage are those \<open>malloc\<close> returned. A USB device
  without its parent is taken off the list again.
\<close>

definition describe_hidraw :: "raw_env \<Rightarrow> raw_node \<Rightarrow> u32 \<Rightarrow> u16 \<Rightarrow> u16 \<Rightarrow> uevent \<Rightarrow> rst \<Rightarrow> hid_device_info option" where
  "describe_hidraw E node bus vid pid u s =
     (let info = \<lparr>path = devnode node, vendor_id = vid, product_id = pid, serial_number = utf8_to_wchar_t E (ue_serial u),
            release_number = 0, manufacturer_string = None, product_string = None,
            usage_page = fst (re_junk E (rtrace s)), usage = snd (re_junk E (rtrace s)), interface_number = -1\<rparr>
      in if bus = BUS_USB then
           (case usb_attrs node of
              None \<Rightarrow> None
            | Some attrs \<Rightarrow> Some (info\<lparr>
                manufacturer_string := copy_udev_string E attrs (device_string_names DEVICE_STRING_MANUFACTURER),
                product_string := copy_udev_string E attrs (device_string_names DEVICE_STRING_PRODUCT),
                release_number := (case attrs ''bcdDevice'' of Some t \<Rightarrow> word_of_int (strtol16 t) | None \<Rightarrow> 0),
                interface_number := (case intf_attrs node of
                    None \<Rightarrow> -1
                  | Some iattrs \<Rightarrow> (case iattrs ''bInterfaceNumber'' of
                        Some t \<Rightarrow> signed_take_bit 31 (strtol16 t) | None \<Rightarrow> -1))\<rparr>))
         else Some (info\<lparr>manufacturer_string := Some [], product_string := utf8_to_wchar_t E (ue_name u)\<rparr>))"

text \<open>One turn of the loop; a \<open>goto next\<close> adds nothing to the list.\<close>

definition enum_node ::
    "raw_env \<Rightarrow> u16 \<Rightarrow> u16 \<Rightarrow> raw_node \<Rightarrow> rst \<Rightarrow> (hid_device_info list \<times> rst) option" where
  "enum_node E v p node s =
     (case raw_uevent node of
        None \<Rightarrow> Some ([], s)
      | Some ue \<Rightarrow> do {
          (result, u) \<leftarrow> parse_uevent_info ue;
          let s1 = s\<lparr>rlost := rlost s + ue_lost u\<rparr>;
          if \<not> result then Some ([], s1)
          else do {
            bus \<leftarrow> ue_bus u;
            vid \<leftarrow> ue_vendor u;
            pid \<leftarrow> ue_product u;
            if bus \<noteq> BUS_USB \<and> bus \<noteq> BUS_BLUETOOTH then Some ([], s1)
            else if \<not> id_match v p vid pid then Some ([], s1)
            else (case describe_hidraw E node bus vid pid u s1 of
                    None \<Rightarrow> Some ([], s1)
                  | Some d \<Rightarrow> Some ([d], s1\<lparr>rblocks := rblocks s1 + info_blocks d\<rparr>)) } })"

fun enum_nodes ::
    "raw_env \<Rightarrow> u16 \<Rightarrow> u16 \<Rightarrow> raw_node list \<Rightarrow> rst \<Rightarrow> (hid_device_info list \<times> rst) option" where
  "enum_nodes E v p [] s = Some ([], s)"
| "enum_nodes E v p (n # ns) s = do {
     (ds, s1) \<leftarrow> enum_node E v p n s;
     (es, s2) \<leftarrow> enum_nodes E v p ns s1;
     Some (ds @ es, s2)
   }"

definition hid_enumerate_hidraw :: "raw_env \<Rightarrow> u16 \<Rightarrow> u16 \<Rightarrow> rst \<Rightarrow> (hid_device_info list \<times> rst) option" where
  "hid_enumerate_hidraw E v p s =
     (let s0 = snd (hid_init_hidraw s); ok = re_udev E (rtrace s0); s1 = note_raw KUdev s0 in
      if \<not> ok then Some ([], s1)
      else enum_nodes E v p (re_scan E (rtrace s1)) (note_raw KScan s1))"

fun hid_free_enumeration_hidraw :: "hid_device_info list \<Rightarrow> rst \<Rightarrow> rst" where
  "hid_free_enumeration_hidraw [] s = s"
| "hid_free_enumeration_hidraw (d # ds) s = hid_free_enumeration_hidraw ds
     (s\<lparr>rblocks := rblocks s - some_block (path d) - some_block (serial_number d)
        - some_block (manufacturer_string d) - some_block (product_string d) - 1\<rparr>)"

section \<open>Opening and closing\<close>

text \<open>\<open>sscanf(name.release, "%d.%d.%d", ...)\<close>, when it assigns all three.\<close>

definition scan_release :: "string \<Rightarrow> (int \<times> int \<times> int) option" where
  "scan_release t = do {
     (major, r1) \<leftarrow> scan_number dec_val 10 t;
     r2 \<leftarrow> scan_char (CHR ''.'') r1;
     (minor, r3) \<leftarrow> scan_number dec_val 10 r2;
     r4 \<leftarrow> scan_char (CHR ''.'') r3;
     (release, r5) \<leftarrow> scan_number dec_val 10 r4;
     Some (major, minor, release)
   }"

text \<open>The shifts are of type \<open>int\<close>, the result is stored in 32 bits.\<close>

definition read_kernel_version :: "raw_env \<Rightarrow> rst \<Rightarrow> rst" where
  "read_kernel_version E s =
     (if kernel_version s = 0 then
        (case scan_release (re_release E) of
           None \<Rightarrow> s
         | Some (major, minor, release) \<Rightarrow> s\<lparr>kernel_version :=
             push_bit 16 (word_of_int major) OR push_bit 8 (word_of_int minor) OR word_of_int release\<rparr>)
      else s)"

text \<open>
  The report descriptor: \<open>rpt_desc\<close> is cleared, its array has 4096 bytes. When the size cannot be read it
  stays 0.
\<close>

definition read_numbered :: "raw_env \<Rightarrow> int \<Rightarrow> rst \<Rightarrow> (bool \<times> rst) option" where
  "read_numbered E fd s = do {
     let (sz, s1) = on_fd fd (KDescSize (nat fd)) None (re_desc_size E) s;
     let desc_size = (case sz of None \<Rightarrow> 0 | Some n \<Rightarrow> n);
     let (d, s2) = on_fd fd (KDesc (nat fd) desc_size) None
       (\<lambda>tr n. if 4095 < desc_size then None else map_option (take desc_size) (re_desc E tr n)) s1;
     case d of
       None \<Rightarrow> Some (False, s2)
     | Some bs \<Rightarrow> do {
         b \<leftarrow> uses_numbered_reports (bs @ replicate (4096 - length bs) 0) desc_size;
         Some (b, s2) }
   }"

definition hid_open_path_hidraw :: "raw_env \<Rightarrow> string \<Rightarrow> rst \<Rightarrow> (nat option \<times> rst) option" where
  "hid_open_path_hidraw E pa s = do {
     let s0 = snd (hid_init_hidraw s);
     let (a, s1) = new_hid_device_hidraw s0;
     let s2 = read_kernel_version E s1;
     let (fd, s3) = open_raw E pa s2;
     if 0 < fd then do {
       (b, s4) \<leftarrow> read_numbered E fd s3;
       Some (Some a, s4\<lparr>raw_heap := (raw_heap s4)(a \<mapsto> \<lparr>raw_handle = fd, raw_blocking = True, numbered_reports = b\<rparr>)\<rparr>) }
     else Some (None, s3\<lparr>raw_heap := (raw_heap s3)(a := None)\<rparr>)
   }"

definition hid_open_hidraw :: "raw_env \<Rightarrow> u16 \<Rightarrow> u16 \<Rightarrow> wchar list option \<Rightarrow> rst \<Rightarrow> (nat option \<times> rst) option" where
  "hid_open_hidraw E v p sn s = do {
     (devs, s1) \<leftarrow> hid_enumerate_hidraw E v p s;
     path_to_open \<leftarrow> find_path v p sn devs;
     (handle, s2) \<leftarrow> (case path_to_open of
         None \<Rightarrow> Some (None, s1)
       | Some pa \<Rightarrow> hid_open_path_hidraw E pa s1);
     Some (handle, hid_free_enumeration_hidraw devs s2)
   }"

definition hid_close_hidraw :: "nat option \<Rightarrow> rst \<Rightarrow> rst option" where
  "hid_close_hidraw dev s =
     (case dev of
        None \<Rightarrow> Some s
      | Some a \<Rightarrow> do {
          d \<leftarrow> raw_heap s a;
          let s1 = close_raw (raw_handle d) s;
          Some (s1\<lparr>raw_heap := (raw_heap s1)(a := None)\<rparr>) })"

section \<open>Reports\<close>

definition hid_write_hidraw :: "raw_env \<Rightarrow> nat \<Rightarrow> byte list \<Rightarrow> nat \<Rightarrow> rst \<Rightarrow> (int \<times> rst) option" where
  "hid_write_hidraw E a data len s = do {
     d \<leftarrow> raw_heap s a;
     buf \<leftarrow> rd_block data 0 len;
     Some (on_fd (raw_handle d) (KWrite (nat (raw_handle d)) buf) (-1) (\<lambda>tr n. re_write E tr n buf) s)
   }"

text \<open>\<open>KERNEL_VERSION(2,6,34)\<close>; the events are \<open>POLLERR | POLLHUP | POLLNVAL\<close>.\<close>

definition KERNEL_2_6_34 :: u32 where "KERNEL_2_6_34 = 0x20622"

text \<open>From \<open>read\<close> on: the bytes arrive in \<open>data\<close>, and for a numbered report on an old kernel the first is cut off.\<close>

definition read_bytes :: "raw_env \<Rightarrow> raw_dev \<Rightarrow> byte list \<Rightarrow> nat \<Rightarrow> rst \<Rightarrow> (int \<times> byte list \<times> rst) option" where
  "read_bytes E d data len s = do {
     let (ans, s1) = on_fd (raw_handle d) (KRead (nat (raw_handle d)) len) Failed (\<lambda>tr n. re_read E tr n len) s;
     (bytes_read, data1) \<leftarrow>
       (case ans of
          Got bs \<Rightarrow> do { data1 \<leftarrow> wr_block data 0 (take len bs); Some (int (length (take len bs)), data1) }
        | Again \<Rightarrow> Some (0, data)
        | Failed \<Rightarrow> Some (-1, data));
     if 0 \<le> bytes_read \<and> kernel_version s1 < KERNEL_2_6_34 \<and> numbered_reports d then do {
       m \<leftarrow> rd_block data1 1 (nat bytes_read);
       data2 \<leftarrow> wr_block data1 0 m;
       Some (bytes_read - 1, data2, s1) }
     else Some (bytes_read, data1, s1)
   }"

definition hid_read_timeout_hidraw ::
    "raw_env \<Rightarrow> nat \<Rightarrow> byte list \<Rightarrow> nat \<Rightarrow> int \<Rightarrow> rst \<Rightarrow> (int \<times> byte list \<times> rst) option" where
  "hid_read_timeout_hidraw E a data len milliseconds s = do {
     d \<leftarrow> raw_heap s a;
     if 0 \<le> milliseconds then do {
       let ((ret, revents), s1) = on_fd (raw_handle d) (KPoll (nat (raw_handle d)) milliseconds) (1, 0x20)
         (\<lambda>tr n. re_poll E tr n milliseconds) s;
       if ret = -1 \<or> ret = 0 then Some (ret, data, s1)
       else if revents AND (0x08 OR 0x10 OR 0x20) \<noteq> 0 then Some (-1, data, s1)
       else read_bytes E d data len s1 }
     else read_bytes E d data len s
   }"

definition hid_read_hidraw :: "raw_env \<Rightarrow> nat \<Rightarrow> byte list \<Rightarrow> nat \<Rightarrow> rst \<Rightarrow> (int \<times> byte list \<times> rst) option" where
  "hid_read_hidraw E a data len s = do {
     d \<leftarrow> raw_heap s a;
     hid_read_timeout_hidraw E a data len (if raw_blocking d then -1 else 0) s
   }"

definition hid_set_nonblocking_hidraw :: "nat \<Rightarrow> bool \<Rightarrow> rst \<Rightarrow> (int \<times> rst) option" where
  "hid_set_nonblocking_hidraw a nonblock s = do {
     d \<leftarrow> raw_heap s a;
     Some (0, s\<lparr>raw_heap := (raw_heap s)(a \<mapsto> d\<lparr>raw_blocking := \<not> nonblock\<rparr>)\<rparr>)
   }"

text \<open>The request number of an \<open>ioctl\<close> has fourteen bits for the length.\<close>

definition hid_send_feature_report_hidraw :: "raw_env \<Rightarrow> nat \<Rightarrow> byte list \<Rightarrow> nat \<Rightarrow> rst \<Rightarrow> (int \<times> rst) option" where
  "hid_send_feature_report_hidraw E a data len s = do {
     d \<leftarrow> raw_heap s a;
     buf \<leftarrow> rd_block data 0 (len mod 2 ^ 14);
     Some (on_fd (raw_handle d) (KSet (nat (raw_handle d)) buf) (-1) (\<lambda>tr n. re_set E tr n buf) s)
   }"

definition hid_get_feature_report_hidraw ::
    "raw_env \<Rightarrow> nat \<Rightarrow> byte list \<Rightarrow> nat \<Rightarrow> rst \<Rightarrow> (int \<times> byte list \<times> rst) option" where
  "hid_get_feature_report_hidraw E a data len s = do {
     d \<leftarrow> raw_heap s a;
     let k = len mod 2 ^ 14;
     let (r, s1) = on_fd (raw_handle d) (KGet (nat (raw_handle d)) k) None (\<lambda>tr n. map_option (take k) (re_get E tr n k)) s;
     case r of
       None \<Rightarrow> Some (-1, data, s1)
     | Some bs \<Rightarrow> do {
         data' \<leftarrow> wr_block data 0 bs;
         Some (int (length bs), data', s1) }
   }"

section \<open>Strings and errors\<close>

definition hid_get_manufacturer_string_hidraw ::
    "raw_env \<Rightarrow> nat \<Rightarrow> wchar list \<Rightarrow> nat \<Rightarrow> rst \<Rightarrow> (int \<times> wchar list \<times> rst) option" where
  "hid_get_manufacturer_string_hidraw E a str maxlen s =
     get_device_string E a DEVICE_STRING_MANUFACTURER str maxlen s"

definition hid_get_product_string_hidraw ::
    "raw_env \<Rightarrow> nat \<Rightarrow> wchar list \<Rightarrow> nat \<Rightarrow> rst \<Rightarrow> (int \<times> wchar list \<times> rst) option" where
  "hid_get_product_string_hidraw E a str maxlen s = get_device_string E a DEVICE_STRING_PRODUCT str maxlen s"

definition hid_get_serial_number_string_hidraw ::
    "raw_env \<Rightarrow> nat \<Rightarrow> wchar list \<Rightarrow> nat \<Rightarrow> rst \<Rightarrow> (int \<times> wchar list \<times> rst) option" where
  "hid_get_serial_number_string_hidraw E a str maxlen s = get_device_string E a DEVICE_STRING_SERIAL str maxlen s"

definition hid_get_indexed_string_hidraw :: "nat \<Rightarrow> int \<Rightarrow> wchar list \<Rightarrow> nat \<Rightarrow> int" where
  "hid_get_indexed_string_hidraw a string_index str maxlen = -1"

definition hid_error_hidraw :: "nat \<Rightarrow> wchar list option" where
  "hid_error_hidraw a = None"

definition hidraw_backend :: "raw_env \<Rightarrow> rst hidapi" where
  "hidraw_backend E =
     \<lparr>api_enumerate = hid_enumerate_hidraw E,
      api_free_enumeration = (\<lambda>ds s. Some (hid_free_enumeration_hidraw ds s)),
      api_open = hid_open_hidraw E,
      api_send_feature_report = hid_send_feature_report_hidraw E,
      api_get_feature_report = hid_get_feature_report_hidraw E,
      api_close = hid_close_hidraw,
      api_exit = (\<lambda>s. Some (hid_exit_hidraw s))\<rparr>"

end
