(* ===== verification/HidLinuxContract.thy ===== *)
theory HidLinuxContract
  imports HidLinux
begin

text \<open>
  The hidraw implementation keeps its device structures and the descriptor table in step, and meets the contract
  \<open>hid_backend\<close> of the token library, as the one over libusb does, for any file open at descriptor 0.
\<close>

section \<open>The invariant\<close>

text \<open>Every open device has a descriptor of its own, other than 0, and that descriptor is open.\<close>

definition raw_inv :: "rst \<Rightarrow> bool" where
  "raw_inv s \<longleftrightarrow>
     (\<forall>a. raw_next s \<le> a \<longrightarrow> raw_heap s a = None) \<and>
     (\<forall>a d. raw_heap s a = Some d \<longrightarrow> 0 < raw_handle d \<and> node_of s (raw_handle d) \<noteq> None) \<and>
     (\<forall>a b d e. raw_heap s a = Some d \<longrightarrow> raw_heap s b = Some e \<longrightarrow> raw_handle d = raw_handle e \<longrightarrow> a = b)"

definition raw_live :: "rst \<Rightarrow> nat set" where
  "raw_live s = dom (raw_heap s)"

text \<open>
  What is held: the devices, and every descriptor but 0. A free descriptor 0 is the one that a device which opens there keeps
  with nobody to close it; \<open>raw_keeps f\<close> says that a file \<open>f\<close> open there stays.
\<close>

definition file_at :: "rst \<Rightarrow> nat \<Rightarrow> raw_file" where
  "file_at s i = (if i < length (fds s) then fds s ! i else Closed)"

lemma file_at_cong: "fds s' = fds s \<Longrightarrow> file_at s' = file_at s"
  by (rule ext) (simp add: file_at_def)

definition raw_held :: "rst \<Rightarrow> nat set \<times> (nat \<Rightarrow> raw_file)" where
  "raw_held s = (raw_live s, (file_at s)(0 := Closed))"

definition raw_over :: "rst \<Rightarrow> nat \<Rightarrow> nat set \<times> (nat \<Rightarrow> raw_file) \<Rightarrow> bool" where
  "raw_over s a x \<longleftrightarrow> (\<exists>d. raw_heap s a = Some d \<and> x = (raw_live s - {a}, (file_at s)(0 := Closed, nat (raw_handle d) := Closed)))"

definition raw_keeps :: "raw_file \<Rightarrow> rst \<Rightarrow> bool" where
  "raw_keeps f s \<longleftrightarrow> raw_inv s \<and> (f \<noteq> Closed \<longrightarrow> file_at s 0 = f)"

text \<open>Calls that leave the devices and descriptors alone.\<close>

definition undisturbed :: "rst \<Rightarrow> rst \<Rightarrow> bool" where
  "undisturbed s s' \<longleftrightarrow> raw_heap s' = raw_heap s \<and> raw_next s' = raw_next s \<and> fds s' = fds s \<and> kernel_version s' = kernel_version s"

lemma undisturbed_refl [simp, intro]: "undisturbed s s"
  by (simp add: undisturbed_def)

lemma undisturbed_trans [trans]: "undisturbed a b \<Longrightarrow> undisturbed b c \<Longrightarrow> undisturbed a c"
  by (simp add: undisturbed_def)

lemma undisturbed_inv: "undisturbed s s' \<Longrightarrow> raw_inv s' = raw_inv s \<and> raw_live s' = raw_live s"
  by (simp add: undisturbed_def raw_inv_def raw_live_def node_of_def)

lemma undisturbed_held:
  "undisturbed s s' \<Longrightarrow> raw_keeps f s' = raw_keeps f s \<and> raw_held s' = raw_held s \<and> raw_over s' a x = raw_over s a x"
  using undisturbed_inv [of s s'] file_at_cong [of s' s] by (simp add: undisturbed_def raw_keeps_def raw_held_def raw_over_def)

lemma undisturbed_node: "undisturbed s s' \<Longrightarrow> node_of s' x = node_of s x"
  by (simp add: undisturbed_def node_of_def)

lemma undisturbed_updates [simp]:
  "undisturbed s (s'\<lparr>rblocks := b\<rparr>) = undisturbed s s'" "undisturbed s (s'\<lparr>rlost := l\<rparr>) = undisturbed s s'"
  "undisturbed s (note_raw c s') = undisturbed s s'"
  by (simp_all add: undisturbed_def note_raw_def)

lemma note_raw_blocks [simp]: "rblocks (note_raw c s) = rblocks s" "rlost (note_raw c s) = rlost s"
  by (simp_all add: note_raw_def)

lemma on_fd_undisturbed: "on_fd fd c bad f s = (r, s') \<Longrightarrow> undisturbed s s' \<and> rblocks s' = rblocks s"
  by (auto simp: on_fd_def split: option.splits)

section \<open>Enumeration\<close>

lemma describe_hidraw_ids: "describe_hidraw E node bus vid pid u s = Some d \<Longrightarrow> vendor_id d = vid \<and> product_id d = pid"
  by (auto simp: describe_hidraw_def Let_def split: if_splits option.splits)

lemma enum_node_frame:
  assumes "enum_node E v p n s = Some (ds, s')"
  shows "undisturbed s s' \<and> rblocks s' = rblocks s + list_blocks ds \<and> list_all (info_matches v p) ds"
proof (cases "raw_uevent n")
  case None
  then show ?thesis using assms by (simp add: enum_node_def)
next
  case (Some ue)
  then obtain result u where u: "parse_uevent_info ue = Some (result, u)"
    using assms by (auto simp: enum_node_def elim: bind_SomeE)
  let ?s = "s\<lparr>rlost := rlost s + ue_lost u\<rparr>"
  show ?thesis
  proof (cases result)
    case False
    then show ?thesis using assms Some u by (auto simp: enum_node_def)
  next
    case True
    then obtain bus vid pid where b: "ue_bus u = Some bus" "ue_vendor u = Some vid" "ue_product u = Some pid"
      using assms Some u by (auto simp: enum_node_def Let_def elim!: bind_SomeE)
    show ?thesis
    proof (cases "(bus = BUS_USB \<or> bus = BUS_BLUETOOTH) \<and> id_match v p vid pid")
      case False
      then show ?thesis using assms Some u True b by (auto simp: enum_node_def Let_def split: if_splits)
    next
      case m: True
      show ?thesis
      proof (cases "describe_hidraw E n bus vid pid u ?s")
        case None
        then show ?thesis using assms Some u True b m by (auto simp: enum_node_def Let_def)
      next
        case (Some d)
        then have e: "ds = [d]" "s' = ?s\<lparr>rblocks := rblocks s + info_blocks d\<rparr>"
          using assms \<open>raw_uevent n = Some ue\<close> u True b m by (auto simp: enum_node_def Let_def)
        then show ?thesis using describe_hidraw_ids [OF Some] m by (simp add: info_matches_def)
      qed
    qed
  qed
qed

lemma enum_nodes_frame:
  "enum_nodes E v p ns s = Some (ds, s') \<Longrightarrow>
    undisturbed s s' \<and> rblocks s' = rblocks s + list_blocks ds \<and> list_all (info_matches v p) ds"
proof (induction ns arbitrary: s ds)
  case (Cons n ns)
  then obtain ds1 s1 ds2 where 1: "enum_node E v p n s = Some (ds1, s1)" "enum_nodes E v p ns s1 = Some (ds2, s')"
    "ds = ds1 @ ds2"
    by (auto elim!: bind_SomeE)
  show ?case using enum_node_frame [OF 1(1)] Cons.IH [OF 1(2)] 1(3) undisturbed_trans by auto
qed simp

lemma enumerate_hidraw_frame:
  assumes "hid_enumerate_hidraw E v p s = Some (ds, s')"
  shows "undisturbed s s' \<and> rblocks s' = rblocks s + list_blocks ds \<and> list_all (info_matches v p) ds"
proof (cases "re_udev E (rtrace s)")
  case True
  let ?s = "note_raw KScan (note_raw KUdev s)"
  have "enum_nodes E v p (re_scan E (rtrace (note_raw KUdev s))) ?s = Some (ds, s')"
    using assms True by (simp add: hid_enumerate_hidraw_def hid_init_hidraw_def Let_def)
  from enum_nodes_frame [OF this] have "undisturbed ?s s'" "rblocks s' = rblocks s + list_blocks ds"
    "list_all (info_matches v p) ds" by simp_all
  moreover have "undisturbed s ?s" by simp
  ultimately show ?thesis using undisturbed_trans by blast
next
  case False
  then show ?thesis using assms by (auto simp: hid_enumerate_hidraw_def hid_init_hidraw_def Let_def)
qed

lemma free_hidraw_frame:
  "undisturbed s (hid_free_enumeration_hidraw ds s) \<and>
    rblocks (hid_free_enumeration_hidraw ds s) = rblocks s - list_blocks ds"
proof (induction ds arbitrary: s)
  case (Cons d ds)
  let ?s = "s\<lparr>rblocks := rblocks s - some_block (path d) - some_block (serial_number d)
        - some_block (manufacturer_string d) - some_block (product_string d) - 1\<rparr>"
  have "undisturbed s ?s" by simp
  then show ?case using Cons.IH [of ?s] undisturbed_trans [of s ?s] by (simp add: info_blocks_def)
qed simp

section \<open>Descriptors\<close>

lemma first_closed_bound: "first_closed fs \<le> length fs"
  by (induction fs) auto

lemma first_closed_closed: "first_closed fs < length fs \<Longrightarrow> fs ! first_closed fs = Closed"
  by (induction fs) auto

lemma open_raw_fresh:
  assumes "open_raw E pa s = (fd, s')" "0 \<le> fd"
  shows "node_of s fd = None \<and> node_of s' fd \<noteq> None \<and> (\<forall>x. x \<noteq> fd \<longrightarrow> node_of s' x = node_of s x) \<and>
    raw_heap s' = raw_heap s \<and> raw_next s' = raw_next s \<and> rblocks s' = rblocks s \<and>
    file_at s (nat fd) = Closed \<and> (\<exists>n. file_at s' = (file_at s)(nat fd := Hidraw n))"
proof -
  let ?i = "first_closed (fds s)"
  from assms obtain n where n: "re_open E (rtrace s) pa = Some n" "fd = int ?i"
    and s': "s' = (note_raw (KOpen pa) s)\<lparr>fds := (if ?i < length (fds s) then (fds s)[?i := Hidraw n] else fds s @ [Hidraw n])\<rparr>"
    by (auto simp: open_raw_def Let_def split: option.splits)
  show ?thesis
  proof (cases "?i < length (fds s)")
    case True
    then show ?thesis
      using n(2) first_closed_closed [OF True]
      by (auto simp: s' node_of_def file_at_def fun_eq_iff note_raw_def nth_list_update nat_eq_iff2)
  next
    case False
    then have "?i = length (fds s)" using first_closed_bound [of "fds s"] by simp
    then show ?thesis using n(2)
      by (auto simp: s' node_of_def file_at_def fun_eq_iff note_raw_def nth_append nat_eq_iff2 nat_less_iff)
  qed
qed

lemma open_raw_failed: "open_raw E pa s = (fd, s') \<Longrightarrow> fd < 0 \<Longrightarrow> undisturbed s s' \<and> rblocks s' = rblocks s"
  by (auto simp: open_raw_def Let_def split: option.splits)

lemma read_numbered_undisturbed:
  assumes "read_numbered E fd s = Some (b, s')"
  shows "undisturbed s s' \<and> rblocks s' = rblocks s"
proof -
  obtain sz s1 where 1: "on_fd fd (KDescSize (nat fd)) None (re_desc_size E) s = (sz, s1)" by force
  define k where "k = (case sz of None \<Rightarrow> 0 | Some n \<Rightarrow> n)"
  obtain d s2 where 2: "on_fd fd (KDesc (nat fd) k) None
      (\<lambda>tr n. if 4095 < k then None else map_option (take k) (re_desc E tr n)) s1 = (d, s2)" by force
  have "s' = s2"
    using assms unfolding read_numbered_def Let_def 1 prod.case k_def [symmetric] 2
    by (auto split: option.splits elim!: bind_SomeE)
  then show ?thesis using on_fd_undisturbed [OF 1] on_fd_undisturbed [OF 2] undisturbed_trans by auto
qed

section \<open>The contract\<close>

text \<open>The two ends of \<open>hid_open_path\<close>: the new device stays with its descriptor, or its structure is freed again.\<close>

lemma raw_inv_added:
  assumes inv: "raw_inv s" and fd: "0 < fd" "node_of s fd = None" "node_of s' fd \<noteq> None" "\<And>x. x \<noteq> fd \<Longrightarrow> node_of s' x = node_of s x"
    and heap: "raw_heap s' = (raw_heap s)(raw_next s \<mapsto> d0)" "raw_handle d0 = fd" and nxt: "raw_next s' = raw_next s + 1"
  shows "raw_inv s' \<and> raw_live s' = insert (raw_next s) (raw_live s) \<and> raw_next s \<notin> raw_live s"
proof -
  have fresh: "raw_heap s b = None" if "raw_next s \<le> b" for b using inv that by (simp add: raw_inv_def)
  have other: "raw_handle d \<noteq> fd" if "raw_heap s x = Some d" for x d
  proof -
    have "node_of s (raw_handle d) \<noteq> None" using inv that unfolding raw_inv_def by blast
    then show ?thesis using fd(2) by auto
  qed
  then have other': "fd \<noteq> raw_handle d" if "raw_heap s x = Some d" for x d using that by metis
  have "raw_inv s'"
    unfolding raw_inv_def heap nxt using inv fresh fd(1,3,4) other other' heap(2) by (auto simp: raw_inv_def)
  then show ?thesis using fresh [of "raw_next s"] by (auto simp: raw_live_def heap)
qed

lemma raw_inv_dropped:
  assumes "raw_inv s" "raw_heap s' = raw_heap s" "raw_next s' = raw_next s + 1" "\<And>x. node_of s x \<noteq> None \<Longrightarrow> node_of s' x \<noteq> None"
  shows "raw_inv s' \<and> raw_live s' = raw_live s"
  using assms by (auto simp: raw_inv_def raw_live_def)

lemma open_path_hidraw_frame:
  assumes inv: "raw_inv s" and o: "hid_open_path_hidraw E pa s = Some (r, s')"
  shows "raw_inv s' \<and> rblocks s' = rblocks s \<and>
    (case r of None \<Rightarrow> raw_held s' = raw_held s
     | Some a \<Rightarrow> a \<notin> raw_live s \<and> raw_live s' = insert a (raw_live s) \<and> raw_over s' a (raw_held s)) \<and>
    (file_at s 0 \<noteq> Closed \<longrightarrow> file_at s' 0 = file_at s 0)"
proof -
  let ?a = "raw_next s"
  define s2 where "s2 = read_kernel_version E (snd (new_hid_device_hidraw s))"
  have h2: "raw_heap s2 = (raw_heap s)(?a \<mapsto> \<lparr>raw_handle = - 1, raw_blocking = True, numbered_reports = False\<rparr>)"
    "raw_next s2 = ?a + 1" "fds s2 = fds s" "rblocks s2 = rblocks s"
    by (auto simp: s2_def read_kernel_version_def new_hid_device_hidraw_def Let_def split: option.splits)
  have n2: "node_of s2 x = node_of s x" for x by (simp add: node_of_def h2(3))
  have fresh: "raw_heap s ?a = None" using inv by (simp add: raw_inv_def)
  obtain fd s3 where 3: "open_raw E pa s2 = (fd, s3)" by force
  have o2: "(if 0 < fd then do {
       (b, s4) \<leftarrow> read_numbered E fd s3;
       Some (Some ?a, s4\<lparr>raw_heap := (raw_heap s4)(?a \<mapsto> \<lparr>raw_handle = fd, raw_blocking = True, numbered_reports = b\<rparr>)\<rparr>) }
     else Some (None, s3\<lparr>raw_heap := (raw_heap s3)(?a := None)\<rparr>)) = Some (r, s')"
    using o 3 by (simp add: hid_open_path_hidraw_def hid_init_hidraw_def s2_def new_hid_device_hidraw_def Let_def)
  have f: "raw_heap s3 = raw_heap s2" "raw_next s3 = raw_next s2" "rblocks s3 = rblocks s"
    using open_raw_fresh [OF 3] open_raw_failed [OF 3] h2(4) by (cases "fd < 0"; simp add: undisturbed_def)+
  show ?thesis
  proof (cases "0 < fd")
    case True
    then obtain b s4 where b: "read_numbered E fd s3 = Some (b, s4)" "r = Some ?a"
      "s' = s4\<lparr>raw_heap := (raw_heap s4)(?a \<mapsto> \<lparr>raw_handle = fd, raw_blocking = True, numbered_reports = b\<rparr>)\<rparr>"
      using o2 by (auto elim!: bind_SomeE)
    have u: "undisturbed s3 s4" "rblocks s4 = rblocks s3" using read_numbered_undisturbed [OF b(1)] by blast+
    have heap: "raw_heap s' = (raw_heap s)(?a \<mapsto> \<lparr>raw_handle = fd, raw_blocking = True, numbered_reports = b\<rparr>)"
      and nxt: "raw_next s' = ?a + 1" and node: "node_of s' x = node_of s3 x" for x
      using u(1) f(1,2) h2(1,2) by (auto simp: b(3) undisturbed_def node_of_def)
    have i: "raw_inv s' \<and> raw_live s' = insert ?a (raw_live s) \<and> ?a \<notin> raw_live s"
      using raw_inv_added [OF inv True _ _ _ heap _ nxt] open_raw_fresh [OF 3] True n2 node by simp
    obtain n where n: "file_at s2 (nat fd) = Closed" "file_at s3 = (file_at s2)(nat fd := Hidraw n)"
      using open_raw_fresh [OF 3] True by auto
    have fa: "file_at s' = file_at s3" "file_at s2 = file_at s"
      using u(1) h2(3) by (auto simp: b(3) undisturbed_def intro!: file_at_cong)
    have "(file_at s)(0 := Closed) = (file_at s')(0 := Closed, nat fd := Closed)"
      using n True by (auto simp: fa fun_eq_iff)
    then have "raw_over s' ?a (raw_held s)" using i heap by (simp add: raw_over_def raw_held_def)
    moreover have "file_at s' 0 = file_at s 0" using n True by (simp add: fa)
    ultimately show ?thesis using i b(2,3) u(2) f(3) by simp
  next
    case False
    then have r: "r = None" "s' = s3\<lparr>raw_heap := (raw_heap s3)(?a := None)\<rparr>" using o2 by auto
    have heap: "raw_heap s' = raw_heap s" using fresh by (auto simp: r(2) f(1) h2(1))
    have n3: "node_of s3 x \<noteq> None" if "node_of s x \<noteq> None" for x
      using open_raw_fresh [OF 3] open_raw_failed [OF 3] undisturbed_node [of s2 s3 x] that n2 [of x]
      by (cases "fd < 0"; cases "x = fd") auto
    have "node_of s' x = node_of s3 x" for x by (simp add: r(2) node_of_def)
    then have "node_of s' x \<noteq> None" if "node_of s x \<noteq> None" for x using n3 [OF that] by simp
    then have i: "raw_inv s' \<and> raw_live s' = raw_live s" using raw_inv_dropped [OF inv heap] f(2) h2(2) r by simp
    have fa: "file_at s' = file_at s3" "file_at s2 = file_at s" using h2(3) by (auto simp: r(2) intro!: file_at_cong)
    have "(file_at s3)(0 := Closed) = (file_at s)(0 := Closed) \<and> (file_at s 0 \<noteq> Closed \<longrightarrow> file_at s3 0 = file_at s 0)"
    proof (cases "fd < 0")
      case True
      then have "file_at s3 = file_at s2" using open_raw_failed [OF 3] by (auto simp: undisturbed_def intro!: file_at_cong)
      then show ?thesis by (simp add: fa)
    next
      case False
      then have "fd = 0" using \<open>\<not> 0 < fd\<close> by simp
      then show ?thesis using open_raw_fresh [OF 3] by (auto simp: fa(2))
    qed
    then have "(file_at s')(0 := Closed) = (file_at s)(0 := Closed) \<and> (file_at s 0 \<noteq> Closed \<longrightarrow> file_at s' 0 = file_at s 0)"
      unfolding fa(1) .
    moreover have "rblocks s' = rblocks s" using f(3) r(2) by simp
    ultimately show ?thesis using i r(1) by (simp add: raw_held_def)
  qed
qed

lemma find_path_id: "find_path v p sn ds = Some (Some pa) \<Longrightarrow> \<exists>d\<in>set ds. path d = Some pa"
  by (induction ds) (auto split: if_splits option.splits elim!: bind_SomeE)

lemma open_hidraw_frame:
  assumes inv: "raw_inv s" and o: "hid_open_hidraw E v p sn s = Some (r, s')"
  shows "raw_inv s' \<and> rblocks s' = rblocks s \<and>
    (case r of None \<Rightarrow> raw_held s' = raw_held s
     | Some a \<Rightarrow> a \<notin> raw_live s \<and> raw_live s' = insert a (raw_live s) \<and> raw_over s' a (raw_held s)) \<and>
    (file_at s 0 \<noteq> Closed \<longrightarrow> file_at s' 0 = file_at s 0)"
proof -
  obtain ds s1 pa s2 where 1: "hid_enumerate_hidraw E v p s = Some (ds, s1)"
    and 2: "(case pa of None \<Rightarrow> Some (None, s1) | Some pa \<Rightarrow> hid_open_path_hidraw E pa s1) = Some (r, s2)"
    and s': "s' = hid_free_enumeration_hidraw ds s2"
    using o by (auto simp: hid_open_hidraw_def elim!: bind_SomeE)
  have e: "undisturbed s s1" "rblocks s1 = rblocks s + list_blocks ds"
    using enumerate_hidraw_frame [OF 1] by blast+
  have i1: "raw_inv s1" "raw_live s1 = raw_live s" "raw_held s1 = raw_held s"
    using undisturbed_inv [OF e(1)] undisturbed_held [OF e(1)] inv by simp_all
  have fa: "file_at s1 = file_at s" by (rule file_at_cong) (use e(1) in \<open>simp add: undisturbed_def\<close>)
  have "raw_inv s2 \<and> rblocks s2 = rblocks s1 \<and>
    (case r of None \<Rightarrow> raw_held s2 = raw_held s
     | Some a \<Rightarrow> a \<notin> raw_live s \<and> raw_live s2 = insert a (raw_live s) \<and> raw_over s2 a (raw_held s)) \<and>
    (file_at s 0 \<noteq> Closed \<longrightarrow> file_at s2 0 = file_at s 0)"
  proof (cases pa)
    case None
    then show ?thesis using 2 i1 fa by auto
  next
    case (Some q)
    then show ?thesis using 2 open_path_hidraw_frame [OF i1(1), of E q r s2] i1(2,3) fa by (cases r) simp_all
  qed
  moreover have "undisturbed s2 s'" "rblocks s' = rblocks s2 - list_blocks ds"
    using free_hidraw_frame [of s2 ds] by (simp_all add: s')
  moreover from this have "file_at s' = file_at s2" by (intro file_at_cong) (simp add: undisturbed_def)
  ultimately show ?thesis using undisturbed_inv [of s2 s'] undisturbed_held [of s2 s'] e(2) by (cases r) simp_all
qed

lemma close_hidraw_frame:
  assumes inv: "raw_inv s" and d: "raw_heap s a = Some d"
  shows "\<exists>s'. hid_close_hidraw (Some a) s = Some s' \<and> raw_inv s' \<and> raw_live s' = raw_live s - {a} \<and>
    rblocks s' = rblocks s \<and> node_of s' (raw_handle d) = None \<and> file_at s' = (file_at s)(nat (raw_handle d) := Closed) \<and> 0 < raw_handle d"
proof -
  let ?fd = "raw_handle d"
  have pos: "0 < ?fd" and n: "node_of s ?fd \<noteq> None" using inv d by (auto simp: raw_inv_def)
  have lt: "nat ?fd < length (fds s)" using n by (auto simp: node_of_def split: if_splits)
  define s' where "s' = (note_raw (KClose (nat ?fd)) s)\<lparr>fds := (fds s)[nat ?fd := Closed], raw_heap := (raw_heap s)(a := None)\<rparr>"
  have c: "hid_close_hidraw (Some a) s = Some s'"
    using d pos lt by (simp add: hid_close_hidraw_def close_raw_def s'_def note_raw_def)
  have node: "node_of s' x = (if x = ?fd then None else node_of s x)" for x
    using lt pos by (auto simp: s'_def node_of_def note_raw_def nth_list_update nat_eq_iff2)
  have heap: "raw_heap s' = (raw_heap s)(a := None)" "raw_next s' = raw_next s" "rblocks s' = rblocks s"
    by (simp_all add: s'_def note_raw_def)
  have other: "raw_handle e \<noteq> ?fd" if "raw_heap s b = Some e" "b \<noteq> a" for b e
    using inv d that unfolding raw_inv_def by metis
  have "raw_inv s'"
    unfolding raw_inv_def heap node using inv other by (auto simp: raw_inv_def)
  moreover have "file_at s' = (file_at s)(nat ?fd := Closed)"
    using lt by (auto simp: s'_def file_at_def note_raw_def fun_eq_iff)
  ultimately show ?thesis using c node [of ?fd] heap pos by (auto simp: raw_live_def)
qed

lemma send_hidraw_frame:
  "hid_send_feature_report_hidraw E a data len s = Some (r, s') \<Longrightarrow> undisturbed s s' \<and> rblocks s' = rblocks s"
  by (auto simp: hid_send_feature_report_hidraw_def elim!: bind_SomeE dest!: on_fd_undisturbed)

lemma get_hidraw_frame:
  assumes "hid_get_feature_report_hidraw E a data len s = Some (r, data', s')"
  shows "undisturbed s s' \<and> rblocks s' = rblocks s \<and> length data' = length data \<and> drop len data' = drop len data"
proof -
  let ?k = "len mod 2 ^ 14"
  obtain d where d: "raw_heap s a = Some d" using assms by (auto simp: hid_get_feature_report_hidraw_def elim: bind_SomeE)
  obtain ans s1 where 1: "on_fd (raw_handle d) (KGet (nat (raw_handle d)) ?k) None
      (\<lambda>tr n. map_option (take ?k) (re_get E tr n ?k)) s = (ans, s1)" by force
  have "length bs \<le> ?k" if "ans = Some bs" for bs
    using 1 that by (auto simp: on_fd_def split: option.splits)
  moreover have "?k \<le> len" by simp
  ultimately have k: "length bs \<le> len" if "ans = Some bs" for bs using that le_trans by blast
  have "s' = s1 \<and> length data' = length data \<and> drop len data' = drop len data"
  proof (cases ans)
    case None
    then show ?thesis
      using assms d unfolding hid_get_feature_report_hidraw_def d bind.bind_lunit Let_def 1 prod.case by auto
  next
    case (Some bs)
    then have w: "wr_block data 0 bs = Some data'" "s' = s1"
      using assms d unfolding hid_get_feature_report_hidraw_def d bind.bind_lunit Let_def 1 prod.case
      by (auto elim!: bind_SomeE)
    then show ?thesis using k [OF Some] wr_block_length [OF w(1)] by (auto simp: buf_iffs)
  qed
  then show ?thesis using on_fd_undisturbed [OF 1] by simp
qed

interpretation hidraw: hid_backend "hidraw_backend E" "raw_keeps f" raw_held raw_over rblocks for E f
proof
  fix h h' :: rst and v p ds sn d buf buf' n r x
  show "raw_keeps f h' \<and> raw_held h' = raw_held h \<and> rblocks h' = rblocks h + list_blocks ds \<and> list_all (info_matches v p) ds"
    if "raw_keeps f h" "api_enumerate (hidraw_backend E) v p h = Some (ds, h')"
    using that enumerate_hidraw_frame [of E v p h ds h'] undisturbed_held [of h h'] by (simp add: hidraw_backend_def)
  show "raw_keeps f h' \<and> raw_held h' = raw_held h \<and> rblocks h' = rblocks h - list_blocks ds"
    if "raw_keeps f h" "api_free_enumeration (hidraw_backend E) ds h = Some h'"
    using that free_hidraw_frame [of h ds] undisturbed_held [of h h'] by (auto simp: hidraw_backend_def)
  show "raw_keeps f h' \<and> raw_held h' = raw_held h \<and> rblocks h' = rblocks h"
    if "raw_keeps f h" "api_open (hidraw_backend E) v p sn h = Some (None, h')"
    using that open_hidraw_frame [of h E v p sn None h'] by (auto simp: hidraw_backend_def raw_keeps_def)
  show "raw_keeps f h' \<and> raw_over h' d (raw_held h)"
    if "raw_keeps f h" "api_open (hidraw_backend E) v p sn h = Some (Some d, h')"
    using that open_hidraw_frame [of h E v p sn "Some d" h'] by (auto simp: hidraw_backend_def raw_keeps_def)
  show "raw_keeps f h' \<and> raw_over h' d x"
    if "raw_keeps f h" "raw_over h d x" "api_send_feature_report (hidraw_backend E) d buf n h = Some (r, h')"
    using that send_hidraw_frame [of E d buf n h r h'] undisturbed_held [of h h'] by (simp add: hidraw_backend_def)
  show "raw_keeps f h' \<and> raw_over h' d x \<and> length buf' = length buf \<and> drop n buf' = drop n buf"
    if "raw_keeps f h" "raw_over h d x" "0 < n" "api_get_feature_report (hidraw_backend E) d buf n h = Some (r, buf', h')"
    using that get_hidraw_frame [of E d buf n h r buf' h'] undisturbed_held [of h h'] by (simp add: hidraw_backend_def)
  show "api_close (hidraw_backend E) None h = Some h" by (simp add: hidraw_backend_def hid_close_hidraw_def)
  show "raw_keeps f h' \<and> raw_held h' = x"
    if "raw_keeps f h" "raw_over h d x" "api_close (hidraw_backend E) (Some d) h = Some h'"
  proof -
    note t = that
    obtain e where e: "raw_heap h d = Some e" "x = (raw_live h - {d}, (file_at h)(0 := Closed, nat (raw_handle e) := Closed))"
      using t(2) by (auto simp: raw_over_def)
    have "raw_inv h" using t(1) by (simp add: raw_keeps_def)
    from close_hidraw_frame [OF this e(1)] t(3) have
      "raw_inv h'" "raw_live h' = raw_live h - {d}" "file_at h' = (file_at h)(nat (raw_handle e) := Closed)" "0 < raw_handle e"
      by (auto simp: hidraw_backend_def)
    then show ?thesis using t(1) e(2) by (auto simp: raw_keeps_def raw_held_def fun_upd_twist)
  qed
  show "raw_keeps f h' \<and> raw_held h' = raw_held h \<and> rblocks h' = rblocks h"
    if "raw_keeps f h" "api_exit (hidraw_backend E) h = Some (r, h')"
    using that by (simp add: hidraw_backend_def hid_exit_hidraw_def)
qed

end
