(* ===== verification/HidLinuxToken.thy ===== *)
theory HidLinuxToken
  imports HidLinuxContract TokenSession
begin

text \<open>
  The token on a hidraw device: what the token library needs of its HIDAPI (\<open>attached\<close>) holds of the Linux implementation
  too, so that every result about a session holds over it.
\<close>

section \<open>The bus\<close>

text \<open>
  \<open>token_raw E node u hx ser f\<close>: udev works and shows one hidraw device, \<open>node\<close>, on USB and with a parent there, whose
  uevent the parser reads as \<open>u\<close>: the token's ids, the serial as a hex string. It can be opened, takes feature reports, and a
  request that follows one is answered as \<open>f\<close> says.
\<close>

definition token_raw ::
    "raw_env \<Rightarrow> raw_node \<Rightarrow> uevent \<Rightarrow> (nat \<Rightarrow> wchar) \<Rightarrow> byte list \<Rightarrow> (byte list \<Rightarrow> byte list) \<Rightarrow> bool" where
  "token_raw E node u hx ser f \<longleftrightarrow>
     (\<forall>tr. re_udev E tr \<and> re_scan E tr = [node]) \<and>
     (\<exists>pa. devnode node = Some pa \<and> (\<forall>tr. re_open E tr pa = Some node)) \<and>
     (\<exists>ue. raw_uevent node = Some ue \<and> parse_uevent_info ue = Some (True, u)) \<and>
     ue_bus u = Some BUS_USB \<and> ue_vendor u = Some VID \<and> ue_product u = Some PID \<and>
     utf8_to_wchar_t E (ue_serial u) = Some (serial_string hx ser) \<and> usb_attrs node \<noteq> None \<and>
     (\<forall>tr p. 0 \<le> re_set E tr node p) \<and>
     (\<forall>tr fd p. re_get E (tr @ [KSet fd p]) node 18 = Some (token_answer ser f p))"

text \<open>The process has its standard input open, so that no device gets descriptor 0.\<close>

definition raw_ready :: "rst \<Rightarrow> bool" where
  "raw_ready s \<longleftrightarrow> raw_inv s \<and> 0 < first_closed (fds s)"

lemma first_closed_pos: "0 < first_closed fs \<longleftrightarrow> (\<exists>f r. fs = f # r \<and> f \<noteq> Closed)"
  by (cases fs) auto

lemma raw_ready_undisturbed: "undisturbed s s' \<Longrightarrow> raw_ready s \<Longrightarrow> raw_ready s'"
  using undisturbed_inv [of s s'] by (simp add: raw_ready_def undisturbed_def)

section \<open>Listing\<close>

definition token_record :: "(nat \<Rightarrow> wchar) \<Rightarrow> byte list \<Rightarrow> string \<Rightarrow> hid_device_info \<Rightarrow> bool" where
  "token_record hx ser pa d \<longleftrightarrow> serial_number d = Some (serial_string hx ser) \<and> vendor_id d = VID \<and>
     product_id d = PID \<and> path d = Some pa"

lemma raw_enumerate:
  assumes "token_raw E node u hx ser f"
  obtains pa where "\<And>tr. re_open E tr pa = Some node"
    "\<And>s. \<exists>d s'. hid_enumerate_hidraw E VID PID s = Some ([d], s') \<and> token_record hx ser pa d"
proof -
  obtain pa ue attrs where t: "devnode node = Some pa" "\<And>tr. re_open E tr pa = Some node"
    "raw_uevent node = Some ue" "parse_uevent_info ue = Some (True, u)" "usb_attrs node = Some attrs"
    using assms unfolding token_raw_def by auto
  have w: "re_udev E tr" "re_scan E tr = [node]" "ue_bus u = Some BUS_USB" "ue_vendor u = Some VID" "ue_product u = Some PID"
    "utf8_to_wchar_t E (ue_serial u) = Some (serial_string hx ser)" for tr
    using assms unfolding token_raw_def by auto
  have m: "id_match VID PID VID PID" by (simp add: id_match_def)
  have "\<exists>d s'. hid_enumerate_hidraw E VID PID s = Some ([d], s') \<and> token_record hx ser pa d" for s
  proof -
    let ?s = "(note_raw KScan (note_raw KUdev s))\<lparr>rlost := rlost s + ue_lost u\<rparr>"
    obtain d where d: "describe_hidraw E node BUS_USB VID PID u ?s = Some d" "token_record hx ser pa d"
      by (simp add: describe_hidraw_def Let_def t(1,5) w(6) token_record_def)
    then have "hid_enumerate_hidraw E VID PID s = Some ([d], ?s\<lparr>rblocks := rblocks ?s + info_blocks d\<rparr>)"
      using t(3,4) m by (simp add: hid_enumerate_hidraw_def hid_init_hidraw_def w(1-5) enum_node_def Let_def)
    then show ?thesis using d(2) by blast
  qed
  then show thesis using that t(2) by blast
qed

lemma raw_lists:
  assumes "token_raw E node u hx ser f"
  shows "lists (hidraw_backend E) raw_ready (Some (serial_string hx ser))"
proof -
  have "\<exists>d h1 h2. api_enumerate (hidraw_backend E) VID PID h = Some ([d], h1) \<and>
     serial_number d = Some (serial_string hx ser) \<and> api_free_enumeration (hidraw_backend E) [d] h1 = Some h2 \<and> raw_ready h2"
    if r: "raw_ready h" for h
  proof -
    obtain d h1 where e: "hid_enumerate_hidraw E VID PID h = Some ([d], h1)" "serial_number d = Some (serial_string hx ser)"
      using raw_enumerate [OF assms] unfolding token_record_def by metis
    have "raw_ready h1" using raw_ready_undisturbed enumerate_hidraw_frame [OF e(1)] r by blast
    then have "raw_ready (hid_free_enumeration_hidraw [d] h1)"
      using raw_ready_undisturbed free_hidraw_frame by blast
    then show ?thesis using e by (simp add: hidraw_backend_def)
  qed
  then show ?thesis unfolding lists_def by blast
qed

section \<open>Opening\<close>

text \<open>The open device \<open>a\<close> is the token.\<close>

definition raw_connected :: "raw_node \<Rightarrow> nat \<Rightarrow> rst \<Rightarrow> bool" where
  "raw_connected node a s \<longleftrightarrow> (\<exists>d. raw_heap s a = Some d \<and> node_of s (raw_handle d) = Some node)"

lemma node_of_heap [simp]: "node_of (s\<lparr>raw_heap := h\<rparr>) = node_of s"
  by (rule ext) (simp add: node_of_def)

lemma raw_connected_undisturbed: "undisturbed s s' \<Longrightarrow> raw_connected node a s = raw_connected node a s'"
  using undisturbed_node [of s s'] by (simp add: raw_connected_def undisturbed_def)

lemma on_fd_open: "node_of s fd = Some n \<Longrightarrow> on_fd fd c bad f s = (f (rtrace s) n, note_raw c s)"
  by (simp add: on_fd_def)

text \<open>The report descriptor is never read outside its 4096 bytes.\<close>

lemma read_numbered_returns: "\<exists>b s'. read_numbered E fd s = Some (b, s')"
proof -
  obtain z s1 where 1: "on_fd fd (KDescSize (nat fd)) None (re_desc_size E) s = (z, s1)" by force
  define k where "k = (case z of None \<Rightarrow> 0 | Some n \<Rightarrow> n)"
  obtain d s2 where 2: "on_fd fd (KDesc (nat fd) k) None
      (\<lambda>tr n. if 4095 < k then None else map_option (take k) (re_desc E tr n)) s1 = (d, s2)" by force
  show ?thesis
  proof (cases d)
    case None
    then show ?thesis unfolding read_numbered_def Let_def 1 prod.case k_def [symmetric] 2 by simp blast
  next
    case (Some bs)
    then have k: "k \<le> 4095" "length bs \<le> k" using 2 by (auto simp: on_fd_def split: option.splits if_splits)
    let ?v = "bs @ replicate (4096 - length bs) 0"
    have "uses_numbered_reports ?v k = Some (\<exists>it \<in> set (report_items (take k ?v)). fst it = 0x85)"
      using numbered_loop_items [of k ?v 0] k by (simp add: uses_numbered_reports_def)
    then show ?thesis using Some unfolding read_numbered_def Let_def 1 prod.case k_def [symmetric] 2 by simp
  qed
qed

lemma raw_open:
  assumes "token_raw E node u hx ser f" "raw_ready s"
  shows "\<exists>a s1. hid_open_hidraw E VID PID None s = Some (Some a, s1) \<and> raw_ready s1 \<and> raw_connected node a s1"
proof -
  obtain pa where p: "\<And>tr. re_open E tr pa = Some node"
    "\<And>s. \<exists>d s'. hid_enumerate_hidraw E VID PID s = Some ([d], s') \<and> token_record hx ser pa d"
    using raw_enumerate [OF assms(1)] by blast
  obtain d s1 where e: "hid_enumerate_hidraw E VID PID s = Some ([d], s1)" "token_record hx ser pa d" using p(2) by blast
  have f: "find_path VID PID None [d] = Some (Some pa)" using e(2) by (simp add: token_record_def)
  have r1: "raw_ready s1" using raw_ready_undisturbed enumerate_hidraw_frame [OF e(1)] assms(2) by blast
  let ?a = "raw_next s1"
  define s2 where "s2 = read_kernel_version E (snd (new_hid_device_hidraw s1))"
  have f2: "fds s2 = fds s1" by (auto simp: s2_def read_kernel_version_def new_hid_device_hidraw_def Let_def split: option.splits)
  obtain fd s3 where 3: "open_raw E pa s2 = (fd, s3)" by force
  have fd: "fd = int (first_closed (fds s1))" "node_of s3 fd = Some node" "first_closed (fds s3) \<noteq> 0"
  proof -
    let ?i = "first_closed (fds s1)"
    have s3: "fd = int ?i" "fds s3 = (if ?i < length (fds s1) then (fds s1)[?i := Hidraw node] else fds s1 @ [Hidraw node])"
      using 3 p(1) f2 by (auto simp: open_raw_def Let_def note_raw_def)
    show "fd = int ?i" by (rule s3(1))
    have "?i \<le> length (fds s1)" by (rule first_closed_bound)
    then show "node_of s3 fd = Some node" by (auto simp: node_of_def s3 nth_append)
    obtain x r where x: "fds s1 = x # r" "x \<noteq> Closed" using r1 first_closed_pos [of "fds s1"] by (auto simp: raw_ready_def)
    then show "first_closed (fds s3) \<noteq> 0" by (simp add: s3(2))
  qed
  have pos: "0 < fd" using fd(1) r1 by (simp add: raw_ready_def)
  obtain b s4 where 4: "read_numbered E fd s3 = Some (b, s4)" using read_numbered_returns by blast
  let ?s5 = "s4\<lparr>raw_heap := (raw_heap s4)(?a \<mapsto> \<lparr>raw_handle = fd, raw_blocking = True, numbered_reports = b\<rparr>)\<rparr>"
  have o: "hid_open_path_hidraw E pa s1 = Some (Some ?a, ?s5)"
    using 3 4 pos by (simp add: hid_open_path_hidraw_def hid_init_hidraw_def s2_def new_hid_device_hidraw_def Let_def)
  have u4: "undisturbed s3 s4" using read_numbered_undisturbed [OF 4] by blast
  have "raw_inv ?s5" using open_path_hidraw_frame [OF _ o] r1 by (simp add: raw_ready_def)
  moreover have "fds ?s5 = fds s3" using u4 by (simp add: undisturbed_def)
  ultimately have r5: "raw_ready ?s5" using fd(3) by (simp add: raw_ready_def)
  have "node_of ?s5 fd = Some node" using undisturbed_node [OF u4, of fd] fd(2) by simp
  then have c5: "raw_connected node ?a ?s5" by (simp add: raw_connected_def)
  let ?s6 = "hid_free_enumeration_hidraw [d] ?s5"
  have u6: "undisturbed ?s5 ?s6" using free_hidraw_frame by blast
  have "hid_open_hidraw E VID PID None s = Some (Some ?a, ?s6)"
    using e(1) f o by (simp add: hid_open_hidraw_def)
  then show ?thesis using raw_ready_undisturbed [OF u6 r5] raw_connected_undisturbed [OF u6] c5 by blast
qed

section \<open>Reports\<close>

lemma close_fds:
  "hid_close_hidraw (Some a) s = Some s' \<Longrightarrow> raw_heap s a = Some d \<Longrightarrow>
    fds s' = fds s \<or> fds s' = (fds s)[nat (raw_handle d) := Closed]"
  by (auto simp: hid_close_hidraw_def close_raw_def note_raw_def Let_def split: if_splits)

lemma raw_report:
  assumes "token_raw E node u hx ser f" "\<And>p. length (f p) = 17" "raw_ready s" "raw_connected node a s"
    and "n \<le> 64" "n \<le> length buf"
  shows "\<exists>r2 s2. hid_send_feature_report_hidraw E a buf n s = Some (r2, s2) \<and> 0 \<le> r2 \<and>
    (\<forall>buf'. 18 \<le> length buf' \<longrightarrow>
      (\<exists>s3 s4. hid_get_feature_report_hidraw E a buf' 18 s2 = Some (18, token_answer ser f (take n buf) @ drop 18 buf', s3) \<and>
        hid_close_hidraw (Some a) s3 = Some s4 \<and> raw_ready s4))"
proof -
  obtain d where d: "raw_heap s a = Some d" "node_of s (raw_handle d) = Some node"
    using assms(4) unfolding raw_connected_def by blast
  let ?fd = "raw_handle d" and ?p = "take n buf"
  let ?s2 = "note_raw (KSet (nat ?fd) ?p) s"
  have s2: "hid_send_feature_report_hidraw E a buf n s = Some (re_set E (rtrace s) node ?p, ?s2)"
    using d(1) assms(5,6) by (simp add: hid_send_feature_report_hidraw_def rd_block_def on_fd_open [OF d(2)])
  have u2: "undisturbed s ?s2" by simp
  have d2: "raw_heap ?s2 a = Some d" "node_of ?s2 ?fd = Some node"
    using d undisturbed_node [OF u2] by (simp_all add: note_raw_def)
  have ans: "re_get E (rtrace ?s2) node 18 = Some (token_answer ser f ?p)" "length (token_answer ser f ?p) = 18"
    using assms(1,2) by (simp_all add: token_raw_def note_raw_def token_answer_def mask_response_def)
  have "\<exists>s3 s4. hid_get_feature_report_hidraw E a buf' 18 ?s2 = Some (18, token_answer ser f ?p @ drop 18 buf', s3) \<and>
      hid_close_hidraw (Some a) s3 = Some s4 \<and> raw_ready s4" if b: "18 \<le> length buf'" for buf'
  proof -
    let ?s3 = "note_raw (KGet (nat ?fd) 18) ?s2"
    have g: "hid_get_feature_report_hidraw E a buf' 18 ?s2 = Some (18, token_answer ser f ?p @ drop 18 buf', ?s3)"
      using d2(1) ans b by (simp add: hid_get_feature_report_hidraw_def on_fd_open [OF d2(2)] wr_block_def)
    have u3: "undisturbed s ?s3" by simp
    have r3: "raw_ready ?s3" "raw_heap ?s3 a = Some d"
      using raw_ready_undisturbed [OF u3 assms(3)] d(1) by (simp_all add: note_raw_def)
    then obtain s4 where c: "hid_close_hidraw (Some a) ?s3 = Some s4" "raw_inv s4"
      using close_hidraw_frame [of ?s3 a d] by (auto simp: raw_ready_def)
    have pos: "0 < ?fd" using r3 unfolding raw_ready_def raw_inv_def by blast
    have "first_closed (fds s4) \<noteq> 0"
    proof -
      obtain x r where x: "fds ?s3 = x # r" "x \<noteq> Closed" using r3(1) first_closed_pos by (auto simp: raw_ready_def)
      have "fds s4 = fds ?s3 \<or> fds s4 = (fds ?s3)[nat ?fd := Closed]"
        using close_fds [OF c(1) r3(2)] .
      then show ?thesis using x pos by (cases "nat ?fd") auto
    qed
    then show ?thesis using g c by (auto simp: raw_ready_def)
  qed
  moreover have "0 \<le> re_set E (rtrace s) node ?p" using assms(1) unfolding token_raw_def by blast
  ultimately show ?thesis using s2 by blast
qed

lemma raw_serves:
  assumes "token_raw E node u hx ser f" "\<And>p. length (f p) = 17"
  shows "serves (hidraw_backend E) raw_ready (token_answer ser f)"
  unfolding serves_def
proof (intro allI impI)
  fix s assume "raw_ready s"
  then obtain a s1 where o: "hid_open_hidraw E VID PID None s = Some (Some a, s1)" "raw_ready s1" "raw_connected node a s1"
    using raw_open [OF assms(1)] by blast
  show "\<exists>d h1. api_open (hidraw_backend E) VID PID None s = Some (Some d, h1) \<and>
       (\<forall>buf n. 0 < n \<longrightarrow> n \<le> 64 \<longrightarrow> n \<le> length buf \<longrightarrow> buf ! 0 \<noteq> 0 \<longrightarrow>
         (\<exists>r2 h2. api_send_feature_report (hidraw_backend E) d buf n h1 = Some (r2, h2) \<and> 0 \<le> r2 \<and>
           (\<forall>buf'. 18 \<le> length buf' \<longrightarrow> buf' ! 0 = of_nat ReportID_GetLarge \<longrightarrow>
             (\<exists>r3 h3 h4 r5 h5.
               api_get_feature_report (hidraw_backend E) d buf' 18 h2 =
                 Some (r3, token_answer ser f (take n buf) @ drop 18 buf', h3) \<and>
               0 \<le> r3 \<and> api_close (hidraw_backend E) (Some d) h3 = Some h4 \<and>
               api_exit (hidraw_backend E) h4 = Some (r5, h5) \<and> raw_ready h5))))"
  proof (intro exI [of _ a] exI [of _ s1] conjI allI impI)
    show "api_open (hidraw_backend E) VID PID None s = Some (Some a, s1)"
      using o(1) by (simp add: hidraw_backend_def)
  next
    fix buf :: "byte list" and n
    assume b: "n \<le> 64" "n \<le> length buf"
    show "\<exists>r2 h2. api_send_feature_report (hidraw_backend E) a buf n s1 = Some (r2, h2) \<and> 0 \<le> r2 \<and>
           (\<forall>buf'. 18 \<le> length buf' \<longrightarrow> buf' ! 0 = of_nat ReportID_GetLarge \<longrightarrow>
             (\<exists>r3 h3 h4 r5 h5.
               api_get_feature_report (hidraw_backend E) a buf' 18 h2 =
                 Some (r3, token_answer ser f (take n buf) @ drop 18 buf', h3) \<and>
               0 \<le> r3 \<and> api_close (hidraw_backend E) (Some a) h3 = Some h4 \<and>
               api_exit (hidraw_backend E) h4 = Some (r5, h5) \<and> raw_ready h5))"
      using raw_report [OF assms o(2,3) b] by (fastforce simp: hidraw_backend_def hid_exit_hidraw_def)
  qed
qed

section \<open>The token is attached\<close>

definition plugged_hidraw ::
    "platform \<Rightarrow> raw_env \<Rightarrow> byte list \<Rightarrow> byte \<times> byte \<Rightarrow> (byte \<Rightarrow> byte list \<Rightarrow> byte + byte list) \<Rightarrow> bool" where
  "plugged_hidraw P E ser status key \<longleftrightarrow> length ser = 4 \<and> ascii_locale (wc_to_mb P) \<and>
     (\<exists>node u hx. hex_printer hx \<and> token_raw E node u hx ser (token_model status key))"

lemma plugged_hidraw_attached:
  assumes "plugged_hidraw P E ser status key"
  shows "attached P (hidraw_backend E) raw_ready ser status key"
proof -
  obtain node u hx where t: "hex_printer hx" "token_raw E node u hx ser (token_model status key)"
    and p: "length ser = 4" "ascii_locale (wc_to_mb P)"
    using assms unfolding plugged_hidraw_def by blast
  then have "present P (hidraw_backend E) raw_ready ser" using raw_lists [OF t(2)] unfolding present_def by blast
  moreover have "serves (hidraw_backend E) raw_ready (token_answer ser (token_model status key))"
    by (rule raw_serves [OF t(2)]) simp
  ultimately show ?thesis by (simp add: attached_def)
qed

end
