(* ===== verification/PluginCodec.thy ===== *)
theory PluginCodec
  imports Prelude
begin

text \<open>
  Strings and hex text in \<^verbatim>\<open>fumPlugin/fumPluginAPI.cpp\<close>. A \<open>std::string\<close> is the list of its bytes and may hold zeros;
  \<open>c_str\<close> and the C string functions stop at the first one.
\<close>

section \<open>C strings\<close>

definition cstr :: "byte list \<Rightarrow> byte list" where
  "cstr s = takeWhile (\<lambda>b. b \<noteq> 0) s"

text \<open>The constructor \<open>string(p)\<close>: it reads up to a zero, which has to be there.\<close>

definition c_string :: "byte list \<Rightarrow> byte list option" where
  "c_string p = (if 0 \<in> set p then Some (cstr p) else None)"

definition strcpy :: "byte list \<Rightarrow> byte list \<Rightarrow> byte list option" where
  "strcpy dst src = wr_block dst 0 (cstr src @ [0])"

definition strncpy :: "byte list \<Rightarrow> byte list \<Rightarrow> nat \<Rightarrow> byte list option" where
  "strncpy dst src n = wr_block dst 0 (take n (cstr src @ replicate n 0))"

definition memset0 :: "byte list \<Rightarrow> nat \<Rightarrow> byte list option" where
  "memset0 dst n = wr_block dst 0 (replicate n 0)"

section \<open>Hex text\<close>

definition hex_table :: "byte list" where
  "hex_table = [48, 49, 50, 51, 52, 53, 54, 55, 56, 57, 97, 98, 99, 100, 101, 102]"

fun bin2hex_loop :: "nat \<Rightarrow> nat \<Rightarrow> nat \<Rightarrow> byte list \<Rightarrow> byte list \<Rightarrow> (nat \<times> byte list) option" where
  "bin2hex_loop 0 i j inp out = Some (j, out)"
| "bin2hex_loop (Suc n) i j inp out = do {
     c \<leftarrow> rd inp i;
     a \<leftarrow> rd hex_table (unat (drop_bit 4 c AND 0x0F));
     b \<leftarrow> rd hex_table (unat (c AND 0x0F));
     out1 \<leftarrow> wr out j a;
     out2 \<leftarrow> wr out1 (j + 1) b;
     bin2hex_loop n (i + 1) (j + 2) inp out2
   }"

definition bin2hex :: "int \<Rightarrow> byte list \<Rightarrow> byte list \<Rightarrow> (nat \<times> byte list) option" where
  "bin2hex lin inp out = bin2hex_loop (nat lin) 0 0 inp out"

text \<open>
  \<open>bin_map\<close> is a local array of which only the entries of the hex digits are assigned; the others are what
  the stack holds (\<open>jk\<close>). Of an entry the code uses the low four bits.
\<close>

definition bin_map :: "(nat \<Rightarrow> byte) \<Rightarrow> byte \<Rightarrow> byte" where
  "bin_map jk c =
     (if 48 \<le> c \<and> c \<le> 57 then c - 48
      else if 97 \<le> c \<and> c \<le> 102 then c - 87
      else if 65 \<le> c \<and> c \<le> 70 then c - 55
      else jk (unat c))"

fun hex2bin_loop :: "(nat \<Rightarrow> byte) \<Rightarrow> nat \<Rightarrow> nat \<Rightarrow> nat \<Rightarrow> byte list \<Rightarrow> byte list \<Rightarrow> (nat \<times> byte list) option" where
  "hex2bin_loop jk 0 i j inp out = Some (i, out)"
| "hex2bin_loop jk (Suc n) i j inp out = do {
     c \<leftarrow> rd inp j;
     d \<leftarrow> rd inp (j + 1);
     out1 \<leftarrow> wr out i ((push_bit 4 (bin_map jk c) AND 0xF0) OR (bin_map jk d AND 0x0F));
     hex2bin_loop jk n (i + 1) (j + 2) inp out1
   }"

definition hex2bin :: "(nat \<Rightarrow> byte) \<Rightarrow> int \<Rightarrow> byte list \<Rightarrow> byte list \<Rightarrow> (nat \<times> byte list) option" where
  "hex2bin jk lin inp out = hex2bin_loop jk (nat (lin div 2)) 0 0 inp out"

section \<open>What they compute\<close>

text \<open>The two hex digits of a byte, and back.\<close>

definition hex_pair :: "byte \<Rightarrow> byte list" where
  "hex_pair c = [hex_table ! unat (drop_bit 4 c AND 0x0F), hex_table ! unat (c AND 0x0F)]"

definition hex_text :: "byte list \<Rightarrow> byte list" where
  "hex_text bs = concat (map hex_pair bs)"

lemma length_hex_pair [simp]: "length (hex_pair c) = 2"
  by (simp add: hex_pair_def)

lemma length_hex_text [simp]: "length (hex_text bs) = 2 * length bs"
  by (induction bs) (simp_all add: hex_text_def)

lemma hex_text_simps [simp]: "hex_text [] = []" "hex_text (c # bs) = hex_pair c @ hex_text bs"
  by (simp_all add: hex_text_def)

lemma nibble_less [simp]: "unat (c AND 0x0F :: byte) < 16"
proof -
  have "c AND 0x0F = take_bit 4 c" by (simp add: take_bit_eq_mask mask_eq_exp_minus_1)
  then show ?thesis using take_bit_nat_less_exp [of 4 "unat c"] by (simp add: unsigned_take_bit_eq)
qed

lemma length_hex_table [simp]: "length hex_table = 16"
  by (simp add: hex_table_def)

lemma rd_hex_table: "rd hex_table (unat (c AND 0x0F :: byte)) = Some (hex_table ! unat (c AND 0x0F))"
  by (simp add: rd_def)

lemma bin2hex_loop_eq:
  assumes "i + n \<le> length inp" "j + 2 * n \<le> length out"
  shows "bin2hex_loop n i j inp out =
    Some (j + 2 * n, take j out @ hex_text (take n (drop i inp)) @ drop (j + 2 * n) out)"
  using assms
proof (induction n arbitrary: i j out)
  case (Suc n)
  have d: "take (Suc n) (drop i inp) = inp ! i # take n (drop (Suc i) inp)"
    using Suc.prems(1) by (simp add: take_Suc_conv_app_nth Cons_nth_drop_Suc [symmetric])
  let ?a = "hex_table ! unat (drop_bit 4 (inp ! i) AND 0x0F)" and ?b = "hex_table ! unat (inp ! i AND 0x0F)"
  let ?out = "out[j := ?a, Suc j := ?b]"
  have "take (Suc (Suc j)) ?out = take j out @ [?a, ?b]"
    using Suc.prems(2) by (simp add: take_Suc_conv_app_nth nth_list_update)
  moreover have "drop (Suc (Suc j) + 2 * n) ?out = drop (Suc (Suc j) + 2 * n) out" by simp
  ultimately show ?case
    using Suc.prems Suc.IH [of "Suc i" "Suc (Suc j)" ?out]
    by (simp add: d rd_def wr_def hex_pair_def)
qed simp

lemma bin2hex_eq:
  assumes "n \<le> length inp" "2 * n \<le> length out"
  shows "bin2hex (int n) inp out = Some (2 * n, hex_text (take n inp) @ drop (2 * n) out)"
  using bin2hex_loop_eq [of 0 n inp 0 out] assms by (simp add: bin2hex_def)

lemma bin_map_hex:
  assumes "n < 16"
  shows "bin_map jk (hex_table ! n) = of_nat n"
proof -
  have "list_all2 (\<lambda>c v. bin_map jk c = v) hex_table [0, 1, 2, 3, 4, 5, 6, 7, 8, 9, 10, 11, 12, 13, 14, 15]"
    by (simp add: hex_table_def bin_map_def)
  moreover have "[0, 1, 2, 3, 4, 5, 6, 7, 8, 9, 10, 11, 12, 13, 14, 15] = map (of_nat :: nat \<Rightarrow> byte) [0..<16]"
    by code_simp
  ultimately have "list_all2 (\<lambda>c v. bin_map jk c = v) hex_table (map of_nat [0..<16])" by simp
  then show ?thesis using list_all2_nthD [of _ hex_table _ n] assms by fastforce
qed

lemma byte_masks: "(0x0F :: byte) = mask 4" "(0xF0 :: byte) = push_bit 4 (mask 4)"
  by (simp_all add: mask_eq_exp_minus_1)

lemma nibbles_joined: "(push_bit 4 (drop_bit 4 c AND 0x0F) AND 0xF0) OR ((c AND 0x0F) AND 0x0F) = (c :: byte)"
  unfolding byte_masks by (rule bit_word_eqI) (auto simp: bit_simps)

lemma hex_pair_back:
  "(push_bit 4 (bin_map jk (hex_pair c ! 0)) AND 0xF0) OR (bin_map jk (hex_pair c ! 1) AND 0x0F) = c"
  using nibbles_joined [of c] by (simp add: hex_pair_def bin_map_hex)

lemma hex2bin_loop_eq:
  assumes "drop j inp = hex_text bs @ rest" "j + 2 * length bs \<le> length inp" "i + length bs \<le> length out"
  shows "hex2bin_loop jk (length bs) i j inp out =
    Some (i + length bs, take i out @ bs @ drop (i + length bs) out)"
  using assms
proof (induction bs arbitrary: i j out)
  case (Cons c bs)
  have r: "rd inp j = Some (hex_pair c ! 0)" "rd inp (j + 1) = Some (hex_pair c ! 1)"
    using Cons.prems(1,2) nth_drop [of j inp 0] nth_drop [of j inp 1] by (simp_all add: rd_def nth_append)
  have "drop (j + 2) inp = drop 2 (drop j inp)" by (simp add: add.commute)
  then have d: "drop (j + 2) inp = hex_text bs @ rest" using Cons.prems(1) by (simp add: hex_pair_def)
  have "take (Suc i) (out[i := c]) = take i out @ [c]"
    using Cons.prems(3) by (simp add: take_Suc_conv_app_nth)
  then show ?case
    using Cons.IH [OF d, of "Suc i" "out[i := c]"] Cons.prems(2,3) r hex_pair_back [of jk c]
    by (simp add: wr_def)
qed simp

lemma hex2bin_eq:
  assumes "length bs \<le> length out"
  shows "hex2bin jk (2 * int (length bs)) (hex_text bs @ rest) out = Some (length bs, bs @ drop (length bs) out)"
  using hex2bin_loop_eq [of 0 "hex_text bs @ rest" bs rest 0 out jk] assms by (simp add: hex2bin_def)

lemma hex_text_nonzero: "0 \<notin> set (hex_text bs)"
proof (induction bs)
  case (Cons c bs)
  have "0 \<notin> set hex_table" by (simp add: hex_table_def)
  then have "hex_table ! n \<noteq> 0" if "n < 16" for n using that by (metis length_hex_table nth_mem)
  then show ?case using Cons by (simp add: hex_pair_def)
qed simp

section \<open>C strings in arrays\<close>

lemma cstr_id [simp]: "0 \<notin> set s \<Longrightarrow> cstr s = s"
  by (auto simp: cstr_def takeWhile_eq_all_conv)

lemma cstr_append_zero: "0 \<notin> set s \<Longrightarrow> cstr (s @ 0 # r) = s"
  by (induction s) (auto simp: cstr_def)

lemma c_string_append_zero: "0 \<notin> set s \<Longrightarrow> c_string (s @ 0 # r) = Some s"
  by (simp add: c_string_def cstr_append_zero)

lemma strcpy_some:
  assumes "length (cstr src) < length dst"
  shows "strcpy dst src = Some (cstr src @ 0 # drop (length (cstr src) + 1) dst)"
  using assms by (simp add: strcpy_def wr_block_def)

lemma strcpy_none: "length dst \<le> length (cstr src) \<Longrightarrow> strcpy dst src = None"
  by (simp add: strcpy_def wr_block_def)

lemma strncpy_some:
  assumes "n \<le> length dst"
  shows "strncpy dst s n = Some (take n (cstr s @ replicate n 0) @ drop n dst)"
proof -
  have "length (take n (cstr s @ replicate n 0)) = n" by simp
  then show ?thesis using assms by (simp only: strncpy_def wr_block_def) simp
qed

lemma memset0_some: "n \<le> length dst \<Longrightarrow> memset0 dst n = Some (replicate n 0 @ drop n dst)"
  by (simp add: memset0_def wr_block_def)

section \<open>The codec\<close>

text \<open>
  \<open>hex2bin\<close> reads back exactly the bytes \<open>bin2hex\<close> printed, in place and inside both arrays, whatever its
  uninitialised table holds.
\<close>

theorem hex_roundtrip:
  assumes "2 * length bs \<le> length out" "length bs \<le> length out'"
  shows "\<exists>hex. bin2hex (int (length bs)) bs out = Some (2 * length bs, hex) \<and>
    hex2bin jk (2 * int (length bs)) hex out' = Some (length bs, bs @ drop (length bs) out')"
  using bin2hex_eq [of "length bs" bs out] hex2bin_eq [OF assms(2)] assms(1) by auto

theorem hex_roundtrip_witness:
  "hex2bin (\<lambda>i. 0) 4 [97, 53, 48, 57] [0, 0, 0] = Some (2, [0xa5, 9, 0])"
proof -
  obtain hex where h: "bin2hex 2 [0xa5, 9] [0, 0, 0, 0] = Some (4, hex)"
    "hex2bin (\<lambda>i. 0) 4 hex [0, 0, 0] = Some (2, [0xa5, 9, 0])"
    using hex_roundtrip [of "[0xa5, 9]" "[0, 0, 0, 0]" "[0, 0, 0]" "\<lambda>i. 0"] by auto
  have "bin2hex 2 [0xa5, 9] [0, 0, 0, 0] = Some (4, [97, 53, 48, 57])" by code_simp
  then show ?thesis using h by simp
qed

end
