(* ===== verification/FumPlugin.thy ===== *)
theory FumPlugin
  imports NovinLib PluginCodec
begin

text \<open>
  The object the browser plugin offers to a page, \<open>fumPluginAPI\<close> (\<^verbatim>\<open>fumPlugin/fumPluginAPI.cpp\<close> and its header):
  loading the token library, the methods and properties a script can use. The library it loads, \<^verbatim>\<open>libnovin.so\<close>, is that of
  \<open>NovinLib\<close>, so the function pointers are its functions. \<open>dlopen\<close>, \<open>dlsym\<close> and FireBreath are not part of the repository
  proper: the record \<open>loader\<close> holds what the first two answer, of the framework remain the events fired and whether the plugin
  object is still there.
\<close>

section \<open>State\<close>

definition nErr_DLL :: int where "nErr_DLL = 133"

datatype plugin_event = Event_test | Event_echo int

text \<open>
  \<open>lib\<close> is the state of the token library; \<open>dev_serial\<close> the member \<open>serial\<close>, \<open>token_handle\<close> whether the member is not NULL,
  \<open>new_blocks\<close> the number of blocks from \<open>new\<close> not deleted and of PEM texts not freed, \<open>clicks\<close> the static counter of \<open>echo\<close>.
\<close>

record 'h plugin =
  lib :: "'h nst"
  dev_serial :: "byte list"
  dll_load_stat :: int
  token_handle :: bool
  new_blocks :: int
  testString :: "byte list"
  clicks :: int
  fired :: "plugin_event list"
  alive :: bool

section \<open>Loading the library\<close>

record loader =
  ld_open :: bool
  ld_error :: "string \<Rightarrow> bool"

definition dll_symbols :: "string list" where
  "dll_symbols = [''get_err_no'', ''get_device_count'', ''get_first_device'', ''get_curr_dev_serial'',
     ''select_device'', ''get_device_status'', ''get_public_key'', ''rsa_encrypt'', ''rsa_decrypt'',
     ''get_signature'', ''verify_signature'']"

text \<open>One \<open>dlsym\<close> and the look at \<open>dlerror\<close> after it; the first failure ends the load.\<close>

fun load_symbols :: "loader \<Rightarrow> string list \<Rightarrow> int" where
  "load_symbols L [] = nErr_OK"
| "load_symbols L (name # names) = (if ld_error L name then nErr_DLL else load_symbols L names)"

definition loadTokenDll :: "loader \<Rightarrow> int \<times> bool" where
  "loadTokenDll L = (if \<not> ld_open L then nErr_DLL else load_symbols L dll_symbols, ld_open L)"

text \<open>The constructor; \<open>serial\<close> is not initialised.\<close>

definition new_plugin :: "loader \<Rightarrow> byte list \<Rightarrow> int \<Rightarrow> 'h nst \<Rightarrow> 'h plugin" where
  "new_plugin L ser n s = (let (st, h) = loadTokenDll L in
     \<lparr>lib = s, dev_serial = ser, dll_load_stat = st, token_handle = h, new_blocks = 0, testString = [],
      clicks = n, fired = [], alive = True\<rparr>)"

definition delete_plugin :: "'h plugin \<Rightarrow> 'h plugin" where
  "delete_plugin p = p\<lparr>token_handle := False\<rparr>"

section \<open>The object itself\<close>

definition get_TkErr :: "'h plugin \<Rightarrow> int" where
  "get_TkErr p = (if dll_load_stat p \<noteq> nErr_OK then nErr_DLL else get_err_no (lib p))"

definition getPlugin :: "'h plugin \<Rightarrow> string + unit" where
  "getPlugin p = (if alive p then Inr () else Inl ''The plugin is invalid'')"

text \<open>The counter is an \<open>int\<close>, whose overflow is undefined.\<close>

definition echo :: "'v \<Rightarrow> 'h plugin \<Rightarrow> ('v \<times> 'h plugin) option" where
  "echo msg p = (if clicks p = 2 ^ 31 - 1 then None
     else Some (msg, p\<lparr>clicks := clicks p + 1, fired := fired p @ [Event_echo (clicks p)]\<rparr>))"

definition get_testString :: "'h plugin \<Rightarrow> byte list" where
  "get_testString p = testString p"

definition set_testString :: "byte list \<Rightarrow> 'h plugin \<Rightarrow> 'h plugin" where
  "set_testString val p = p\<lparr>testString := val\<rparr>"

definition testEvent :: "'h plugin \<Rightarrow> 'h plugin" where
  "testEvent p = p\<lparr>fired := fired p @ [Event_test]\<rparr>"

text \<open>\<open>sprintf\<close> of the four bytes into \<open>buff[16]\<close>, which \<open>memset\<close> has cleared.\<close>

definition decimal :: "byte \<Rightarrow> byte list" where
  "decimal b = (let n = unat b; digit = (\<lambda>k. of_nat (48 + k)) in
     (if 100 \<le> n then [digit (n div 100)] else []) @
     (if 10 \<le> n then [digit (n div 10 mod 10)] else []) @ [digit (n mod 10)])"

definition serial_property :: "'h plugin \<Rightarrow> byte list option" where
  "serial_property p = do {
     a \<leftarrow> rd (dev_serial p) 0;
     b \<leftarrow> rd (dev_serial p) 1;
     c \<leftarrow> rd (dev_serial p) 2;
     d \<leftarrow> rd (dev_serial p) 3;
     buff \<leftarrow> wr_block (replicate 16 0) 0 (decimal a @ [44] @ decimal b @ [44] @ decimal c @ [44] @ decimal d @ [0]);
     c_string buff
   }"

section \<open>The token\<close>

definition GetToken :: "platform \<Rightarrow> 'h hidapi \<Rightarrow> 'h plugin \<Rightarrow> 'h plugin option" where
  "GetToken P H p =
     (if get_TkErr p \<noteq> nErr_OK then Some p
      else do {
        s1 \<leftarrow> get_first_device P H (lib p);
        let p1 = p\<lparr>lib := s1\<rparr>;
        if get_TkErr p1 \<noteq> nErr_OK then Some p1
        else do {
          (ser, s2) \<leftarrow> get_curr_dev_serial P H (dev_serial p1) (lib p1);
          let p2 = p1\<lparr>lib := s2, dev_serial := ser\<rparr>;
          if get_TkErr p2 \<noteq> nErr_OK then Some p2
          else do {
            s3 \<leftarrow> select_device P H (dev_serial p2) (lib p2);
            Some (p2\<lparr>lib := s3\<rparr>) } } })"

definition GetDeviceCount :: "'h hidapi \<Rightarrow> 'h plugin \<Rightarrow> (int \<times> 'h plugin) option" where
  "GetDeviceCount H p =
     (if get_TkErr p \<noteq> nErr_OK then Some (0, p)
      else do { (n, s) \<leftarrow> get_device_count H (lib p); Some (n, p\<lparr>lib := s\<rparr>) })"

text \<open>The text the library allocates is copied and not freed.\<close>

definition GetPublicKey :: "platform \<Rightarrow> 'h hidapi \<Rightarrow> openssl \<Rightarrow> 'h plugin \<Rightarrow> (byte list \<times> 'h plugin) option" where
  "GetPublicKey P H S p =
     (if get_TkErr p \<noteq> nErr_OK then Some ([], p)
      else do {
        (buff, s) \<leftarrow> get_public_key P H S (lib p);
        case buff of
          Indeterminate \<Rightarrow> None
        | Heap b \<Rightarrow> do {
            r \<leftarrow> c_string b;
            Some (r, p\<lparr>lib := s, new_blocks := new_blocks p + 1\<rparr>) } })"

section \<open>Encryption and signatures\<close>

text \<open>\<open>length()\<close> stored in an \<open>int\<close>.\<close>

definition int_length :: "byte list \<Rightarrow> int" where
  "int_length s = signed_take_bit 31 (int (length s))"

text \<open>\<open>csupwd\<close>: sixteen bytes cleared, then filled by \<open>strncpy\<close>.\<close>

definition c_password :: "platform \<Rightarrow> nat \<Rightarrow> byte list \<Rightarrow> byte list option" where
  "c_password P fr supwd = do {
     a \<leftarrow> memset0 (local_array P 16 fr) 16;
     strncpy a supwd 16
   }"

definition RsaEncrypt ::
    "platform \<Rightarrow> 'h hidapi \<Rightarrow> openssl \<Rightarrow> int \<Rightarrow> byte list \<Rightarrow> byte list \<Rightarrow> 'h plugin \<Rightarrow> (byte list \<times> 'h plugin) option" where
  "RsaEncrypt P H S key_type from supwd p =
     (if get_TkErr p \<noteq> nErr_OK then Some ([], p)
      else do {
        let fr = frames (lib p);
        cfrom0 \<leftarrow> memset0 (local_array P 1024 (fr + 1)) 1024;
        cfrom \<leftarrow> strcpy cfrom0 from;
        csupwd \<leftarrow> c_password P (fr + 2) supwd;
        (len, to, s) \<leftarrow> rsa_encrypt P H S key_type (int_length from) cfrom (local_array P 1024 fr) csupwd
          ((lib p)\<lparr>frames := fr + 4\<rparr>);
        let p1 = p\<lparr>lib := s\<rparr>;
        if len = - 1 then Some ([], p1)
        else do {
          (outlen, hex_out) \<leftarrow> bin2hex len to (local_array P 1024 (fr + 3));
          hex_out1 \<leftarrow> wr hex_out outlen 0;
          r \<leftarrow> c_string hex_out1;
          Some (r, p1) } })"

definition RsaDecrypt ::
    "platform \<Rightarrow> 'h hidapi \<Rightarrow> openssl \<Rightarrow> int \<Rightarrow> byte list \<Rightarrow> byte list \<Rightarrow> 'h plugin \<Rightarrow> (byte list \<times> 'h plugin) option" where
  "RsaDecrypt P H S key_type from supwd p =
     (if get_TkErr p \<noteq> nErr_OK then Some ([], p)
      else do {
        let fr = frames (lib p);
        cfrom0 \<leftarrow> memset0 (local_array P 1024 (fr + 1)) 1024;
        cfrom \<leftarrow> strcpy cfrom0 from;
        (out_len, bin_out) \<leftarrow> hex2bin (junk P (fr + 4)) (int_length from) cfrom (local_array P 1024 (fr + 3));
        csupwd \<leftarrow> c_password P (fr + 2) supwd;
        (len, to, s) \<leftarrow> rsa_decrypt P H S key_type (int out_len) bin_out (local_array P 1024 fr) csupwd
          ((lib p)\<lparr>frames := fr + 5\<rparr>);
        let p1 = p\<lparr>lib := s\<rparr>;
        if len = - 1 then Some ([], p1)
        else if len < 0 then None
        else do {
          to1 \<leftarrow> wr to (nat len) 0;
          r \<leftarrow> c_string to1;
          Some (r, p1) } })"

text \<open>
  \<open>new char[n]\<close>: a block of \<open>n\<close> bytes, behind which \<open>heap_pad\<close> further bytes can be written without anybody noticing.
  The blocks of \<open>GetSignature\<close> and \<open>VerifySignature\<close> have no room for the zero that \<open>strcpy\<close> adds.
\<close>

definition new_array :: "platform \<Rightarrow> nat \<Rightarrow> nat \<Rightarrow> nat \<Rightarrow> byte list" where
  "new_array P heap_pad n fr = map (junk P fr) [0..<n + heap_pad]"

definition GetSignature ::
    "platform \<Rightarrow> 'h hidapi \<Rightarrow> openssl \<Rightarrow> nat \<Rightarrow> int \<Rightarrow> byte list \<Rightarrow> byte list \<Rightarrow> 'h plugin \<Rightarrow>
      (byte list \<times> 'h plugin) option" where
  "GetSignature P H S heap_pad typ message supwd p =
     (if get_TkErr p \<noteq> nErr_OK then Some ([], p)
      else do {
        let fr = frames (lib p);
        m \<leftarrow> strcpy (new_array P heap_pad (length message) (fr + 3)) message;
        csupwd \<leftarrow> c_password P (fr + 2) supwd;
        (stat, sigret, siglen, s) \<leftarrow> get_signature P H S typ m (length message) (local_array P 1024 fr)
          (uint (junk P (fr + 4) 0)) csupwd ((lib p)\<lparr>frames := fr + 5\<rparr>);
        let p1 = p\<lparr>lib := s, new_blocks := new_blocks p + 1\<rparr>;
        if stat \<noteq> nErr_OK then Some ([], p1)
        else do {
          (outlen, hex_out) \<leftarrow> bin2hex siglen sigret (local_array P 1024 (fr + 1));
          hex_out1 \<leftarrow> wr hex_out outlen 0;
          r \<leftarrow> c_string hex_out1;
          Some (r, p1\<lparr>new_blocks := new_blocks p1 - 1\<rparr>) } })"

text \<open>\<open>bin_out\<close> is an array of \<open>siglen/2\<close> bytes on the stack.\<close>

definition VerifySignature ::
    "platform \<Rightarrow> 'h hidapi \<Rightarrow> openssl \<Rightarrow> nat \<Rightarrow> int \<Rightarrow> byte list \<Rightarrow> byte list \<Rightarrow> 'h plugin \<Rightarrow> (int \<times> 'h plugin) option" where
  "VerifySignature P H S heap_pad typ message signature p =
     (if get_TkErr p \<noteq> nErr_OK then Some (- 1, p)
      else do {
        let fr = frames (lib p);
        m \<leftarrow> strcpy (new_array P heap_pad (length message) fr) message;
        sig \<leftarrow> strcpy (new_array P heap_pad (length signature) (fr + 1)) signature;
        (out_len, bin_out) \<leftarrow> hex2bin (junk P (fr + 2)) (int_length signature) sig
          (local_array P (length signature div 2) (fr + 3));
        (stat, s) \<leftarrow> verify_signature P H S typ m (length message) bin_out out_len ((lib p)\<lparr>frames := fr + 4\<rparr>);
        Some (stat, p\<lparr>lib := s\<rparr>) })"

section \<open>What a page can do\<close>

text \<open>One use of the object by a script, with its arguments; the result is left out.\<close>

datatype page_call =
  Call_echo | Call_testEvent | Call_GetToken | Call_GetDeviceCount | Call_GetPublicKey
| Call_RsaEncrypt int "byte list" "byte list" | Call_RsaDecrypt int "byte list" "byte list"
| Call_GetSignature int "byte list" "byte list" | Call_VerifySignature int "byte list" "byte list"
| Call_get_serial | Call_get_TkErr | Call_set_testString "byte list"

definition page_step ::
    "platform \<Rightarrow> 'h hidapi \<Rightarrow> openssl \<Rightarrow> nat \<Rightarrow> page_call \<Rightarrow> 'h plugin \<Rightarrow> 'h plugin option" where
  "page_step P H S heap_pad c p =
     (case c of
        Call_echo \<Rightarrow> map_option snd (echo () p)
      | Call_testEvent \<Rightarrow> Some (testEvent p)
      | Call_GetToken \<Rightarrow> GetToken P H p
      | Call_GetDeviceCount \<Rightarrow> map_option snd (GetDeviceCount H p)
      | Call_GetPublicKey \<Rightarrow> map_option snd (GetPublicKey P H S p)
      | Call_RsaEncrypt kt from pwd \<Rightarrow> map_option snd (RsaEncrypt P H S kt from pwd p)
      | Call_RsaDecrypt kt from pwd \<Rightarrow> map_option snd (RsaDecrypt P H S kt from pwd p)
      | Call_GetSignature typ m pwd \<Rightarrow> map_option snd (GetSignature P H S heap_pad typ m pwd p)
      | Call_VerifySignature typ m sig \<Rightarrow> map_option snd (VerifySignature P H S heap_pad typ m sig p)
      | Call_get_serial \<Rightarrow> map_option (\<lambda>r. p) (serial_property p)
      | Call_get_TkErr \<Rightarrow> Some p
      | Call_set_testString v \<Rightarrow> Some (set_testString v p))"

fun page_run ::
    "platform \<Rightarrow> 'h hidapi \<Rightarrow> openssl \<Rightarrow> nat \<Rightarrow> page_call list \<Rightarrow> 'h plugin \<Rightarrow> 'h plugin option" where
  "page_run P H S hp [] p = Some p"
| "page_run P H S hp (c # cs) p = do { p1 \<leftarrow> page_step P H S hp c p; page_run P H S hp cs p1 }"

end
