(* ===== verification/LibraryProps.thy ===== *)
theory LibraryProps
  imports SessionProps
begin

text \<open>
  Signatures and the PEM export in a session; then what holds of the public functions of
  \<^verbatim>\<open>novinlib.c\<close> over the libusb implementation of HIDAPI whatever is plugged in and whichever call fails:
  the invariant of the library, the error codes, and the calls that have no defined behaviour.
\<close>

section \<open>Signatures\<close>

text \<open>\<open>lost_works k\<close>: as \<open>works\<close>, but \<open>k\<close> BIGNUMs have not been freed.\<close>

definition lost_works :: "int \<Rightarrow> ust nst \<Rightarrow> ust nst \<Rightarrow> bool" where
  "lost_works k s s' \<longleftrightarrow> works s (lost k s')"

definition signs :: "openssl \<Rightarrow> int \<Rightarrow> rsa_key \<Rightarrow> rsa_key \<Rightarrow> byte list \<Rightarrow> byte list \<Rightarrow> bool" where
  "signs S typ priv pub digest sig \<longleftrightarrow>
     ssl_RSA_sign S typ digest priv = (1, sig) \<and> ssl_RSA_verify S typ digest sig pub = 1"

text \<open>
  C17. In a session with a token whose status shows no blocking bit, \<open>get_signature\<close> writes OpenSSL's
  signature of the SHA-1 of the message under the token's private key, \<open>verify_signature\<close> accepts it, and each signature leaks
  exactly three BIGNUMs.
\<close>

theorem session_signature:
  assumes "plugged P E ser (lo, hi) key" "usb_inv (hid s)" "good_stack P" "openssl_succeeds S"
    and "status_outcome hi = nErr_OK" "holds_public key Ke N"
    and "holds_private key (take 16 pwd) D N" "16 \<le> length pwd"
    and "signs S typ (rsa_value Ke N (Some D)) (rsa_value Ke N None) (ssl_SHA1 S m) sig"
    and "length sig \<le> length sigret"
  shows "\<exists>s1 s2 s3. session P (libusb_backend E) ser s = Some s1 \<and>
    get_signature P (libusb_backend E) S typ m (length m) sigret siglen pwd s1
      = Some (nErr_OK, sig @ drop (length sig) sigret, int (length sig), s2) \<and> lost_works 3 s s2 \<and>
    verify_signature P (libusb_backend E) S typ m (length m) (sig @ drop (length sig) sigret) (length sig) s2
      = Some (nErr_OK, s3) \<and> lost_works 3 s s3"
proof -
  note a = plugged_attached [OF assms(1)]
  obtain s1 where s1: "session P (libusb_backend E) ser s = Some s1" "in_session usb_inv ser s1"
    "quiet s (retoken s s1)"
    using plugged_session [OF assms(1,2)] by blast
  have st: "status_error (uint hi * 256 + uint lo) = nErr_OK" using assms(5) by (simp add: status_outcome_eq)
  have sg: "ssl_RSA_sign S typ (ssl_SHA1 S m) (rsa_value Ke N (Some D)) = (1, sig)"
    "ssl_RSA_verify S typ (ssl_SHA1 S m) sig (rsa_value Ke N None) = 1"
    using assms(9) by (simp_all add: signs_def)
  obtain s2 where s2: "get_signature P (libusb_backend E) S typ m (length m) sigret siglen pwd s1
      = Some (nErr_OK, sig @ drop (length sig) sigret, int (length sig), s2)"
    "in_session usb_inv ser s2" "quiet s1 (lost 3 s2)"
    using sign_ok [OF a s1(2) assms(3,4) st assms(6-8), of "length m" m "typ" sig sigret siglen] sg(1) assms(10) by auto
  let ?sig = "sig @ drop (length sig) sigret"
  have le: "length sig \<le> length ?sig" by simp
  obtain s3 where s3: "verify_signature P (libusb_backend E) S typ m (length m) ?sig (length sig) s2 = Some (nErr_OK, s3)"
    "in_session usb_inv ser s3" "quiet s2 s3"
    using verify_ok [OF a s2(2) assms(3,4) st assms(6) _ le, of "length m" m "typ"] sg(2) by auto
  have "lost_works 3 s t" if "in_session usb_inv ser t" "quiet s1 (lost 3 t)" for t
    using that s1(3) by (simp add: lost_works_def works_def in_session_def lost_def quiet_def retoken_def)
  moreover have "quiet s1 (lost 3 s3)" using s2(3) s3(3) by (simp add: quiet_def lost_def)
  ultimately show ?thesis using s1(1) s2 s3(1,2) by blast
qed

theorem session_signature_witness:
  "\<exists>s1 s2. session example_platform (libusb_backend (example_usb (0, 8))) example_ser example_start = Some s1 \<and>
    get_signature example_platform (libusb_backend (example_usb (0, 8))) example_ssl 64 [1, 2] 2 (replicate 128 0) 0
      example_pwd s1 = Some (nErr_OK, [1, 2] @ replicate 126 0, 20, s2) \<and> lost_works 3 example_start s2"
proof -
  define m :: "byte list" where "m = [1, 2]"
  define sig :: "byte list" where "sig = [1, 2] @ replicate 18 0"
  have len: "length m = 2" "length sig = 20" by (simp_all add: m_def sig_def)
  have out: "sig @ drop 20 (replicate 128 0) = [1, 2] @ replicate 126 0"
    by (simp add: sig_def flip: replicate_add)
  have sg: "signs example_ssl 64 p q (ssl_SHA1 example_ssl m) sig" for p q
    by (simp add: signs_def example_ssl_def m_def sig_def)
  have st: "status_outcome 8 = nErr_OK" "length sig \<le> length (replicate 128 (0::byte))"
    by (code_simp, simp add: len)
  show ?thesis
    using session_signature [OF example_plugged [of "(0, 8)"] example_start_ok(1) example_ok(4,5) st(1)
        example_ok(7-9) sg st(2), of 0] unfolding len out m_def by (auto simp: numeral_2_eq_2)
qed

section \<open>PEM text\<close>

text \<open>
  In a session \<open>get_public_key\<close> returns the PEM text of the token's public key as a string of its
  own, and leaves neither its temporary file nor an open stream behind.
\<close>

theorem session_public_pem:
  assumes "plugged P E ser status key" "usb_inv (hid s)" "good_stack P" "openssl_succeeds S"
    and "holds_public key Ke N" "ssl_PEM_public S (rsa_value Ke N None) = Some pem"
  shows "\<exists>s1 s2. session P (libusb_backend E) ser s = Some s1 \<and>
    get_public_key P (libusb_backend E) S s1 = Some (Heap (pem @ [0]), s2) \<and> LAST_ERR_NO s2 = nErr_OK \<and>
    files s2 = (files s)(''/tmp/public.txt'' := None) \<and> streams s2 = streams s \<and> bignums s2 = bignums s"
proof -
  obtain s1 where s1: "session P (libusb_backend E) ser s = Some s1" "in_session usb_inv ser s1"
    "quiet s (retoken s s1)"
    using plugged_session [OF assms(1,2)] by blast
  then show ?thesis
    using public_pem_ok [OF plugged_attached [OF assms(1)] s1(2) assms(3-6)]
    by (auto simp: quiet_def retoken_def)
qed

theorem session_public_pem_witness:
  "\<exists>s1 s2. session example_platform (libusb_backend (example_usb (0, 0))) example_ser example_start = Some s1 \<and>
    get_public_key example_platform (libusb_backend (example_usb (0, 0))) example_ssl s1 = Some (Heap [65, 66, 0], s2)"
  using session_public_pem [OF example_plugged [of "(0, 0)"] example_start_ok(1) example_ok(4,5,7), of "[65, 66]"]
  by (fastforce simp: example_ssl_def)

text \<open>
  If OpenSSL writes no PEM text for a private key without private exponent, \<open>get_private_key\<close>
  cannot succeed with any token: it puts the exponent into the wrong field, and each call that
  gets as far as the file leaves an empty \<^verbatim>\<open>/tmp/private.txt\<close> and an open stream, and returns an
  uninitialised pointer.
\<close>

theorem private_pem_fails:
  assumes "\<forall>k. rsa_d k = None \<longrightarrow> ssl_PEM_private S k = None" "usb_inv (hid s)"
    and "get_private_key P (libusb_backend E) S pwd s = Some (buff, s')"
  shows "LAST_ERR_NO s' \<noteq> nErr_OK \<and> buff = Indeterminate \<and>
    (files s' = files s \<and> streams s' = streams s \<or>
     files s' = (files s)(''/tmp/private.txt'' := Some []) \<and> streams s' = streams s + 1)"
proof -
  have k: "kept usb_inv usb_held s s" using assms(2) by simp
  have "exported ''/tmp/private.txt'' (ssl_PEM_private S) False s buff s'"
    using postD [OF usbcall.get_private_key_frame [OF k] assms(3)] by simp
  then show ?thesis
    using assms(1) by (auto simp: exported_def pem_outcome_def error_codes_neq [symmetric])
qed

theorem private_pem_fails_witness:
  "\<exists>buff s'. get_private_key (example_platform\<lparr>past_tk := Some 0\<rparr>) (libusb_backend example_busy) example_ssl
      example_pwd example_start = Some (buff, s') \<and> buff = Indeterminate \<and> LAST_ERR_NO s' \<noteq> nErr_OK"
proof -
  have "get_private_key (example_platform\<lparr>past_tk := Some 0\<rparr>) (libusb_backend example_busy) example_ssl
      example_pwd example_start \<noteq> None"
    by code_simp
  then obtain buff s' where g: "get_private_key (example_platform\<lparr>past_tk := Some 0\<rparr>) (libusb_backend example_busy)
      example_ssl example_pwd example_start = Some (buff, s')" by auto
  have "\<forall>k. rsa_d k = None \<longrightarrow> ssl_PEM_private example_ssl k = None" by (simp add: example_ssl_def)
  from private_pem_fails [OF this example_start_ok(1) g] show ?thesis using g by blast
qed

section \<open>Every call, every failure\<close>

text \<open>
  C4. Whatever sequence of public functions an application calls, with whatever arguments and
  whichever libusb and OpenSSL calls fail, as long as the calls return: the handles open in libusb are those
  that were open before, no device is left over, the structures behind hidapi stay consistent, at most the first entry of \<open>tk\<close> is in
  use, and it is selected only when it is in use.
\<close>

theorem library_invariant:
  assumes "lib_start h s" "usb_inv h" "lib_reach P (libusb_backend E) S s s'"
  shows "usb_inv (hid s') \<and> usb_live (hid s') = usb_live h \<and> handles (hid s') = handles h \<and> session_ok (tk s')"
proof -
  have "session_ok (tk s)" "hid s = h" using assms(1) session_ok_zero by (simp_all add: lib_start_def)
  then show ?thesis using hid_backend.lib_reach_keeps [OF usb.hid_backend_axioms assms(3)] assms(2) by (simp add: usb_held_def)
qed

theorem library_invariant_witness:
  "\<exists>s1 s'. session example_platform (libusb_backend (example_usb (0, 8))) example_ser example_start = Some s1 \<and>
    selected (tk s1 ! 0) \<noteq> 0 \<and> usb_live (hid s1) = {} \<and> handles (hid s1) = Map.empty \<and> session_ok (tk s1)"
proof -
  obtain s1 where s1: "session example_platform (libusb_backend (example_usb (0, 8))) example_ser example_start = Some s1"
    "in_session usb_inv example_ser s1"
    using plugged_session [OF example_plugged [of "(0, 8)"] example_start_ok(1)] by blast
  then obtain s0 where
    s: "get_first_device example_platform (libusb_backend (example_usb (0, 8))) example_start = Some s0"
      "select_device example_platform (libusb_backend (example_usb (0, 8))) example_ser s0 = Some s1"
    unfolding session_def by (elim bind_SomeE)
  have r: "lib_reach example_platform (libusb_backend (example_usb (0, 8))) example_ssl example_start s1"
    using reach_step [OF reach_step [OF reach_start step_first [OF s(1)]] step_select [OF s(2)]] by simp
  show ?thesis
    using s1 library_invariant [OF example_start_ok(3) example_start_ok(1) r] example_start_ok(2)
    by (simp add: in_session_def) (simp add: example_start_def)
qed

text \<open>
  \<open>get_device_status\<close> returns what it records, one of six codes: it never reports an I/O error,
  an error of the token, or OpenSSL trouble, on any path.
\<close>

theorem status_code_range:
  assumes "usb_inv (hid s)" "get_device_status P (libusb_backend E) s = Some (err, s')"
  shows "LAST_ERR_NO s' = err \<and> err \<in> {nErr_OK, nErr_DNF, nErr_DNS, nErr_CAT, nErr_BLK, nErr_DIS} \<and>
    quiet s s' \<and> usb_live (hid s') = usb_live (hid s)"
  using hid_backend.get_device_status_frame [OF usb.hid_backend_axioms assms] by (auto simp: status_codes_def usb_held_def)

theorem status_code_range_witness:
  "\<exists>s1 s2. session example_platform (libusb_backend example_busy) example_ser example_start = Some s1 \<and>
    get_device_status example_platform (libusb_backend example_busy) s1 = Some (nErr_OK, s2) \<and>
    LAST_ERR_NO s2 = nErr_OK \<and> quiet s1 s2"
proof -
  have l: "listed_bus example_busy example_dev example_alt hex_char example_ser"
    using example_busy_bus by (simp add: busy_bus_def)
  note p = listed_present [OF l example_ok(1-3)]
  obtain s1 where s1: "session example_platform (libusb_backend example_busy) example_ser example_start = Some s1"
    "in_session usb_inv example_ser s1"
    using session_starts [OF p example_start_ok(1)] by blast
  obtain s2 where s2: "get_device_status example_platform (libusb_backend example_busy) s1 = Some (nErr_OK, s2)"
    using refused_calls(1) [OF p busy_refuses [OF example_busy_bus] s1(2)] by blast
  show ?thesis
    using s1(1) s2 status_code_range [OF in_session_ready [OF s1(2)] s2] by blast
qed

text \<open>
  \<open>rsa_encrypt\<close> and \<open>rsa_decrypt\<close>: on every path the result is -1 exactly when an error is
  recorded in \<open>LAST_ERR_NO\<close>, nothing leaks, and the open devices are those of before.
\<close>

theorem rsa_result_code:
  assumes "openssl_documented S" "usb_inv (hid s)"
    and "rsa_encrypt P (libusb_backend E) S kt flen from to pwd s = Some (tlen, to', s') \<or>
         rsa_decrypt P (libusb_backend E) S kt flen from to pwd s = Some (tlen, to', s')"
  shows "- 1 \<le> tlen \<and> (tlen = - 1 \<longleftrightarrow> LAST_ERR_NO s' \<noteq> nErr_OK) \<and> quiet s s' \<and>
    usb_live (hid s') = usb_live (hid s)"
proof -
  have k: "kept usb_inv usb_held s s" using assms(2) by simp
  note f = usbcall.rsa_crypt_frame [OF k, THEN postD]
  show ?thesis
    using assms(3) f assms(1) unfolding rsa_encrypt_def rsa_decrypt_def by (fastforce simp: kept_def usb_held_def)
qed

theorem rsa_result_code_witness:
  "\<exists>s s' to'. rsa_encrypt example_platform (libusb_backend (example_usb (0, 8))) example_ssl 7 0 [] [] [] s
      = Some (- 1, to', s') \<and> LAST_ERR_NO s' = nErr_INVKT \<and> quiet s s'"
proof -
  obtain s where s: "in_session usb_inv example_ser s"
    using plugged_session [OF example_plugged [of "(0, 8)"] example_start_ok(1)] by blast
  have sw: "\<And>s. in_session usb_inv example_ser s \<Longrightarrow>
      \<exists>s'. rsa_switch example_platform (libusb_backend (example_usb (0, 8))) example_ssl RSA_public_encrypt
        RSA_private_encrypt 7 0 [] [] [] s = Some (crypt_error (- 1), - 1, [], empty_rsa, s') \<and>
      in_session usb_inv example_ser s' \<and> quiet s (RSA_free empty_rsa s')"
    by (simp add: rsa_switch_def crypt_error_def quiet_def)
  obtain s' where s': "rsa_encrypt example_platform (libusb_backend (example_usb (0, 8))) example_ssl 7 0 [] [] [] s
      = Some (- 1, [], s')" "LAST_ERR_NO s' = crypt_error (- 1)"
    using rsa_crypt_ok [OF plugged_attached [OF example_plugged [of "(0, 8)"]] s example_ok(5) example_usable sw]
    unfolding rsa_encrypt_def by blast
  have "quiet s s'"
    using rsa_result_code [OF example_ok(6) in_session_ready [OF s] disjI1 [OF s'(1)]] by blast
  then show ?thesis using s' by (auto simp: crypt_error_def)
qed

section \<open>Calls without a defined outcome\<close>

text \<open>
  \<open>result[128]\<close> is four bytes short of what reading a key writes to: unless the stack behind it is
  addressable, no call that reads a key can end in success, whatever the token answers.
\<close>

theorem key_reading_needs_stack:
  assumes "stack_pad P < 4" "usb_inv (hid s)"
  shows "(\<forall>out' ex' s'. novin_get_public_key P (libusb_backend E) out ex s \<noteq> Some (nErr_OK, out', ex', s')) \<and>
    (\<forall>out' ex' s'. novin_get_private_key P (libusb_backend E) out ex pwd s \<noteq> Some (nErr_OK, out', ex', s')) \<and>
    (\<forall>tlen to' s'. rsa_encrypt P (libusb_backend E) S kt flen from to pwd s = Some (tlen, to', s') \<longrightarrow>
      LAST_ERR_NO s' \<noteq> nErr_OK) \<and>
    (\<forall>tlen to' s'. rsa_decrypt P (libusb_backend E) S kt flen from to pwd s = Some (tlen, to', s') \<longrightarrow>
      LAST_ERR_NO s' \<noteq> nErr_OK)"
proof -
  have k: "kept usb_inv usb_held s s" using assms(2) by simp
  note f = hid_backend.key_calls_frame [OF usb.hid_backend_axioms assms(2)]
  note g = usbcall.rsa_crypt_frame [OF k, THEN postD]
  have "\<forall>out' ex' s'. novin_get_public_key P (libusb_backend E) out ex s \<noteq> Some (nErr_OK, out', ex', s')"
    using f(1) [of P E out ex nErr_OK] assms(1) by (fastforce simp: const_simps)
  moreover have "\<forall>out' ex' s'. novin_get_private_key P (libusb_backend E) out ex pwd s \<noteq> Some (nErr_OK, out', ex', s')"
    using f(2) [of P E out ex pwd nErr_OK] assms(1) by (fastforce simp: const_simps)
  moreover have "\<forall>tlen to' s'. rsa_crypt P (libusb_backend E) S po qo kt flen from to pwd s = Some (tlen, to', s') \<longrightarrow>
      LAST_ERR_NO s' \<noteq> nErr_OK" for po qo
    using g assms(1) by fastforce
  ultimately show ?thesis by (simp add: rsa_encrypt_def rsa_decrypt_def)
qed

theorem key_reading_needs_stack_witness:
  "\<forall>out' ex' s'. novin_get_public_key (example_platform\<lparr>stack_pad := 3\<rparr>) (libusb_backend (example_usb (0, 8)))
    (replicate 128 0) (replicate 128 0) example_start \<noteq> Some (nErr_OK, out', ex', s')"
  using key_reading_needs_stack [of "example_platform\<lparr>stack_pad := 3\<rparr>" example_start] example_start_ok(1)
  by (simp add: example_platform_def)

text \<open>
  \<open>get_first_device\<close> stores a serial per enumerated device in \<open>tk[8]\<close> without a bound: with more than
  eight devices attached it writes past the array, over every implementation of HIDAPI.
\<close>

theorem too_many_devices:
  assumes "api_enumerate H VID PID (hid s) = Some (devs, h)" "8 < length devs"
  shows "get_first_device P H s = None"
proof -
  have ne: "devs \<noteq> []" using assms(2) by auto
  have "store_serials P devs 0 (frames s) zero_tk = None"
  proof (rule ccontr)
    assume "store_serials P devs 0 (frames s) zero_tk \<noteq> None"
    then obtain tks fr where "store_serials P devs 0 (frames s) zero_tk = Some (tks, fr)" by auto
    from store_serials_frame [OF this] show False
      using assms(2) ne by (simp add: zero_tk_def const_simps)
  qed
  then show ?thesis using assms(1) ne by (simp add: get_first_device_def)
qed

definition crowded :: "ust hidapi" where
  "crowded = (libusb_backend (example_usb (0, 8)))\<lparr>api_enumerate := (\<lambda>v p h.
     Some (replicate 9 (token_info example_dev example_alt (Some (serial_string hex_char example_ser)) None None), h))\<rparr>"

theorem too_many_devices_witness: "get_first_device example_platform crowded example_start = None"
  using too_many_devices [of crowded example_start] by (simp add: crowded_def)

text \<open>
  \<open>select_device\<close> does not look for the serial it is given: when another token than the one found by
  \<open>get_first_device\<close> is plugged in and its serial is passed, the call succeeds and it is the entry with
  the old serial that is marked selected.
\<close>

theorem select_other_token:
  assumes "plugged P E ser status key" "usb_inv (hid s)" "active_token old (tk s)"
  shows "\<exists>s'. select_device P (libusb_backend E) ser s = Some s' \<and> LAST_ERR_NO s' = nErr_OK \<and>
    selected (tk s' ! 0) \<noteq> 0 \<and> serial (tk s' ! 0) = old"
proof -
  obtain s1 where c: "check_dev_connected P (libusb_backend E) ser s = Some (nErr_OK, s1)" "quiet s s1"
    using check_connected_ok [OF attached_present [OF plugged_attached [OF assms(1)]] assms(2)] by blast
  have t: "tk s1 = tk s" using c(2) by (simp add: quiet_def)
  have ne: "tk s \<noteq> []" using assms(3) by (auto simp: active_token_def dest: tk_ok_length)
  have "select_device P (libusb_backend E) ser s =
      Some (set_err nErr_OK (s1\<lparr>tk := (tk s)[0 := (tk s ! 0)\<lparr>selected := 1\<rparr>]\<rparr>))"
    using active_token_GET [OF assms(3), of "past_tk P"] active_token_at [OF assms(3)] c(1) ne
    by (simp add: select_device_def t const_simps wr_def)
  then show ?thesis using assms(3) ne by (simp add: active_token_def)
qed

theorem select_other_token_witness:
  "\<exists>s s'. serial (tk s ! 0) = [1, 2, 3, 4] \<and>
    select_device example_platform (libusb_backend (example_usb (0, 8))) [0x5b, 0, 2, 0x6e] s = Some s' \<and>
    selected (tk s' ! 0) \<noteq> 0 \<and> serial (tk s' ! 0) = [1, 2, 3, 4]"
proof -
  let ?t = "zero_token\<lparr>serial := [1, 2, 3, 4], inUse := 1\<rparr>"
  let ?s = "example_start\<lparr>tk := ?t # replicate 7 zero_token\<rparr>"
  have a: "active_token [1, 2, 3, 4] (tk ?s)"
    by (simp add: active_token_def tk_ok_def const_simps list_all_iff zero_token_def)
  have "usb_inv (hid ?s)" using example_start_ok(1) by simp
  from select_other_token [OF example_plugged [of "(0, 8)"] this a]
  obtain s' where "select_device example_platform (libusb_backend (example_usb (0, 8))) example_ser ?s = Some s'"
    "selected (tk s' ! 0) \<noteq> 0" "serial (tk s' ! 0) = [1, 2, 3, 4]"
    by blast
  then show ?thesis unfolding example_ser_def by (intro exI [of _ ?s] exI [of _ s']) simp
qed

text \<open>
  Before any token has been found, \<open>GET_ACTIVE_TOKEN\<close> reads \<open>tk[8].inUse\<close>, one entry behind the
  array: the calls report "no device" where that happens to read zero, and have no defined
  outcome otherwise.
\<close>

theorem no_token_found:
  assumes "lib_start h s"
  shows "get_device_status P H s = (if past_tk P = Some 0 then Some (nErr_DNF, set_err nErr_DNF s) else None) \<and>
    get_curr_dev_serial P H buf s = (if past_tk P = Some 0 then Some (buf, set_err nErr_DNF s) else None) \<and>
    rsa_encrypt P H S kt flen from to pwd s =
      (if past_tk P = Some 0 then Some (- 1, to, set_err nErr_DNF (set_err nErr_DNF s)) else None)"
proof -
  have t: "tk s = zero_tk" using assms by (simp add: lib_start_def)
  have z: "\<forall>t\<in>set zero_tk. inUse t = 0" by (simp add: zero_tk_def zero_token_def)
  have g: "GET_ACTIVE_TOKEN (past_tk P) (tk s) = map_option (\<lambda>u. if u = 0 then -1 else 8) (past_tk P)"
    unfolding t by (rule GET_ACTIVE_TOKEN_none [OF zero_tk_ok z])
  have n: "tok_at (tk s) 8 = None"
    unfolding t by (simp add: tok_at_def rd_def zero_tk_def const_simps)
  have st: "get_device_status P H s = (if past_tk P = Some 0 then Some (nErr_DNF, set_err nErr_DNF s) else None)"
    using g n by (cases "past_tk P") (simp_all add: get_device_status_def const_simps)
  moreover have "get_curr_dev_serial P H buf s = (if past_tk P = Some 0 then Some (buf, set_err nErr_DNF s) else None)"
    using g n by (cases "past_tk P") (simp_all add: get_curr_dev_serial_def const_simps)
  ultimately show ?thesis by (simp add: rsa_encrypt_def rsa_crypt_def const_simps)
qed

theorem no_token_found_witness:
  "get_device_status example_platform (libusb_backend (example_usb (0, 8))) example_start = None"
  using no_token_found [OF example_start_ok(3), of example_platform] by (simp add: example_platform_def)

end
