(* ===== verification/PluginProps.thy ===== *)
theory PluginProps
  imports FumPlugin LibraryProps
begin

text \<open>
  What a page gets from the plugin, over the token library, HIDAPI and libusb; and what holds of it whatever is plugged in.
\<close>

section \<open>Local arrays\<close>

lemma int_length_small: "length s < 2 ^ 31 \<Longrightarrow> int_length s = int (length s)"
  by (simp add: int_length_def signed_take_bit_int_eq_self)

text \<open>The sixteen bytes of the password that reach the token.\<close>

definition password16 :: "byte list \<Rightarrow> byte list" where
  "password16 pwd = take 16 (cstr pwd @ replicate 16 0)"

lemma length_password16 [simp]: "length (password16 pwd) = 16"
  by (simp add: password16_def)

lemma c_password_some:
  "c_password P fr pwd = Some (password16 pwd @ drop 16 (local_array P 16 fr))"
  by (simp add: c_password_def memset0_some strncpy_some password16_def)

lemma cleared_copy:
  assumes "length (cstr src) < n"
  shows "Option.bind (memset0 (local_array P n fr) n) (\<lambda>a. Option.bind (strcpy a src) f) =
    f (cstr src @ 0 # drop (length (cstr src) + 1) (replicate n 0 @ drop n (local_array P n fr)))"
  using assms by (simp add: memset0_some strcpy_some)

section \<open>One call at a time\<close>

lemma GetToken_ok:
  assumes "present P H ready ser" "ready (hid (lib p))" "get_TkErr p = nErr_OK" "length (dev_serial p) = 4"
  shows "\<exists>p1. GetToken P H p = Some p1 \<and> in_session ready ser (lib p1) \<and> get_TkErr p1 = nErr_OK \<and>
    dll_load_stat p1 = nErr_OK \<and> dev_serial p1 = ser"
proof -
  have d: "dll_load_stat p = nErr_OK"
    using assms(3) by (auto simp: get_TkErr_def nErr_DLL_def nErr_OK_def split: if_splits)
  obtain s1 where f: "get_first_device P H (lib p) = Some s1" "ready (hid s1)" "active_token ser (tk s1)"
    "LAST_ERR_NO s1 = nErr_OK"
    using first_device_ok [OF assms(1,2)] by blast
  have b: "4 \<le> length (dev_serial p)" using assms(4) by simp
  obtain s2 where g: "get_curr_dev_serial P H (dev_serial p) s1 = Some (ser @ drop 4 (dev_serial p), s2)"
    "ready (hid s2)" "quiet s1 s2" "LAST_ERR_NO s2 = nErr_OK"
    using current_serial_ok [OF assms(1) f(2,3) b] by blast
  have a2: "active_token ser (tk s2)" using f(3) g(3) by (simp add: quiet_def)
  obtain s3 where h: "select_device P H ser s2 = Some s3" "in_session ready ser s3" "LAST_ERR_NO s3 = nErr_OK"
    using select_device_ok [OF assms(1) g(2) a2] by blast
  show ?thesis
    using f g h assms(3,4) d by (simp add: GetToken_def get_TkErr_def get_err_no_def)
qed

lemma in_session_frames [simp]: "in_session ready ser (s\<lparr>frames := n\<rparr>) = in_session ready ser s"
  by (simp add: in_session_def)

lemma RsaEncrypt_ok:
  assumes "attached P H ready ser (lo, hi) key" "in_session ready ser (lib p)" "good_stack P" "openssl_succeeds S"
    and "usable (uint hi * 256 + uint lo)" "holds_public key Ke N" "get_TkErr p = nErr_OK"
    and "ssl_RSA_crypt S RSA_public_encrypt (int (length m)) m (rsa_value Ke N None) = (128, c)" "length c = 128"
    and "0 \<notin> set m" "length m < 1024"
  shows "\<exists>s. RsaEncrypt P H S 1 m pwd p = Some (hex_text c, p\<lparr>lib := s\<rparr>) \<and> in_session ready ser s \<and>
    LAST_ERR_NO s = nErr_OK"
proof -
  let ?fr = "frames (lib p)" and ?s = "(lib p)\<lparr>frames := frames (lib p) + 4\<rparr>"
  let ?to = "local_array P 1024 ?fr" and ?hex = "local_array P 1024 (?fr + 3)"
  define cf where "cf = m @ 0 # drop (length m + 1) (replicate 1024 0 @ drop 1024 (local_array P 1024 (?fr + 1)))"
  have call: "RSA_call S RSA_public_encrypt (int (length m)) cf ?to (rsa_value Ke N None) = Some (128, c @ drop 128 ?to)"
    using assms(8,9) by (simp add: RSA_call_def rd_block_def wr_block_def cf_def)
  have ins: "in_session ready ser ?s" using assms(2) by simp
  obtain s where s: "rsa_crypt P H S RSA_public_encrypt RSA_private_encrypt 1 (int (length m)) cf ?to
      (password16 pwd @ drop 16 (local_array P 16 (?fr + 2))) ?s = Some (128, c @ drop 128 ?to, s)"
    "in_session ready ser s" "LAST_ERR_NO s = crypt_error 128"
    using rsa_public_ok [OF assms(1) ins assms(3-6) call] by blast
  have hex: "bin2hex 128 (c @ drop 128 ?to) ?hex = Some (256, hex_text c @ drop 256 ?hex)"
    using bin2hex_eq [of 128 "c @ drop 128 ?to" ?hex] assms(9) by simp
  have "wr (hex_text c @ drop 256 ?hex) 256 0 = Some (hex_text c @ 0 # drop 257 ?hex)"
    using assms(9) Cons_nth_drop_Suc [of 256 ?hex, symmetric] by (simp add: wr_def list_update_append)
  moreover have "c_string (hex_text c @ 0 # drop 257 ?hex) = Some (hex_text c)"
    by (rule c_string_append_zero [OF hex_text_nonzero])
  ultimately have "RsaEncrypt P H S 1 m pwd p = Some (hex_text c, p\<lparr>lib := s\<rparr>)"
    using assms(7,10,11) s(1) hex
    by (simp add: RsaEncrypt_def cleared_copy c_password_some int_length_small rsa_encrypt_def cf_def Let_def)
  then show ?thesis using s(2,3) by (intro exI [of _ s]) (simp add: crypt_error_def)
qed

lemma RsaDecrypt_ok:
  assumes "attached P H ready ser (lo, hi) key" "in_session ready ser (lib p)" "good_stack P" "openssl_succeeds S"
    and "usable (uint hi * 256 + uint lo)" "holds_public key Ke N"
    and "holds_private key (password16 pwd) D N" "get_TkErr p = nErr_OK"
    and "ssl_RSA_crypt S RSA_private_decrypt 128 c (rsa_value Ke N (Some D)) = (int (length m), m)" "length c = 128"
    and "0 \<notin> set m" "length m < 1024"
  shows "\<exists>s. RsaDecrypt P H S 2 (hex_text c) pwd p = Some (m, p\<lparr>lib := s\<rparr>) \<and> in_session ready ser s \<and>
    LAST_ERR_NO s = nErr_OK"
proof -
  let ?fr = "frames (lib p)" and ?s = "(lib p)\<lparr>frames := frames (lib p) + 5\<rparr>"
  let ?to = "local_array P 1024 ?fr" and ?bin = "local_array P 1024 (?fr + 3)"
  let ?pwd = "password16 pwd @ drop 16 (local_array P 16 (?fr + 2))"
  have z: "0 \<notin> set (hex_text c)" by (rule hex_text_nonzero)
  define cf where "cf = drop 257 (replicate 1024 0 @ drop 1024 (local_array P 1024 (?fr + 1)))"
  have bin: "hex2bin (junk P (?fr + 4)) 256 (hex_text c @ 0 # cf) ?bin = Some (128, c @ drop 128 ?bin)"
    using hex2bin_eq [of c ?bin "junk P (?fr + 4)" "0 # cf"] assms(10) by simp
  have call: "RSA_call S RSA_private_decrypt 128 (c @ drop 128 ?bin) ?to (rsa_value Ke N (Some D)) =
      Some (int (length m), m @ drop (length m) ?to)"
    using assms(9,10,12) by (simp add: RSA_call_def rd_block_def wr_block_def)
  have ins: "in_session ready ser ?s" using assms(2) by simp
  have pw: "holds_private key (take 16 ?pwd) D N" "16 \<le> length ?pwd" using assms(7) by simp_all
  obtain s where s: "rsa_decrypt P H S 2 128 (c @ drop 128 ?bin) ?to ?pwd ?s =
      Some (int (length m), m @ drop (length m) ?to, s)"
    "LAST_ERR_NO s = crypt_error (int (length m))" "in_session ready ser s"
    using session_decrypt_aux [OF assms(1) ins assms(3-6) pw call] by blast
  have "wr (m @ drop (length m) ?to) (length m) 0 = Some (m @ 0 # drop (length m + 1) ?to)"
    using assms(12) Cons_nth_drop_Suc [of "length m" ?to, symmetric] by (simp add: wr_def list_update_append)
  moreover have "c_string (m @ 0 # drop (length m + 1) ?to) = Some m"
    by (rule c_string_append_zero [OF assms(11)])
  ultimately have "RsaDecrypt P H S 2 (hex_text c) pwd p = Some (m, p\<lparr>lib := s\<rparr>)"
    using assms(8,10) s(1) bin z
    by (simp add: RsaDecrypt_def cleared_copy c_password_some int_length_small cf_def Let_def)
  then show ?thesis using s(2,3) by (intro exI [of _ s]) (simp add: crypt_error_def)
qed

lemma new_array_strcpy:
  assumes "0 \<notin> set m" "1 \<le> heap_pad"
  shows "\<exists>r. strcpy (new_array P heap_pad (length m) fr) m = Some (m @ 0 # r)"
  using assms strcpy_some [of m "new_array P heap_pad (length m) fr"] by (simp add: new_array_def)

lemma GetSignature_ok:
  assumes "attached P H ready ser (lo, hi) key" "in_session ready ser (lib p)" "good_stack P" "openssl_succeeds S"
    and "status_error (uint hi * 256 + uint lo) = nErr_OK" "holds_public key Ke N"
    and "holds_private key (password16 pwd) D N" "get_TkErr p = nErr_OK"
    and "ssl_RSA_sign S typ (ssl_SHA1 S m) (rsa_value Ke N (Some D)) = (1, sig)" "length sig \<le> 511"
    and "0 \<notin> set m" "1 \<le> heap_pad"
  shows "\<exists>s. GetSignature P H S heap_pad typ m pwd p = Some (hex_text sig, p\<lparr>lib := s\<rparr>) \<and> in_session ready ser s \<and>
    LAST_ERR_NO s = nErr_OK"
proof -
  let ?fr = "frames (lib p)" and ?s = "(lib p)\<lparr>frames := frames (lib p) + 5\<rparr>"
  let ?sr = "local_array P 1024 ?fr" and ?hex = "local_array P 1024 (?fr + 1)" and ?n = "length sig"
  let ?pwd = "password16 pwd @ drop 16 (local_array P 16 (?fr + 2))"
  obtain r where m: "strcpy (new_array P heap_pad (length m) (?fr + 3)) m = Some (m @ 0 # r)"
    using new_array_strcpy [OF assms(11,12)] by blast
  have ins: "in_session ready ser ?s" using assms(2) by simp
  have pw: "holds_private key (take 16 ?pwd) D N" "16 \<le> length ?pwd" using assms(7) by simp_all
  have le: "length m \<le> length (m @ 0 # r)" "?n \<le> length ?sr" using assms(10) by simp_all
  have sg: "ssl_RSA_sign S typ (ssl_SHA1 S (take (length m) (m @ 0 # r))) (rsa_value Ke N (Some D)) = (1, sig)"
    using assms(9) by simp
  obtain s where s: "get_signature P H S typ (m @ 0 # r) (length m) ?sr (uint (junk P (?fr + 4) 0)) ?pwd ?s =
      Some (nErr_OK, sig @ drop ?n ?sr, int ?n, s)" "in_session ready ser s" "LAST_ERR_NO s = nErr_OK"
    using sign_ok [OF assms(1) ins assms(3-6) pw le(1) sg le(2)] by blast
  have hex: "bin2hex (int ?n) (sig @ drop ?n ?sr) ?hex = Some (2 * ?n, hex_text sig @ drop (2 * ?n) ?hex)"
    using bin2hex_eq [of ?n "sig @ drop ?n ?sr" ?hex] assms(10) by simp
  have "wr (hex_text sig @ drop (2 * ?n) ?hex) (2 * ?n) 0 = Some (hex_text sig @ 0 # drop (2 * ?n + 1) ?hex)"
    using assms(10) Cons_nth_drop_Suc [of "2 * ?n" ?hex, symmetric] by (simp add: wr_def list_update_append)
  moreover have "c_string (hex_text sig @ 0 # drop (2 * ?n + 1) ?hex) = Some (hex_text sig)"
    by (rule c_string_append_zero [OF hex_text_nonzero])
  ultimately have "GetSignature P H S heap_pad typ m pwd p = Some (hex_text sig, p\<lparr>lib := s\<rparr>)"
    using assms(8) s(1) hex m by (simp add: GetSignature_def c_password_some Let_def)
  then show ?thesis using s(2,3) by (intro exI [of _ s]) simp
qed

lemma VerifySignature_ok:
  assumes "attached P H ready ser (lo, hi) key" "in_session ready ser (lib p)" "good_stack P" "openssl_succeeds S"
    and "status_error (uint hi * 256 + uint lo) = nErr_OK" "holds_public key Ke N" "get_TkErr p = nErr_OK"
    and "length sig \<le> 511" "0 \<notin> set m" "1 \<le> heap_pad"
  shows "\<exists>s. VerifySignature P H S heap_pad typ m (hex_text sig) p =
      Some (if ssl_RSA_verify S typ (ssl_SHA1 S m) sig (rsa_value Ke N None) = 1 then nErr_OK else nErr_INSGN, p\<lparr>lib := s\<rparr>) \<and>
    in_session ready ser s"
proof -
  let ?fr = "frames (lib p)" and ?s = "(lib p)\<lparr>frames := frames (lib p) + 4\<rparr>" and ?n = "length sig"
  let ?bin = "local_array P ?n (?fr + 3)"
  obtain r where m: "strcpy (new_array P heap_pad (length m) ?fr) m = Some (m @ 0 # r)"
    using new_array_strcpy [OF assms(9,10)] by blast
  obtain q where q: "strcpy (new_array P heap_pad (length (hex_text sig)) (?fr + 1)) (hex_text sig) = Some (hex_text sig @ 0 # q)"
    using new_array_strcpy [OF hex_text_nonzero assms(10)] by blast
  have bin: "hex2bin (junk P (?fr + 2)) (2 * int ?n) (hex_text sig @ 0 # q) ?bin = Some (?n, sig @ drop ?n ?bin)"
    using hex2bin_eq [of sig ?bin] by simp
  have ins: "in_session ready ser ?s" using assms(2) by simp
  have le: "length m \<le> length (m @ 0 # r)" "?n \<le> length (sig @ drop ?n ?bin)" by simp_all
  obtain s where s: "verify_signature P H S typ (m @ 0 # r) (length m) (sig @ drop ?n ?bin) ?n ?s =
      Some (if ssl_RSA_verify S typ (ssl_SHA1 S m) sig (rsa_value Ke N None) = 1 then nErr_OK else nErr_INSGN, s)"
    "in_session ready ser s"
    using verify_ok [OF assms(1) ins assms(3-6) le, of "typ"] by auto
  have "int_length (hex_text sig) = 2 * int ?n" using assms(8) by (simp add: int_length_small)
  then have "VerifySignature P H S heap_pad typ m (hex_text sig) p =
      Some (if ssl_RSA_verify S typ (ssl_SHA1 S m) sig (rsa_value Ke N None) = 1 then nErr_OK else nErr_INSGN, p\<lparr>lib := s\<rparr>)"
    using assms(7) s(1) m q bin by (simp add: VerifySignature_def Let_def)
  then show ?thesis using s(2) by (intro exI [of _ s]) simp
qed

section \<open>After an error\<close>

text \<open>Every method looks at the last error first.\<close>

lemma locked_step:
  assumes "get_TkErr p \<noteq> nErr_OK" "page_step P H S hp c p = Some p'"
  shows "lib p' = lib p \<and> dll_load_stat p' = dll_load_stat p \<and> dev_serial p' = dev_serial p"
  using assms by (cases c) (auto simp: page_step_def echo_def testEvent_def GetToken_def GetDeviceCount_def
    GetPublicKey_def RsaEncrypt_def RsaDecrypt_def GetSignature_def VerifySignature_def set_testString_def
    split: if_splits)

lemma locked_run:
  "get_TkErr p \<noteq> nErr_OK \<Longrightarrow> page_run P H S hp cs p = Some p' \<Longrightarrow>
    lib p' = lib p \<and> dll_load_stat p' = dll_load_stat p \<and> dev_serial p' = dev_serial p"
proof (induction cs arbitrary: p)
  case (Cons c cs)
  then obtain p1 where p1: "page_step P H S hp c p = Some p1" "page_run P H S hp cs p1 = Some p'"
    by (auto elim: bind_SomeE)
  have e: "lib p1 = lib p" "dll_load_stat p1 = dll_load_stat p" "dev_serial p1 = dev_serial p"
    using locked_step [OF Cons.prems(1) p1(1)] by blast+
  then have "get_TkErr p1 \<noteq> nErr_OK" using Cons.prems(1) by (simp add: get_TkErr_def get_err_no_def split: if_splits)
  from Cons.IH [OF this p1(2)] show ?case unfolding e .
qed simp

text \<open>An unknown key type ends in an error although the token is there.\<close>

lemma RsaEncrypt_key_type:
  assumes "attached P H ready ser (lo, hi) key" "in_session ready ser (lib p)" "openssl_succeeds S"
    and "usable (uint hi * 256 + uint lo)" "get_TkErr p = nErr_OK" "kt \<noteq> 1" "kt \<noteq> 2" "length (cstr m) < 1024"
  shows "\<exists>p1. RsaEncrypt P H S kt m pwd p = Some ([], p1) \<and> get_TkErr p1 = nErr_INVKT"
proof -
  let ?fr = "frames (lib p)" and ?s = "(lib p)\<lparr>frames := frames (lib p) + 4\<rparr>"
  let ?to = "local_array P 1024 ?fr"
  define cf where "cf = cstr m @ 0 # drop (length (cstr m) + 1) (replicate 1024 0 @ drop 1024 (local_array P 1024 (?fr + 1)))"
  have d: "dll_load_stat p = nErr_OK"
    using assms(5) by (auto simp: get_TkErr_def nErr_DLL_def nErr_OK_def split: if_splits)
  have ins: "in_session ready ser ?s" using assms(2) by simp
  have "\<exists>s'. rsa_crypt P H S RSA_public_encrypt RSA_private_encrypt kt (int_length m) cf ?to
      (password16 pwd @ drop 16 (local_array P 16 (?fr + 2))) ?s = Some (- 1, ?to, s') \<and>
      in_session ready ser s' \<and> quiet ?s s' \<and> LAST_ERR_NO s' = crypt_error (- 1)"
  proof (rule rsa_crypt_ok [OF assms(1) ins assms(3,4)])
    fix s assume "in_session ready ser s"
    then show "\<exists>s'. rsa_switch P H S RSA_public_encrypt RSA_private_encrypt kt (int_length m) cf ?to
        (password16 pwd @ drop 16 (local_array P 16 (?fr + 2))) s = Some (crypt_error (- 1), - 1, ?to, empty_rsa, s') \<and>
      in_session ready ser s' \<and> quiet s (RSA_free empty_rsa s')"
      using assms(6,7) by (simp add: rsa_switch_def RSA_free_def empty_rsa_def quiet_def crypt_error_def)
  qed
  then obtain s where "rsa_crypt P H S RSA_public_encrypt RSA_private_encrypt kt (int_length m) cf ?to
      (password16 pwd @ drop 16 (local_array P 16 (?fr + 2))) ?s = Some (- 1, ?to, s)" "LAST_ERR_NO s = nErr_INVKT"
    by (auto simp: crypt_error_def)
  then show ?thesis
    using assms(5,8) d
    by (simp add: RsaEncrypt_def cleared_copy c_password_some rsa_encrypt_def cf_def get_TkErr_def get_err_no_def Let_def)
qed

section \<open>The serial number\<close>

lemma decimal_bounds: "length (decimal b) \<le> 3 \<and> 0 \<notin> set (decimal b)"
proof -
  have "of_nat (48 + k) \<noteq> (0 :: byte)" if "k < 10" for k
  proof -
    have "list_all (\<lambda>k. of_nat (48 + k) \<noteq> (0 :: byte)) [0..<10]" by code_simp
    then show ?thesis using that by (simp only: list_all_iff) simp
  qed
  moreover have "unat b div 100 < 10" using unat_byte_less [of b] by linarith
  ultimately show ?thesis by (auto simp: decimal_def Let_def)
qed

section \<open>Properties\<close>

text \<open>A page loaded with the library in place, a token plugged in and no call made yet.\<close>

definition fresh_page :: "ust plugin \<Rightarrow> bool" where
  "fresh_page p \<longleftrightarrow> usb_inv (hid (lib p)) \<and> get_TkErr p = nErr_OK \<and> length (dev_serial p) = 4"

text \<open>The same over any implementation of HIDAPI to which the token is attached.\<close>

lemma page_roundtrip_attached:
  assumes a: "attached P H ready ser (lo, hi) key" and r: "ready (hid (lib p))"
    and e: "get_TkErr p = nErr_OK" and l: "length (dev_serial p) = 4"
    and k: "good_stack P" "openssl_succeeds S" "usable (uint hi * 256 + uint lo)" "holds_public key Ke N"
    and d: "holds_private key (password16 pwd) D N"
    and pair: "rsa_pair S (rsa_value Ke N None) (rsa_value Ke N (Some D)) m" and m: "0 \<notin> set m" "length m < 1024"
  shows "\<exists>p1 p2 p3 hex. GetToken P H p = Some p1 \<and> dev_serial p1 = ser \<and>
    RsaEncrypt P H S 1 m pwd p1 = Some (hex, p2) \<and> length hex = 256 \<and>
    RsaDecrypt P H S 2 hex pwd p2 = Some (m, p3) \<and> get_TkErr p3 = nErr_OK"
proof -
  obtain c where c: "ssl_RSA_crypt S RSA_public_encrypt (int (length m)) m (rsa_value Ke N None) = (128, c)"
    "length c = 128" "ssl_RSA_crypt S RSA_private_decrypt 128 c (rsa_value Ke N (Some D)) = (int (length m), m)"
    using pair unfolding rsa_pair_def by blast
  obtain p1 where p1: "GetToken P H p = Some p1" "in_session ready ser (lib p1)"
    "get_TkErr p1 = nErr_OK" "dll_load_stat p1 = nErr_OK" "dev_serial p1 = ser"
    using GetToken_ok [OF attached_present [OF a] r e l] by blast
  obtain s2 where s2: "RsaEncrypt P H S 1 m pwd p1 = Some (hex_text c, p1\<lparr>lib := s2\<rparr>)"
    "in_session ready ser s2" "LAST_ERR_NO s2 = nErr_OK"
    using RsaEncrypt_ok [OF a p1(2) k p1(3) c(1,2) m] by blast
  let ?p2 = "p1\<lparr>lib := s2\<rparr>"
  have i2: "in_session ready ser (lib ?p2)" "get_TkErr ?p2 = nErr_OK"
    using s2 p1(4) by (simp_all add: get_TkErr_def get_err_no_def)
  obtain s3 where s3: "RsaDecrypt P H S 2 (hex_text c) pwd ?p2 = Some (m, ?p2\<lparr>lib := s3\<rparr>)"
    "LAST_ERR_NO s3 = nErr_OK"
    using RsaDecrypt_ok [OF a i2(1) k d i2(2) c(3,2) m] by blast
  have "get_TkErr (?p2\<lparr>lib := s3\<rparr>) = nErr_OK" using s3(2) p1(4) by (simp add: get_TkErr_def get_err_no_def)
  moreover have "length (hex_text c) = 256" using c(2) by simp
  ultimately show ?thesis using p1(1,5) s2(1) s3(1) by blast
qed

text \<open>
  C1. A script that calls \<open>GetToken\<close> and then \<open>RsaEncrypt\<close> with key type 1 gets 256 hex digits, from which
  \<open>RsaDecrypt\<close> with key type 2 and the token's password returns the message: for every message without a zero byte
  that is shorter than the plugin's buffer, through the token library, HIDAPI and libusb.
\<close>

theorem page_roundtrip:
  assumes "plugged P E ser (lo, hi) key" "fresh_page p" "good_stack P" "openssl_succeeds S"
    and "usable (uint hi * 256 + uint lo)" "holds_public key Ke N" "holds_private key (password16 pwd) D N"
    and "rsa_pair S (rsa_value Ke N None) (rsa_value Ke N (Some D)) m" "0 \<notin> set m" "length m < 1024"
  shows "\<exists>p1 p2 p3 hex. GetToken P (libusb_backend E) p = Some p1 \<and> dev_serial p1 = ser \<and>
    RsaEncrypt P (libusb_backend E) S 1 m pwd p1 = Some (hex, p2) \<and> length hex = 256 \<and>
    RsaDecrypt P (libusb_backend E) S 2 hex pwd p2 = Some (m, p3) \<and> get_TkErr p3 = nErr_OK"
  using page_roundtrip_attached [OF plugged_attached [OF assms(1)] _ _ _ assms(3-10)] assms(2)
  by (simp add: fresh_page_def)

definition example_page :: "ust plugin" where
  "example_page = new_plugin \<lparr>ld_open = True, ld_error = (\<lambda>name. False)\<rparr> [0, 0, 0, 0] 0 example_start"

lemma example_page_ok: "fresh_page example_page"
  using example_start_ok(1)
  by (simp add: fresh_page_def example_page_def new_plugin_def loadTokenDll_def dll_symbols_def get_TkErr_def
    get_err_no_def example_start_def)

lemma example_password: "password16 example_pwd = take 16 example_pwd"
  by (simp add: password16_def example_pwd_def cstr_def)

lemma example_private: "holds_private example_key (password16 example_pwd) example_D example_N"
  using example_ok(8) by (simp only: example_password)

theorem page_roundtrip_witness:
  "\<exists>p1 p2 p3 hex. GetToken example_platform (libusb_backend (example_usb (0, 8))) example_page = Some p1 \<and>
    RsaEncrypt example_platform (libusb_backend (example_usb (0, 8))) example_padding 1 [72, 105] example_pwd p1 = Some (hex, p2) \<and>
    RsaDecrypt example_platform (libusb_backend (example_usb (0, 8))) example_padding 2 hex example_pwd p2 = Some ([72, 105], p3)"
proof -
  have "openssl_succeeds example_padding"
    by (simp add: openssl_succeeds_def example_padding_def example_ssl_def)
  moreover have "rsa_pair example_padding pub priv [72, 105]" for pub priv
    by (simp add: rsa_pair_def example_padding_def)
  ultimately show ?thesis
    using page_roundtrip [OF example_plugged [of "(0, 8)"] example_page_ok example_ok(4) _ example_usable
        example_ok(7) example_private, of example_padding "[72, 105]"] by fastforce
qed

text \<open>
  C16. \<open>GetSignature\<close> returns the signature in hex and \<open>VerifySignature\<close> accepts it: provided the allocator leaves a
  byte behind the blocks the plugin asks for.
\<close>

theorem page_signature:
  assumes "plugged P E ser (lo, hi) key" "fresh_page p" "good_stack P" "openssl_succeeds S"
    and "status_outcome hi = nErr_OK" "holds_public key Ke N" "holds_private key (password16 pwd) D N"
    and "signs S typ (rsa_value Ke N (Some D)) (rsa_value Ke N None) (ssl_SHA1 S m) sig"
    and "length sig \<le> 511" "0 \<notin> set m" "1 \<le> heap_pad"
  shows "\<exists>p1 p2 p3. GetToken P (libusb_backend E) p = Some p1 \<and>
    GetSignature P (libusb_backend E) S heap_pad typ m pwd p1 = Some (hex_text sig, p2) \<and>
    VerifySignature P (libusb_backend E) S heap_pad typ m (hex_text sig) p2 = Some (nErr_OK, p3)"
proof -
  note a = plugged_attached [OF assms(1)]
  have st: "status_error (uint hi * 256 + uint lo) = nErr_OK" using assms(5) by (simp add: status_outcome_eq)
  have sg: "ssl_RSA_sign S typ (ssl_SHA1 S m) (rsa_value Ke N (Some D)) = (1, sig)"
    "ssl_RSA_verify S typ (ssl_SHA1 S m) sig (rsa_value Ke N None) = 1"
    using assms(8) by (simp_all add: signs_def)
  have f: "usb_inv (hid (lib p))" "get_TkErr p = nErr_OK" "length (dev_serial p) = 4"
    using assms(2) by (simp_all add: fresh_page_def)
  obtain p1 where p1: "GetToken P (libusb_backend E) p = Some p1" "in_session usb_inv ser (lib p1)"
    "get_TkErr p1 = nErr_OK" "dll_load_stat p1 = nErr_OK"
    using GetToken_ok [OF attached_present [OF a] f] by blast
  obtain s2 where s2: "GetSignature P (libusb_backend E) S heap_pad typ m pwd p1 = Some (hex_text sig, p1\<lparr>lib := s2\<rparr>)"
    "in_session usb_inv ser s2" "LAST_ERR_NO s2 = nErr_OK"
    using GetSignature_ok [OF a p1(2) assms(3,4) st assms(6,7) p1(3) sg(1) assms(9-11)] by blast
  let ?p2 = "p1\<lparr>lib := s2\<rparr>"
  have i2: "in_session usb_inv ser (lib ?p2)" "get_TkErr ?p2 = nErr_OK"
    using s2 p1(4) by (simp_all add: get_TkErr_def get_err_no_def)
  show ?thesis
    using p1(1) s2(1) VerifySignature_ok [OF a i2(1) assms(3,4) st assms(6) i2(2) assms(9-11), of "typ"] sg(2) by auto
qed

theorem page_signature_witness:
  "\<exists>p1 p2. GetToken example_platform (libusb_backend (example_usb (0, 8))) example_page = Some p1 \<and>
    GetSignature example_platform (libusb_backend (example_usb (0, 8))) example_ssl 8 64 [1, 2] example_pwd p1 =
      Some (hex_text ([1, 2] @ replicate 18 0), p2)"
proof -
  have sg: "signs example_ssl 64 p q (ssl_SHA1 example_ssl [1, 2]) ([1, 2] @ replicate 18 0)" for p q
    by (simp add: signs_def example_ssl_def)
  have st: "status_outcome 8 = nErr_OK" by code_simp
  show ?thesis
    using page_signature [OF example_plugged [of "(0, 8)"] example_page_ok example_ok(4,5) st example_ok(7)
        example_private sg, of 8] by fastforce
qed

text \<open>
  Without that byte every signature and every verification, of any message without a zero byte, writes behind the block it has
  allocated.
\<close>

theorem signature_overruns_heap:
  assumes "get_TkErr p = nErr_OK" "0 \<notin> set m"
  shows "GetSignature P H S 0 typ m pwd p = None \<and> VerifySignature P H S 0 typ m sig p = None"
  using assms by (simp add: GetSignature_def VerifySignature_def strcpy_none new_array_def Let_def)

theorem signature_overruns_heap_witness:
  "GetSignature example_platform (libusb_backend (example_usb (0, 8))) example_ssl 0 64 [1, 2] example_pwd example_page = None"
  using signature_overruns_heap [of example_page "[1, 2]"] example_page_ok by (simp add: fresh_page_def)

text \<open>
  A text of 1024 bytes and what lies behind the array, passed to \<open>RsaEncrypt\<close> or \<open>RsaDecrypt\<close> by the page, overruns
  the stack array it is copied to.
\<close>

theorem long_text_overruns_stack:
  assumes "get_TkErr p = nErr_OK" "1024 + stack_pad P \<le> length (cstr m)"
  shows "RsaEncrypt P H S kt m pwd p = None \<and> RsaDecrypt P H S kt m pwd p = None"
  using assms by (simp add: RsaEncrypt_def RsaDecrypt_def memset0_some strcpy_none Let_def)

theorem long_text_overruns_stack_witness:
  "RsaEncrypt example_platform (libusb_backend (example_usb (0, 8))) example_ssl 1 (replicate 2000 65) [] example_page = None"
  using long_text_overruns_stack [of example_page example_platform "replicate 2000 65"] example_page_ok
  by (simp add: fresh_page_def example_platform_def)

text \<open>
  Once a call has left an error behind, no sequence of calls a script can make reaches the token any more, \<open>GetToken\<close>
  included: the library, its error and the serial stay as they are.
\<close>

theorem page_locked_after_error:
  assumes "get_TkErr p \<noteq> nErr_OK" "page_run P H S hp cs p = Some p'"
  shows "lib p' = lib p \<and> get_TkErr p' = get_TkErr p \<and> dev_serial p' = dev_serial p"
  using locked_run [OF assms] by (simp add: get_TkErr_def)

theorem page_locked_after_error_witness:
  "\<exists>p1 p2. RsaEncrypt example_platform (libusb_backend (example_usb (0, 8))) example_ssl 3 [72] []
      (example_page\<lparr>lib := set_err nErr_DNF example_start\<rparr>) = Some ([], p1) \<and>
    page_run example_platform (libusb_backend (example_usb (0, 8))) example_ssl 0 [Call_GetToken, Call_GetDeviceCount] p1 = Some p2 \<and>
    get_TkErr p2 = nErr_DNF"
proof -
  let ?p = "example_page\<lparr>lib := set_err nErr_DNF example_start\<rparr>"
  have d: "dll_load_stat example_page = nErr_OK"
    by (simp add: example_page_def new_plugin_def loadTokenDll_def dll_symbols_def)
  then have e: "get_TkErr ?p = nErr_DNF" by (simp add: get_TkErr_def get_err_no_def set_err_def)
  moreover have n: "nErr_DNF \<noteq> nErr_OK" by (simp add: const_simps)
  ultimately have r: "page_run example_platform (libusb_backend (example_usb (0, 8))) example_ssl 0
      [Call_GetToken, Call_GetDeviceCount] ?p = Some ?p"
    by (simp add: page_step_def GetToken_def GetDeviceCount_def)
  have "get_TkErr ?p \<noteq> nErr_OK" using e n by simp
  then show ?thesis
    using page_locked_after_error [OF _ r] r e by (intro exI [of _ ?p]) (simp add: RsaEncrypt_def)
qed

text \<open>
  A wrong argument is enough for that: \<open>RsaEncrypt\<close> with a key type other than 1 and 2, on a token that is
  plugged in and working, returns the empty string, and after it no call of the script reaches the token.
\<close>

theorem wrong_key_type_locks_page:
  assumes "plugged P E ser (lo, hi) key" "fresh_page p" "openssl_succeeds S" "usable (uint hi * 256 + uint lo)"
    and "kt \<noteq> 1" "kt \<noteq> 2" "length (cstr m) < 1024"
  shows "\<exists>p1 p2. GetToken P (libusb_backend E) p = Some p1 \<and> get_TkErr p1 = nErr_OK \<and>
    RsaEncrypt P (libusb_backend E) S kt m pwd p1 = Some ([], p2) \<and>
    (\<forall>cs p3. page_run P (libusb_backend E) S hp cs p2 = Some p3 \<longrightarrow> lib p3 = lib p2 \<and> get_TkErr p3 = nErr_INVKT)"
proof -
  note a = plugged_attached [OF assms(1)]
  have f: "usb_inv (hid (lib p))" "get_TkErr p = nErr_OK" "length (dev_serial p) = 4"
    using assms(2) by (simp_all add: fresh_page_def)
  obtain p1 where p1: "GetToken P (libusb_backend E) p = Some p1" "in_session usb_inv ser (lib p1)" "get_TkErr p1 = nErr_OK"
    using GetToken_ok [OF attached_present [OF a] f] by blast
  obtain p2 where p2: "RsaEncrypt P (libusb_backend E) S kt m pwd p1 = Some ([], p2)" "get_TkErr p2 = nErr_INVKT"
    using RsaEncrypt_key_type [OF a p1(2) assms(3,4) p1(3) assms(5-7)] by blast
  have "get_TkErr p2 \<noteq> nErr_OK" using p2(2) by (simp add: const_simps)
  then have "lib p3 = lib p2 \<and> get_TkErr p3 = nErr_INVKT" if "page_run P (libusb_backend E) S hp cs p2 = Some p3" for cs p3
    using locked_run [OF _ that] p2(2) by (auto simp: get_TkErr_def split: if_splits)
  then show ?thesis using p1(1,3) p2(1) by blast
qed

theorem wrong_key_type_locks_page_witness:
  "\<exists>p1 p2. GetToken example_platform (libusb_backend (example_usb (0, 8))) example_page = Some p1 \<and>
    RsaEncrypt example_platform (libusb_backend (example_usb (0, 8))) example_ssl 3 [72] [] p1 = Some ([], p2)"
  using wrong_key_type_locks_page [OF example_plugged [of "(0, 8)"] example_page_ok example_ok(5) example_usable, of 3 "[72]" "[]"]
  by (fastforce simp: cstr_def)

text \<open>
  The property \<open>serial\<close> is the four bytes in decimal, separated by commas: the text always fits the sixteen bytes it is
  printed to.
\<close>

theorem serial_property_text:
  assumes "dev_serial p = [a, b, c, d]"
  shows "serial_property p = Some (decimal a @ [44] @ decimal b @ [44] @ decimal c @ [44] @ decimal d)"
proof -
  let ?t = "decimal a @ [44] @ decimal b @ [44] @ decimal c @ [44] @ decimal d"
  have z: "0 \<notin> set ?t" using decimal_bounds [of a] decimal_bounds [of b] decimal_bounds [of c] decimal_bounds [of d] by simp
  have "length ?t \<le> 15"
    using decimal_bounds [of a] decimal_bounds [of b] decimal_bounds [of c] decimal_bounds [of d] by simp
  then have "\<exists>r. wr_block (replicate 16 0) 0 (?t @ [0]) = Some (?t @ 0 # r)" by (simp add: wr_block_def)
  then show ?thesis
    using assms c_string_append_zero [OF z] by (auto simp: serial_property_def rd_def)
qed

theorem serial_property_text_witness:
  "serial_property (example_page\<lparr>dev_serial := [91, 0, 2, 110]\<rparr>) = Some [57, 49, 44, 48, 44, 50, 44, 49, 49, 48]"
  using serial_property_text [of "example_page\<lparr>dev_serial := [91, 0, 2, 110]\<rparr>" 91 0 2 110] by (simp add: decimal_def)

end
