(* ===== verification/HidLinuxProps.thy ===== *)
theory HidLinuxProps
  imports HidLinuxToken PluginProps
begin

text \<open>
  The token library and the plugin over the hidraw implementation; and what that implementation does on old
  kernels, with descriptor 0, and with missing attributes.
\<close>

section \<open>An example\<close>

definition example_node :: raw_node where
  "example_node = \<lparr>devnode = Some ''/dev/hidraw0'',
     raw_uevent = Some (Some (kernel_uevent 3 VID PID ''Novin'' ''usb-1'' ''5B00026E'')),
     usb_attrs = Some (\<lambda>name. None), intf_attrs = None\<rparr>"

definition example_raw :: "byte \<times> byte \<Rightarrow> raw_env" where
  "example_raw status =
    \<lparr>re_udev = (\<lambda>tr. True), re_scan = (\<lambda>tr. [example_node]), re_open = (\<lambda>tr pa. Some example_node),
     re_desc_size = (\<lambda>tr n. Some 4), re_desc = (\<lambda>tr n. Some [0x05, 0x01, 0x85, 0x02]),
     re_set = (\<lambda>tr n p. int (length p)),
     re_get = (\<lambda>tr n k. case rev tr of
         KSet fd p # rest \<Rightarrow> Some (token_answer example_ser (token_model status example_key) p) | _ \<Rightarrow> None),
     re_write = (\<lambda>tr n p. -1), re_poll = (\<lambda>tr n ms. (1, 1)), re_read = (\<lambda>tr n k. Got [2, 7, 9]),
     re_stat = (\<lambda>tr n. Some n), re_release = ''5.4-generic'',
     re_mbs = (\<lambda>t. (map of_char t, True)), re_junk = (\<lambda>tr. (0xCCCC, 0xCCCC))\<rparr>"

text \<open>A process with its three standard streams.\<close>

definition example_raw_state :: rst where
  "example_raw_state = \<lparr>raw_heap = (\<lambda>a. None), raw_next = 0, fds = [Other_file, Other_file, Other_file],
     kernel_version = 0, rblocks = 0, rlost = 0, rtrace = []\<rparr>"

lemma example_raw_ready: "raw_ready example_raw_state"
  by (simp add: raw_ready_def raw_inv_def example_raw_state_def)

lemma example_uevent:
  "parse_uevent_info (Some (kernel_uevent 3 VID PID ''Novin'' ''usb-1'' ''5B00026E'')) = Some (True,
    \<lparr>ue_bus = Some 3, ue_vendor = Some VID, ue_product = Some PID, ue_serial = Some ''5B00026E'', ue_name = Some ''Novin'',
     found_id = True, found_serial = True, found_name = True, ue_lost = 0\<rparr>)"
proof -
  have "unat (3 :: u32) < 2 ^ 16" by simp
  then show ?thesis
    unfolding parse_uevent_info_def bind.bind_lunit uevent_lines.simps uevent_line_def uevent_keys
    by (subst tokens_kernel_uevent, simp, simp, simp) (use scan_id_printed [of 3 VID PID] in \<open>simp add: uevent_line_def uevent_keys uevent_start_def\<close>)
qed

lemma example_plugged_hidraw: "plugged_hidraw example_platform (example_raw status) example_ser status example_key"
proof -
  have "map of_char ''5B00026E'' = serial_string hex_char example_ser"
    unfolding example_serial_string by code_simp
  then have "token_raw (example_raw status) example_node
    \<lparr>ue_bus = Some 3, ue_vendor = Some VID, ue_product = Some PID, ue_serial = Some ''5B00026E'', ue_name = Some ''Novin'',
     found_id = True, found_serial = True, found_name = True, ue_lost = 0\<rparr> hex_char example_ser (token_model status example_key)"
    using example_uevent by (simp add: token_raw_def example_raw_def example_node_def BUS_USB_def utf8_to_wchar_t_def)
  then show ?thesis unfolding plugged_hidraw_def using example_ok(1-3) by blast
qed

definition example_page_hidraw :: "rst plugin" where
  "example_page_hidraw = new_plugin \<lparr>ld_open = True, ld_error = (\<lambda>name. False)\<rparr> [0, 0, 0, 0] 0
     \<lparr>tk = zero_tk, LAST_ERR_NO = nErr_OK, hid = example_raw_state, frames = 0, ssl_calls = 0, bignums = 0, streams = 0,
      files = (\<lambda>f. None)\<rparr>"

lemma example_page_hidraw_ok:
  "hid (lib example_page_hidraw) = example_raw_state" "get_TkErr example_page_hidraw = nErr_OK"
  "length (dev_serial example_page_hidraw) = 4"
  by (simp_all add: example_page_hidraw_def new_plugin_def loadTokenDll_def dll_symbols_def get_TkErr_def get_err_no_def)

section \<open>Over hidraw\<close>

text \<open>
  C8. With the Linux implementation of HIDAPI underneath, a page gets its message back as with the one over libusb, as long as the
  process has its standard input open.
\<close>

theorem page_roundtrip_hidraw:
  assumes "plugged_hidraw P E ser (lo, hi) key" "raw_ready (hid (lib p))" "get_TkErr p = nErr_OK" "length (dev_serial p) = 4"
    and "good_stack P" "openssl_succeeds S" "usable (uint hi * 256 + uint lo)" "holds_public key Ke N"
    and "holds_private key (password16 pwd) D N"
    and "rsa_pair S (rsa_value Ke N None) (rsa_value Ke N (Some D)) m" "0 \<notin> set m" "length m < 1024"
  shows "\<exists>p1 p2 p3 hex. GetToken P (hidraw_backend E) p = Some p1 \<and> dev_serial p1 = ser \<and>
    RsaEncrypt P (hidraw_backend E) S 1 m pwd p1 = Some (hex, p2) \<and> length hex = 256 \<and>
    RsaDecrypt P (hidraw_backend E) S 2 hex pwd p2 = Some (m, p3) \<and> get_TkErr p3 = nErr_OK"
  by (rule page_roundtrip_attached [OF plugged_hidraw_attached [OF assms(1)] assms(2-12)])

theorem page_roundtrip_hidraw_witness:
  "\<exists>p1 p2 p3 hex. GetToken example_platform (hidraw_backend (example_raw (0, 8))) example_page_hidraw = Some p1 \<and>
    RsaEncrypt example_platform (hidraw_backend (example_raw (0, 8))) example_padding 1 [72, 105] example_pwd p1 = Some (hex, p2) \<and>
    RsaDecrypt example_platform (hidraw_backend (example_raw (0, 8))) example_padding 2 hex example_pwd p2 = Some ([72, 105], p3)"
proof -
  have "openssl_succeeds example_padding"
    by (simp add: openssl_succeeds_def example_padding_def example_ssl_def)
  moreover have "rsa_pair example_padding pub priv [72, 105]" for pub priv
    by (simp add: rsa_pair_def example_padding_def)
  moreover have "raw_ready (hid (lib example_page_hidraw))" using example_raw_ready by (simp add: example_page_hidraw_ok)
  ultimately show ?thesis
    using page_roundtrip_hidraw [OF example_plugged_hidraw [of "(0, 8)"] _ example_page_hidraw_ok(2,3) example_ok(4) _
        example_usable example_ok(7) example_private, of example_padding "[72, 105]"] by fastforce
qed

text \<open>
  C9. The invariant of the library over hidraw: whatever the application calls and whatever the kernel and udev answer, the files open
  at all descriptors but 0 are those that were open before, at descriptor 0 too if one was open there, no device is left over, every open
  device has a descriptor of its own, and at most the first entry of \<open>tk\<close> is in use. (What happens with a free descriptor 0 is
  \<open>descriptor_zero_lost\<close>.)
\<close>

theorem library_invariant_hidraw:
  assumes "lib_start h s" "raw_inv h" "lib_reach P (hidraw_backend E) S s s'"
  shows "raw_inv (hid s') \<and> raw_live (hid s') = raw_live h \<and> session_ok (tk s') \<and>
    (\<forall>i. i \<noteq> 0 \<or> file_at h 0 \<noteq> Closed \<longrightarrow> file_at (hid s') i = file_at h i)"
proof -
  have s: "session_ok (tk s)" "hid s = h" using assms(1) session_ok_zero by (simp_all add: lib_start_def)
  have "raw_keeps (file_at h 0) (hid s)" using assms(2) s(2) by (simp add: raw_keeps_def)
  from hid_backend.lib_reach_keeps [OF hidraw.hid_backend_axioms assms(3) this s(1)] have
    k: "raw_keeps (file_at h 0) (hid s')" "raw_live (hid s') = raw_live h" "(file_at (hid s'))(0 := Closed) = (file_at h)(0 := Closed)"
    "session_ok (tk s')"
    by (simp_all add: raw_held_def s(2))
  have "file_at (hid s') i = file_at h i" if "i \<noteq> 0" for i using fun_cong [OF k(3), of i] that by simp
  then show ?thesis using k unfolding raw_keeps_def by (metis gr0I)
qed

lemma example_raw_inv: "raw_inv example_raw_state"
  using example_raw_ready by (simp add: raw_ready_def)

theorem library_invariant_hidraw_witness:
  "\<exists>s1. get_first_device example_platform (hidraw_backend (example_raw (0, 8))) (lib example_page_hidraw) = Some s1 \<and>
    raw_inv (hid s1) \<and> session_ok (tk s1) \<and> file_at (hid s1) = file_at example_raw_state"
proof -
  let ?H = "hidraw_backend (example_raw (0, 8))" and ?s = "lib example_page_hidraw"
  have r: "raw_ready (hid ?s)" using example_raw_ready by (simp add: example_page_hidraw_ok)
  obtain s1 where s1: "get_first_device example_platform ?H ?s = Some s1"
    using first_device_ok [OF attached_present [OF plugged_hidraw_attached [OF example_plugged_hidraw]] r] by blast
  have st: "lib_start example_raw_state ?s"
    by (simp add: lib_start_def example_page_hidraw_def new_plugin_def loadTokenDll_def)
  have "lib_reach example_platform ?H example_ssl ?s s1"
    using reach_step [OF reach_start step_first [OF s1]] by simp
  note l = library_invariant_hidraw [OF st example_raw_inv this]
  have "file_at example_raw_state 0 \<noteq> Closed" by (simp add: file_at_def example_raw_state_def)
  then have "file_at (hid s1) = file_at example_raw_state" using l by (intro ext) blast
  then show ?thesis using s1 l by blast
qed

section \<open>Opening and closing\<close>

text \<open>
  Opening a device and closing it again leaves the device structures, the heap and the invariant as they were.
\<close>

theorem open_close_balance_hidraw:
  assumes "raw_inv s" "hid_open_hidraw E v p sn s = Some (Some a, s1)"
  shows "\<exists>s2. hid_close_hidraw (Some a) s1 = Some s2 \<and> raw_inv s2 \<and> raw_live s2 = raw_live s \<and> rblocks s2 = rblocks s"
proof -
  have o: "raw_inv s1" "rblocks s1 = rblocks s" "a \<notin> raw_live s" "raw_live s1 = insert a (raw_live s)"
    using open_hidraw_frame [OF assms] by simp_all
  have "a \<in> dom (raw_heap s1)" using o(4) by (simp add: raw_live_def)
  then obtain d where "raw_heap s1 a = Some d" by blast
  from close_hidraw_frame [OF o(1) this] o show ?thesis by auto
qed

theorem open_close_balance_hidraw_witness:
  "\<exists>a s1 s2. hid_open_hidraw (example_raw (0, 8)) VID PID None example_raw_state = Some (Some a, s1) \<and>
    hid_close_hidraw (Some a) s1 = Some s2 \<and> rblocks s2 = 0"
proof -
  obtain node u hx where "token_raw (example_raw (0, 8)) node u hx example_ser (token_model (0, 8) example_key)"
    using example_plugged_hidraw [of "(0, 8)"] unfolding plugged_hidraw_def by blast
  from raw_open [OF this example_raw_ready] obtain a s1 where
    "hid_open_hidraw (example_raw (0, 8)) VID PID None example_raw_state = Some (Some a, s1)" by blast
  with open_close_balance_hidraw [OF example_raw_inv this] show ?thesis by (auto simp: example_raw_state_def)
qed

text \<open>
  When descriptor 0 is free, a device that opens gets it, \<open>hid_open_path\<close> takes it for a failure, and the
  device stays open with nobody to close it.
\<close>

theorem descriptor_zero_lost:
  assumes "fds s = Closed # fs" "re_open E (rtrace s) pa = Some n"
  shows "\<exists>s'. hid_open_path_hidraw E pa s = Some (None, s') \<and> fds s' = Hidraw n # fs \<and> (\<forall>b. b \<noteq> raw_next s \<longrightarrow> raw_heap s' b = raw_heap s b)"
proof -
  define s2 where "s2 = read_kernel_version E (snd (new_hid_device_hidraw s))"
  have 2: "fds s2 = Closed # fs" "rtrace s2 = rtrace s" "\<And>b. b \<noteq> raw_next s \<Longrightarrow> raw_heap s2 b = raw_heap s b"
    using assms(1) by (auto simp: s2_def read_kernel_version_def new_hid_device_hidraw_def Let_def split: option.splits)
  have "open_raw E pa s2 = (0, (note_raw (KOpen pa) s2)\<lparr>fds := Hidraw n # fs\<rparr>)"
    using assms(2) 2(1,2) by (simp add: open_raw_def note_raw_def)
  moreover have "hid_open_path_hidraw E pa s = (case open_raw E pa s2 of (fd, s3) \<Rightarrow>
      if 0 < fd then do {
        (b, s4) \<leftarrow> read_numbered E fd s3;
        Some (Some (raw_next s), s4\<lparr>raw_heap := (raw_heap s4)(raw_next s \<mapsto> \<lparr>raw_handle = fd, raw_blocking = True, numbered_reports = b\<rparr>)\<rparr>) }
      else Some (None, s3\<lparr>raw_heap := (raw_heap s3)(raw_next s := None)\<rparr>))"
    by (simp add: hid_open_path_hidraw_def hid_init_hidraw_def s2_def new_hid_device_hidraw_def Let_def)
  ultimately show ?thesis using 2(3) by (simp add: note_raw_def)
qed

theorem descriptor_zero_lost_witness:
  "\<exists>s'. hid_open_path_hidraw (example_raw (0, 8)) ''/dev/hidraw0'' (example_raw_state\<lparr>fds := [Closed, Other_file]\<rparr>) = Some (None, s') \<and>
    fds s' = [Hidraw example_node, Other_file]"
  using descriptor_zero_lost [of "example_raw_state\<lparr>fds := [Closed, Other_file]\<rparr>" "[Other_file]" "example_raw (0, 8)"
      "''/dev/hidraw0''" example_node] by (auto simp: example_raw_def)

section \<open>Reading\<close>

text \<open>
  On a kernel before 2.6.34, and on every kernel whose release is not three numbers, for which the version stays 0, a blocking
  read from a device with numbered reports loses the first byte of each report; with a report as long as the
  caller's array it reads one byte behind the array, and an empty read becomes an error.
\<close>

theorem old_kernel_read:
  assumes "raw_heap s a = Some d" "node_of s (raw_handle d) = Some n" "numbered_reports d" "kernel_version s < KERNEL_2_6_34"
    and "re_read E (rtrace s) n len = Got bs" "length bs \<le> len" "len \<le> length data" "ms < 0"
  shows "hid_read_timeout_hidraw E a data len ms s =
    (if length data = length bs then None
     else Some (int (length bs) - 1, tl (bs @ take 1 (drop (length bs) data)) @ drop (length bs) data,
       note_raw (KRead (nat (raw_handle d)) len) s))"
proof -
  let ?data = "bs @ drop (length bs) data" and ?s = "note_raw (KRead (nat (raw_handle d)) len) s"
  have w: "wr_block data 0 (take len bs) = Some ?data" using assms(6,7) by (simp add: wr_block_def)
  have k: "kernel_version ?s = kernel_version s" by (simp add: note_raw_def)
  have r: "hid_read_timeout_hidraw E a data len ms s = do {
      m \<leftarrow> rd_block ?data 1 (length bs); data2 \<leftarrow> wr_block ?data 0 m; Some (int (length bs) - 1, data2, ?s) }"
    using assms w k by (simp add: hid_read_timeout_hidraw_def read_bytes_def on_fd_open [OF assms(2)])
  show ?thesis
  proof (cases "length data = length bs")
    case True
    then show ?thesis by (simp add: r rd_block_def)
  next
    case False
    then have lt: "length bs < length data" using assms(6,7) by simp
    have "take (length bs) (drop 1 ?data) = tl (bs @ take 1 (drop (length bs) data))"
      using lt by (cases bs) (simp_all add: drop_Suc Suc_diff_le take_Suc_conv_app_nth)
    then show ?thesis using lt False by (simp add: r rd_block_def wr_block_def)
  qed
qed

definition example_raw_open :: rst where
  "example_raw_open = example_raw_state\<lparr>raw_heap := [0 \<mapsto> \<lparr>raw_handle = 1, raw_blocking = True, numbered_reports = True\<rparr>],
     raw_next := 1, fds := [Other_file, Hidraw example_node]\<rparr>"

theorem old_kernel_read_witness:
  "\<exists>s'. kernel_version (read_kernel_version (example_raw (0, 8)) example_raw_open) = 0 \<and>
    hid_read_timeout_hidraw (example_raw (0, 8)) 0 [0, 0, 0] 3 (-1) example_raw_open = None \<and>
    hid_read_timeout_hidraw (example_raw (0, 8)) 0 [0, 0, 0, 0] 3 (-1) example_raw_open = Some (2, [7, 9, 0, 0], s')"
proof -
  have v: "scan_release ''5.4-generic'' = None" by code_simp
  have k: "kernel_version (read_kernel_version (example_raw (0, 8)) example_raw_open) = 0"
    using v by (simp add: read_kernel_version_def example_raw_open_def example_raw_state_def example_raw_def)
  have h: "raw_heap example_raw_open 0 = Some \<lparr>raw_handle = 1, raw_blocking = True, numbered_reports = True\<rparr>"
    "node_of example_raw_open 1 = Some example_node" "kernel_version example_raw_open < KERNEL_2_6_34"
    "re_read (example_raw (0, 8)) (rtrace example_raw_open) example_node 3 = Got [2, 7, 9]"
    by (simp_all add: example_raw_open_def example_raw_state_def node_of_def KERNEL_2_6_34_def example_raw_def)
  show ?thesis
    using k old_kernel_read [of example_raw_open 0 "\<lparr>raw_handle = 1, raw_blocking = True, numbered_reports = True\<rparr>" example_node
        "example_raw (0, 8)" 3 "[2, 7, 9]" "[0, 0, 0]" "-1"]
      old_kernel_read [of example_raw_open 0 "\<lparr>raw_handle = 1, raw_blocking = True, numbered_reports = True\<rparr>" example_node
        "example_raw (0, 8)" 3 "[2, 7, 9]" "[0, 0, 0, 0]" "-1"] h by simp
qed

section \<open>Strings\<close>

text \<open>
  Asked for a string the USB device does not have, \<open>get_device_string\<close> returns what the parser of the uevent returned, 1
  or 0, and not an error: with 0 the caller takes its untouched array for the string.
\<close>

theorem missing_string_succeeds:
  assumes "raw_heap s a = Some d" "node_of s (raw_handle d) = Some n" "re_udev E (rtrace s)"
    and "re_stat E (rtrace s @ [KUdev]) n = Some m" "raw_uevent m = Some ue" "parse_uevent_info ue = Some (ret, u)"
    and "ue_bus u = Some BUS_USB" "usb_attrs m = Some attrs" "attrs (device_string_names key) = None"
  shows "\<exists>s'. get_device_string E a key str maxlen s = Some (if ret then 1 else 0, str, s')"
proof -
  have "node_of (note_raw KUdev s) (raw_handle d) = Some n" using assms(2) undisturbed_node [of s "note_raw KUdev s"] by simp
  moreover have "BUS_USB \<noteq> BUS_BLUETOOTH" by (simp add: BUS_USB_def BUS_BLUETOOTH_def)
  ultimately show ?thesis
    using assms by (simp add: get_device_string_def on_fd_open note_raw_def)
qed

text \<open>For the witness: a device whose uevent has no serial number, and which has no attributes.\<close>

definition example_nameless :: raw_node where
  "example_nameless = example_node\<lparr>raw_uevent := Some (Some (''HID_ID=0003:00000001:00000002'' @ [CHR 0x0A] @ ''HID_NAME=x''))\<rparr>"

theorem missing_string_succeeds_witness:
  "\<exists>s'. get_device_string (example_raw (0, 8)) 0 DEVICE_STRING_SERIAL [65, 66] 2
      (example_raw_open\<lparr>fds := [Other_file, Hidraw example_nameless]\<rparr>) = Some (0, [65, 66], s')"
proof -
  let ?s = "example_raw_open\<lparr>fds := [Other_file, Hidraw example_nameless]\<rparr>"
  define t where "t = ''HID_ID=0003:00000001:00000002'' @ [CHR 0x0A] @ ''HID_NAME=x''"
  have "map_option (\<lambda>(ret, u). (ret, ue_bus u)) (parse_uevent_info (Some t)) = Some (False, Some BUS_USB)"
    unfolding t_def by code_simp
  then obtain u where u: "parse_uevent_info (Some t) = Some (False, u)" "ue_bus u = Some BUS_USB" by auto
  have h: "raw_heap ?s 0 = Some \<lparr>raw_handle = 1, raw_blocking = True, numbered_reports = True\<rparr>"
    "node_of ?s 1 = Some example_nameless" "re_udev (example_raw (0, 8)) (rtrace ?s)"
    "re_stat (example_raw (0, 8)) (rtrace ?s @ [KUdev]) example_nameless = Some example_nameless"
    "raw_uevent example_nameless = Some (Some t)" "usb_attrs example_nameless = Some (\<lambda>name. None)"
    by (simp_all add: example_raw_open_def example_raw_state_def node_of_def example_raw_def example_nameless_def example_node_def t_def)
  show ?thesis
    using missing_string_succeeds [of ?s 0 "\<lparr>raw_handle = 1, raw_blocking = True, numbered_reports = True\<rparr>" example_nameless
        "example_raw (0, 8)" example_nameless "Some t" False u "\<lambda>name. None" DEVICE_STRING_SERIAL "[65, 66]" 2] h u by simp
qed

end
