(* ===== verification/HidWindows.thy ===== *)
theory HidWindows
  imports HidLibusb Uevent
begin

text \<open>
  The Windows implementation of HIDAPI, \<^verbatim>\<open>token-DLL/hidapi-master/windows/hid.c\<close>, without \<open>HIDAPI_USE_DDK\<close>. Its names
  carry the suffix \<open>_win\<close> here. The Win32 calls and \<^verbatim>\<open>hid.dll\<close> are not part of the repository: as for libusb, calls are recorded
  in a history, and the record \<open>win_env\<close> says what each answers as a function of it. Built into the primitives is what is
  documented: handles are fresh, a call on a handle that is not an open file fails, a transfer yields at most the bytes asked for, and
  an overlapped request belongs to the kernel until \<open>GetOverlappedResult\<close> has waited for it.
\<close>

section \<open>The system as the file sees it\<close>

text \<open>
  An entry of \<open>SP_DEVICE_INTERFACE_DATA\<close> is its path, missing when the detail cannot be read; of the devices of the set the class
  matters, missing when the property cannot be read, and whether a driver is bound.
\<close>

record win_devinfo =
  dev_class :: "string option"
  driver_bound :: bool

record hidp_caps =
  cap_usage :: u16
  cap_usage_page :: u16
  cap_input :: u16
  cap_output :: u16

datatype win_string_id = Serial_string | Manufacturer_string | Product_string | Indexed_string int

datatype win_call =
  WLoad | WFree_library | WScan | WCreate string bool | WClose nat | WEvent | WMessage
| WAttributes nat | WPreparsed nat | WCaps nat | WString nat win_string_id nat
| WSet nat "byte list" | WIoctl nat "byte list" | WWrite nat "byte list" | WRead nat nat
| WWait nat int | WResult nat | WCancel nat

text \<open>How an overlapped call begins: it is done, \<open>ERROR_IO_PENDING\<close>, or another error.\<close>

datatype win_io = Io_done | Io_pending | Io_failed

text \<open>
  The functions on a device get its path. \<open>we_attributes\<close>: the fields of \<open>HIDD_ATTRIBUTES\<close> after the call, which are whatever
  was on the stack when it failed; \<open>we_wstr\<close>: what the local array \<open>wstr\<close> holds at first; \<open>we_string\<close>: success, and the characters
  written either way; \<open>we_settled\<close>: whether a request is finished when \<open>CancelIo\<close> and the closing of the handle have returned, which
  neither of them promises.
\<close>

record win_env =
  we_load :: "win_call list \<Rightarrow> bool"
  we_proc :: "win_call list \<Rightarrow> string \<Rightarrow> bool"
  we_scan :: "win_call list \<Rightarrow> string option list \<times> win_devinfo list"
  we_create :: "win_call list \<Rightarrow> string \<Rightarrow> bool \<Rightarrow> bool"
  we_event :: "win_call list \<Rightarrow> bool"
  we_message :: "win_call list \<Rightarrow> wchar list option"
  we_attributes :: "win_call list \<Rightarrow> string \<Rightarrow> u16 \<times> u16 \<times> u16"
  we_preparsed :: "win_call list \<Rightarrow> string \<Rightarrow> bool"
  we_caps :: "win_call list \<Rightarrow> string \<Rightarrow> hidp_caps option"
  we_wstr :: "win_call list \<Rightarrow> wchar list"
  we_string :: "win_call list \<Rightarrow> string \<Rightarrow> win_string_id \<Rightarrow> nat \<Rightarrow> bool \<times> wchar list"
  we_set :: "win_call list \<Rightarrow> string \<Rightarrow> byte list \<Rightarrow> bool"
  we_ioctl :: "win_call list \<Rightarrow> string \<Rightarrow> byte list \<Rightarrow> win_io"
  we_write :: "win_call list \<Rightarrow> string \<Rightarrow> byte list \<Rightarrow> win_io"
  we_read :: "win_call list \<Rightarrow> string \<Rightarrow> win_io"
  we_wait :: "win_call list \<Rightarrow> string \<Rightarrow> int \<Rightarrow> bool"
  we_result :: "win_call list \<Rightarrow> string \<Rightarrow> byte list option"
  we_written :: "win_call list \<Rightarrow> string \<Rightarrow> nat option"
  we_settled :: "win_call list \<Rightarrow> string \<Rightarrow> bool"

section \<open>State\<close>

text \<open>\<open>struct hid_device_\<close>; of \<open>ol\<close> the event is kept, \<open>None\<close> stands for NULL and for \<open>INVALID_HANDLE_VALUE\<close>.\<close>

record win_dev =
  file_handle :: "nat option"
  win_blocking :: bool
  output_report_length :: u16
  input_report_length :: nat
  last_error_str :: "wchar list option"
  read_pending :: bool
  read_buf :: "byte list option"
  hEvent :: "nat option"

datatype win_object = Event | File string

text \<open>
  The allocated device structures, the handles of the process, the devices whose \<open>read_buf\<close> and \<open>ol\<close> the kernel may still use, the two
  static variables, the heap blocks in use, and the preparsed data not yet freed.
\<close>

record wst =
  wheap :: "nat \<Rightarrow> win_dev option"
  wnext :: nat
  win_handles :: "nat \<Rightarrow> win_object option"
  win_next_handle :: nat
  outstanding :: "nat set"
  lib_handle :: bool
  initialized :: bool
  wblocks :: int
  preparsed :: int
  wtrace :: "win_call list"

definition note_win :: "win_call \<Rightarrow> wst \<Rightarrow> wst" where
  "note_win c s = s\<lparr>wtrace := wtrace s @ [c]\<rparr>"

definition new_handle :: "win_object \<Rightarrow> wst \<Rightarrow> nat \<times> wst" where
  "new_handle ob s = (win_next_handle s, s\<lparr>win_handles := (win_handles s)(win_next_handle s \<mapsto> ob), win_next_handle := win_next_handle s + 1\<rparr>)"

definition close_handle :: "nat option \<Rightarrow> wst \<Rightarrow> wst" where
  "close_handle h s = (case h of
     None \<Rightarrow> s
   | Some n \<Rightarrow> (if win_handles s n = None then s else (note_win (WClose n) s)\<lparr>win_handles := (win_handles s)(n := None)\<rparr>))"

text \<open>A call on a handle: \<open>bad\<close> when it is not an open file, else what \<open>f\<close> answers.\<close>

definition on_file :: "nat option \<Rightarrow> (nat \<Rightarrow> win_call) \<Rightarrow> 'r \<Rightarrow> (win_call list \<Rightarrow> string \<Rightarrow> 'r) \<Rightarrow> wst \<Rightarrow> 'r \<times> wst" where
  "on_file h c bad f s = (case h of
     None \<Rightarrow> (bad, s)
   | Some n \<Rightarrow> (case win_handles s n of Some (File pa) \<Rightarrow> (f (wtrace s) pa, note_win (c n) s) | _ \<Rightarrow> (bad, s)))"

text \<open>The functions of \<^verbatim>\<open>hid.dll\<close> are called through pointers into the library.\<close>

definition hid_dll :: "wst \<Rightarrow> unit option" where
  "hid_dll s = (if lib_handle s then Some () else None)"

definition update_win :: "nat \<Rightarrow> (win_dev \<Rightarrow> win_dev) \<Rightarrow> wst \<Rightarrow> wst option" where
  "update_win a f s = (case wheap s a of None \<Rightarrow> None | Some d \<Rightarrow> Some (s\<lparr>wheap := (wheap s)(a \<mapsto> f d)\<rparr>))"

section \<open>Helpers of the file\<close>

definition create_event :: "win_env \<Rightarrow> wst \<Rightarrow> nat option \<times> wst" where
  "create_event E s = (if we_event E (wtrace s)
     then (case new_handle Event (note_win WEvent s) of (h, s1) \<Rightarrow> (Some h, s1)) else (None, note_win WEvent s))"

definition new_hid_device_win :: "win_env \<Rightarrow> wst \<Rightarrow> nat \<times> wst" where
  "new_hid_device_win E s =
     (case create_event E s of (ev, s1) \<Rightarrow>
        (wnext s1, s1\<lparr>wheap := (wheap s1)(wnext s1 \<mapsto>
            \<lparr>file_handle = None, win_blocking = True, output_report_length = 0, input_report_length = 0,
             last_error_str = None, read_pending = False, read_buf = None, hEvent = ev\<rparr>),
          wnext := wnext s1 + 1, wblocks := wblocks s1 + 1\<rparr>))"

definition device_blocks :: "win_dev \<Rightarrow> int" where
  "device_blocks d = 1 + some_block (last_error_str d) + some_block (read_buf d)"

definition free_hid_device_win :: "nat \<Rightarrow> wst \<Rightarrow> wst option" where
  "free_hid_device_win a s = do {
     d \<leftarrow> wheap s a;
     let s1 = close_handle (file_handle d) (close_handle (hEvent d) s);
     Some (s1\<lparr>wheap := (wheap s1)(a := None), wblocks := wblocks s1 - device_blocks d\<rparr>)
   }"

text \<open>When \<open>FormatMessageW\<close> fails, \<open>msg\<close> is not assigned. The message ends at the first carriage return.\<close>

definition register_error_win :: "win_env \<Rightarrow> nat \<Rightarrow> wst \<Rightarrow> wst option" where
  "register_error_win E a s = do {
     d \<leftarrow> wheap s a;
     msg \<leftarrow> we_message E (wtrace s);
     update_win a (\<lambda>d. d\<lparr>last_error_str := Some (takeWhile (\<lambda>c. c \<noteq> 0 \<and> c \<noteq> 13) msg)\<rparr>)
       ((note_win WMessage s)\<lparr>wblocks := wblocks s + 1 - some_block (last_error_str d)\<rparr>)
   }"

definition hid_functions :: "string list" where
  "hid_functions = [''HidD_GetAttributes'', ''HidD_GetSerialNumberString'', ''HidD_GetManufacturerString'',
     ''HidD_GetProductString'', ''HidD_SetFeature'', ''HidD_GetFeature'', ''HidD_GetIndexedString'',
     ''HidD_GetPreparsedData'', ''HidD_FreePreparsedData'', ''HidP_GetCaps'']"

definition lookup_functions :: "win_env \<Rightarrow> wst \<Rightarrow> int \<times> wst" where
  "lookup_functions E s =
     (let s1 = (note_win WLoad s)\<lparr>lib_handle := we_load E (wtrace s)\<rparr> in
      if lib_handle s1 then (if list_all (we_proc E (wtrace s1)) hid_functions then 0 else -1, s1) else (-1, s1))"

definition hid_exit_win :: "wst \<Rightarrow> int \<times> wst" where
  "hid_exit_win s =
     (0, (if lib_handle s then note_win WFree_library s else s)\<lparr>lib_handle := False, initialized := False\<rparr>)"

definition hid_init_win :: "win_env \<Rightarrow> wst \<Rightarrow> int \<times> wst" where
  "hid_init_win E s =
     (if initialized s then (0, s)
      else case lookup_functions E s of (r, s1) \<Rightarrow>
        if r < 0 then (-1, snd (hid_exit_win s1)) else (0, s1\<lparr>initialized := True\<rparr>))"

definition open_device :: "win_env \<Rightarrow> string \<Rightarrow> bool \<Rightarrow> wst \<Rightarrow> nat option \<times> wst" where
  "open_device E pa enum s =
     (let s1 = note_win (WCreate pa enum) s in
      if we_create E (wtrace s) pa enum
      then (case new_handle (File pa) s1 of (h, s2) \<Rightarrow> (Some h, s2)) else (None, s1))"

text \<open>\<open>HidD_GetPreparsedData\<close>, \<open>HidP_GetCaps\<close> and \<open>HidD_FreePreparsedData\<close>.\<close>

datatype caps_answer = No_data | No_caps | Caps hidp_caps

definition get_caps :: "win_env \<Rightarrow> nat option \<Rightarrow> wst \<Rightarrow> (caps_answer \<times> wst) option" where
  "get_caps E h s = do {
     _ \<leftarrow> hid_dll s;
     let (res, s1) = on_file h WPreparsed False (we_preparsed E) s;
     if \<not> res then Some (No_data, s1)
     else do {
       let (c, s2) = on_file h WCaps None (we_caps E) (s1\<lparr>preparsed := preparsed s1 + 1\<rparr>);
       Some ((case c of None \<Rightarrow> No_caps | Some x \<Rightarrow> Caps x), s2\<lparr>preparsed := preparsed s2 - 1\<rparr>) }
   }"

section \<open>Enumeration\<close>

text \<open>
  The loop over the devices of the set, which is about the set and not about the interface at hand; a property that cannot be
  read ends it.
\<close>

fun class_bound :: "win_devinfo list \<Rightarrow> bool" where
  "class_bound [] = False"
| "class_bound (d # ds) =
     (case dev_class d of
        None \<Rightarrow> False
      | Some c \<Rightarrow> if c = ''HIDClass'' \<and> driver_bound d then True else class_bound ds)"

text \<open>
  One of the three strings: the call fills \<open>wstr\<close>, of 512 characters, which keeps what an earlier one has left, its last
  character is set to 0, and on success the text in front of the first 0 is copied.
\<close>

definition fetch_wstr ::
    "win_env \<Rightarrow> nat option \<Rightarrow> win_string_id \<Rightarrow> wchar list \<Rightarrow> wst \<Rightarrow> (wchar list option \<times> wchar list \<times> wst) option" where
  "fetch_wstr E h k wstr s = do {
     _ \<leftarrow> hid_dll s;
     let ((ok, t), s1) = on_file h (\<lambda>n. WString n k 1024) (False, []) (\<lambda>tr pa. we_string E tr pa k 1024) s;
     wstr1 \<leftarrow> wr_block wstr 0 (take 512 t);
     wstr2 \<leftarrow> wr wstr1 511 0;
     Some (if ok then Some (takeWhile (\<lambda>c. c \<noteq> 0) wstr2) else None, wstr2, s1)
   }"

text \<open>What follows the first \<open>pat\<close>.\<close>

fun after_text :: "string \<Rightarrow> string \<Rightarrow> string option" where
  "after_text pat [] = (if pat = [] then Some [] else None)"
| "after_text pat (c # cs) =
     (if take (length pat) (c # cs) = pat then Some (drop (length pat) (c # cs)) else after_text pat cs)"

text \<open>
  \<open>strtol\<close> with base 16 into a 32 bit \<open>long\<close>; a \<open>0x\<close> without digits is a 0. Only when nothing could be read at all is
  the number -1.
\<close>

definition interface_of_path :: "string \<Rightarrow> int" where
  "interface_of_path pa =
     (case after_text ''&mi_'' pa of
        None \<Rightarrow> -1
      | Some hex_str \<Rightarrow>
          (case scan_number hex_val 16 hex_str of
             Some (v, _) \<Rightarrow> max (- (2 ^ 31)) (min (2 ^ 31 - 1) v)
           | None \<Rightarrow>
               (case dropWhile is_space hex_str of
                  [] \<Rightarrow> -1
                | c # cs \<Rightarrow>
                    if c = CHR ''0'' \<or> (c = CHR ''-'' \<or> c = CHR ''+'') \<and> cs \<noteq> [] \<and> hd cs = CHR ''0'' then 0 else -1)))"

text \<open>The record for a device that matches; the fields of \<open>calloc\<close> are 0.\<close>

definition describe_win ::
    "win_env \<Rightarrow> string \<Rightarrow> nat option \<Rightarrow> u16 \<times> u16 \<times> u16 \<Rightarrow> wst \<Rightarrow> (hid_device_info \<times> wst) option" where
  "describe_win E pa h attrib s = do {
     (caps, s1) \<leftarrow> get_caps E h s;
     let wstr = take 512 (we_wstr E (wtrace s1) @ replicate 512 0);
     (sn, wstr1, s2) \<leftarrow> fetch_wstr E h Serial_string wstr s1;
     (man, wstr2, s3) \<leftarrow> fetch_wstr E h Manufacturer_string wstr1 s2;
     (prod, wstr3, s4) \<leftarrow> fetch_wstr E h Product_string wstr2 s3;
     Some (case attrib of (vid, pid, version) \<Rightarrow>
       (\<lparr>path = Some pa, vendor_id = vid, product_id = pid, serial_number = sn, release_number = version,
         manufacturer_string = man, product_string = prod,
         usage_page = (case caps of Caps c \<Rightarrow> cap_usage_page c | _ \<Rightarrow> 0),
         usage = (case caps of Caps c \<Rightarrow> cap_usage c | _ \<Rightarrow> 0), interface_number = interface_of_path pa\<rparr>, s4))
   }"

text \<open>One turn of the loop over the interfaces. The result of \<open>HidD_GetAttributes\<close> is not looked at.\<close>

definition enum_interface_win ::
    "win_env \<Rightarrow> u16 \<Rightarrow> u16 \<Rightarrow> win_devinfo list \<Rightarrow> string option \<Rightarrow> wst \<Rightarrow> (hid_device_info list \<times> wst) option" where
  "enum_interface_win E v p infos detail s =
     (case detail of
        None \<Rightarrow> Some ([], s)
      | Some pa \<Rightarrow>
          if \<not> class_bound infos then Some ([], s)
          else do {
            let (h, s1) = open_device E pa True s;
            if h = None then Some ([], close_handle h s1)
            else do {
              _ \<leftarrow> hid_dll s1;
              let (attrib, s2) = on_file h WAttributes (0, 0, 0) (we_attributes E) s1;
              if id_match v p (fst attrib) (fst (snd attrib)) then do {
                (d, s3) \<leftarrow> describe_win E pa h attrib s2;
                Some ([d], close_handle h (s3\<lparr>wblocks := wblocks s3 + info_blocks d\<rparr>)) }
              else Some ([], close_handle h s2) } })"

fun enum_interfaces_win ::
    "win_env \<Rightarrow> u16 \<Rightarrow> u16 \<Rightarrow> win_devinfo list \<Rightarrow> string option list \<Rightarrow> wst \<Rightarrow> (hid_device_info list \<times> wst) option" where
  "enum_interfaces_win E v p infos [] s = Some ([], s)"
| "enum_interfaces_win E v p infos (i # is) s = do {
     (ds, s1) \<leftarrow> enum_interface_win E v p infos i s;
     (es, s2) \<leftarrow> enum_interfaces_win E v p infos is s1;
     Some (ds @ es, s2)
   }"

definition hid_enumerate_win :: "win_env \<Rightarrow> u16 \<Rightarrow> u16 \<Rightarrow> wst \<Rightarrow> (hid_device_info list \<times> wst) option" where
  "hid_enumerate_win E v p s =
     (case hid_init_win E s of (r, s0) \<Rightarrow>
        if r < 0 then Some ([], s0)
        else case we_scan E (wtrace s0) of (interfaces, infos) \<Rightarrow> enum_interfaces_win E v p infos interfaces (note_win WScan s0))"

fun hid_free_enumeration_win :: "hid_device_info list \<Rightarrow> wst \<Rightarrow> wst" where
  "hid_free_enumeration_win [] s = s"
| "hid_free_enumeration_win (d # ds) s = hid_free_enumeration_win ds
     (s\<lparr>wblocks := wblocks s - some_block (path d) - some_block (serial_number d)
        - some_block (manufacturer_string d) - some_block (product_string d) - 1\<rparr>)"

section \<open>Opening and closing\<close>

text \<open>The error exit: the message is stored in a structure that is freed next.\<close>

definition open_failed_win :: "win_env \<Rightarrow> nat \<Rightarrow> wst \<Rightarrow> (nat option \<times> wst) option" where
  "open_failed_win E a s = do {
     s1 \<leftarrow> register_error_win E a s;
     s2 \<leftarrow> free_hid_device_win a s1;
     Some (None, s2)
   }"

text \<open>What \<open>read_buf\<close> holds after \<open>malloc\<close> does not matter: it is cleared in front of every read.\<close>

definition hid_open_path_win :: "win_env \<Rightarrow> string \<Rightarrow> wst \<Rightarrow> (nat option \<times> wst) option" where
  "hid_open_path_win E pa s =
     (case hid_init_win E s of (r, s0) \<Rightarrow>
        if r < 0 then Some (None, s0)
        else do {
          let (a, s1) = new_hid_device_win E s0;
          let (h, s2) = open_device E pa False s1;
          s3 \<leftarrow> update_win a (\<lambda>d. d\<lparr>file_handle := h\<rparr>) s2;
          if h = None then open_failed_win E a s3
          else do {
            (caps, s4) \<leftarrow> get_caps E h s3;
            case caps of
              Caps c \<Rightarrow> do {
                s5 \<leftarrow> update_win a (\<lambda>d. d\<lparr>output_report_length := cap_output c, input_report_length := unat (cap_input c),
                    read_buf := Some (replicate (unat (cap_input c)) 0)\<rparr>) (s4\<lparr>wblocks := wblocks s4 + 1\<rparr>);
                Some (Some a, s5) }
            | _ \<Rightarrow> open_failed_win E a s4 } })"

definition hid_open_win :: "win_env \<Rightarrow> u16 \<Rightarrow> u16 \<Rightarrow> wchar list option \<Rightarrow> wst \<Rightarrow> (nat option \<times> wst) option" where
  "hid_open_win E v p sn s = do {
     (devs, s1) \<leftarrow> hid_enumerate_win E v p s;
     path_to_open \<leftarrow> find_path v p sn devs;
     (handle, s2) \<leftarrow> (case path_to_open of
         None \<Rightarrow> Some (None, s1)
       | Some pa \<Rightarrow> hid_open_path_win E pa s1);
     Some (handle, hid_free_enumeration_win devs s2)
   }"

text \<open>\<open>CancelIo\<close> asks for the end of a request and does not wait for it.\<close>

definition cancel_io :: "nat option \<Rightarrow> wst \<Rightarrow> wst" where
  "cancel_io h s = snd (on_file h WCancel () (\<lambda>tr pa. ()) s)"

definition hid_close_win :: "win_env \<Rightarrow> nat option \<Rightarrow> wst \<Rightarrow> wst option" where
  "hid_close_win E dev s =
     (case dev of
        None \<Rightarrow> Some s
      | Some a \<Rightarrow> do {
          d \<leftarrow> wheap s a;
          let s1 = cancel_io (file_handle d) s;
          let settled = fst (on_file (file_handle d) WCancel True (we_settled E) s1);
          free_hid_device_win a (if settled then s1\<lparr>outstanding := outstanding s1 - {a}\<rparr> else s1) })"

section \<open>Reports\<close>

text \<open>A \<open>DWORD\<close> that is returned as an \<open>int\<close>.\<close>

definition int_of_dword :: "nat \<Rightarrow> int" where
  "int_of_dword n = signed_take_bit 31 (int n)"

text \<open>An error return.\<close>

definition failed_win :: "win_env \<Rightarrow> nat \<Rightarrow> 'b \<Rightarrow> wst \<Rightarrow> (int \<times> 'b \<times> wst) option" where
  "failed_win E a out s = do { s1 \<leftarrow> register_error_win E a s; Some (-1, out, s1) }"

text \<open>A report shorter than the longest one is padded with zeros, in a block that is freed again.\<close>

definition hid_write_win :: "win_env \<Rightarrow> nat \<Rightarrow> byte list \<Rightarrow> nat \<Rightarrow> wst \<Rightarrow> (int \<times> wst) option" where
  "hid_write_win E a data len s = do {
     d \<leftarrow> wheap s a;
     let n = unat (output_report_length d);
     buf \<leftarrow> (if n \<le> len then rd_block data 0 (len mod 2 ^ 32)
       else do { b \<leftarrow> rd_block data 0 len; Some (b @ replicate (n - len) 0) });
     let (ans, s1) = on_file (file_handle d) (\<lambda>h. WWrite h buf) Io_failed (\<lambda>tr pa. we_write E tr pa buf) s;
     let (written, s2) = (if ans = Io_failed then (None, s1) else on_file (file_handle d) WResult None (we_written E) s1);
     case written of
       None \<Rightarrow> do { (r, _, s3) \<leftarrow> failed_win E a () s2; Some (r, s3) }
     | Some k \<Rightarrow> Some (int_of_dword k, s2)
   }"

text \<open>The first part of \<open>hid_read_timeout\<close>: no second request while one is pending.\<close>

definition start_read :: "win_env \<Rightarrow> nat \<Rightarrow> wst \<Rightarrow> (bool \<times> wst) option" where
  "start_read E a s = do {
     d \<leftarrow> wheap s a;
     if read_pending d then Some (True, s)
     else do {
       buf \<leftarrow> read_buf d;
       buf0 \<leftarrow> wr_block buf 0 (replicate (input_report_length d) 0);
       s1 \<leftarrow> update_win a (\<lambda>d. d\<lparr>read_pending := True, read_buf := Some buf0\<rparr>) s;
       let (ans, s2) = on_file (file_handle d) (\<lambda>h. WRead h (input_report_length d)) Io_failed (we_read E) s1;
       case ans of
         Io_done \<Rightarrow> Some (True, s2)
       | Io_pending \<Rightarrow> Some (True, s2\<lparr>outstanding := insert a (outstanding s2)\<rparr>)
       | Io_failed \<Rightarrow> do {
           s3 \<leftarrow> update_win a (\<lambda>d. d\<lparr>read_pending := False\<rparr>) (cancel_io (file_handle d) s2);
           Some (False, s3) } }
   }"

definition wait_event :: "win_env \<Rightarrow> win_dev \<Rightarrow> int \<Rightarrow> wst \<Rightarrow> bool \<times> wst" where
  "wait_event E d milliseconds s =
     (if hEvent d = None then (False, s)
      else on_file (file_handle d) (\<lambda>h. WWait h milliseconds) False (\<lambda>tr pa. we_wait E tr pa milliseconds) s)"

text \<open>The bytes of a report for the caller: a leading 0 is no report number and is left out.\<close>

definition copy_report :: "byte list \<Rightarrow> nat \<Rightarrow> byte list \<Rightarrow> nat \<Rightarrow> (int \<times> byte list) option" where
  "copy_report buf bytes_read data len =
     (if bytes_read = 0 then Some (0, data)
      else do {
        first \<leftarrow> rd buf 0;
        let k = (if first = 0 then 1 else 0);
        bs \<leftarrow> rd_block buf k (min len (bytes_read - k));
        data' \<leftarrow> wr_block data 0 bs;
        Some (int_of_dword (bytes_read - k), data') })"

text \<open>The rest, from \<open>GetOverlappedResult\<close> on, which waits for the request.\<close>

definition finish_read :: "win_env \<Rightarrow> nat \<Rightarrow> byte list \<Rightarrow> nat \<Rightarrow> wst \<Rightarrow> (int \<times> byte list \<times> wst) option" where
  "finish_read E a data len s = do {
     d \<leftarrow> wheap s a;
     let (ans, s1) = on_file (file_handle d) WResult None (we_result E) s;
     s2 \<leftarrow> update_win a (\<lambda>d. d\<lparr>read_pending := False\<rparr>) (s1\<lparr>outstanding := outstanding s1 - {a}\<rparr>);
     case ans of
       None \<Rightarrow> failed_win E a data s2
     | Some bs \<Rightarrow> do {
         buf \<leftarrow> read_buf d;
         let got = take (input_report_length d) bs;
         buf1 \<leftarrow> wr_block buf 0 got;
         s3 \<leftarrow> update_win a (\<lambda>d. d\<lparr>read_buf := Some buf1\<rparr>) s2;
         (r, data') \<leftarrow> copy_report buf1 (length got) data len;
         Some (r, data', s3) }
   }"

definition hid_read_timeout_win ::
    "win_env \<Rightarrow> nat \<Rightarrow> byte list \<Rightarrow> nat \<Rightarrow> int \<Rightarrow> wst \<Rightarrow> (int \<times> byte list \<times> wst) option" where
  "hid_read_timeout_win E a data len milliseconds s = do {
     (started, s1) \<leftarrow> start_read E a s;
     if \<not> started then failed_win E a data s1
     else if 0 \<le> milliseconds then do {
       d \<leftarrow> wheap s1 a;
       let (ready, s2) = wait_event E d milliseconds s1;
       if ready then finish_read E a data len s2 else Some (0, data, s2) }
     else finish_read E a data len s1
   }"

definition hid_read_win :: "win_env \<Rightarrow> nat \<Rightarrow> byte list \<Rightarrow> nat \<Rightarrow> wst \<Rightarrow> (int \<times> byte list \<times> wst) option" where
  "hid_read_win E a data len s = do {
     d \<leftarrow> wheap s a;
     hid_read_timeout_win E a data len (if win_blocking d then -1 else 0) s
   }"

definition hid_set_nonblocking_win :: "nat \<Rightarrow> bool \<Rightarrow> wst \<Rightarrow> (int \<times> wst) option" where
  "hid_set_nonblocking_win a nonblock s = do {
     s1 \<leftarrow> update_win a (\<lambda>d. d\<lparr>win_blocking := \<not> nonblock\<rparr>) s;
     Some (0, s1)
   }"

definition hid_send_feature_report_win :: "win_env \<Rightarrow> nat \<Rightarrow> byte list \<Rightarrow> nat \<Rightarrow> wst \<Rightarrow> (int \<times> wst) option" where
  "hid_send_feature_report_win E a data len s = do {
     _ \<leftarrow> hid_dll s;
     d \<leftarrow> wheap s a;
     buf \<leftarrow> rd_block data 0 (len mod 2 ^ 32);
     let (res, s1) = on_file (file_handle d) (\<lambda>h. WSet h buf) False (\<lambda>tr pa. we_set E tr pa buf) s;
     if res then Some (int_of_dword len, s1)
     else do { (r, _, s2) \<leftarrow> failed_win E a () s1; Some (r, s2) }
   }"

text \<open>\<open>data\<close> is both the input and the output of the request.\<close>

definition hid_get_feature_report_win ::
    "win_env \<Rightarrow> nat \<Rightarrow> byte list \<Rightarrow> nat \<Rightarrow> wst \<Rightarrow> (int \<times> byte list \<times> wst) option" where
  "hid_get_feature_report_win E a data len s = do {
     d \<leftarrow> wheap s a;
     let k = len mod 2 ^ 32;
     buf \<leftarrow> rd_block data 0 k;
     let (ans, s1) = on_file (file_handle d) (\<lambda>h. WIoctl h buf) Io_failed (\<lambda>tr pa. we_ioctl E tr pa buf) s;
     let (res, s2) = (if ans = Io_failed then (None, s1) else on_file (file_handle d) WResult None (we_result E) s1);
     case res of
       None \<Rightarrow> failed_win E a data s2
     | Some bs \<Rightarrow> do {
         data' \<leftarrow> wr_block data 0 (take k bs);
         Some (int_of_dword (length (take k bs)), data', s2) }
   }"

section \<open>Strings and errors\<close>

text \<open>A wide character has two bytes there, the length in bytes is a 32 bit number.\<close>

definition get_string_win ::
    "win_env \<Rightarrow> nat \<Rightarrow> win_string_id \<Rightarrow> wchar list \<Rightarrow> nat \<Rightarrow> wst \<Rightarrow> (int \<times> wchar list \<times> wst) option" where
  "get_string_win E a key str maxlen s = do {
     _ \<leftarrow> hid_dll s;
     d \<leftarrow> wheap s a;
     let k = (2 * maxlen) mod 2 ^ 32;
     let ((res, t), s1) = on_file (file_handle d) (\<lambda>h. WString h key k) (False, []) (\<lambda>tr pa. we_string E tr pa key k) s;
     str' \<leftarrow> wr_block str 0 (take (k div 2) t);
     if res then Some (0, str', s1) else failed_win E a str' s1
   }"

definition hid_get_manufacturer_string_win ::
    "win_env \<Rightarrow> nat \<Rightarrow> wchar list \<Rightarrow> nat \<Rightarrow> wst \<Rightarrow> (int \<times> wchar list \<times> wst) option" where
  "hid_get_manufacturer_string_win E a str maxlen s = get_string_win E a Manufacturer_string str maxlen s"

definition hid_get_product_string_win ::
    "win_env \<Rightarrow> nat \<Rightarrow> wchar list \<Rightarrow> nat \<Rightarrow> wst \<Rightarrow> (int \<times> wchar list \<times> wst) option" where
  "hid_get_product_string_win E a str maxlen s = get_string_win E a Product_string str maxlen s"

definition hid_get_serial_number_string_win ::
    "win_env \<Rightarrow> nat \<Rightarrow> wchar list \<Rightarrow> nat \<Rightarrow> wst \<Rightarrow> (int \<times> wchar list \<times> wst) option" where
  "hid_get_serial_number_string_win E a str maxlen s = get_string_win E a Serial_string str maxlen s"

definition hid_get_indexed_string_win ::
    "win_env \<Rightarrow> nat \<Rightarrow> int \<Rightarrow> wchar list \<Rightarrow> nat \<Rightarrow> wst \<Rightarrow> (int \<times> wchar list \<times> wst) option" where
  "hid_get_indexed_string_win E a string_index str maxlen s = get_string_win E a (Indexed_string string_index) str maxlen s"

definition hid_error_win :: "nat \<Rightarrow> wst \<Rightarrow> wchar list option option" where
  "hid_error_win a s = map_option last_error_str (wheap s a)"

definition windows_backend :: "win_env \<Rightarrow> wst hidapi" where
  "windows_backend E =
     \<lparr>api_enumerate = hid_enumerate_win E,
      api_free_enumeration = (\<lambda>ds s. Some (hid_free_enumeration_win ds s)),
      api_open = hid_open_win E,
      api_send_feature_report = hid_send_feature_report_win E,
      api_get_feature_report = hid_get_feature_report_win E,
      api_close = hid_close_win E,
      api_exit = (\<lambda>s. Some (hid_exit_win s))\<rparr>"

end
