(* ===== verification/HidWindowsContract.thy ===== *)
theory HidWindowsContract
  imports HidWindows
begin

text \<open>
  The Windows implementation keeps its device structures, handles, heap blocks and outstanding reads in step, and meets the contract
  \<open>hid_backend\<close> of the token library, as the two Linux ones do.
\<close>

section \<open>The invariant\<close>

text \<open>
  A device has an open file of its own, its event if there is one, a read buffer of the size of an input report, and while the kernel
  may use that buffer the flag \<open>read_pending\<close> is set.
\<close>

definition own_handles :: "win_dev \<Rightarrow> nat set" where
  "own_handles d = set_option (file_handle d) \<union> set_option (hEvent d)"

definition handles_ok :: "wst \<Rightarrow> win_dev \<Rightarrow> bool" where
  "handles_ok s d \<longleftrightarrow> (\<exists>h pa. file_handle d = Some h \<and> win_handles s h = Some (File pa)) \<and>
     (\<forall>e. hEvent d = Some e \<longrightarrow> win_handles s e = Some Event)"

definition buffer_ok :: "win_dev \<Rightarrow> bool" where
  "buffer_ok d \<longleftrightarrow> map_option length (read_buf d) = Some (input_report_length d) \<and> input_report_length d < 2 ^ 16"

definition win_inv :: "wst \<Rightarrow> bool" where
  "win_inv s \<longleftrightarrow>
     (initialized s \<longrightarrow> lib_handle s) \<and>
     (\<forall>a. wnext s \<le> a \<longrightarrow> wheap s a = None \<and> a \<notin> outstanding s) \<and>
     (\<forall>h. win_next_handle s \<le> h \<longrightarrow> win_handles s h = None) \<and>
     (\<forall>a d. wheap s a = Some d \<longrightarrow> handles_ok s d \<and> buffer_ok d \<and> (a \<in> outstanding s \<longrightarrow> read_pending d)) \<and>
     (\<forall>a b d e. wheap s a = Some d \<longrightarrow> wheap s b = Some e \<longrightarrow> a \<noteq> b \<longrightarrow> own_handles d \<inter> own_handles e = {})"

definition win_live :: "wst \<Rightarrow> nat set" where
  "win_live s = dom (wheap s)"

text \<open>What is held: the devices, every open handle, and the data from \<open>HidD_GetPreparsedData\<close> that has not been freed.\<close>

type_synonym win_holding = "nat set \<times> (nat \<Rightarrow> win_object option) \<times> int"

definition win_held :: "wst \<Rightarrow> win_holding" where
  "win_held s = (win_live s, win_handles s, preparsed s)"

definition win_over :: "wst \<Rightarrow> nat \<Rightarrow> win_holding \<Rightarrow> bool" where
  "win_over s a x \<longleftrightarrow> (\<exists>d. wheap s a = Some d \<and>
     x = (win_live s - {a}, (\<lambda>n. if n \<in> own_handles d then None else win_handles s n), preparsed s))"

lemma bind_triple_Some_iff:
  "Option.bind m (\<lambda>(x, y, z). f x y z) = Some r \<longleftrightarrow> (\<exists>x y z. m = Some (x, y, z) \<and> f x y z = Some r)"
  by (cases m) auto

section \<open>Calls that leave the devices alone\<close>

text \<open>\<open>aside\<close>: devices, handles and requests are as before; the library may have been loaded or unloaded, addresses used up.\<close>

definition aside :: "wst \<Rightarrow> wst \<Rightarrow> bool" where
  "aside s s' \<longleftrightarrow> wheap s' = wheap s \<and> wnext s \<le> wnext s' \<and> win_handles s' = win_handles s \<and> win_next_handle s \<le> win_next_handle s' \<and>
     outstanding s' = outstanding s \<and> preparsed s' = preparsed s \<and>
     ((initialized s \<longrightarrow> lib_handle s) \<longrightarrow> (initialized s' \<longrightarrow> lib_handle s'))"

lemma aside_refl [simp, intro]: "aside s s"
  by (simp add: aside_def)

lemma aside_trans [trans]: "aside a b \<Longrightarrow> aside b c \<Longrightarrow> aside a c"
  by (auto simp: aside_def)

lemma aside_updates [simp]:
  "aside s (s'\<lparr>wblocks := b\<rparr>) = aside s s'" "aside s (note_win c s') = aside s s'"
  by (simp_all add: aside_def note_win_def)

lemma note_win_fields [simp]:
  "wheap (note_win c s) = wheap s" "wnext (note_win c s) = wnext s" "win_handles (note_win c s) = win_handles s"
  "win_next_handle (note_win c s) = win_next_handle s" "outstanding (note_win c s) = outstanding s"
  "lib_handle (note_win c s) = lib_handle s" "initialized (note_win c s) = initialized s"
  "wblocks (note_win c s) = wblocks s" "preparsed (note_win c s) = preparsed s" "wtrace (note_win c s) = wtrace s @ [c]"
  by (simp_all add: note_win_def)

lemma aside_inv: "aside s s' \<Longrightarrow> win_inv s \<Longrightarrow> win_inv s' \<and> win_live s' = win_live s"
  by (auto simp: aside_def win_inv_def win_live_def handles_ok_def)

lemma aside_held: "aside s s' \<Longrightarrow> win_inv s \<Longrightarrow> win_inv s' \<and> win_held s' = win_held s"
  using aside_inv [of s s'] by (simp add: aside_def win_held_def)

text \<open>A call on a handle is a note in the history.\<close>

lemma on_file_noted:
  assumes "on_file h c bad f s = (r, s')"
  obtains "s' = s" | n where "s' = note_win (c n) s"
  using assms by (auto simp: on_file_def split: option.splits win_object.splits)

lemma on_file_aside: "on_file h c bad f s = (r, s') \<Longrightarrow>
    aside s s' \<and> wblocks s' = wblocks s \<and> lib_handle s' = lib_handle s \<and> initialized s' = initialized s \<and> win_next_handle s' = win_next_handle s"
  by (erule on_file_noted) (simp_all add: aside_def)

lemma on_file_open: "win_handles s n = Some (File pa) \<Longrightarrow> on_file (Some n) c bad f s = (f (wtrace s) pa, note_win (c n) s)"
  by (simp add: on_file_def)

lemma cancel_io_noted: "cancel_io h s = s \<or> (\<exists>n. cancel_io h s = note_win (WCancel n) s)"
  by (auto simp: cancel_io_def on_file_def split: option.splits win_object.splits)

lemma cancel_io_fields [simp]:
  "wheap (cancel_io h s) = wheap s" "wnext (cancel_io h s) = wnext s" "win_handles (cancel_io h s) = win_handles s"
  "win_next_handle (cancel_io h s) = win_next_handle s" "outstanding (cancel_io h s) = outstanding s"
  "lib_handle (cancel_io h s) = lib_handle s" "initialized (cancel_io h s) = initialized s"
  "wblocks (cancel_io h s) = wblocks s" "preparsed (cancel_io h s) = preparsed s"
  using cancel_io_noted [of h s] by auto

section \<open>Loading the library\<close>

lemma hid_exit_win_frame: "aside s (snd (hid_exit_win s)) \<and> wblocks (snd (hid_exit_win s)) = wblocks s"
  by (simp add: hid_exit_win_def aside_def)

lemma hid_init_win_frame:
  assumes "hid_init_win E s = (r, s')"
  shows "aside s s' \<and> wblocks s' = wblocks s \<and> (r = 0 \<and> (win_inv s \<longrightarrow> lib_handle s') \<or> r = -1)"
  using assms
  by (auto simp: hid_init_win_def lookup_functions_def hid_exit_win_def Let_def aside_def win_inv_def split: if_splits)

section \<open>Handles\<close>

text \<open>A handle that was opened and closed again leaves no trace in the table.\<close>

lemma fresh_handle_closed:
  "win_handles s (win_next_handle s) = None \<Longrightarrow> (win_handles s)(win_next_handle s \<mapsto> ob, win_next_handle s := None) = win_handles s"
  by (simp add: fun_upd_idem)

lemma get_caps_aside:
  assumes "get_caps E h s = Some (c, s')"
  shows "aside s s' \<and> wblocks s' = wblocks s \<and> lib_handle s' = lib_handle s"
proof -
  obtain res s1 where 1: "on_file h WPreparsed False (we_preparsed E) s = (res, s1)" by force
  obtain x s2 where 2: "on_file h WCaps None (we_caps E) (s1\<lparr>preparsed := preparsed s1 + 1\<rparr>) = (x, s2)" by force
  have "s' = (if res then s2\<lparr>preparsed := preparsed s2 - 1\<rparr> else s1)"
    using assms by (auto simp: get_caps_def 1 2 Let_def elim!: bind_SomeE)
  then show ?thesis using on_file_aside [OF 1] on_file_aside [OF 2] by (auto simp: aside_def)
qed

lemma fetch_wstr_aside:
  assumes "fetch_wstr E h k wstr s = Some (t, wstr', s')"
  shows "aside s s' \<and> wblocks s' = wblocks s \<and> length wstr' = length wstr"
proof -
  obtain ok u s1 where 1: "on_file h (\<lambda>n. WString n k 1024) (False, []) (\<lambda>tr pa. we_string E tr pa k 1024) s = ((ok, u), s1)"
    by (metis surj_pair)
  have "s' = s1 \<and> length wstr' = length wstr"
    using assms unfolding fetch_wstr_def 1 Let_def by (auto simp: buf_iffs elim!: bind_SomeE)
  then show ?thesis using on_file_aside [OF 1] by simp
qed

section \<open>Enumeration\<close>

lemma describe_win_frame:
  assumes "describe_win E pa h attrib s = Some (d, s')"
  shows "aside s s' \<and> wblocks s' = wblocks s \<and> vendor_id d = fst attrib \<and> product_id d = fst (snd attrib)"
proof -
  let ?w = "\<lambda>s1. take 512 (we_wstr E (wtrace s1) @ replicate 512 0)"
  from assms obtain caps s1 sn w1 s2 man w2 s3 prod w3 s4 where
    1: "get_caps E h s = Some (caps, s1)" "fetch_wstr E h Serial_string (?w s1) s1 = Some (sn, w1, s2)"
      "fetch_wstr E h Manufacturer_string w1 s2 = Some (man, w2, s3)" "fetch_wstr E h Product_string w2 s3 = Some (prod, w3, s4)"
    and r: "(case attrib of (vid, pid, version) \<Rightarrow>
       (\<lparr>path = Some pa, vendor_id = vid, product_id = pid, serial_number = sn, release_number = version,
         manufacturer_string = man, product_string = prod,
         usage_page = (case caps of Caps c \<Rightarrow> cap_usage_page c | _ \<Rightarrow> 0),
         usage = (case caps of Caps c \<Rightarrow> cap_usage c | _ \<Rightarrow> 0), interface_number = interface_of_path pa\<rparr>, s4)) = (d, s')"
    unfolding describe_win_def Let_def bind_pair_Some_iff [where m = "get_caps E h s"] bind_triple_Some_iff option.inject
    by blast
  have d: "vendor_id d = fst attrib" "product_id d = fst (snd attrib)" "s' = s4" using r by (auto split: prod.splits)
  have "aside s s4" using get_caps_aside [OF 1(1)] fetch_wstr_aside [OF 1(2)] fetch_wstr_aside [OF 1(3)] fetch_wstr_aside [OF 1(4)]
    aside_trans by blast
  then show ?thesis using get_caps_aside [OF 1(1)] fetch_wstr_aside [OF 1(2)] fetch_wstr_aside [OF 1(3)] fetch_wstr_aside [OF 1(4)] d
    by simp
qed

lemma close_handle_blocks [simp]: "wblocks (close_handle h s) = wblocks s"
  by (simp add: close_handle_def split: option.splits)

lemma open_device_frame:
  assumes "open_device E pa enum s = (h, s1)"
  shows "wblocks s1 = wblocks s \<and> wheap s1 = wheap s \<and> wnext s1 = wnext s \<and> outstanding s1 = outstanding s \<and>
    lib_handle s1 = lib_handle s \<and> initialized s1 = initialized s \<and> preparsed s1 = preparsed s \<and>
    (h = None \<longrightarrow> win_handles s1 = win_handles s \<and> win_next_handle s1 = win_next_handle s) \<and>
    (\<forall>n. h = Some n \<longrightarrow> n = win_next_handle s \<and> win_handles s1 = (win_handles s)(n \<mapsto> File pa) \<and> win_next_handle s1 = win_next_handle s + 1)"
  using assms by (auto simp: open_device_def new_handle_def Let_def split: if_splits)

lemma close_handle_new:
  assumes "open_device E pa enum s = (Some h, s1)" "aside s1 s2" "win_handles s (win_next_handle s) = None"
  shows "aside s (close_handle (Some h) s2)"
proof -
  note f = open_device_frame [OF assms(1)]
  have c: "close_handle (Some h) s2 = (note_win (WClose h) s2)\<lparr>win_handles := (win_handles s2)(h := None)\<rparr>"
    using f assms(2) by (simp add: close_handle_def aside_def)
  have "(win_handles s2)(h := None) = win_handles s"
    using f assms(2,3) fresh_handle_closed [of s "File pa"] by (simp add: aside_def)
  then show ?thesis unfolding c using f assms(2) by (simp add: aside_def)
qed

lemma enum_interface_frame:
  assumes e: "enum_interface_win E v p infos detail s = Some (ds, s')" and f: "win_handles s (win_next_handle s) = None"
  shows "aside s s' \<and> wblocks s' = wblocks s + list_blocks ds \<and> list_all (info_matches v p) ds"
proof (cases "detail \<noteq> None \<and> class_bound infos")
  case False
  then show ?thesis using e by (auto simp: enum_interface_win_def split: option.splits)
next
  case True
  then obtain pa where pa: "detail = Some pa" by blast
  obtain h s1 where o: "open_device E pa True s = (h, s1)" by force
  note fr = open_device_frame [OF o]
  obtain attrib s2 where 2: "on_file h WAttributes (0, 0, 0) (we_attributes E) s1 = (attrib, s2)" by (metis surj_pair)
  note a2 = on_file_aside [OF 2]
  show ?thesis
  proof (cases h)
    case None
    then show ?thesis using e True pa o fr by (auto simp: enum_interface_win_def close_handle_def aside_def)
  next
    case h: (Some n)
    have l: "hid_dll s1 = Some ()" using e True pa o h by (auto simp: enum_interface_win_def hid_dll_def split: if_splits)
    have e2: "(if id_match v p (fst attrib) (fst (snd attrib)) then do {
           (d, s3) \<leftarrow> describe_win E pa (Some n) attrib s2;
           Some ([d], close_handle (Some n) (s3\<lparr>wblocks := wblocks s3 + info_blocks d\<rparr>)) }
         else Some ([], close_handle (Some n) s2)) = Some (ds, s')"
      using e True pa o h l 2 by (simp add: enum_interface_win_def split del: if_split)
    show ?thesis
    proof (cases "id_match v p (fst attrib) (fst (snd attrib))")
      case False
      then show ?thesis using e2 a2 fr close_handle_new [OF o [unfolded h] _ f, of s2] by (auto simp: h)
    next
      case m: True
      then obtain d s3 where d: "describe_win E pa (Some n) attrib s2 = Some (d, s3)" "ds = [d]"
        "s' = close_handle (Some n) (s3\<lparr>wblocks := wblocks s3 + info_blocks d\<rparr>)"
        using e2 by (auto elim!: bind_SomeE)
      note fd = describe_win_frame [OF d(1)]
      have "aside s1 (s3\<lparr>wblocks := wblocks s3 + info_blocks d\<rparr>)" using a2 fd aside_trans by auto
      from close_handle_new [OF o [unfolded h] this f] have "aside s s'" by (simp add: d(3) h)
      then show ?thesis using fd a2 fr m d by (simp add: info_matches_def)
    qed
  qed
qed

lemma aside_fresh: "aside s s' \<Longrightarrow> \<forall>h\<ge>win_next_handle s. win_handles s h = None \<Longrightarrow> \<forall>h\<ge>win_next_handle s'. win_handles s' h = None"
  by (auto simp: aside_def)

lemma enum_interfaces_frame:
  "enum_interfaces_win E v p infos is s = Some (ds, s') \<Longrightarrow> \<forall>h\<ge>win_next_handle s. win_handles s h = None \<Longrightarrow>
    aside s s' \<and> wblocks s' = wblocks s + list_blocks ds \<and> list_all (info_matches v p) ds"
proof (induction "is" arbitrary: s ds)
  case (Cons i "is")
  then obtain ds1 s1 ds2 where 1: "enum_interface_win E v p infos i s = Some (ds1, s1)"
    "enum_interfaces_win E v p infos is s1 = Some (ds2, s')" "ds = ds1 @ ds2"
    by (auto elim!: bind_SomeE)
  have f1: "aside s s1 \<and> wblocks s1 = wblocks s + list_blocks ds1 \<and> list_all (info_matches v p) ds1"
    by (rule enum_interface_frame [OF 1(1)]) (use Cons.prems(2) in blast)
  show ?case using f1 Cons.IH [OF 1(2) aside_fresh [OF _ Cons.prems(2)]] 1(3) aside_trans by auto
qed simp

lemma enumerate_win_frame:
  assumes "hid_enumerate_win E v p s = Some (ds, s')" "win_inv s"
  shows "aside s s' \<and> wblocks s' = wblocks s + list_blocks ds \<and> list_all (info_matches v p) ds"
proof -
  obtain r s0 where 0: "hid_init_win E s = (r, s0)" by force
  note i = hid_init_win_frame [OF 0]
  obtain interfaces infos where sc: "we_scan E (wtrace s0) = (interfaces, infos)" by force
  show ?thesis
  proof (cases "r < 0")
    case True
    then show ?thesis using assms(1) 0 i by (auto simp: hid_enumerate_win_def)
  next
    case False
    then have e: "enum_interfaces_win E v p infos interfaces (note_win WScan s0) = Some (ds, s')"
      using assms(1) 0 sc by (simp add: hid_enumerate_win_def)
    have "\<forall>h\<ge>win_next_handle s0. win_handles s0 h = None"
      using aside_fresh [of s s0] i assms(2) unfolding win_inv_def by blast
    from enum_interfaces_frame [OF e] this i have "aside (note_win WScan s0) s'" "wblocks s' = wblocks s + list_blocks ds"
      "list_all (info_matches v p) ds" by simp_all
    moreover have "aside s (note_win WScan s0)" using i by simp
    ultimately show ?thesis using aside_trans [of s "note_win WScan s0" s'] i by blast
  qed
qed

lemma free_win_frame:
  "aside s (hid_free_enumeration_win ds s) \<and> wblocks (hid_free_enumeration_win ds s) = wblocks s - list_blocks ds"
proof (induction ds arbitrary: s)
  case (Cons d ds)
  let ?s = "s\<lparr>wblocks := wblocks s - some_block (path d) - some_block (serial_number d)
        - some_block (manufacturer_string d) - some_block (product_string d) - 1\<rparr>"
  have "aside s ?s" by simp
  then show ?case using Cons.IH [of ?s] aside_trans [of s ?s] by (simp add: info_blocks_def)
qed simp

section \<open>Opening\<close>

text \<open>\<open>opened a d s s'\<close>: the new device \<open>d\<close> at \<open>a\<close>, with handles of its own and nothing read yet.\<close>

definition opened :: "nat \<Rightarrow> win_dev \<Rightarrow> wst \<Rightarrow> wst \<Rightarrow> bool" where
  "opened a d s s' \<longleftrightarrow> wnext s \<le> a \<and> a < wnext s' \<and> wheap s' = (wheap s)(a \<mapsto> d) \<and> win_next_handle s \<le> win_next_handle s' \<and>
     (\<forall>h \<in> own_handles d. win_next_handle s \<le> h \<and> h < win_next_handle s') \<and>
     (\<forall>h. h \<notin> own_handles d \<longrightarrow> win_handles s' h = win_handles s h) \<and>
     handles_ok s' d \<and> buffer_ok d \<and> \<not> read_pending d \<and> outstanding s' = outstanding s \<and> preparsed s' = preparsed s \<and>
     ((initialized s \<longrightarrow> lib_handle s) \<longrightarrow> (initialized s' \<longrightarrow> lib_handle s')) \<and> wblocks s' = wblocks s + device_blocks d"

lemma handles_ok_same:
  assumes "handles_ok s d" "\<And>h. h \<in> own_handles d \<Longrightarrow> win_handles s' h = win_handles s h"
  shows "handles_ok s' d"
  using assms by (auto simp: handles_ok_def own_handles_def)

lemma inv_own_old:
  assumes "win_inv s" "wheap s b = Some e" "h \<in> own_handles e"
  shows "h < win_next_handle s \<and> win_handles s h \<noteq> None"
proof -
  have "handles_ok s e" using assms(1,2) unfolding win_inv_def by blast
  then have "win_handles s h \<noteq> None" using assms(3) by (auto simp: handles_ok_def own_handles_def)
  moreover have "win_next_handle s \<le> h \<longrightarrow> win_handles s h = None" using assms(1) by (simp add: win_inv_def)
  ultimately show ?thesis by (auto simp: not_le [symmetric])
qed

lemma opened_inv:
  assumes inv: "win_inv s" and o: "opened a d s s'"
  shows "win_inv s' \<and> a \<notin> win_live s \<and> win_live s' = insert a (win_live s)"
proof -
  have heap: "wheap s' = (wheap s)(a \<mapsto> d)" and out: "outstanding s' = outstanding s"
    and own: "\<And>h. h \<in> own_handles d \<Longrightarrow> win_next_handle s \<le> h \<and> h < win_next_handle s'"
    and rest: "\<And>h. h \<notin> own_handles d \<Longrightarrow> win_handles s' h = win_handles s h"
    and nxt: "wnext s \<le> a" "a < wnext s'" "win_next_handle s \<le> win_next_handle s'"
    using o by (simp_all add: opened_def)
  have fresh: "wheap s b = None" "b \<notin> outstanding s" if "wnext s \<le> b" for b using inv that by (simp_all add: win_inv_def)
  have apart: "own_handles d \<inter> own_handles e = {}" if "wheap s b = Some e" for b e
    using inv_own_old [OF inv that] own by force
  have old: "handles_ok s' e \<and> buffer_ok e \<and> (b \<in> outstanding s' \<longrightarrow> read_pending e)" if "wheap s b = Some e" for b e
  proof -
    have k: "handles_ok s e" "buffer_ok e" "b \<in> outstanding s \<longrightarrow> read_pending e" using inv that unfolding win_inv_def by blast+
    have "handles_ok s' e" by (rule handles_ok_same [OF k(1)]) (use rest apart [OF that] in blast)
    then show ?thesis using k out by simp
  qed
  have new: "handles_ok s' d \<and> buffer_ok d \<and> (a \<in> outstanding s' \<longrightarrow> read_pending d)"
    using o fresh(2) [OF nxt(1)] by (simp add: opened_def)
  have lib: "initialized s' \<longrightarrow> lib_handle s'" using o inv by (simp add: opened_def win_inv_def)
  have 1: "\<forall>b. wnext s' \<le> b \<longrightarrow> wheap s' b = None \<and> b \<notin> outstanding s'" using fresh nxt by (simp add: heap out)
  have 2: "\<forall>h. win_next_handle s' \<le> h \<longrightarrow> win_handles s' h = None"
  proof (intro allI impI)
    fix h assume h: "win_next_handle s' \<le> h"
    then have "h \<notin> own_handles d" using own by force
    then show "win_handles s' h = None" using rest inv h nxt(3) by (simp add: win_inv_def)
  qed
  have 3: "\<forall>b e. wheap s' b = Some e \<longrightarrow> handles_ok s' e \<and> buffer_ok e \<and> (b \<in> outstanding s' \<longrightarrow> read_pending e)"
    using old new by (simp add: heap)
  have dis: "own_handles e \<inter> own_handles e' = {}" if "wheap s b = Some e" "wheap s b' = Some e'" "b \<noteq> b'" for b b' e e'
    using inv that unfolding win_inv_def by blast
  have 4: "\<forall>b b' e e'. wheap s' b = Some e \<longrightarrow> wheap s' b' = Some e' \<longrightarrow> b \<noteq> b' \<longrightarrow> own_handles e \<inter> own_handles e' = {}"
    using apart dis by (auto simp: heap Int_commute split: if_splits)
  have "win_inv s'" unfolding win_inv_def using lib 1 2 3 4 by blast
  then show ?thesis using fresh [OF nxt(1)] by (auto simp: win_live_def heap)
qed

lemma opened_over:
  assumes "win_inv s" "opened a d s s'"
  shows "win_inv s' \<and> win_over s' a (win_held s)"
proof -
  note i = opened_inv [OF assms]
  have "(\<lambda>n. if n \<in> own_handles d then None else win_handles s' n) = win_handles s"
    using assms by (auto simp: fun_eq_iff opened_def win_inv_def)
  then show ?thesis using i assms(2) by (auto simp: win_over_def win_held_def opened_def)
qed

text \<open>The structure and its event, before and after the file is opened.\<close>

lemma create_event_shape:
  assumes "create_event E s = (ev, s1)"
  shows "wheap s1 = wheap s \<and> wnext s1 = wnext s \<and> outstanding s1 = outstanding s \<and> preparsed s1 = preparsed s \<and>
    lib_handle s1 = lib_handle s \<and> initialized s1 = initialized s \<and> wblocks s1 = wblocks s \<and>
    (ev = None \<and> win_handles s1 = win_handles s \<and> win_next_handle s1 = win_next_handle s \<or>
     ev = Some (win_next_handle s) \<and> win_handles s1 = (win_handles s)(win_next_handle s \<mapsto> Event) \<and>
       win_next_handle s1 = win_next_handle s + 1)"
  using assms by (auto simp: create_event_def new_handle_def split: if_splits)

definition created :: "nat \<Rightarrow> win_dev \<Rightarrow> string \<Rightarrow> wst \<Rightarrow> wst \<Rightarrow> bool" where
  "created a d pa s s' \<longleftrightarrow> wheap s' = (wheap s)(a \<mapsto> d) \<and> wnext s \<le> a \<and> a < wnext s' \<and> last_error_str d = None \<and>
     read_buf d = None \<and> \<not> read_pending d \<and> wblocks s' = wblocks s + 1 \<and> outstanding s' = outstanding s \<and>
     preparsed s' = preparsed s \<and> ((initialized s \<longrightarrow> lib_handle s) \<longrightarrow> (initialized s' \<longrightarrow> lib_handle s')) \<and>
     win_next_handle s \<le> win_next_handle s' \<and> (\<forall>n \<in> own_handles d. win_next_handle s \<le> n \<and> n < win_next_handle s') \<and>
     (\<forall>n. n \<notin> own_handles d \<longrightarrow> win_handles s' n = win_handles s n) \<and>
     (\<forall>n. file_handle d = Some n \<longrightarrow> win_handles s' n = Some (File pa)) \<and> (\<forall>n. hEvent d = Some n \<longrightarrow> win_handles s' n = Some Event)"

lemma new_device_shape:
  assumes "new_hid_device_win E s = (a, s1)" "open_device E pa False s1 = (h, s2)"
    "update_win a (\<lambda>d. d\<lparr>file_handle := h\<rparr>) s2 = Some s3"
  shows "\<exists>d. created a d pa s s3 \<and> file_handle d = h"
proof -
  obtain ev s0 where 0: "create_event E s = (ev, s0)" by force
  note e = create_event_shape [OF 0]
  let ?d = "\<lparr>file_handle = None, win_blocking = True, output_report_length = 0, input_report_length = 0,
             last_error_str = None, read_pending = False, read_buf = None, hEvent = ev\<rparr>"
  have 1: "a = wnext s" "s1 = s0\<lparr>wheap := (wheap s0)(wnext s0 \<mapsto> ?d), wnext := wnext s0 + 1, wblocks := wblocks s0 + 1\<rparr>"
    using assms(1) 0 e by (auto simp: new_hid_device_win_def)
  note f = open_device_frame [OF assms(2)]
  have w: "wheap s2 a = Some ?d" using f 1 e by simp
  then have 3: "s3 = s2\<lparr>wheap := (wheap s2)(a \<mapsto> ?d\<lparr>file_handle := h\<rparr>)\<rparr>" using assms(3) by (simp add: update_win_def)
  have "own_handles (?d\<lparr>file_handle := h\<rparr>) = set_option h \<union> set_option ev" by (simp add: own_handles_def)
  then show ?thesis
    using f e 1 by (intro exI [of _ "?d\<lparr>file_handle := h\<rparr>"]) (cases h; cases ev; auto simp: 3 created_def)
qed

lemma created_before: "aside s s0 \<Longrightarrow> wblocks s0 = wblocks s \<Longrightarrow> created a d pa s0 s' \<Longrightarrow> created a d pa s s'"
  unfolding created_def aside_def by (elim conjE) (simp, meson le_trans)

text \<open>The error exits give everything back.\<close>

lemma register_error_shape:
  assumes "register_error_win E a s = Some s'" "wheap s a = Some d"
  shows "\<exists>m. wheap s' = (wheap s)(a \<mapsto> d\<lparr>last_error_str := Some m\<rparr>) \<and> wblocks s' = wblocks s + 1 - some_block (last_error_str d) \<and>
    wnext s' = wnext s \<and> win_handles s' = win_handles s \<and> win_next_handle s' = win_next_handle s \<and> outstanding s' = outstanding s \<and>
    preparsed s' = preparsed s \<and> lib_handle s' = lib_handle s \<and> initialized s' = initialized s"
  using assms by (auto simp: register_error_win_def update_win_def elim!: bind_SomeE)

lemma close_handle_shape:
  "wheap (close_handle h s) = wheap s" "wnext (close_handle h s) = wnext s"
  "win_next_handle (close_handle h s) = win_next_handle s" "outstanding (close_handle h s) = outstanding s"
  "preparsed (close_handle h s) = preparsed s" "lib_handle (close_handle h s) = lib_handle s"
  "initialized (close_handle h s) = initialized s"
  "win_handles (close_handle h s) = (\<lambda>n. if h = Some n then None else win_handles s n)"
  by (auto simp: close_handle_def fun_eq_iff split: option.splits)

lemma free_device_shape:
  assumes "wheap s a = Some d"
  shows "\<exists>s'. free_hid_device_win a s = Some s' \<and> wheap s' = (wheap s)(a := None) \<and> wblocks s' = wblocks s - device_blocks d \<and>
    wnext s' = wnext s \<and> win_next_handle s' = win_next_handle s \<and> outstanding s' = outstanding s \<and> preparsed s' = preparsed s \<and>
    lib_handle s' = lib_handle s \<and> initialized s' = initialized s \<and>
    win_handles s' = (\<lambda>n. if n \<in> own_handles d then None else win_handles s n)"
  using assms by (auto simp: free_hid_device_win_def own_handles_def fun_eq_iff close_handle_shape)

lemma open_failed_shape:
  assumes "open_failed_win E a s = Some (r, s')" "wheap s a = Some d" "last_error_str d = None"
  shows "r = None \<and> wheap s' = (wheap s)(a := None) \<and> wblocks s' = wblocks s - device_blocks d \<and>
    wnext s' = wnext s \<and> win_next_handle s' = win_next_handle s \<and> outstanding s' = outstanding s \<and> preparsed s' = preparsed s \<and>
    lib_handle s' = lib_handle s \<and> initialized s' = initialized s \<and>
    win_handles s' = (\<lambda>n. if n \<in> own_handles d then None else win_handles s n)"
proof -
  obtain s1 where 1: "register_error_win E a s = Some s1" "free_hid_device_win a s1 = Some s'" "r = None"
    using assms(1) by (auto simp: open_failed_win_def elim!: bind_SomeE)
  obtain m where m: "wheap s1 = (wheap s)(a \<mapsto> d\<lparr>last_error_str := Some m\<rparr>)" "wblocks s1 = wblocks s + 1"
    "wnext s1 = wnext s" "win_handles s1 = win_handles s" "win_next_handle s1 = win_next_handle s" "outstanding s1 = outstanding s"
    "preparsed s1 = preparsed s" "lib_handle s1 = lib_handle s" "initialized s1 = initialized s"
    using register_error_shape [OF 1(1) assms(2)] assms(3) by auto
  have "wheap s1 a = Some (d\<lparr>last_error_str := Some m\<rparr>)" by (simp add: m)
  from free_device_shape [OF this] show ?thesis
    using 1 m assms(3) by (auto simp: device_blocks_def own_handles_def fun_eq_iff)
qed

lemma created_failed:
  assumes inv: "win_inv s" and c: "created a d pa s s3" and t: "aside s3 t" "wblocks t = wblocks s3"
    and f: "open_failed_win E a t = Some (r, s')"
  shows "r = None \<and> aside s s' \<and> wblocks s' = wblocks s"
proof -
  have d: "wheap s3 = (wheap s)(a \<mapsto> d)" "last_error_str d = None" "read_buf d = None" "wnext s \<le> a"
    "\<And>n. n \<in> own_handles d \<Longrightarrow> win_next_handle s \<le> n" "\<And>n. n \<notin> own_handles d \<Longrightarrow> win_handles s3 n = win_handles s n"
    using c by (simp_all add: created_def)
  have gone: "wheap s a = None" "\<And>n. n \<in> own_handles d \<Longrightarrow> win_handles s n = None"
    using inv d(4,5) by (simp_all add: win_inv_def)
  have "wheap t a = Some d" using t(1) d(1) by (simp add: aside_def)
  note sh = open_failed_shape [OF f this d(2)]
  have "win_handles s' = win_handles s" using sh t(1) d(6) gone(2) by (auto simp: fun_eq_iff aside_def)
  moreover have "wheap s' = wheap s" using sh t(1) d(1) gone(1) by (auto simp: aside_def)
  ultimately show ?thesis using sh t c d(2,3) by (auto simp: aside_def created_def device_blocks_def)
qed

lemma created_opened:
  assumes c: "created a d pa s s3" and t: "aside s3 t" "wblocks t = wblocks s3" and h: "file_handle d = Some n"
    and u: "update_win a (\<lambda>d. d\<lparr>output_report_length := cap_output c, input_report_length := unat (cap_input c),
      read_buf := Some (replicate (unat (cap_input c)) 0)\<rparr>) (t\<lparr>wblocks := wblocks t + 1\<rparr>) = Some s'"
  shows "\<exists>d. opened a d s s'"
proof -
  define d' where "d' = d\<lparr>output_report_length := cap_output c, input_report_length := unat (cap_input c),
    read_buf := Some (replicate (unat (cap_input c)) 0)\<rparr>"
  have "wheap t a = Some d" using t(1) assms(1) by (simp add: aside_def created_def)
  then have s': "s' = t\<lparr>wblocks := wblocks t + 1, wheap := (wheap t)(a \<mapsto> d')\<rparr>" using u by (simp add: update_win_def d'_def)
  have own: "own_handles d' = own_handles d" by (simp add: own_handles_def d'_def)
  have "unat (cap_input c) < 2 ^ 16" using unsigned_less [of "cap_input c", where ?'a = nat] by simp
  then have "opened a d' s s'"
    unfolding opened_def own using assms(1) t h
    by (auto simp: s' created_def aside_def handles_ok_def buffer_ok_def d'_def device_blocks_def)
  then show ?thesis by blast
qed

lemma open_path_win_frame:
  assumes o: "hid_open_path_win E pa s = Some (r, s')" and inv: "win_inv s"
  shows "case r of None \<Rightarrow> aside s s' \<and> wblocks s' = wblocks s | Some a \<Rightarrow> \<exists>d. opened a d s s'"
proof -
  obtain r0 s0 where 0: "hid_init_win E s = (r0, s0)" by force
  note i = hid_init_win_frame [OF 0]
  obtain a s1 where 1: "new_hid_device_win E s0 = (a, s1)" by force
  obtain h s2 where 2: "open_device E pa False s1 = (h, s2)" by force
  show ?thesis
  proof (cases "r0 < 0")
    case True
    then show ?thesis using o 0 i by (auto simp: hid_open_path_win_def)
  next
    case False
    then obtain s3 where 3: "update_win a (\<lambda>d. d\<lparr>file_handle := h\<rparr>) s2 = Some s3"
      using o 0 1 2 by (auto simp: hid_open_path_win_def elim: bind_SomeE)
    obtain d where d: "created a d pa s s3" "file_handle d = h"
      using new_device_shape [OF 1 2 3] i created_before by blast
    show ?thesis
    proof (cases h)
      case None
      then have "open_failed_win E a s3 = Some (r, s')" using o 0 1 2 3 False by (simp add: hid_open_path_win_def)
      from created_failed [OF inv d(1) aside_refl refl this] show ?thesis by simp
    next
      case (Some n)
      then obtain caps s4 where 4: "get_caps E h s3 = Some (caps, s4)"
        using o 0 1 2 3 False by (auto simp: hid_open_path_win_def elim: bind_SomeE)
      note g = get_caps_aside [OF 4]
      show ?thesis
      proof (cases caps)
        case (Caps c)
        then obtain s5 where "update_win a (\<lambda>d. d\<lparr>output_report_length := cap_output c, input_report_length := unat (cap_input c),
            read_buf := Some (replicate (unat (cap_input c)) 0)\<rparr>) (s4\<lparr>wblocks := wblocks s4 + 1\<rparr>) = Some s5" "r = Some a" "s' = s5"
          using o 0 1 2 3 4 False Some by (auto simp: hid_open_path_win_def elim: bind_SomeE)
        then show ?thesis using created_opened [OF d(1) _ _ d(2) [unfolded Some]] g by auto
      next
        case No_data
        then have "open_failed_win E a s4 = Some (r, s')" using o 0 1 2 3 4 False Some by (simp add: hid_open_path_win_def)
        from created_failed [OF inv d(1) _ _ this] show ?thesis using g by simp
      next
        case No_caps
        then have "open_failed_win E a s4 = Some (r, s')" using o 0 1 2 3 4 False Some by (simp add: hid_open_path_win_def)
        from created_failed [OF inv d(1) _ _ this] show ?thesis using g by simp
      qed
    qed
  qed
qed

lemma opened_after: "aside s s1 \<Longrightarrow> opened a d s1 s2 \<Longrightarrow> aside s2 s3 \<Longrightarrow>
    wblocks s3 - wblocks s2 = wblocks s - wblocks s1 \<Longrightarrow> opened a d s s3"
  by (auto simp: opened_def aside_def handles_ok_def)

lemma open_win_frame:
  assumes o: "hid_open_win E v p sn s = Some (r, s')" and inv: "win_inv s"
  shows "case r of None \<Rightarrow> aside s s' \<and> wblocks s' = wblocks s | Some a \<Rightarrow> \<exists>d. opened a d s s'"
proof -
  obtain ds s1 pa s2 where 1: "hid_enumerate_win E v p s = Some (ds, s1)"
    and 2: "(case pa of None \<Rightarrow> Some (None, s1) | Some pa \<Rightarrow> hid_open_path_win E pa s1) = Some (r, s2)"
    and s': "s' = hid_free_enumeration_win ds s2"
    using o by (auto simp: hid_open_win_def elim!: bind_SomeE)
  note e = enumerate_win_frame [OF 1 inv]
  have i1: "win_inv s1" using aside_inv e inv by blast
  have f: "aside s2 s'" "wblocks s' = wblocks s2 - list_blocks ds" using free_win_frame [of s2 ds] by (simp_all add: s')
  have "case r of None \<Rightarrow> aside s1 s2 \<and> wblocks s2 = wblocks s1 | Some a \<Rightarrow> \<exists>d. opened a d s1 s2"
    using 2 open_path_win_frame [OF _ i1] by (cases pa) auto
  then show ?thesis
    using e f opened_after [of s s1 _ _ s2 s'] aside_trans [of s s1] aside_trans [of s s2 s'] by (cases r) auto
qed

section \<open>Closing\<close>

text \<open>\<open>closed a d s s'\<close>: the device \<open>d\<close> at \<open>a\<close> is gone with its blocks and handles.\<close>

definition closed :: "nat \<Rightarrow> win_dev \<Rightarrow> wst \<Rightarrow> wst \<Rightarrow> bool" where
  "closed a d s s' \<longleftrightarrow> wheap s' = (wheap s)(a := None) \<and> wblocks s' = wblocks s - device_blocks d \<and>
     wnext s' = wnext s \<and> win_next_handle s' = win_next_handle s \<and> outstanding s' - {a} = outstanding s - {a} \<and>
     outstanding s' \<subseteq> outstanding s \<and> preparsed s' = preparsed s \<and> lib_handle s' = lib_handle s \<and> initialized s' = initialized s \<and>
     win_handles s' = (\<lambda>n. if n \<in> own_handles d then None else win_handles s n)"

lemma close_win_closed:
  assumes "wheap s a = Some d"
  shows "\<exists>s'. hid_close_win E (Some a) s = Some s' \<and> closed a d s s'"
proof -
  define s1 where "s1 = cancel_io (file_handle d) s"
  define t where "t = (if fst (on_file (file_handle d) WCancel True (we_settled E) s1)
     then s1\<lparr>outstanding := outstanding s1 - {a}\<rparr> else s1)"
  have f1: "wheap s1 = wheap s" "wnext s1 = wnext s" "win_handles s1 = win_handles s" "win_next_handle s1 = win_next_handle s"
    "outstanding s1 = outstanding s" "preparsed s1 = preparsed s" "lib_handle s1 = lib_handle s" "initialized s1 = initialized s"
    "wblocks s1 = wblocks s"
    by (simp_all add: s1_def)
  have "wheap t a = Some d" using assms f1 by (simp add: t_def)
  from free_device_shape [OF this] obtain s' where s': "free_hid_device_win a t = Some s'" "wheap s' = (wheap t)(a := None)"
    "wblocks s' = wblocks t - device_blocks d" "wnext s' = wnext t" "win_next_handle s' = win_next_handle t"
    "outstanding s' = outstanding t" "preparsed s' = preparsed t" "lib_handle s' = lib_handle t" "initialized s' = initialized t"
    "win_handles s' = (\<lambda>n. if n \<in> own_handles d then None else win_handles t n)" by blast
  have "hid_close_win E (Some a) s = Some s'"
    by (simp only: hid_close_win_def option.case assms bind.bind_lunit Let_def s1_def [symmetric] t_def [symmetric] s'(1))
  moreover have "closed a d s s'" using s' f1 by (auto simp: closed_def t_def)
  ultimately show ?thesis by blast
qed

lemma closed_inv:
  assumes inv: "win_inv s" and d: "wheap s a = Some d" and c: "closed a d s s'"
  shows "win_inv s' \<and> win_live s' = win_live s - {a}"
proof -
  have f: "wheap s' = (wheap s)(a := None)" "wnext s' = wnext s" "win_next_handle s' = win_next_handle s"
    "outstanding s' \<subseteq> outstanding s" "lib_handle s' = lib_handle s" "initialized s' = initialized s"
    "\<And>n. win_handles s' n = (if n \<in> own_handles d then None else win_handles s n)"
    using c by (simp_all add: closed_def)
  have old: "handles_ok s' e" if "wheap s b = Some e" "b \<noteq> a" for b e
  proof (rule handles_ok_same)
    show "handles_ok s e" using inv that unfolding win_inv_def by blast
    fix h assume "h \<in> own_handles e"
    then have "h \<notin> own_handles d" using inv d that unfolding win_inv_def by blast
    then show "win_handles s' h = win_handles s h" by (simp add: f(7))
  qed
  have "win_inv s'"
    unfolding win_inv_def f(1-3,5-7)
    using inv old f(4) by (auto simp: win_inv_def)
  then show ?thesis by (auto simp: win_live_def f(1))
qed

section \<open>Operations on an open device\<close>

text \<open>\<open>serviced a s s'\<close>: an operation on the device at \<open>a\<close> may change its fields, but not its handles or the sizes of its buffers.\<close>

definition same_device :: "win_dev \<Rightarrow> win_dev \<Rightarrow> bool" where
  "same_device d e \<longleftrightarrow> file_handle e = file_handle d \<and> hEvent e = hEvent d \<and> input_report_length e = input_report_length d \<and>
     output_report_length e = output_report_length d \<and> map_option length (read_buf e) = map_option length (read_buf d)"

definition serviced :: "nat \<Rightarrow> wst \<Rightarrow> wst \<Rightarrow> bool" where
  "serviced a s s' \<longleftrightarrow> (\<exists>d e. wheap s a = Some d \<and> wheap s' = (wheap s)(a \<mapsto> e) \<and> same_device d e \<and>
     wblocks s' - device_blocks e = wblocks s - device_blocks d \<and>
     ((a \<in> outstanding s \<longrightarrow> read_pending d) \<longrightarrow> (a \<in> outstanding s' \<longrightarrow> read_pending e))) \<and>
     outstanding s' - {a} = outstanding s - {a} \<and> wnext s' = wnext s \<and> win_handles s' = win_handles s \<and>
     win_next_handle s' = win_next_handle s \<and> preparsed s' = preparsed s \<and> lib_handle s' = lib_handle s \<and>
     initialized s' = initialized s"

lemma serviced_live: "serviced a s s' \<Longrightarrow> wheap s a \<noteq> None \<and> wheap s' a \<noteq> None"
  by (auto simp: serviced_def)

lemma serviced_refl: "wheap s a = Some d \<Longrightarrow> serviced a s s"
  by (auto simp: serviced_def same_device_def fun_upd_idem intro!: exI [of _ d])

lemma same_device_trans: "same_device c d \<Longrightarrow> same_device d e \<Longrightarrow> same_device c e"
  by (simp add: same_device_def)

lemma serviced_trans [trans]:
  assumes "serviced a s t" "serviced a t u"
  shows "serviced a s u"
proof -
  obtain d e where d: "wheap s a = Some d" "wheap t = (wheap s)(a \<mapsto> e)" "same_device d e"
    "wblocks t - device_blocks e = wblocks s - device_blocks d"
    "(a \<in> outstanding s \<longrightarrow> read_pending d) \<longrightarrow> (a \<in> outstanding t \<longrightarrow> read_pending e)"
    using assms(1) unfolding serviced_def by blast
  obtain e' x where x: "wheap t a = Some e'" "wheap u = (wheap t)(a \<mapsto> x)" "same_device e' x"
    "wblocks u - device_blocks x = wblocks t - device_blocks e'"
    "(a \<in> outstanding t \<longrightarrow> read_pending e') \<longrightarrow> (a \<in> outstanding u \<longrightarrow> read_pending x)"
    using assms(2) unfolding serviced_def by blast
  have e: "e' = e" using d(2) x(1) by simp
  have "wheap u = (wheap s)(a \<mapsto> x)" using d(2) x(2) by simp
  moreover have "same_device d x" using same_device_trans d(3) x(3) e by blast
  moreover have "wblocks u - device_blocks x = wblocks s - device_blocks d" using d(4) x(4) e by simp
  moreover have "(a \<in> outstanding s \<longrightarrow> read_pending d) \<longrightarrow> (a \<in> outstanding u \<longrightarrow> read_pending x)" using d(5) x(5) e by blast
  ultimately show ?thesis using assms d(1) unfolding serviced_def by (intro conjI exI [of _ d] exI [of _ x]) simp_all
qed

lemma serviced_note: "serviced a s t \<Longrightarrow> serviced a s (note_win c t)"
  by (simp add: serviced_def)

lemma serviced_call: "serviced a s t \<Longrightarrow> on_file h c bad f t = (r, t') \<Longrightarrow> serviced a s t'"
  by (erule on_file_noted) (simp_all add: serviced_note)

lemma serviced_error:
  assumes "serviced a s t" "register_error_win E a t = Some t'"
  shows "serviced a s t'"
proof -
  obtain d where d: "wheap t a = Some d" using serviced_live [OF assms(1)] by blast
  obtain m where m: "wheap t' = (wheap t)(a \<mapsto> d\<lparr>last_error_str := Some m\<rparr>)"
    and r: "wblocks t' = wblocks t + 1 - some_block (last_error_str d)" "wnext t' = wnext t" "win_handles t' = win_handles t"
    "win_next_handle t' = win_next_handle t" "outstanding t' = outstanding t" "preparsed t' = preparsed t"
    "lib_handle t' = lib_handle t" "initialized t' = initialized t"
    using register_error_shape [OF assms(2) d] by blast
  have "serviced a t t'"
    unfolding serviced_def using d r
    by (intro conjI exI [of _ d] exI [of _ "d\<lparr>last_error_str := Some m\<rparr>"]) (simp_all add: m same_device_def device_blocks_def)
  then show ?thesis using assms(1) serviced_trans by blast
qed

lemma serviced_failed: "serviced a s t \<Longrightarrow> failed_win E a out t = Some (r, out', t') \<Longrightarrow> serviced a s t' \<and> r = -1 \<and> out' = out"
  using serviced_error by (auto simp: failed_win_def elim!: bind_SomeE)

lemma serviced_update:
  assumes "serviced a s t" "update_win a f t = Some t'"
    and "\<And>d. wheap t a = Some d \<Longrightarrow> same_device d (f d) \<and> device_blocks (f d) = device_blocks d \<and>
      (a \<in> outstanding t \<longrightarrow> read_pending d \<longrightarrow> read_pending (f d))"
  shows "serviced a s t'"
proof -
  obtain d where d: "wheap t a = Some d" "t' = t\<lparr>wheap := (wheap t)(a \<mapsto> f d)\<rparr>"
    using assms(2) by (auto simp: update_win_def split: option.splits)
  have "serviced a t t'" using assms(3) [OF d(1)] d by (auto simp: serviced_def)
  then show ?thesis using assms(1) serviced_trans by blast
qed

lemma serviced_inv:
  assumes inv: "win_inv s" and v: "serviced a s s'"
  shows "win_inv s' \<and> win_live s' = win_live s"
proof -
  obtain d e where d: "wheap s a = Some d" "wheap s' = (wheap s)(a \<mapsto> e)" "same_device d e"
    "(a \<in> outstanding s \<longrightarrow> read_pending d) \<longrightarrow> (a \<in> outstanding s' \<longrightarrow> read_pending e)"
    and f: "outstanding s' - {a} = outstanding s - {a}" "wnext s' = wnext s" "win_handles s' = win_handles s"
    "win_next_handle s' = win_next_handle s" "lib_handle s' = lib_handle s" "initialized s' = initialized s"
    using v unfolding serviced_def by blast
  have own: "own_handles e = own_handles d" using d(3) by (simp add: own_handles_def same_device_def)
  have out: "b \<in> outstanding s'" if "b \<in> outstanding s" "b \<noteq> a" for b using f(1) that by blast
  have out': "b \<in> outstanding s" if "b \<in> outstanding s'" "b \<noteq> a" for b using f(1) that by blast
  have ok: "handles_ok s' e \<and> buffer_ok e \<and> (a \<in> outstanding s' \<longrightarrow> read_pending e)"
  proof -
    have "handles_ok s d \<and> buffer_ok d \<and> (a \<in> outstanding s \<longrightarrow> read_pending d)" using inv d(1) unfolding win_inv_def by blast
    then show ?thesis using d(3,4) f(3) by (auto simp: handles_ok_def buffer_ok_def same_device_def)
  qed
  have a: "a < wnext s" using inv d(1) by (cases "wnext s \<le> a") (auto simp: win_inv_def)
  have hk: "handles_ok s' x = handles_ok s x" for x by (simp add: handles_ok_def f(3))
  have 1: "\<forall>b. wnext s' \<le> b \<longrightarrow> wheap s' b = None \<and> b \<notin> outstanding s'"
    using inv a out' by (auto simp: win_inv_def d(2) f(2))
  have 3: "\<forall>b x. wheap s' b = Some x \<longrightarrow> handles_ok s' x \<and> buffer_ok x \<and> (b \<in> outstanding s' \<longrightarrow> read_pending x)"
    using inv ok out' by (auto simp: win_inv_def d(2) hk)
  have 4: "\<forall>b b' x y. wheap s' b = Some x \<longrightarrow> wheap s' b' = Some y \<longrightarrow> b \<noteq> b' \<longrightarrow> own_handles x \<inter> own_handles y = {}"
  proof -
    have "own_handles x \<inter> own_handles y = {}" if "wheap s b = Some x" "wheap s b' = Some y" "b \<noteq> b'" for b b' x y
      using inv that unfolding win_inv_def by blast
    then show ?thesis using d(1) own by (auto simp: d(2) split: if_splits)
  qed
  have "win_inv s'" unfolding win_inv_def using 1 3 4 inv f by (simp add: win_inv_def)
  then show ?thesis using d(1,2) by (auto simp: win_live_def)
qed

lemma serviced_over:
  assumes "serviced a s s'" "win_inv s" "win_over s b x"
  shows "win_inv s' \<and> win_over s' b x"
proof -
  obtain d e where d: "wheap s a = Some d" "wheap s' = (wheap s)(a \<mapsto> e)" "same_device d e"
    and f: "win_handles s' = win_handles s" "preparsed s' = preparsed s"
    using assms(1) unfolding serviced_def by blast
  have "own_handles e = own_handles d" using d(3) by (simp add: own_handles_def same_device_def)
  moreover obtain c where c: "wheap s b = Some c"
    "x = (win_live s - {b}, (\<lambda>n. if n \<in> own_handles c then None else win_handles s n), preparsed s)"
    using assms(3) unfolding win_over_def by blast
  ultimately obtain c' where "wheap s' b = Some c'" "own_handles c' = own_handles c" using d(1,2) by (cases "b = a") auto
  then show ?thesis using serviced_inv [OF assms(2,1)] unfolding win_over_def f c(2) by auto
qed

lemma closed_held:
  assumes "win_inv s" "closed a d s s'" "wheap s a = Some d" "win_over s a x"
  shows "win_inv s' \<and> win_held s' = x"
  using closed_inv [OF assms(1,3,2)] assms(2-4) by (auto simp: win_over_def win_held_def closed_def fun_eq_iff)

lemma send_win_serviced:
  assumes "hid_send_feature_report_win E a data len s = Some (r, s')"
  shows "serviced a s s'"
proof -
  obtain d buf where d: "wheap s a = Some d" "rd_block data 0 (len mod 2 ^ 32) = Some buf" "hid_dll s = Some ()"
    using assms by (auto simp: hid_send_feature_report_win_def elim!: bind_SomeE)
  obtain res s1 where 1: "on_file (file_handle d) (\<lambda>h. WSet h buf) False (\<lambda>tr pa. we_set E tr pa buf) s = (res, s1)" by force
  have v: "serviced a s s1" by (rule serviced_call [OF serviced_refl [OF d(1)] 1])
  show ?thesis
  proof (cases res)
    case True
    then show ?thesis using assms d 1 v by (simp add: hid_send_feature_report_win_def)
  next
    case False
    then obtain u where "failed_win E a () s1 = Some (r, u, s')"
      using assms d 1 by (auto simp: hid_send_feature_report_win_def elim!: bind_SomeE)
    from serviced_failed [OF v this] show ?thesis by blast
  qed
qed

lemma get_win_serviced:
  assumes "hid_get_feature_report_win E a data len s = Some (r, data', s')"
  shows "serviced a s s' \<and> length data' = length data \<and> drop len data' = drop len data"
proof -
  let ?k = "len mod 2 ^ 32"
  obtain d buf where d: "wheap s a = Some d" "rd_block data 0 ?k = Some buf"
    using assms by (auto simp: hid_get_feature_report_win_def Let_def elim!: bind_SomeE)
  obtain ans s1 where 1: "on_file (file_handle d) (\<lambda>h. WIoctl h buf) Io_failed (\<lambda>tr pa. we_ioctl E tr pa buf) s = (ans, s1)" by force
  obtain res s2 where 2: "(if ans = Io_failed then (None, s1) else on_file (file_handle d) WResult None (we_result E) s1) = (res, s2)"
    by force
  have v1: "serviced a s s1" by (rule serviced_call [OF serviced_refl [OF d(1)] 1])
  have v: "serviced a s s2" using 2 v1 serviced_call [OF v1] by (auto split: if_splits)
  have e: "(case res of
       None \<Rightarrow> failed_win E a data s2
     | Some bs \<Rightarrow> do {
         data' \<leftarrow> wr_block data 0 (take ?k bs);
         Some (int_of_dword (length (take ?k bs)), data', s2) }) = Some (r, data', s')"
    using assms d unfolding hid_get_feature_report_win_def Let_def d bind.bind_lunit 1 prod.case 2 by simp
  show ?thesis
  proof (cases res)
    case None
    then have "failed_win E a data s2 = Some (r, data', s')" using e by simp
    from serviced_failed [OF v this] show ?thesis by auto
  next
    case (Some bs)
    then have w: "wr_block data 0 (take ?k bs) = Some data'" "s' = s2" using e by (auto elim!: bind_SomeE)
    have "length (take ?k bs) \<le> len" using mod_less_eq_dividend [of len "2 ^ 32"] by (simp add: min_le_iff_disj)
    then show ?thesis using w v wr_block_length [OF w(1)] by (auto simp: buf_iffs)
  qed
qed

section \<open>The contract\<close>

interpretation windows: hid_backend "windows_backend E" win_inv win_held win_over wblocks for E
proof
  fix h h' :: wst and v p ds sn d buf buf' n r x
  show "win_inv h' \<and> win_held h' = win_held h \<and> wblocks h' = wblocks h + list_blocks ds \<and> list_all (info_matches v p) ds"
    if "win_inv h" "api_enumerate (windows_backend E) v p h = Some (ds, h')"
    using that enumerate_win_frame [of E v p h ds h'] aside_held [of h h'] by (simp add: windows_backend_def)
  show "win_inv h' \<and> win_held h' = win_held h \<and> wblocks h' = wblocks h - list_blocks ds"
    if "win_inv h" "api_free_enumeration (windows_backend E) ds h = Some h'"
    using that free_win_frame [of h ds] aside_held [of h h'] by (auto simp: windows_backend_def)
  show "win_inv h' \<and> win_held h' = win_held h \<and> wblocks h' = wblocks h"
    if "win_inv h" "api_open (windows_backend E) v p sn h = Some (None, h')"
    using that open_win_frame [of E v p sn h None h'] aside_held [of h h'] by (simp add: windows_backend_def)
  show "win_inv h' \<and> win_over h' d (win_held h)"
    if "win_inv h" "api_open (windows_backend E) v p sn h = Some (Some d, h')"
    using that open_win_frame [of E v p sn h "Some d" h'] opened_over [of h d _ h'] by (auto simp: windows_backend_def)
  show "win_inv h' \<and> win_over h' d x"
    if "win_inv h" "win_over h d x" "api_send_feature_report (windows_backend E) d buf n h = Some (r, h')"
    using that send_win_serviced [of E d buf n h r h'] serviced_over [of d h h' d x] by (simp add: windows_backend_def)
  show "win_inv h' \<and> win_over h' d x \<and> length buf' = length buf \<and> drop n buf' = drop n buf"
    if "win_inv h" "win_over h d x" "0 < n" "api_get_feature_report (windows_backend E) d buf n h = Some (r, buf', h')"
    using that get_win_serviced [of E d buf n h r buf' h'] serviced_over [of d h h' d x] by (simp add: windows_backend_def)
  show "api_close (windows_backend E) None h = Some h" by (simp add: windows_backend_def hid_close_win_def)
  show "win_inv h' \<and> win_held h' = x"
    if "win_inv h" "win_over h d x" "api_close (windows_backend E) (Some d) h = Some h'"
  proof -
    note t = that
    obtain e where e: "wheap h d = Some e" using t(2) by (auto simp: win_over_def)
    from close_win_closed [OF e, of E] t(3) have "closed d e h h'" by (auto simp: windows_backend_def)
    then show ?thesis using closed_held [OF t(1) _ e t(2)] by blast
  qed
  show "win_inv h' \<and> win_held h' = win_held h \<and> wblocks h' = wblocks h"
    if "win_inv h" "api_exit (windows_backend E) h = Some (r, h')"
    using that hid_exit_win_frame [of h] aside_held [of h h'] by (auto simp: windows_backend_def)
qed

end
