(* ===== verification/HidWindowsToken.thy ===== *)
theory HidWindowsToken
  imports HidWindowsContract TokenSession
begin

text \<open>
  The token on Windows: what the token library needs of its HIDAPI (\<open>attached\<close>) holds of the Windows implementation as well.
\<close>

section \<open>The bus\<close>

text \<open>
  \<open>token_win E pa hx ser f\<close>: \<^verbatim>\<open>hid.dll\<close> can be loaded and has its functions, the set of interfaces shows one, \<open>pa\<close>, bound to a
  driver of class HIDClass. It can be opened, has the token's ids and capabilities and the serial as a hex string; it takes feature
  reports, and a request that follows one is answered as \<open>f\<close> says. Events, the other strings and everything else may fail.
\<close>

definition token_win ::
    "win_env \<Rightarrow> string \<Rightarrow> (nat \<Rightarrow> wchar) \<Rightarrow> byte list \<Rightarrow> (byte list \<Rightarrow> byte list) \<Rightarrow> bool" where
  "token_win E pa hx ser f \<longleftrightarrow>
     (\<forall>tr. we_load E tr \<and> (\<forall>name. we_proc E tr name)) \<and>
     (\<forall>tr. fst (we_scan E tr) = [Some pa] \<and> class_bound (snd (we_scan E tr))) \<and>
     (\<forall>tr enum. we_create E tr pa enum) \<and>
     (\<forall>tr. \<exists>v. we_attributes E tr pa = (VID, PID, v)) \<and>
     (\<forall>tr. we_preparsed E tr pa \<and> we_caps E tr pa \<noteq> None) \<and>
     (\<forall>tr. \<exists>t. we_string E tr pa Serial_string 1024 = (True, serial_string hx ser @ 0 # t)) \<and>
     (\<forall>tr p. we_set E tr pa p) \<and>
     (\<forall>tr h p b. we_ioctl E (tr @ [WSet h p]) pa b \<noteq> Io_failed \<and>
        we_result E (tr @ [WSet h p, WIoctl h b]) pa = Some (token_answer ser f p))"

section \<open>Calls that return\<close>

lemma get_caps_returns: "lib_handle s \<Longrightarrow> \<exists>c s'. get_caps E h s = Some (c, s')"
  by (simp add: get_caps_def hid_dll_def Let_def split: prod.split)

lemma get_caps_known:
  assumes "lib_handle s" "win_handles s n = Some (File pa)" "\<And>tr. we_preparsed E tr pa \<and> we_caps E tr pa \<noteq> None"
  shows "\<exists>c s'. get_caps E (Some n) s = Some (Caps c, s')"
proof -
  let ?s1 = "(note_win (WPreparsed n) s)\<lparr>preparsed := preparsed s + 1\<rparr>"
  obtain c where c: "we_caps E (wtrace ?s1) pa = Some c" using assms(3) by blast
  have 1: "on_file (Some n) WPreparsed False (we_preparsed E) s = (True, note_win (WPreparsed n) s)"
    by (simp add: on_file_open [OF assms(2)] assms(3))
  have 2: "on_file (Some n) WCaps None (we_caps E) ?s1 = (Some c, note_win (WCaps n) ?s1)"
    using on_file_open [of ?s1 n pa WCaps None "we_caps E"] assms(2) c by simp
  show ?thesis using assms(1) 1 2 by (simp add: get_caps_def hid_dll_def)
qed

lemma fetch_wstr_returns:
  assumes "lib_handle s" "length wstr = 512"
  shows "\<exists>t w s'. fetch_wstr E h k wstr s = Some (t, w, s') \<and> lib_handle s' \<and> length w = 512 \<and> win_handles s' = win_handles s"
proof -
  obtain ok u s1 where 1: "on_file h (\<lambda>n. WString n k 1024) (False, []) (\<lambda>tr pa. we_string E tr pa k 1024) s = ((ok, u), s1)"
    by (metis surj_pair)
  note f = on_file_aside [OF 1]
  have "\<exists>w1. wr_block wstr 0 (take 512 u) = Some w1 \<and> length w1 = 512" using assms(2) by (auto simp: wr_block_def)
  then obtain w1 where "wr_block wstr 0 (take 512 u) = Some w1" "length w1 = 512" by blast
  then show ?thesis
    using assms f unfolding fetch_wstr_def 1 Let_def by (auto simp: hid_dll_def buf_simps aside_def)
qed

lemma fetch_wstr_known:
  assumes "lib_handle s" "length wstr = 512" "win_handles s n = Some (File pa)"
    and "we_string E (wtrace s) pa k 1024 = (True, sn @ 0 # t)" "0 \<notin> set sn" "length sn < 512"
  shows "\<exists>w s'. fetch_wstr E (Some n) k wstr s = Some (Some sn, w, s') \<and> lib_handle s' \<and> length w = 512 \<and> win_handles s' = win_handles s"
proof -
  obtain r w s' where f: "fetch_wstr E (Some n) k wstr s = Some (r, w, s')" "lib_handle s'" "length w = 512" "win_handles s' = win_handles s"
    using fetch_wstr_returns [OF assms(1,2)] by blast
  let ?u = "take 512 (sn @ 0 # t)"
  have u: "?u = sn @ 0 # take (511 - length sn) t" using assms(6) by (simp add: take_Cons' diff_diff_add)
  have "r = Some sn"
  proof -
    have "length ?u \<le> 512" by simp
    then obtain w1 where w1: "wr_block wstr 0 ?u = Some w1" using assms(2) by (cases "wr_block wstr 0 ?u") (simp_all add: buf_iffs)
    have "w1 = ?u @ drop (length ?u) wstr" using w1 unfolding wr_block_eq_Some_iff by simp
    then have w: "w1 = sn @ 0 # (take (511 - length sn) t @ drop (length ?u) wstr)" "length w1 = 512"
      using assms(2) wr_block_length [OF w1] unfolding u by simp_all
    have "r = Some (takeWhile (\<lambda>c. c \<noteq> 0) (w1[511 := 0]))"
      using f(1) w1 w(2) assms(1,4) on_file_open [OF assms(3), of "\<lambda>n. WString n k 1024" "(False, [])" "\<lambda>tr pa. we_string E tr pa k 1024"]
      by (auto simp: fetch_wstr_def hid_dll_def buf_simps)
    moreover have "takeWhile (\<lambda>c. c \<noteq> 0) (w1[511 := 0]) = sn"
    proof -
      have "\<exists>z. w1[511 := 0] = sn @ 0 # z"
      proof (cases "length sn = 511")
        case True
        then show ?thesis by (simp add: w(1) list_update_append)
      next
        case False
        then have "511 - length sn \<noteq> 0" using assms(6) by simp
        then show ?thesis using assms(6) by (cases "511 - length sn") (simp_all add: w(1) list_update_append)
      qed
      then obtain z where "w1[511 := 0] = sn @ 0 # z" by blast
      moreover have "\<And>c. c \<in> set sn \<Longrightarrow> c \<noteq> 0" using assms(5) by blast
      ultimately show ?thesis by (simp add: takeWhile_append2)
    qed
    ultimately show ?thesis by simp
  qed
  then show ?thesis using f by blast
qed

section \<open>Listing\<close>

lemma init_win_ready:
  assumes "\<And>tr. we_load E tr \<and> (\<forall>name. we_proc E tr name)" "win_inv s"
  shows "\<exists>s0. hid_init_win E s = (0, s0) \<and> win_inv s0 \<and> lib_handle s0"
proof -
  have "\<exists>s0. hid_init_win E s = (0, s0)"
    using assms(1) by (simp add: hid_init_win_def lookup_functions_def list_all_iff)
  then obtain s0 where "hid_init_win E s = (0, s0)" by blast
  then show ?thesis using hid_init_win_frame [of E s 0 s0] aside_inv [of s s0] assms(2) by auto
qed

definition token_record_win :: "(nat \<Rightarrow> wchar) \<Rightarrow> byte list \<Rightarrow> string \<Rightarrow> hid_device_info \<Rightarrow> bool" where
  "token_record_win hx ser pa d \<longleftrightarrow> serial_number d = Some (serial_string hx ser) \<and> vendor_id d = VID \<and>
     product_id d = PID \<and> path d = Some pa"

lemma describe_win_token:
  assumes t: "token_win E pa hx ser f" and l: "lib_handle s" "win_handles s n = Some (File pa)"
    and h: "0 \<notin> set (serial_string hx ser)" "length (serial_string hx ser) < 512"
  shows "\<exists>d s'. describe_win E pa (Some n) (VID, PID, v) s = Some (d, s') \<and> token_record_win hx ser pa d"
proof -
  obtain c s1 where 1: "get_caps E (Some n) s = Some (c, s1)" using get_caps_returns [OF l(1)] by blast
  note g = get_caps_aside [OF 1]
  have l1: "lib_handle s1" "win_handles s1 n = Some (File pa)" using g l by (simp_all add: aside_def)
  let ?w = "take 512 (we_wstr E (wtrace s1) @ replicate 512 0)"
  have wl: "length ?w = 512" by simp
  obtain u where u: "we_string E (wtrace s1) pa Serial_string 1024 = (True, serial_string hx ser @ 0 # u)"
    using t unfolding token_win_def by blast
  obtain w2 s2 where 2: "fetch_wstr E (Some n) Serial_string ?w s1 = Some (Some (serial_string hx ser), w2, s2)"
    "lib_handle s2" "length w2 = 512"
    using fetch_wstr_known [OF l1(1) wl l1(2) u h] by blast
  obtain m w3 s3 where 3: "fetch_wstr E (Some n) Manufacturer_string w2 s2 = Some (m, w3, s3)" "lib_handle s3" "length w3 = 512"
    using fetch_wstr_returns [OF 2(2,3)] by blast
  obtain q w4 s4 where 4: "fetch_wstr E (Some n) Product_string w3 s3 = Some (q, w4, s4)"
    using fetch_wstr_returns [OF 3(2,3)] by blast
  show ?thesis using 1 2(1) 3(1) 4 by (simp add: describe_win_def Let_def token_record_win_def)
qed

lemma win_enumerate:
  assumes t: "token_win E pa hx ser f" and inv: "win_inv s"
    and h: "0 \<notin> set (serial_string hx ser)" "length (serial_string hx ser) < 512"
  shows "\<exists>d s'. hid_enumerate_win E VID PID s = Some ([d], s') \<and> token_record_win hx ser pa d"
proof -
  have lo: "we_load E tr \<and> (\<forall>name. we_proc E tr name)" and cr: "we_create E tr pa enum" for tr enum
    using t unfolding token_win_def by blast+
  obtain s0 where 0: "hid_init_win E s = (0, s0)" "win_inv s0" "lib_handle s0" using init_win_ready [OF lo inv] by blast
  obtain infos where sc: "we_scan E (wtrace s0) = ([Some pa], infos)" "class_bound infos"
    using t unfolding token_win_def by (metis prod.collapse)
  let ?s = "note_win WScan s0"
  obtain n s1 where 1: "open_device E pa True ?s = (Some n, s1)"
    using cr by (simp add: open_device_def new_handle_def)
  note o = open_device_frame [OF 1]
  have l1: "lib_handle s1" "win_handles s1 n = Some (File pa)" using o 0(3) by auto
  obtain v where v: "we_attributes E (wtrace s1) pa = (VID, PID, v)" using t unfolding token_win_def by blast
  let ?s2 = "note_win (WAttributes n) s1"
  obtain d s3 where d: "describe_win E pa (Some n) (VID, PID, v) ?s2 = Some (d, s3)" "token_record_win hx ser pa d"
    using describe_win_token [OF t _ _ h, of ?s2 n v] l1 by auto
  have m: "id_match VID PID VID PID" by (simp add: id_match_def)
  have "enum_interface_win E VID PID infos (Some pa) ?s = Some ([d], close_handle (Some n) (s3\<lparr>wblocks := wblocks s3 + info_blocks d\<rparr>))"
    using sc(2) 1 l1(1) v d(1) m by (simp add: enum_interface_win_def hid_dll_def on_file_open [OF l1(2)])
  then show ?thesis using 0(1) sc(1) d(2) by (simp add: hid_enumerate_win_def)
qed

lemma win_lists:
  assumes t: "token_win E pa hx ser f"
    and h: "0 \<notin> set (serial_string hx ser)" "length (serial_string hx ser) < 512"
  shows "lists (windows_backend E) win_inv (Some (serial_string hx ser))"
  unfolding lists_def
proof (intro allI impI)
  fix s assume s: "win_inv s"
  obtain d s1 where e: "hid_enumerate_win E VID PID s = Some ([d], s1)" "serial_number d = Some (serial_string hx ser)"
    using win_enumerate [OF t s h] unfolding token_record_win_def by blast
  have "win_inv s1" using enumerate_win_frame [OF e(1) s] aside_inv s by blast
  then have "win_inv (hid_free_enumeration_win [d] s1)" using free_win_frame aside_inv by blast
  then show "\<exists>d h1 h2. api_enumerate (windows_backend E) VID PID s = Some ([d], h1) \<and>
     serial_number d = Some (serial_string hx ser) \<and> api_free_enumeration (windows_backend E) [d] h1 = Some h2 \<and> win_inv h2"
    using e by (simp add: windows_backend_def)
qed

section \<open>Opening\<close>

text \<open>The open device \<open>a\<close> is the token.\<close>

definition win_connected :: "string \<Rightarrow> nat \<Rightarrow> wst \<Rightarrow> bool" where
  "win_connected pa a s \<longleftrightarrow> lib_handle s \<and>
     (\<exists>d n. wheap s a = Some d \<and> file_handle d = Some n \<and> win_handles s n = Some (File pa))"

lemma new_device_there:
  assumes "new_hid_device_win E s = (a, s1)"
  shows "lib_handle s1 = lib_handle s \<and> wheap s1 a \<noteq> None"
proof -
  obtain ev s0 where 0: "create_event E s = (ev, s0)" by force
  show ?thesis using assms create_event_shape [OF 0] by (auto simp: new_hid_device_win_def 0)
qed

lemma update_win_lib: "update_win a f s = Some s' \<Longrightarrow> lib_handle s' = lib_handle s"
  by (auto simp: update_win_def split: option.splits)

lemma open_path_win_returns:
  assumes t: "token_win E pa hx ser f" and inv: "win_inv s"
  shows "\<exists>a s'. hid_open_path_win E pa s = Some (Some a, s') \<and> win_connected pa a s'"
proof -
  have lo: "we_load E tr \<and> (\<forall>name. we_proc E tr name)" and cr: "we_create E tr pa enum"
    and ca: "we_preparsed E tr pa \<and> we_caps E tr pa \<noteq> None" for tr enum
    using t unfolding token_win_def by blast+
  obtain s0 where 0: "hid_init_win E s = (0, s0)" "lib_handle s0" using init_win_ready [OF lo inv] by blast
  obtain a s1 where 1: "new_hid_device_win E s0 = (a, s1)" by force
  obtain n s2 where 2: "open_device E pa False s1 = (Some n, s2)" using cr by (simp add: open_device_def new_handle_def)
  note o = open_device_frame [OF 2] and nd = new_device_there [OF 1]
  have "wheap s2 a \<noteq> None" using nd o by simp
  then obtain s3 where 3: "update_win a (\<lambda>d. d\<lparr>file_handle := Some n\<rparr>) s2 = Some s3" by (auto simp: update_win_def)
  obtain d where d: "created a d pa s0 s3" "file_handle d = Some n" using new_device_shape [OF 1 2 3] by blast
  have l3: "lib_handle s3" using update_win_lib [OF 3] o nd 0(2) by simp
  have h3: "win_handles s3 n = Some (File pa)" "wheap s3 a = Some d" using d by (auto simp: created_def)
  obtain c s4 where 4: "get_caps E (Some n) s3 = Some (Caps c, s4)" using get_caps_known [OF l3 h3(1) ca] by blast
  note g = get_caps_aside [OF 4]
  have h4: "wheap s4 a = Some d" "win_handles s4 n = Some (File pa)" "lib_handle s4" using g h3 l3 by (simp_all add: aside_def)
  let ?d = "d\<lparr>output_report_length := cap_output c, input_report_length := unat (cap_input c),
      read_buf := Some (replicate (unat (cap_input c)) 0)\<rparr>"
  let ?s = "s4\<lparr>wblocks := wblocks s4 + 1, wheap := (wheap s4)(a \<mapsto> ?d)\<rparr>"
  have "hid_open_path_win E pa s = Some (Some a, ?s)"
    using 0(1) 1 2 3 4 h4(1) by (simp add: hid_open_path_win_def update_win_def)
  then show ?thesis using h4(2,3) d(2) by (auto simp: win_connected_def)
qed

lemma win_open:
  assumes t: "token_win E pa hx ser f" and inv: "win_inv s"
    and h: "0 \<notin> set (serial_string hx ser)" "length (serial_string hx ser) < 512"
  shows "\<exists>a s1. hid_open_win E VID PID None s = Some (Some a, s1) \<and> win_inv s1 \<and> win_connected pa a s1"
proof -
  obtain d s1 where e: "hid_enumerate_win E VID PID s = Some ([d], s1)" "token_record_win hx ser pa d"
    using win_enumerate [OF t inv h] by blast
  have f: "find_path VID PID None [d] = Some (Some pa)" using e(2) by (simp add: token_record_win_def)
  have i1: "win_inv s1" using enumerate_win_frame [OF e(1) inv] aside_inv inv by blast
  obtain a s2 where o: "hid_open_path_win E pa s1 = Some (Some a, s2)" "win_connected pa a s2"
    using open_path_win_returns [OF t i1] by blast
  let ?s = "hid_free_enumeration_win [d] s2"
  have r: "hid_open_win E VID PID None s = Some (Some a, ?s)" using e(1) f o by (simp add: hid_open_win_def)
  have "win_inv ?s" using open_win_frame [OF r inv] opened_inv [OF inv] by auto
  moreover have "win_connected pa a ?s" using o(2) by (simp add: win_connected_def)
  ultimately show ?thesis using r by blast
qed

section \<open>Reports\<close>

lemma win_report:
  assumes t: "token_win E pa hx ser f" and len: "\<And>p. length (f p) = 17" and inv: "win_inv s" and c: "win_connected pa a s"
    and n: "n \<le> 64" "n \<le> length buf"
  shows "\<exists>r2 s2. hid_send_feature_report_win E a buf n s = Some (r2, s2) \<and> 0 \<le> r2 \<and>
    (\<forall>buf'. 18 \<le> length buf' \<longrightarrow>
      (\<exists>s3 s4. hid_get_feature_report_win E a buf' 18 s2 = Some (18, token_answer ser f (take n buf) @ drop 18 buf', s3) \<and>
        hid_close_win E (Some a) s3 = Some s4 \<and> win_inv (snd (hid_exit_win s4))))"
proof -
  obtain d h where d: "wheap s a = Some d" "file_handle d = Some h" "win_handles s h = Some (File pa)" "lib_handle s"
    using c unfolding win_connected_def by blast
  let ?p = "take n buf"
  let ?s2 = "note_win (WSet h ?p) s"
  have set: "we_set E (wtrace s) pa ?p" using t unfolding token_win_def by blast
  have n31: "int_of_dword n = int n" "n mod 2 ^ 32 = n"
    using n(1) by (simp_all add: int_of_dword_def signed_take_bit_int_eq_self)
  have s2: "hid_send_feature_report_win E a buf n s = Some (int n, ?s2)"
    using d n set n31 by (simp add: hid_send_feature_report_win_def hid_dll_def rd_block_def on_file_open [OF d(3)])
  have d2: "wheap ?s2 a = Some d" "win_handles ?s2 h = Some (File pa)" using d by simp_all
  have v2: "serviced a s ?s2" by (rule serviced_note [OF serviced_refl [OF d(1)]])
  have "\<exists>s3 s4. hid_get_feature_report_win E a buf' 18 ?s2 = Some (18, token_answer ser f ?p @ drop 18 buf', s3) \<and>
        hid_close_win E (Some a) s3 = Some s4 \<and> win_inv (snd (hid_exit_win s4))" if b: "18 \<le> length buf'" for buf'
  proof -
    let ?b = "take 18 buf'"
    let ?s3 = "note_win (WIoctl h ?b) ?s2"
    have io: "we_ioctl E (wtrace ?s2) pa ?b \<noteq> Io_failed" "we_result E (wtrace ?s3) pa = Some (token_answer ser f ?p)"
      using t by (simp_all add: token_win_def)
    have al: "length (token_answer ser f ?p) = 18" using len by (simp add: token_answer_def mask_response_def)
    have d3: "win_handles ?s3 h = Some (File pa)" using d by simp
    have rb: "rd_block buf' 0 (18 mod 2 ^ 32) = Some ?b" using b by (simp add: rd_block_def)
    have g: "hid_get_feature_report_win E a buf' 18 ?s2 = Some (18, token_answer ser f ?p @ drop 18 buf', note_win (WResult h) ?s3)"
      unfolding hid_get_feature_report_win_def d2(1) bind.bind_lunit Let_def rb d(2) on_file_open [OF d2(2)] prod.case
      using io al b by (simp add: on_file_open [OF d3] wr_block_def int_of_dword_def)
    have v: "serviced a s (note_win (WResult h) ?s3)" using v2 serviced_note by blast
    then have i: "win_inv (note_win (WResult h) ?s3)" using serviced_inv [OF inv] by blast
    have d4: "wheap (note_win (WResult h) ?s3) a = Some d" using d by simp
    obtain s4 where s4: "hid_close_win E (Some a) (note_win (WResult h) ?s3) = Some s4" "closed a d (note_win (WResult h) ?s3) s4"
      using close_win_closed [OF d4] by blast
    have "win_inv s4" using closed_inv [OF i d4 s4(2)] by blast
    then have "win_inv (snd (hid_exit_win s4))" using aside_inv hid_exit_win_frame by blast
    then show ?thesis using g s4(1) by blast
  qed
  then show ?thesis using s2 by fastforce
qed

lemma win_serves:
  assumes t: "token_win E pa hx ser f" and len: "\<And>p. length (f p) = 17"
    and h: "0 \<notin> set (serial_string hx ser)" "length (serial_string hx ser) < 512"
  shows "serves (windows_backend E) win_inv (token_answer ser f)"
  unfolding serves_def
proof (intro allI impI)
  fix s assume "win_inv s"
  then obtain a s1 where o: "hid_open_win E VID PID None s = Some (Some a, s1)" "win_inv s1" "win_connected pa a s1"
    using win_open [OF t _ h] by blast
  show "\<exists>d h1. api_open (windows_backend E) VID PID None s = Some (Some d, h1) \<and>
       (\<forall>buf n. 0 < n \<longrightarrow> n \<le> 64 \<longrightarrow> n \<le> length buf \<longrightarrow> buf ! 0 \<noteq> 0 \<longrightarrow>
         (\<exists>r2 h2. api_send_feature_report (windows_backend E) d buf n h1 = Some (r2, h2) \<and> 0 \<le> r2 \<and>
           (\<forall>buf'. 18 \<le> length buf' \<longrightarrow> buf' ! 0 = of_nat ReportID_GetLarge \<longrightarrow>
             (\<exists>r3 h3 h4 r5 h5.
               api_get_feature_report (windows_backend E) d buf' 18 h2 =
                 Some (r3, token_answer ser f (take n buf) @ drop 18 buf', h3) \<and>
               0 \<le> r3 \<and> api_close (windows_backend E) (Some d) h3 = Some h4 \<and>
               api_exit (windows_backend E) h4 = Some (r5, h5) \<and> win_inv h5))))"
  proof (intro exI [of _ a] exI [of _ s1] conjI allI impI)
    show "api_open (windows_backend E) VID PID None s = Some (Some a, s1)"
      using o(1) by (simp add: windows_backend_def)
  next
    fix buf :: "byte list" and n
    assume b: "n \<le> 64" "n \<le> length buf"
    obtain r2 s2 where r: "hid_send_feature_report_win E a buf n s1 = Some (r2, s2)" "0 \<le> r2"
      "\<And>buf'. 18 \<le> length buf' \<Longrightarrow>
        \<exists>s3 s4. hid_get_feature_report_win E a buf' 18 s2 = Some (18, token_answer ser f (take n buf) @ drop 18 buf', s3) \<and>
          hid_close_win E (Some a) s3 = Some s4 \<and> win_inv (snd (hid_exit_win s4))"
      using win_report [OF t len o(2,3) b] by blast
    have ex: "\<exists>r5 h5. hid_exit_win s4 = (r5, h5) \<and> win_inv h5" if "win_inv (snd (hid_exit_win s4))" for s4
      using that by (metis prod.collapse)
    show "\<exists>r2 h2. api_send_feature_report (windows_backend E) a buf n s1 = Some (r2, h2) \<and> 0 \<le> r2 \<and>
           (\<forall>buf'. 18 \<le> length buf' \<longrightarrow> buf' ! 0 = of_nat ReportID_GetLarge \<longrightarrow>
             (\<exists>r3 h3 h4 r5 h5.
               api_get_feature_report (windows_backend E) a buf' 18 h2 =
                 Some (r3, token_answer ser f (take n buf) @ drop 18 buf', h3) \<and>
               0 \<le> r3 \<and> api_close (windows_backend E) (Some a) h3 = Some h4 \<and>
               api_exit (windows_backend E) h4 = Some (r5, h5) \<and> win_inv h5))"
      using r ex by (fastforce simp: windows_backend_def)
  qed
qed

section \<open>The token is attached\<close>

definition plugged_windows ::
    "platform \<Rightarrow> win_env \<Rightarrow> byte list \<Rightarrow> byte \<times> byte \<Rightarrow> (byte \<Rightarrow> byte list \<Rightarrow> byte + byte list) \<Rightarrow> bool" where
  "plugged_windows P E ser status key \<longleftrightarrow> length ser = 4 \<and> ascii_locale (wc_to_mb P) \<and>
     (\<exists>pa hx. hex_printer hx \<and> token_win E pa hx ser (token_model status key))"

lemma plugged_windows_attached:
  assumes "plugged_windows P E ser status key"
  shows "attached P (windows_backend E) win_inv ser status key"
proof -
  obtain pa hx where t: "hex_printer hx" "token_win E pa hx ser (token_model status key)"
    and p: "length ser = 4" "ascii_locale (wc_to_mb P)"
    using assms unfolding plugged_windows_def by blast
  have h: "0 \<notin> set (serial_string hx ser)" "length (serial_string hx ser) < 512"
    using serial_string_text [OF t(1), of ser] p(1) by simp_all
  have "present P (windows_backend E) win_inv ser" using win_lists [OF t(2) h] t(1) p unfolding present_def by blast
  moreover have "serves (windows_backend E) win_inv (token_answer ser (token_model status key))"
    by (rule win_serves [OF t(2) _ h]) simp
  ultimately show ?thesis by (simp add: attached_def)
qed

end
