(* ===== verification/HidWindowsProps.thy ===== *)
theory HidWindowsProps
  imports HidWindowsToken PluginProps
begin

text \<open>
  The token library and the plugin over the Windows implementation; what its operations keep, and what its reads deliver.
\<close>

section \<open>What operations on an open device keep\<close>

lemma write_win_serviced:
  assumes "hid_write_win E a data len s = Some (r, s')"
  shows "serviced a s s'"
proof -
  obtain d where d: "wheap s a = Some d" using assms by (auto simp: hid_write_win_def elim: bind_SomeE)
  define bo where "bo = (if unat (output_report_length d) \<le> len then rd_block data 0 (len mod 2 ^ 32)
       else do { b \<leftarrow> rd_block data 0 len; Some (b @ replicate (unat (output_report_length d) - len) 0) })"
  obtain buf where buf: "bo = Some buf"
    using assms d unfolding hid_write_win_def Let_def d bind.bind_lunit bo_def [symmetric] by (auto elim: bind_SomeE)
  obtain ans s1 where 1: "on_file (file_handle d) (\<lambda>h. WWrite h buf) Io_failed (\<lambda>tr pa. we_write E tr pa buf) s = (ans, s1)" by force
  obtain w s2 where 2: "(if ans = Io_failed then (None, s1) else on_file (file_handle d) WResult None (we_written E) s1) = (w, s2)"
    by force
  have v1: "serviced a s s1" by (rule serviced_call [OF serviced_refl [OF d] 1])
  have v: "serviced a s s2" using 2 v1 serviced_call [OF v1] by (auto split: if_splits)
  have e: "(case w of None \<Rightarrow> do { (r, _, s3) \<leftarrow> failed_win E a () s2; Some (r, s3) } | Some k \<Rightarrow> Some (int_of_dword k, s2)) = Some (r, s')"
    using assms unfolding hid_write_win_def Let_def d bind.bind_lunit bo_def [symmetric] buf 1 prod.case 2 by simp
  show ?thesis
  proof (cases w)
    case None
    then obtain u where "failed_win E a () s2 = Some (r, u, s')" using e by (auto elim!: bind_SomeE)
    from serviced_failed [OF v this] show ?thesis by blast
  next
    case (Some k)
    then show ?thesis using e v by simp
  qed
qed

text \<open>A request that could not be started is taken back.\<close>

lemma refused_read_serviced:
  assumes d: "wheap s a = Some d" "\<not> read_pending d" and b: "read_buf d = Some buf" "length buf0 = length buf"
    and 2: "on_file (file_handle d) (\<lambda>h. WRead h (input_report_length d)) Io_failed (we_read E)
      (s\<lparr>wheap := (wheap s)(a \<mapsto> d\<lparr>read_pending := True, read_buf := Some buf0\<rparr>)\<rparr>) = (ans, s2)"
    and 3: "update_win a (\<lambda>d. d\<lparr>read_pending := False\<rparr>) (cancel_io (file_handle d) s2) = Some s3"
  shows "serviced a s s3"
proof -
  have p2: "wheap s2 = (wheap s)(a \<mapsto> d\<lparr>read_pending := True, read_buf := Some buf0\<rparr>)"
    using on_file_aside [OF 2] by (simp add: aside_def)
  have c: "outstanding s2 = outstanding s" "wblocks s2 = wblocks s" "wnext s2 = wnext s" "win_handles s2 = win_handles s"
    "win_next_handle s2 = win_next_handle s" "preparsed s2 = preparsed s" "lib_handle s2 = lib_handle s" "initialized s2 = initialized s"
    using 2 by (auto elim!: on_file_noted)
  let ?e = "d\<lparr>read_buf := Some buf0, read_pending := False\<rparr>"
  have "s3 = (cancel_io (file_handle d) s2)\<lparr>wheap := (wheap s)(a \<mapsto> ?e)\<rparr>"
    using 3 p2 by (simp add: update_win_def)
  then show ?thesis
    unfolding serviced_def using d b
    by (intro conjI exI [of _ d] exI [of _ ?e]) (simp_all add: c same_device_def device_blocks_def)
qed

lemma start_read_serviced:
  assumes "start_read E a s = Some (go, s')"
  shows "serviced a s s'"
proof -
  obtain d where d: "wheap s a = Some d" using assms by (auto simp: start_read_def elim: bind_SomeE)
  show ?thesis
  proof (cases "read_pending d")
    case True
    then show ?thesis using assms d serviced_refl by (simp add: start_read_def)
  next
    case False
    then obtain buf buf0 where b: "read_buf d = Some buf" "wr_block buf 0 (replicate (input_report_length d) 0) = Some buf0"
      using assms d by (auto simp: start_read_def elim!: bind_SomeE)
    let ?s1 = "s\<lparr>wheap := (wheap s)(a \<mapsto> d\<lparr>read_pending := True, read_buf := Some buf0\<rparr>)\<rparr>"
    have u: "update_win a (\<lambda>d. d\<lparr>read_pending := True, read_buf := Some buf0\<rparr>) s = Some ?s1"
      by (simp add: update_win_def d)
    have v1: "serviced a s ?s1"
      by (rule serviced_update [OF serviced_refl [OF d] u])
        (use d b wr_block_length [OF b(2)] in \<open>simp add: same_device_def device_blocks_def\<close>)
    obtain ans s2 where 2: "on_file (file_handle d) (\<lambda>h. WRead h (input_report_length d)) Io_failed (we_read E) ?s1 = (ans, s2)" by force
    have v2: "serviced a s s2" by (rule serviced_call [OF v1 2])
    have e: "(case ans of
         Io_done \<Rightarrow> Some (True, s2)
       | Io_pending \<Rightarrow> Some (True, s2\<lparr>outstanding := insert a (outstanding s2)\<rparr>)
       | Io_failed \<Rightarrow> do {
           s3 \<leftarrow> update_win a (\<lambda>d. d\<lparr>read_pending := False\<rparr>) (cancel_io (file_handle d) s2);
           Some (False, s3) }) = Some (go, s')"
      using assms unfolding start_read_def d bind.bind_lunit b u Let_def 2 prod.case using False by simp
    show ?thesis
    proof (cases ans)
      case Io_pending
      have "serviced a s2 (s2\<lparr>outstanding := insert a (outstanding s2)\<rparr>)"
        using on_file_aside [OF 2] by (auto simp: serviced_def same_device_def aside_def)
      then show ?thesis using e v2 Io_pending serviced_trans by auto
    next
      case Io_failed
      then show ?thesis
        using e refused_read_serviced [OF d False b(1) wr_block_length [OF b(2)] 2] by (auto elim!: bind_SomeE)
    qed (use e v2 in simp)
  qed
qed

lemma finish_read_serviced:
  assumes "finish_read E a data len s = Some (r, data', s')"
  shows "serviced a s s'"
proof -
  obtain d where d: "wheap s a = Some d" using assms by (auto simp: finish_read_def elim: bind_SomeE)
  obtain ans s1 where 1: "on_file (file_handle d) WResult None (we_result E) s = (ans, s1)" by force
  define s2 where "s2 = s1\<lparr>outstanding := outstanding s1 - {a}, wheap := (wheap s)(a \<mapsto> d\<lparr>read_pending := False\<rparr>)\<rparr>"
  have v1: "serviced a s s1" by (rule serviced_call [OF serviced_refl [OF d] 1])
  have w1: "wheap s1 = wheap s" using on_file_aside [OF 1] by (simp add: aside_def)
  then have u: "update_win a (\<lambda>d. d\<lparr>read_pending := False\<rparr>) (s1\<lparr>outstanding := outstanding s1 - {a}\<rparr>) = Some s2"
    using d by (simp add: update_win_def s2_def)
  have "serviced a s1 s2"
    unfolding serviced_def using d
    by (intro conjI exI [of _ d] exI [of _ "d\<lparr>read_pending := False\<rparr>"])
      (simp_all add: s2_def w1 same_device_def device_blocks_def)
  then have v2: "serviced a s s2" using v1 serviced_trans by blast
  have e: "(case ans of
       None \<Rightarrow> failed_win E a data s2
     | Some bs \<Rightarrow> do {
         buf \<leftarrow> read_buf d;
         let got = take (input_report_length d) bs;
         buf1 \<leftarrow> wr_block buf 0 got;
         s3 \<leftarrow> update_win a (\<lambda>d. d\<lparr>read_buf := Some buf1\<rparr>) s2;
         (r, data') \<leftarrow> copy_report buf1 (length got) data len;
         Some (r, data', s3) }) = Some (r, data', s')"
    using assms unfolding finish_read_def d bind.bind_lunit 1 Let_def prod.case u .
  show ?thesis
  proof (cases ans)
    case None
    then have "failed_win E a data s2 = Some (r, data', s')" using e by simp
    from serviced_failed [OF v2 this] show ?thesis by blast
  next
    case (Some bs)
    then obtain buf buf1 where b: "read_buf d = Some buf" "wr_block buf 0 (take (input_report_length d) bs) = Some buf1"
      and u3: "update_win a (\<lambda>d. d\<lparr>read_buf := Some buf1\<rparr>) s2 = Some s'"
      using e by (auto simp: Let_def elim!: bind_SomeE)
    show ?thesis
      by (rule serviced_update [OF v2 u3])
        (use b wr_block_length [OF b(2)] in \<open>simp add: s2_def same_device_def device_blocks_def\<close>)
  qed
qed

lemma read_timeout_win_serviced:
  assumes "hid_read_timeout_win E a data len ms s = Some (r, data', s')"
  shows "serviced a s s'"
proof -
  obtain go s1 where 1: "start_read E a s = Some (go, s1)"
    using assms by (auto simp: hid_read_timeout_win_def elim: bind_SomeE)
  have v1: "serviced a s s1" by (rule start_read_serviced [OF 1])
  show ?thesis
  proof (cases "go \<and> 0 \<le> ms")
    case False
    then consider "failed_win E a data s1 = Some (r, data', s')" | "finish_read E a data len s1 = Some (r, data', s')"
      using assms 1 by (auto simp: hid_read_timeout_win_def split: if_splits)
    then show ?thesis
    proof cases
      case 1
      from serviced_failed [OF v1 this] show ?thesis by blast
    next
      case 2
      from finish_read_serviced [OF this] v1 show ?thesis using serviced_trans by blast
    qed
  next
    case True
    obtain d where d: "wheap s1 a = Some d" using serviced_live [OF v1] by blast
    obtain ready s2 where w: "wait_event E d ms s1 = (ready, s2)" by force
    have "serviced a s1 s2"
      using w serviced_refl [OF d] serviced_call [of a s1 s1] by (auto simp: wait_event_def split: if_splits)
    then have v2: "serviced a s s2" using v1 serviced_trans by blast
    have e: "(if ready then finish_read E a data len s2 else Some (0, data, s2)) = Some (r, data', s')"
      using assms 1 True d w by (simp add: hid_read_timeout_win_def)
    show ?thesis
    proof (cases ready)
      case True
      then have "finish_read E a data len s2 = Some (r, data', s')" using e by simp
      from finish_read_serviced [OF this] v2 show ?thesis using serviced_trans by blast
    next
      case False
      then show ?thesis using e v2 by simp
    qed
  qed
qed

lemma string_win_serviced:
  assumes "get_string_win E a key str maxlen s = Some (r, str', s')"
  shows "serviced a s s'"
proof -
  obtain d where d: "wheap s a = Some d" "hid_dll s = Some ()"
    using assms by (auto simp: get_string_win_def elim!: bind_SomeE)
  let ?k = "(2 * maxlen) mod 2 ^ 32"
  obtain res t s1 where 1: "on_file (file_handle d) (\<lambda>h. WString h key ?k) (False, []) (\<lambda>tr pa. we_string E tr pa key ?k) s
      = ((res, t), s1)" by (metis surj_pair)
  have v: "serviced a s s1" by (rule serviced_call [OF serviced_refl [OF d(1)] 1])
  obtain str1 where "(if res then Some (0, str1, s1) else failed_win E a str1 s1) = Some (r, str', s')"
    using assms unfolding get_string_win_def d bind.bind_lunit Let_def 1 prod.case by (auto elim!: bind_SomeE)
  then consider "s' = s1" | "failed_win E a str1 s1 = Some (r, str', s')" by (auto split: if_splits)
  then show ?thesis
  proof cases
    case 2
    from serviced_failed [OF v this] show ?thesis by blast
  qed (use v in simp)
qed

text \<open>One call of the application on the open device \<open>a\<close>, and any number of them.\<close>

inductive win_op :: "win_env \<Rightarrow> nat \<Rightarrow> wst \<Rightarrow> wst \<Rightarrow> bool" for E a s where
  op_write: "hid_write_win E a data len s = Some (r, s') \<Longrightarrow> win_op E a s s'"
| op_read_timeout: "hid_read_timeout_win E a data len ms s = Some (r, data', s') \<Longrightarrow> win_op E a s s'"
| op_read: "hid_read_win E a data len s = Some (r, data', s') \<Longrightarrow> win_op E a s s'"
| op_nonblocking: "hid_set_nonblocking_win a nonblock s = Some (r, s') \<Longrightarrow> win_op E a s s'"
| op_send: "hid_send_feature_report_win E a data len s = Some (r, s') \<Longrightarrow> win_op E a s s'"
| op_get: "hid_get_feature_report_win E a data len s = Some (r, data', s') \<Longrightarrow> win_op E a s s'"
| op_manufacturer: "hid_get_manufacturer_string_win E a str maxlen s = Some (r, str', s') \<Longrightarrow> win_op E a s s'"
| op_product: "hid_get_product_string_win E a str maxlen s = Some (r, str', s') \<Longrightarrow> win_op E a s s'"
| op_serial: "hid_get_serial_number_string_win E a str maxlen s = Some (r, str', s') \<Longrightarrow> win_op E a s s'"
| op_indexed: "hid_get_indexed_string_win E a i str maxlen s = Some (r, str', s') \<Longrightarrow> win_op E a s s'"

abbreviation win_ops :: "win_env \<Rightarrow> nat \<Rightarrow> wst \<Rightarrow> wst \<Rightarrow> bool" where
  "win_ops E a \<equiv> (win_op E a)\<^sup>*\<^sup>*"

lemma win_op_serviced: "win_op E a s s' \<Longrightarrow> serviced a s s'"
proof (induction rule: win_op.induct)
  case (op_read data len r data' s')
  then show ?case using read_timeout_win_serviced by (auto simp: hid_read_win_def elim!: bind_SomeE)
next
  case (op_nonblocking nonblock r s')
  then obtain d where d: "wheap s a = Some d" "update_win a (\<lambda>d. d\<lparr>win_blocking := \<not> nonblock\<rparr>) s = Some s'"
    by (auto simp: hid_set_nonblocking_win_def update_win_def split: option.splits)
  show ?case
    by (rule serviced_update [OF serviced_refl [OF d(1)] d(2)]) (simp add: same_device_def device_blocks_def)
qed (auto simp: hid_get_manufacturer_string_win_def hid_get_product_string_win_def hid_get_serial_number_string_win_def
    hid_get_indexed_string_win_def intro: write_win_serviced read_timeout_win_serviced send_win_serviced string_win_serviced
    get_win_serviced [THEN conjunct1])

lemma win_ops_serviced: "win_ops E a s s' \<Longrightarrow> wheap s a \<noteq> None \<Longrightarrow> serviced a s s'"
proof (induction rule: rtranclp_induct)
  case base
  then show ?case using serviced_refl by blast
next
  case (step t u)
  then show ?case using win_op_serviced serviced_trans by blast
qed

text \<open>
  C12. In one session on Windows, a device is opened, used in any way and closed. Closing never fails, and structures, handles,
  heap blocks and preparsed data are then what they were, whatever the system has answered to any call.
\<close>

theorem session_balance_windows:
  assumes inv: "win_inv s" and o: "hid_open_win E v p sn s = Some (Some a, s1)" and u: "win_ops E a s1 s2"
  shows "\<exists>s3. hid_close_win E (Some a) s2 = Some s3 \<and> win_inv s3 \<and> wheap s3 = wheap s \<and> win_handles s3 = win_handles s \<and>
    wblocks s3 = wblocks s \<and> preparsed s3 = preparsed s"
proof -
  obtain d where d: "opened a d s s1" using open_win_frame [OF o inv] by auto
  have h1: "wheap s1 = (wheap s)(a \<mapsto> d)" "wblocks s1 = wblocks s + device_blocks d" "preparsed s1 = preparsed s"
    "\<And>n. n \<in> own_handles d \<Longrightarrow> win_next_handle s \<le> n" "\<And>n. n \<notin> own_handles d \<Longrightarrow> win_handles s1 n = win_handles s n" "wnext s \<le> a"
    using d by (simp_all add: opened_def)
  have i1: "win_inv s1" using opened_inv [OF inv d] by blast
  have sv: "serviced a s1 s2" by (rule win_ops_serviced [OF u]) (simp add: h1)
  then obtain e where e: "wheap s2 = (wheap s1)(a \<mapsto> e)" "same_device d e" "wblocks s2 - device_blocks e = wblocks s1 - device_blocks d"
    and f: "win_handles s2 = win_handles s1" "preparsed s2 = preparsed s1"
    using h1(1) by (auto simp: serviced_def)
  have e2: "wheap s2 a = Some e" by (simp add: e(1))
  obtain s3 where c: "hid_close_win E (Some a) s2 = Some s3" "closed a e s2 s3" using close_win_closed [OF e2] by blast
  have i3: "win_inv s3" using closed_inv [OF _ e2 c(2)] serviced_inv [OF i1 sv] by blast
  have own: "own_handles e = own_handles d" using e(2) by (simp add: own_handles_def same_device_def)
  have "wheap s a = None" "\<And>n. n \<in> own_handles d \<Longrightarrow> win_handles s n = None"
    using inv h1(4,6) by (simp_all add: win_inv_def)
  then have "wheap s3 = wheap s" "win_handles s3 = win_handles s"
    using c(2) own h1(1,5) e(1) f(1) by (auto simp: closed_def fun_eq_iff)
  moreover have "wblocks s3 = wblocks s" "preparsed s3 = preparsed s" using c(2) e(3) h1(2,3) f(2) by (simp_all add: closed_def)
  ultimately show ?thesis using c(1) i3 by blast
qed

section \<open>Reading\<close>

text \<open>The bytes of a report the caller is to get: Windows puts a 0 in front of a report without a number.\<close>

definition report_text :: "byte list \<Rightarrow> byte list" where
  "report_text bs = (if bs \<noteq> [] \<and> hd bs = 0 then tl bs else bs)"

definition stored :: "byte list \<Rightarrow> nat \<Rightarrow> byte list \<Rightarrow> byte list" where
  "stored bs len data = take len (report_text bs) @ drop (min len (length (report_text bs))) data"

lemma int_of_dword_small: "n < 2 ^ 31 \<Longrightarrow> int_of_dword n = int n"
  by (simp add: int_of_dword_def signed_take_bit_int_eq_self)

lemma copy_report_text:
  assumes "length bs < 2 ^ 31" "len \<le> length data"
  shows "copy_report (bs @ rest) (length bs) data len = Some (int (length (report_text bs)), stored bs len data)"
proof (cases bs)
  case Nil
  then show ?thesis by (simp add: copy_report_def report_text_def stored_def)
next
  case (Cons b r)
  have w: "wr_block data 0 (take len t) = Some (take len t @ drop (min len (length t)) data)" for t
    using assms(2) by (simp add: wr_block_def min.commute)
  have i: "int_of_dword (length r) = int (length r)" "int_of_dword (length bs) = int (length bs)"
    using assms(1) Cons by (simp_all add: int_of_dword_small)
  show ?thesis
  proof (cases "b = 0")
    case True
    have "rd_block (bs @ rest) 1 (min len (length bs - 1)) = Some (take len r)"
      using Cons by (simp add: rd_block_def min_def)
    then show ?thesis using Cons True w [of r] i
      by (simp add: copy_report_def report_text_def stored_def rd_def)
  next
    case False
    have "rd_block (bs @ rest) 0 (min len (length bs)) = Some (take len bs)"
      by (simp add: rd_block_def min_def)
    then show ?thesis using Cons False w [of bs] i
      by (simp add: copy_report_def report_text_def stored_def rd_def)
  qed
qed

text \<open>A device that is open and has a read request at the system.\<close>

lemma finish_read_report:
  assumes d: "wheap s a = Some d" "file_handle d = Some h" "win_handles s h = Some (File pa)" "buffer_ok d"
    and r: "we_result E (wtrace s) pa = Some bs" "length bs \<le> input_report_length d" "len \<le> length data"
  shows "\<exists>s'. finish_read E a data len s = Some (int (length (report_text bs)), stored bs len data, s') \<and>
    wtrace s' = wtrace s @ [WResult h] \<and> a \<notin> outstanding s' \<and> (\<exists>e. wheap s' a = Some e \<and> \<not> read_pending e)"
proof -
  obtain buf where b: "read_buf d = Some buf" "length buf = input_report_length d" "input_report_length d < 2 ^ 16"
    using d(4) by (auto simp: buffer_ok_def)
  have w: "wr_block buf 0 bs = Some (bs @ drop (length bs) buf)" using r(2) b(2) by (simp add: wr_block_def)
  have "length bs < 2 ^ 31" using r(2) b(3) by simp
  then show ?thesis
    using d r b(1) w copy_report_text [of bs len data "drop (length bs) buf"]
    by (simp add: finish_read_def on_file_open [OF d(3)] update_win_def)
qed

text \<open>
  C29. A blocking read on Windows delivers the bytes of the report, without the 0 in front, as far as the caller's array goes. What it
  returns is the length of the report, and not the number of bytes it has stored.
\<close>

theorem read_windows:
  assumes inv: "win_inv s" and d: "wheap s a = Some d" "file_handle d = Some h" "win_handles s h = Some (File pa)" "\<not> read_pending d"
    and r: "we_read E (wtrace s) pa \<noteq> Io_failed" "we_result E (wtrace s @ [WRead h (input_report_length d)]) pa = Some bs"
      "length bs \<le> input_report_length d" "len \<le> length data" "ms < 0"
  shows "\<exists>s'. hid_read_timeout_win E a data len ms s = Some (int (length (report_text bs)), stored bs len data, s') \<and> win_inv s' \<and>
    a \<notin> outstanding s'"
proof -
  have bo: "buffer_ok d" using inv d(1) unfolding win_inv_def by blast
  then obtain buf where b: "read_buf d = Some buf" "length buf = input_report_length d" by (auto simp: buffer_ok_def)
  let ?n = "input_report_length d"
  let ?d = "d\<lparr>read_pending := True, read_buf := Some (replicate ?n 0)\<rparr>"
  let ?s = "note_win (WRead h ?n) (s\<lparr>wheap := (wheap s)(a \<mapsto> ?d)\<rparr>)"
  define s1 where "s1 = (if we_read E (wtrace s) pa = Io_done then ?s else ?s\<lparr>outstanding := insert a (outstanding s)\<rparr>)"
  have w: "wr_block buf 0 (replicate ?n 0) = Some (replicate ?n 0)" using b(2) by (simp add: wr_block_def)
  have h1: "win_handles (s\<lparr>wheap := (wheap s)(a \<mapsto> ?d)\<rparr>) h = Some (File pa)" using d(3) by simp
  have 1: "start_read E a s = Some (True, s1)"
    using d b w r(1)
    by (cases "we_read E (wtrace s) pa") (simp_all add: start_read_def update_win_def on_file_open [OF h1] s1_def)
  have s1: "wheap s1 a = Some ?d" "win_handles s1 h = Some (File pa)" "wtrace s1 = wtrace s @ [WRead h ?n]"
    using d(3) by (simp_all add: s1_def)
  have "buffer_ok ?d" using bo by (simp add: buffer_ok_def)
  from finish_read_report [OF s1(1) _ s1(2) this, of E bs len data] obtain s' where
    f: "finish_read E a data len s1 = Some (int (length (report_text bs)), stored bs len data, s')" "a \<notin> outstanding s'"
    using d(2) r(2-4) by (auto simp: s1(3))
  have "hid_read_timeout_win E a data len ms s = Some (int (length (report_text bs)), stored bs len data, s')"
    using 1 f(1) r(5) by (simp add: hid_read_timeout_win_def)
  then show ?thesis using f(2) serviced_inv [OF inv read_timeout_win_serviced] by blast
qed

text \<open>A read that has timed out: the request is outstanding, the device says so.\<close>

lemma timed_out_read:
  assumes inv: "win_inv s" and d: "wheap s a = Some d" "file_handle d = Some h" "win_handles s h = Some (File pa)" "\<not> read_pending d"
    and r: "we_read E (wtrace s) pa = Io_pending" "0 \<le> ms"
    and w: "hEvent d = Some ev" "\<not> we_wait E (wtrace s @ [WRead h (input_report_length d)]) pa ms"
  shows "\<exists>s1 e. hid_read_timeout_win E a data len ms s = Some (0, data, s1) \<and> wheap s1 a = Some e \<and> file_handle e = Some h \<and>
    win_handles s1 h = Some (File pa) \<and> read_pending e \<and> input_report_length e = input_report_length d \<and> a \<in> outstanding s1 \<and>
    wtrace s1 = wtrace s @ [WRead h (input_report_length d), WWait h ms]"
proof -
  have "buffer_ok d" using inv d(1) unfolding win_inv_def by blast
  then obtain buf where b: "read_buf d = Some buf" "length buf = input_report_length d" by (auto simp: buffer_ok_def)
  let ?n = "input_report_length d"
  let ?d = "d\<lparr>read_pending := True, read_buf := Some (replicate ?n 0)\<rparr>"
  let ?s0 = "s\<lparr>wheap := (wheap s)(a \<mapsto> ?d)\<rparr>"
  let ?s1 = "(note_win (WRead h ?n) ?s0)\<lparr>outstanding := insert a (outstanding s)\<rparr>"
  have w0: "wr_block buf 0 (replicate ?n 0) = Some (replicate ?n 0)" using b(2) by (simp add: wr_block_def)
  have h0: "win_handles ?s0 h = Some (File pa)" and h1: "win_handles ?s1 h = Some (File pa)" using d(3) by simp_all
  have 1: "start_read E a s = Some (True, ?s1)"
    using d b w0 r(1) by (simp add: start_read_def update_win_def on_file_open [OF h0])
  have 2: "wait_event E ?d ms ?s1 = (False, note_win (WWait h ms) ?s1)"
    using d(2) w by (simp add: wait_event_def on_file_open [OF h1])
  show ?thesis using 1 2 r(2) d by (auto simp: hid_read_timeout_win_def)
qed

text \<open>
  C28. A read on Windows that times out loses nothing: the next blocking read does not ask again, but waits for the same
  request and delivers its report.
\<close>

theorem timed_out_read_resumed:
  assumes inv: "win_inv s" and d: "wheap s a = Some d" "file_handle d = Some h" "win_handles s h = Some (File pa)" "\<not> read_pending d"
    and r: "we_read E (wtrace s) pa = Io_pending" "0 \<le> ms"
    and w: "hEvent d = Some ev" "\<not> we_wait E (wtrace s @ [WRead h (input_report_length d)]) pa ms"
    and bs: "we_result E (wtrace s @ [WRead h (input_report_length d), WWait h ms]) pa = Some bs"
      "length bs \<le> input_report_length d" "len \<le> length data"
  shows "\<exists>s1 s2. hid_read_timeout_win E a data len ms s = Some (0, data, s1) \<and>
    hid_read_timeout_win E a data len (-1) s1 = Some (int (length (report_text bs)), stored bs len data, s2) \<and>
    wtrace s2 = wtrace s @ [WRead h (input_report_length d), WWait h ms, WResult h] \<and> a \<notin> outstanding s2"
proof -
  obtain s1 e where 1: "hid_read_timeout_win E a data len ms s = Some (0, data, s1)" "wheap s1 a = Some e" "file_handle e = Some h"
    "win_handles s1 h = Some (File pa)" "read_pending e" "input_report_length e = input_report_length d"
    "wtrace s1 = wtrace s @ [WRead h (input_report_length d), WWait h ms]"
    using timed_out_read [OF inv d r w] by blast
  have "win_inv s1" using serviced_inv [OF inv read_timeout_win_serviced [OF 1(1)]] by blast
  then have "buffer_ok e" using 1(2) unfolding win_inv_def by blast
  from finish_read_report [OF 1(2-4) this, of E bs len data] obtain s2 where
    2: "finish_read E a data len s1 = Some (int (length (report_text bs)), stored bs len data, s2)"
    "wtrace s2 = wtrace s1 @ [WResult h]" "a \<notin> outstanding s2"
    using bs by (auto simp: 1(6,7))
  have "start_read E a s1 = Some (True, s1)" using 1(2,5) by (simp add: start_read_def)
  then have "hid_read_timeout_win E a data len (-1) s1 = Some (int (length (report_text bs)), stored bs len data, s2)"
    using 2(1) by (simp add: hid_read_timeout_win_def)
  then show ?thesis using 1(1,7) 2(2,3) by auto
qed

text \<open>
  C35. Closing a device on Windows after a read has timed out frees the buffer and the \<open>OVERLAPPED\<close> of a request the kernel may not have
  finished yet: \<open>CancelIo\<close> does not wait.
\<close>

theorem close_frees_outstanding_read:
  assumes inv: "win_inv s" and d: "wheap s a = Some d" "file_handle d = Some h" "win_handles s h = Some (File pa)" "\<not> read_pending d"
    and r: "we_read E (wtrace s) pa = Io_pending" "0 \<le> ms"
    and w: "hEvent d = Some ev" "\<not> we_wait E (wtrace s @ [WRead h (input_report_length d)]) pa ms"
    and c: "\<not> we_settled E (wtrace s @ [WRead h (input_report_length d), WWait h ms, WCancel h]) pa"
  shows "\<exists>s1 s2. hid_read_timeout_win E a data len ms s = Some (0, data, s1) \<and> hid_close_win E (Some a) s1 = Some s2 \<and>
    a \<in> outstanding s2 \<and> wheap s2 a = None"
proof -
  obtain s1 e where 1: "hid_read_timeout_win E a data len ms s = Some (0, data, s1)" "wheap s1 a = Some e" "file_handle e = Some h"
    "win_handles s1 h = Some (File pa)" "a \<in> outstanding s1"
    "wtrace s1 = wtrace s @ [WRead h (input_report_length d), WWait h ms]"
    using timed_out_read [OF inv d r w] by blast
  let ?t = "note_win (WCancel h) s1"
  have ci: "cancel_io (Some h) s1 = ?t" by (simp add: cancel_io_def on_file_open [OF 1(4)])
  have ht: "win_handles ?t h = Some (File pa)" "wheap ?t a = Some e" using 1(2,4) by simp_all
  obtain s2 where f: "free_hid_device_win a ?t = Some s2" "wheap s2 = (wheap ?t)(a := None)" "outstanding s2 = outstanding ?t"
    using free_device_shape [OF ht(2)] by blast
  have "hid_close_win E (Some a) s1 = Some s2"
    using 1(2,3) f(1) c by (simp add: hid_close_win_def ci on_file_open [OF ht(1)] 1(6))
  then show ?thesis using 1(1,5) f(2,3) by auto
qed

section \<open>An example\<close>

definition example_win :: "byte \<times> byte \<Rightarrow> win_env" where
  "example_win status =
    \<lparr>we_load = (\<lambda>tr. True), we_proc = (\<lambda>tr name. True),
     we_scan = (\<lambda>tr. ([Some ''novin''], [\<lparr>dev_class = Some ''HIDClass'', driver_bound = True\<rparr>])),
     we_create = (\<lambda>tr pa enum. True), we_event = (\<lambda>tr. True), we_message = (\<lambda>tr. Some [69, 13, 10]),
     we_attributes = (\<lambda>tr pa. (VID, PID, 1)), we_preparsed = (\<lambda>tr pa. True),
     we_caps = (\<lambda>tr pa. Some \<lparr>cap_usage = 1, cap_usage_page = 0xFF00, cap_input = 65, cap_output = 65\<rparr>),
     we_wstr = (\<lambda>tr. []), we_string = (\<lambda>tr pa k n. (True, serial_string hex_char example_ser @ [0])),
     we_set = (\<lambda>tr pa p. True), we_ioctl = (\<lambda>tr pa p. Io_pending), we_write = (\<lambda>tr pa p. Io_failed),
     we_read = (\<lambda>tr pa. Io_pending), we_wait = (\<lambda>tr pa ms. False),
     we_result = (\<lambda>tr pa. case rev tr of
         WIoctl h b # WSet h' p # rest \<Rightarrow> Some (token_answer example_ser (token_model status example_key) p)
       | _ \<Rightarrow> Some [0, 7, 8, 9]),
     we_written = (\<lambda>tr pa. None), we_settled = (\<lambda>tr pa. False)\<rparr>"

definition example_win_state :: wst where
  "example_win_state = \<lparr>wheap = (\<lambda>a. None), wnext = 0, win_handles = (\<lambda>h. None), win_next_handle = 0, outstanding = {},
     lib_handle = False, initialized = False, wblocks = 0, preparsed = 0, wtrace = []\<rparr>"

lemma example_win_inv: "win_inv example_win_state"
  by (simp add: win_inv_def example_win_state_def)

lemma example_token_win:
  "token_win (example_win status) ''novin'' hex_char example_ser (token_model status example_key)"
  by (simp add: token_win_def example_win_def)

lemma example_plugged_windows: "plugged_windows example_platform (example_win status) example_ser status example_key"
  using example_token_win example_ok(1-3) unfolding plugged_windows_def by blast

text \<open>A device of the example right after it was opened.\<close>

definition example_win_dev :: win_dev where
  "example_win_dev = \<lparr>file_handle = Some 1, win_blocking = True, output_report_length = 65, input_report_length = 65,
     last_error_str = None, read_pending = False, read_buf = Some (replicate 65 0), hEvent = Some 0\<rparr>"

definition example_win_open :: wst where
  "example_win_open = example_win_state\<lparr>wheap := [0 \<mapsto> example_win_dev], wnext := 1,
     win_handles := [0 \<mapsto> Event, 1 \<mapsto> File ''novin''], win_next_handle := 2\<rparr>"

lemma example_win_open_ok:
  "win_inv example_win_open" "wheap example_win_open 0 = Some example_win_dev" "file_handle example_win_dev = Some 1"
  "win_handles example_win_open 1 = Some (File ''novin'')" "\<not> read_pending example_win_dev"
  "we_read (example_win (0, 8)) (wtrace example_win_open) ''novin'' = Io_pending" "hEvent example_win_dev = Some 0"
  "input_report_length example_win_dev = 65"
  by (simp_all add: win_inv_def example_win_open_def example_win_state_def example_win_dev_def handles_ok_def buffer_ok_def
      own_handles_def example_win_def)

theorem read_windows_witness:
  "\<exists>s'. hid_read_timeout_win (example_win (0, 8)) 0 [1, 1] 2 (-1) example_win_open = Some (3, [7, 8], s') \<and> 0 \<notin> outstanding s'"
proof -
  have "we_read (example_win (0, 8)) (wtrace example_win_open) ''novin'' \<noteq> Io_failed" using example_win_open_ok(6) by simp
  from read_windows [OF example_win_open_ok(1-5) this, of "[0, 7, 8, 9]" 2 "[1, 1]" "-1"] show ?thesis
    by (auto simp: example_win_open_def example_win_state_def example_win_def example_win_dev_def report_text_def stored_def)
qed

theorem timed_out_read_resumed_witness:
  "\<exists>s1 s2. hid_read_timeout_win (example_win (0, 8)) 0 [1, 1] 2 5 example_win_open = Some (0, [1, 1], s1) \<and>
    hid_read_timeout_win (example_win (0, 8)) 0 [1, 1] 2 (-1) s1 = Some (3, [7, 8], s2)"
proof -
  have 0: "(0 :: int) \<le> 5" by simp
  have w: "\<not> we_wait (example_win (0, 8)) (wtrace example_win_open @ [WRead 1 (input_report_length example_win_dev)]) ''novin'' 5"
    by (simp add: example_win_def)
  show ?thesis
    using timed_out_read_resumed [OF example_win_open_ok(1-6) 0 example_win_open_ok(7) w, of "[0, 7, 8, 9]" 2 "[1, 1]"]
    by (auto simp: example_win_def example_win_open_ok(8) report_text_def stored_def)
qed

theorem close_frees_outstanding_read_witness:
  "\<exists>s1 s2. hid_read_timeout_win (example_win (0, 8)) 0 [1, 1] 2 5 example_win_open = Some (0, [1, 1], s1) \<and>
    hid_close_win (example_win (0, 8)) (Some 0) s1 = Some s2 \<and> 0 \<in> outstanding s2 \<and> wheap s2 0 = None"
proof -
  have 0: "(0 :: int) \<le> 5" by simp
  have w: "\<not> we_wait (example_win (0, 8)) (wtrace example_win_open @ [WRead 1 (input_report_length example_win_dev)]) ''novin'' 5"
    and c: "\<not> we_settled (example_win (0, 8)) (wtrace example_win_open @ [WRead 1 (input_report_length example_win_dev), WWait 1 5, WCancel 1]) ''novin''"
    by (simp_all add: example_win_def)
  show ?thesis by (rule close_frees_outstanding_read [OF example_win_open_ok(1-6) 0 example_win_open_ok(7) w c])
qed

lemma example_win_opens: "\<exists>a s1. hid_open_win (example_win (0, 8)) VID PID None example_win_state = Some (Some a, s1) \<and> win_inv s1"
proof -
  have h: "hex_printer hex_char" by (rule hex_printers)
  have "length (serial_string hex_char example_ser) < 512" by (simp add: serial_string_text(2) [OF h] example_ser_def)
  from win_open [OF example_token_win example_win_inv serial_string_text(1) [OF h] this] show ?thesis by blast
qed

theorem session_balance_windows_witness:
  "\<exists>a s1 s2 s3. hid_open_win (example_win (0, 8)) VID PID None example_win_state = Some (Some a, s1) \<and>
    hid_set_nonblocking_win a True s1 = Some (0, s2) \<and> hid_close_win (example_win (0, 8)) (Some a) s2 = Some s3 \<and>
    wheap s3 = wheap example_win_state \<and> wblocks s3 = 0"
proof -
  obtain a s1 where o: "hid_open_win (example_win (0, 8)) VID PID None example_win_state = Some (Some a, s1)"
    using example_win_opens by blast
  have "win_ops (example_win (0, 8)) a s1 s1" by simp
  have "wheap s1 a \<noteq> None" using open_win_frame [OF o example_win_inv] by (auto simp: opened_def)
  then obtain s2 where n: "hid_set_nonblocking_win a True s1 = Some (0, s2)"
    by (auto simp: hid_set_nonblocking_win_def update_win_def)
  have "win_ops (example_win (0, 8)) a s1 s2" by (rule r_into_rtranclp) (rule op_nonblocking [OF n])
  from session_balance_windows [OF example_win_inv o this] n o show ?thesis by (auto simp: example_win_state_def)
qed

section \<open>The library over Windows\<close>

definition example_page_windows :: "wst plugin" where
  "example_page_windows = new_plugin \<lparr>ld_open = True, ld_error = (\<lambda>name. False)\<rparr> [0, 0, 0, 0] 0
     \<lparr>tk = zero_tk, LAST_ERR_NO = nErr_OK, hid = example_win_state, frames = 0, ssl_calls = 0, bignums = 0, streams = 0,
      files = (\<lambda>f. None)\<rparr>"

lemma example_page_windows_ok:
  "hid (lib example_page_windows) = example_win_state" "get_TkErr example_page_windows = nErr_OK"
  "length (dev_serial example_page_windows) = 4"
  by (simp_all add: example_page_windows_def new_plugin_def loadTokenDll_def dll_symbols_def get_TkErr_def get_err_no_def)

text \<open>
  C10. With the Windows implementation of HIDAPI underneath, a page gets its message back as with the ones of Linux, even when no events
  can be created and no string but the serial number can be read.
\<close>

theorem page_roundtrip_windows:
  assumes "plugged_windows P E ser (lo, hi) key" "win_inv (hid (lib p))" "get_TkErr p = nErr_OK" "length (dev_serial p) = 4"
    and "good_stack P" "openssl_succeeds S" "usable (uint hi * 256 + uint lo)" "holds_public key Ke N"
    and "holds_private key (password16 pwd) D N"
    and "rsa_pair S (rsa_value Ke N None) (rsa_value Ke N (Some D)) m" "0 \<notin> set m" "length m < 1024"
  shows "\<exists>p1 p2 p3 hex. GetToken P (windows_backend E) p = Some p1 \<and> dev_serial p1 = ser \<and>
    RsaEncrypt P (windows_backend E) S 1 m pwd p1 = Some (hex, p2) \<and> length hex = 256 \<and>
    RsaDecrypt P (windows_backend E) S 2 hex pwd p2 = Some (m, p3) \<and> get_TkErr p3 = nErr_OK"
  by (rule page_roundtrip_attached [OF plugged_windows_attached [OF assms(1)] assms(2-12)])

theorem page_roundtrip_windows_witness:
  "\<exists>p1 p2 p3 hex. GetToken example_platform (windows_backend (example_win (0, 8))) example_page_windows = Some p1 \<and>
    RsaEncrypt example_platform (windows_backend (example_win (0, 8))) example_padding 1 [72, 105] example_pwd p1 = Some (hex, p2) \<and>
    RsaDecrypt example_platform (windows_backend (example_win (0, 8))) example_padding 2 hex example_pwd p2 = Some ([72, 105], p3)"
proof -
  have "openssl_succeeds example_padding"
    by (simp add: openssl_succeeds_def example_padding_def example_ssl_def)
  moreover have "rsa_pair example_padding pub priv [72, 105]" for pub priv
    by (simp add: rsa_pair_def example_padding_def)
  moreover have "win_inv (hid (lib example_page_windows))" using example_win_inv by (simp add: example_page_windows_ok)
  ultimately show ?thesis
    using page_roundtrip_windows [OF example_plugged_windows [of "(0, 8)"] _ example_page_windows_ok(2,3) example_ok(4) _
        example_usable example_ok(7) example_private, of example_padding "[72, 105]"] by fastforce
qed

text \<open>
  C11. The invariant of the library over Windows: whatever the application calls and whatever the system answers, the handles that are
  open in the system after a call are those that were open before the first one, and so are the device structures in use and the
  preparsed data not freed; handles, buffers and requests stay with their devices, and at most the first entry of \<open>tk\<close> is in use.
\<close>

theorem library_invariant_windows:
  assumes "lib_start h s" "win_inv h" "lib_reach P (windows_backend E) S s s'"
  shows "win_inv (hid s') \<and> win_live (hid s') = win_live h \<and> win_handles (hid s') = win_handles h \<and>
    preparsed (hid s') = preparsed h \<and> session_ok (tk s')"
proof -
  have "session_ok (tk s)" "hid s = h" using assms(1) session_ok_zero by (simp_all add: lib_start_def)
  then show ?thesis using hid_backend.lib_reach_keeps [OF windows.hid_backend_axioms assms(3)] assms(2) by (simp add: win_held_def)
qed

theorem library_invariant_windows_witness:
  "\<exists>s1. get_first_device example_platform (windows_backend (example_win (0, 8))) (lib example_page_windows) = Some s1 \<and>
    win_inv (hid s1) \<and> win_handles (hid s1) = win_handles example_win_state \<and> session_ok (tk s1)"
proof -
  let ?H = "windows_backend (example_win (0, 8))" and ?s = "lib example_page_windows"
  have r: "win_inv (hid ?s)" using example_win_inv by (simp add: example_page_windows_ok)
  obtain s1 where s1: "get_first_device example_platform ?H ?s = Some s1"
    using first_device_ok [OF attached_present [OF plugged_windows_attached [OF example_plugged_windows]] r] by blast
  have st: "lib_start example_win_state ?s"
    by (simp add: lib_start_def example_page_windows_def new_plugin_def loadTokenDll_def)
  have "lib_reach example_platform ?H example_ssl ?s s1"
    using reach_step [OF reach_start step_first [OF s1]] by simp
  from library_invariant_windows [OF st example_win_inv this] show ?thesis using s1 by blast
qed

section \<open>Enumeration\<close>

text \<open>
  The check of the setup class is about the whole set: when the class of a device in front of the first bound HID device cannot be
  read, \<open>hid_enumerate\<close> on Windows lists nothing, whatever is connected.
\<close>

lemma enum_interfaces_unbound: "\<not> class_bound infos \<Longrightarrow> enum_interfaces_win E v p infos is s = Some ([], s)"
  by (induction "is") (auto simp: enum_interface_win_def split: option.splits)

theorem unreadable_class_hides_all:
  assumes "hid_init_win E s = (0, s0)" "we_scan E (wtrace s0) = (interfaces, d # infos)" "dev_class d = None"
  shows "hid_enumerate_win E v p s = Some ([], note_win WScan s0)"
  using assms enum_interfaces_unbound [of "d # infos"] by (simp add: hid_enumerate_win_def)

theorem unreadable_class_hides_all_witness:
  "\<exists>s'. hid_enumerate_win ((example_win (0, 8))\<lparr>we_scan := (\<lambda>tr. ([Some ''novin''],
      [\<lparr>dev_class = None, driver_bound = False\<rparr>, \<lparr>dev_class = Some ''HIDClass'', driver_bound = True\<rparr>]))\<rparr>) VID PID
      example_win_state = Some ([], s')"
proof -
  let ?E = "(example_win (0, 8))\<lparr>we_scan := (\<lambda>tr. ([Some ''novin''],
      [\<lparr>dev_class = None, driver_bound = False\<rparr>, \<lparr>dev_class = Some ''HIDClass'', driver_bound = True\<rparr>]))\<rparr>"
  have "\<exists>s0. hid_init_win ?E example_win_state = (0, s0)"
    by (simp add: hid_init_win_def lookup_functions_def example_win_def example_win_state_def list_all_iff)
  then obtain s0 where "hid_init_win ?E example_win_state = (0, s0)" by blast
  from unreadable_class_hides_all [OF this, of "[Some ''novin'']"] show ?thesis by (auto simp: example_win_def)
qed

end
