(* ===== verification/HidMac.thy ===== *)
theory HidMac
  imports HidLibusb BoundedBuffer
begin

text \<open>
  The Mac OS X implementation of HIDAPI, \<^verbatim>\<open>token-DLL/hidapi-master/mac/hid.c\<close>. Its names carry the suffix \<open>_mac\<close> here.
  IOKit and Core Foundation are not part of the repository: calls that change something are recorded in a history, and the
  record \<open>mac_env\<close> says what each answers as a function of it; the properties of a device do not change. The read thread runs
  concurrently and has a theory of its own, \<open>MacThread\<close>; here its existence is a count in the device structure.
\<close>

section \<open>The system as the file sees it\<close>

datatype mac_key =
  kIOHIDVendorIDKey | kIOHIDProductIDKey | kIOHIDLocationIDKey | kIOHIDMaxInputReportSizeKey | kIOHIDSerialNumberKey
| kIOHIDManufacturerKey | kIOHIDProductKey | kIOHIDTransportKey | kIOHIDPrimaryUsagePageKey | kIOHIDPrimaryUsageKey
| kIOHIDVersionNumberKey

text \<open>A property is a number, a string (of UTF-16 units), or an object of another type.\<close>

datatype mac_prop = Mac_number int | Mac_string "u16 list" | Mac_object

record mac_device =
  mac_id :: nat
  mac_property :: "mac_key \<Rightarrow> mac_prop option"

datatype mac_report_type = kIOHIDReportTypeOutput | kIOHIDReportTypeFeature

datatype mac_call =
  MCreate | MClose_manager | MRun_loop | MDevices | MOpen nat | MClose nat | MSignal nat
| MSet nat mac_report_type byte "byte list" | MGet nat byte nat

text \<open>The results of \<open>CFRunLoopRunInMode\<close>.\<close>

datatype run_result = Run_finished | Run_stopped | Run_timed_out | Run_handled_source

text \<open>
  \<open>me_devices\<close>: the set of devices, as \<open>CFSetGetValues\<close> lists it; NULL when there are none. \<open>me_utf32\<close> is \<open>CFStringGetBytes\<close> to
  UTF-32 with room for a number of characters: the units converted and the characters written; \<open>me_utf8\<close> the same to UTF-8. \<open>me_buf\<close>:
  what the local array \<open>buf\<close> holds at first.
\<close>

record mac_env =
  me_manager :: "mac_call list \<Rightarrow> bool"
  me_run :: "mac_call list \<Rightarrow> run_result"
  me_devices :: "mac_call list \<Rightarrow> mac_device option list option"
  me_utf32 :: "u16 list \<Rightarrow> nat \<Rightarrow> nat \<times> wchar list"
  me_utf8 :: "u16 list \<Rightarrow> nat \<Rightarrow> string"
  me_open :: "mac_call list \<Rightarrow> mac_device \<Rightarrow> bool"
  me_set :: "mac_call list \<Rightarrow> mac_device \<Rightarrow> mac_report_type \<Rightarrow> byte \<Rightarrow> byte list \<Rightarrow> bool"
  me_get :: "mac_call list \<Rightarrow> mac_device \<Rightarrow> byte \<Rightarrow> nat \<Rightarrow> byte list option"
  me_buf :: "mac_call list \<Rightarrow> wchar list"

section \<open>State\<close>

text \<open>
  \<open>struct hid_device_\<close>: of the run loop, its mode and the source it matters whether they are there; of \<open>input_report_buf\<close> its
  size; \<open>mac_threads\<close> counts the read threads.
\<close>

record mac_dev =
  mac_handle :: "mac_device option"
  mac_blocking :: bool
  disconnected :: bool
  run_loop_mode :: bool
  run_loop :: bool
  source :: bool
  input_report_buf :: "int option"
  max_input_report_len :: int
  mac_reports :: "byte list list"
  mac_shutdown :: bool
  mac_threads :: nat

text \<open>
  The allocated device structures, the static \<open>hid_mgr\<close>, for each device how often the program has opened and retained it, the
  Core Foundation objects created and not released, and the heap blocks of device infos and strings.
\<close>

record mst =
  mac_heap :: "nat \<Rightarrow> mac_dev option"
  mac_next :: nat
  hid_mgr :: bool
  seized :: "nat \<Rightarrow> int"
  retained :: "nat \<Rightarrow> int"
  cf_objects :: int
  mac_blocks :: int
  mac_trace :: "mac_call list"

definition note_mac :: "mac_call \<Rightarrow> mst \<Rightarrow> mst" where
  "note_mac c s = s\<lparr>mac_trace := mac_trace s @ [c]\<rparr>"

definition update_mac :: "nat \<Rightarrow> (mac_dev \<Rightarrow> mac_dev) \<Rightarrow> mst \<Rightarrow> mst option" where
  "update_mac a f s = do { d \<leftarrow> mac_heap s a; Some (s\<lparr>mac_heap := (mac_heap s)(a \<mapsto> f d)\<rparr>) }"

section \<open>Device structures\<close>

definition zero_mac_dev :: mac_dev where
  "zero_mac_dev = \<lparr>mac_handle = None, mac_blocking = True, disconnected = False, run_loop_mode = False, run_loop = False,
     source = False, input_report_buf = None, max_input_report_len = 0, mac_reports = [], mac_shutdown = False, mac_threads = 0\<rparr>"

definition new_hid_device_mac :: "mst \<Rightarrow> nat \<times> mst" where
  "new_hid_device_mac s =
     (mac_next s, s\<lparr>mac_heap := (mac_heap s)(mac_next s \<mapsto> zero_mac_dev), mac_next := mac_next s + 1\<rparr>)"

text \<open>Freeing a structure a read thread still works on is undefined behaviour.\<close>

definition free_hid_device_mac :: "nat \<Rightarrow> mst \<Rightarrow> mst option" where
  "free_hid_device_mac a s = do {
     d \<leftarrow> mac_heap s a;
     if mac_threads d \<noteq> 0 then None
     else Some (s\<lparr>mac_heap := (mac_heap s)(a := None),
       cf_objects := cf_objects s - (if run_loop_mode d then 1 else 0) - (if source d then 1 else 0)\<rparr>)
   }"

section \<open>Properties of devices\<close>

definition get_int_property :: "mac_device \<Rightarrow> mac_key \<Rightarrow> int" where
  "get_int_property dev key = (case mac_property dev key of Some (Mac_number v) \<Rightarrow> signed_take_bit 31 v | _ \<Rightarrow> 0)"

definition get_vendor_id :: "mac_device \<Rightarrow> u16" where
  "get_vendor_id dev = word_of_int (get_int_property dev kIOHIDVendorIDKey)"

definition get_product_id :: "mac_device \<Rightarrow> u16" where
  "get_product_id dev = word_of_int (get_int_property dev kIOHIDProductIDKey)"

definition get_location_id :: "mac_device \<Rightarrow> int" where
  "get_location_id dev = get_int_property dev kIOHIDLocationIDKey"

definition get_max_report_length :: "mac_device \<Rightarrow> int" where
  "get_max_report_length dev = get_int_property dev kIOHIDMaxInputReportSizeKey"

text \<open>
  The string functions use the property as a string without asking for its type. The terminating zero is put at the
  number of units converted, which is not the number of characters written.
\<close>

definition get_string_property ::
    "mac_env \<Rightarrow> mac_device \<Rightarrow> mac_key \<Rightarrow> wchar list \<Rightarrow> nat \<Rightarrow> (int \<times> wchar list) option" where
  "get_string_property E dev prop buf len =
     (if len = 0 then Some (0, buf)
      else do {
        buf0 \<leftarrow> wr buf 0 0;
        case mac_property dev prop of
          None \<Rightarrow> Some (-1, buf0)
        | Some (Mac_string str) \<Rightarrow> do {
            let n = len - 1;
            let (chars_copied, w) = me_utf32 E (take (if n < length str then n else length str) str) n;
            buf1 \<leftarrow> wr_block buf0 0 (take n w);
            buf2 \<leftarrow> wr buf1 (if chars_copied = n then n else chars_copied) 0;
            Some (0, buf2) }
        | Some _ \<Rightarrow> None })"

text \<open>To UTF-8 the number of bytes written is used. \<open>cbuf\<close> is only read as a string: the result is its length and its text.\<close>

definition get_string_property_utf8 :: "mac_env \<Rightarrow> mac_device \<Rightarrow> mac_key \<Rightarrow> nat \<Rightarrow> (nat \<times> string) option" where
  "get_string_property_utf8 E dev prop len =
     (if len = 0 then Some (0, [])
      else case mac_property dev prop of
          None \<Rightarrow> Some (0, [])
        | Some (Mac_string str) \<Rightarrow>
            (let t = take (len - 1) (me_utf8 E str (len - 1)) in Some (length t, takeWhile (\<lambda>c. c \<noteq> CHR 0x00) t))
        | Some _ \<Rightarrow> None)"

definition get_serial_number :: "mac_env \<Rightarrow> mac_device \<Rightarrow> wchar list \<Rightarrow> nat \<Rightarrow> (int \<times> wchar list) option" where
  "get_serial_number E dev buf len = get_string_property E dev kIOHIDSerialNumberKey buf len"

definition get_manufacturer_string :: "mac_env \<Rightarrow> mac_device \<Rightarrow> wchar list \<Rightarrow> nat \<Rightarrow> (int \<times> wchar list) option" where
  "get_manufacturer_string E dev buf len = get_string_property E dev kIOHIDManufacturerKey buf len"

definition get_product_string :: "mac_env \<Rightarrow> mac_device \<Rightarrow> wchar list \<Rightarrow> nat \<Rightarrow> (int \<times> wchar list) option" where
  "get_product_string E dev buf len = get_string_property E dev kIOHIDProductKey buf len"

text \<open>\<open>wcslen\<close> would run off an array without a zero.\<close>

definition dup_wcs :: "wchar list \<Rightarrow> wchar list option" where
  "dup_wcs s = (if 0 \<in> set s then Some (takeWhile (\<lambda>c. c \<noteq> 0) s) else None)"

text \<open>\<open>make_path\<close>, into an array of 256 characters; a device without a transport gets the empty path and the result -1.\<close>

definition make_path_mac :: "mac_env \<Rightarrow> mac_device \<Rightarrow> (int \<times> string) option" where
  "make_path_mac E dev = do {
     (res, transport) \<leftarrow> get_string_property_utf8 E dev kIOHIDTransportKey 32;
     if res = 0 then Some (-1, [])
     else do {
       let t = transport @ ''_'' @ zero_pad 4 (hex_digits (unat (get_vendor_id dev))) @ ''_'' @
         zero_pad 4 (hex_digits (unat (get_product_id dev))) @ ''_'' @
         hex_digits (unat (word_of_int (get_location_id dev) :: u32));
       Some (int (length t) + 1, take 255 t) }
   }"

section \<open>Initialisation\<close>

definition init_hid_manager :: "mac_env \<Rightarrow> mst \<Rightarrow> int \<times> mst" where
  "init_hid_manager E s =
     (let ok = me_manager E (mac_trace s); s1 = (note_mac MCreate s)\<lparr>hid_mgr := ok\<rparr> in
      if ok then (0, s1\<lparr>cf_objects := cf_objects s1 + 1\<rparr>) else (-1, s1))"

definition hid_init_mac :: "mac_env \<Rightarrow> mst \<Rightarrow> int \<times> mst" where
  "hid_init_mac E s = (if \<not> hid_mgr s then init_hid_manager E s else (0, s))"

definition hid_exit_mac :: "mst \<Rightarrow> int \<times> mst" where
  "hid_exit_mac s =
     (0, if hid_mgr s then (note_mac MClose_manager s)\<lparr>hid_mgr := False, cf_objects := cf_objects s - 1\<rparr> else s)"

text \<open>\<open>None\<close> here also stands for a loop that does not end.\<close>

partial_function (option) process_pending_events :: "mac_env \<Rightarrow> mst \<Rightarrow> mst option" where
  "process_pending_events E s =
     (let res = me_run E (mac_trace s); s1 = note_mac MRun_loop s in
      if res \<noteq> Run_finished \<and> res \<noteq> Run_timed_out then process_pending_events E s1 else Some s1)"

text \<open>The devices; without any the set is NULL, and \<open>CFSetGetCount\<close> is called with it.\<close>

definition copy_devices :: "mac_env \<Rightarrow> mst \<Rightarrow> (mac_device option list \<times> mst) option" where
  "copy_devices E s = do {
     s1 \<leftarrow> process_pending_events E s;
     devs \<leftarrow> me_devices E (mac_trace s1);
     let s2 = note_mac MDevices s1;
     Some (devs, s2\<lparr>cf_objects := cf_objects s2 + 1\<rparr>)
   }"

section \<open>Enumeration\<close>

definition describe_mac :: "mac_env \<Rightarrow> mac_device \<Rightarrow> mst \<Rightarrow> hid_device_info option" where
  "describe_mac E dev s = do {
     (len, cbuf) \<leftarrow> make_path_mac E dev;
     let buf = take 256 (me_buf E (mac_trace s) @ replicate 256 0);
     (r1, buf1) \<leftarrow> get_serial_number E dev buf 256;
     sn \<leftarrow> dup_wcs buf1;
     (r2, buf2) \<leftarrow> get_manufacturer_string E dev buf1 256;
     man \<leftarrow> dup_wcs buf2;
     (r3, buf3) \<leftarrow> get_product_string E dev buf2 256;
     prod \<leftarrow> dup_wcs buf3;
     Some \<lparr>path = Some cbuf, vendor_id = get_vendor_id dev, product_id = get_product_id dev, serial_number = Some sn,
       release_number = word_of_int (get_int_property dev kIOHIDVersionNumberKey),
       manufacturer_string = Some man, product_string = Some prod,
       usage_page = word_of_int (get_int_property dev kIOHIDPrimaryUsagePageKey),
       usage = word_of_int (get_int_property dev kIOHIDPrimaryUsageKey), interface_number = -1\<rparr>
   }"

fun enum_mac :: "mac_env \<Rightarrow> u16 \<Rightarrow> u16 \<Rightarrow> mac_device option list \<Rightarrow> mst \<Rightarrow> (hid_device_info list \<times> mst) option" where
  "enum_mac E v p [] s = Some ([], s)"
| "enum_mac E v p (None # ds) s = enum_mac E v p ds s"
| "enum_mac E v p (Some dev # ds) s =
     (if id_match v p (get_vendor_id dev) (get_product_id dev) then do {
        d \<leftarrow> describe_mac E dev s;
        (es, s1) \<leftarrow> enum_mac E v p ds (s\<lparr>mac_blocks := mac_blocks s + info_blocks d\<rparr>);
        Some (d # es, s1) }
      else enum_mac E v p ds s)"

definition hid_enumerate_mac :: "mac_env \<Rightarrow> u16 \<Rightarrow> u16 \<Rightarrow> mst \<Rightarrow> (hid_device_info list \<times> mst) option" where
  "hid_enumerate_mac E v p s =
     (case hid_init_mac E s of (r, s0) \<Rightarrow>
        if r < 0 then Some ([], s0)
        else do {
          (devs, s1) \<leftarrow> copy_devices E s0;
          (ds, s2) \<leftarrow> enum_mac E v p devs s1;
          Some (ds, s2\<lparr>cf_objects := cf_objects s2 - 1\<rparr>) })"

fun hid_free_enumeration_mac :: "hid_device_info list \<Rightarrow> mst \<Rightarrow> mst" where
  "hid_free_enumeration_mac [] s = s"
| "hid_free_enumeration_mac (d # ds) s = hid_free_enumeration_mac ds
     (s\<lparr>mac_blocks := mac_blocks s - some_block (path d) - some_block (serial_number d)
        - some_block (manufacturer_string d) - some_block (product_string d) - 1\<rparr>)"

section \<open>Opening\<close>

text \<open>
  A device whose path matched and that could be opened. The read thread has created the source and stored its run loop when
  \<open>hid_open_path\<close> is past the barrier.
\<close>

definition start_mac :: "mac_device \<Rightarrow> mac_dev \<Rightarrow> mac_dev" where
  "start_mac dev d = d\<lparr>mac_handle := Some dev, max_input_report_len := get_max_report_length dev,
     input_report_buf := Some (get_max_report_length dev), run_loop_mode := True, source := True, run_loop := True,
     mac_threads := mac_threads d + 1\<rparr>"

text \<open>The loop over the devices: unlike in \<open>hid_enumerate\<close> an entry that is NULL is not skipped. Only the first match is tried.\<close>

fun open_first :: "mac_env \<Rightarrow> string \<Rightarrow> nat \<Rightarrow> mac_device option list \<Rightarrow> mst \<Rightarrow> (bool \<times> mst) option" where
  "open_first E pa a [] s = Some (False, s)"
| "open_first E pa a (os_dev # ds) s = do {
     dev \<leftarrow> os_dev;
     (len, cbuf) \<leftarrow> make_path_mac E dev;
     if cbuf = pa then
       (let ok = me_open E (mac_trace s) dev; s1 = note_mac (MOpen (mac_id dev)) s in
        if ok then do {
          s2 \<leftarrow> update_mac a (start_mac dev) s1;
          Some (True, s2\<lparr>seized := (seized s2)(mac_id dev := seized s2 (mac_id dev) + 1),
            retained := (retained s2)(mac_id dev := retained s2 (mac_id dev) + 1), cf_objects := cf_objects s2 + 2\<rparr>) }
        else Some (False, s1))
     else open_first E pa a ds s
   }"

definition hid_open_path_mac :: "mac_env \<Rightarrow> string \<Rightarrow> mst \<Rightarrow> (nat option \<times> mst) option" where
  "hid_open_path_mac E pa s =
     (case new_hid_device_mac s of (a, s1) \<Rightarrow>
        (case hid_init_mac E s1 of (r, s2) \<Rightarrow>
           if r < 0 then Some (None, s2)
           else do {
             (devs, s3) \<leftarrow> copy_devices E s2;
             (good, s4) \<leftarrow> open_first E pa a devs s3;
             let s5 = s4\<lparr>cf_objects := cf_objects s4 - 1\<rparr>;
             if good then Some (Some a, s5)
             else do { s6 \<leftarrow> free_hid_device_mac a s5; Some (None, s6) } }))"

definition hid_open_mac :: "mac_env \<Rightarrow> u16 \<Rightarrow> u16 \<Rightarrow> wchar list option \<Rightarrow> mst \<Rightarrow> (nat option \<times> mst) option" where
  "hid_open_mac E v p sn s = do {
     (devs, s1) \<leftarrow> hid_enumerate_mac E v p s;
     path_to_open \<leftarrow> find_path v p sn devs;
     (handle, s2) \<leftarrow> (case path_to_open of
         None \<Rightarrow> Some (None, s1)
       | Some pa \<Rightarrow> hid_open_path_mac E pa s1);
     Some (handle, hid_free_enumeration_mac devs s2)
   }"

section \<open>Reports\<close>

text \<open>\<open>set_report\<close>: report number 0 is not sent.\<close>

definition set_report ::
    "mac_env \<Rightarrow> nat \<Rightarrow> mac_report_type \<Rightarrow> byte list \<Rightarrow> nat \<Rightarrow> mst \<Rightarrow> (int \<times> mst) option" where
  "set_report E a ty data len s = do {
     d \<leftarrow> mac_heap s a;
     if disconnected d then Some (-1, s)
     else do {
       first \<leftarrow> rd data 0;
       dev \<leftarrow> mac_handle d;
       buf \<leftarrow> (if first = 0 then rd_block data 1 (size_dec len) else rd_block data 0 len);
       Some (if me_set E (mac_trace s) dev ty first buf then c_int len else -1, note_mac (MSet (mac_id dev) ty first buf) s) }
   }"

definition hid_write_mac :: "mac_env \<Rightarrow> nat \<Rightarrow> byte list \<Rightarrow> nat \<Rightarrow> mst \<Rightarrow> (int \<times> mst) option" where
  "hid_write_mac E a data len s = set_report E a kIOHIDReportTypeOutput data len s"

definition hid_send_feature_report_mac :: "mac_env \<Rightarrow> nat \<Rightarrow> byte list \<Rightarrow> nat \<Rightarrow> mst \<Rightarrow> (int \<times> mst) option" where
  "hid_send_feature_report_mac E a data len s = set_report E a kIOHIDReportTypeFeature data len s"

definition hid_get_feature_report_mac ::
    "mac_env \<Rightarrow> nat \<Rightarrow> byte list \<Rightarrow> nat \<Rightarrow> mst \<Rightarrow> (int \<times> byte list \<times> mst) option" where
  "hid_get_feature_report_mac E a data len s = do {
     d \<leftarrow> mac_heap s a;
     if disconnected d then Some (-1, data, s)
     else do {
       first \<leftarrow> rd data 0;
       dev \<leftarrow> mac_handle d;
       let s1 = note_mac (MGet (mac_id dev) first len) s;
       case me_get E (mac_trace s) dev first len of
         None \<Rightarrow> Some (-1, data, s1)
       | Some bs \<Rightarrow> do {
           data' \<leftarrow> wr_block data 0 (take len bs);
           Some (c_int (length (take len bs)), data', s1) } }
   }"

section \<open>Input reports\<close>

text \<open>The first report of the queue; with an empty queue a NULL pointer would be followed.\<close>

definition return_data_mac :: "mac_dev \<Rightarrow> byte list \<Rightarrow> nat \<Rightarrow> (int \<times> byte list \<times> mac_dev) option" where
  "return_data_mac d data len =
     (case mac_reports d of
        [] \<Rightarrow> None
      | rpt # rest \<Rightarrow> do {
          let n = (if len < length rpt then len else length rpt);
          data' \<leftarrow> (if 0 < n then wr_block data 0 (take n rpt) else Some data);
          Some (c_int n, data', d\<lparr>mac_reports := rest\<rparr>) })"

text \<open>\<open>hid_report_callback\<close>, under the mutex: \<open>num_queued\<close> counts the nodes behind the first.\<close>

definition hid_report_callback :: "byte list \<Rightarrow> mac_dev \<Rightarrow> mac_dev option" where
  "hid_report_callback rpt d =
     (if mac_reports d = [] then Some (d\<lparr>mac_reports := [rpt]\<rparr>)
      else let num_queued = length (tl (mac_reports d)); d' = d\<lparr>mac_reports := mac_reports d @ [rpt]\<rparr>
           in if 30 < num_queued then do { (n, data, d'') \<leftarrow> return_data_mac d' [] 0; Some d'' } else Some d')"

text \<open>
  \<open>hid_device_removal_callback\<close> and \<open>perform_signal_callback\<close> stop the run loop of the read thread, which must be there.
\<close>

definition hid_device_removal_callback :: "mac_dev \<Rightarrow> mac_dev option" where
  "hid_device_removal_callback d = (if run_loop d then Some (d\<lparr>disconnected := True\<rparr>) else None)"

definition perform_signal_callback :: "mac_dev \<Rightarrow> mac_dev option" where
  "perform_signal_callback d = (if run_loop d then Some d else None)"

text \<open>\<open>hid_read_timeout\<close> up to the point where it may have to wait.\<close>

datatype mac_read = Mac_return int "byte list" mac_dev | Mac_wait | Mac_wait_until "int \<times> int"

definition mac_deadline :: "int \<times> int \<Rightarrow> int \<Rightarrow> int \<times> int" where
  "mac_deadline now milliseconds =
     (let sec = fst now + milliseconds div 1000; nsec = snd now * 1000 + (milliseconds mod 1000) * 1000000
      in if 1000000000 \<le> nsec then (sec + 1, nsec - 1000000000) else (sec, nsec))"

definition mac_read_start :: "mac_dev \<Rightarrow> byte list \<Rightarrow> nat \<Rightarrow> int \<Rightarrow> int \<times> int \<Rightarrow> mac_read option" where
  "mac_read_start d data len milliseconds now =
     (if mac_reports d \<noteq> [] then do { (n, data', d') \<leftarrow> return_data_mac d data len; Some (Mac_return n data' d') }
      else if disconnected d then Some (Mac_return (- 1) data d)
      else if mac_shutdown d then Some (Mac_return (- 1) data d)
      else if milliseconds = - 1 then Some Mac_wait
      else if 0 < milliseconds then Some (Mac_wait_until (mac_deadline now milliseconds))
      else Some (Mac_return 0 data d))"

text \<open>
  One turn of the loops of \<open>cond_wait\<close> and \<open>cond_timedwait\<close>, after the wait has returned \<open>res\<close>: the end of the device is looked at
  before the queue. \<open>None\<close> inside is another turn.
\<close>

datatype wait_result = Wait_ok | Wait_timeout | Wait_failed

definition mac_cond_wait :: "wait_result \<Rightarrow> mac_dev \<Rightarrow> byte list \<Rightarrow> nat \<Rightarrow> mac_read option option" where
  "mac_cond_wait res d data len =
     (if res \<noteq> Wait_ok then Some (Some (Mac_return (- 1) data d))
      else if mac_shutdown d \<or> disconnected d then Some (Some (Mac_return (- 1) data d))
      else if mac_reports d = [] then Some None
      else do { (n, data', d') \<leftarrow> return_data_mac d data len; Some (Some (Mac_return n data' d')) })"

definition mac_cond_timedwait :: "wait_result \<Rightarrow> mac_dev \<Rightarrow> byte list \<Rightarrow> nat \<Rightarrow> mac_read option option" where
  "mac_cond_timedwait res d data len =
     (case res of
        Wait_timeout \<Rightarrow> Some (Some (Mac_return 0 data d))
      | Wait_failed \<Rightarrow> Some (Some (Mac_return (- 1) data d))
      | Wait_ok \<Rightarrow>
          if mac_shutdown d \<or> disconnected d then Some (Some (Mac_return (- 1) data d))
          else if mac_reports d = [] then Some None
          else do { (n, data', d') \<leftarrow> return_data_mac d data len; Some (Some (Mac_return n data' d')) })"

definition mac_read_mode :: "mac_dev \<Rightarrow> int" where
  "mac_read_mode d = (if mac_blocking d then - 1 else 0)"

definition hid_set_nonblocking_mac :: "nat \<Rightarrow> bool \<Rightarrow> mst \<Rightarrow> (int \<times> mst) option" where
  "hid_set_nonblocking_mac a nonblock s = do {
     s1 \<leftarrow> update_mac a (\<lambda>d. d\<lparr>mac_blocking := \<not> nonblock\<rparr>) s;
     Some (0, s1)
   }"

section \<open>Closing\<close>

fun clear_reports_mac :: "nat \<Rightarrow> mac_dev \<Rightarrow> mac_dev option" where
  "clear_reports_mac 0 d = Some d"
| "clear_reports_mac (Suc n) d =
     (if mac_reports d = [] then Some d
      else do { (r, b, d') \<leftarrow> return_data_mac d [] 0; clear_reports_mac n d' })"

text \<open>
  \<open>CFRunLoopSourceSignal\<close> and \<open>CFRunLoopWakeUp\<close> need the source and the run loop of the thread; \<open>pthread_join\<close> waits for the thread.
  A device that is disconnected is not closed. The code reads \<open>disconnected\<close> twice, before the thread is told to end and after it has
  ended. Here both readings give the same: a removal or an end of the run loop that the thread sees in between is a step of the two
  threads (\<open>MacThread\<close>), not of this call.
\<close>

definition hid_close_mac :: "nat option \<Rightarrow> mst \<Rightarrow> mst option" where
  "hid_close_mac dev s =
     (case dev of
        None \<Rightarrow> Some s
      | Some a \<Rightarrow> do {
          d \<leftarrow> mac_heap s a;
          h \<leftarrow> mac_handle d;
          if \<not> source d \<or> \<not> run_loop d \<or> mac_threads d = 0 then None
          else do {
            s1 \<leftarrow> update_mac a (\<lambda>d. d\<lparr>mac_shutdown := True, mac_threads := mac_threads d - 1\<rparr>) (note_mac (MSignal (mac_id h)) s);
            let s2 = (if disconnected d then s1
              else (note_mac (MClose (mac_id h)) s1)\<lparr>seized := (seized s1)(mac_id h := seized s1 (mac_id h) - 1)\<rparr>);
            d2 \<leftarrow> mac_heap s2 a;
            d3 \<leftarrow> clear_reports_mac (length (mac_reports d2)) d2;
            s3 \<leftarrow> update_mac a (\<lambda>_. d3) s2;
            free_hid_device_mac a (s3\<lparr>retained := (retained s3)(mac_id h := retained s3 (mac_id h) - 1)\<rparr>) } })"

section \<open>Strings and errors\<close>

definition mac_string ::
    "(mac_env \<Rightarrow> mac_device \<Rightarrow> wchar list \<Rightarrow> nat \<Rightarrow> (int \<times> wchar list) option) \<Rightarrow>
      mac_env \<Rightarrow> nat \<Rightarrow> wchar list \<Rightarrow> nat \<Rightarrow> mst \<Rightarrow> (int \<times> wchar list) option" where
  "mac_string get E a str maxlen s = do {
     d \<leftarrow> mac_heap s a;
     dev \<leftarrow> mac_handle d;
     get E dev str maxlen
   }"

definition hid_get_manufacturer_string_mac :: "mac_env \<Rightarrow> nat \<Rightarrow> wchar list \<Rightarrow> nat \<Rightarrow> mst \<Rightarrow> (int \<times> wchar list) option" where
  "hid_get_manufacturer_string_mac = mac_string get_manufacturer_string"

definition hid_get_product_string_mac :: "mac_env \<Rightarrow> nat \<Rightarrow> wchar list \<Rightarrow> nat \<Rightarrow> mst \<Rightarrow> (int \<times> wchar list) option" where
  "hid_get_product_string_mac = mac_string get_product_string"

definition hid_get_serial_number_string_mac :: "mac_env \<Rightarrow> nat \<Rightarrow> wchar list \<Rightarrow> nat \<Rightarrow> mst \<Rightarrow> (int \<times> wchar list) option" where
  "hid_get_serial_number_string_mac = mac_string get_serial_number"

definition hid_get_indexed_string_mac :: "nat \<Rightarrow> int \<Rightarrow> wchar list \<Rightarrow> nat \<Rightarrow> int" where
  "hid_get_indexed_string_mac a string_index str maxlen = 0"

definition hid_error_mac :: "nat \<Rightarrow> wchar list option" where
  "hid_error_mac a = None"

definition mac_backend :: "mac_env \<Rightarrow> mst hidapi" where
  "mac_backend E =
     \<lparr>api_enumerate = hid_enumerate_mac E,
      api_free_enumeration = (\<lambda>ds s. Some (hid_free_enumeration_mac ds s)),
      api_open = hid_open_mac E,
      api_send_feature_report = hid_send_feature_report_mac E,
      api_get_feature_report = hid_get_feature_report_mac E,
      api_close = hid_close_mac,
      api_exit = (\<lambda>s. Some (hid_exit_mac s))\<rparr>"

section \<open>The queue of input reports\<close>

lemma hid_report_callback_eq:
  "hid_report_callback rpt d = Some (d\<lparr>mac_reports :=
     (if length (mac_reports d) \<le> 31 then mac_reports d else tl (mac_reports d)) @ [rpt]\<rparr>)"
  by (cases "mac_reports d") (auto simp: hid_report_callback_def return_data_mac_def Let_def)

lemma return_data_mac_queue:
  "return_data_mac d data len = Some (n, data', d') \<Longrightarrow>
    \<exists>r. mac_reports d = r # mac_reports d' \<and> d' = d\<lparr>mac_reports := mac_reports d'\<rparr>"
  by (auto simp: return_data_mac_def Let_def split: list.splits if_splits elim!: bind_SomeE)

interpretation macq: report_queue mac_reports "\<lambda>q. mac_reports_update (\<lambda>_. q)" hid_report_callback return_data_mac
  by unfold_locales (auto simp: hid_report_callback_eq dest: return_data_mac_queue)

end
