(* ===== verification/HidMacContract.thy ===== *)
theory HidMacContract
  imports HidMac
begin

text \<open>
  The Mac OS X implementation keeps its structures, threads, opened devices and Core Foundation objects in step, and meets the
  contract \<open>hid_backend\<close> of the token library.
\<close>

section \<open>The invariant\<close>

text \<open>A device with a read thread has exactly one, with what \<open>hid_close\<close> needs to stop it.\<close>

definition mac_running :: "mac_dev \<Rightarrow> bool" where
  "mac_running d \<longleftrightarrow> mac_handle d \<noteq> None \<and> source d \<and> run_loop d \<and> run_loop_mode d \<and> mac_threads d = 1"

definition mac_inv :: "mst \<Rightarrow> bool" where
  "mac_inv s \<longleftrightarrow> (\<forall>a. mac_next s \<le> a \<longrightarrow> mac_heap s a = None) \<and>
     (\<forall>a d. mac_heap s a = Some d \<longrightarrow> mac_threads d \<noteq> 0 \<longrightarrow> mac_running d)"

definition mac_live :: "mst \<Rightarrow> nat set" where
  "mac_live s = {a. \<exists>d. mac_heap s a = Some d \<and> mac_threads d \<noteq> 0}"

text \<open>The Core Foundation objects besides the manager.\<close>

definition loose_objects :: "mst \<Rightarrow> int" where
  "loose_objects s = cf_objects s - (if hid_mgr s then 1 else 0)"

text \<open>
  What is held: the devices, how often each is open in the system and retained, and the Core Foundation objects. Closing a device
  gives back what it has taken, but a disconnected one is not closed in the system.
\<close>

type_synonym mac_holding = "nat set \<times> (nat \<Rightarrow> int) \<times> (nat \<Rightarrow> int) \<times> int"

definition mac_held :: "mst \<Rightarrow> mac_holding" where
  "mac_held s = (mac_live s, seized s, retained s, loose_objects s)"

definition mac_over :: "mst \<Rightarrow> nat \<Rightarrow> mac_holding \<Rightarrow> bool" where
  "mac_over s a x \<longleftrightarrow> (\<exists>d dev. mac_heap s a = Some d \<and> mac_threads d \<noteq> 0 \<and> mac_handle d = Some dev \<and>
     x = (mac_live s - {a}, if disconnected d then seized s else (seized s)(mac_id dev := seized s (mac_id dev) - 1),
       (retained s)(mac_id dev := retained s (mac_id dev) - 1), loose_objects s - 2))"

text \<open>\<open>calm\<close>: devices and what they hold are as before.\<close>

definition calm :: "mst \<Rightarrow> mst \<Rightarrow> bool" where
  "calm s s' \<longleftrightarrow> mac_heap s' = mac_heap s \<and> mac_next s' = mac_next s \<and> seized s' = seized s \<and> retained s' = retained s \<and>
     loose_objects s' = loose_objects s"

lemma calm_refl [simp, intro]: "calm s s"
  by (simp add: calm_def)

lemma calm_trans [trans]: "calm a b \<Longrightarrow> calm b c \<Longrightarrow> calm a c"
  by (simp add: calm_def)

lemma loose_updates [simp]:
  "loose_objects (note_mac c s) = loose_objects s" "loose_objects (s\<lparr>mac_trace := t\<rparr>) = loose_objects s"
  "loose_objects (s\<lparr>mac_blocks := b\<rparr>) = loose_objects s" "loose_objects (s\<lparr>mac_heap := h\<rparr>) = loose_objects s"
  "loose_objects (s\<lparr>mac_next := n\<rparr>) = loose_objects s" "loose_objects (s\<lparr>seized := x\<rparr>) = loose_objects s"
  "loose_objects (s\<lparr>retained := x\<rparr>) = loose_objects s"
  "loose_objects (s\<lparr>cf_objects := k\<rparr>) = k - (if hid_mgr s then 1 else 0)"
  by (simp_all add: loose_objects_def note_mac_def)

lemma note_mac_fields [simp]:
  "mac_heap (note_mac c s) = mac_heap s" "mac_next (note_mac c s) = mac_next s" "hid_mgr (note_mac c s) = hid_mgr s"
  "seized (note_mac c s) = seized s" "retained (note_mac c s) = retained s" "cf_objects (note_mac c s) = cf_objects s"
  "mac_blocks (note_mac c s) = mac_blocks s" "mac_trace (note_mac c s) = mac_trace s @ [c]"
  by (simp_all add: note_mac_def)

lemma calm_updates [simp]:
  "calm s (s'\<lparr>mac_blocks := b\<rparr>) = calm s s'" "calm s (note_mac c s') = calm s s'"
  by (simp_all add: calm_def)

lemma calm_inv: "calm s s' \<Longrightarrow> mac_inv s' = mac_inv s \<and> mac_live s' = mac_live s"
  by (simp add: calm_def mac_inv_def mac_live_def)

lemma calm_held: "calm s s' \<Longrightarrow> mac_inv s' = mac_inv s \<and> mac_held s' = mac_held s \<and> mac_over s' a x = mac_over s a x"
  using calm_inv [of s s'] by (simp add: calm_def mac_held_def mac_over_def)

section \<open>The manager\<close>

lemma hid_init_mac_frame:
  "hid_init_mac E s = (r, s') \<Longrightarrow> calm s s' \<and> mac_blocks s' = mac_blocks s \<and> (r = 0 \<and> hid_mgr s' \<or> r = -1 \<and> \<not> hid_mgr s')"
  by (auto simp: hid_init_mac_def init_hid_manager_def Let_def calm_def loose_objects_def split: if_splits)

lemma hid_exit_mac_frame: "calm s (snd (hid_exit_mac s)) \<and> mac_blocks (snd (hid_exit_mac s)) = mac_blocks s"
  by (simp add: hid_exit_mac_def calm_def loose_objects_def)

text \<open>Pumping the run loop only adds to the history.\<close>

lemma pending_history:
  assumes "process_pending_events E s = Some s'"
  shows "\<exists>n. s' = s\<lparr>mac_trace := mac_trace s @ replicate n MRun_loop\<rparr>"
  using assms
proof (induction E s s' rule: process_pending_events.raw_induct [rotated, consumes 1, case_names turn])
  case (turn f E s s')
  show ?case
  proof (cases "me_run E (mac_trace s) \<noteq> Run_finished \<and> me_run E (mac_trace s) \<noteq> Run_timed_out")
    case True
    then have "f E (note_mac MRun_loop s) = Some s'" using turn(2) by (simp add: Let_def)
    from turn(1) [OF this] obtain n where "s' = (note_mac MRun_loop s)\<lparr>mac_trace := mac_trace (note_mac MRun_loop s) @ replicate n MRun_loop\<rparr>"
      by blast
    then have "s' = s\<lparr>mac_trace := mac_trace s @ replicate (Suc n) MRun_loop\<rparr>" by (simp add: note_mac_def)
    then show ?thesis by blast
  next
    case False
    then have "s' = s\<lparr>mac_trace := mac_trace s @ replicate 1 MRun_loop\<rparr>" using turn(2) by (auto simp: Let_def note_mac_def split: if_splits)
    then show ?thesis by blast
  qed
qed

text \<open>It returns as soon as the run loop has nothing more to do.\<close>

lemma pending_returns:
  "me_run E (mac_trace s @ replicate n MRun_loop) \<in> {Run_finished, Run_timed_out} \<Longrightarrow> \<exists>s'. process_pending_events E s = Some s'"
proof (induction n arbitrary: s)
  case 0
  then show ?case by (subst process_pending_events.simps) (auto simp: Let_def)
next
  case (Suc n)
  have "me_run E (mac_trace (note_mac MRun_loop s) @ replicate n MRun_loop) \<in> {Run_finished, Run_timed_out}"
    using Suc.prems by (simp add: note_mac_def)
  from Suc.IH [OF this] show ?case by (subst process_pending_events.simps) (auto simp: Let_def)
qed

lemma copy_devices_frame:
  assumes "copy_devices E s = Some (devs, s')"
  shows "calm s (s'\<lparr>cf_objects := cf_objects s' - 1\<rparr>) \<and> mac_blocks s' = mac_blocks s \<and> hid_mgr s' = hid_mgr s"
proof -
  obtain s1 where 1: "process_pending_events E s = Some s1" and
    s': "s' = (note_mac MDevices s1)\<lparr>cf_objects := cf_objects s1 + 1\<rparr>"
    using assms by (auto simp: copy_devices_def elim!: bind_SomeE)
  obtain n where "s1 = s\<lparr>mac_trace := mac_trace s @ replicate n MRun_loop\<rparr>" using pending_history [OF 1] by blast
  then show ?thesis by (simp add: s' calm_def loose_objects_def)
qed

section \<open>Enumeration\<close>

lemma describe_mac_ids: "describe_mac E dev s = Some d \<Longrightarrow> vendor_id d = get_vendor_id dev \<and> product_id d = get_product_id dev"
  by (auto simp: describe_mac_def Let_def elim!: bind_SomeE)

lemma enum_mac_frame:
  "enum_mac E v p devs s = Some (ds, s') \<Longrightarrow>
    s' = s\<lparr>mac_blocks := mac_blocks s + list_blocks ds\<rparr> \<and> list_all (info_matches v p) ds"
proof (induction E v p devs s arbitrary: ds s' rule: enum_mac.induct)
  case (3 E v p dev devs s)
  show ?case
  proof (cases "id_match v p (get_vendor_id dev) (get_product_id dev)")
    case True
    then obtain d es where d: "describe_mac E dev s = Some d" "ds = d # es"
      "enum_mac E v p devs (s\<lparr>mac_blocks := mac_blocks s + info_blocks d\<rparr>) = Some (es, s')"
      using 3(3) by (auto elim!: bind_SomeE)
    from 3(1) [OF True d(1,3)] show ?thesis using describe_mac_ids [OF d(1)] True by (simp add: d(2) info_matches_def)
  next
    case False
    then show ?thesis using 3(2) [OF False] 3(3) by simp
  qed
qed simp_all

lemma enumerate_mac_frame:
  assumes "hid_enumerate_mac E v p s = Some (ds, s')"
  shows "calm s s' \<and> mac_blocks s' = mac_blocks s + list_blocks ds \<and> list_all (info_matches v p) ds \<and> (ds \<noteq> [] \<longrightarrow> hid_mgr s')"
proof -
  obtain r s0 where 0: "hid_init_mac E s = (r, s0)" by force
  note i = hid_init_mac_frame [OF 0]
  show ?thesis
  proof (cases "r < 0")
    case True
    then show ?thesis using assms 0 i by (auto simp: hid_enumerate_mac_def)
  next
    case False
    then obtain devs s1 s2 where 1: "copy_devices E s0 = Some (devs, s1)" "enum_mac E v p devs s1 = Some (ds, s2)"
      "s' = s2\<lparr>cf_objects := cf_objects s2 - 1\<rparr>"
      using assms 0 by (auto simp: hid_enumerate_mac_def elim!: bind_SomeE)
    note c = copy_devices_frame [OF 1(1)] and e = enum_mac_frame [OF 1(2)]
    have "s' = (s1\<lparr>cf_objects := cf_objects s1 - 1\<rparr>)\<lparr>mac_blocks := mac_blocks s1 + list_blocks ds\<rparr>" using 1(3) e by simp
    then have "calm s0 s'" "mac_blocks s' = mac_blocks s0 + list_blocks ds" "hid_mgr s' = hid_mgr s0" using c by simp_all
    then show ?thesis using i e False calm_trans [of s s0 s'] by auto
  qed
qed

lemma free_mac_frame:
  "calm s (hid_free_enumeration_mac ds s) \<and> mac_blocks (hid_free_enumeration_mac ds s) = mac_blocks s - list_blocks ds"
proof (induction ds arbitrary: s)
  case (Cons d ds)
  let ?s = "s\<lparr>mac_blocks := mac_blocks s - some_block (path d) - some_block (serial_number d)
        - some_block (manufacturer_string d) - some_block (product_string d) - 1\<rparr>"
  have "calm s ?s" by simp
  then show ?case using Cons.IH [of ?s] calm_trans [of s ?s] by (simp add: info_blocks_def)
qed simp

section \<open>Opening\<close>

text \<open>\<open>opened_mac a d dev s s'\<close>: the new structure at \<open>a\<close> holds \<open>dev\<close>, which is opened and retained once more.\<close>

definition opened_mac :: "nat \<Rightarrow> mac_dev \<Rightarrow> mac_device \<Rightarrow> mst \<Rightarrow> mst \<Rightarrow> bool" where
  "opened_mac a d dev s s' \<longleftrightarrow> mac_heap s a = None \<and> mac_heap s' = (mac_heap s)(a \<mapsto> d) \<and> a < mac_next s' \<and> mac_next s \<le> mac_next s' \<and>
     mac_running d \<and> \<not> disconnected d \<and> mac_handle d = Some dev \<and>
     seized s' = (seized s)(mac_id dev := seized s (mac_id dev) + 1) \<and>
     retained s' = (retained s)(mac_id dev := retained s (mac_id dev) + 1) \<and> loose_objects s' = loose_objects s + 2"

lemma opened_mac_inv:
  assumes "mac_inv s" "opened_mac a d dev s s'"
  shows "mac_inv s' \<and> a \<notin> mac_live s \<and> mac_live s' = insert a (mac_live s)"
  using assms by (auto simp: mac_inv_def mac_live_def opened_mac_def mac_running_def)

lemma opened_mac_over:
  assumes "mac_inv s" "opened_mac a d dev s s'"
  shows "mac_inv s' \<and> mac_over s' a (mac_held s)"
proof -
  note i = opened_mac_inv [OF assms]
  have "mac_heap s' a = Some d" "mac_threads d \<noteq> 0" "mac_handle d = Some dev" "\<not> disconnected d"
    using assms(2) by (simp_all add: opened_mac_def mac_running_def)
  moreover have "(seized s')(mac_id dev := seized s' (mac_id dev) - 1) = seized s"
    "(retained s')(mac_id dev := retained s' (mac_id dev) - 1) = retained s" "loose_objects s' - 2 = loose_objects s"
    using assms(2) by (simp_all add: opened_mac_def)
  ultimately show ?thesis using i by (auto simp: mac_over_def mac_held_def)
qed

lemma open_first_result:
  assumes "open_first E pa a devs s = Some (good, s')" "mac_heap s a = Some d"
  shows "if good then \<exists>dev tr. s' = s\<lparr>mac_trace := tr, mac_heap := (mac_heap s)(a \<mapsto> start_mac dev d),
      seized := (seized s)(mac_id dev := seized s (mac_id dev) + 1),
      retained := (retained s)(mac_id dev := retained s (mac_id dev) + 1), cf_objects := cf_objects s + 2\<rparr>
    else \<exists>tr. s' = s\<lparr>mac_trace := tr\<rparr>"
  using assms(1)
proof (induction devs)
  case Nil
  then have "s' = s\<lparr>mac_trace := mac_trace s\<rparr>" "\<not> good" by simp_all
  then show ?case by metis
next
  case (Cons os_dev devs)
  then obtain dev len cbuf where p: "os_dev = Some dev" "make_path_mac E dev = Some (len, cbuf)"
    by (auto elim!: bind_SomeE)
  show ?case
  proof (cases "cbuf = pa")
    case True
    show ?thesis
    proof (cases "me_open E (mac_trace s) dev")
      case True
      then have "good" "s' = s\<lparr>mac_trace := mac_trace s @ [MOpen (mac_id dev)], mac_heap := (mac_heap s)(a \<mapsto> start_mac dev d),
        seized := (seized s)(mac_id dev := seized s (mac_id dev) + 1),
        retained := (retained s)(mac_id dev := retained s (mac_id dev) + 1), cf_objects := cf_objects s + 2\<rparr>"
        using Cons.prems p \<open>cbuf = pa\<close> assms(2) by (simp_all add: Let_def update_mac_def note_mac_def)
      then show ?thesis by auto
    next
      case False
      then have "\<not> good" "s' = s\<lparr>mac_trace := mac_trace s @ [MOpen (mac_id dev)]\<rparr>"
        using Cons.prems p \<open>cbuf = pa\<close> by (simp_all add: Let_def note_mac_def)
      then show ?thesis by auto
    qed
  next
    case False
    then show ?thesis using Cons p by simp
  qed
qed

lemma open_path_mac_frame:
  assumes o: "hid_open_path_mac E pa s = Some (r, s')" and inv: "mac_inv s" and m: "hid_mgr s"
  shows "case r of
      None \<Rightarrow> mac_heap s' = mac_heap s \<and> mac_next s \<le> mac_next s' \<and> seized s' = seized s \<and> retained s' = retained s \<and>
        loose_objects s' = loose_objects s \<and> mac_blocks s' = mac_blocks s
    | Some a \<Rightarrow> (\<exists>d dev. opened_mac a d dev s s') \<and> mac_blocks s' = mac_blocks s"
proof -
  let ?a = "mac_next s"
  let ?s1 = "s\<lparr>mac_heap := (mac_heap s)(?a \<mapsto> zero_mac_dev), mac_next := ?a + 1\<rparr>"
  have fresh: "mac_heap s ?a = None" using inv by (simp add: mac_inv_def)
  have i: "hid_init_mac E ?s1 = (0, ?s1)" using m by (simp add: hid_init_mac_def)
  obtain devs s3 good s4 where 3: "copy_devices E ?s1 = Some (devs, s3)" and 4: "open_first E pa ?a devs s3 = Some (good, s4)"
    and r: "(if good then Some (Some ?a, s4\<lparr>cf_objects := cf_objects s4 - 1\<rparr>)
      else do { s6 \<leftarrow> free_hid_device_mac ?a (s4\<lparr>cf_objects := cf_objects s4 - 1\<rparr>); Some (None, s6) }) = Some (r, s')"
    using o i by (auto simp: hid_open_path_mac_def new_hid_device_mac_def Let_def elim!: bind_SomeE)
  note c = copy_devices_frame [OF 3]
  have h3: "mac_heap s3 ?a = Some zero_mac_dev" using c by (simp add: calm_def)
  note f = open_first_result [OF 4 h3]
  show ?thesis
  proof (cases good)
    case True
    then obtain dev tr where s4: "s4 = s3\<lparr>mac_trace := tr, mac_heap := (mac_heap s3)(?a \<mapsto> start_mac dev zero_mac_dev),
        seized := (seized s3)(mac_id dev := seized s3 (mac_id dev) + 1),
        retained := (retained s3)(mac_id dev := retained s3 (mac_id dev) + 1), cf_objects := cf_objects s3 + 2\<rparr>"
      using f by auto
    have "opened_mac ?a (start_mac dev zero_mac_dev) dev s s'"
      using r True c fresh
      by (auto simp: s4 opened_mac_def calm_def loose_objects_def mac_running_def start_mac_def zero_mac_dev_def)
    moreover have "r = Some ?a" "mac_blocks s' = mac_blocks s" using r True c by (auto simp: s4)
    ultimately show ?thesis by auto
  next
    case False
    then obtain tr where s4: "s4 = s3\<lparr>mac_trace := tr\<rparr>" using f by auto
    have "free_hid_device_mac ?a (s4\<lparr>cf_objects := cf_objects s4 - 1\<rparr>) =
        Some (s4\<lparr>cf_objects := cf_objects s4 - 1, mac_heap := (mac_heap s4)(?a := None)\<rparr>)"
      using h3 by (simp add: s4 free_hid_device_mac_def zero_mac_dev_def)
    then show ?thesis
      using r False c fresh by (auto simp: s4 calm_def loose_objects_def fun_upd_idem)
  qed
qed

lemma open_mac_frame:
  assumes o: "hid_open_mac E v p sn s = Some (r, s')" and inv: "mac_inv s"
  shows "case r of
      None \<Rightarrow> mac_inv s' \<and> mac_heap s' = mac_heap s \<and> seized s' = seized s \<and> retained s' = retained s \<and>
        loose_objects s' = loose_objects s \<and> mac_blocks s' = mac_blocks s
    | Some a \<Rightarrow> (\<exists>d dev. opened_mac a d dev s s') \<and> mac_blocks s' = mac_blocks s"
proof -
  obtain ds s1 pa s2 where 1: "hid_enumerate_mac E v p s = Some (ds, s1)" "find_path v p sn ds = Some pa"
    and 2: "(case pa of None \<Rightarrow> Some (None, s1) | Some pa \<Rightarrow> hid_open_path_mac E pa s1) = Some (r, s2)"
    and s': "s' = hid_free_enumeration_mac ds s2"
    using o by (auto simp: hid_open_mac_def elim!: bind_SomeE)
  note e = enumerate_mac_frame [OF 1(1)]
  have i1: "mac_inv s1" using calm_inv e inv by blast
  have f: "calm s2 s'" "mac_blocks s' = mac_blocks s2 - list_blocks ds" using free_mac_frame [of s2 ds] by (simp_all add: s')
  show ?thesis
  proof (cases pa)
    case None
    then have "r = None" "s2 = s1" using 2 by simp_all
    then show ?thesis using e f i1 calm_inv [of s2 s'] by (auto simp: calm_def)
  next
    case (Some q)
    then have "ds \<noteq> []" using 1(2) by auto
    then have m: "hid_mgr s1" using e by blast
    have o2: "hid_open_path_mac E q s1 = Some (r, s2)" using 2 Some by simp
    show ?thesis
    proof (cases r)
      case None
      then have p: "mac_heap s2 = mac_heap s1" "mac_next s1 \<le> mac_next s2" "seized s2 = seized s1" "retained s2 = retained s1"
        "loose_objects s2 = loose_objects s1" "mac_blocks s2 = mac_blocks s1"
        using open_path_mac_frame [OF o2 i1 m] by simp_all
      then have "mac_inv s2" using i1 by (auto simp: mac_inv_def)
      then show ?thesis using None p e f calm_inv [of s2 s'] by (auto simp: calm_def)
    next
      case (Some a)
      then obtain d dev where p: "opened_mac a d dev s1 s2" "mac_blocks s2 = mac_blocks s1"
        using open_path_mac_frame [OF o2 i1 m] by auto
      have "opened_mac a d dev s s'" using p(1) e f by (auto simp: opened_mac_def calm_def)
      then show ?thesis using Some p(2) e f by auto
    qed
  qed
qed

section \<open>Closing\<close>

lemma clear_reports_mac_all: "length (mac_reports d) \<le> n \<Longrightarrow> clear_reports_mac n d = Some (d\<lparr>mac_reports := []\<rparr>)"
proof (induction n arbitrary: d)
  case (Suc n)
  show ?case
  proof (cases "mac_reports d")
    case (Cons r q)
    then have "return_data_mac d [] 0 = Some (c_int 0, [], d\<lparr>mac_reports := q\<rparr>)" by (simp add: return_data_mac_def Let_def)
    then show ?thesis using Suc Cons by simp
  qed (simp add: mac_dev.surjective)
qed simp

text \<open>\<open>closed_mac a d s s'\<close>: the device \<open>d\<close> at \<open>a\<close> is gone with what it held; a disconnected one stays open in the system.\<close>

definition closed_mac :: "nat \<Rightarrow> mac_dev \<Rightarrow> mst \<Rightarrow> mst \<Rightarrow> bool" where
  "closed_mac a d s s' \<longleftrightarrow> mac_heap s' = (mac_heap s)(a := None) \<and> mac_next s' = mac_next s \<and>
     mac_blocks s' = mac_blocks s \<and> loose_objects s' = loose_objects s - 2 \<and>
     (\<exists>dev. mac_handle d = Some dev \<and> retained s' = (retained s)(mac_id dev := retained s (mac_id dev) - 1) \<and>
       seized s' = (if disconnected d then seized s else (seized s)(mac_id dev := seized s (mac_id dev) - 1)))"

lemma close_mac_closed:
  assumes d: "mac_heap s a = Some d" "mac_running d"
  shows "\<exists>s'. hid_close_mac (Some a) s = Some s' \<and> closed_mac a d s s'"
proof -
  obtain dev where dev: "mac_handle d = Some dev" using d(2) by (auto simp: mac_running_def)
  let ?d = "d\<lparr>mac_shutdown := True, mac_threads := 0\<rparr>"
  have c: "clear_reports_mac (length (mac_reports ?d)) ?d = Some (?d\<lparr>mac_reports := []\<rparr>)" by (rule clear_reports_mac_all) simp
  show ?thesis
    using d dev c by (simp add: hid_close_mac_def update_mac_def free_hid_device_mac_def mac_running_def closed_mac_def loose_objects_def Let_def)
qed

lemma closed_mac_inv: "mac_inv s \<Longrightarrow> closed_mac a d s s' \<Longrightarrow> mac_inv s' \<and> mac_live s' = mac_live s - {a}"
  by (auto simp: mac_inv_def mac_live_def closed_mac_def)

lemma closed_mac_held:
  assumes "mac_inv s" "closed_mac a d s s'" "mac_heap s a = Some d" "mac_over s a x"
  shows "mac_inv s' \<and> mac_held s' = x"
proof -
  obtain dev where dev: "mac_handle d = Some dev" "retained s' = (retained s)(mac_id dev := retained s (mac_id dev) - 1)"
    "seized s' = (if disconnected d then seized s else (seized s)(mac_id dev := seized s (mac_id dev) - 1))"
    "loose_objects s' = loose_objects s - 2"
    using assms(2) unfolding closed_mac_def by blast
  have "x = (mac_live s - {a}, if disconnected d then seized s else (seized s)(mac_id dev := seized s (mac_id dev) - 1),
      (retained s)(mac_id dev := retained s (mac_id dev) - 1), loose_objects s - 2)"
    using assms(3,4) dev(1) unfolding mac_over_def by auto
  then show ?thesis using closed_mac_inv [OF assms(1,2)] by (simp only: mac_held_def dev(2-4))
qed

section \<open>Reports\<close>

lemma set_report_calm: "set_report E a ty data len s = Some (r, s') \<Longrightarrow> calm s s' \<and> mac_blocks s' = mac_blocks s"
  by (auto simp: set_report_def split: if_splits elim!: bind_SomeE)

lemma get_mac_frame:
  assumes "hid_get_feature_report_mac E a data len s = Some (r, data', s')"
  shows "calm s s' \<and> mac_blocks s' = mac_blocks s \<and> length data' = length data \<and> drop len data' = drop len data"
proof -
  obtain d where d: "mac_heap s a = Some d" using assms by (auto simp: hid_get_feature_report_mac_def elim: bind_SomeE)
  show ?thesis
  proof (cases "disconnected d")
    case True
    then show ?thesis using assms d by (simp add: hid_get_feature_report_mac_def)
  next
    case False
    then obtain first dev where f: "rd data 0 = Some first" "mac_handle d = Some dev"
      using assms d by (auto simp: hid_get_feature_report_mac_def elim!: bind_SomeE)
    show ?thesis
    proof (cases "me_get E (mac_trace s) dev first len")
      case None
      then show ?thesis using assms d f False by (auto simp: hid_get_feature_report_mac_def)
    next
      case (Some bs)
      then have w: "wr_block data 0 (take len bs) = Some data'" "s' = note_mac (MGet (mac_id dev) first len) s"
        using assms d f False by (auto simp: hid_get_feature_report_mac_def elim!: bind_SomeE)
      then show ?thesis using wr_block_length [OF w(1)] by (auto simp: buf_iffs)
    qed
  qed
qed

section \<open>The contract\<close>

interpretation mac: hid_backend "mac_backend E" mac_inv mac_held mac_over mac_blocks for E
proof
  fix h h' :: mst and v p ds sn d buf buf' n r x
  show "mac_inv h' \<and> mac_held h' = mac_held h \<and> mac_blocks h' = mac_blocks h + list_blocks ds \<and> list_all (info_matches v p) ds"
    if "mac_inv h" "api_enumerate (mac_backend E) v p h = Some (ds, h')"
    using that enumerate_mac_frame [of E v p h ds h'] calm_held [of h h'] by (simp add: mac_backend_def)
  show "mac_inv h' \<and> mac_held h' = mac_held h \<and> mac_blocks h' = mac_blocks h - list_blocks ds"
    if "mac_inv h" "api_free_enumeration (mac_backend E) ds h = Some h'"
    using that free_mac_frame [of h ds] calm_held [of h h'] by (auto simp: mac_backend_def)
  show "mac_inv h' \<and> mac_held h' = mac_held h \<and> mac_blocks h' = mac_blocks h"
    if "mac_inv h" "api_open (mac_backend E) v p sn h = Some (None, h')"
    using that open_mac_frame [of E v p sn h None h'] by (simp add: mac_backend_def mac_live_def mac_held_def)
  show "mac_inv h' \<and> mac_over h' d (mac_held h)"
    if "mac_inv h" "api_open (mac_backend E) v p sn h = Some (Some d, h')"
    using that open_mac_frame [of E v p sn h "Some d" h'] opened_mac_over [of h d _ _ h'] by (auto simp: mac_backend_def)
  show "mac_inv h' \<and> mac_over h' d x"
    if "mac_inv h" "mac_over h d x" "api_send_feature_report (mac_backend E) d buf n h = Some (r, h')"
    using that set_report_calm [of E d kIOHIDReportTypeFeature buf n h r h'] calm_held [of h h']
    by (simp add: mac_backend_def hid_send_feature_report_mac_def)
  show "mac_inv h' \<and> mac_over h' d x \<and> length buf' = length buf \<and> drop n buf' = drop n buf"
    if "mac_inv h" "mac_over h d x" "0 < n" "api_get_feature_report (mac_backend E) d buf n h = Some (r, buf', h')"
    using that get_mac_frame [of E d buf n h r buf' h'] calm_held [of h h'] by (simp add: mac_backend_def)
  show "api_close (mac_backend E) None h = Some h" by (simp add: mac_backend_def hid_close_mac_def)
  show "mac_inv h' \<and> mac_held h' = x"
    if "mac_inv h" "mac_over h d x" "api_close (mac_backend E) (Some d) h = Some h'"
  proof -
    note t = that
    obtain e where e: "mac_heap h d = Some e" "mac_running e" using t(1,2) by (auto simp: mac_over_def mac_inv_def)
    from close_mac_closed [OF e] t(3) have "closed_mac d e h h'" by (auto simp: mac_backend_def)
    then show ?thesis using closed_mac_held [OF t(1) _ e(1) t(2)] by blast
  qed
  show "mac_inv h' \<and> mac_held h' = mac_held h \<and> mac_blocks h' = mac_blocks h"
    if "mac_inv h" "api_exit (mac_backend E) h = Some (r, h')"
    using that hid_exit_mac_frame [of h] calm_held [of h h'] by (auto simp: mac_backend_def)
qed

end
