(* ===== verification/HidMacToken.thy ===== *)
theory HidMacToken
  imports HidMacContract TokenSession
begin

text \<open>
  The token on Mac OS X: what the token library needs of its HIDAPI (\<open>attached\<close>) holds of the Mac OS X implementation as well.
\<close>

section \<open>The bus\<close>

text \<open>\<open>CFStringGetBytes\<close> converts no more units than it may write characters, and writes no more than that.\<close>

definition converter_ok :: "mac_env \<Rightarrow> bool" where
  "converter_ok E \<longleftrightarrow> (\<forall>str n. length str \<le> n \<longrightarrow> fst (me_utf32 E str n) \<le> n \<and> length (snd (me_utf32 E str n)) \<le> n)"

definition text_property :: "mac_device \<Rightarrow> mac_key \<Rightarrow> bool" where
  "text_property dev key \<longleftrightarrow> (case mac_property dev key of None \<Rightarrow> True | Some (Mac_string str) \<Rightarrow> True | _ \<Rightarrow> False)"

text \<open>
  \<open>token_mac E pa hx ser f\<close>: there is a HID manager, its run loop comes to rest, and of the devices it shows one, with the path \<open>pa\<close>, has the
  token's ids; those before it have other paths. Its strings are strings, the serial number is the hex string of \<open>ser\<close>. It can be
  opened, takes feature reports, and a request that follows one is answered as \<open>f\<close> says.
\<close>

definition token_mac ::
    "mac_env \<Rightarrow> string \<Rightarrow> (nat \<Rightarrow> wchar) \<Rightarrow> byte list \<Rightarrow> (byte list \<Rightarrow> byte list) \<Rightarrow> bool" where
  "token_mac E pa hx ser f \<longleftrightarrow> converter_ok E \<and>
     (\<forall>tr. me_manager E tr \<and> (\<exists>n. me_run E (tr @ replicate n MRun_loop) \<in> {Run_finished, Run_timed_out})) \<and>
     (\<exists>before dev after k str. (\<forall>tr. me_devices E tr = Some (map Some (before @ dev # after))) \<and>
       (\<forall>other\<in>set (before @ after). \<not> id_match VID PID (get_vendor_id other) (get_product_id other)) \<and>
       (\<forall>other\<in>set before. \<exists>k pa'. make_path_mac E other = Some (k, pa') \<and> pa' \<noteq> pa) \<and>
       get_vendor_id dev = VID \<and> get_product_id dev = PID \<and> make_path_mac E dev = Some (k, pa) \<and>
       mac_property dev kIOHIDSerialNumberKey = Some (Mac_string str) \<and> length str = 2 * length ser \<and>
       me_utf32 E str 255 = (length str, serial_string hx ser) \<and>
       text_property dev kIOHIDManufacturerKey \<and> text_property dev kIOHIDProductKey \<and>
       (\<forall>tr. me_open E tr dev) \<and> (\<forall>tr r p. me_set E tr dev kIOHIDReportTypeFeature r p) \<and>
       (\<forall>tr r p. me_get E (tr @ [MSet (mac_id dev) kIOHIDReportTypeFeature r p]) dev (of_nat ReportID_GetLarge) 18 =
          Some (token_answer ser f p)))"

lemma token_macI:
  assumes "converter_ok E" "\<And>tr. me_manager E tr" "\<And>tr. me_run E tr = Run_timed_out"
    and "\<And>tr. me_devices E tr = Some (map Some (before @ dev # after))"
    and "\<And>other. other \<in> set (before @ after) \<Longrightarrow> \<not> id_match VID PID (get_vendor_id other) (get_product_id other)"
    and "\<And>other. other \<in> set before \<Longrightarrow> \<exists>k pa'. make_path_mac E other = Some (k, pa') \<and> pa' \<noteq> pa"
    and "get_vendor_id dev = VID" "get_product_id dev = PID" "make_path_mac E dev = Some (k, pa)"
    and "mac_property dev kIOHIDSerialNumberKey = Some (Mac_string str)" "length str = 2 * length ser"
    and "me_utf32 E str 255 = (length str, serial_string hx ser)"
    and "text_property dev kIOHIDManufacturerKey" "text_property dev kIOHIDProductKey"
    and "\<And>tr. me_open E tr dev" "\<And>tr r p. me_set E tr dev kIOHIDReportTypeFeature r p"
    and "\<And>tr r p. me_get E (tr @ [MSet (mac_id dev) kIOHIDReportTypeFeature r p]) dev (of_nat ReportID_GetLarge) 18 =
      Some (token_answer ser f p)"
  shows "token_mac E pa hx ser f"
  unfolding token_mac_def using assms by blast

section \<open>Strings\<close>

lemma string_property_returns:
  assumes "converter_ok E" "text_property dev key" "length buf = 256"
  shows "\<exists>r buf'. get_string_property E dev key buf 256 = Some (r, buf') \<and> length buf' = 256 \<and> 0 \<in> set buf'"
proof -
  have b0: "wr buf 0 0 = Some (buf[0 := 0])" using assms(3) by (simp add: wr_def)
  show ?thesis
  proof (cases "mac_property dev key")
    case None
    have "0 \<in> set (buf[0 := 0])" using assms(3) by (intro set_update_memI) simp
    then show ?thesis using b0 None assms(3) by (simp add: get_string_property_def)
  next
    case (Some x)
    then obtain str where x: "mac_property dev key = Some (Mac_string str)"
      using assms(2) by (auto simp: text_property_def split: mac_prop.splits)
    let ?u = "take (if 255 < length str then 255 else length str) str"
    obtain c w where cw: "me_utf32 E ?u 255 = (c, w)" by force
    have "length ?u \<le> 255" by simp
    then have "c \<le> 255" using assms(1) cw unfolding converter_ok_def by (metis fst_conv)
    have "\<exists>buf1. wr_block (buf[0 := 0]) 0 (take 255 w) = Some buf1 \<and> length buf1 = 256"
      using assms(3) by (auto simp: wr_block_def)
    then obtain buf1 where buf1: "wr_block (buf[0 := 0]) 0 (take 255 w) = Some buf1" "length buf1 = 256" by blast
    have "0 \<in> set (buf1[c := 0])" using \<open>c \<le> 255\<close> buf1(2) by (intro set_update_memI) simp
    then show ?thesis using b0 x cw buf1 \<open>c \<le> 255\<close> by (simp add: get_string_property_def wr_def)
  qed
qed

lemma string_property_known:
  assumes "mac_property dev key = Some (Mac_string str)" "length str \<le> 255" "me_utf32 E str 255 = (length str, w)"
    and "length w = length str" "0 \<notin> set w" "length buf = 256"
  shows "\<exists>r buf'. get_string_property E dev key buf 256 = Some (r, buf') \<and> length buf' = 256 \<and> dup_wcs buf' = Some w"
proof -
  have b0: "wr buf 0 0 = Some (buf[0 := 0])" using assms(6) by (simp add: wr_def)
  let ?b = "w @ drop (length w) (buf[0 := 0])"
  have b1: "wr_block (buf[0 := 0]) 0 w = Some ?b" using assms(2,4,6) by (simp add: wr_block_def)
  have lb: "length ?b = 256" using assms(2,4,6) by simp
  have d: "drop (length w) (buf[0 := 0]) \<noteq> []" using assms(2,4,6) by simp
  then obtain z zs where z: "drop (length w) (buf[0 := 0]) = z # zs" by (cases "drop (length w) (buf[0 := 0])") auto
  have b2: "?b[length str := 0] = w @ 0 # zs" unfolding z assms(4) [symmetric] by (simp add: list_update_append)
  have "get_string_property E dev key buf 256 = Some (0, ?b[length str := 0])"
    using assms b0 b1 lb by (simp add: get_string_property_def wr_def)
  moreover have "\<And>c. c \<in> set w \<Longrightarrow> c \<noteq> 0" using assms(5) by blast
  then have "takeWhile (\<lambda>c. c \<noteq> 0) (w @ 0 # zs) = w" by (simp add: takeWhile_append2)
  then have "dup_wcs (?b[length str := 0]) = Some w" unfolding b2 by (simp add: dup_wcs_def)
  ultimately show ?thesis using lb by auto
qed

lemma dup_wcs_there: "0 \<in> set buf \<Longrightarrow> \<exists>t. dup_wcs buf = Some t"
  by (simp add: dup_wcs_def)

section \<open>Listing\<close>

lemma enum_mac_others:
  "\<forall>other\<in>set ds. \<not> id_match v p (get_vendor_id other) (get_product_id other) \<Longrightarrow>
    enum_mac E v p (map Some ds @ rest) s = enum_mac E v p rest s"
  by (induction ds) auto

lemma copy_devices_token:
  assumes "token_mac E pa hx ser f" "\<And>tr. me_devices E tr = Some devs"
  shows "\<exists>s'. copy_devices E s = Some (devs, s')"
proof -
  obtain n where "me_run E (mac_trace s @ replicate n MRun_loop) \<in> {Run_finished, Run_timed_out}"
    using assms(1) unfolding token_mac_def by blast
  then obtain s1 where "process_pending_events E s = Some s1" using pending_returns by blast
  then show ?thesis using assms(2) by (simp add: copy_devices_def Let_def)
qed

lemma init_mac_ready: "(\<And>tr. me_manager E tr) \<Longrightarrow> \<exists>s0. hid_init_mac E s = (0, s0)"
  by (simp add: hid_init_mac_def init_hid_manager_def)

definition token_record_mac :: "(nat \<Rightarrow> wchar) \<Rightarrow> byte list \<Rightarrow> string \<Rightarrow> hid_device_info \<Rightarrow> bool" where
  "token_record_mac hx ser pa d \<longleftrightarrow> serial_number d = Some (serial_string hx ser) \<and> vendor_id d = VID \<and>
     product_id d = PID \<and> path d = Some pa"

lemma describe_mac_token:
  assumes "converter_ok E" "get_vendor_id dev = VID" "get_product_id dev = PID" "make_path_mac E dev = Some (k, pa)"
    and "mac_property dev kIOHIDSerialNumberKey = Some (Mac_string str)" "length str = 2 * length ser"
    and "me_utf32 E str 255 = (length str, serial_string hx ser)"
    and "text_property dev kIOHIDManufacturerKey" "text_property dev kIOHIDProductKey"
    and h: "0 \<notin> set (serial_string hx ser)" "length (serial_string hx ser) = 2 * length ser" "length ser = 4"
  shows "\<exists>d. describe_mac E dev s = Some d \<and> token_record_mac hx ser pa d"
proof -
  let ?b = "take 256 (me_buf E (mac_trace s) @ replicate 256 0)"
  have lb: "length ?b = 256" and ls: "length str \<le> 255" "length (serial_string hx ser) = length str" using h assms(6) by simp_all
  obtain r1 b1 where 1: "get_string_property E dev kIOHIDSerialNumberKey ?b 256 = Some (r1, b1)" "length b1 = 256"
    "dup_wcs b1 = Some (serial_string hx ser)"
    using string_property_known [OF assms(5) ls(1) assms(7) ls(2) h(1) lb] by blast
  obtain r2 b2 where 2: "get_string_property E dev kIOHIDManufacturerKey b1 256 = Some (r2, b2)" "length b2 = 256" "0 \<in> set b2"
    using string_property_returns [OF assms(1,8) 1(2)] by blast
  obtain r3 b3 where 3: "get_string_property E dev kIOHIDProductKey b2 256 = Some (r3, b3)" "length b3 = 256" "0 \<in> set b3"
    using string_property_returns [OF assms(1,9) 2(2)] by blast
  obtain m pr where mp: "dup_wcs b2 = Some m" "dup_wcs b3 = Some pr" using dup_wcs_there 2(3) 3(3) by blast
  show ?thesis
    using 1 2 3 mp assms(2-4)
    by (simp add: describe_mac_def get_serial_number_def get_manufacturer_string_def get_product_string_def Let_def token_record_mac_def)
qed

lemma mac_enumerate:
  assumes t: "token_mac E pa hx ser f"
    and h: "0 \<notin> set (serial_string hx ser)" "length (serial_string hx ser) = 2 * length ser" "length ser = 4"
  shows "\<exists>d s'. hid_enumerate_mac E VID PID s = Some ([d], s') \<and> token_record_mac hx ser pa d"
proof -
  obtain before dev after k str where
    ds: "\<And>tr. me_devices E tr = Some (map Some (before @ dev # after))" and m: "\<And>tr. me_manager E tr" and c: "converter_ok E"
    and o: "\<forall>other\<in>set before. \<not> id_match VID PID (get_vendor_id other) (get_product_id other)"
      "\<forall>other\<in>set after. \<not> id_match VID PID (get_vendor_id other) (get_product_id other)"
    and d: "get_vendor_id dev = VID" "get_product_id dev = PID" "make_path_mac E dev = Some (k, pa)"
      "mac_property dev kIOHIDSerialNumberKey = Some (Mac_string str)" "length str = 2 * length ser"
      "me_utf32 E str 255 = (length str, serial_string hx ser)"
      "text_property dev kIOHIDManufacturerKey" "text_property dev kIOHIDProductKey"
    using t unfolding token_mac_def by auto
  obtain s0 where s0: "hid_init_mac E s = (0, s0)" using init_mac_ready [OF m] by blast
  obtain s1 where s1: "copy_devices E s0 = Some (map Some (before @ dev # after), s1)" using copy_devices_token [OF t ds] by blast
  obtain i where i: "describe_mac E dev s1 = Some i" "token_record_mac hx ser pa i"
    using describe_mac_token [OF c d h] by blast
  have "enum_mac E VID PID (map Some (before @ dev # after)) s1 =
      Some ([i], s1\<lparr>mac_blocks := mac_blocks s1 + info_blocks i\<rparr>)"
    using enum_mac_others [OF o(1), of E "map Some (dev # after)"] enum_mac_others [OF o(2), of E "[]"] d(1,2) i(1)
    by (simp add: id_match_def)
  then show ?thesis using s0 s1 i(2) by (simp add: hid_enumerate_mac_def)
qed

lemma mac_lists:
  assumes t: "token_mac E pa hx ser f"
    and h: "0 \<notin> set (serial_string hx ser)" "length (serial_string hx ser) = 2 * length ser" "length ser = 4"
  shows "lists (mac_backend E) mac_inv (Some (serial_string hx ser))"
  unfolding lists_def
proof (intro allI impI)
  fix s assume s: "mac_inv s"
  obtain d s1 where e: "hid_enumerate_mac E VID PID s = Some ([d], s1)" "serial_number d = Some (serial_string hx ser)"
    using mac_enumerate [OF t h] unfolding token_record_mac_def by blast
  have "mac_inv (hid_free_enumeration_mac [d] s1)"
    using enumerate_mac_frame [OF e(1)] free_mac_frame [of s1 "[d]"] calm_inv [of s s1] calm_inv [of s1] s by blast
  then show "\<exists>d h1 h2. api_enumerate (mac_backend E) VID PID s = Some ([d], h1) \<and>
     serial_number d = Some (serial_string hx ser) \<and> api_free_enumeration (mac_backend E) [d] h1 = Some h2 \<and> mac_inv h2"
    using e by (simp add: mac_backend_def)
qed

section \<open>Opening\<close>

lemma open_first_others:
  assumes "\<forall>other\<in>set ds. \<exists>k pa'. make_path_mac E other = Some (k, pa') \<and> pa' \<noteq> pa"
  shows "open_first E pa a (map Some ds @ rest) s = open_first E pa a rest s"
  using assms by (induction ds) auto

text \<open>The open device \<open>a\<close> is the device \<open>dev\<close> of the system.\<close>

definition mac_connected :: "mac_device \<Rightarrow> nat \<Rightarrow> mst \<Rightarrow> bool" where
  "mac_connected dev a s \<longleftrightarrow> (\<exists>d. mac_heap s a = Some d \<and> mac_handle d = Some dev \<and> \<not> disconnected d \<and> mac_running d)"

lemma connected_calm: "mac_connected dev a s \<Longrightarrow> calm s s' \<Longrightarrow> mac_connected dev a s'"
  by (simp add: mac_connected_def calm_def)

lemma open_path_mac_returns:
  assumes m: "\<And>tr. me_manager E tr" and t: "token_mac E pa hx ser f"
    and ds: "\<And>tr. me_devices E tr = Some (map Some (before @ dev # after))"
    and o: "\<forall>other\<in>set before. \<exists>k pa'. make_path_mac E other = Some (k, pa') \<and> pa' \<noteq> pa"
    and d: "make_path_mac E dev = Some (k, pa)" "\<And>tr. me_open E tr dev"
  shows "\<exists>a s'. hid_open_path_mac E pa s = Some (Some a, s') \<and> mac_connected dev a s'"
proof -
  obtain a s1 where 1: "new_hid_device_mac s = (a, s1)" "mac_heap s1 a = Some zero_mac_dev" by (simp add: new_hid_device_mac_def)
  obtain s2 where 2: "hid_init_mac E s1 = (0, s2)" using init_mac_ready [OF m] by blast
  obtain s3 where 3: "copy_devices E s2 = Some (map Some (before @ dev # after), s3)" using copy_devices_token [OF t ds] by blast
  have h: "mac_heap s3 a = Some zero_mac_dev"
    using 1(2) hid_init_mac_frame [OF 2] copy_devices_frame [OF 3] by (simp add: calm_def)
  have "\<exists>s4. open_first E pa a (map Some (before @ dev # after)) s3 = Some (True, s4) \<and> mac_heap s4 a = Some (start_mac dev zero_mac_dev)"
    using open_first_others [OF o, of a "map Some (dev # after)" s3] d h by (simp add: update_mac_def Let_def)
  then obtain s4 where 4: "open_first E pa a (map Some (before @ dev # after)) s3 = Some (True, s4)"
    "mac_heap s4 a = Some (start_mac dev zero_mac_dev)" by blast
  then show ?thesis using 1(1) 2 3
    by (simp add: hid_open_path_mac_def mac_connected_def start_mac_def zero_mac_dev_def mac_running_def Let_def)
qed

text \<open>The device of the token, and what it does.\<close>

definition mac_token_device :: "mac_env \<Rightarrow> byte list \<Rightarrow> (byte list \<Rightarrow> byte list) \<Rightarrow> mac_device \<Rightarrow> bool" where
  "mac_token_device E ser f dev \<longleftrightarrow> (\<forall>tr r p. me_set E tr dev kIOHIDReportTypeFeature r p) \<and>
     (\<forall>tr r p. me_get E (tr @ [MSet (mac_id dev) kIOHIDReportTypeFeature r p]) dev (of_nat ReportID_GetLarge) 18 =
        Some (token_answer ser f p))"

lemma mac_open:
  assumes t: "token_mac E pa hx ser f" and inv: "mac_inv s"
    and h: "0 \<notin> set (serial_string hx ser)" "length (serial_string hx ser) = 2 * length ser" "length ser = 4"
  shows "\<exists>a s1 dev. hid_open_mac E VID PID None s = Some (Some a, s1) \<and> mac_inv s1 \<and> mac_connected dev a s1 \<and>
    mac_token_device E ser f dev"
proof -
  obtain before dev after k where
    ds: "\<And>tr. me_devices E tr = Some (map Some (before @ dev # after))" and m: "\<And>tr. me_manager E tr"
    and o: "\<forall>other\<in>set before. \<exists>k pa'. make_path_mac E other = Some (k, pa') \<and> pa' \<noteq> pa"
    and d: "make_path_mac E dev = Some (k, pa)" "\<And>tr. me_open E tr dev" and tok: "mac_token_device E ser f dev"
    using t unfolding token_mac_def mac_token_device_def by auto
  obtain d s1 where e: "hid_enumerate_mac E VID PID s = Some ([d], s1)" "token_record_mac hx ser pa d"
    using mac_enumerate [OF t h] by blast
  have f: "find_path VID PID None [d] = Some (Some pa)" using e(2) by (simp add: token_record_mac_def)
  obtain a s2 where p: "hid_open_path_mac E pa s1 = Some (Some a, s2)" "mac_connected dev a s2"
    using open_path_mac_returns [OF m t ds o d] by blast
  let ?s = "hid_free_enumeration_mac [d] s2"
  have r: "hid_open_mac E VID PID None s = Some (Some a, ?s)" using e(1) f p by (simp add: hid_open_mac_def)
  have "mac_inv ?s" using open_mac_frame [OF r inv] opened_mac_inv [OF inv] by auto
  moreover have "mac_connected dev a ?s" using connected_calm [OF p(2)] free_mac_frame [of s2 "[d]"] by blast
  ultimately show ?thesis using r tok by blast
qed

section \<open>Reports\<close>

lemma close_mac_connected:
  assumes "mac_connected dev a s" "mac_inv s"
  shows "\<exists>s'. hid_close_mac (Some a) s = Some s' \<and> mac_inv (snd (hid_exit_mac s'))"
proof -
  obtain d where d: "mac_heap s a = Some d" "mac_running d" using assms(1) unfolding mac_connected_def by blast
  obtain s' where s': "hid_close_mac (Some a) s = Some s'" "closed_mac a d s s'" using close_mac_closed [OF d] by blast
  have "mac_inv s'" using closed_mac_inv [OF assms(2) s'(2)] by blast
  then have "mac_inv (snd (hid_exit_mac s'))" using hid_exit_mac_frame calm_inv by blast
  then show ?thesis using s'(1) by blast
qed

lemma mac_report:
  assumes t: "mac_token_device E ser f dev" and len: "\<And>p. length (f p) = 17" and inv: "mac_inv s" and c: "mac_connected dev a s"
    and n: "0 < n" "n \<le> 64" "n \<le> length buf" "buf ! 0 \<noteq> 0"
  shows "\<exists>r2 s2. hid_send_feature_report_mac E a buf n s = Some (r2, s2) \<and> 0 \<le> r2 \<and>
    (\<forall>buf'. 18 \<le> length buf' \<longrightarrow> buf' ! 0 = of_nat ReportID_GetLarge \<longrightarrow>
      (\<exists>s3 s4. hid_get_feature_report_mac E a buf' 18 s2 = Some (18, token_answer ser f (take n buf) @ drop 18 buf', s3) \<and>
        hid_close_mac (Some a) s3 = Some s4 \<and> mac_inv (snd (hid_exit_mac s4))))"
proof -
  obtain d where d: "mac_heap s a = Some d" "mac_handle d = Some dev" "\<not> disconnected d"
    using c unfolding mac_connected_def by blast
  let ?s2 = "note_mac (MSet (mac_id dev) kIOHIDReportTypeFeature (buf ! 0) (take n buf)) s"
  have r0: "rd buf 0 = Some (buf ! 0)" and rb: "rd_block buf 0 n = Some (take n buf)"
    using n by (auto simp: rd_def rd_block_def)
  have n31: "c_int n = int n" using n(2) by (simp add: c_int_def signed_take_bit_int_eq_self)
  have 2: "hid_send_feature_report_mac E a buf n s = Some (int n, ?s2)"
    using d n t r0 rb n31 by (simp add: hid_send_feature_report_mac_def set_report_def mac_token_device_def)
  have "\<exists>s3 s4. hid_get_feature_report_mac E a buf' 18 ?s2 = Some (18, token_answer ser f (take n buf) @ drop 18 buf', s3) \<and>
        hid_close_mac (Some a) s3 = Some s4 \<and> mac_inv (snd (hid_exit_mac s4))"
    if b: "18 \<le> length buf'" "buf' ! 0 = of_nat ReportID_GetLarge" for buf'
  proof -
    let ?s3 = "note_mac (MGet (mac_id dev) (buf' ! 0) 18) ?s2"
    have al: "length (token_answer ser f (take n buf)) = 18" using len by (simp add: token_answer_def mask_response_def)
    have g: "me_get E (mac_trace ?s2) dev (buf' ! 0) 18 = Some (token_answer ser f (take n buf))"
      using t b(2) by (simp add: mac_token_device_def)
    have r: "rd buf' 0 = Some (buf' ! 0)" using b(1) by (auto simp add: rd_def)
    have h2: "mac_heap ?s2 a = Some d" using d(1) by simp
    have w: "wr_block buf' 0 (token_answer ser f (take n buf)) = Some (token_answer ser f (take n buf) @ drop 18 buf')"
      using al b(1) by (simp add: wr_block_def)
    have "hid_get_feature_report_mac E a buf' 18 ?s2 = Some (18, token_answer ser f (take n buf) @ drop 18 buf', ?s3)"
      unfolding hid_get_feature_report_mac_def h2 bind.bind_lunit r d(2) Let_def g option.case
      using d(3) al w by (simp add: c_int_def)
    moreover have "calm s ?s3" by simp
    ultimately show ?thesis using close_mac_connected [OF connected_calm [OF c]] calm_inv inv by blast
  qed
  then show ?thesis using 2 by fastforce
qed

lemma mac_serves:
  assumes t: "token_mac E pa hx ser f" and len: "\<And>p. length (f p) = 17"
    and h: "0 \<notin> set (serial_string hx ser)" "length (serial_string hx ser) = 2 * length ser" "length ser = 4"
  shows "serves (mac_backend E) mac_inv (token_answer ser f)"
  unfolding serves_def
proof (intro allI impI)
  fix s assume "mac_inv s"
  then obtain a s1 dev where o: "hid_open_mac E VID PID None s = Some (Some a, s1)" "mac_inv s1" "mac_connected dev a s1"
    and d: "mac_token_device E ser f dev"
    using mac_open [OF t _ h] by blast
  show "\<exists>d h1. api_open (mac_backend E) VID PID None s = Some (Some d, h1) \<and>
       (\<forall>buf n. 0 < n \<longrightarrow> n \<le> 64 \<longrightarrow> n \<le> length buf \<longrightarrow> buf ! 0 \<noteq> 0 \<longrightarrow>
         (\<exists>r2 h2. api_send_feature_report (mac_backend E) d buf n h1 = Some (r2, h2) \<and> 0 \<le> r2 \<and>
           (\<forall>buf'. 18 \<le> length buf' \<longrightarrow> buf' ! 0 = of_nat ReportID_GetLarge \<longrightarrow>
             (\<exists>r3 h3 h4 r5 h5.
               api_get_feature_report (mac_backend E) d buf' 18 h2 =
                 Some (r3, token_answer ser f (take n buf) @ drop 18 buf', h3) \<and>
               0 \<le> r3 \<and> api_close (mac_backend E) (Some d) h3 = Some h4 \<and>
               api_exit (mac_backend E) h4 = Some (r5, h5) \<and> mac_inv h5))))"
  proof (intro exI [of _ a] exI [of _ s1] conjI allI impI)
    show "api_open (mac_backend E) VID PID None s = Some (Some a, s1)"
      using o(1) by (simp add: mac_backend_def)
  next
    fix buf :: "byte list" and n
    assume b: "0 < n" "n \<le> 64" "n \<le> length buf" "buf ! 0 \<noteq> 0"
    obtain r2 s2 where report: "hid_send_feature_report_mac E a buf n s1 = Some (r2, s2)" "0 \<le> r2"
      "\<And>buf'. 18 \<le> length buf' \<Longrightarrow> buf' ! 0 = of_nat ReportID_GetLarge \<Longrightarrow>
        \<exists>s3 s4. hid_get_feature_report_mac E a buf' 18 s2 = Some (18, token_answer ser f (take n buf) @ drop 18 buf', s3) \<and>
          hid_close_mac (Some a) s3 = Some s4 \<and> mac_inv (snd (hid_exit_mac s4))"
      using mac_report [OF d len o(2,3) b] by blast
    have ex: "\<exists>r5 h5. hid_exit_mac s4 = (r5, h5) \<and> mac_inv h5" if "mac_inv (snd (hid_exit_mac s4))" for s4
      using that by (metis prod.collapse)
    show "\<exists>r2 h2. api_send_feature_report (mac_backend E) a buf n s1 = Some (r2, h2) \<and> 0 \<le> r2 \<and>
           (\<forall>buf'. 18 \<le> length buf' \<longrightarrow> buf' ! 0 = of_nat ReportID_GetLarge \<longrightarrow>
             (\<exists>r3 h3 h4 r5 h5.
               api_get_feature_report (mac_backend E) a buf' 18 h2 =
                 Some (r3, token_answer ser f (take n buf) @ drop 18 buf', h3) \<and>
               0 \<le> r3 \<and> api_close (mac_backend E) (Some a) h3 = Some h4 \<and>
               api_exit (mac_backend E) h4 = Some (r5, h5) \<and> mac_inv h5))"
      using report ex by (fastforce simp: mac_backend_def)
  qed
qed

section \<open>The token is attached\<close>

definition plugged_mac ::
    "platform \<Rightarrow> mac_env \<Rightarrow> byte list \<Rightarrow> byte \<times> byte \<Rightarrow> (byte \<Rightarrow> byte list \<Rightarrow> byte + byte list) \<Rightarrow> bool" where
  "plugged_mac P E ser status key \<longleftrightarrow> length ser = 4 \<and> ascii_locale (wc_to_mb P) \<and>
     (\<exists>pa hx. hex_printer hx \<and> token_mac E pa hx ser (token_model status key))"

lemma plugged_mac_attached:
  assumes "plugged_mac P E ser status key"
  shows "attached P (mac_backend E) mac_inv ser status key"
proof -
  obtain pa hx where t: "hex_printer hx" "token_mac E pa hx ser (token_model status key)"
    and p: "length ser = 4" "ascii_locale (wc_to_mb P)"
    using assms unfolding plugged_mac_def by blast
  note h = serial_string_text [OF t(1), of ser]
  have "present P (mac_backend E) mac_inv ser" using mac_lists [OF t(2) h p(1)] t(1) p unfolding present_def by blast
  moreover have "serves (mac_backend E) mac_inv (token_answer ser (token_model status key))"
    by (rule mac_serves [OF t(2) _ h p(1)]) simp
  ultimately show ?thesis by (simp add: attached_def)
qed

end
