(* ===== verification/MacThread.thy ===== *)
theory MacThread
  imports HidMac ReaderThread
begin

text \<open>
  The threads of an open device in \<^verbatim>\<open>token-DLL/hidapi-master/mac/hid.c\<close>: \<open>read_thread\<close> and the application. A step is the code
  between two points where the other thread can get in. What the run loop does is left open: it runs callbacks in any order and
  returns whenever it likes, with any code.
\<close>

section \<open>Barriers\<close>

text \<open>The file's own \<open>pthread_barrier_t\<close>, without its mutex and condition.\<close>

record barrier =
  arrivals :: nat
  trip_count :: nat

definition pthread_barrier_init :: "nat \<Rightarrow> barrier option" where
  "pthread_barrier_init n = (if n = 0 then None else Some \<lparr>arrivals = 0, trip_count = n\<rparr>)"

text \<open>
  \<open>pthread_barrier_wait\<close> up to the wait: whether the caller is the last one, who wakes the others and goes on. The others
  wait in \<open>pthread_cond_wait\<close>, and go on when it returns, without looking at anything.
\<close>

definition pthread_barrier_wait :: "barrier \<Rightarrow> bool \<times> barrier" where
  "pthread_barrier_wait b =
     (let b' = b\<lparr>arrivals := arrivals b + 1\<rparr> in
      if trip_count b' \<le> arrivals b' then (True, b'\<lparr>arrivals := 0\<rparr>) else (False, b'))"

section \<open>State\<close>

text \<open>
  The read thread: in front of the source, of storing the run loop, of the barrier, asleep there, at the head of the loop,
  in \<open>CFRunLoopRunInMode\<close>, at the broadcast, in front of the second barrier, asleep there, and ended.
\<close>

datatype mac_reader_loc =
  T_start | T_store | T_barrier | T_asleep | T_loop | T_run | T_wake | T_end_barrier | T_end_asleep | T_done

text \<open>
  The application: in front of the barrier of \<open>hid_open_path\<close>, asleep there, outside, waiting in \<open>cond_wait\<close>, woken from it, waiting in
  \<open>cond_timedwait\<close>; in \<open>hid_close\<close> in front of the signal, of the second barrier, asleep there, in front of the join and of the
  clean-up, and back from it.
\<close>

datatype mac_client_loc =
  A_barrier | A_asleep | A_idle | A_wait | A_woken | A_timed | A_signal | A_end_barrier | A_end_asleep | A_join | A_free | A_gone

record mac_state =
  mac_shared :: mac_dev
  mac_reader :: mac_reader_loc
  mac_client :: mac_client_loc
  startup :: barrier
  shutdown :: barrier
  registered :: bool
  mac_received :: "byte list list"
  mac_consumed :: "byte list list"

text \<open>\<open>registered\<close>: the callbacks of the device are registered. The last two components are history.\<close>

abbreviation mac_queue :: "mac_state \<Rightarrow> byte list list" where
  "mac_queue s \<equiv> mac_reports (mac_shared s)"

abbreviation ending :: "mac_state \<Rightarrow> bool" where
  "ending s \<equiv> mac_shutdown (mac_shared s) \<or> disconnected (mac_shared s)"

text \<open>The state in which \<open>hid_open_path\<close> has started the thread on the device \<open>dev\<close>.\<close>

definition mac_threads_start :: "mac_device \<Rightarrow> mac_state option" where
  "mac_threads_start dev = do {
     b \<leftarrow> pthread_barrier_init 2;
     Some \<lparr>mac_shared = (start_mac dev zero_mac_dev)\<lparr>source := False, run_loop := False\<rparr>, mac_reader = T_start, mac_client = A_barrier,
       startup = b, shutdown = b, registered = True, mac_received = [], mac_consumed = []\<rparr>
   }"

section \<open>The read thread\<close>

definition wake_mac :: "mac_client_loc \<Rightarrow> mac_client_loc" where
  "wake_mac c = (if c = A_wait then A_woken else c)"

text \<open>\<open>hid_report_callback\<close>: the condition is signalled for every report.\<close>

definition report_arrives :: "byte list \<Rightarrow> mac_state \<Rightarrow> mac_state option" where
  "report_arrives rpt s = do {
     d' \<leftarrow> hid_report_callback rpt (mac_shared s);
     Some (s\<lparr>mac_shared := d', mac_client := wake_mac (mac_client s), mac_received := mac_received s @ [rpt],
       mac_consumed := mac_consumed s @ departed (mac_queue s) [rpt] (mac_reports d')\<rparr>)
   }"

text \<open>The callbacks \<open>CFRunLoopRunInMode\<close> may run.\<close>

inductive callback :: "mac_state \<Rightarrow> mac_state \<Rightarrow> bool" for s where
  cb_report: "registered s \<Longrightarrow> report_arrives rpt s = Some s' \<Longrightarrow> callback s s'"
| cb_removal: "registered s \<Longrightarrow> hid_device_removal_callback (mac_shared s) = Some d' \<Longrightarrow> callback s (s\<lparr>mac_shared := d'\<rparr>)"
| cb_signal: "perform_signal_callback (mac_shared s) = Some d' \<Longrightarrow> callback s (s\<lparr>mac_shared := d'\<rparr>)"

text \<open>What the loop of \<open>read_thread\<close> makes of a result: the new flags and whether it goes on.\<close>

definition after_run :: "run_result \<Rightarrow> mac_dev \<Rightarrow> mac_dev \<times> bool" where
  "after_run code d =
     (if code = Run_finished then (d\<lparr>disconnected := True\<rparr>, False)
      else if code \<noteq> Run_timed_out \<and> code \<noteq> Run_handled_source then (d\<lparr>mac_shutdown := True\<rparr>, False)
      else (d, True))"

text \<open>\<open>spur\<close>: whether \<open>pthread_cond_wait\<close> may return to a barrier without having been woken, as POSIX allows.\<close>

inductive mac_reader_step :: "bool \<Rightarrow> mac_state \<Rightarrow> mac_state \<Rightarrow> bool" for spur s where
  t_source: "mac_reader s = T_start \<Longrightarrow>
    mac_reader_step spur s (s\<lparr>mac_shared := (mac_shared s)\<lparr>source := True\<rparr>, mac_reader := T_store\<rparr>)"
| t_store: "mac_reader s = T_store \<Longrightarrow>
    mac_reader_step spur s (s\<lparr>mac_shared := (mac_shared s)\<lparr>run_loop := True\<rparr>, mac_reader := T_barrier\<rparr>)"
| t_last: "mac_reader s = T_barrier \<Longrightarrow> pthread_barrier_wait (startup s) = (True, b) \<Longrightarrow>
    mac_reader_step spur s (s\<lparr>startup := b, mac_reader := T_loop,
      mac_client := (if mac_client s = A_asleep then A_idle else mac_client s)\<rparr>)"
| t_sleep: "mac_reader s = T_barrier \<Longrightarrow> pthread_barrier_wait (startup s) = (False, b) \<Longrightarrow>
    mac_reader_step spur s (s\<lparr>startup := b, mac_reader := T_asleep\<rparr>)"
| t_spurious: "mac_reader s = T_asleep \<Longrightarrow> spur \<Longrightarrow> mac_reader_step spur s (s\<lparr>mac_reader := T_loop\<rparr>)"
| t_stop: "mac_reader s = T_loop \<Longrightarrow> ending s \<Longrightarrow> mac_reader_step spur s (s\<lparr>mac_reader := T_wake\<rparr>)"
| t_run: "mac_reader s = T_loop \<Longrightarrow> \<not> ending s \<Longrightarrow> mac_reader_step spur s (s\<lparr>mac_reader := T_run\<rparr>)"
| t_callback: "mac_reader s = T_run \<Longrightarrow> callback s s' \<Longrightarrow> mac_reader_step spur s s'"
| t_return: "mac_reader s = T_run \<Longrightarrow> after_run code (mac_shared s) = (d, go) \<Longrightarrow>
    mac_reader_step spur s (s\<lparr>mac_shared := d, mac_reader := (if go then T_loop else T_wake)\<rparr>)"
| t_wake: "mac_reader s = T_wake \<Longrightarrow>
    mac_reader_step spur s (s\<lparr>mac_client := wake_mac (mac_client s), mac_reader := T_end_barrier\<rparr>)"
| t_end_last: "mac_reader s = T_end_barrier \<Longrightarrow> pthread_barrier_wait (shutdown s) = (True, b) \<Longrightarrow>
    mac_reader_step spur s (s\<lparr>shutdown := b, mac_reader := T_done,
      mac_client := (if mac_client s = A_end_asleep then A_join else mac_client s)\<rparr>)"
| t_end_sleep: "mac_reader s = T_end_barrier \<Longrightarrow> pthread_barrier_wait (shutdown s) = (False, b) \<Longrightarrow>
    mac_reader_step spur s (s\<lparr>shutdown := b, mac_reader := T_end_asleep\<rparr>)"
| t_end_spurious: "mac_reader s = T_end_asleep \<Longrightarrow> spur \<Longrightarrow> mac_reader_step spur s (s\<lparr>mac_reader := T_done\<rparr>)"

section \<open>The application\<close>

definition leave_mac :: "mac_dev \<Rightarrow> mac_state \<Rightarrow> mac_state" where
  "leave_mac d' s = s\<lparr>mac_shared := d', mac_client := A_idle,
     mac_consumed := mac_consumed s @ departed (mac_queue s) [] (mac_reports d')\<rparr>"

inductive mac_client_step :: "bool \<Rightarrow> mac_state \<Rightarrow> mac_state \<Rightarrow> bool" for spur s where
  a_last: "mac_client s = A_barrier \<Longrightarrow> pthread_barrier_wait (startup s) = (True, b) \<Longrightarrow>
    mac_client_step spur s (s\<lparr>startup := b, mac_client := A_idle,
      mac_reader := (if mac_reader s = T_asleep then T_loop else mac_reader s)\<rparr>)"
| a_sleep: "mac_client s = A_barrier \<Longrightarrow> pthread_barrier_wait (startup s) = (False, b) \<Longrightarrow>
    mac_client_step spur s (s\<lparr>startup := b, mac_client := A_asleep\<rparr>)"
| a_spurious: "mac_client s = A_asleep \<Longrightarrow> spur \<Longrightarrow> mac_client_step spur s (s\<lparr>mac_client := A_idle\<rparr>)"
| a_read: "mac_client s = A_idle \<Longrightarrow> mac_read_start (mac_shared s) data len ms now = Some (Mac_return n data' d') \<Longrightarrow>
    mac_client_step spur s (leave_mac d' s)"
| a_block: "mac_client s = A_idle \<Longrightarrow> mac_read_start (mac_shared s) data len ms now = Some Mac_wait \<Longrightarrow>
    mac_client_step spur s (s\<lparr>mac_client := A_wait\<rparr>)"
| a_timed: "mac_client s = A_idle \<Longrightarrow> mac_read_start (mac_shared s) data len ms now = Some (Mac_wait_until t) \<Longrightarrow>
    mac_client_step spur s (s\<lparr>mac_client := A_timed\<rparr>)"
| a_wakes: "mac_client s = A_wait \<Longrightarrow> mac_client_step spur s (s\<lparr>mac_client := A_woken\<rparr>)"
| a_again: "mac_client s = A_woken \<Longrightarrow> mac_cond_wait res (mac_shared s) data len = Some None \<Longrightarrow>
    mac_client_step spur s (s\<lparr>mac_client := A_wait\<rparr>)"
| a_woken: "mac_client s = A_woken \<Longrightarrow> mac_cond_wait res (mac_shared s) data len = Some (Some (Mac_return n data' d')) \<Longrightarrow>
    mac_client_step spur s (leave_mac d' s)"
| a_timed_again: "mac_client s = A_timed \<Longrightarrow> mac_cond_timedwait res (mac_shared s) data len = Some None \<Longrightarrow> mac_client_step spur s s"
| a_timed_out: "mac_client s = A_timed \<Longrightarrow> mac_cond_timedwait res (mac_shared s) data len = Some (Some (Mac_return n data' d')) \<Longrightarrow>
    mac_client_step spur s (leave_mac d' s)"
| a_close: "mac_client s = A_idle \<Longrightarrow> disconnected (mac_shared s) \<or> run_loop (mac_shared s) \<Longrightarrow>
    mac_client_step spur s (s\<lparr>mac_shared := (mac_shared s)\<lparr>mac_shutdown := True\<rparr>,
      registered := registered s \<and> disconnected (mac_shared s), mac_client := A_signal\<rparr>)"
| a_signal: "mac_client s = A_signal \<Longrightarrow> source (mac_shared s) \<Longrightarrow> run_loop (mac_shared s) \<Longrightarrow>
    mac_client_step spur s (s\<lparr>mac_client := A_end_barrier\<rparr>)"
| a_end_last: "mac_client s = A_end_barrier \<Longrightarrow> pthread_barrier_wait (shutdown s) = (True, b) \<Longrightarrow>
    mac_client_step spur s (s\<lparr>shutdown := b, mac_client := A_join,
      mac_reader := (if mac_reader s = T_end_asleep then T_done else mac_reader s)\<rparr>)"
| a_end_sleep: "mac_client s = A_end_barrier \<Longrightarrow> pthread_barrier_wait (shutdown s) = (False, b) \<Longrightarrow>
    mac_client_step spur s (s\<lparr>shutdown := b, mac_client := A_end_asleep\<rparr>)"
| a_end_spurious: "mac_client s = A_end_asleep \<Longrightarrow> spur \<Longrightarrow> mac_client_step spur s (s\<lparr>mac_client := A_join\<rparr>)"
| a_join: "mac_client s = A_join \<Longrightarrow> mac_reader s = T_done \<Longrightarrow> mac_client_step spur s (s\<lparr>mac_client := A_free\<rparr>)"
| a_clear: "mac_client s = A_free \<Longrightarrow> mac_queue s \<noteq> [] \<Longrightarrow> return_data_mac (mac_shared s) [] 0 = Some (n, data', d') \<Longrightarrow>
    mac_client_step spur s (s\<lparr>mac_shared := d', mac_consumed := mac_consumed s @ departed (mac_queue s) [] (mac_reports d')\<rparr>)"
| a_free: "mac_client s = A_free \<Longrightarrow> mac_queue s = [] \<Longrightarrow> mac_client_step spur s (s\<lparr>mac_client := A_gone\<rparr>)"

definition mac_step :: "bool \<Rightarrow> mac_state \<Rightarrow> mac_state \<Rightarrow> bool" where
  "mac_step spur s s' \<longleftrightarrow> mac_reader_step spur s s' \<or> mac_client_step spur s s'"

abbreviation mac_steps :: "bool \<Rightarrow> mac_state \<Rightarrow> mac_state \<Rightarrow> bool" where
  "mac_steps spur \<equiv> (mac_step spur)\<^sup>*\<^sup>*"

definition mac_reach :: "bool \<Rightarrow> mac_device \<Rightarrow> mac_state \<Rightarrow> bool" where
  "mac_reach spur dev s \<longleftrightarrow> (\<exists>s0. mac_threads_start dev = Some s0 \<and> mac_steps spur s0 s)"

section \<open>The queue\<close>

definition mac_buffer :: "mac_state \<Rightarrow> buffer" where
  "mac_buffer s = \<lparr>put_in = mac_received s, come_out = mac_consumed s, contents = mac_queue s\<rparr>"

lemma mac_read_taken:
  "mac_read_start d data len ms now = Some (Mac_return n data' d') \<Longrightarrow> macq.taken d d'"
  "mac_cond_wait res d data len = Some (Some (Mac_return n data' d')) \<Longrightarrow> macq.taken d d'"
  "mac_cond_timedwait res d data len = Some (Some (Mac_return n data' d')) \<Longrightarrow> macq.taken d d'"
  unfolding mac_read_start_def mac_cond_wait_def mac_cond_timedwait_def
  by (auto simp: bind_Some_iff macq.get_taken split: if_split_asm wait_result.splits)

lemma mac_buffer_updates [simp]:
  "mac_buffer (s\<lparr>mac_reader := r\<rparr>) = mac_buffer s" "mac_buffer (s\<lparr>mac_client := c\<rparr>) = mac_buffer s"
  "mac_buffer (s\<lparr>startup := b\<rparr>) = mac_buffer s" "mac_buffer (s\<lparr>shutdown := b\<rparr>) = mac_buffer s"
  "mac_buffer (s\<lparr>registered := x\<rparr>) = mac_buffer s"
  by (simp_all add: mac_buffer_def)

lemma mac_buffer_shared: "mac_reports d = mac_queue s \<Longrightarrow> mac_buffer (s\<lparr>mac_shared := d\<rparr>) = mac_buffer s"
  by (simp add: mac_buffer_def)

lemma leave_mac_buffer: "macq.taken (mac_shared s) d' \<Longrightarrow> buffer_step (mac_buffer s) (mac_buffer (leave_mac d' s))"
  using macq.taken_buffer by (simp add: mac_buffer_def leave_mac_def)

lemma leave_mac_client: "leave_mac d' s = (s\<lparr>mac_shared := d', mac_consumed := mac_consumed s @ departed (mac_queue s) [] (mac_reports d')\<rparr>)\<lparr>mac_client := A_idle\<rparr>"
  by (simp add: leave_mac_def)

lemma callback_buffer:
  assumes "callback s t" "buffer_ok (mac_buffer s)"
  shows "buffer_step (mac_buffer s) (mac_buffer t)"
  using assms(1)
proof cases
  case (cb_report rpt)
  then obtain d' where d': "hid_report_callback rpt (mac_shared s) = Some d'"
    "mac_buffer t = \<lparr>put_in = mac_received s @ [rpt], come_out = mac_consumed s @ departed (mac_queue s) [rpt] (mac_reports d'),
       contents = mac_reports d'\<rparr>"
    unfolding report_arrives_def by (elim bind_SomeE) (auto simp: mac_buffer_def)
  have "length (mac_queue s) \<le> 32" using assms(2) by (simp add: buffer_ok_def mac_buffer_def)
  then show ?thesis using macq.put_buffer [OF d'(1)] d'(2) by (simp add: mac_buffer_def)
qed (auto simp: mac_buffer_def hid_device_removal_callback_def perform_signal_callback_def split: if_splits)

lemma after_run_reports: "after_run code d = (d', go) \<Longrightarrow> mac_reports d' = mac_reports d"
  by (auto simp: after_run_def split: if_splits)

lemma mac_step_buffer:
  assumes "mac_step spur s t" "buffer_ok (mac_buffer s)"
  shows "buffer_step (mac_buffer s) (mac_buffer t)"
  using assms(1) unfolding mac_step_def
proof (elim disjE)
  assume "mac_reader_step spur s t"
  then show ?thesis
  proof cases
    case t_callback
    then show ?thesis using callback_buffer assms(2) by blast
  next
    case (t_return code d go)
    then show ?thesis using after_run_reports by (simp add: mac_buffer_shared)
  qed (simp_all add: mac_buffer_shared)
next
  assume "mac_client_step spur s t"
  then show ?thesis
  proof cases
    case (a_clear n data' d')
    then have "buffer_step (mac_buffer s) (mac_buffer (leave_mac d' s))" using leave_mac_buffer macq.get_taken by blast
    then show ?thesis using a_clear(1) by (simp add: leave_mac_client)
  qed (simp_all add: mac_buffer_shared leave_mac_buffer mac_read_taken)
qed

section \<open>The invariant\<close>

text \<open>
  What sleeping means, and what the end of the thread means: an application asleep has nothing to read, and a thread past the
  broadcast has a reason that stays.
\<close>

definition sleep_ok :: "mac_state \<Rightarrow> bool" where
  "sleep_ok s \<longleftrightarrow>
     (mac_reader s \<in> {T_wake, T_end_barrier, T_end_asleep, T_done} \<longrightarrow> ending s) \<and>
     (mac_client s = A_wait \<longrightarrow> mac_queue s = [] \<and> mac_reader s \<notin> {T_end_barrier, T_end_asleep, T_done})"

lemma callback_effect:
  assumes "callback s t"
  shows "mac_reader t = mac_reader s \<and> (ending s \<longrightarrow> ending t) \<and> (mac_client s = A_wait \<longrightarrow> mac_client t = A_woken \<or> mac_client t = A_wait \<and> mac_queue t = mac_queue s) \<and>
    (mac_client s \<noteq> A_wait \<longrightarrow> mac_client t = mac_client s) \<and> startup t = startup s \<and> shutdown t = shutdown s \<and>
    source (mac_shared t) = source (mac_shared s) \<and> run_loop (mac_shared t) = run_loop (mac_shared s) \<and>
    (mac_shutdown (mac_shared s) \<longrightarrow> mac_shutdown (mac_shared t))"
  using assms
  by cases (auto simp: report_arrives_def hid_report_callback_eq wake_mac_def hid_device_removal_callback_def
      perform_signal_callback_def split: if_splits)

lemma taken_mac_flags:
  "macq.taken d d' \<Longrightarrow> mac_shutdown d' = mac_shutdown d \<and> disconnected d' = disconnected d \<and> source d' = source d \<and> run_loop d' = run_loop d"
  by (intro conjI; erule macq.taken_keeps; simp)

lemma mac_waits:
  "mac_read_start d data len ms now = Some Mac_wait \<Longrightarrow> mac_reports d = [] \<and> \<not> disconnected d \<and> \<not> mac_shutdown d"
  "mac_cond_wait res d data len = Some None \<Longrightarrow> mac_reports d = [] \<and> \<not> disconnected d \<and> \<not> mac_shutdown d"
  by (auto simp: mac_read_start_def mac_cond_wait_def bind_Some_iff split: if_splits)

lemma sleep_ok_step:
  assumes "mac_step spur s t" "sleep_ok s"
  shows "sleep_ok t"
  using assms(1) unfolding mac_step_def
proof (elim disjE)
  assume "mac_reader_step spur s t"
  then show ?thesis
  proof cases
    case t_callback
    then show ?thesis using callback_effect [OF t_callback(2)] assms(2) by (auto simp: sleep_ok_def)
  next
    case (t_return code d go)
    then show ?thesis using assms(2) by (auto simp: sleep_ok_def after_run_def split: if_splits)
  qed (use assms(2) in \<open>auto simp: sleep_ok_def wake_mac_def\<close>)
next
  assume "mac_client_step spur s t"
  then show ?thesis
  proof cases
    case (a_block data len ms now)
    then show ?thesis using assms(2) mac_waits(1) [OF a_block(3)] by (auto simp: sleep_ok_def)
  next
    case (a_again res data len)
    then show ?thesis using assms(2) mac_waits(2) [OF a_again(3)] by (auto simp: sleep_ok_def)
  next
    case (a_read data len ms now n data' d')
    then show ?thesis using assms(2) taken_mac_flags [OF mac_read_taken(1)] by (auto simp: sleep_ok_def leave_mac_def)
  next
    case (a_woken res data len n data' d')
    then show ?thesis using assms(2) taken_mac_flags [OF mac_read_taken(2)] by (auto simp: sleep_ok_def leave_mac_def)
  next
    case (a_timed_out res data len n data' d')
    then show ?thesis using assms(2) taken_mac_flags [OF mac_read_taken(3)] by (auto simp: sleep_ok_def leave_mac_def)
  next
    case (a_clear n data' d')
    then show ?thesis using assms(2) taken_mac_flags [OF macq.get_taken] by (auto simp: sleep_ok_def)
  qed (use assms(2) in \<open>auto simp: sleep_ok_def\<close>)
qed

lemma mac_start_ok: "mac_threads_start dev = Some s \<Longrightarrow> sleep_ok s \<and> buffer_ok (mac_buffer s)"
  by (auto simp: mac_threads_start_def pthread_barrier_init_def buffer_ok_def mac_buffer_def sleep_ok_def start_mac_def zero_mac_dev_def)

interpretation mac_threads:
    buffered_threads "\<lambda>s. \<exists>dev. mac_threads_start dev = Some s" "mac_step spur" mac_buffer sleep_ok for spur
  by unfold_locales (use mac_start_ok sleep_ok_step mac_step_buffer in blast)+

lemma mac_reach_ok: "mac_reach spur dev s \<Longrightarrow> sleep_ok s"
  using mac_threads.reach_ok unfolding mac_reach_def by blast

lemma mac_reach_buffer: "mac_reach spur dev s \<Longrightarrow> buffer_ok (mac_buffer s)"
  using mac_threads.reach_ok unfolding mac_reach_def by blast

section \<open>The barriers\<close>

text \<open>
  Without spurious wake-ups a barrier of two counts whether one is asleep at it, both pass together, and what the other has done
  before is then done.
\<close>

definition barrier_of :: "bool \<Rightarrow> barrier" where
  "barrier_of one = \<lparr>arrivals = (if one then 1 else 0), trip_count = 2\<rparr>"

definition barriers_ok :: "mac_state \<Rightarrow> bool" where
  "barriers_ok s \<longleftrightarrow>
     startup s = barrier_of (mac_reader s = T_asleep \<or> mac_client s = A_asleep) \<and>
     shutdown s = barrier_of (mac_reader s = T_end_asleep \<or> mac_client s = A_end_asleep) \<and>
     (mac_reader s \<in> {T_start, T_store, T_barrier, T_asleep} \<longleftrightarrow> mac_client s \<in> {A_barrier, A_asleep}) \<and>
     \<not> (mac_reader s = T_asleep \<and> mac_client s = A_asleep) \<and>
     (mac_reader s = T_done \<longleftrightarrow> mac_client s \<in> {A_join, A_free, A_gone}) \<and>
     \<not> (mac_reader s = T_end_asleep \<and> mac_client s = A_end_asleep) \<and>
     (mac_reader s \<noteq> T_start \<longrightarrow> source (mac_shared s)) \<and>
     (mac_reader s \<notin> {T_start, T_store} \<longrightarrow> run_loop (mac_shared s)) \<and>
     (mac_client s \<in> {A_signal, A_end_barrier, A_end_asleep, A_join, A_free, A_gone} \<longrightarrow> mac_shutdown (mac_shared s))"

lemma barrier_wait_of [simp]:
  "pthread_barrier_wait (barrier_of one) = (if one then (True, barrier_of False) else (False, barrier_of True))"
  by (simp add: pthread_barrier_wait_def barrier_of_def)

lemma barriers_ok_step:
  assumes "mac_step False s t" "barriers_ok s"
  shows "barriers_ok t"
  using assms(1) unfolding mac_step_def
proof (elim disjE)
  assume "mac_reader_step False s t"
  then show ?thesis
  proof cases
    case t_callback
    then show ?thesis using callback_effect [OF t_callback(2)] assms(2)
      by (cases "mac_client s") (auto simp: barriers_ok_def)
  next
    case (t_return code d go)
    then show ?thesis using assms(2) by (auto simp: barriers_ok_def after_run_def split: if_splits)
  qed (cases "mac_client s"; use assms(2) in \<open>auto simp: barriers_ok_def wake_mac_def\<close>)+
next
  assume "mac_client_step False s t"
  then show ?thesis
  proof cases
    case (a_read data len ms now n data' d')
    then show ?thesis using assms(2) taken_mac_flags [OF mac_read_taken(1)] by (auto simp: barriers_ok_def leave_mac_def)
  next
    case (a_woken res data len n data' d')
    then show ?thesis using assms(2) taken_mac_flags [OF mac_read_taken(2)] by (auto simp: barriers_ok_def leave_mac_def)
  next
    case (a_timed_out res data len n data' d')
    then show ?thesis using assms(2) taken_mac_flags [OF mac_read_taken(3)] by (auto simp: barriers_ok_def leave_mac_def)
  next
    case (a_clear n data' d')
    then show ?thesis using assms(2) taken_mac_flags [OF macq.get_taken] by (auto simp: barriers_ok_def)
  qed (cases "mac_reader s"; use assms(2) in \<open>auto simp: barriers_ok_def\<close>)+
qed

lemma mac_reach_barriers:
  assumes "mac_reach False dev s"
  shows "barriers_ok s"
proof -
  obtain s0 where s0: "mac_threads_start dev = Some s0" "mac_steps False s0 s" using assms unfolding mac_reach_def by blast
  have 0: "barriers_ok s0"
    using s0(1) by (auto simp: mac_threads_start_def pthread_barrier_init_def barriers_ok_def barrier_of_def start_mac_def zero_mac_dev_def)
  from s0(2) show ?thesis by (rule run_invariant) (use 0 barriers_ok_step in blast)+
qed

section \<open>Runs\<close>

lemma mac_reach_step: "mac_reach spur dev s \<Longrightarrow> mac_step spur s t \<Longrightarrow> mac_reach spur dev t"
  unfolding mac_reach_def by (blast intro: rtranclp.rtrancl_into_rtrancl)

lemma mac_reach_reader: "mac_reach spur dev s \<Longrightarrow> mac_reader_step spur s t \<Longrightarrow> mac_reach spur dev t"
  using mac_reach_step unfolding mac_step_def by blast

lemma mac_reach_client: "mac_reach spur dev s \<Longrightarrow> mac_client_step spur s t \<Longrightarrow> mac_reach spur dev t"
  using mac_reach_step unfolding mac_step_def by blast

text \<open>A state in which no report has come in yet and nobody has woken by himself.\<close>

definition mac_quiet :: "mac_device \<Rightarrow> bool \<Rightarrow> mac_reader_loc \<Rightarrow> mac_client_loc \<Rightarrow> mac_state" where
  "mac_quiet dev stop r c =
    \<lparr>mac_shared = (start_mac dev zero_mac_dev)\<lparr>source := r \<noteq> T_start, run_loop := r \<noteq> T_start \<and> r \<noteq> T_store, mac_shutdown := stop\<rparr>,
     mac_reader = r, mac_client = c, startup = barrier_of (r = T_asleep \<or> c = A_asleep),
     shutdown = barrier_of (r = T_end_asleep \<or> c = A_end_asleep), registered = (\<not> stop), mac_received = [], mac_consumed = []\<rparr>"

lemma mac_quiet_start: "mac_reach spur dev (mac_quiet dev False T_start A_barrier)"
  unfolding mac_reach_def
  by (intro exI [of _ "mac_quiet dev False T_start A_barrier"])
    (simp add: mac_threads_start_def pthread_barrier_init_def mac_quiet_def barrier_of_def start_mac_def zero_mac_dev_def)

lemma mac_quiet_up: "mac_reach spur dev (mac_quiet dev False T_asleep A_barrier)"
proof -
  have "mac_reader_step spur (mac_quiet dev False T_start A_barrier) (mac_quiet dev False T_store A_barrier)"
    using t_source [of "mac_quiet dev False T_start A_barrier"] by (simp add: mac_quiet_def start_mac_def zero_mac_dev_def)
  note 1 = mac_reach_reader [OF mac_quiet_start this]
  have "mac_reader_step spur (mac_quiet dev False T_store A_barrier) (mac_quiet dev False T_barrier A_barrier)"
    using t_store [of "mac_quiet dev False T_store A_barrier"] by (simp add: mac_quiet_def start_mac_def zero_mac_dev_def)
  note 2 = mac_reach_reader [OF 1 this]
  have "mac_reader_step spur (mac_quiet dev False T_barrier A_barrier) (mac_quiet dev False T_asleep A_barrier)"
    using t_sleep [of "mac_quiet dev False T_barrier A_barrier"] by (simp add: mac_quiet_def)
  then show ?thesis by (rule mac_reach_reader [OF 2])
qed

lemma mac_quiet_open: "mac_reach spur dev (mac_quiet dev False T_loop A_idle)"
proof -
  have "mac_client_step spur (mac_quiet dev False T_asleep A_barrier) (mac_quiet dev False T_loop A_idle)"
    using a_last [of "mac_quiet dev False T_asleep A_barrier"] by (simp add: mac_quiet_def)
  then show ?thesis by (rule mac_reach_client [OF mac_quiet_up])
qed

lemma mac_quiet_waiting: "mac_reach spur dev (mac_quiet dev False T_loop A_wait)"
proof -
  have "mac_client_step spur (mac_quiet dev False T_loop A_idle) (mac_quiet dev False T_loop A_wait)"
    using a_block [of "mac_quiet dev False T_loop A_idle" "[]" 0 "- 1" "(0, 0)"]
    by (simp add: mac_quiet_def mac_read_start_def start_mac_def zero_mac_dev_def)
  then show ?thesis by (rule mac_reach_client [OF mac_quiet_open])
qed

lemma mac_quiet_closing: "mac_reach spur dev (mac_quiet dev True T_loop A_signal)"
proof -
  have "mac_client_step spur (mac_quiet dev False T_loop A_idle) (mac_quiet dev True T_loop A_signal)"
    using a_close [of "mac_quiet dev False T_loop A_idle"] by (simp add: mac_quiet_def start_mac_def zero_mac_dev_def)
  then show ?thesis by (rule mac_reach_client [OF mac_quiet_open])
qed

section \<open>Closing comes to its end\<close>

text \<open>
  How far \<open>hid_close\<close> is from its return: the way the read thread has to its end, that of the application, and the reports it will
  have to free.
\<close>

fun mac_reader_rank :: "mac_reader_loc \<Rightarrow> nat" where
  "mac_reader_rank T_run = 5"
| "mac_reader_rank T_wake = 3"
| "mac_reader_rank T_end_barrier = 2"
| "mac_reader_rank T_end_asleep = 1"
| "mac_reader_rank T_done = 0"
| "mac_reader_rank _ = 4"

fun close_rank :: "mac_client_loc \<Rightarrow> nat" where
  "close_rank A_end_barrier = 4"
| "close_rank A_end_asleep = 3"
| "close_rank A_join = 2"
| "close_rank A_free = 1"
| "close_rank A_gone = 0"
| "close_rank _ = 5"

definition in_close :: "mac_client_loc \<Rightarrow> bool" where
  "in_close c \<longleftrightarrow> c \<in> {A_signal, A_end_barrier, A_end_asleep, A_join, A_free}"

definition close_measure :: "mac_state \<Rightarrow> nat" where
  "close_measure s = mac_reader_rank (mac_reader s) + close_rank (mac_client s) +
     (if mac_client s \<in> {A_free, A_gone} then length (mac_queue s) else 32)"

text \<open>Every step in \<open>hid_close\<close> lowers the distance, but for a callback the run loop may still run.\<close>

lemma callback_closing:
  assumes "callback s t" "in_close (mac_client s)" "mac_client s \<noteq> A_free"
  shows "mac_client t = mac_client s \<and> close_measure t = close_measure s"
proof -
  have "mac_client s \<noteq> A_wait" "mac_client s \<noteq> A_gone" using assms(2) by (auto simp: in_close_def)
  then have "mac_client t = mac_client s" "mac_reader t = mac_reader s" using callback_effect [OF assms(1)] by blast+
  then show ?thesis using assms(3) \<open>mac_client s \<noteq> A_gone\<close> by (simp add: close_measure_def)
qed

lemma close_reader_step:
  assumes r: "mac_reader_step False s t" and c: "in_close (mac_client s)" and ok: "barriers_ok s"
  shows "in_close (mac_client t) \<and>
    (close_measure t < close_measure s \<or> callback s t \<and> mac_reader s = T_run \<and> close_measure t = close_measure s)"
  using r
proof cases
  case t_callback
  then have "mac_client s \<noteq> A_free" using ok by (auto simp: barriers_ok_def)
  then show ?thesis using callback_closing [OF t_callback(2) c] t_callback c by simp
next
  case (t_return code d go)
  have e: "ending s" using c ok by (auto simp: in_close_def barriers_ok_def)
  have "mac_client s \<notin> {A_free, A_gone}" using t_return(2) ok by (auto simp: barriers_ok_def)
  then show ?thesis using t_return c e by (cases go) (auto simp: close_measure_def)
next
  case t_run
  then show ?thesis using c ok by (auto simp: in_close_def barriers_ok_def)
qed (cases "mac_client s"; use c ok in \<open>simp add: in_close_def barriers_ok_def close_measure_def wake_mac_def\<close>)+

lemma close_client_step:
  assumes "mac_client_step False s t" "in_close (mac_client s)" "barriers_ok s" "length (mac_queue s) \<le> 32"
  shows "(in_close (mac_client t) \<or> mac_client t = A_gone) \<and> close_measure t < close_measure s"
  using assms(1)
proof cases
  case (a_clear n data' d')
  then have "length (mac_reports d') < length (mac_queue s)" using return_data_mac_queue [OF a_clear(4)] by auto
  then show ?thesis using a_clear by (simp add: in_close_def close_measure_def)
qed (use assms(2-4) in \<open>auto simp: in_close_def barriers_ok_def close_measure_def\<close>)

text \<open>One of the two threads always has a step that brings the end closer.\<close>

lemma asleep_reader_moves:
  assumes "barriers_ok s" "mac_client s = A_end_asleep"
  shows "\<exists>t. mac_reader_step False s t \<and> mac_reader t \<noteq> T_run"
proof (cases "mac_reader s")
  case T_loop
  then have "mac_reader_step False s (s\<lparr>mac_reader := T_wake\<rparr>)" using assms by (intro t_stop) (auto simp: barriers_ok_def)
  then show ?thesis by (intro exI [of _ "s\<lparr>mac_reader := T_wake\<rparr>"]) simp
next
  case T_run
  then show ?thesis using t_return [OF T_run, of Run_stopped _ False] by (force simp: after_run_def)
next
  case T_wake
  then show ?thesis using t_wake [OF T_wake] by force
next
  case T_end_barrier
  then show ?thesis using t_end_last [OF T_end_barrier, of "barrier_of False" False] assms by (force simp: barriers_ok_def)
qed (use assms in \<open>simp_all add: barriers_ok_def\<close>)

lemma closing_client_moves:
  assumes ok: "barriers_ok s" and c: "in_close (mac_client s)" "mac_client s \<noteq> A_end_asleep"
  shows "\<exists>t. mac_client_step False s t"
proof -
  consider "mac_client s = A_signal" | "mac_client s = A_end_barrier" | "mac_client s = A_join" | "mac_client s = A_free"
    using c unfolding in_close_def by blast
  then show ?thesis
  proof cases
    case 1
    then have "source (mac_shared s)" "run_loop (mac_shared s)" using ok by (auto simp: barriers_ok_def)
    then show ?thesis using a_signal [OF 1] by blast
  next
    case 2
    then show ?thesis by (cases "pthread_barrier_wait (shutdown s)") (metis (full_types) a_end_last a_end_sleep)
  next
    case 3
    then show ?thesis using a_join [OF 3] ok by (auto simp: barriers_ok_def)
  next
    case 4
    show ?thesis
    proof (cases "mac_queue s")
      case (Cons r q)
      then have "return_data_mac (mac_shared s) [] 0 = Some (c_int 0, [], (mac_shared s)\<lparr>mac_reports := q\<rparr>)"
        by (simp add: return_data_mac_def Let_def)
      from a_clear [OF 4 _ this] Cons show ?thesis by auto
    qed (use a_free [OF 4] in blast)
  qed
qed

lemma close_step:
  assumes "mac_reach False dev s" "in_close (mac_client s)" "mac_step False s t"
  shows "(in_close (mac_client t) \<or> mac_client t = A_gone) \<and>
    (close_measure t < close_measure s \<or> callback s t \<and> mac_reader s = T_run \<and> close_measure t = close_measure s)"
proof -
  have "length (mac_queue s) \<le> 32" using mac_reach_buffer [OF assms(1)] by (simp add: buffer_ok_def mac_buffer_def)
  then show ?thesis
    using assms(3) close_reader_step [OF _ assms(2) mac_reach_barriers [OF assms(1)]]
      close_client_step [OF _ assms(2) mac_reach_barriers [OF assms(1)]]
    unfolding mac_step_def by blast
qed

lemma close_moves:
  assumes "mac_reach False dev s" "in_close (mac_client s)"
  shows "\<exists>t. mac_step False s t \<and> close_measure t < close_measure s"
proof (cases "mac_client s = A_end_asleep")
  case True
  then obtain t where t: "mac_reader_step False s t" "mac_reader t \<noteq> T_run"
    using asleep_reader_moves [OF mac_reach_barriers [OF assms(1)]] by blast
  have "mac_step False s t" using t(1) by (simp add: mac_step_def)
  then show ?thesis using close_step [OF assms] callback_effect t(2) by metis
next
  case False
  then obtain t where t: "mac_client_step False s t"
    using closing_client_moves [OF mac_reach_barriers [OF assms(1)] assms(2)] by blast
  have "length (mac_queue s) \<le> 32" using mac_reach_buffer [OF assms(1)] by (simp add: buffer_ok_def mac_buffer_def)
  then show ?thesis using close_client_step [OF t assms(2) mac_reach_barriers [OF assms(1)]] t by (auto simp: mac_step_def)
qed

section \<open>Properties of the threads\<close>

text \<open>
  C20. The threads on Mac OS X implement the same bounded buffer as those over libusb, spurious wake-ups or not.
\<close>

theorem mac_threads_refine_buffer:
  assumes "mac_reach spur dev s" "mac_step spur s t"
  shows "buffer_step (mac_buffer s) (mac_buffer t) \<and> length (mac_queue t) \<le> 32"
  using mac_step_buffer [OF assms(2) mac_reach_buffer [OF assms(1)]] mac_reach_buffer [OF mac_reach_step [OF assms]]
  by (simp add: buffer_ok_def mac_buffer_def)

definition example_mac_device :: mac_device where
  "example_mac_device = \<lparr>mac_id = 0, mac_property = Map.empty\<rparr>"

theorem mac_threads_refine_buffer_witness:
  "\<exists>t. buffer_step \<lparr>put_in = [], come_out = [], contents = []\<rparr> (mac_buffer t) \<and> mac_queue t = [[7]]"
proof -
  let ?s = "mac_quiet example_mac_device False T_run A_idle"
  have "mac_reader_step True (mac_quiet example_mac_device False T_loop A_idle) ?s"
    using t_run [of "mac_quiet example_mac_device False T_loop A_idle"] by (simp add: mac_quiet_def start_mac_def zero_mac_dev_def)
  note 1 = mac_reach_reader [OF mac_quiet_open this]
  obtain t where t: "report_arrives [7] ?s = Some t" "mac_queue t = [[7]]"
    by (simp add: report_arrives_def hid_report_callback_def mac_quiet_def start_mac_def zero_mac_dev_def)
  have "callback ?s t" by (rule cb_report [OF _ t(1)]) (simp add: mac_quiet_def)
  then have "mac_step True ?s t" using t_callback [of ?s t True] by (simp add: mac_step_def mac_quiet_def)
  from mac_threads_refine_buffer [OF 1 this] t(2) show ?thesis
    by (intro exI [of _ t]) (simp add: mac_buffer_def mac_quiet_def start_mac_def zero_mac_dev_def)
qed

text \<open>
  An application asleep in a blocking \<open>hid_read\<close> on Mac OS X has nothing to read and a read thread that has not
  made its last broadcast; the thread only gets there with a flag set that stays.
\<close>

theorem mac_sleeper_is_woken:
  assumes "mac_reach spur dev s"
  shows "(mac_client s = A_wait \<longrightarrow> mac_queue s = [] \<and> mac_reader s \<notin> {T_end_barrier, T_end_asleep, T_done}) \<and>
    (mac_reader s \<in> {T_wake, T_end_barrier, T_end_asleep, T_done} \<longrightarrow> ending s)"
  using mac_reach_ok [OF assms] by (simp add: sleep_ok_def)

theorem mac_sleeper_is_woken_witness:
  "\<exists>s. mac_reach True example_mac_device s \<and> mac_client s = A_wait \<and> mac_queue s = []"
proof -
  have "mac_reach True example_mac_device (mac_quiet example_mac_device False T_loop A_wait)" by (rule mac_quiet_waiting)
  from mac_sleeper_is_woken [OF this] this show ?thesis
    by (intro exI [of _ "mac_quiet example_mac_device False T_loop A_wait"]) (simp add: mac_quiet_def)
qed

text \<open>
  C21. As long as no wait at a barrier returns by itself, \<open>hid_open_path\<close> returns with the source and the run loop in place,
  \<open>hid_close\<close> signals a thread that is alive, and clears up only when the thread has ended.
\<close>

theorem mac_start_and_end_in_order:
  assumes "mac_reach False dev s"
  shows "(mac_client s \<notin> {A_barrier, A_asleep} \<longrightarrow> source (mac_shared s) \<and> run_loop (mac_shared s)) \<and>
    (mac_client s = A_signal \<longrightarrow> mac_reader s \<noteq> T_done) \<and> (mac_client s \<in> {A_free, A_gone} \<longrightarrow> mac_reader s = T_done)"
  using mac_reach_barriers [OF assms] by (auto simp: barriers_ok_def)

theorem mac_start_and_end_in_order_witness:
  "\<exists>s. mac_reach False example_mac_device s \<and> mac_client s = A_signal \<and> run_loop (mac_shared s) \<and> mac_reader s \<noteq> T_done"
proof -
  have "mac_reach False example_mac_device (mac_quiet example_mac_device True T_loop A_signal)" by (rule mac_quiet_closing)
  from mac_start_and_end_in_order [OF this] this show ?thesis
    by (intro exI [of _ "mac_quiet example_mac_device True T_loop A_signal"]) (simp add: mac_quiet_def)
qed

text \<open>
  C26. But \<open>pthread_barrier_wait\<close> does not look at the count again when its wait returns. With a spurious wake-up \<open>hid_open_path\<close> returns a
  device whose run loop is not there yet, and the run loop \<open>hid_close\<close> is about to wake may belong to a thread that has ended.
\<close>

theorem mac_barrier_passed_alone:
  "(\<exists>s. mac_reach True dev s \<and> mac_client s = A_idle \<and> \<not> run_loop (mac_shared s)) \<and>
   (\<exists>s. mac_reach True dev s \<and> mac_client s = A_signal \<and> mac_reader s = T_done)"
proof
  let ?q = "mac_quiet dev False T_start"
  have "mac_client_step True (?q A_barrier) (?q A_asleep)" using a_sleep [of "?q A_barrier"] by (simp add: mac_quiet_def)
  note 1 = mac_reach_client [OF mac_quiet_start this]
  have "mac_client_step True (?q A_asleep) ((?q A_asleep)\<lparr>mac_client := A_idle\<rparr>)" by (rule a_spurious) (simp_all add: mac_quiet_def)
  from mac_reach_client [OF 1 this] show "\<exists>s. mac_reach True dev s \<and> mac_client s = A_idle \<and> \<not> run_loop (mac_shared s)"
    by (intro exI [of _ "(?q A_asleep)\<lparr>mac_client := A_idle\<rparr>"]) (simp add: mac_quiet_def)
next
  let ?q = "\<lambda>r. mac_quiet dev True r A_signal"
  have "mac_reader_step True (?q T_loop) (?q T_wake)" using t_stop [of "?q T_loop"] by (simp add: mac_quiet_def)
  note 1 = mac_reach_reader [OF mac_quiet_closing this]
  have "mac_reader_step True (?q T_wake) (?q T_end_barrier)" using t_wake [of "?q T_wake"] by (simp add: mac_quiet_def wake_mac_def)
  note 2 = mac_reach_reader [OF 1 this]
  have "mac_reader_step True (?q T_end_barrier) (?q T_end_asleep)" using t_end_sleep [of "?q T_end_barrier"] by (simp add: mac_quiet_def)
  note 3 = mac_reach_reader [OF 2 this]
  have "mac_reader_step True (?q T_end_asleep) ((?q T_end_asleep)\<lparr>mac_reader := T_done\<rparr>)" by (rule t_end_spurious) (simp_all add: mac_quiet_def)
  from mac_reach_reader [OF 3 this] show "\<exists>s. mac_reach True dev s \<and> mac_client s = A_signal \<and> mac_reader s = T_done"
    by (intro exI [of _ "(?q T_end_asleep)\<lparr>mac_reader := T_done\<rparr>"]) (simp add: mac_quiet_def)
qed

text \<open>
  \<open>hid_close\<close> on Mac OS X is never stuck, at the barrier, at the join or in the clean-up: from every reachable state in it, without
  spurious wake-ups, a run leads to its return.
\<close>

theorem mac_close_can_finish:
  assumes "mac_reach False dev s" "in_close (mac_client s)"
  shows "\<exists>t. mac_steps False s t \<and> mac_client t = A_gone"
  using assms
proof (induction "close_measure s" arbitrary: s rule: less_induct)
  case less
  obtain t where t: "mac_step False s t" "close_measure t < close_measure s" "in_close (mac_client t) \<or> mac_client t = A_gone"
    using close_moves [OF less.prems] close_step [OF less.prems] by blast
  have st: "mac_steps False s t" using t(1) by blast
  show ?case
  proof (cases "mac_client t = A_gone")
    case False
    then obtain u where "mac_steps False t u" "mac_client u = A_gone"
      using less.hyps [OF t(2) mac_reach_step [OF less.prems(1) t(1)]] t(3) by blast
    then show ?thesis using st by (meson rtranclp_trans)
  qed (use st in blast)
qed

theorem mac_close_can_finish_witness:
  "\<exists>s t. mac_reach False example_mac_device s \<and> mac_client s = A_signal \<and> mac_steps False s t \<and> mac_client t = A_gone"
proof -
  let ?s = "mac_quiet example_mac_device True T_loop A_signal"
  have r: "mac_reach False example_mac_device ?s" by (rule mac_quiet_closing)
  have "in_close (mac_client ?s)" "mac_client ?s = A_signal" by (simp_all add: mac_quiet_def in_close_def)
  then show ?thesis using mac_close_can_finish [OF r] r by blast
qed

text \<open>
  C22. How long \<open>hid_close\<close> takes on Mac OS X: at most 42 steps of the two threads, in whatever order, and callbacks that
  the run loop of the read thread may still run in between; and there is always a step that brings the return closer.
\<close>

theorem mac_close_returns:
  assumes "mac_reach False dev s" "in_close (mac_client s)"
  shows "close_measure s \<le> 42 \<and> (\<exists>t. mac_step False s t \<and> close_measure t < close_measure s) \<and>
    (\<forall>t. mac_step False s t \<longrightarrow> (in_close (mac_client t) \<or> mac_client t = A_gone) \<and>
      (close_measure t < close_measure s \<or> callback s t \<and> close_measure t = close_measure s))"
proof -
  have "length (mac_queue s) \<le> 32" using mac_reach_buffer [OF assms(1)] by (simp add: buffer_ok_def mac_buffer_def)
  moreover have "mac_reader_rank (mac_reader s) \<le> 5" "close_rank (mac_client s) \<le> 5"
    by (cases "mac_reader s"; simp) (cases "mac_client s"; simp)
  ultimately have "close_measure s \<le> 42" by (simp add: close_measure_def)
  then show ?thesis using close_moves [OF assms] close_step [OF assms] by blast
qed

theorem mac_close_returns_witness:
  "\<exists>s. mac_reach False example_mac_device s \<and> mac_client s = A_signal \<and> close_measure s \<le> 42 \<and>
    (\<exists>t. mac_step False s t \<and> close_measure t < close_measure s)"
proof -
  let ?s = "mac_quiet example_mac_device True T_loop A_signal"
  have "in_close (mac_client ?s)" "mac_client ?s = A_signal" by (simp_all add: mac_quiet_def in_close_def)
  then show ?thesis
    using mac_close_returns [OF mac_quiet_closing [of False example_mac_device]] mac_quiet_closing [of False example_mac_device] by blast
qed

end
