(* ===== verification/HidMacProps.thy ===== *)
theory HidMacProps
  imports HidMacToken MacThread PluginProps
begin

text \<open>
  The token library and the plugin over the Mac OS X implementation; what a session on a device gives back, and its strings.
\<close>

section \<open>Sessions\<close>

text \<open>\<open>used a s s'\<close>: the device at \<open>a\<close> has been used; it is the same device with the same thread, everything else is untouched.\<close>

definition used :: "nat \<Rightarrow> mst \<Rightarrow> mst \<Rightarrow> bool" where
  "used a s s' \<longleftrightarrow> (\<exists>d e. mac_heap s a = Some d \<and> mac_heap s' = (mac_heap s)(a \<mapsto> e) \<and> mac_handle e = mac_handle d \<and>
      (mac_running d \<longrightarrow> mac_running e)) \<and>
     mac_next s' = mac_next s \<and> seized s' = seized s \<and> retained s' = retained s \<and> loose_objects s' = loose_objects s \<and>
     mac_blocks s' = mac_blocks s"

lemma used_refl: "mac_heap s a \<noteq> None \<Longrightarrow> used a s s"
  unfolding used_def by (metis fun_upd_triv not_None_eq)

lemma used_trans: "used a s t \<Longrightarrow> used a t u \<Longrightarrow> used a s u"
  by (auto simp: used_def)

lemma used_calm: "mac_heap s a \<noteq> None \<Longrightarrow> calm s s' \<Longrightarrow> mac_blocks s' = mac_blocks s \<Longrightarrow> used a s s'"
  using used_refl [of s a] by (simp add: used_def calm_def)

lemma used_update:
  assumes "update_mac a f s = Some s'" "\<And>d. mac_heap s a = Some d \<Longrightarrow> mac_handle (f d) = mac_handle d \<and> mac_running (f d) = mac_running d"
  shows "used a s s'"
  using assms by (auto simp: update_mac_def used_def elim!: bind_SomeE)

text \<open>
  One call of the application on the open device \<open>a\<close>, or one callback of its read thread, and any number of them. A read that had to
  wait is what it does when it has been woken.
\<close>

inductive mac_op :: "mac_env \<Rightarrow> nat \<Rightarrow> mst \<Rightarrow> mst \<Rightarrow> bool" for E a s where
  mac_write: "hid_write_mac E a data len s = Some (r, s') \<Longrightarrow> mac_op E a s s'"
| mac_send: "hid_send_feature_report_mac E a data len s = Some (r, s') \<Longrightarrow> mac_op E a s s'"
| mac_get: "hid_get_feature_report_mac E a data len s = Some (r, data', s') \<Longrightarrow> mac_op E a s s'"
| mac_nonblocking: "hid_set_nonblocking_mac a nonblock s = Some (r, s') \<Longrightarrow> mac_op E a s s'"
| mac_read: "mac_heap s a = Some d \<Longrightarrow> mac_read_start d data len ms now = Some (Mac_return n data' d') \<Longrightarrow>
    update_mac a (\<lambda>_. d') s = Some s' \<Longrightarrow> mac_op E a s s'"
| mac_read_woken: "mac_heap s a = Some d \<Longrightarrow> mac_cond_wait res d data len = Some (Some (Mac_return n data' d')) \<Longrightarrow>
    update_mac a (\<lambda>_. d') s = Some s' \<Longrightarrow> mac_op E a s s'"
| mac_read_timed: "mac_heap s a = Some d \<Longrightarrow> mac_cond_timedwait res d data len = Some (Some (Mac_return n data' d')) \<Longrightarrow>
    update_mac a (\<lambda>_. d') s = Some s' \<Longrightarrow> mac_op E a s s'"
| mac_report_in: "mac_heap s a = Some d \<Longrightarrow> hid_report_callback rpt d = Some d' \<Longrightarrow> update_mac a (\<lambda>_. d') s = Some s' \<Longrightarrow>
    mac_op E a s s'"
| mac_unplugged: "mac_heap s a = Some d \<Longrightarrow> hid_device_removal_callback d = Some d' \<Longrightarrow> update_mac a (\<lambda>_. d') s = Some s' \<Longrightarrow>
    mac_op E a s s'"

abbreviation mac_ops :: "mac_env \<Rightarrow> nat \<Rightarrow> mst \<Rightarrow> mst \<Rightarrow> bool" where
  "mac_ops E a \<equiv> (mac_op E a)\<^sup>*\<^sup>*"

lemma taken_mac_used:
  assumes "macq.taken d d'" "mac_heap s a = Some d" "update_mac a (\<lambda>_. d') s = Some s'"
  shows "used a s s'"
  by (rule used_update [OF assms(3)])
    (use assms(2) in \<open>auto simp: mac_running_def intro!: macq.taken_keeps [OF assms(1)]\<close>)

lemma mac_op_used: "mac_op E a s s' \<Longrightarrow> used a s s'"
proof (induction rule: mac_op.induct)
  case (mac_write data len r s')
  then have "mac_heap s a \<noteq> None" by (auto simp: hid_write_mac_def set_report_def elim: bind_SomeE)
  then show ?case using used_calm set_report_calm mac_write unfolding hid_write_mac_def by blast
next
  case (mac_send data len r s')
  then have "mac_heap s a \<noteq> None" by (auto simp: hid_send_feature_report_mac_def set_report_def elim: bind_SomeE)
  then show ?case using used_calm set_report_calm mac_send unfolding hid_send_feature_report_mac_def by blast
next
  case (mac_get data len r data' s')
  then have "mac_heap s a \<noteq> None" by (auto simp: hid_get_feature_report_mac_def elim: bind_SomeE)
  then show ?case using used_calm get_mac_frame [OF mac_get] by blast
next
  case (mac_nonblocking nonblock r s')
  then have "update_mac a (\<lambda>d. d\<lparr>mac_blocking := \<not> nonblock\<rparr>) s = Some s'" by (auto simp: hid_set_nonblocking_mac_def elim!: bind_SomeE)
  then show ?case by (rule used_update) (simp add: mac_running_def)
next
  case (mac_report_in d rpt d' s')
  show ?case by (rule used_update [OF mac_report_in(3)]) (use mac_report_in in \<open>simp add: hid_report_callback_eq mac_running_def, force\<close>)
next
  case (mac_unplugged d d' s')
  show ?case
    by (rule used_update [OF mac_unplugged(3)])
      (use mac_unplugged in \<open>auto simp: hid_device_removal_callback_def mac_running_def split: if_splits\<close>)
qed (blast intro: taken_mac_used mac_read_taken)+

lemma mac_ops_used: "mac_ops E a s s' \<Longrightarrow> mac_heap s a \<noteq> None \<Longrightarrow> used a s s'"
  by (induction rule: rtranclp_induct) (use used_refl used_trans mac_op_used in blast)+

lemma mac_inv_update:
  assumes "mac_inv s" "mac_heap t = (mac_heap s)(a \<mapsto> e)" "mac_running e" "mac_heap s a \<noteq> None" "mac_next t = mac_next s"
  shows "mac_inv t"
  using assms unfolding mac_inv_def by (metis fun_upd_apply option.inject)

text \<open>
  C15. A device is opened on Mac OS X, used in any way, perhaps unplugged, and closed. Closing never fails; structures, blocks,
  references to the device and Core Foundation objects are then what they were. Only a device that was unplugged stays open in the
  system.
\<close>

theorem session_balance_mac:
  assumes inv: "mac_inv s" and o: "hid_open_mac E v p sn s = Some (Some a, s1)" and u: "mac_ops E a s1 s2"
  shows "\<exists>s3 d dev. hid_close_mac (Some a) s2 = Some s3 \<and> mac_inv s3 \<and> mac_heap s3 = mac_heap s \<and> retained s3 = retained s \<and>
    loose_objects s3 = loose_objects s \<and> mac_blocks s3 = mac_blocks s \<and> mac_heap s2 a = Some d \<and> mac_handle d = Some dev \<and>
    seized s3 = (if disconnected d then (seized s)(mac_id dev := seized s (mac_id dev) + 1) else seized s)"
proof -
  obtain d dev where d: "opened_mac a d dev s s1" "mac_blocks s1 = mac_blocks s" using open_mac_frame [OF o inv] by auto
  have us: "used a s1 s2" by (rule mac_ops_used [OF u]) (use d in \<open>simp add: opened_mac_def\<close>)
  then obtain e where e: "mac_heap s2 = (mac_heap s1)(a \<mapsto> e)" "mac_handle e = Some dev" "mac_running e"
    and f: "mac_next s2 = mac_next s1" "seized s2 = seized s1" "retained s2 = retained s1" "loose_objects s2 = loose_objects s1"
      "mac_blocks s2 = mac_blocks s1"
    using d(1) by (auto simp: used_def opened_mac_def)
  have e2: "mac_heap s2 a = Some e" by (simp add: e(1))
  obtain s3 where c: "hid_close_mac (Some a) s2 = Some s3" "closed_mac a e s2 s3" using close_mac_closed [OF e2 e(3)] by blast
  have "mac_inv s1" using opened_mac_inv [OF inv d(1)] by blast
  then have "mac_inv s2" by (rule mac_inv_update [OF _ e(1,3) _ f(1)]) (use d(1) in \<open>simp add: opened_mac_def\<close>)
  then have i3: "mac_inv s3" using closed_mac_inv [OF _ c(2)] by blast
  have "mac_heap s3 = mac_heap s" using c(2) e d(1) by (auto simp: closed_mac_def opened_mac_def)
  moreover have "retained s3 = retained s \<and> loose_objects s3 = loose_objects s \<and> mac_blocks s3 = mac_blocks s"
    using c(2) e(2) f d by (auto simp: closed_mac_def opened_mac_def)
  moreover have "seized s3 = (if disconnected e then (seized s)(mac_id dev := seized s (mac_id dev) + 1) else seized s)"
    using c(2) e(2) f d by (auto simp: closed_mac_def opened_mac_def)
  ultimately show ?thesis using c(1) i3 e2 e(2) by blast
qed

section \<open>Strings\<close>

lemma same_either_way: "(if c = n then n else c) = c"
  by simp

text \<open>
  \<open>get_string_property\<close> puts the terminating zero behind as many characters as the property has UTF-16 units. With
  characters outside the basic plane that is behind the end of the text, and what the array held before shows in between.
\<close>

theorem string_ends_at_units:
  assumes "mac_property dev key = Some (Mac_string str)" "length str < len" "len \<le> length buf"
    and "me_utf32 E str (len - 1) = (length str, w)" "w \<noteq> []" "length w \<le> length str"
  shows "get_string_property E dev key buf len =
    Some (0, w @ take (length str - length w) (drop (length w) buf) @ 0 # drop (Suc (length str)) buf)"
proof -
  have b0: "wr buf 0 0 = Some (buf[0 := 0])" using assms(2,3) by (auto simp: wr_def)
  have dr: "drop (length w) (buf[0 := 0]) = drop (length w) buf" using assms(5) by (cases buf) (auto simp: drop_Cons' nth_list_update)
  have tw: "take (len - 1) w = w" using assms(2,6) by simp
  let ?b = "w @ drop (length w) buf"
  have b1: "wr_block (buf[0 := 0]) 0 w = Some ?b" using assms(2,3,6) dr by (simp add: wr_block_def)
  have b2: "wr ?b (length str) 0 = Some (?b[length str := 0])" using assms(2,3,6) by (simp add: wr_def)
  have "?b[length str := 0] = take (length str) ?b @ 0 # drop (Suc (length str)) ?b"
    using assms(2,3,6) by (intro upd_conv_take_nth_drop) simp
  also have "\<dots> = w @ take (length str - length w) (drop (length w) buf) @ 0 # drop (Suc (length str)) buf"
    using assms(6) by (simp add: Suc_diff_le)
  finally have b3: "wr ?b (length str) 0 = Some (w @ take (length str - length w) (drop (length w) buf) @ 0 # drop (Suc (length str)) buf)"
    using b2 by simp
  have "\<not> len - 1 < length str" "len \<noteq> 0" using assms(2) by linarith+
  then show ?thesis
    using assms(1,4) b0 b1 b3 tw by (simp add: get_string_property_def Let_def same_either_way split del: if_split)
qed

section \<open>No devices\<close>

text \<open>Without a HID device in the system \<open>hid_enumerate\<close> on Mac OS X follows a NULL pointer.\<close>

theorem no_devices_crashes:
  assumes "\<And>tr. me_devices E tr = None" "hid_mgr s"
  shows "hid_enumerate_mac E v p s = None"
  using assms
  by (cases "process_pending_events E s") (simp_all add: hid_enumerate_mac_def hid_init_mac_def copy_devices_def Let_def)

section \<open>An example\<close>

text \<open>\<open>CFStringGetBytes\<close>: every unit a character, as it is for text in the basic plane.\<close>

definition example_utf32 :: "u16 list \<Rightarrow> nat \<Rightarrow> nat \<times> wchar list" where
  "example_utf32 str n = (length (take n str), map ucast (take n str))"

definition example_stick :: mac_device where
  "example_stick = \<lparr>mac_id = 1, mac_property = [kIOHIDVendorIDKey \<mapsto> Mac_number (uint VID), kIOHIDProductIDKey \<mapsto> Mac_number (uint PID),
     kIOHIDTransportKey \<mapsto> Mac_string [85, 83, 66],
     kIOHIDSerialNumberKey \<mapsto> Mac_string (map ucast (serial_string hex_char example_ser))]\<rparr>"

definition example_keyboard :: mac_device where
  "example_keyboard = \<lparr>mac_id = 0, mac_property = [kIOHIDTransportKey \<mapsto> Mac_string [85, 83, 66]]\<rparr>"

definition example_mac :: "byte \<times> byte \<Rightarrow> mac_env" where
  "example_mac status =
    \<lparr>me_manager = (\<lambda>tr. True), me_run = (\<lambda>tr. Run_timed_out), me_devices = (\<lambda>tr. Some [Some example_keyboard, Some example_stick]),
     me_utf32 = example_utf32, me_utf8 = (\<lambda>str n. take n ''USB''), me_open = (\<lambda>tr dev. True),
     me_set = (\<lambda>tr dev ty r p. True),
     me_get = (\<lambda>tr dev r n. case rev tr of MSet i ty r p # rest \<Rightarrow> Some (token_answer example_ser (token_model status example_key) p)
       | _ \<Rightarrow> None),
     me_buf = (\<lambda>tr. [])\<rparr>"

definition example_mac_state :: mst where
  "example_mac_state = \<lparr>mac_heap = Map.empty, mac_next = 0, hid_mgr = False, seized = (\<lambda>i. 0), retained = (\<lambda>i. 0), cf_objects = 0,
     mac_blocks = 0, mac_trace = []\<rparr>"

lemma example_mac_inv: "mac_inv example_mac_state"
  by (simp add: mac_inv_def example_mac_state_def)

lemma example_stick_ids: "get_vendor_id example_stick = VID" "get_product_id example_stick = PID"
    "get_vendor_id example_keyboard = 0" "get_product_id example_keyboard = 0"
  by (code_simp)+

lemma example_hex: "zero_pad 4 (hex_digits (unat VID)) = ''03eb''" "zero_pad 4 (hex_digits (unat PID)) = ''8ac7''"
    "zero_pad 4 ''0'' = ''0000''" "hex_digits 0 = ''0''"
  by (simp_all add: VID_def PID_def zero_pad_def hex_char_of_def hex_digits.simps numeral_3_eq_3)

lemma example_transport:
  "get_string_property_utf8 (example_mac status) example_stick kIOHIDTransportKey 32 = Some (3, ''USB'')"
  "get_string_property_utf8 (example_mac status) example_keyboard kIOHIDTransportKey 32 = Some (3, ''USB'')"
  "get_location_id example_stick = 0" "get_location_id example_keyboard = 0"
  by (simp_all add: get_string_property_utf8_def example_stick_def example_keyboard_def example_mac_def get_location_id_def
      get_int_property_def)

lemma example_paths:
  "make_path_mac (example_mac status) example_stick = Some (16, ''USB_03eb_8ac7_0'')"
  "make_path_mac (example_mac status) example_keyboard = Some (16, ''USB_0000_0000_0'')"
  by (simp_all add: make_path_mac_def example_transport example_stick_ids example_hex)

lemma example_token_mac:
  "token_mac (example_mac status) ''USB_03eb_8ac7_0'' hex_char example_ser (token_model status example_key)"
proof -
  let ?E = "example_mac status" and ?ser = "serial_string hex_char example_ser"
  have same: "map ucast (map ucast ?ser :: u16 list) = ?ser"
    unfolding example_serial_string by code_simp
  have len: "length ?ser = 8" unfolding example_serial_string by simp
  have conv: "me_utf32 ?E (map ucast ?ser) 255 = (length (map ucast ?ser :: u16 list), ?ser)"
    using same len by (simp add: example_mac_def example_utf32_def)
  have st: "mac_property example_stick kIOHIDSerialNumberKey = Some (Mac_string (map ucast ?ser))"
    "length (map ucast ?ser :: u16 list) = 2 * length example_ser"
    using len by (simp_all add: example_stick_def example_ser_def)
  have other: "\<not> id_match VID PID (get_vendor_id example_keyboard) (get_product_id example_keyboard)"
    unfolding example_stick_ids by (simp add: id_match_def VID_def PID_def)
  have c: "converter_ok ?E" by (simp add: converter_ok_def example_mac_def example_utf32_def)
  have tp: "text_property example_stick kIOHIDManufacturerKey" "text_property example_stick kIOHIDProductKey"
    by (simp_all add: text_property_def example_stick_def)
  have run: "me_run ?E tr = Run_timed_out" for tr by (simp add: example_mac_def)
  have get: "me_get ?E (tr @ [MSet i ty r p]) dev q 18 = Some (token_answer example_ser (token_model status example_key) p)" for tr i ty r p dev q
    by (simp add: example_mac_def)
  have rest: "me_manager ?E tr" "me_devices ?E tr = Some (map Some ([example_keyboard] @ example_stick # []))" "me_open ?E tr dev"
    "me_set ?E tr dev ty r p" for tr dev ty r p
    by (simp_all add: example_mac_def)
  show ?thesis
    by (rule token_macI [OF c rest(1) run rest(2) _ _ example_stick_ids(1,2) example_paths(1) st conv tp rest(3,4) get])
      (use other example_paths(2) in auto)
qed

lemma example_plugged_mac: "plugged_mac example_platform (example_mac status) example_ser status example_key"
  using example_token_mac example_ok(1-3) unfolding plugged_mac_def by blast

theorem string_ends_at_units_witness:
  "get_string_property ((example_mac (0, 8))\<lparr>me_utf32 := (\<lambda>str n. (2, [0x1F511]))\<rparr>)
     \<lparr>mac_id = 0, mac_property = [kIOHIDProductKey \<mapsto> Mac_string [0xD83D, 0xDD11]]\<rparr> kIOHIDProductKey [65, 66, 67, 68] 4 =
   Some (0, [0x1F511, 66, 0, 68])"
  using string_ends_at_units [of "\<lparr>mac_id = 0, mac_property = [kIOHIDProductKey \<mapsto> Mac_string [0xD83D, 0xDD11]]\<rparr>" kIOHIDProductKey
      "[0xD83D, 0xDD11]" 4 "[65, 66, 67, 68]" "(example_mac (0, 8))\<lparr>me_utf32 := (\<lambda>str n. (2, [0x1F511]))\<rparr>" "[0x1F511]"]
  by simp

theorem no_devices_crashes_witness:
  "hid_enumerate_mac ((example_mac (0, 8))\<lparr>me_devices := (\<lambda>tr. None)\<rparr>) VID PID (example_mac_state\<lparr>hid_mgr := True\<rparr>) = None"
  by (rule no_devices_crashes) simp_all

lemma example_mac_opens: "\<exists>a s1. hid_open_mac (example_mac (0, 8)) VID PID None example_mac_state = Some (Some a, s1)"
proof -
  note h = serial_string_text [OF hex_printers(1), of example_ser]
  have "length example_ser = 4" by (simp add: example_ser_def)
  from mac_open [OF example_token_mac example_mac_inv h this] show ?thesis by blast
qed

theorem session_balance_mac_witness:
  "\<exists>a s1 s2 s3. hid_open_mac (example_mac (0, 8)) VID PID None example_mac_state = Some (Some a, s1) \<and>
    hid_set_nonblocking_mac a True s1 = Some (0, s2) \<and> hid_close_mac (Some a) s2 = Some s3 \<and>
    mac_heap s3 = Map.empty \<and> loose_objects s3 = 0 \<and> mac_blocks s3 = 0"
proof -
  obtain a s1 where o: "hid_open_mac (example_mac (0, 8)) VID PID None example_mac_state = Some (Some a, s1)"
    using example_mac_opens by blast
  have "mac_heap s1 a \<noteq> None" using open_mac_frame [OF o example_mac_inv] by (auto simp: opened_mac_def)
  then obtain s2 where n: "hid_set_nonblocking_mac a True s1 = Some (0, s2)"
    by (auto simp: hid_set_nonblocking_mac_def update_mac_def)
  have "mac_ops (example_mac (0, 8)) a s1 s2" by (rule r_into_rtranclp) (rule mac_nonblocking [OF n])
  from session_balance_mac [OF example_mac_inv o this] n o show ?thesis
    by (auto simp: example_mac_state_def loose_objects_def)
qed

section \<open>The library over Mac OS X\<close>

definition example_page_mac :: "mst plugin" where
  "example_page_mac = new_plugin \<lparr>ld_open = True, ld_error = (\<lambda>name. False)\<rparr> [0, 0, 0, 0] 0
     \<lparr>tk = zero_tk, LAST_ERR_NO = nErr_OK, hid = example_mac_state, frames = 0, ssl_calls = 0, bignums = 0, streams = 0,
      files = (\<lambda>f. None)\<rparr>"

lemma example_page_mac_ok:
  "hid (lib example_page_mac) = example_mac_state" "get_TkErr example_page_mac = nErr_OK"
  "length (dev_serial example_page_mac) = 4"
  by (simp_all add: example_page_mac_def new_plugin_def loadTokenDll_def dll_symbols_def get_TkErr_def get_err_no_def)

text \<open>
  C13. With the Mac OS X implementation of HIDAPI underneath, a page gets its message back as with the others, whatever other HID devices
  the manager shows and however long its run loop has events to handle.
\<close>

theorem page_roundtrip_mac:
  assumes "plugged_mac P E ser (lo, hi) key" "mac_inv (hid (lib p))" "get_TkErr p = nErr_OK" "length (dev_serial p) = 4"
    and "good_stack P" "openssl_succeeds S" "usable (uint hi * 256 + uint lo)" "holds_public key Ke N"
    and "holds_private key (password16 pwd) D N"
    and "rsa_pair S (rsa_value Ke N None) (rsa_value Ke N (Some D)) m" "0 \<notin> set m" "length m < 1024"
  shows "\<exists>p1 p2 p3 hex. GetToken P (mac_backend E) p = Some p1 \<and> dev_serial p1 = ser \<and>
    RsaEncrypt P (mac_backend E) S 1 m pwd p1 = Some (hex, p2) \<and> length hex = 256 \<and>
    RsaDecrypt P (mac_backend E) S 2 hex pwd p2 = Some (m, p3) \<and> get_TkErr p3 = nErr_OK"
  by (rule page_roundtrip_attached [OF plugged_mac_attached [OF assms(1)] assms(2-12)])

theorem page_roundtrip_mac_witness:
  "\<exists>p1 p2 p3 hex. GetToken example_platform (mac_backend (example_mac (0, 8))) example_page_mac = Some p1 \<and>
    RsaEncrypt example_platform (mac_backend (example_mac (0, 8))) example_padding 1 [72, 105] example_pwd p1 = Some (hex, p2) \<and>
    RsaDecrypt example_platform (mac_backend (example_mac (0, 8))) example_padding 2 hex example_pwd p2 = Some ([72, 105], p3)"
proof -
  have "openssl_succeeds example_padding"
    by (simp add: openssl_succeeds_def example_padding_def example_ssl_def)
  moreover have "rsa_pair example_padding pub priv [72, 105]" for pub priv
    by (simp add: rsa_pair_def example_padding_def)
  moreover have "mac_inv (hid (lib example_page_mac))" using example_mac_inv by (simp add: example_page_mac_ok)
  ultimately show ?thesis
    using page_roundtrip_mac [OF example_plugged_mac [of "(0, 8)"] _ example_page_mac_ok(2,3) example_ok(4) _
        example_usable example_ok(7) example_private, of example_padding "[72, 105]"] by fastforce
qed

text \<open>
  C14. The invariant of the library over Mac OS X: whatever the application calls and whatever the system answers, the opens of
  every device in the system that are not yet closed are after a call those of before the first one, and so are the retained
  references, the objects not released and the threads; every device structure with a thread has what \<open>hid_close\<close> needs, and at
  most the first entry of \<open>tk\<close> is in use. As everywhere in the sequential model of this backend, no device
  is pulled out while a call has it open: \<open>hid_close\<close> does not close such a device, \<open>session_balance_mac\<close>.
\<close>

theorem library_invariant_mac:
  assumes "lib_start h s" "mac_inv h" "lib_reach P (mac_backend E) S s s'"
  shows "mac_inv (hid s') \<and> mac_live (hid s') = mac_live h \<and> seized (hid s') = seized h \<and> retained (hid s') = retained h \<and>
    loose_objects (hid s') = loose_objects h \<and> session_ok (tk s')"
proof -
  have "session_ok (tk s)" "hid s = h" using assms(1) session_ok_zero by (simp_all add: lib_start_def)
  then show ?thesis using hid_backend.lib_reach_keeps [OF mac.hid_backend_axioms assms(3)] assms(2) by (simp add: mac_held_def)
qed

theorem library_invariant_mac_witness:
  "\<exists>s1. get_first_device example_platform (mac_backend (example_mac (0, 8))) (lib example_page_mac) = Some s1 \<and>
    mac_inv (hid s1) \<and> seized (hid s1) = seized example_mac_state \<and> session_ok (tk s1)"
proof -
  let ?H = "mac_backend (example_mac (0, 8))" and ?s = "lib example_page_mac"
  have r: "mac_inv (hid ?s)" using example_mac_inv by (simp add: example_page_mac_ok)
  obtain s1 where s1: "get_first_device example_platform ?H ?s = Some s1"
    using first_device_ok [OF attached_present [OF plugged_mac_attached [OF example_plugged_mac]] r] by blast
  have st: "lib_start example_mac_state ?s"
    by (simp add: lib_start_def example_page_mac_def new_plugin_def loadTokenDll_def)
  have "lib_reach example_platform ?H example_ssl ?s s1"
    using reach_step [OF reach_start step_first [OF s1]] by simp
  from library_invariant_mac [OF st example_mac_inv this] show ?thesis using s1 by blast
qed

end
