(* ===== verification/Samples.thy ===== *)
theory Samples
  imports FumPlugin
begin

text \<open>
  The two programs that show how the token library is used: \<^verbatim>\<open>token-DLL/sample.c\<close>, linked with it, and
  \<^verbatim>\<open>token-DLL/dynamic-sample.c\<close>, which loads it. Both make the same calls and print what comes back; each call with its
  printing is a step here. The headings printed in front of the calls, and what goes to \<open>stderr\<close>, are left out.
\<close>

section \<open>Output\<close>

text \<open>A \<open>printf\<close> with its integers, or the text printed by \<open>%s\<close>; a loop that prints the bytes of an array is one \<open>Printf\<close>.\<close>

datatype printed = Printf string "int list" | Print_text "byte list"

definition errno_line :: "string \<Rightarrow> 'h nst \<Rightarrow> printed" where
  "errno_line f s = Printf (''ErrNo ('' @ f @ ''): %d'') [get_err_no s]"

definition print_bytes :: "string \<Rightarrow> byte list \<Rightarrow> printed" where
  "print_bytes txt bs = Printf txt (map uint bs)"

text \<open>\<open>printf ("%s", p)\<close> and \<open>free (p)\<close>, for a pointer that may never have been assigned.\<close>

definition print_and_free :: "cstring \<Rightarrow> printed option" where
  "print_and_free p = (case p of Indeterminate \<Rightarrow> None | Heap b \<Rightarrow> map_option Print_text (c_string b))"

section \<open>Local variables\<close>

record 'h sample =
  nov :: "'h nst"
  serial_buf :: "byte list"
  enc_len :: int
  enc_to :: "byte list"
  dec_to :: "byte list"
  sig_buf :: "byte list"
  sig_len :: int

definition sample_start :: "platform \<Rightarrow> 'h nst \<Rightarrow> 'h sample" where
  "sample_start P s = (let fr = frames s in
     \<lparr>nov = s\<lparr>frames := fr + 4\<rparr>, serial_buf = [0, 0, 0, 0], enc_len = 0, enc_to = local_array P 1024 fr,
      dec_to = local_array P 1024 (fr + 1), sig_buf = local_array P 1024 (fr + 2), sig_len = uint (junk P (fr + 3) 0)\<rparr>)"

definition sample_data :: "byte list" where
  "sample_data = [190, 1, 1, 3, 1]"

section \<open>Calls\<close>

type_synonym 'h sample_step = "'h sample \<Rightarrow> (printed list \<times> 'h sample) option"

definition do_count :: "'h hidapi \<Rightarrow> 'h sample_step" where
  "do_count H x = do {
     (i, s) \<leftarrow> get_device_count H (nov x);
     Some ([errno_line ''get_device_count'' s, Printf ''Number of devices: %d'' [i]], x\<lparr>nov := s\<rparr>)
   }"

definition do_first :: "platform \<Rightarrow> 'h hidapi \<Rightarrow> 'h sample_step" where
  "do_first P H x = do {
     s \<leftarrow> get_first_device P H (nov x);
     Some ([errno_line ''get_first_device'' s], x\<lparr>nov := s\<rparr>)
   }"

definition do_serial :: "platform \<Rightarrow> 'h hidapi \<Rightarrow> 'h sample_step" where
  "do_serial P H x = do {
     (ser, s) \<leftarrow> get_curr_dev_serial P H (serial_buf x) (nov x);
     Some ([errno_line ''get_curr_dev_serial'' s, print_bytes ''serial No: %d, %d, %d, %d'' ser], x\<lparr>nov := s, serial_buf := ser\<rparr>)
   }"

definition do_select :: "platform \<Rightarrow> 'h hidapi \<Rightarrow> 'h sample_step" where
  "do_select P H x = do {
     s \<leftarrow> select_device P H (serial_buf x) (nov x);
     Some ([errno_line ''select_device'' s], x\<lparr>nov := s\<rparr>)
   }"

text \<open>The names printed for this call and the next differ between the programs.\<close>

definition do_status :: "platform \<Rightarrow> 'h hidapi \<Rightarrow> string \<Rightarrow> 'h sample_step" where
  "do_status P H label x = do {
     (i, s) \<leftarrow> get_device_status P H (nov x);
     Some ([errno_line label s, Printf ''status number : %d'' [i]], x\<lparr>nov := s\<rparr>)
   }"

definition do_public_key :: "platform \<Rightarrow> 'h hidapi \<Rightarrow> openssl \<Rightarrow> string \<Rightarrow> 'h sample_step" where
  "do_public_key P H S label x = do {
     (pbuff, s) \<leftarrow> get_public_key P H S (nov x);
     t \<leftarrow> print_and_free pbuff;
     Some ([t, errno_line label s], x\<lparr>nov := s\<rparr>)
   }"

definition do_private_key :: "platform \<Rightarrow> 'h hidapi \<Rightarrow> openssl \<Rightarrow> byte list \<Rightarrow> 'h sample_step" where
  "do_private_key P H S pwd x = do {
     (prbuff, s) \<leftarrow> get_private_key P H S pwd (nov x);
     t \<leftarrow> print_and_free prbuff;
     Some ([t, errno_line ''get_private_key'' s], x\<lparr>nov := s\<rparr>)
   }"

text \<open>Encryption with key type 2, the private key; decryption with key type 1, of whatever length the encryption returned.\<close>

definition do_encrypt :: "platform \<Rightarrow> 'h hidapi \<Rightarrow> openssl \<Rightarrow> byte list \<Rightarrow> 'h sample_step" where
  "do_encrypt P H S pwd x = do {
     (len, to, s) \<leftarrow> rsa_encrypt P H S 2 5 sample_data (enc_to x) pwd (nov x);
     Some ([print_bytes ''data to encrypt: '' sample_data, errno_line ''rsa_encrypt'' s, Printf ''tlen is :%d'' [len]],
       x\<lparr>nov := s, enc_len := len, enc_to := to\<rparr>)
   }"

definition do_decrypt :: "platform \<Rightarrow> 'h hidapi \<Rightarrow> openssl \<Rightarrow> byte list \<Rightarrow> 'h sample_step" where
  "do_decrypt P H S pwd x = do {
     (len2, data2, s) \<leftarrow> rsa_decrypt P H S 1 (enc_len x) (enc_to x) (dec_to x) pwd (nov x);
     shown \<leftarrow> (if len2 \<noteq> - 1 then map_option (\<lambda>b. [print_bytes ''data : '' b]) (rd_block data2 0 (nat len2)) else Some []);
     Some (errno_line ''rsa_decrypt'' s # shown, x\<lparr>nov := s, dec_to := data2\<rparr>)
   }"

definition do_sign :: "platform \<Rightarrow> 'h hidapi \<Rightarrow> openssl \<Rightarrow> int \<Rightarrow> byte list \<Rightarrow> 'h sample_step" where
  "do_sign P H S nid pwd x = do {
     (stat, sigret, siglen, s) \<leftarrow> get_signature P H S nid sample_data 5 (sig_buf x) (sig_len x) pwd (nov x);
     Some ([errno_line ''get_signature'' s], x\<lparr>nov := s, sig_buf := sigret, sig_len := siglen\<rparr>)
   }"

definition do_verify :: "platform \<Rightarrow> 'h hidapi \<Rightarrow> openssl \<Rightarrow> int \<Rightarrow> 'h sample_step" where
  "do_verify P H S nid x = do {
     (stat, s) \<leftarrow> verify_signature P H S nid sample_data 5 (sig_buf x) (nat (sig_len x)) (nov x);
     Some ([errno_line ''verify_signature'' s], x\<lparr>nov := s\<rparr>)
   }"

section \<open>The programs\<close>

text \<open>
  The exit code, the output and the local variables. \<open>dynamic-sample.c\<close> looks every function up in front of its call and leaves with
  1 when \<open>dlerror\<close> has something to say.
\<close>

fun run_steps :: "loader \<Rightarrow> (string \<times> 'h sample_step) list \<Rightarrow> 'h sample \<Rightarrow> (int \<times> printed list \<times> 'h sample) option" where
  "run_steps L [] x = Some (0, [], x)"
| "run_steps L ((name, f) # steps) x =
     (if ld_error L name then Some (1, [], x)
      else do {
        (out, x1) \<leftarrow> f x;
        (code, outs, x2) \<leftarrow> run_steps L steps x1;
        Some (code, out @ outs, x2) })"

definition sample_pwd :: "byte list" where
  "sample_pwd = [51, 51, 51, 0, 0, 0, 0, 0, 0, 0, 0, 0, 0, 0, 0, 0]"

definition dynamic_pwd :: "byte list" where
  "dynamic_pwd = [110, 117, 112, 99, 101, 102, 100, 115, 45, 56, 55, 64, 117, 109, 0, 0]"

definition find_steps :: "platform \<Rightarrow> 'h hidapi \<Rightarrow> string \<Rightarrow> (string \<times> 'h sample_step) list" where
  "find_steps P H label =
     [(''get_device_count'', do_count H), (''get_first_device'', do_first P H), (''get_curr_dev_serial'', do_serial P H),
      (''select_device'', do_select P H), (''get_device_status'', do_status P H label)]"

definition crypt_steps :: "platform \<Rightarrow> 'h hidapi \<Rightarrow> openssl \<Rightarrow> int \<Rightarrow> byte list \<Rightarrow> (string \<times> 'h sample_step) list" where
  "crypt_steps P H S nid pwd =
     [(''rsa_encrypt'', do_encrypt P H S pwd), (''rsa_decrypt'', do_decrypt P H S pwd), (''get_signature'', do_sign P H S nid pwd),
      (''verify_signature'', do_verify P H S nid)]"

text \<open>\<open>sample.c\<close>, all of whose functions are there; \<open>nid\<close> is \<open>NID_md5\<close> of OpenSSL.\<close>

definition linked :: loader where
  "linked = \<lparr>ld_open = True, ld_error = (\<lambda>name. False)\<rparr>"

definition sample_main :: "platform \<Rightarrow> 'h hidapi \<Rightarrow> openssl \<Rightarrow> int \<Rightarrow> 'h nst \<Rightarrow> (int \<times> printed list \<times> 'h sample) option" where
  "sample_main P H S nid s =
     run_steps linked (find_steps P H ''get_dev_status'' @ (''get_public_key'', do_public_key P H S ''get_dev_status'') #
       crypt_steps P H S nid sample_pwd) (sample_start P s)"

definition dynamic_main ::
    "platform \<Rightarrow> 'h hidapi \<Rightarrow> openssl \<Rightarrow> int \<Rightarrow> loader \<Rightarrow> 'h nst \<Rightarrow> (int \<times> printed list \<times> 'h sample) option" where
  "dynamic_main P H S nid L s =
     (if \<not> ld_open L then Some (1, [], sample_start P s)
      else run_steps L ((''get_err_no'', \<lambda>x. Some ([], x)) # find_steps P H ''get_device_status'' @
        (''get_public_key'', do_public_key P H S ''get_public_key'') # (''get_private_key'', do_private_key P H S dynamic_pwd) #
        crypt_steps P H S nid dynamic_pwd) (sample_start P s))"

end
