(* ===== verification/SampleProps.thy ===== *)
theory SampleProps
  imports Samples LibraryProps
begin

text \<open>
  What the sample programs print, over any HIDAPI that has a token attached, and where they go wrong.
\<close>

section \<open>Steps that keep the library in order\<close>

lemma run_steps_append:
  "run_steps L (as @ bs) x = (case run_steps L as x of
     None \<Rightarrow> None
   | Some (code, o1, y) \<Rightarrow> if \<exists>(name, f)\<in>set as. ld_error L name then Some (code, o1, y)
       else (case run_steps L bs y of None \<Rightarrow> None | Some (c, o2, z) \<Rightarrow> Some (c, o1 @ o2, z)))"
proof (induction as arbitrary: x)
  case Nil
  then show ?case by (simp split: option.splits prod.splits)
next
  case (Cons a as)
  obtain name f where a: "a = (name, f)" by force
  show ?case
  proof (cases "f x")
    case None
    then show ?thesis by (simp add: a)
  next
    case (Some p)
    then show ?thesis using Cons [of "snd p"] by (cases p) (auto simp: a split: option.splits prod.splits if_splits)
  qed
qed

text \<open>With every symbol there the exit code is 0, and one step without a result spoils the run.\<close>

definition symbols_there :: "loader \<Rightarrow> bool" where
  "symbols_there L \<longleftrightarrow> ld_open L \<and> (\<forall>name. \<not> ld_error L name)"

lemma linked_there [simp]: "symbols_there linked"
  by (simp add: symbols_there_def linked_def)

lemma run_steps_there:
  "symbols_there L \<Longrightarrow> run_steps L (as @ bs) x = do {
     (c, o1, y) \<leftarrow> run_steps L as x; (d, o2, z) \<leftarrow> run_steps L bs y; Some (d, o1 @ o2, z) }"
  by (simp add: run_steps_append symbols_there_def split: option.splits prod.splits bind_splits)

lemma symbols_thereD: "symbols_there L \<Longrightarrow> ld_error L = (\<lambda>name. False)" "symbols_there L \<Longrightarrow> ld_open L"
  by (auto simp: symbols_there_def)

section \<open>Finding the token\<close>

text \<open>What the programs print first.\<close>

definition found_lines :: "byte list \<Rightarrow> string \<Rightarrow> int \<Rightarrow> printed list" where
  "found_lines ser label stat =
     [Printf ''ErrNo (get_device_count): %d'' [nErr_OK], Printf ''Number of devices: %d'' [1],
      Printf ''ErrNo (get_first_device): %d'' [nErr_OK],
      Printf ''ErrNo (get_curr_dev_serial): %d'' [nErr_OK], print_bytes ''serial No: %d, %d, %d, %d'' ser,
      Printf ''ErrNo (select_device): %d'' [nErr_OK],
      Printf (''ErrNo ('' @ label @ ''): %d'') [stat], Printf ''status number : %d'' [stat]]"

lemma device_count_ok:
  assumes "present P H ready ser" "ready (hid s)"
  shows "\<exists>s'. get_device_count H s = Some (1, s') \<and> ready (hid s') \<and> LAST_ERR_NO s' = nErr_OK"
proof -
  obtain hx where "lists H ready (Some (serial_string hx ser))" using assms(1) unfolding present_def by blast
  then obtain d h1 h2 where "api_enumerate H VID PID (hid s) = Some ([d], h1)" "api_free_enumeration H [d] h1 = Some h2" "ready h2"
    using assms(2) unfolding lists_def by blast
  then show ?thesis by (simp add: get_device_count_def)
qed

text \<open>The first five steps, with a token that is present and whose status request comes to \<open>stat\<close>.\<close>

lemma find_steps_ok:
  assumes p: "present P H ready ser" and r: "ready (hid (nov x))" and b: "serial_buf x = [0, 0, 0, 0]" and L: "symbols_there L"
    and st: "\<And>s. in_session ready ser s \<Longrightarrow>
      \<exists>s'. get_device_status P H s = Some (stat, s') \<and> in_session ready ser s' \<and> LAST_ERR_NO s' = stat"
  shows "\<exists>s'. run_steps L (find_steps P H label) x =
      Some (0, found_lines ser label stat, x\<lparr>nov := s', serial_buf := ser\<rparr>) \<and> in_session ready ser s'"
proof -
  have len: "length ser = 4" using p by (simp add: present_def)
  obtain s1 where 1: "get_device_count H (nov x) = Some (1, s1)" "ready (hid s1)" "LAST_ERR_NO s1 = nErr_OK"
    using device_count_ok [OF p r] by blast
  obtain s2 where 2: "get_first_device P H s1 = Some s2" "ready (hid s2)" "active_token ser (tk s2)" "LAST_ERR_NO s2 = nErr_OK"
    using first_device_ok [OF p 1(2)] by blast
  obtain s3 where 3: "get_curr_dev_serial P H [0, 0, 0, 0] s2 = Some (ser, s3)" "ready (hid s3)" "quiet s2 s3" "LAST_ERR_NO s3 = nErr_OK"
    using current_serial_ok [OF p 2(2,3), of "[0, 0, 0, 0]"] by auto
  have "active_token ser (tk s3)" using 2(3) 3(3) by (simp add: quiet_def)
  then obtain s4 where 4: "select_device P H ser s3 = Some s4" "in_session ready ser s4" "LAST_ERR_NO s4 = nErr_OK"
    using select_device_ok [OF p 3(2)] by blast
  obtain s5 where 5: "get_device_status P H s4 = Some (stat, s5)" "in_session ready ser s5" "LAST_ERR_NO s5 = stat"
    using st [OF 4(2)] by blast
  have "run_steps L (find_steps P H label) x = Some (0, found_lines ser label stat, x\<lparr>nov := s5, serial_buf := ser\<rparr>)"
    using 1 2 3 4 5 b symbols_thereD(1) [OF L]
    by (simp add: find_steps_def do_count_def do_first_def do_serial_def do_select_def do_status_def
        errno_line_def get_err_no_def found_lines_def)
  then show ?thesis using 5(2) by blast
qed

section \<open>A run of sample.c\<close>

definition sample_lines :: "byte list \<Rightarrow> byte list \<Rightarrow> printed list" where
  "sample_lines ser pem = found_lines ser ''get_dev_status'' nErr_OK @
     [Print_text pem, Printf ''ErrNo (get_dev_status): %d'' [nErr_OK],
      print_bytes ''data to encrypt: '' sample_data, Printf ''ErrNo (rsa_encrypt): %d'' [nErr_OK], Printf ''tlen is :%d'' [128],
      Printf ''ErrNo (rsa_decrypt): %d'' [nErr_OK], print_bytes ''data : '' sample_data,
      Printf ''ErrNo (get_signature): %d'' [nErr_OK], Printf ''ErrNo (verify_signature): %d'' [nErr_OK]]"

text \<open>\<open>reverse_pair\<close>: OpenSSL's decryption with the public key undoes its encryption with the private one.\<close>

definition reverse_pair :: "openssl \<Rightarrow> rsa_key \<Rightarrow> rsa_key \<Rightarrow> byte list \<Rightarrow> bool" where
  "reverse_pair S pub priv m \<longleftrightarrow>
     (\<exists>c. ssl_RSA_crypt S RSA_private_encrypt (int (length m)) m priv = (128, c) \<and> length c = 128 \<and>
        ssl_RSA_crypt S RSA_public_decrypt 128 c pub = (int (length m), m))"

lemma crypt_steps_ok:
  assumes a: "attached P H ready ser (lo, hi) key" and i: "in_session ready ser (nov x)" and P: "good_stack P" "openssl_succeeds S"
    and u: "usable (uint hi * 256 + uint lo)" and k: "holds_public key Ke N" "holds_private key (take 16 pwd) D N" "16 \<le> length pwd"
    and r: "reverse_pair S (rsa_value Ke N None) (rsa_value Ke N (Some D)) sample_data"
    and g: "signs S nid (rsa_value Ke N (Some D)) (rsa_value Ke N None) (ssl_SHA1 S sample_data) sig"
    and l: "length sig \<le> length (sig_buf x)" "128 \<le> length (enc_to x)" "5 \<le> length (dec_to x)" and L: "symbols_there L"
  shows "\<exists>y. run_steps L (crypt_steps P H S nid pwd) x = Some (0,
      [print_bytes ''data to encrypt: '' sample_data, Printf ''ErrNo (rsa_encrypt): %d'' [nErr_OK], Printf ''tlen is :%d'' [128],
       Printf ''ErrNo (rsa_decrypt): %d'' [nErr_OK], print_bytes ''data : '' sample_data,
       Printf ''ErrNo (get_signature): %d'' [nErr_OK], Printf ''ErrNo (verify_signature): %d'' [nErr_OK]], y) \<and>
    in_session ready ser (nov y)"
proof -
  have d5: "length sample_data = 5" by (simp add: sample_data_def)
  obtain c where c: "ssl_RSA_crypt S RSA_private_encrypt 5 sample_data (rsa_value Ke N (Some D)) = (128, c)" "length c = 128"
    "ssl_RSA_crypt S RSA_public_decrypt 128 c (rsa_value Ke N None) = (5, sample_data)"
    using r unfolding reverse_pair_def d5 by auto
  let ?to = "c @ drop 128 (enc_to x)" and ?out = "sample_data @ drop 5 (dec_to x)"
  have "RSA_call S RSA_private_encrypt 5 sample_data (enc_to x) (rsa_value Ke N (Some D)) = Some (128, ?to)"
    using c(1,2) l(2) d5 by (simp add: RSA_call_def rd_block_def wr_block_def)
  from rsa_private_ok [OF a i P u k this] obtain s1 where
    1: "rsa_encrypt P H S 2 5 sample_data (enc_to x) pwd (nov x) = Some (128, ?to, s1)" "in_session ready ser s1"
      "LAST_ERR_NO s1 = nErr_OK"
    by (auto simp: rsa_encrypt_def crypt_error_def)
  have "RSA_call S RSA_public_decrypt 128 ?to (dec_to x) (rsa_value Ke N None) = Some (5, ?out)"
    using c(2,3) l(3) d5 by (simp add: RSA_call_def rd_block_def wr_block_def)
  from rsa_public_ok [OF a 1(2) P u k(1) this] obtain s2 where
    2: "rsa_decrypt P H S 1 128 ?to (dec_to x) pwd s1 = Some (5, ?out, s2)" "in_session ready ser s2" "LAST_ERR_NO s2 = nErr_OK"
    by (auto simp: rsa_decrypt_def crypt_error_def)
  have st: "status_error (uint hi * 256 + uint lo) = nErr_OK" using u by (simp add: usable_def)
  have sg: "ssl_RSA_sign S nid (ssl_SHA1 S (take 5 sample_data)) (rsa_value Ke N (Some D)) = (1, sig)"
    "ssl_RSA_verify S nid (ssl_SHA1 S (take 5 sample_data)) sig (rsa_value Ke N None) = 1"
    using g d5 by (simp_all add: signs_def)
  let ?sig = "sig @ drop (length sig) (sig_buf x)"
  obtain s3 where 3: "get_signature P H S nid sample_data 5 (sig_buf x) (sig_len x) pwd s2 = Some (nErr_OK, ?sig, int (length sig), s3)"
    "in_session ready ser s3" "LAST_ERR_NO s3 = nErr_OK"
    using sign_ok [OF a 2(2) P st k _ sg(1) l(1)] d5 by auto
  have le: "length sig \<le> length ?sig" by simp
  obtain s4 where 4: "verify_signature P H S nid sample_data 5 ?sig (length sig) s3 = Some (nErr_OK, s4)" "in_session ready ser s4"
    "LAST_ERR_NO s4 = nErr_OK"
    using verify_ok [OF a 3(2) P st k(1) _ le, of 5 sample_data nid] sg(2) d5 by auto
  have rd: "rd_block ?out 0 5 = Some sample_data" using d5 l(3) by (simp add: rd_block_def)
  show ?thesis
    using 1 2 3 4 rd symbols_thereD(1) [OF L]
    by (simp add: crypt_steps_def do_encrypt_def do_decrypt_def do_sign_def do_verify_def errno_line_def get_err_no_def)
qed

lemma pem_printed: "0 \<notin> set pem \<Longrightarrow> print_and_free (Heap (pem @ [0])) = Some (Print_text pem)"
proof -
  assume "0 \<notin> set pem"
  then have "\<And>b. b \<in> set pem \<Longrightarrow> b \<noteq> 0" by blast
  then have "takeWhile (\<lambda>b. b \<noteq> 0) (pem @ [0]) = pem" by (simp add: takeWhile_append2)
  then show ?thesis by (simp add: print_and_free_def c_string_def cstr_def)
qed

text \<open>
  C30. \<^verbatim>\<open>sample.c\<close>, run with a token attached to any of the implementations of HIDAPI: every call succeeds, the program prints the token's
  serial number, its public key and the five bytes it has encrypted with the private key and decrypted with the public one, and its signature is
  accepted.
\<close>

theorem sample_program_ok:
  assumes "attached P H ready ser (lo, hi) key" "ready (hid s)" "good_stack P" "openssl_succeeds S"
    and "usable (uint hi * 256 + uint lo)" "holds_public key Ke N" "holds_private key sample_pwd D N"
    and "ssl_PEM_public S (rsa_value Ke N None) = Some pem" "0 \<notin> set pem"
    and "reverse_pair S (rsa_value Ke N None) (rsa_value Ke N (Some D)) sample_data"
    and "signs S nid (rsa_value Ke N (Some D)) (rsa_value Ke N None) (ssl_SHA1 S sample_data) sig" "length sig \<le> 1024"
  shows "\<exists>x. sample_main P H S nid s = Some (0, sample_lines ser pem, x) \<and> in_session ready ser (nov x)"
proof -
  let ?x = "sample_start P s"
  have x: "ready (hid (nov ?x))" "serial_buf ?x = [0, 0, 0, 0]"
    using assms(2) by (simp_all add: sample_start_def Let_def)
  have st: "\<exists>s'. get_device_status P H s = Some (nErr_OK, s') \<and> in_session ready ser s' \<and> LAST_ERR_NO s' = nErr_OK"
    if "in_session ready ser s" for s
    using device_status_via [OF attached_present [OF assms(1)] that internal_status_ok [OF assms(1)]] assms(5)
    by (auto simp: usable_def)
  obtain s1 where 1: "run_steps linked (find_steps P H ''get_dev_status'') ?x =
      Some (0, found_lines ser ''get_dev_status'' nErr_OK, ?x\<lparr>nov := s1, serial_buf := ser\<rparr>)" "in_session ready ser s1"
    using find_steps_ok [OF attached_present [OF assms(1)] x linked_there st] by blast
  obtain s2 where 2: "get_public_key P H S s1 = Some (Heap (pem @ [0]), s2)" "in_session ready ser s2" "LAST_ERR_NO s2 = nErr_OK"
    using public_pem_ok [OF assms(1) 1(2) assms(3,4,6,8)] by blast
  let ?y = "?x\<lparr>nov := s2, serial_buf := ser\<rparr>"
  have pk: "do_public_key P H S ''get_dev_status'' (?x\<lparr>nov := s1, serial_buf := ser\<rparr>) =
      Some ([Print_text pem, Printf ''ErrNo (get_dev_status): %d'' [nErr_OK]], ?y)"
    using 2 pem_printed [OF assms(9)] by (simp add: do_public_key_def errno_line_def get_err_no_def)
  have y: "in_session ready ser (nov ?y)" "length sig \<le> length (sig_buf ?y)" "128 \<le> length (enc_to ?y)" "5 \<le> length (dec_to ?y)"
    using 2(2) assms(12) by (simp_all add: sample_start_def Let_def)
  have pw: "holds_private key (take 16 sample_pwd) D N" "16 \<le> length sample_pwd" using assms(7) by (simp_all add: sample_pwd_def)
  obtain z where z: "run_steps linked (crypt_steps P H S nid sample_pwd) ?y = Some (0,
      [print_bytes ''data to encrypt: '' sample_data, Printf ''ErrNo (rsa_encrypt): %d'' [nErr_OK], Printf ''tlen is :%d'' [128],
       Printf ''ErrNo (rsa_decrypt): %d'' [nErr_OK], print_bytes ''data : '' sample_data,
       Printf ''ErrNo (get_signature): %d'' [nErr_OK], Printf ''ErrNo (verify_signature): %d'' [nErr_OK]], z)"
    "in_session ready ser (nov z)"
    using crypt_steps_ok [OF assms(1) y(1) assms(3-6) pw assms(10,11) y(2-4) linked_there] by blast
  have "sample_main P H S nid s = Some (0, sample_lines ser pem, z)"
    using 1(1) pk z(1) by (simp add: sample_main_def run_steps_there symbols_thereD(1) [OF linked_there] sample_lines_def)
  then show ?thesis using z(2) by blast
qed

text \<open>For the witness: encryption pads with zeros, decryption returns the first bytes.\<close>

definition example_reverse :: openssl where
  "example_reverse = example_ssl\<lparr>ssl_RSA_crypt := (\<lambda>op flen from key.
     if op = RSA_private_encrypt then (128, from @ replicate (128 - length from) 0) else (5, take 5 from))\<rparr>"

definition sample_key :: "byte \<Rightarrow> byte list \<Rightarrow> byte + byte list" where
  "sample_key kt pwd = example_key kt (if pwd = sample_pwd then example_pwd else pwd)"

definition sample_usb :: usb_env where
  "sample_usb = (example_usb (0, 8))\<lparr>env_control_in := (\<lambda>tr dev w i n. case rev tr of
     CControlOut h w' i' p # rest \<Rightarrow> Some (token_answer example_ser (token_model (0, 8) sample_key) p) | _ \<Rightarrow> None)\<rparr>"

lemma sample_plugged: "plugged example_platform sample_usb example_ser (0, 8) sample_key"
proof -
  have t: "token_bus (example_usb (0, 8)) example_dev example_alt hex_char example_ser (token_model (0, 8) example_key)"
    by (rule example_bus)
  have "may_offer sample_usb = may_offer (example_usb (0, 8))"
    by (intro ext) (simp add: sample_usb_def may_offer_def offers_string_def split: option.splits)
  then have "listed_bus sample_usb example_dev example_alt hex_char example_ser"
    using token_bus_listed [OF t] unfolding listed_bus_def by (simp add: sample_usb_def)
  then have "token_bus sample_usb example_dev example_alt hex_char example_ser (token_model (0, 8) sample_key)"
    using t by (simp add: token_bus_def sample_usb_def)
  then show ?thesis unfolding plugged_def using example_ok(1-3) by blast
qed

lemma sample_key_ok:
  "holds_public sample_key example_E example_N" "holds_private sample_key sample_pwd example_D example_N"
  using example_ok(7) by (auto simp: sample_key_def holds_public_def holds_private_def
      example_key_def example_N_def example_D_def const_simps)

theorem sample_program_ok_witness:
  "\<exists>x. sample_main example_platform (libusb_backend sample_usb) example_reverse 4 example_start =
      Some (0, sample_lines example_ser [65, 66], x)"
proof -
  have S: "openssl_succeeds example_reverse"
    "ssl_PEM_public example_reverse (rsa_value example_E example_N None) = Some [65, 66]"
    "signs example_reverse 4 (rsa_value example_E example_N (Some example_D)) (rsa_value example_E example_N None)
       (ssl_SHA1 example_reverse sample_data) (ssl_SHA1 example_reverse sample_data)"
    "length (ssl_SHA1 example_reverse sample_data) \<le> 1024"
    using example_ok(5) by (simp_all add: example_reverse_def example_ssl_def openssl_succeeds_def signs_def)
  have r: "reverse_pair example_reverse (rsa_value example_E example_N None) (rsa_value example_E example_N (Some example_D)) sample_data"
    by (simp add: reverse_pair_def example_reverse_def sample_data_def)
  from sample_program_ok [OF plugged_attached [OF sample_plugged] example_start_ok(1) example_ok(4) S(1) example_usable
      sample_key_ok S(2) _ r S(3,4)]
  show ?thesis by auto
qed

section \<open>Where the programs go wrong\<close>

lemma refused_packet:
  assumes "refuses H ready" "ready (hid s)" "active_token ser (tk s)"
  shows "\<exists>h. send_packet P H result off rid packet pid s = Some (- nErr_DNF, result, packet, s\<lparr>hid := h\<rparr>)"
proof -
  obtain h1 h2 r h3 where "api_open H VID PID None (hid s) = Some (None, h1)" "api_close H None h1 = Some h2"
    "api_exit H h2 = Some (r, h3)"
    using assms(1,2) unfolding refuses_def by blast
  then show ?thesis using active_token_GET [OF assms(3)] by (auto simp: send_packet_def)
qed

lemma refused_public_key:
  assumes "refuses H ready" "in_session ready ser s"
  shows "\<exists>s'. get_public_key P H S s = Some (Indeterminate, s')"
proof -
  let ?s = "s\<lparr>frames := frames s + 2\<rparr>" and ?r = "local_array P 128 (frames s + 1)" and ?p = "local_array P 128 (frames s)"
  have q: "\<exists>q. public_request KT_Public 0 ?p = Some q" by (simp add: public_request_def wr_def const_simps)
  then obtain q where q: "public_request KT_Public 0 ?p = Some q" by blast
  have i: "ready (hid ?s)" "active_token ser (tk ?s)" using assms(2) by (simp_all add: in_session_def)
  obtain h where h: "send_packet P H ?r 0 ReportID_GetLarge q ReportID_GetRSAKEY ?s = Some (- nErr_DNF, ?r, q, ?s\<lparr>hid := h\<rparr>)"
    using refused_packet [OF assms(1) i] by blast
  have "key_chunks P H public_request KT_Public [0..<8] ?r ?p ?s = Some (nErr_DNF, ?r, q, ?s\<lparr>hid := h\<rparr>)"
    using q h by (simp add: upt_conv_Cons [of 0 8] const_simps)
  then have "novin_get_public_key P H out ex s = Some (nErr_DNF, out, ex, ?s\<lparr>hid := h\<rparr>)" for out ex
    by (simp add: novin_get_public_key_def upt_conv_Cons [of KT_Public] const_simps)
  then show ?thesis by (simp add: get_public_key_def const_simps)
qed

text \<open>
  \<^verbatim>\<open>sample.c\<close> does not look at the errors it prints: when another process holds the token, so that it is listed but cannot be opened,
  \<open>get_public_key\<close> returns a pointer it has never assigned, and the program prints and frees what it points to.
\<close>

theorem sample_busy_token:
  assumes "present P H ready ser" "refuses H ready" "ready (hid s)"
  shows "sample_main P H S nid s = None"
proof -
  let ?x = "sample_start P s"
  have x: "ready (hid (nov ?x))" "serial_buf ?x = [0, 0, 0, 0]"
    using assms(3) by (simp_all add: sample_start_def Let_def)
  have st: "\<exists>s'. get_device_status P H s = Some (nErr_OK, s') \<and> in_session ready ser s' \<and> LAST_ERR_NO s' = nErr_OK"
    if "in_session ready ser s" for s
    using refused_calls(1) [OF assms(1,2) that] by blast
  obtain s1 where 1: "run_steps linked (find_steps P H ''get_dev_status'') ?x =
      Some (0, found_lines ser ''get_dev_status'' nErr_OK, ?x\<lparr>nov := s1, serial_buf := ser\<rparr>)" "in_session ready ser s1"
    using find_steps_ok [OF assms(1) x linked_there st] by blast
  obtain s2 where "get_public_key P H S s1 = Some (Indeterminate, s2)" using refused_public_key [OF assms(2) 1(2)] by blast
  then have "do_public_key P H S ''get_dev_status'' (?x\<lparr>nov := s1, serial_buf := ser\<rparr>) = None"
    by (simp add: do_public_key_def print_and_free_def)
  then show ?thesis using 1(1) by (simp add: sample_main_def run_steps_there symbols_thereD(1) [OF linked_there])
qed

text \<open>A step keeps what holds of the library; one that always fails spoils a run that comes to it.\<close>

definition step_keeps :: "('h nst \<Rightarrow> bool) \<Rightarrow> 'h sample_step \<Rightarrow> bool" where
  "step_keeps I f \<longleftrightarrow> (\<forall>x out y. f x = Some (out, y) \<longrightarrow> I (nov x) \<longrightarrow> I (nov y))"

lemma run_spoiled:
  assumes "symbols_there L" "\<And>y. I (nov y) \<Longrightarrow> f y = None"
  shows "\<forall>(n, g)\<in>set pre. step_keeps I g \<Longrightarrow> I (nov x) \<Longrightarrow> run_steps L (pre @ (name, f) # rest) x = None"
proof (induction pre arbitrary: x)
  case Nil
  then show ?case using assms symbols_thereD(1) [OF assms(1)] by simp
next
  case (Cons a pre)
  obtain n g where a: "a = (n, g)" by force
  have k: "step_keeps I g" using Cons.prems(1) by (simp add: a)
  show ?case
  proof (cases "g x")
    case None
    then show ?thesis using symbols_thereD(1) [OF assms(1)] by (simp add: a)
  next
    case (Some r)
    then obtain out y where r: "g x = Some (out, y)" by (cases r) auto
    then have "I (nov y)" using k Cons.prems(2) unfolding step_keeps_def by blast
    then have "run_steps L (pre @ (name, f) # rest) y = None" using Cons by simp
    then show ?thesis using r symbols_thereD(1) [OF assms(1)] by (simp add: a)
  qed
qed

context hid_backend
begin

lemma sample_step_keeps:
  assumes "\<And>x out y. f x = Some (out, y) \<Longrightarrow> lib_step P H S (nov x) (nov y)"
  shows "step_keeps (\<lambda>s. inv (hid s) \<and> session_ok (tk s)) f"
  using lib_reach_keeps [OF reach_step [OF reach_start assms]] unfolding step_keeps_def by blast

lemma find_steps_keep:
  "\<forall>(n, f)\<in>set (find_steps P H label). step_keeps (\<lambda>s. inv (hid s) \<and> session_ok (tk s)) f"
proof -
  have "step_keeps (\<lambda>s. inv (hid s) \<and> session_ok (tk s)) (do_count H)"
    by (rule sample_step_keeps [where S = undefined]) (auto simp: do_count_def intro: step_count elim!: bind_SomeE)
  moreover have "step_keeps (\<lambda>s. inv (hid s) \<and> session_ok (tk s)) (do_first P H)"
    by (rule sample_step_keeps [where S = undefined]) (auto simp: do_first_def intro: step_first elim!: bind_SomeE)
  moreover have "step_keeps (\<lambda>s. inv (hid s) \<and> session_ok (tk s)) (do_serial P H)"
    by (rule sample_step_keeps [where S = undefined]) (auto simp: do_serial_def intro: step_current elim!: bind_SomeE)
  moreover have "step_keeps (\<lambda>s. inv (hid s) \<and> session_ok (tk s)) (do_select P H)"
    by (rule sample_step_keeps [where S = undefined]) (auto simp: do_select_def intro: step_select elim!: bind_SomeE)
  moreover have "step_keeps (\<lambda>s. inv (hid s) \<and> session_ok (tk s)) (do_status P H label)"
    by (rule sample_step_keeps [where S = undefined]) (auto simp: do_status_def intro: step_status elim!: bind_SomeE)
  ultimately show ?thesis by (simp add: find_steps_def)
qed

lemma public_step_keeps: "step_keeps (\<lambda>s. inv (hid s) \<and> session_ok (tk s)) (do_public_key P H S label)"
  by (rule sample_step_keeps) (auto simp: do_public_key_def intro: step_public elim!: bind_SomeE)

lemma private_step_fails:
  assumes "\<forall>k. rsa_d k = None \<longrightarrow> ssl_PEM_private S k = None" "inv (hid (nov x))"
  shows "do_private_key P H S pwd x = None"
proof (cases "get_private_key P H S pwd (nov x)")
  case (Some r)
  then obtain buff s' where r: "get_private_key P H S pwd (nov x) = Some (buff, s')" by (cases r) auto
  have "kept inv held (nov x) (nov x)" using assms(2) by simp
  from postD [OF hid_call.get_private_key_frame [OF hid_call.intro [OF hid_backend_axioms] this] r]
  have "exported ''/tmp/private.txt'' (ssl_PEM_private S) False (nov x) buff s'" by simp
  then have "buff = Indeterminate" using assms(1) by (auto simp: exported_def pem_outcome_def)
  then show ?thesis using r by (simp add: do_private_key_def print_and_free_def)
qed (simp add: do_private_key_def)

lemma dynamic_sample_fails:
  assumes "\<forall>k. rsa_d k = None \<longrightarrow> ssl_PEM_private S k = None" "inv (hid s)" "session_ok (tk s)" "symbols_there L"
  shows "dynamic_main P H S nid L s = None"
proof -
  let ?I = "\<lambda>s. inv (hid s) \<and> session_ok (tk s)" and ?x = "sample_start P s"
  let ?pre = "(''get_err_no'', \<lambda>x. Some ([], x)) # find_steps P H ''get_device_status'' @
    [(''get_public_key'', do_public_key P H S ''get_public_key'')]"
  have i: "?I (nov ?x)" using assms(2,3) by (simp add: sample_start_def Let_def)
  have "step_keeps ?I (\<lambda>x. Some ([], x))" by (simp add: step_keeps_def)
  then have k: "\<forall>(n, g)\<in>set ?pre. step_keeps ?I g" using find_steps_keep public_step_keeps by auto
  have "run_steps L (?pre @ (''get_private_key'', do_private_key P H S dynamic_pwd) # crypt_steps P H S nid dynamic_pwd) ?x = None"
    by (rule run_spoiled [OF assms(4) _ k i]) (use private_step_fails [OF assms(1)] in blast)
  then show ?thesis using symbols_thereD(2) [OF assms(4)] by (simp add: dynamic_main_def)
qed

end

text \<open>
  \<^verbatim>\<open>dynamic-sample.c\<close> also exports the private key, which cannot succeed (\<open>private_pem_fails\<close>) and returns a pointer that has never been
  assigned: with the library and its functions found the program has no defined outcome, with or without a token, whatever the bus does.
\<close>

theorem dynamic_sample_undefined:
  assumes "\<forall>k. rsa_d k = None \<longrightarrow> ssl_PEM_private S k = None" "lib_start h s" "usb_inv h" "symbols_there L"
  shows "dynamic_main P (libusb_backend E) S nid L s = None"
proof -
  have "session_ok (tk s)" "usb_inv (hid s)" using assms(2,3) session_ok_zero by (simp_all add: lib_start_def)
  then show ?thesis using usb.dynamic_sample_fails [OF assms(1)] assms(4) by blast
qed

theorem dynamic_sample_undefined_witness:
  "dynamic_main example_platform (libusb_backend (example_usb (0, 8))) example_ssl 4 linked example_start = None"
proof -
  have "\<forall>k. rsa_d k = None \<longrightarrow> ssl_PEM_private example_ssl k = None" by (simp add: example_ssl_def)
  from dynamic_sample_undefined [OF this example_start_ok(3) example_start_ok(1) linked_there] show ?thesis .
qed

theorem sample_busy_token_witness:
  "sample_main example_platform (libusb_backend example_busy) example_ssl 4 example_start = None"
proof -
  have l: "listed_bus example_busy example_dev example_alt hex_char example_ser"
    using example_busy_bus by (simp add: busy_bus_def)
  show ?thesis
    by (rule sample_busy_token [OF listed_present [OF l example_ok(1-3)] busy_refuses [OF example_busy_bus] example_start_ok(1)])
qed

end
