(* ===== verification/ServiceSpec.thy ===== *)
theory ServiceSpec
  imports TokenSession
begin

text \<open>
  An abstract specification of the token library: what each public function of \<^verbatim>\<open>novinlib.c\<close> promises an application with one token
  attached, as a machine with three phases. \<open>ServiceProps\<close> shows that the library implements it, over any HIDAPI.
\<close>

section \<open>The specification\<close>

text \<open>No token has been found yet, one has been found, or it has been selected as well.\<close>

datatype phase = Unknown | Found | Selected

text \<open>The token: its serial number and status word, the key it holds, and what it answers to a password.\<close>

record service =
  svc_serial :: "byte list"
  svc_status :: int
  svc_E :: "byte list"
  svc_N :: "byte list"
  svc_private :: "byte list \<Rightarrow> byte + byte list"

datatype lib_call =
    Get_count
  | Get_first
  | Get_current "byte list"
  | Select_device "byte list"
  | Get_serial "byte list"
  | Get_status
  | Encrypt int "byte list" "byte list" "byte list"
  | Decrypt int "byte list" "byte list" "byte list"
  | Sign int "byte list" "byte list" int "byte list"
  | Verify int "byte list" "byte list"
  | Get_public_pem

text \<open>What a call gives back: the value it returns and the arrays it has written.\<close>

datatype reply =
    No_reply
  | Number int
  | Bytes "byte list"
  | Output int "byte list"
  | Signature int "byte list" int
  | Text cstring

definition spec_status :: "service \<Rightarrow> phase \<Rightarrow> int" where
  "spec_status T ph = (case ph of Unknown \<Rightarrow> nErr_DNF | Found \<Rightarrow> nErr_DNS | Selected \<Rightarrow> status_error (svc_status T))"

text \<open>The error code, the length returned and the output array.\<close>

definition spec_rsa ::
    "openssl \<Rightarrow> service \<Rightarrow> rsa_op \<Rightarrow> rsa_op \<Rightarrow> int \<Rightarrow> byte list \<Rightarrow> byte list \<Rightarrow> byte list \<Rightarrow> (int \<times> int \<times> byte list) option" where
  "spec_rsa S T pub priv kt from to pwd =
     (let call = (\<lambda>op d. map_option (\<lambda>(n, to'). (crypt_error n, n, to'))
            (RSA_call S op (int (length from)) from to (rsa_value (svc_E T) (svc_N T) d))) in
      if kt = 1 then call pub None
      else if kt = 2 then
        if length pwd < 16 then None
        else (case svc_private T (take 16 pwd) of Inl e \<Rightarrow> Some (uint e, - 1, to) | Inr D \<Rightarrow> call priv (Some D))
      else Some (nErr_INVKT, - 1, to))"

definition spec_crypt ::
    "openssl \<Rightarrow> service \<Rightarrow> phase \<Rightarrow> rsa_op \<Rightarrow> rsa_op \<Rightarrow> int \<Rightarrow> byte list \<Rightarrow> byte list \<Rightarrow> byte list \<Rightarrow> (int \<times> int \<times> byte list) option" where
  "spec_crypt S T ph pub priv kt from to pwd =
     (let err = spec_status T ph in
      if err \<noteq> nErr_OK then Some (err, - 1, to)
      else if \<not> RSA1024_ENABLED (svc_status T) then Some (nErr_RSANS, - 1, to)
      else spec_rsa S T pub priv kt from to pwd)"

definition spec_sign ::
    "openssl \<Rightarrow> service \<Rightarrow> phase \<Rightarrow> int \<Rightarrow> byte list \<Rightarrow> byte list \<Rightarrow> int \<Rightarrow> byte list \<Rightarrow> (int \<times> byte list \<times> int) option" where
  "spec_sign S T ph ty m sigret siglen pwd =
     (let err = spec_status T ph in
      if err \<noteq> nErr_OK then Some (err, sigret, siglen)
      else if length pwd < 16 then None
      else (case svc_private T (take 16 pwd) of
          Inl e \<Rightarrow> Some (uint e, sigret, siglen)
        | Inr D \<Rightarrow> let (ok, sig) = ssl_RSA_sign S ty (ssl_SHA1 S m) (rsa_value (svc_E T) (svc_N T) (Some D)) in
            if ok = 1 \<and> length sig \<le> length sigret then Some (nErr_OK, sig @ drop (length sig) sigret, int (length sig)) else None))"

definition spec_verify :: "openssl \<Rightarrow> service \<Rightarrow> phase \<Rightarrow> int \<Rightarrow> byte list \<Rightarrow> byte list \<Rightarrow> int" where
  "spec_verify S T ph ty m sig =
     (let err = spec_status T ph in
      if err \<noteq> nErr_OK then err
      else if ssl_RSA_verify S ty (ssl_SHA1 S m) sig (rsa_value (svc_E T) (svc_N T) None) = 1 then nErr_OK else nErr_INSGN)"

text \<open>
  A call: the phase afterwards, what \<open>get_err_no\<close> says, and the reply. \<open>None\<close>: the specification promises nothing, because an argument
  is too short, OpenSSL fails, or the call may not be made in this phase.
\<close>

fun spec_call :: "openssl \<Rightarrow> service \<Rightarrow> phase \<Rightarrow> lib_call \<Rightarrow> (phase \<times> int \<times> reply) option" where
  "spec_call S T ph Get_count = Some (ph, nErr_OK, Number 1)"
| "spec_call S T ph Get_first = Some (Found, nErr_OK, No_reply)"
| "spec_call S T ph (Get_current buf) =
     (if ph = Unknown then Some (ph, nErr_DNF, Bytes buf)
      else if length buf < 4 then None else Some (ph, nErr_OK, Bytes (svc_serial T @ drop 4 buf)))"
| "spec_call S T ph (Select_device ser) =
     (if ph = Unknown then Some (ph, nErr_DNF, No_reply)
      else if length ser < 4 then None
      else if take 4 ser = svc_serial T then Some (Selected, nErr_OK, No_reply) else Some (ph, nErr_DNF, No_reply))"
| "spec_call S T ph (Get_serial buf) =
     (if length buf < 4 then None
      else case ph of
          Unknown \<Rightarrow> Some (ph, nErr_DNF, Bytes ([0, 0, 0, 0] @ drop 4 buf))
        | Found \<Rightarrow> Some (ph, nErr_DNS, Bytes ([0, 0, 0, 0] @ drop 4 buf))
        | Selected \<Rightarrow> Some (ph, nErr_OK, Bytes (svc_serial T @ drop 4 buf)))"
| "spec_call S T ph Get_status = Some (ph, spec_status T ph, Number (spec_status T ph))"
| "spec_call S T ph (Encrypt kt from to pwd) =
     map_option (\<lambda>(e, n, to'). (ph, e, Output n to')) (spec_crypt S T ph RSA_public_encrypt RSA_private_encrypt kt from to pwd)"
| "spec_call S T ph (Decrypt kt from to pwd) =
     map_option (\<lambda>(e, n, to'). (ph, e, Output n to')) (spec_crypt S T ph RSA_public_decrypt RSA_private_decrypt kt from to pwd)"
| "spec_call S T ph (Sign ty m sigret siglen pwd) =
     map_option (\<lambda>(e, sig, n). (ph, e, Signature e sig n)) (spec_sign S T ph ty m sigret siglen pwd)"
| "spec_call S T ph (Verify ty m sig) = Some (ph, spec_verify S T ph ty m sig, Number (spec_verify S T ph ty m sig))"
| "spec_call S T ph Get_public_pem =
     (if ph \<noteq> Selected then None
      else map_option (\<lambda>pem. (ph, nErr_OK, Text (Heap (pem @ [0])))) (ssl_PEM_public S (rsa_value (svc_E T) (svc_N T) None)))"

fun spec_run :: "openssl \<Rightarrow> service \<Rightarrow> phase \<Rightarrow> lib_call list \<Rightarrow> (phase \<times> (int \<times> reply) list) option" where
  "spec_run S T ph [] = Some (ph, [])"
| "spec_run S T ph (c # cs) = do {
     (ph1, e, r) \<leftarrow> spec_call S T ph c;
     (ph2, out) \<leftarrow> spec_run S T ph1 cs;
     Some (ph2, (e, r) # out)
   }"

section \<open>The library\<close>

fun do_call :: "platform \<Rightarrow> 'h hidapi \<Rightarrow> openssl \<Rightarrow> lib_call \<Rightarrow> 'h nst \<Rightarrow> (reply \<times> 'h nst) option" where
  "do_call P H S Get_count s = map_option (\<lambda>(n, s'). (Number n, s')) (get_device_count H s)"
| "do_call P H S Get_first s = map_option (\<lambda>s'. (No_reply, s')) (get_first_device P H s)"
| "do_call P H S (Get_current buf) s = map_option (\<lambda>(b, s'). (Bytes b, s')) (get_curr_dev_serial P H buf s)"
| "do_call P H S (Select_device ser) s = map_option (\<lambda>s'. (No_reply, s')) (select_device P H ser s)"
| "do_call P H S (Get_serial buf) s = map_option (\<lambda>(b, s'). (Bytes b, s')) (get_serial P H buf s)"
| "do_call P H S Get_status s = map_option (\<lambda>(n, s'). (Number n, s')) (get_device_status P H s)"
| "do_call P H S (Encrypt kt from to pwd) s =
     map_option (\<lambda>(n, to', s'). (Output n to', s')) (rsa_encrypt P H S kt (int (length from)) from to pwd s)"
| "do_call P H S (Decrypt kt from to pwd) s =
     map_option (\<lambda>(n, to', s'). (Output n to', s')) (rsa_decrypt P H S kt (int (length from)) from to pwd s)"
| "do_call P H S (Sign ty m sigret siglen pwd) s =
     map_option (\<lambda>(e, sig, n, s'). (Signature e sig n, s')) (get_signature P H S ty m (length m) sigret siglen pwd s)"
| "do_call P H S (Verify ty m sig) s =
     map_option (\<lambda>(e, s'). (Number e, s')) (verify_signature P H S ty m (length m) sig (length sig) s)"
| "do_call P H S Get_public_pem s = map_option (\<lambda>(b, s'). (Text b, s')) (get_public_key P H S s)"

text \<open>A run of calls, with what \<open>get_err_no\<close> says after each.\<close>

fun lib_run :: "platform \<Rightarrow> 'h hidapi \<Rightarrow> openssl \<Rightarrow> lib_call list \<Rightarrow> 'h nst \<Rightarrow> ((int \<times> reply) list \<times> 'h nst) option" where
  "lib_run P H S [] s = Some ([], s)"
| "lib_run P H S (c # cs) s = do {
     (r, s1) \<leftarrow> do_call P H S c s;
     (out, s2) \<leftarrow> lib_run P H S cs s1;
     Some ((get_err_no s1, r) # out, s2)
   }"

section \<open>The relation\<close>

text \<open>\<open>provides\<close>: the token attached to \<open>H\<close> is the one of the specification.\<close>

definition provides :: "platform \<Rightarrow> 'h hidapi \<Rightarrow> ('h \<Rightarrow> bool) \<Rightarrow> service \<Rightarrow> bool" where
  "provides P H ready T \<longleftrightarrow> (\<exists>lo hi key. attached P H ready (svc_serial T) (lo, hi) key \<and>
     svc_status T = uint hi * 256 + uint lo \<and> holds_public key (svc_E T) (svc_N T) \<and>
     svc_private T = key (of_nat KT_Private) \<and>
     (\<forall>pwd. case svc_private T pwd of Inl e \<Rightarrow> e \<noteq> 0 \<and> e \<noteq> 128 | Inr D \<Rightarrow> length D = 128))"

definition in_phase :: "('h \<Rightarrow> bool) \<Rightarrow> byte list \<Rightarrow> phase \<Rightarrow> 'h nst \<Rightarrow> bool" where
  "in_phase ready ser ph s \<longleftrightarrow> ready (hid s) \<and> session_ok (tk s) \<and>
     (case ph of
        Unknown \<Rightarrow> inUse (tk s ! 0) = 0
      | Found \<Rightarrow> active_token ser (tk s) \<and> selected (tk s ! 0) = 0
      | Selected \<Rightarrow> active_token ser (tk s) \<and> selected (tk s ! 0) \<noteq> 0)"

lemma in_phase_updates [simp]:
  "in_phase ready ser ph (set_err e s) = in_phase ready ser ph s"
  "in_phase ready ser ph (tick s) = in_phase ready ser ph s"
  "in_phase ready ser ph (s\<lparr>frames := k\<rparr>) = in_phase ready ser ph s"
  by (cases ph; simp add: in_phase_def)+

text \<open>A call that leaves \<open>tk\<close> alone stays in its phase.\<close>

lemma in_phase_tk:
  "in_phase ready ser ph s \<Longrightarrow> tk s' = tk s \<Longrightarrow> ready (hid s') \<Longrightarrow> in_phase ready ser ph s'"
  by (cases ph) (simp_all add: in_phase_def)

lemma in_phase_ready: "in_phase ready ser ph s \<Longrightarrow> ready (hid s)"
  by (simp add: in_phase_def)

lemma in_phase_session: "in_phase ready ser Selected s \<longleftrightarrow> in_session ready ser s \<and> session_ok (tk s)"
  by (auto simp: in_phase_def in_session_def)

lemma in_phase_active: "in_phase ready ser ph s \<Longrightarrow> ph \<noteq> Unknown \<Longrightarrow> active_token ser (tk s)"
  by (cases ph) (simp_all add: in_phase_def)

lemma selected_quiet: "in_phase ready ser Selected s \<Longrightarrow> in_session ready ser s' \<Longrightarrow> quiet s s' \<Longrightarrow> in_phase ready ser Selected s'"
  by (simp add: in_phase_session quiet_def)

end
