(* ===== verification/ServiceProps.thy ===== *)
theory ServiceProps
  imports ServiceSpec TokenExample
begin

text \<open>The token library implements the service: call by call, then for whole runs.\<close>

section \<open>Finding and selecting\<close>

lemma provides_present: "provides P H ready T \<Longrightarrow> present P H ready (svc_serial T)"
  unfolding provides_def using attached_present by blast

lemma provides_length: "provides P H ready T \<Longrightarrow> length (svc_serial T) = 4"
  using provides_present by (auto simp: present_def)

text \<open>The entry in use, and what \<open>GET_ACTIVE_TOKEN\<close> makes of the phase when nothing lies behind \<open>tk\<close>.\<close>

lemma phase_active:
  assumes "in_phase ready ser ph s" "past_tk P = Some 0"
  shows "GET_ACTIVE_TOKEN (past_tk P) (tk s) = Some (if ph = Unknown then - nErr_DNF else 0)"
proof (cases "ph = Unknown")
  case True
  have so: "session_ok (tk s)" "inUse (tk s ! 0) = 0" using assms(1) True by (simp_all add: in_phase_def)
  have ok: "tk_ok (tk s)" using so(1) by (simp add: session_ok_def)
  have "\<forall>t\<in>set (tk s). inUse t = 0"
    using so by (cases "tk s") (auto simp: session_ok_def list_all_iff)
  then show ?thesis using GET_ACTIVE_TOKEN_none [OF ok] assms(2) True by (simp add: const_simps)
next
  case False
  then show ?thesis using active_token_GET [OF in_phase_active [OF assms(1)]] by simp
qed

lemma phase_entry:
  assumes "in_phase ready ser ph s" "ph \<noteq> Unknown"
  shows "tok_at (tk s) 0 = Some (tk s ! 0)" "serial (tk s ! 0) = ser" "length (tk s) = 8" "inUse (tk s ! 0) \<noteq> 0"
  using active_token_at [OF in_phase_active [OF assms]] in_phase_active [OF assms]
  by (simp_all add: active_token_def tk_ok_length)

lemma scan_selected_miss:
  "list_all (\<lambda>t. selected t = 0) ts \<Longrightarrow> scan_selected ser ts = Some nErr_DNS"
  by (induction ts) auto

lemma phase_selected:
  assumes "in_phase ready ser ph s" "ph \<noteq> Unknown" "length ser = 4"
  shows "check_dev_selected ser s = Some (if ph = Found then nErr_DNS else nErr_OK)"
proof (cases ph)
  case Found
  have so: "session_ok (tk s)" "selected (tk s ! 0) = 0" using assms(1) Found by (simp_all add: in_phase_def)
  then have "\<forall>t\<in>set (tk s). selected t = 0" by (cases "tk s") (auto simp: session_ok_def list_all_iff)
  then have "list_all (\<lambda>t. selected t = 0) (take MAX_TOKEN_SUPPORT (tk s))"
    by (auto simp: list_all_iff dest: in_set_takeD)
  then show ?thesis using scan_selected_miss Found by (simp add: check_dev_selected_def)
next
  case Selected
  have a: "active_token ser (tk s)" "selected (tk s ! 0) \<noteq> 0" using assms(1) Selected by (simp_all add: in_phase_def)
  have "tk s ! 0 \<in> set (take MAX_TOKEN_SUPPORT (tk s))" using phase_entry(3) [OF assms(1,2)] by (simp add: const_simps)
  then show ?thesis
    using scan_selected_hit [of "tk s ! 0"] a assms(3) Selected by (simp add: check_dev_selected_def active_token_def tk_ok_def)
qed (use assms(2) in simp)

lemma count_call:
  assumes "provides P H ready T" "in_phase ready ser ph s"
  shows "\<exists>s'. get_device_count H s = Some (1, s') \<and> in_phase ready ser ph s' \<and> LAST_ERR_NO s' = nErr_OK"
proof -
  obtain hx where "lists H ready (Some (serial_string hx (svc_serial T)))"
    using provides_present [OF assms(1)] unfolding present_def by blast
  then obtain d h1 h2 where "api_enumerate H VID PID (hid s) = Some ([d], h1)" "api_free_enumeration H [d] h1 = Some h2" "ready h2"
    using in_phase_ready [OF assms(2)] unfolding lists_def by blast
  moreover have "in_phase ready ser ph (s\<lparr>hid := h2\<rparr>)" if "ready h2" using in_phase_tk [OF assms(2)] that by simp
  ultimately show ?thesis by (simp add: get_device_count_def)
qed

lemma first_call:
  assumes "provides P H ready T" "in_phase ready (svc_serial T) ph s"
  shows "\<exists>s'. get_first_device P H s = Some s' \<and> in_phase ready (svc_serial T) Found s' \<and> LAST_ERR_NO s' = nErr_OK"
  using first_device_ok [OF provides_present [OF assms(1)] in_phase_ready [OF assms(2)]] by (auto simp: in_phase_def)

lemma connected_phase:
  assumes "provides P H ready T" "in_phase ready (svc_serial T) ph s" "4 \<le> length want"
  shows "\<exists>s'. check_dev_connected P H want s = Some (if take 4 want = svc_serial T then nErr_OK else nErr_DNF, s') \<and>
    in_phase ready (svc_serial T) ph s' \<and> quiet s s'"
proof -
  obtain s' where s': "check_dev_connected P H want s = Some (if take 4 want = svc_serial T then nErr_OK else nErr_DNF, s')"
    "ready (hid s')" "quiet s s'"
    using check_connected_any [OF provides_present [OF assms(1)] in_phase_ready [OF assms(2)] assms(3)] by blast
  then show ?thesis using in_phase_tk [OF assms(2) _ s'(2)] by (simp add: quiet_def)
qed

lemma connected_own:
  assumes "provides P H ready T" "in_phase ready (svc_serial T) ph s"
  shows "\<exists>s'. check_dev_connected P H (svc_serial T) s = Some (nErr_OK, s') \<and>
    in_phase ready (svc_serial T) ph s' \<and> quiet s s'"
  using connected_phase [OF assms, of "svc_serial T"] provides_length [OF assms(1)] by simp

lemma select_call:
  assumes "provides P H ready T" "in_phase ready (svc_serial T) ph s" "past_tk P = Some 0"
    and "spec_call S T ph (Select_device ser) = Some (ph', e, r)"
  shows "\<exists>s'. select_device P H ser s = Some s' \<and> in_phase ready (svc_serial T) ph' s' \<and> LAST_ERR_NO s' = e"
proof (cases "ph = Unknown")
  case True
  then show ?thesis using assms phase_active [OF assms(2,3)] by (simp add: select_device_def const_simps)
next
  case False
  have l: "4 \<le> length ser" using assms(4) False by (simp split: if_splits)
  obtain s1 where s1: "check_dev_connected P H ser s = Some (if take 4 ser = svc_serial T then nErr_OK else nErr_DNF, s1)"
    "in_phase ready (svc_serial T) ph s1" "quiet s s1"
    using connected_phase [OF assms(1,2) l] by blast
  show ?thesis
  proof (cases "take 4 ser = svc_serial T")
    case True
    note e = phase_entry [OF s1(2) False]
    let ?t = "(tk s1)[0 := (tk s1 ! 0)\<lparr>selected := 1\<rparr>]"
    have "tk s1 = tk s" "tk s1 \<noteq> []" using s1(3) e(3) by (auto simp: quiet_def)
    then have "select_device P H ser s = Some (set_err nErr_OK (s1\<lparr>tk := ?t\<rparr>))"
      using phase_active [OF assms(2,3)] False s1(1) True e by (simp add: select_device_def const_simps wr_def)
    moreover have "session_ok ?t" using session_ok_select [of "tk s1" 0] s1(2) e(4) by (simp add: in_phase_def)
    moreover have "active_token (svc_serial T) ?t"
      using calculation(2) e by (simp add: active_token_def session_ok_def)
    ultimately show ?thesis using assms(4) False l True s1(2) e(3) by (auto simp: in_phase_def)
  qed (use assms(4) False l s1(1,2) phase_active [OF assms(2,3)] in \<open>auto simp: select_device_def const_simps\<close>)
qed

lemma current_call:
  assumes "provides P H ready T" "in_phase ready (svc_serial T) ph s" "past_tk P = Some 0"
    and "spec_call S T ph (Get_current buf) = Some (ph', e, r)"
  shows "\<exists>b s'. get_curr_dev_serial P H buf s = Some (b, s') \<and> r = Bytes b \<and> in_phase ready (svc_serial T) ph' s' \<and> LAST_ERR_NO s' = e"
proof (cases "ph = Unknown")
  case True
  then show ?thesis using assms phase_active [OF assms(2,3)] by (simp add: get_curr_dev_serial_def const_simps)
next
  case False
  obtain s1 where s1: "check_dev_connected P H (svc_serial T) s = Some (nErr_OK, s1)" "in_phase ready (svc_serial T) ph s1"
    using connected_own [OF assms(1,2)] by blast
  show ?thesis
    using assms(4) False phase_active [OF assms(2,3)] phase_entry [OF assms(2) False] s1 provides_length [OF assms(1)]
    by (auto simp: get_curr_dev_serial_def const_simps rd_block_def wr_block_def split: if_splits)
qed

lemma serial_call:
  assumes "provides P H ready T" "in_phase ready (svc_serial T) ph s" "past_tk P = Some 0"
    and "spec_call S T ph (Get_serial buf) = Some (ph', e, r)"
  shows "\<exists>b s'. get_serial P H buf s = Some (b, s') \<and> r = Bytes b \<and> in_phase ready (svc_serial T) ph' s' \<and> LAST_ERR_NO s' = e"
proof (cases "ph = Unknown")
  case True
  then show ?thesis using assms phase_active [OF assms(2,3)] by (auto simp: get_serial_def const_simps wr_block_def numeral_eq_Suc split: if_splits)
next
  case False
  obtain s1 where s1: "check_dev_connected P H (svc_serial T) s = Some (nErr_OK, s1)" "in_phase ready (svc_serial T) ph s1"
    using connected_own [OF assms(1,2)] by blast
  note sel = phase_selected [OF s1(2) False provides_length [OF assms(1)]]
  show ?thesis
    using assms(4) False phase_active [OF assms(2,3)] phase_entry [OF assms(2) False] s1 sel provides_length [OF assms(1)]
    by (cases ph) (auto simp: get_serial_def const_simps rd_block_def wr_block_def numeral_eq_Suc split: if_splits)
qed

section \<open>The status\<close>

lemma status_call:
  assumes "provides P H ready T" "in_phase ready (svc_serial T) ph s" "past_tk P = Some 0"
  shows "\<exists>s'. get_device_status P H s = Some (spec_status T ph, s') \<and> in_phase ready (svc_serial T) ph s' \<and>
    LAST_ERR_NO s' = spec_status T ph \<and> quiet s s'"
proof (cases ph)
  case Unknown
  then show ?thesis using assms phase_active [OF assms(2,3)] by (simp add: get_device_status_def const_simps spec_status_def)
next
  case Found
  obtain s1 where s1: "check_dev_connected P H (svc_serial T) s = Some (nErr_OK, s1)" "in_phase ready (svc_serial T) ph s1" "quiet s s1"
    using connected_own [OF assms(1,2)] by blast
  have f: "ph \<noteq> Unknown" using Found by simp
  show ?thesis
    using phase_active [OF assms(2,3)] phase_entry [OF assms(2) f] s1 phase_selected [OF s1(2) f provides_length [OF assms(1)]] Found
    by (simp add: get_device_status_def const_simps spec_status_def)
next
  case Selected
  obtain lo hi key where a: "attached P H ready (svc_serial T) (lo, hi) key" "svc_status T = uint hi * 256 + uint lo"
    using assms(1) unfolding provides_def by blast
  have i: "in_session ready (svc_serial T) s" using assms(2) Selected by (simp add: in_phase_session)
  obtain s' where s': "get_device_status P H s = Some (status_error (svc_status T), s')" "in_session ready (svc_serial T) s'"
    "quiet s s'" "LAST_ERR_NO s' = status_error (svc_status T)"
    using device_status_via [OF attached_present [OF a(1)] i internal_status_ok [OF a(1)]] a(2) by auto
  then show ?thesis using selected_quiet assms(2) Selected by (fastforce simp: spec_status_def)
qed

text \<open>Only a token that has been selected has a status without an error.\<close>

lemma status_ok_selected: "spec_status T ph = nErr_OK \<Longrightarrow> ph = Selected"
  by (cases ph) (simp_all add: spec_status_def const_simps)

section \<open>RSA, signatures and the public key\<close>

lemma provided_token:
  assumes "provides P H ready T"
  obtains lo hi key where "attached P H ready (svc_serial T) (lo, hi) key" "svc_status T = uint hi * 256 + uint lo"
    "holds_public key (svc_E T) (svc_N T)" "svc_private T = key (of_nat KT_Private)"
  using assms unfolding provides_def by blast

lemma provided_private:
  assumes "provides P H ready T" "holds_public key (svc_E T) (svc_N T)" "svc_private T = key (of_nat KT_Private)"
  shows "svc_private T (take 16 pwd) = Inr D \<Longrightarrow> holds_private key (take 16 pwd) D (svc_N T)"
    and "svc_private T (take 16 pwd) = Inl e \<Longrightarrow> e \<noteq> 0 \<and> e \<noteq> 128"
proof -
  have "case svc_private T (take 16 pwd) of Inl e \<Rightarrow> e \<noteq> 0 \<and> e \<noteq> 128 | Inr D \<Rightarrow> length D = 128"
    using assms(1) unfolding provides_def by blast
  then show "svc_private T (take 16 pwd) = Inr D \<Longrightarrow> holds_private key (take 16 pwd) D (svc_N T)"
    "svc_private T (take 16 pwd) = Inl e \<Longrightarrow> e \<noteq> 0 \<and> e \<noteq> 128"
    using assms(2,3) by (simp_all add: holds_public_def holds_private_def)
qed

text \<open>A password the token refuses: its answer is the error of the call.\<close>

lemma rsa_private_refused:
  assumes "attached P H ready ser status key" "in_session ready ser s" "good_stack P" "holds_public key E N"
    and "key (of_nat KT_Private) (take 16 pwd) = Inl e" "e \<noteq> 0" "e \<noteq> 128" "16 \<le> length pwd"
  shows "\<exists>s'. rsa_private_case P H S op flen from to pwd s = Some (uint e, - 1, to, empty_rsa, s') \<and>
    in_session ready ser s' \<and> quiet s s'"
proof -
  have rep: "length (replicate 256 (0::byte)) = 128 + 128" by simp
  obtain a b s1 where g: "novin_get_public_key P H (replicate 256 0) (replicate 256 0) s = Some (nErr_OK, a, b, s1)"
    "in_session ready ser s1" "quiet s s1"
    using session_public_key [OF assms(1-4) rep rep] by blast
  obtain s2 where p: "novin_get_private_key P H (replicate 256 0) b pwd s1 = Some (uint e, replicate 256 0, b, s2)"
    "in_session ready ser s2" "quiet s1 s2"
    using session_private_refused [OF assms(1) g(2) assms(3,5-8)] by blast
  have "uint e \<noteq> nErr_OK" using assms(6) by (simp add: const_simps unsigned_eq_0_iff)
  then have "rsa_private_case P H S op flen from to pwd s = Some (uint e, - 1, to, empty_rsa, s2)"
    unfolding rsa_private_case_def g(1) bind.bind_lunit prod.case p(1) by simp
  then show ?thesis using p(2) quiet_trans [OF g(3) p(3)] by blast
qed

lemma session_rsa:
  assumes "provides P H ready T" "in_session ready (svc_serial T) s" "good_stack P" "openssl_succeeds S"
    and "status_error (svc_status T) = nErr_OK" "RSA1024_ENABLED (svc_status T)"
    and "spec_rsa S T po qo kt from to pwd = Some (err, n, to')"
  shows "\<exists>s'. rsa_crypt P H S po qo kt (int (length from)) from to pwd s = Some (n, to', s') \<and>
    in_session ready (svc_serial T) s' \<and> quiet s s' \<and> LAST_ERR_NO s' = err"
proof -
  obtain lo hi key where t: "attached P H ready (svc_serial T) (lo, hi) key" "svc_status T = uint hi * 256 + uint lo"
    "holds_public key (svc_E T) (svc_N T)" "svc_private T = key (of_nat KT_Private)"
    using provided_token [OF assms(1)] by blast
  have u: "usable (uint hi * 256 + uint lo)" using assms(5,6) t(2) by (simp add: usable_def)
  consider (pub) "kt = 1" | (refused) e where "kt = 2" "16 \<le> length pwd" "svc_private T (take 16 pwd) = Inl e"
    | (priv) D where "kt = 2" "16 \<le> length pwd" "svc_private T (take 16 pwd) = Inr D"
    | (other) "kt \<noteq> 1" "kt \<noteq> 2"
    using assms(7) by (cases "svc_private T (take 16 pwd)") (force simp: spec_rsa_def Let_def split: if_splits)+
  then show ?thesis
  proof cases
    case pub
    then show ?thesis
      using assms(7) rsa_public_ok [OF t(1) assms(2,3,4) u t(3)] by (auto simp: spec_rsa_def Let_def)
  next
    case priv
    then show ?thesis
      using assms(7) rsa_private_ok [OF t(1) assms(2,3,4) u t(3) provided_private(1) [OF assms(1) t(3,4)]]
      by (auto simp: spec_rsa_def Let_def)
  next
    case refused
    note e = provided_private(2) [OF assms(1) t(3,4) refused(3)]
    have k: "key (of_nat KT_Private) (take 16 pwd) = Inl e" using refused(3) t(4) by simp
    have r: "err = uint e" "n = - 1" "to' = to"
      using assms(7) refused by (simp_all add: spec_rsa_def)
    show ?thesis unfolding r
    proof (rule rsa_crypt_ok [OF t(1) assms(2,4) u])
      fix s assume "in_session ready (svc_serial T) s"
      from rsa_private_refused [OF t(1) this assms(3) t(3) k _ _ refused(2)] e
      show "\<exists>s'. rsa_switch P H S po qo kt (int (length from)) from to pwd s = Some (uint e, - 1, to, empty_rsa, s') \<and>
          in_session ready (svc_serial T) s' \<and> quiet s (RSA_free empty_rsa s')"
        using refused(1) by (fastforce simp: rsa_switch_def quiet_def)
    qed
  next
    case other
    have r: "err = nErr_INVKT" "n = - 1" "to' = to" using assms(7) other by (simp_all add: spec_rsa_def)
    show ?thesis unfolding r
    proof (rule rsa_crypt_ok [OF t(1) assms(2,4) u])
      fix s assume "in_session ready (svc_serial T) s"
      then show "\<exists>s'. rsa_switch P H S po qo kt (int (length from)) from to pwd s = Some (nErr_INVKT, - 1, to, empty_rsa, s') \<and>
          in_session ready (svc_serial T) s' \<and> quiet s (RSA_free empty_rsa s')"
        using other by (auto simp: rsa_switch_def quiet_def)
    qed
  qed
qed

lemma crypt_call:
  assumes "provides P H ready T" "in_phase ready (svc_serial T) ph s" "past_tk P = Some 0" "good_stack P" "openssl_succeeds S"
    and "spec_crypt S T ph po qo kt from to pwd = Some (err, n, to')"
  shows "\<exists>s'. rsa_crypt P H S po qo kt (int (length from)) from to pwd s = Some (n, to', s') \<and>
    in_phase ready (svc_serial T) ph s' \<and> LAST_ERR_NO s' = err"
proof (cases "spec_status T ph = nErr_OK")
  case False
  obtain s1 where "get_device_status P H s = Some (spec_status T ph, s1)" "in_phase ready (svc_serial T) ph s1"
    using status_call [OF assms(1-3)] by blast
  then show ?thesis using False assms(6) by (auto simp: rsa_crypt_def spec_crypt_def Let_def)
next
  case True
  then have ph: "ph = Selected" by (rule status_ok_selected)
  have st: "status_error (svc_status T) = nErr_OK" using True ph by (simp add: spec_status_def)
  have i: "in_session ready (svc_serial T) s" using assms(2) ph by (simp add: in_phase_session)
  show ?thesis
  proof (cases "RSA1024_ENABLED (svc_status T)")
    case rsa: True
    then show ?thesis
      using session_rsa [OF assms(1) i assms(4,5) st rsa] assms(2,6) True ph selected_quiet
      by (fastforce simp: spec_crypt_def)
  next
    case False
    obtain lo hi key where t: "attached P H ready (svc_serial T) (lo, hi) key" "svc_status T = uint hi * 256 + uint lo"
      using provided_token [OF assms(1)] by blast
    obtain s1 where d: "get_device_status P H s = Some (nErr_OK, s1)" "in_phase ready (svc_serial T) Selected s1"
      using status_call [OF assms(1-3)] True ph by auto
    obtain s2 where g: "get_dev_status_internal P H s1 = Some (svc_status T, s2)" "in_session ready (svc_serial T) s2" "quiet s1 s2"
      using internal_status_ok [OF t(1)] t(2) d(2) by (auto simp: in_phase_session)
    have nn: "\<not> svc_status T < 0" using t(2) byte_int_bounds [of hi] byte_int_bounds [of lo] by linarith
    show ?thesis
      using d(1) g(1) nn False assms(6) True ph selected_quiet [OF d(2) g(2,3)] by (auto simp: rsa_crypt_def spec_crypt_def)
  qed
qed

lemma in_session_quiet_lost:
  "in_phase ready ser Selected s \<Longrightarrow> in_session ready ser s' \<Longrightarrow> quiet s (lost k s') \<Longrightarrow> in_phase ready ser Selected s'"
  by (simp add: in_phase_session quiet_def lost_def)

lemma sign_call:
  assumes "provides P H ready T" "in_phase ready (svc_serial T) ph s" "past_tk P = Some 0" "good_stack P" "openssl_succeeds S"
    and "spec_sign S T ph ty m sigret siglen pwd = Some (err, sig, n)"
  shows "\<exists>s'. get_signature P H S ty m (length m) sigret siglen pwd s = Some (err, sig, n, s') \<and>
    in_phase ready (svc_serial T) ph s' \<and> LAST_ERR_NO s' = err"
proof -
  let ?s = "s\<lparr>frames := frames s + 4\<rparr>"
  have p4: "in_phase ready (svc_serial T) ph ?s" using assms(2) by simp
  obtain s1 where d: "get_device_status P H ?s = Some (spec_status T ph, s1)" "in_phase ready (svc_serial T) ph s1"
    using status_call [OF assms(1) p4 assms(3)] by blast
  show ?thesis
  proof (cases "spec_status T ph = nErr_OK")
    case False
    then show ?thesis using d assms(6) by (auto simp: get_signature_def spec_sign_def Let_def)
  next
    case True
    then have ph: "ph = Selected" by (rule status_ok_selected)
    have st: "status_error (svc_status T) = nErr_OK" using True ph by (simp add: spec_status_def)
    have i: "in_session ready (svc_serial T) s" "in_session ready (svc_serial T) s1"
      using assms(2) d(2) ph by (simp_all add: in_phase_session)
    obtain lo hi key where t: "attached P H ready (svc_serial T) (lo, hi) key" "svc_status T = uint hi * 256 + uint lo"
      "holds_public key (svc_E T) (svc_N T)" "svc_private T = key (of_nat KT_Private)"
      using provided_token [OF assms(1)] by blast
    have l: "16 \<le> length pwd" using assms(6) True by (simp add: spec_sign_def Let_def split: if_splits)
    show ?thesis
    proof (cases "svc_private T (take 16 pwd)")
      case (Inr D)
      obtain sg where sg: "ssl_RSA_sign S ty (ssl_SHA1 S m) (rsa_value (svc_E T) (svc_N T) (Some D)) = (1, sg)"
        "length sg \<le> length sigret" "err = nErr_OK" "sig = sg @ drop (length sg) sigret" "n = int (length sg)"
        using assms(6) True l Inr by (auto simp: spec_sign_def Let_def split: prod.splits if_splits)
      have "\<exists>s'. get_signature P H S ty m (length m) sigret siglen pwd s =
          Some (nErr_OK, sg @ drop (length sg) sigret, int (length sg), s') \<and>
        in_session ready (svc_serial T) s' \<and> quiet s (lost 3 s') \<and> LAST_ERR_NO s' = nErr_OK"
        by (rule sign_ok [OF t(1) i(1) assms(4,5) _ t(3) provided_private(1) [OF assms(1) t(3,4) Inr] l])
          (use sg st t(2) in simp_all)
      then show ?thesis using sg(3-5) assms(2) ph in_session_quiet_lost by blast
    next
      case (Inl e)
      have k: "key (of_nat KT_Private) (take 16 pwd) = Inl e" using Inl t(4) by simp
      note e = provided_private(2) [OF assms(1) t(3,4) Inl]
      have ne: "uint e \<noteq> nErr_OK" using e by (simp add: const_simps unsigned_eq_0_iff)
      obtain a b s2 where g: "novin_get_public_key P H (local_array P 128 (frames s)) (local_array P 128 (frames s + 2)) s1 = Some (nErr_OK, a, b, s2)"
        "in_session ready (svc_serial T) s2" "quiet s1 s2"
        using session_public_key [OF t(1) i(2) assms(4) t(3) local_array_pad local_array_pad] by blast
      obtain s3 where p: "novin_get_private_key P H (local_array P 128 (frames s + 1)) b pwd s2 =
          Some (uint e, local_array P 128 (frames s + 1), b, s3)" "in_session ready (svc_serial T) s3" "quiet s2 s3"
        using session_private_refused [OF t(1) g(2) assms(4) k _ _ l] e by blast
      have "get_signature P H S ty m (length m) sigret siglen pwd s = Some (uint e, sigret, siglen, set_err (uint e) s3)"
        unfolding get_signature_def Let_def d(1) True bind.bind_lunit prod.case g(1) p(1) using ne by simp
      moreover have "in_phase ready (svc_serial T) Selected s3"
        using selected_quiet [of ready "svc_serial T" s1 s3] d(2) ph p(2) quiet_trans [OF g(3) p(3)] by simp
      ultimately show ?thesis using assms(6) True l Inl ph by (simp add: spec_sign_def)
    qed
  qed
qed

lemma verify_call:
  assumes "provides P H ready T" "in_phase ready (svc_serial T) ph s" "past_tk P = Some 0" "good_stack P" "openssl_succeeds S"
  shows "\<exists>s'. verify_signature P H S ty m (length m) sig (length sig) s = Some (spec_verify S T ph ty m sig, s') \<and>
    in_phase ready (svc_serial T) ph s' \<and> LAST_ERR_NO s' = spec_verify S T ph ty m sig"
proof (cases "spec_status T ph = nErr_OK")
  case False
  have "in_phase ready (svc_serial T) ph (s\<lparr>frames := frames s + 3\<rparr>)" using assms(2) by simp
  then show ?thesis
    using status_call [OF assms(1) _ assms(3)] False by (fastforce simp: verify_signature_def spec_verify_def Let_def)
next
  case True
  then have ph: "ph = Selected" by (rule status_ok_selected)
  have st: "status_error (svc_status T) = nErr_OK" using True ph by (simp add: spec_status_def)
  have i: "in_session ready (svc_serial T) s" using assms(2) ph by (simp add: in_phase_session)
  obtain lo hi key where t: "attached P H ready (svc_serial T) (lo, hi) key" "svc_status T = uint hi * 256 + uint lo"
    "holds_public key (svc_E T) (svc_N T)" using provided_token [OF assms(1)] by blast
  obtain s' where "verify_signature P H S ty m (length m) sig (length sig) s = Some (spec_verify S T ph ty m sig, s')"
    "in_session ready (svc_serial T) s'" "quiet s s'" "LAST_ERR_NO s' = spec_verify S T ph ty m sig"
    using verify_ok [OF t(1) i assms(4,5) _ t(3), of "length m" m "length sig" sig ty] st t(2) True
    by (auto simp: spec_verify_def)
  then show ?thesis using selected_quiet assms(2) ph by blast
qed

lemma pem_call:
  assumes "provides P H ready T" "in_phase ready (svc_serial T) Selected s" "good_stack P" "openssl_succeeds S"
    and "ssl_PEM_public S (rsa_value (svc_E T) (svc_N T) None) = Some pem"
  shows "\<exists>s'. get_public_key P H S s = Some (Heap (pem @ [0]), s') \<and> in_phase ready (svc_serial T) Selected s' \<and>
    LAST_ERR_NO s' = nErr_OK"
proof -
  obtain lo hi key where t: "attached P H ready (svc_serial T) (lo, hi) key" "holds_public key (svc_E T) (svc_N T)"
    using provided_token [OF assms(1)] by blast
  have i: "in_session ready (svc_serial T) s" "session_ok (tk s)" using assms(2) by (simp_all add: in_phase_session)
  show ?thesis
    using public_pem_ok [OF t(1) i(1) assms(3,4) t(2) assms(5)] i(2) by (fastforce simp: in_phase_session quiet_def)
qed

section \<open>The refinement\<close>

lemma call_implements:
  assumes "provides P H ready T" "past_tk P = Some 0" "good_stack P" "openssl_succeeds S"
    and "in_phase ready (svc_serial T) ph s" "spec_call S T ph c = Some (ph', e, r)"
  shows "\<exists>s'. do_call P H S c s = Some (r, s') \<and> in_phase ready (svc_serial T) ph' s' \<and> get_err_no s' = e"
proof (cases c)
  case Get_count
  then show ?thesis using count_call [OF assms(1,5)] assms(6) by (auto simp: get_err_no_def)
next
  case Get_first
  then show ?thesis using first_call [OF assms(1,5)] assms(6) by (auto simp: get_err_no_def)
next
  case (Get_current buf)
  then show ?thesis using current_call [OF assms(1,5,2)] assms(6) by (fastforce simp: get_err_no_def)
next
  case (Select_device ser)
  have "r = No_reply" using assms(6) Select_device by (simp split: if_splits)
  then show ?thesis using select_call [OF assms(1,5,2)] assms(6) Select_device by (fastforce simp: get_err_no_def)
next
  case (Get_serial buf)
  then show ?thesis using serial_call [OF assms(1,5,2)] assms(6) by (fastforce simp: get_err_no_def)
next
  case Get_status
  then show ?thesis using status_call [OF assms(1,5,2)] assms(6) by (auto simp: get_err_no_def)
next
  case (Encrypt kt "from" to pwd)
  then show ?thesis
    using crypt_call [OF assms(1,5,2,3,4)] assms(6) by (fastforce simp: get_err_no_def rsa_encrypt_def)
next
  case (Decrypt kt "from" to pwd)
  then show ?thesis
    using crypt_call [OF assms(1,5,2,3,4)] assms(6) by (fastforce simp: get_err_no_def rsa_decrypt_def)
next
  case (Sign ty m sigret siglen pwd)
  then show ?thesis using sign_call [OF assms(1,5,2,3,4)] assms(6) by (fastforce simp: get_err_no_def)
next
  case (Verify ty m sig)
  then show ?thesis using verify_call [OF assms(1,5,2,3,4)] assms(6) by (auto simp: get_err_no_def)
next
  case Get_public_pem
  then show ?thesis
    using pem_call [OF assms(1) _ assms(3,4)] assms(5,6) by (fastforce simp: get_err_no_def split: if_splits)
qed

lemma run_implements:
  assumes "provides P H ready T" "past_tk P = Some 0" "good_stack P" "openssl_succeeds S"
  shows "in_phase ready (svc_serial T) ph s \<Longrightarrow> spec_run S T ph cs = Some (ph', out) \<Longrightarrow>
    \<exists>s'. lib_run P H S cs s = Some (out, s') \<and> in_phase ready (svc_serial T) ph' s'"
proof (induction cs arbitrary: ph s out)
  case (Cons c cs)
  obtain ph1 e r out' where c: "spec_call S T ph c = Some (ph1, e, r)" "spec_run S T ph1 cs = Some (ph', out')"
    "out = (e, r) # out'"
    using Cons.prems(2) by (auto simp: bind_Some_iff)
  obtain s1 where s1: "do_call P H S c s = Some (r, s1)" "in_phase ready (svc_serial T) ph1 s1" "get_err_no s1 = e"
    using call_implements [OF assms Cons.prems(1) c(1)] by blast
  obtain s2 where "lib_run P H S cs s1 = Some (out', s2)" "in_phase ready (svc_serial T) ph' s2"
    using Cons.IH [OF s1(2) c(2)] by blast
  then show ?case using s1 c(3) by simp
qed simp

text \<open>The service of a token that answers with this status word and these keys. A password is answered by the private exponent or by an error.\<close>

definition service_of :: "byte list \<Rightarrow> byte \<times> byte \<Rightarrow> (byte \<Rightarrow> byte list \<Rightarrow> byte + byte list) \<Rightarrow> byte list \<Rightarrow> byte list \<Rightarrow> service" where
  "service_of ser status key E N = \<lparr>svc_serial = ser, svc_status = uint (snd status) * 256 + uint (fst status),
     svc_E = E, svc_N = N, svc_private = key (of_nat KT_Private)\<rparr>"

definition answers_passwords :: "(byte \<Rightarrow> byte list \<Rightarrow> byte + byte list) \<Rightarrow> bool" where
  "answers_passwords key \<longleftrightarrow>
     (\<forall>pwd. case key (of_nat KT_Private) pwd of Inl e \<Rightarrow> e \<noteq> 0 \<and> e \<noteq> 128 | Inr D \<Rightarrow> length D = 128)"

lemma attached_provides:
  assumes "attached P H ready ser status key" "holds_public key E N" "answers_passwords key"
  shows "provides P H ready (service_of ser status key E N)"
proof -
  obtain lo hi where "status = (lo, hi)" by (cases status)
  then show ?thesis using assms unfolding provides_def service_of_def answers_passwords_def by auto
qed

text \<open>
  C3. The token library implements the service. With a token attached, over any HIDAPI that carries its packets, every sequence of
  calls the specification has a result for returns in the code, with the same error codes, lengths and arrays after each call, and
  leaves the library in the phase the specification names: whatever the order of the calls, and with wrong passwords, wrong serial
  numbers, blocked tokens and unknown key types among them.
\<close>

theorem library_implements_service:
  assumes "attached P H ready ser status key" "holds_public key E N" "answers_passwords key"
    and "past_tk P = Some 0" "good_stack P" "openssl_succeeds S"
    and "in_phase ready ser ph s" "spec_run S (service_of ser status key E N) ph cs = Some (ph', out)"
  shows "\<exists>s'. lib_run P H S cs s = Some (out, s') \<and> in_phase ready ser ph' s'"
  using run_implements [OF attached_provides [OF assms(1-3)] assms(4-6) _ assms(8)] assms(7)
  by (simp add: service_of_def)

definition example_flat :: platform where
  "example_flat = example_platform\<lparr>past_tk := Some 0\<rparr>"

lemma example_flat_ok:
  "attached example_flat (libusb_backend (example_usb status)) usb_inv example_ser status example_key"
  "past_tk example_flat = Some 0" "good_stack example_flat" "answers_passwords example_key" "in_phase usb_inv example_ser Unknown example_start"
proof -
  have "plugged example_flat (example_usb status) example_ser status example_key"
    using example_plugged by (simp add: plugged_def example_flat_def)
  then show "attached example_flat (libusb_backend (example_usb status)) usb_inv example_ser status example_key"
    by (rule plugged_attached)
  show "in_phase usb_inv example_ser Unknown example_start"
    using example_start_ok(1) session_ok_zero
    by (simp add: in_phase_def example_start_def) (simp add: zero_tk_def zero_token_def const_simps)
qed (use example_ok(4) in \<open>simp_all add: example_flat_def good_stack_def answers_passwords_def example_key_def example_D_def const_simps\<close>)

theorem library_implements_service_witness:
  "\<exists>s'. lib_run example_flat (libusb_backend (example_usb (0, 8))) example_ssl
      [Get_status, Select_device example_ser, Get_first, Get_serial [9, 9, 9, 9], Select_device [1, 2, 3, 4], Select_device example_ser,
       Get_serial [9, 9, 9, 9], Encrypt 1 [72, 105] [0, 0, 0] [], Decrypt 2 [72] [0] (replicate 16 0), Encrypt 3 [] [] [], Get_public_pem]
      example_start = Some
      ([(nErr_DNF, Number nErr_DNF), (nErr_DNF, No_reply), (nErr_OK, No_reply), (nErr_DNS, Bytes [0, 0, 0, 0]), (nErr_DNF, No_reply),
        (nErr_OK, No_reply), (nErr_OK, Bytes example_ser), (nErr_OK, Output 2 [72, 105, 0]), (5, Output (- 1) [0]),
        (nErr_INVKT, Output (- 1) []), (nErr_OK, Text (Heap [65, 66, 0]))], s') \<and>
    in_phase usb_inv example_ser Selected s'"
proof (rule library_implements_service [OF example_flat_ok(1) example_ok(7) example_flat_ok(4) example_flat_ok(2,3) example_ok(5) example_flat_ok(5)])
  have "status_error 2048 = nErr_OK" "RSA1024_ENABLED 2048" by code_simp+
  then show "spec_run example_ssl (service_of example_ser (0, 8) example_key example_E example_N) Unknown
      [Get_status, Select_device example_ser, Get_first, Get_serial [9, 9, 9, 9], Select_device [1, 2, 3, 4], Select_device example_ser,
       Get_serial [9, 9, 9, 9], Encrypt 1 [72, 105] [0, 0, 0] [], Decrypt 2 [72] [0] (replicate 16 0), Encrypt 3 [] [] [], Get_public_pem] =
    Some (Selected, [(nErr_DNF, Number nErr_DNF), (nErr_DNF, No_reply), (nErr_OK, No_reply), (nErr_DNS, Bytes [0, 0, 0, 0]), (nErr_DNF, No_reply),
        (nErr_OK, No_reply), (nErr_OK, Bytes example_ser), (nErr_OK, Output 2 [72, 105, 0]), (5, Output (- 1) [0]),
        (nErr_INVKT, Output (- 1) []), (nErr_OK, Text (Heap [65, 66, 0]))])"
    by (simp add: service_of_def spec_status_def spec_crypt_def spec_rsa_def RSA_call_def rd_block_def wr_block_def example_ssl_def
      example_key_def crypt_error_def example_pwd_def example_ser_def const_simps)
qed

end
