(* ===== verification/StdMap.thy ===== *)
theory StdMap
  imports Prelude "HOL-Library.List_Lexorder" "HOL-Library.Char_ord"
begin

text \<open>
  \<open>std::map\<close> with strings as keys: an association list in the order of the keys, which is the order an iteration visits them in.
  \<open>map_of\<close> is the look-up. \<^verbatim>\<open>char_traits\<close> compares characters as unsigned numbers, as the order on \<open>char\<close> does.
\<close>

type_synonym 'v smap = "(string \<times> 'v) list"

definition smap_ok :: "'v smap \<Rightarrow> bool" where
  "smap_ok m \<longleftrightarrow> sorted_wrt (<) (map fst m)"

text \<open>\<open>m[k] = v\<close>.\<close>

fun smap_set :: "string \<Rightarrow> 'v \<Rightarrow> 'v smap \<Rightarrow> 'v smap" where
  "smap_set k v [] = [(k, v)]"
| "smap_set k v ((k', v') # m) =
     (if k' < k then (k', v') # smap_set k v m
      else if k' = k then (k, v) # m
      else (k, v) # (k', v') # m)"

text \<open>\<open>m.erase(k)\<close>.\<close>

definition smap_erase :: "string \<Rightarrow> 'v smap \<Rightarrow> 'v smap" where
  "smap_erase k m = filter (\<lambda>(k', v). k' \<noteq> k) m"

lemma smap_set_lookup [simp]: "map_of (smap_set k v m) = (map_of m)(k \<mapsto> v)"
  by (induction m rule: smap_set.induct) (auto simp: fun_eq_iff)

lemma smap_erase_lookup [simp]: "map_of (smap_erase k m) = (map_of m)(k := None)"
  by (induction m) (auto simp: smap_erase_def fun_eq_iff)

lemma smap_set_keys: "fst ` set (smap_set k v m) = insert k (fst ` set m)"
  by (induction k v m rule: smap_set.induct) auto

lemma smap_empty_ok [simp]: "smap_ok []"
  by (simp add: smap_ok_def)

lemma smap_set_ok [intro]: "smap_ok m \<Longrightarrow> smap_ok (smap_set k v m)"
proof (induction k v m rule: smap_set.induct)
  case (2 k v k' v' m)
  have keys: "\<forall>x \<in> set (map fst m). k' < x" using "2.prems" by (simp add: smap_ok_def)
  consider "k' < k" | "k' = k" | "k < k'" by fastforce
  then show ?case
  proof cases
    case 1
    have "\<forall>x \<in> fst ` set (smap_set k v m). k' < x" using keys 1 by (simp add: smap_set_keys)
    then show ?thesis using 2 1 by (simp add: smap_ok_def)
  next
    case 3
    then show ?thesis using "2.prems" keys by (auto simp: smap_ok_def intro: less_trans)
  qed (use "2.prems" in \<open>simp add: smap_ok_def\<close>)
qed (simp add: smap_ok_def)

lemma smap_erase_ok [intro]: "smap_ok m \<Longrightarrow> smap_ok (smap_erase k m)"
  by (induction m) (auto simp: smap_ok_def smap_erase_def)

lemma smap_ok_distinct: "smap_ok m \<Longrightarrow> distinct (map fst m)"
  unfolding smap_ok_def by (simp add: strict_sorted_iff)

lemma smap_in: "map_of m k = Some v \<Longrightarrow> k \<in> fst ` set m"
  by (metis domI dom_map_of_conv_image_fst)

end
