(* ===== verification/Variant.thy ===== *)
theory Variant
  imports Prelude
begin

text \<open>
  \<^verbatim>\<open>FB::variant\<close> (\<^verbatim>\<open>ScriptingCore/variant.h\<close>): the values that pass between a script and the plugin, and the conversions
  the plugin's methods need, to \<open>int\<close> and to \<open>std::string\<close>. Numbers are printed and read as the streams of the standard library
  do it in the C locale.
\<close>

section \<open>Doubles\<close>

text \<open>A finite double is \<open>\<plusminus>m * 2^e\<close>.\<close>

datatype dbl = Finite bool nat int | Infinite bool | Nan bool

text \<open>The magnitude as a fraction.\<close>

definition frac :: "nat \<Rightarrow> int \<Rightarrow> nat \<times> nat" where
  "frac m e = (if 0 \<le> e then (m * 2 ^ nat e, 1) else (m, 2 ^ nat (- e)))"

lemma frac_pos: "0 < snd (frac m e)"
  by (simp add: frac_def)

section \<open>Values\<close>

text \<open>
  The objects of the plugin a script can get hold of: the scriptable object itself, its method objects by name and security zone,
  and the three functions every wrapper adds to its object. Objects of the browser are numbered.
\<close>

datatype obj = Root | Method_object string int | Add_listener obj | Remove_listener obj | Last_exception obj

datatype np_object = Browser_object nat | Plugin_object obj

datatype variant =
    V_empty
  | V_null
  | V_bool bool
  | V_int int
  | V_double dbl
  | V_string "byte list"
  | V_object np_object
  | V_api obj

datatype vtype = T_void | T_null | T_bool | T_int | T_double | T_string | T_object | T_api

fun get_type :: "variant \<Rightarrow> vtype" where
  "get_type V_empty = T_void"
| "get_type V_null = T_null"
| "get_type (V_bool b) = T_bool"
| "get_type (V_int i) = T_int"
| "get_type (V_double d) = T_double"
| "get_type (V_string s) = T_string"
| "get_type (V_object n) = T_object"
| "get_type (V_api r) = T_api"

section \<open>Numbers as text\<close>

abbreviation digit :: "nat \<Rightarrow> byte" where
  "digit k \<equiv> 48 + of_nat k"

function digits :: "nat \<Rightarrow> byte list" where
  "digits n = (if n < 10 then [digit n] else digits (n div 10) @ [digit (n mod 10)])"
  by auto
termination by (relation "measure id") auto

declare digits.simps [simp del]

definition int_text :: "int \<Rightarrow> byte list" where
  "int_text i = (if i < 0 then [45] else []) @ digits (nat \<bar>i\<bar>)"

text \<open>
  \<open>ostream << double\<close> is \<^verbatim>\<open>%g\<close>: six significant digits, rounded to even, the fixed form for exponents from -4 to 5, without
  zeros at the end. \<open>exponent n d\<close> is the decimal exponent of \<open>n/d\<close>.
\<close>

function leading_zeros :: "nat \<Rightarrow> nat \<Rightarrow> nat" where
  "leading_zeros n d = (if n = 0 \<or> d \<le> n then 0 else Suc (leading_zeros (10 * n) d))"
  by auto
termination by (relation "measure (\<lambda>(n, d). d - n)") auto

declare leading_zeros.simps [simp del]

definition exponent :: "nat \<Rightarrow> nat \<Rightarrow> int" where
  "exponent n d = (if d \<le> n then int (length (digits (n div d))) - 1 else - int (leading_zeros n d))"

definition round_even :: "nat \<Rightarrow> nat \<Rightarrow> nat" where
  "round_even n d = (let q = n div d; r = n mod d in
     if 2 * r < d \<or> 2 * r = d \<and> even q then q else Suc q)"

definition six_digits :: "nat \<Rightarrow> nat \<Rightarrow> nat \<times> int" where
  "six_digits n d =
     (let x = exponent n d;
          q = (if x \<le> 5 then round_even (n * 10 ^ nat (5 - x)) d else round_even n (d * 10 ^ nat (x - 5))) in
      if q = 10 ^ 6 then (10 ^ 5, x + 1) else (q, x))"

definition trim_zeros :: "byte list \<Rightarrow> byte list" where
  "trim_zeros ds = rev (dropWhile (\<lambda>b. b = 48) (rev ds))"

definition with_point :: "byte list \<Rightarrow> byte list \<Rightarrow> byte list" where
  "with_point a b = (let t = trim_zeros b in if t = [] then a else a @ [46] @ t)"

definition magnitude_text :: "nat \<Rightarrow> nat \<Rightarrow> byte list" where
  "magnitude_text n d =
     (if n = 0 then [48]
      else let (q, x) = six_digits n d; ds = digits q in
        if 0 \<le> x \<and> x < 6 then with_point (take (nat x + 1) ds) (drop (nat x + 1) ds)
        else if - 4 \<le> x \<and> x < 0 then with_point [48] (replicate (nat (- x - 1)) 48 @ ds)
        else with_point (take 1 ds) (drop 1 ds) @ [101, if x < 0 then 45 else 43] @
          (if \<bar>x\<bar> < 10 then [48] else []) @ digits (nat \<bar>x\<bar>))"

definition double_text :: "dbl \<Rightarrow> byte list" where
  "double_text v = (case v of
     Finite s m e \<Rightarrow> (if s then [45] else []) @ (let (n, d) = frac m e in magnitude_text n d)
   | Infinite s \<Rightarrow> (if s then [45] else []) @ [105, 110, 102]
   | Nan s \<Rightarrow> (if s then [45] else []) @ [110, 97, 110])"

text \<open>\<open>istream >> int\<close>: spaces, a sign, digits as far as they go; no digits or a number out of range is a failure.\<close>

definition is_space :: "byte \<Rightarrow> bool" where
  "is_space b \<longleftrightarrow> b = 32 \<or> 9 \<le> b \<and> b \<le> 13"

definition is_digit :: "byte \<Rightarrow> bool" where
  "is_digit b \<longleftrightarrow> 48 \<le> b \<and> b \<le> 57"

definition digits_value :: "byte list \<Rightarrow> nat" where
  "digits_value ds = fold (\<lambda>b n. 10 * n + (unat b - 48)) ds 0"

definition in_int :: "int \<Rightarrow> bool" where
  "in_int i \<longleftrightarrow> - (2 ^ 31) \<le> i \<and> i < 2 ^ 31"

definition parse_int :: "byte list \<Rightarrow> int option" where
  "parse_int text =
     (let t = dropWhile is_space text;
          neg = (case t of b # _ \<Rightarrow> b = 45 | [] \<Rightarrow> False);
          u = (case t of b # bs \<Rightarrow> if b = 45 \<or> b = 43 then bs else t | [] \<Rightarrow> []);
          ds = takeWhile is_digit u;
          i = (if neg then - int (digits_value ds) else int (digits_value ds)) in
      if ds = [] \<or> \<not> in_int i then None else Some i)"

section \<open>Conversions\<close>

text \<open>\<open>bad_variant_cast\<close> names the types; \<open>None\<close> is undefined behaviour.\<close>

definition convert_string :: "variant \<Rightarrow> vtype \<times> vtype + byte list" where
  "convert_string v = (case v of
     V_string s \<Rightarrow> Inr s
   | V_double d \<Rightarrow> Inr (double_text d)
   | V_int i \<Rightarrow> Inr (int_text i)
   | V_bool b \<Rightarrow> Inr (if b then [116, 114, 117, 101] else [102, 97, 108, 115, 101])
   | _ \<Rightarrow> Inl (get_type v, T_string))"

text \<open>
  \<open>boost::numeric_cast<int>(double)\<close>: the range is checked by two comparisons, which a NaN passes; the conversion by
  \<open>static_cast\<close> is then undefined. \<open>k\<close> and \<open>d\<close> are the value as a fraction.
\<close>

definition LE_PrevLoT :: "int \<Rightarrow> nat \<Rightarrow> bool" where
  "LE_PrevLoT k d \<longleftrightarrow> k \<le> (- (2 ^ 31) - 1) * int d"

definition GE_SuccHiT :: "int \<Rightarrow> nat \<Rightarrow> bool" where
  "GE_SuccHiT k d \<longleftrightarrow> (2 ^ 31 - 1 + 1) * int d \<le> k"

definition numeric_cast_int :: "dbl \<Rightarrow> (unit + int) option" where
  "numeric_cast_int v = (case v of
     Nan s \<Rightarrow> None
   | Infinite s \<Rightarrow> Some (Inl ())
   | Finite s m e \<Rightarrow>
       (let (n, d) = frac m e; k = (if s then - int n else int n) in
        if LE_PrevLoT k d \<or> GE_SuccHiT k d then Some (Inl ())
        else Some (Inr (if s then - int (n div d) else int (n div d)))))"

definition convert_int :: "variant \<Rightarrow> (vtype \<times> vtype + int) option" where
  "convert_int v = (case v of
     V_int i \<Rightarrow> Some (Inr i)
   | V_double d \<Rightarrow> map_option (\<lambda>r. case r of Inl _ \<Rightarrow> Inl (T_double, T_int) | Inr i \<Rightarrow> Inr i) (numeric_cast_int d)
   | V_bool b \<Rightarrow> Some (Inr (if b then 1 else 0))
   | V_string s \<Rightarrow> Some (case parse_int s of None \<Rightarrow> Inl (T_string, T_int) | Some i \<Rightarrow> Inr i)
   | _ \<Rightarrow> Some (Inl (get_type v, T_int)))"

end
