(* ===== verification/JsApi.thy ===== *)
theory JsApi
  imports StdMap Variant
begin

text \<open>
  \<^verbatim>\<open>FB::JSAPIAuto\<close> and its base \<^verbatim>\<open>JSAPIImpl\<close> (\<^verbatim>\<open>ScriptingCore/JSAPIAuto.cpp\<close>, \<^verbatim>\<open>JSAPIImpl.cpp\<close>): an object whose
  methods and properties are registered by name, each with a security zone, and which a script may give further attributes.
  A class derived from it extends the record \<open>jsapi\<close>. An operation returns an exception or a value, and the state; \<open>None\<close> is undefined behaviour.
\<close>

section \<open>Exceptions\<close>

datatype arg_error =
    Invalid_Arguments
  | Bad_Cast
  | Could_not_convert vtype vtype
  | Invalid_conversion vtype vtype "nat option"
  | Not_optional nat
  | Too_many nat

datatype exn =
    Script_error string
  | Invalid_arguments arg_error
  | Object_invalidated
  | Invalid_member string
  | Bad_variant_cast vtype vtype

definition chars :: "byte list \<Rightarrow> string" where
  "chars bs = map (\<lambda>b. char_of (unat b)) bs"

definition bytes :: "string \<Rightarrow> byte list" where
  "bytes s = map of_char s"

abbreviation number :: "nat \<Rightarrow> string" where
  "number n \<equiv> chars (digits n)"

text \<open>\<open>what()\<close>; the names of types are those of \<open>type_info\<close>, which the compiler chooses.\<close>

fun arg_error_text :: "(vtype \<Rightarrow> string) \<Rightarrow> arg_error \<Rightarrow> string" where
  "arg_error_text tn Invalid_Arguments = ''Invalid Arguments''"
| "arg_error_text tn Bad_Cast = ''bad cast''"
| "arg_error_text tn (Could_not_convert f t) = ''Could not convert from '' @ tn f @ '' to '' @ tn t"
| "arg_error_text tn (Invalid_conversion f t i) = ''Invalid argument conversion from '' @ tn f @ '' to '' @ tn t @
     (case i of None \<Rightarrow> [] | Some k \<Rightarrow> '' at index '' @ number k)"
| "arg_error_text tn (Not_optional i) = ''Error: Argument '' @ number i @ ''is not optional.''"
| "arg_error_text tn (Too_many n) = ''Too many arguments, expected '' @ number n @ ''.''"

fun what :: "(vtype \<Rightarrow> string) \<Rightarrow> exn \<Rightarrow> string" where
  "what tn (Script_error s) = s"
| "what tn (Invalid_arguments e) = arg_error_text tn e"
| "what tn Object_invalidated = ''This object is no longer valid''"
| "what tn (Invalid_member n) = ''The specified member does not exist: '' @ n"
| "what tn (Bad_variant_cast f t) = ''bad cast''"

type_synonym ('s, 'a) js = "'s \<Rightarrow> ((exn + 'a) \<times> 's) option"

definition throw :: "exn \<Rightarrow> ('s, 'a) js" where
  "throw e s = Some (Inl e, s)"

definition give :: "'a \<Rightarrow> ('s, 'a) js" where
  "give v s = Some (Inr v, s)"

lemmas js_simps = throw_def give_def

section \<open>The object\<close>

text \<open>The member functions that are registered, here and by the plugin.\<close>

datatype meth =
    M_toString | M_getAttribute | M_setAttribute
  | M_echo | M_testEvent | M_GetToken | M_GetDeviceCount | M_GetPublicKey
  | M_RsaEncrypt | M_RsaDecrypt | M_GetSignature | M_VerifySignature

datatype getset = P_value | P_valid | P_testString | P_version | P_serial | P_TkErr

text \<open>
  The stack of zones is the default zone and what has been pushed on it. An attribute is a value and whether it is read-only;
  \<open>m_eventMap\<close> holds the listeners by event, all from one browser context.
\<close>

record jsapi =
  m_valid :: bool
  m_defaultZone :: int
  m_pushedZones :: "int list"
  m_methodFunctorMap :: "meth smap"
  m_propertyFunctorsMap :: "getset smap"
  m_zoneMap :: "int smap"
  m_description :: string
  m_attributes :: "(variant \<times> bool) smap"
  m_reservedMembers :: "string list"
  m_allowDynamicAttributes :: bool
  m_allowRemoveProperties :: bool
  m_allowMethodObjects :: bool
  m_methodObjectMap :: "(string \<times> int) list"
  m_eventMap :: "(string \<times> np_object) list"

definition getZone :: "'z jsapi_scheme \<Rightarrow> int" where
  "getZone a = last (m_defaultZone a # m_pushedZones a)"

definition pushZone :: "int \<Rightarrow> 'z jsapi_scheme \<Rightarrow> 'z jsapi_scheme" where
  "pushZone z a = a\<lparr>m_pushedZones := m_pushedZones a @ [z]\<rparr>"

definition popZone :: "'z jsapi_scheme \<Rightarrow> 'z jsapi_scheme" where
  "popZone a = a\<lparr>m_pushedZones := butlast (m_pushedZones a)\<rparr>"

definition memberAccessible :: "string \<Rightarrow> 'z jsapi_scheme \<Rightarrow> bool" where
  "memberAccessible name a = (case map_of (m_zoneMap a) name of None \<Rightarrow> False | Some z \<Rightarrow> z \<le> getZone a)"

definition invalidate :: "'z jsapi_scheme \<Rightarrow> 'z jsapi_scheme" where
  "invalidate a = a\<lparr>m_valid := False\<rparr>"

section \<open>Registration\<close>

definition registerMethod :: "string \<Rightarrow> meth \<Rightarrow> 'z jsapi_scheme \<Rightarrow> 'z jsapi_scheme" where
  "registerMethod name f a = a\<lparr>m_methodFunctorMap := smap_set name f (m_methodFunctorMap a),
     m_zoneMap := smap_set name (getZone a) (m_zoneMap a)\<rparr>"

definition unregisterMethod :: "string \<Rightarrow> 'z jsapi_scheme \<Rightarrow> 'z jsapi_scheme" where
  "unregisterMethod name a = (if map_of (m_methodFunctorMap a) name = None then a
     else a\<lparr>m_methodFunctorMap := smap_erase name (m_methodFunctorMap a), m_zoneMap := smap_erase name (m_zoneMap a)\<rparr>)"

definition registerProperty :: "string \<Rightarrow> getset \<Rightarrow> 'z jsapi_scheme \<Rightarrow> 'z jsapi_scheme" where
  "registerProperty name f a = a\<lparr>m_propertyFunctorsMap := smap_set name f (m_propertyFunctorsMap a),
     m_zoneMap := smap_set name (getZone a) (m_zoneMap a)\<rparr>"

definition unregisterProperty :: "string \<Rightarrow> 'z jsapi_scheme \<Rightarrow> 'z jsapi_scheme" where
  "unregisterProperty name a = (if map_of (m_propertyFunctorsMap a) name = None then a
     else a\<lparr>m_propertyFunctorsMap := smap_erase name (m_propertyFunctorsMap a), m_zoneMap := smap_erase name (m_zoneMap a)\<rparr>)"

definition registerAttribute :: "string \<Rightarrow> variant \<Rightarrow> bool \<Rightarrow> 'z jsapi_scheme \<Rightarrow> 'z jsapi_scheme" where
  "registerAttribute name v ro a = a\<lparr>m_attributes := smap_set name (v, ro) (m_attributes a),
     m_zoneMap := smap_set name (getZone a) (m_zoneMap a)\<rparr>"

definition unregisterAttribute :: "string \<Rightarrow> ('z jsapi_scheme, unit) js" where
  "unregisterAttribute name a = (case map_of (m_attributes a) name of
     None \<Rightarrow> give () a
   | Some (v, ro) \<Rightarrow>
       if ro then throw (Script_error (''Cannot remove read-only property '' @ name)) a
       else give () (a\<lparr>m_attributes := smap_erase name (m_attributes a), m_zoneMap := smap_erase name (m_zoneMap a)\<rparr>))"

definition setReserved :: "string \<Rightarrow> 'z jsapi_scheme \<Rightarrow> 'z jsapi_scheme" where
  "setReserved name a = a\<lparr>m_reservedMembers := List.insert name (m_reservedMembers a)\<rparr>"

definition isReserved :: "string \<Rightarrow> 'z jsapi_scheme \<Rightarrow> bool" where
  "isReserved name a \<longleftrightarrow> name \<in> set (m_reservedMembers a)"

definition reserved_names :: "string list" where
  "reserved_names = [''offsetWidth'', ''offsetHeight'', ''width'', ''height'', ''attributes'', ''nodeType'', ''namespaceURI'',
     ''localName'', ''wrappedJSObject'', ''prototype'', ''style'', ''id'', ''constructor'']"

text \<open>The constructors: the fields, then \<open>init\<close>, which registers in the public zone.\<close>

definition SecurityScope_Public :: int where "SecurityScope_Public = 0"

definition init :: "'z jsapi_scheme \<Rightarrow> 'z jsapi_scheme" where
  "init a = (let a1 = pushZone SecurityScope_Public a;
       a2 = registerMethod ''setAttribute'' M_setAttribute (registerMethod ''getAttribute'' M_getAttribute
         (registerMethod ''toString'' M_toString a1));
       a3 = registerProperty ''valid'' P_valid (registerProperty ''value'' P_value a2)
     in fold setReserved reserved_names (popZone a3))"

definition blank :: "int \<Rightarrow> string \<Rightarrow> jsapi" where
  "blank zone description =
    \<lparr>m_valid = True, m_defaultZone = zone, m_pushedZones = [], m_methodFunctorMap = [], m_propertyFunctorsMap = [],
     m_zoneMap = [], m_description = description, m_attributes = [], m_reservedMembers = [], m_allowDynamicAttributes = True,
     m_allowRemoveProperties = False, m_allowMethodObjects = True, m_methodObjectMap = [], m_eventMap = []\<rparr>"

section \<open>Members\<close>

definition getMemberNames :: "'z jsapi_scheme \<Rightarrow> string list" where
  "getMemberNames a = map fst (filter (\<lambda>(name, z). z \<le> getZone a) (m_zoneMap a))"

definition getMemberCount :: "'z jsapi_scheme \<Rightarrow> nat" where
  "getMemberCount a = length (filter (\<lambda>(name, z). z \<le> getZone a) (m_zoneMap a))"

definition HasMethod :: "string \<Rightarrow> 'z jsapi_scheme \<Rightarrow> bool" where
  "HasMethod name a \<longleftrightarrow> m_valid a \<and> map_of (m_methodFunctorMap a) name \<noteq> None \<and> memberAccessible name a"

definition HasMethodObject :: "string \<Rightarrow> 'z jsapi_scheme \<Rightarrow> bool" where
  "HasMethodObject name a \<longleftrightarrow> m_allowMethodObjects a \<and> HasMethod name a"

text \<open>\<open>HasMethod\<close> and \<open>HasMethodObject\<close> are virtual: \<open>hm\<close> and \<open>hmo\<close> are those of the class of the object.\<close>

definition HasProperty :: "(string \<Rightarrow> 'z jsapi_scheme \<Rightarrow> bool) \<Rightarrow> string \<Rightarrow> 'z jsapi_scheme \<Rightarrow> bool" where
  "HasProperty hm name a \<longleftrightarrow> m_valid a \<and>
     (m_allowDynamicAttributes a \<and> \<not> hm name a \<and> \<not> isReserved name a \<or>
      m_allowMethodObjects a \<and> hm name a \<and> memberAccessible name a \<or>
      map_of (m_propertyFunctorsMap a) name \<noteq> None \<or> map_of (m_attributes a) name \<noteq> None)"

definition index_name :: "int \<Rightarrow> string" where
  "index_name i = chars (int_text i)"

definition HasProperty_index :: "int \<Rightarrow> 'z jsapi_scheme \<Rightarrow> bool" where
  "HasProperty_index i a \<longleftrightarrow> m_valid a \<and> (m_allowDynamicAttributes a \<or> map_of (m_attributes a) (index_name i) \<noteq> None)"

definition GetMethodObject :: "(string \<Rightarrow> 'z jsapi_scheme \<Rightarrow> bool) \<Rightarrow> string \<Rightarrow> ('z jsapi_scheme, variant) js" where
  "GetMethodObject hm name a =
     (if \<not> m_valid a then throw Object_invalidated a
      else if memberAccessible name a \<and> hm name a then
        give (V_api (Method_object name (getZone a))) (a\<lparr>m_methodObjectMap := List.insert (name, getZone a) (m_methodObjectMap a)\<rparr>)
      else throw (Invalid_member name) a)"

text \<open>\<open>getp\<close> and \<open>setp\<close> call the functors registered for a property.\<close>

definition GetProperty ::
    "(string \<Rightarrow> 'z jsapi_scheme \<Rightarrow> bool) \<Rightarrow> (string \<Rightarrow> 'z jsapi_scheme \<Rightarrow> bool) \<Rightarrow> (getset \<Rightarrow> ('z jsapi_scheme, variant) js) \<Rightarrow>
      string \<Rightarrow> ('z jsapi_scheme, variant) js" where
  "GetProperty hm hmo getp name a =
     (if \<not> m_valid a then throw Object_invalidated a
      else case map_of (m_propertyFunctorsMap a) name of
        Some p \<Rightarrow>
          if memberAccessible name a then getp p a
          else if m_allowDynamicAttributes a then give V_empty a else throw (Invalid_member name) a
      | None \<Rightarrow>
          if memberAccessible name a then
            if hmo name a then GetMethodObject hm name a
            else (case map_of (m_attributes a) name of
                Some (v, ro) \<Rightarrow> give v a
              | None \<Rightarrow> if m_allowDynamicAttributes a then give V_empty a else throw (Invalid_member name) a)
          else if m_allowDynamicAttributes a then give V_empty a else throw (Invalid_member name) a)"

definition catch_cast :: "((exn + 'a) \<times> 's) option \<Rightarrow> ((exn + 'a) \<times> 's) option" where
  "catch_cast r = (case r of
     Some (Inl (Bad_variant_cast f t), s) \<Rightarrow> Some (Inl (Invalid_arguments (Could_not_convert f t)), s)
   | _ \<Rightarrow> r)"

definition writable :: "string \<Rightarrow> 'z jsapi_scheme \<Rightarrow> bool" where
  "writable name a = (case map_of (m_attributes a) name of None \<Rightarrow> False | Some (v, ro) \<Rightarrow> \<not> ro)"

definition SetProperty ::
    "(getset \<Rightarrow> variant \<Rightarrow> ('z jsapi_scheme, unit) js) \<Rightarrow> string \<Rightarrow> variant \<Rightarrow> ('z jsapi_scheme, unit) js" where
  "SetProperty setp name v a =
     (if \<not> m_valid a then throw Object_invalidated a
      else case map_of (m_propertyFunctorsMap a) name of
        Some p \<Rightarrow> if memberAccessible name a then catch_cast (setp p v a) else throw (Invalid_member name) a
      | None \<Rightarrow>
          if m_allowDynamicAttributes a \<or> writable name a then give () (registerAttribute name v False a)
          else throw (Invalid_member name) a)"

definition RemoveProperty :: "string \<Rightarrow> ('z jsapi_scheme, unit) js" where
  "RemoveProperty name a =
     (if \<not> m_valid a then throw Object_invalidated a
      else if \<not> memberAccessible name a then throw (Invalid_member name) a
      else if m_allowRemoveProperties a \<and> map_of (m_propertyFunctorsMap a) name \<noteq> None then give () (unregisterProperty name a)
      else if m_allowDynamicAttributes a \<and> writable name a then unregisterAttribute name a
      else give () a)"

definition GetProperty_index :: "int \<Rightarrow> ('z jsapi_scheme, variant) js" where
  "GetProperty_index i a =
     (if \<not> m_valid a then throw Object_invalidated a
      else case map_of (m_attributes a) (index_name i) of
        Some (v, ro) \<Rightarrow>
          if memberAccessible (index_name i) a then give v a
          else if m_allowDynamicAttributes a then give V_empty a else throw (Invalid_member (index_name i)) a
      | None \<Rightarrow> if m_allowDynamicAttributes a then give V_empty a else throw (Invalid_member (index_name i)) a)"

definition SetProperty_index :: "int \<Rightarrow> variant \<Rightarrow> ('z jsapi_scheme, unit) js" where
  "SetProperty_index i v a =
     (if \<not> m_valid a then throw Object_invalidated a
      else if m_allowDynamicAttributes a \<or> writable (index_name i) a then give () (registerAttribute (index_name i) v False a)
      else throw (Invalid_member (index_name i)) a)"

definition RemoveProperty_index :: "int \<Rightarrow> ('z jsapi_scheme, unit) js" where
  "RemoveProperty_index i a =
     (if \<not> m_valid a then throw Object_invalidated a
      else if m_allowDynamicAttributes a \<and> writable (index_name i) a then unregisterAttribute (index_name i) a
      else throw (Invalid_member (index_name i)) a)"

text \<open>\<open>callf\<close> calls the functor registered for a method.\<close>

definition Invoke ::
    "(meth \<Rightarrow> variant list \<Rightarrow> ('z jsapi_scheme, variant) js) \<Rightarrow> string \<Rightarrow> variant list \<Rightarrow> ('z jsapi_scheme, variant) js" where
  "Invoke callf name args a =
     (if \<not> m_valid a then throw Object_invalidated a
      else if memberAccessible name a then
        (case map_of (m_methodFunctorMap a) name of
           None \<Rightarrow> throw (Invalid_member name) a
         | Some f \<Rightarrow> catch_cast (callf f args a))
      else throw (Invalid_member name) a)"

definition Construct :: "variant list \<Rightarrow> ('z jsapi_scheme, variant) js" where
  "Construct args a = throw (if \<not> m_valid a then Object_invalidated else Invalid_member ''constructor'') a"

definition getAttribute :: "string \<Rightarrow> 'z jsapi_scheme \<Rightarrow> variant" where
  "getAttribute name a = (case map_of (m_attributes a) name of None \<Rightarrow> V_empty | Some (v, ro) \<Rightarrow> v)"

definition setAttribute :: "string \<Rightarrow> variant \<Rightarrow> ('z jsapi_scheme, unit) js" where
  "setAttribute name v a =
     (if map_of (m_attributes a) name = None \<or> writable name a then
        give () (a\<lparr>m_attributes := smap_set name (v, False) (m_attributes a), m_zoneMap := smap_set name (getZone a) (m_zoneMap a)\<rparr>)
      else throw (Script_error (''Cannot set read-only property '' @ name)) a)"

section \<open>Events\<close>

text \<open>A listener is registered once for an event; \<open>None\<close> is a null pointer.\<close>

definition registerEventMethod :: "string \<Rightarrow> np_object option \<Rightarrow> ('z jsapi_scheme, unit) js" where
  "registerEventMethod name ev a = (case ev of
     None \<Rightarrow> throw (Invalid_arguments Invalid_Arguments) a
   | Some l \<Rightarrow>
       if (name, l) \<in> set (m_eventMap a) then give () a
       else give () (a\<lparr>m_eventMap := m_eventMap a @ [(name, l)]\<rparr>))"

definition unregisterEventMethod :: "string \<Rightarrow> np_object option \<Rightarrow> ('z jsapi_scheme, unit) js" where
  "unregisterEventMethod name ev a = (case ev of
     None \<Rightarrow> throw (Invalid_arguments Invalid_Arguments) a
   | Some l \<Rightarrow> give () (a\<lparr>m_eventMap := remove1 (name, l) (m_eventMap a)\<rparr>))"

text \<open>
  The listeners the browser is asked to call: those registered, in the order of registration, then an attribute of the event's name if
  it is an object. Listeners of the browser are valid, and no interfaces are registered.
\<close>

definition fireAsyncEvent_impl :: "string \<Rightarrow> 'z jsapi_scheme \<Rightarrow> np_object list" where
  "fireAsyncEvent_impl name a = map snd (filter (\<lambda>(n, l). n = name) (m_eventMap a))"

definition fireAsyncEvent :: "string \<Rightarrow> 'z jsapi_scheme \<Rightarrow> np_object list" where
  "fireAsyncEvent name a = fireAsyncEvent_impl name a @ (case getAttribute name a of V_object l \<Rightarrow> [l] | _ \<Rightarrow> [])"

definition FireEvent :: "string \<Rightarrow> 'z jsapi_scheme \<Rightarrow> np_object list" where
  "FireEvent name a = (if \<not> m_valid a then [] else fireAsyncEvent name a)"

end
