(* ===== verification/FumScript.thy ===== *)
theory FumScript
  imports JsApi FumPlugin
begin

text \<open>
  The scriptable object of the plugin as a \<open>JSAPIAuto\<close>: what the constructor of \<^verbatim>\<open>fumPluginAPI\<close> registers, how the arguments of a
  script are converted for a method (\<^verbatim>\<open>MethodConverter.h\<close>, \<^verbatim>\<open>ConverterUtils.h\<close>, \<^verbatim>\<open>PropertyConverter.h\<close>), and the method objects
  (\<^verbatim>\<open>JSFunction.cpp\<close>).
\<close>

section \<open>The object\<close>

text \<open>\<open>queued\<close> are the calls of listeners the browser has been asked for.\<close>

record 'h fum_api = jsapi +
  page :: "'h plugin"
  queued :: "(np_object \<times> variant list) list"

text \<open>
  What the methods depend on: the token library's surroundings, the version string of the build, the order in which the
  compiler evaluates \<open>n\<close> arguments, which C++ leaves open, and what the browser answers when an array is read.
\<close>

record 'h script_env =
  e_platform :: platform
  e_hidapi :: "'h hidapi"
  e_ssl :: openssl
  e_heap_pad :: nat
  e_version :: "byte list"
  e_order :: "nat \<Rightarrow> nat list"
  e_array :: "np_object \<Rightarrow> exn + variant list"
  e_type_name :: "vtype \<Rightarrow> string"

definition plugin_methods :: "(string \<times> meth) list" where
  "plugin_methods = [(''echo'', M_echo), (''testEvent'', M_testEvent), (''GetToken'', M_GetToken), (''GetDeviceCount'', M_GetDeviceCount),
     (''GetPublicKey'', M_GetPublicKey), (''RsaEncrypt'', M_RsaEncrypt), (''RsaDecrypt'', M_RsaDecrypt), (''GetSignature'', M_GetSignature),
     (''VerifySignature'', M_VerifySignature)]"

definition plugin_properties :: "(string \<times> getset) list" where
  "plugin_properties = [(''testString'', P_testString), (''version'', P_version), (''serial'', P_serial), (''TkErr'', P_TkErr)]"

definition new_api :: "loader \<Rightarrow> byte list \<Rightarrow> int \<Rightarrow> 'h nst \<Rightarrow> 'h fum_api" where
  "new_api L ser n s =
     fold (\<lambda>(name, f). registerProperty name f) plugin_properties
       (fold (\<lambda>(name, f). registerMethod name f) plugin_methods
         (jsapi.extend (init (blank SecurityScope_Public ''<JSAPI-Auto Javascript Object>''))
           (fum_api.fields (new_plugin L ser n s) [])))"

section \<open>Arguments\<close>

datatype ptype = A_int | A_string | A_variant

definition bad_argument :: "vtype \<times> vtype \<Rightarrow> nat option \<Rightarrow> exn" where
  "bad_argument ft i = Invalid_arguments (Invalid_conversion (fst ft) (snd ft) i)"

text \<open>\<open>converter<To, variant>::convert\<close>; \<open>None\<close> is undefined behaviour.\<close>

fun convert_value :: "ptype \<Rightarrow> variant \<Rightarrow> nat option \<Rightarrow> (exn + variant) option" where
  "convert_value A_int v i = map_option (\<lambda>r. case r of Inl ft \<Rightarrow> Inl (bad_argument ft i) | Inr k \<Rightarrow> Inr (V_int k)) (convert_int v)"
| "convert_value A_string v i = Some (case convert_string v of Inl ft \<Rightarrow> Inl (bad_argument ft i) | Inr s \<Rightarrow> Inr (V_string s))"
| "convert_value A_variant v i = Some (Inr v)"

text \<open>Arguments are counted from 1.\<close>

definition convertArgumentSoft :: "ptype \<Rightarrow> variant list \<Rightarrow> nat \<Rightarrow> (exn + variant) option" where
  "convertArgumentSoft ty args index =
     (if index \<le> length args then convert_value ty (args ! (index - 1)) (Some index)
      else if ty = A_variant then Some (Inr V_empty)
      else Some (Inl (Invalid_arguments (Not_optional index))))"

definition convertLastArgument :: "ptype \<Rightarrow> variant list \<Rightarrow> nat \<Rightarrow> (exn + variant) option" where
  "convertLastArgument ty args n =
     (if n < length args then Some (Inl (Invalid_arguments (Too_many n))) else convertArgumentSoft ty args n)"

definition convert_arg :: "ptype list \<Rightarrow> variant list \<Rightarrow> nat \<Rightarrow> (exn + variant) option" where
  "convert_arg tys args i =
     (if Suc i = length tys then convertLastArgument (tys ! i) args (Suc i) else convertArgumentSoft (tys ! i) args (Suc i))"

text \<open>The arguments are converted in the given order; the first exception ends the call. \<open>vs\<close> are the values so far.\<close>

fun eval_args :: "(nat \<Rightarrow> (exn + variant) option) \<Rightarrow> nat list \<Rightarrow> variant list \<Rightarrow> (exn + variant list) option" where
  "eval_args conv [] vs = Some (Inr vs)"
| "eval_args conv (i # is) vs = do {
     r \<leftarrow> conv i;
     case r of Inl e \<Rightarrow> Some (Inl e) | Inr v \<Rightarrow> eval_args conv is (vs[i := v])
   }"

definition method_wrapper ::
    "(nat \<Rightarrow> nat list) \<Rightarrow> ptype list \<Rightarrow> (variant list \<Rightarrow> ('s, variant) js) \<Rightarrow> variant list \<Rightarrow> ('s, variant) js" where
  "method_wrapper order tys f args s = do {
     let n = length tys;
     r \<leftarrow> eval_args (convert_arg tys args) (order n) (replicate n V_empty);
     case r of Inl e \<Rightarrow> throw e s | Inr vs \<Rightarrow> f vs s
   }"

fun params :: "meth \<Rightarrow> ptype list" where
  "params M_toString = []"
| "params M_getAttribute = [A_string]"
| "params M_setAttribute = [A_string, A_variant]"
| "params M_echo = [A_variant]"
| "params M_testEvent = []"
| "params M_GetToken = []"
| "params M_GetDeviceCount = []"
| "params M_GetPublicKey = []"
| "params M_RsaEncrypt = [A_int, A_string, A_string]"
| "params M_RsaDecrypt = [A_int, A_string, A_string]"
| "params M_GetSignature = [A_int, A_string, A_string]"
| "params M_VerifySignature = [A_int, A_string, A_string]"

section \<open>The methods\<close>

text \<open>
  \<open>vs\<close> are the converted arguments, as many as the method has parameters and of their types. First the methods of \<open>JSAPIAuto\<close> itself.
\<close>

definition no_result :: "((exn + unit) \<times> 's) option \<Rightarrow> ((exn + variant) \<times> 's) option" where
  "no_result r = map_option (\<lambda>(x, s). (case x of Inl e \<Rightarrow> Inl e | Inr u \<Rightarrow> Inr V_empty, s)) r"

definition string_arg :: "variant \<Rightarrow> byte list" where
  "string_arg v = (case v of V_string s \<Rightarrow> s | _ \<Rightarrow> [])"

definition int_arg :: "variant \<Rightarrow> int" where
  "int_arg v = (case v of V_int i \<Rightarrow> i | _ \<Rightarrow> 0)"

lemma arg_simps [simp]: "string_arg (V_string s) = s" "int_arg (V_int i) = i"
  by (simp_all add: string_arg_def int_arg_def)

definition base_apply :: "meth \<Rightarrow> variant list \<Rightarrow> ('z jsapi_scheme, variant) js" where
  "base_apply m vs a = (case m of
     M_toString \<Rightarrow> give (V_string (bytes (m_description a))) a
   | M_getAttribute \<Rightarrow> give (getAttribute (chars (string_arg (vs ! 0))) a) a
   | M_setAttribute \<Rightarrow> no_result (setAttribute (chars (string_arg (vs ! 0))) (vs ! 1) a)
   | _ \<Rightarrow> None)"

text \<open>Those of the plugin, with the value each returns as a variant.\<close>

definition with_page :: "('b \<Rightarrow> variant) \<Rightarrow> ('b \<times> 'h plugin) option \<Rightarrow> 'h fum_api \<Rightarrow> ((exn + variant) \<times> 'h fum_api) option" where
  "with_page f r a = map_option (\<lambda>(x, p). (Inr (f x), a\<lparr>page := p\<rparr>)) r"

definition queue_event :: "string \<Rightarrow> variant list \<Rightarrow> 'h fum_api \<Rightarrow> 'h fum_api" where
  "queue_event name args a = a\<lparr>queued := queued a @ map (\<lambda>l. (l, args)) (FireEvent name a)\<rparr>"

definition clicked_text :: string where
  "clicked_text = ''So far, you clicked this many times: ''"

definition fum_apply :: "'h script_env \<Rightarrow> meth \<Rightarrow> variant list \<Rightarrow> ('h fum_api, variant) js" where
  "fum_apply E m vs a =
     (let P = e_platform E; H = e_hidapi E; S = e_ssl E; pad = e_heap_pad E; p = page a;
          num = int_arg (vs ! 0); text1 = string_arg (vs ! 1); text2 = string_arg (vs ! 2) in
      case m of
        M_echo \<Rightarrow> with_page id (echo (vs ! 0) p) (queue_event ''onecho'' [V_string (bytes clicked_text), V_int (clicks p)] a)
      | M_testEvent \<Rightarrow> give V_empty ((queue_event ''ontest'' [] a)\<lparr>page := testEvent p\<rparr>)
      | M_GetToken \<Rightarrow> with_page (\<lambda>u. V_empty) (map_option (\<lambda>p. ((), p)) (GetToken P H p)) a
      | M_GetDeviceCount \<Rightarrow> with_page V_int (GetDeviceCount H p) a
      | M_GetPublicKey \<Rightarrow> with_page V_string (GetPublicKey P H S p) a
      | M_RsaEncrypt \<Rightarrow> with_page V_string (RsaEncrypt P H S num text1 text2 p) a
      | M_RsaDecrypt \<Rightarrow> with_page V_string (RsaDecrypt P H S num text1 text2 p) a
      | M_GetSignature \<Rightarrow> with_page V_string (GetSignature P H S pad num text1 text2 p) a
      | M_VerifySignature \<Rightarrow> with_page V_int (VerifySignature P H S pad num text1 text2 p) a
      | _ \<Rightarrow> base_apply m vs a)"

definition fum_call :: "'h script_env \<Rightarrow> meth \<Rightarrow> variant list \<Rightarrow> ('h fum_api, variant) js" where
  "fum_call E m = method_wrapper (e_order E) (params m) (fum_apply E m)"

definition base_call :: "(nat \<Rightarrow> nat list) \<Rightarrow> meth \<Rightarrow> variant list \<Rightarrow> ('z jsapi_scheme, variant) js" where
  "base_call order m = method_wrapper order (params m) (base_apply m)"

section \<open>The properties\<close>

fun base_get :: "getset \<Rightarrow> ('z jsapi_scheme, variant) js" where
  "base_get P_value a = give (V_string (bytes (m_description a))) a"
| "base_get P_valid a = give (V_bool True) a"
| "base_get p a = None"

fun fum_get :: "'h script_env \<Rightarrow> getset \<Rightarrow> ('h fum_api, variant) js" where
  "fum_get E P_testString a = give (V_string (get_testString (page a))) a"
| "fum_get E P_version a = give (V_string (e_version E)) a"
| "fum_get E P_serial a = map_option (\<lambda>s. (Inr (V_string s), a)) (serial_property (page a))"
| "fum_get E P_TkErr a = give (V_int (get_TkErr (page a))) a"
| "fum_get E p a = base_get p a"

text \<open>A property without a setter ignores what is assigned to it.\<close>

fun base_set :: "getset \<Rightarrow> variant \<Rightarrow> ('z jsapi_scheme, unit) js" where
  "base_set p v a = give () a"

fun fum_set :: "getset \<Rightarrow> variant \<Rightarrow> ('h fum_api, unit) js" where
  "fum_set P_testString v a = (case convert_string v of
     Inl ft \<Rightarrow> throw (bad_argument ft None) a
   | Inr s \<Rightarrow> give () (a\<lparr>page := set_testString s (page a)\<rparr>))"
| "fum_set p v a = base_set p v a"

section \<open>Method objects\<close>

definition new_function :: "string \<Rightarrow> int \<Rightarrow> jsapi" where
  "new_function name zone = (init (blank zone (name @ ''()'')))\<lparr>m_allowMethodObjects := False, m_reservedMembers := []\<rparr>"

definition fn_HasMethod :: "string \<Rightarrow> jsapi \<Rightarrow> bool" where
  "fn_HasMethod name a \<longleftrightarrow> name = [] \<or> name = ''apply'' \<or> name = ''call'' \<or> HasMethod name a"

definition fn_HasMethodObject :: "string \<Rightarrow> jsapi \<Rightarrow> bool" where
  "fn_HasMethodObject name a \<longleftrightarrow> False"

definition fn_HasProperty :: "string \<Rightarrow> jsapi \<Rightarrow> bool" where
  "fn_HasProperty name a \<longleftrightarrow> name \<noteq> ''call'' \<and> name \<noteq> ''apply'' \<and> HasProperty fn_HasMethod name a"

text \<open>The arguments of \<open>call\<close> and \<open>apply\<close> without \<open>this\<close>; \<open>apply\<close> takes an array, or null for none.\<close>

definition call_args :: "variant list \<Rightarrow> variant list" where
  "call_args args = drop 1 args"

definition list_of_variant :: "(np_object \<Rightarrow> exn + variant list) \<Rightarrow> variant \<Rightarrow> exn + variant list" where
  "list_of_variant arr v = (case v of
     V_object l \<Rightarrow> arr l
   | V_null \<Rightarrow> Inr []
   | V_empty \<Rightarrow> Inr []
   | _ \<Rightarrow> Inl (Bad_variant_cast (get_type v) T_object))"

definition apply_args :: "(np_object \<Rightarrow> exn + variant list) \<Rightarrow> variant list \<Rightarrow> exn + variant list" where
  "apply_args arr args = (if 2 \<le> length args then list_of_variant arr (args ! 1) else Inr [])"

end
