(* ===== verification/NpObject.thy ===== *)
theory NpObject
  imports FumScript
begin

text \<open>
  The objects the browser sees (\<^verbatim>\<open>NpapiCore/NPJavascriptObject.cpp\<close>): a wrapper with the entry points of an \<^verbatim>\<open>NPClass\<close> around
  any JSAPI object, and the conversions between the browser's values and variants (\<^verbatim>\<open>NpapiBrowserHost.cpp\<close>, \<^verbatim>\<open>NPVariantUtil.h\<close>).
  The virtual functions of a JSAPI object are the record \<open>js_ops\<close>.
\<close>

section \<open>Values of the browser\<close>

datatype npvariant =
    NP_Void | NP_Null | NP_Bool bool | NP_Int32 int | NP_Double dbl | NP_String "byte list" | NP_Object np_object

text \<open>An identifier is a name or an index.\<close>

datatype np_identifier = Id_string string | Id_int int

definition getVariant :: "npvariant \<Rightarrow> variant" where
  "getVariant v = (case v of
     NP_Void \<Rightarrow> V_empty
   | NP_Null \<Rightarrow> V_null
   | NP_Bool b \<Rightarrow> V_bool b
   | NP_Int32 i \<Rightarrow> V_int i
   | NP_Double d \<Rightarrow> V_double d
   | NP_String s \<Rightarrow> V_string s
   | NP_Object l \<Rightarrow> V_object l)"

definition getNPVariant :: "variant \<Rightarrow> npvariant" where
  "getNPVariant v = (case v of
     V_empty \<Rightarrow> NP_Void
   | V_null \<Rightarrow> NP_Null
   | V_bool b \<Rightarrow> NP_Bool b
   | V_int i \<Rightarrow> NP_Int32 i
   | V_double d \<Rightarrow> NP_Double d
   | V_string s \<Rightarrow> NP_String s
   | V_object l \<Rightarrow> NP_Object l
   | V_api r \<Rightarrow> NP_Object (Plugin_object r))"

definition StringFromIdentifier :: "np_identifier \<Rightarrow> string" where
  "StringFromIdentifier n = (case n of Id_string s \<Rightarrow> s | Id_int i \<Rightarrow> [])"

section \<open>The virtual functions of a JSAPI object\<close>

record 'w js_ops =
  o_expired :: "'w \<Rightarrow> bool"
  o_HasMethod :: "string \<Rightarrow> 'w \<Rightarrow> bool"
  o_HasMethodObject :: "string \<Rightarrow> 'w \<Rightarrow> bool"
  o_HasProperty :: "string \<Rightarrow> 'w \<Rightarrow> bool"
  o_HasProperty_index :: "int \<Rightarrow> 'w \<Rightarrow> bool"
  o_getMemberNames :: "'w \<Rightarrow> string list"
  o_invalidate :: "'w \<Rightarrow> 'w"
  o_GetMethodObject :: "string \<Rightarrow> ('w, variant) js"
  o_GetProperty :: "string \<Rightarrow> ('w, variant) js"
  o_GetProperty_index :: "int \<Rightarrow> ('w, variant) js"
  o_SetProperty :: "string \<Rightarrow> variant \<Rightarrow> ('w, unit) js"
  o_SetProperty_index :: "int \<Rightarrow> variant \<Rightarrow> ('w, unit) js"
  o_RemoveProperty :: "string \<Rightarrow> ('w, unit) js"
  o_RemoveProperty_index :: "int \<Rightarrow> ('w, unit) js"
  o_Invoke :: "string \<Rightarrow> variant list \<Rightarrow> ('w, variant) js"
  o_Construct :: "variant list \<Rightarrow> ('w, variant) js"

section \<open>The wrapper\<close>

text \<open>
  \<open>np_valid\<close> is \<open>m_valid\<close> of each wrapper, \<open>host_alive\<close> that the browser host exists; \<open>last_message\<close> is the static member
  \<open>NPO_getLastException::m_msg\<close>, \<open>exceptions\<close> what has been passed to \<open>NPN_SetException\<close>.
\<close>

record np_host =
  np_valid :: "obj \<Rightarrow> bool"
  host_alive :: bool
  last_message :: variant
  exceptions :: "(obj \<times> string) list"

definition np_isValid :: "'z np_host_scheme js_ops \<Rightarrow> obj \<Rightarrow> 'z np_host_scheme \<Rightarrow> bool" where
  "np_isValid V o1 w \<longleftrightarrow> np_valid w o1 \<and> \<not> o_expired V w \<and> host_alive w"

definition np_Invalidate :: "'z np_host_scheme js_ops \<Rightarrow> obj \<Rightarrow> 'z np_host_scheme \<Rightarrow> 'z np_host_scheme" where
  "np_Invalidate V o1 w = (let w1 = w\<lparr>np_valid := (np_valid w)(o1 := False)\<rparr> in
     if o_expired V w1 then w1 else o_invalidate V w1)"

text \<open>\<open>catch (script_error)\<close>, after \<open>catch (bad_cast)\<close>, to which \<open>bad_variant_cast\<close> belongs.\<close>

definition np_catch ::
    "(vtype \<Rightarrow> string) \<Rightarrow> obj \<Rightarrow> 'a \<Rightarrow> ((exn + 'a) \<times> 'z np_host_scheme) option \<Rightarrow> (bool \<times> 'a \<times> 'z np_host_scheme) option" where
  "np_catch tn o1 dflt r = map_option (\<lambda>(x, w). case x of
     Inr v \<Rightarrow> (True, v, w)
   | Inl e \<Rightarrow> (case e of
         Bad_variant_cast f t \<Rightarrow> (False, dflt, w)
       | _ \<Rightarrow> (False, dflt, w\<lparr>
           exceptions := exceptions w @ (if host_alive w then [(o1, what tn e)] else []),
           last_message := V_string (bytes (what tn e))\<rparr>))) r"

definition np_HasMethod :: "'z np_host_scheme js_ops \<Rightarrow> obj \<Rightarrow> np_identifier \<Rightarrow> 'z np_host_scheme \<Rightarrow> bool" where
  "np_HasMethod V o1 name w \<longleftrightarrow> np_isValid V o1 w \<and>
     (let m = StringFromIdentifier name in m = ''toString'' \<or> \<not> o_HasMethodObject V m w \<and> o_HasMethod V m w)"

text \<open>A name that is null stands for the default method.\<close>

definition np_Invoke ::
    "(vtype \<Rightarrow> string) \<Rightarrow> 'z np_host_scheme js_ops \<Rightarrow> obj \<Rightarrow> np_identifier option \<Rightarrow> npvariant list \<Rightarrow> 'z np_host_scheme \<Rightarrow>
      (bool \<times> npvariant \<times> 'z np_host_scheme) option" where
  "np_Invoke tn V o1 name args w =
     (if \<not> np_isValid V o1 w then Some (False, NP_Void, w)
      else let m = (case name of None \<Rightarrow> [] | Some n \<Rightarrow> StringFromIdentifier n) in
        np_catch tn o1 NP_Void
          (map_option (\<lambda>(r, w'). (map_sum id getNPVariant r, w')) (o_Invoke V m (map getVariant args) w)))"

definition np_InvokeDefault ::
    "(vtype \<Rightarrow> string) \<Rightarrow> 'z np_host_scheme js_ops \<Rightarrow> obj \<Rightarrow> npvariant list \<Rightarrow> 'z np_host_scheme \<Rightarrow>
      (bool \<times> npvariant \<times> 'z np_host_scheme) option" where
  "np_InvokeDefault tn V o1 args w = np_Invoke tn V o1 None args w"

definition own_names :: "string list" where
  "own_names = [''addEventListener'', ''removeEventListener'', ''getLastException'']"

definition np_HasProperty :: "'z np_host_scheme js_ops \<Rightarrow> obj \<Rightarrow> np_identifier \<Rightarrow> 'z np_host_scheme \<Rightarrow> bool" where
  "np_HasProperty V o1 name w \<longleftrightarrow> np_isValid V o1 w \<and>
     (case name of
        Id_int i \<Rightarrow> o_HasProperty_index V i w
      | Id_string s \<Rightarrow> s \<in> set own_names \<or> s \<noteq> ''toString'' \<and> o_HasMethodObject V s w \<or>
          \<not> np_HasMethod V o1 name w \<and> o_HasProperty V s w)"

definition np_GetProperty ::
    "(vtype \<Rightarrow> string) \<Rightarrow> 'z np_host_scheme js_ops \<Rightarrow> obj \<Rightarrow> np_identifier \<Rightarrow> 'z np_host_scheme \<Rightarrow>
      (bool \<times> npvariant \<times> 'z np_host_scheme) option" where
  "np_GetProperty tn V o1 name w =
     (if \<not> np_isValid V o1 w then Some (False, NP_Void, w)
      else np_catch tn o1 NP_Void (map_option (\<lambda>(r, w'). (map_sum id getNPVariant r, w'))
        (case name of
           Id_string s \<Rightarrow>
             if s = ''addEventListener'' then give (V_api (Add_listener o1)) w
             else if s = ''removeEventListener'' then give (V_api (Remove_listener o1)) w
             else if s = ''getLastException'' then give (V_api (Last_exception o1)) w
             else if o_HasMethodObject V s w then o_GetMethodObject V s w
             else o_GetProperty V s w
         | Id_int i \<Rightarrow> o_GetProperty_index V i w)))"

definition np_SetProperty ::
    "(vtype \<Rightarrow> string) \<Rightarrow> 'z np_host_scheme js_ops \<Rightarrow> obj \<Rightarrow> np_identifier \<Rightarrow> npvariant \<Rightarrow> 'z np_host_scheme \<Rightarrow>
      (bool \<times> 'z np_host_scheme) option" where
  "np_SetProperty tn V o1 name v w =
     (if \<not> np_isValid V o1 w then Some (False, w)
      else map_option (\<lambda>(ok, u, w'). (ok, w')) (np_catch tn o1 ()
        (case name of
           Id_string s \<Rightarrow>
             if o_HasMethodObject V s w then throw (Script_error ''This property cannot be changed'') w
             else o_SetProperty V s (getVariant v) w
         | Id_int i \<Rightarrow> o_SetProperty_index V i (getVariant v) w)))"

definition np_RemoveProperty ::
    "(vtype \<Rightarrow> string) \<Rightarrow> 'z np_host_scheme js_ops \<Rightarrow> obj \<Rightarrow> np_identifier \<Rightarrow> 'z np_host_scheme \<Rightarrow>
      (bool \<times> 'z np_host_scheme) option" where
  "np_RemoveProperty tn V o1 name w =
     (if \<not> np_isValid V o1 w then Some (False, w)
      else map_option (\<lambda>(ok, u, w'). (ok, w')) (np_catch tn o1 ()
        (case name of Id_string s \<Rightarrow> o_RemoveProperty V s w | Id_int i \<Rightarrow> o_RemoveProperty_index V i w)))"

definition np_Enumeration :: "'z np_host_scheme js_ops \<Rightarrow> obj \<Rightarrow> 'z np_host_scheme \<Rightarrow> string list option" where
  "np_Enumeration V o1 w = (if \<not> np_isValid V o1 w then None else Some (o_getMemberNames V w @ own_names))"

definition np_Construct ::
    "(vtype \<Rightarrow> string) \<Rightarrow> 'z np_host_scheme js_ops \<Rightarrow> obj \<Rightarrow> npvariant list \<Rightarrow> 'z np_host_scheme \<Rightarrow>
      (bool \<times> npvariant \<times> 'z np_host_scheme) option" where
  "np_Construct tn V o1 args w =
     (if \<not> np_isValid V o1 w then Some (False, NP_Void, w)
      else np_catch tn o1 NP_Void
        (map_option (\<lambda>(r, w'). (map_sum id getNPVariant r, w')) (o_Construct V (map getVariant args) w)))"

section \<open>The objects of the plugin\<close>

text \<open>\<open>fn_objects\<close>: the \<open>JSAPIAuto\<close> part of each function object. \<open>api_alive\<close>: the scriptable object has not been destroyed.\<close>

record 'h world = np_host +
  api :: "'h fum_api"
  api_alive :: bool
  fn_objects :: "obj \<Rightarrow> jsapi"

definition on_api :: "('h fum_api, 'a) js \<Rightarrow> ('h world, 'a) js" where
  "on_api f w = map_option (\<lambda>(r, a). (r, w\<lparr>api := a\<rparr>)) (f (api w))"

definition on_function :: "obj \<Rightarrow> (jsapi, 'a) js \<Rightarrow> ('h world, 'a) js" where
  "on_function o1 f w = map_option (\<lambda>(r, a). (r, w\<lparr>fn_objects := (fn_objects w)(o1 := a)\<rparr>)) (f (fn_objects w o1))"

definition api_Invoke :: "'h script_env \<Rightarrow> string \<Rightarrow> variant list \<Rightarrow> ('h fum_api, variant) js" where
  "api_Invoke E name args = Invoke (fum_call E) name args"

definition api_ops :: "'h script_env \<Rightarrow> 'h world js_ops" where
  "api_ops E = \<lparr>
     o_expired = (\<lambda>w. \<not> api_alive w),
     o_HasMethod = (\<lambda>name w. HasMethod name (api w)),
     o_HasMethodObject = (\<lambda>name w. HasMethodObject name (api w)),
     o_HasProperty = (\<lambda>name w. HasProperty HasMethod name (api w)),
     o_HasProperty_index = (\<lambda>i w. HasProperty_index i (api w)),
     o_getMemberNames = (\<lambda>w. getMemberNames (api w)),
     o_invalidate = (\<lambda>w. w\<lparr>api := invalidate (api w)\<rparr>),
     o_GetMethodObject = (\<lambda>name. on_api (GetMethodObject HasMethod name)),
     o_GetProperty = (\<lambda>name. on_api (GetProperty HasMethod HasMethodObject (fum_get E) name)),
     o_GetProperty_index = (\<lambda>i. on_api (GetProperty_index i)),
     o_SetProperty = (\<lambda>name v. on_api (SetProperty fum_set name v)),
     o_SetProperty_index = (\<lambda>i v. on_api (SetProperty_index i v)),
     o_RemoveProperty = (\<lambda>name. on_api (RemoveProperty name)),
     o_RemoveProperty_index = (\<lambda>i. on_api (RemoveProperty_index i)),
     o_Invoke = (\<lambda>name args. on_api (api_Invoke E name args)),
     o_Construct = (\<lambda>args. on_api (Construct args))\<rparr>"

text \<open>
  \<open>exec\<close> of a function object: for a method object the call on the scriptable object, in the zone of the function; a null pointer
  there is thrown as a pointer, which nothing catches. The wrapper's own functions register listeners at the object they belong to.
\<close>

definition exec_method :: "'h script_env \<Rightarrow> obj \<Rightarrow> string \<Rightarrow> variant list \<Rightarrow> ('h world, variant) js" where
  "exec_method E o1 name args w =
     (if \<not> api_alive w then None
      else map_option (\<lambda>(r, a). (r, w\<lparr>api := popZone a\<rparr>))
        (api_Invoke E name args (pushZone (getZone (fn_objects w o1)) (api w))))"

definition listener_of :: "variant \<Rightarrow> vtype \<times> vtype + np_object option" where
  "listener_of v = (case v of
     V_object l \<Rightarrow> Inr (Some l)
   | V_null \<Rightarrow> Inr None
   | V_empty \<Rightarrow> Inr None
   | _ \<Rightarrow> Inl (get_type v, T_object))"

definition object_expired :: "obj \<Rightarrow> 'h world \<Rightarrow> bool" where
  "object_expired o1 w = (case o1 of Root \<Rightarrow> \<not> api_alive w | Method_object name z \<Rightarrow> \<not> api_alive w | _ \<Rightarrow> False)"

definition register_at ::
    "(string \<Rightarrow> np_object option \<Rightarrow> ('h fum_api, unit) js) \<Rightarrow> (string \<Rightarrow> np_object option \<Rightarrow> (jsapi, unit) js) \<Rightarrow>
      obj \<Rightarrow> variant list \<Rightarrow> ('h world, variant) js" where
  "register_at ra rf o1 args w =
     (if np_valid w o1 \<and> \<not> object_expired o1 w \<and> host_alive w \<and> 1 < length args \<and> length args < 4 then
        (case convert_string (args ! 0) of
           Inl ft \<Rightarrow> throw (Invalid_arguments Bad_Cast) w
         | Inr s \<Rightarrow> (case listener_of (args ! 1) of
               Inl ft \<Rightarrow> throw (Invalid_arguments Bad_Cast) w
             | Inr l \<Rightarrow> no_result ((case o1 of
                   Root \<Rightarrow> on_api (ra (''on'' @ chars s) l)
                 | _ \<Rightarrow> on_function o1 (rf (''on'' @ chars s) l)) w)))
      else throw (Invalid_arguments Invalid_Arguments) w)"

definition fn_exec :: "'h script_env \<Rightarrow> obj \<Rightarrow> variant list \<Rightarrow> ('h world, variant) js" where
  "fn_exec E o1 args w = (case o1 of
     Root \<Rightarrow> None
   | Method_object name z \<Rightarrow> exec_method E o1 name args w
   | Add_listener p \<Rightarrow> register_at registerEventMethod registerEventMethod p args w
   | Remove_listener p \<Rightarrow> register_at unregisterEventMethod unregisterEventMethod p args w
   | Last_exception p \<Rightarrow> give (last_message w) w)"

definition fn_Invoke :: "'h script_env \<Rightarrow> obj \<Rightarrow> string \<Rightarrow> variant list \<Rightarrow> ('h world, variant) js" where
  "fn_Invoke E o1 name args w =
     (if name = [] then fn_exec E o1 args w
      else if name = ''call'' then fn_exec E o1 (call_args args) w
      else if name = ''apply'' then
        (case apply_args (e_array E) args of Inl e \<Rightarrow> throw e w | Inr l \<Rightarrow> fn_exec E o1 l w)
      else on_function o1 (Invoke (base_call (e_order E)) name args) w)"

definition function_ops :: "'h script_env \<Rightarrow> obj \<Rightarrow> 'h world js_ops" where
  "function_ops E o1 = \<lparr>
     o_expired = object_expired o1,
     o_HasMethod = (\<lambda>name w. fn_HasMethod name (fn_objects w o1)),
     o_HasMethodObject = (\<lambda>name w. fn_HasMethodObject name (fn_objects w o1)),
     o_HasProperty = (\<lambda>name w. fn_HasProperty name (fn_objects w o1)),
     o_HasProperty_index = (\<lambda>i w. HasProperty_index i (fn_objects w o1)),
     o_getMemberNames = (\<lambda>w. getMemberNames (fn_objects w o1)),
     o_invalidate = (\<lambda>w. w\<lparr>fn_objects := (fn_objects w)(o1 := invalidate (fn_objects w o1))\<rparr>),
     o_GetMethodObject = (\<lambda>name. on_function o1 (GetMethodObject fn_HasMethod name)),
     o_GetProperty = (\<lambda>name. on_function o1 (GetProperty fn_HasMethod fn_HasMethodObject base_get name)),
     o_GetProperty_index = (\<lambda>i. on_function o1 (GetProperty_index i)),
     o_SetProperty = (\<lambda>name v. on_function o1 (SetProperty base_set name v)),
     o_SetProperty_index = (\<lambda>i v. on_function o1 (SetProperty_index i v)),
     o_RemoveProperty = (\<lambda>name. on_function o1 (RemoveProperty name)),
     o_RemoveProperty_index = (\<lambda>i. on_function o1 (RemoveProperty_index i)),
     o_Invoke = fn_Invoke E o1,
     o_Construct = (\<lambda>args. on_function o1 (Construct args))\<rparr>"

definition vtable :: "'h script_env \<Rightarrow> obj \<Rightarrow> 'h world js_ops" where
  "vtable E o1 = (if o1 = Root then api_ops E else function_ops E o1)"

definition fresh_function :: "obj \<Rightarrow> jsapi" where
  "fresh_function o1 = (case o1 of
     Method_object name z \<Rightarrow> new_function name z
   | Add_listener p \<Rightarrow> new_function ''attachEvent'' SecurityScope_Public
   | Remove_listener p \<Rightarrow> new_function ''detachEvent'' SecurityScope_Public
   | _ \<Rightarrow> new_function ''getLastException'' SecurityScope_Public)"

definition new_world :: "loader \<Rightarrow> byte list \<Rightarrow> int \<Rightarrow> 'h nst \<Rightarrow> 'h world" where
  "new_world L ser n s =
    \<lparr>np_valid = (\<lambda>o1. True), host_alive = True, last_message = V_empty, exceptions = [],
     api = new_api L ser n s, api_alive = True, fn_objects = fresh_function\<rparr>"

section \<open>What a script can do\<close>

text \<open>The entry points of the browser, each with the object it is called on. \<open>np_step\<close> is what becomes of the plugin.\<close>

datatype np_call =
    NP_HasMethod np_identifier
  | NP_HasProperty np_identifier
  | NP_Invoke np_identifier "npvariant list"
  | NP_InvokeDefault "npvariant list"
  | NP_GetProperty np_identifier
  | NP_SetProperty np_identifier npvariant
  | NP_RemoveProperty np_identifier
  | NP_Enumerate
  | NP_Construct "npvariant list"
  | NP_Invalidate

definition np_step :: "'h script_env \<Rightarrow> obj \<Rightarrow> np_call \<Rightarrow> 'h world \<Rightarrow> 'h world option" where
  "np_step E o1 c w = (let V = vtable E o1; tn = e_type_name E in
     case c of
       NP_HasMethod name \<Rightarrow> Some w
     | NP_HasProperty name \<Rightarrow> Some w
     | NP_Invoke name args \<Rightarrow> map_option (\<lambda>(ok, r, w'). w') (np_Invoke tn V o1 (Some name) args w)
     | NP_InvokeDefault args \<Rightarrow> map_option (\<lambda>(ok, r, w'). w') (np_InvokeDefault tn V o1 args w)
     | NP_GetProperty name \<Rightarrow> map_option (\<lambda>(ok, r, w'). w') (np_GetProperty tn V o1 name w)
     | NP_SetProperty name v \<Rightarrow> map_option (\<lambda>(ok, w'). w') (np_SetProperty tn V o1 name v w)
     | NP_RemoveProperty name \<Rightarrow> map_option (\<lambda>(ok, w'). w') (np_RemoveProperty tn V o1 name w)
     | NP_Enumerate \<Rightarrow> Some w
     | NP_Construct args \<Rightarrow> map_option (\<lambda>(ok, r, w'). w') (np_Construct tn V o1 args w)
     | NP_Invalidate \<Rightarrow> Some (np_Invalidate V o1 w))"

fun np_run :: "'h script_env \<Rightarrow> (obj \<times> np_call) list \<Rightarrow> 'h world \<Rightarrow> 'h world option" where
  "np_run E [] w = Some w"
| "np_run E ((o1, c) # cs) w = do { w1 \<leftarrow> np_step E o1 c w; np_run E cs w1 }"

end
