(* ===== verification/PluginTabs.thy ===== *)
theory PluginTabs
  imports NpObject
begin

text \<open>
  The instances of the plugin in one process (\<^verbatim>\<open>NpapiPluginModule_NPP.cpp\<close>, \<^verbatim>\<open>NpapiPlugin.cpp\<close>, \<^verbatim>\<open>fumPlugin.cpp\<close>): how the browser creates them,
  asks for their scriptable objects, calls these and destroys the instances. They share the token library, which \<open>dlopen\<close> loads once and
  \<open>dlclose\<close> unloads with the last of them, and the static variables of the plugin.
\<close>

section \<open>State\<close>

text \<open>
  \<open>t_serial n\<close> is what the member \<open>serial\<close> of the object of instance \<open>n\<close> holds before anything is assigned to it; \<open>t_reload\<close> gives the static
  variables of HIDAPI their initial values.
\<close>

record 'h tab_env =
  t_script :: "'h script_env"
  t_loader :: loader
  t_serial :: "nat \<Rightarrow> byte list"
  t_reload :: "'h \<Rightarrow> 'h"

text \<open>\<open>pdata\<close>: whether it is not NULL. \<open>objects\<close>: the scriptable object with its wrappers, once there is one; a page may keep them.\<close>

record 'h tab =
  pdata :: bool
  objects :: "'h world option"

text \<open>
  \<open>library\<close> is the state of the token library while \<open>loads\<close>, the count of the loader, is not 0; \<open>click_count\<close> is \<open>n\<close> of \<open>echo\<close> and
  \<open>last_exception\<close> is \<open>NPO_getLastException::m_msg\<close>. Instances are numbered in the order of their creation.
\<close>

record 'h process =
  library :: "'h nst"
  loads :: nat
  click_count :: int
  last_exception :: variant
  tabs :: "'h tab list"

definition new_process :: "'h nst \<Rightarrow> 'h process" where
  "new_process s = \<lparr>library = s, loads = 0, click_count = 0, last_exception = V_empty, tabs = []\<rparr>"

definition set_tab :: "nat \<Rightarrow> 'h tab \<Rightarrow> 'h process \<Rightarrow> 'h process" where
  "set_tab i t b = b\<lparr>tabs := (tabs b)[i := t]\<rparr>"

section \<open>The scriptable object of an instance\<close>

text \<open>\<open>dlopen\<close>: the first one brings in the library with its variables as they start.\<close>

definition load_library :: "'h tab_env \<Rightarrow> 'h process \<Rightarrow> 'h process" where
  "load_library T b =
     (if \<not> ld_open (t_loader T) then b
      else if loads b = 0 then b\<lparr>loads := 1, library := (library b)\<lparr>tk := zero_tk, LAST_ERR_NO := nErr_OK,
        hid := t_reload T (hid (library b))\<rparr>\<rparr>
      else b\<lparr>loads := loads b + 1\<rparr>)"

definition createJSAPI :: "'h tab_env \<Rightarrow> nat \<Rightarrow> 'h process \<Rightarrow> 'h world \<times> 'h process" where
  "createJSAPI T i b = (let b1 = load_library T b in
     (new_world (t_loader T) (t_serial T i) (click_count b1) (library b1), b1))"

definition getRootJSAPI :: "'h tab_env \<Rightarrow> nat \<Rightarrow> 'h process \<Rightarrow> 'h process" where
  "getRootJSAPI T i b = (case objects (tabs b ! i) of
     Some w \<Rightarrow> b
   | None \<Rightarrow> let (w, b1) = createJSAPI T i b in set_tab i ((tabs b1 ! i)\<lparr>objects := Some w\<rparr>) b1)"

section \<open>The entry points of the module\<close>

definition NPERR_NO_ERROR :: int where "NPERR_NO_ERROR = 0"
definition NPERR_GENERIC_ERROR :: int where "NPERR_GENERIC_ERROR = 1"
definition NPERR_INVALID_INSTANCE_ERROR :: int where "NPERR_INVALID_INSTANCE_ERROR = 2"

definition validInstance :: "nat \<Rightarrow> 'h process \<Rightarrow> bool" where
  "validInstance i b \<longleftrightarrow> i < length (tabs b) \<and> pdata (tabs b ! i)"

text \<open>A page that has passed a function as the parameter \<open>onload\<close> gets the object at once, \<open>setReady\<close> passes it on.\<close>

definition NPP_New :: "'h tab_env \<Rightarrow> bool \<Rightarrow> 'h process \<Rightarrow> int \<times> 'h process" where
  "NPP_New T onload b = (let i = length (tabs b); b1 = b\<lparr>tabs := tabs b @ [\<lparr>pdata = True, objects = None\<rparr>]\<rparr> in
     (NPERR_NO_ERROR, if onload then getRootJSAPI T i b1 else b1))"

text \<open>With the variable \<open>NPPVpluginScriptableNPObject\<close>.\<close>

definition NPP_GetValue :: "'h tab_env \<Rightarrow> nat \<Rightarrow> 'h process \<Rightarrow> int \<times> 'h process" where
  "NPP_GetValue T i b = (if \<not> validInstance i b then (NPERR_GENERIC_ERROR, b) else (NPERR_NO_ERROR, getRootJSAPI T i b))"

text \<open>
  The destructor of the scriptable object hands \<open>token_handle\<close> to \<open>dlclose\<close>, which takes no NULL. The browser host goes as well, and with it
  what it has retained.
\<close>

definition NPP_Destroy :: "nat \<Rightarrow> 'h process \<Rightarrow> (int \<times> 'h process) option" where
  "NPP_Destroy i b =
     (if \<not> validInstance i b then Some (NPERR_INVALID_INSTANCE_ERROR, b)
      else case objects (tabs b ! i) of
        None \<Rightarrow> Some (NPERR_NO_ERROR, set_tab i \<lparr>pdata = False, objects = None\<rparr> b)
      | Some w \<Rightarrow>
          if \<not> token_handle (page (api w)) then None
          else Some (NPERR_NO_ERROR, (set_tab i \<lparr>pdata = False, objects = Some (w\<lparr>host_alive := False, api_alive := False,
            api := (api w)\<lparr>page := delete_plugin (page (api w))\<rparr>\<rparr>)\<rparr> b)\<lparr>loads := loads b - 1\<rparr>))"

section \<open>Calls\<close>

text \<open>An object finds the library and the static variables as the last call has left them, whichever instance it was made in.\<close>

definition enter :: "'h process \<Rightarrow> 'h world \<Rightarrow> 'h world" where
  "enter b w = w\<lparr>last_message := last_exception b, api := (api w)\<lparr>page := (page (api w))\<lparr>lib := library b, clicks := click_count b\<rparr>\<rparr>\<rparr>"

definition leave :: "nat \<Rightarrow> 'h world \<Rightarrow> 'h process \<Rightarrow> 'h process" where
  "leave i w b = set_tab i ((tabs b ! i)\<lparr>objects := Some w\<rparr>)
     (b\<lparr>library := lib (page (api w)), click_count := clicks (page (api w)), last_exception := last_message w\<rparr>)"

definition object_call :: "'h tab_env \<Rightarrow> nat \<Rightarrow> obj \<Rightarrow> np_call \<Rightarrow> 'h process \<Rightarrow> 'h process option" where
  "object_call T i o1 c b =
     (if length (tabs b) \<le> i then Some b
      else case objects (tabs b ! i) of
        None \<Rightarrow> Some b
      | Some w \<Rightarrow> map_option (\<lambda>w1. leave i w1 b) (np_step (t_script T) o1 c (enter b w)))"

text \<open>What the browser does, on behalf of any page.\<close>

datatype browser_event = Ev_new bool | Ev_object nat | Ev_call nat obj np_call | Ev_destroy nat

fun process_step :: "'h tab_env \<Rightarrow> browser_event \<Rightarrow> 'h process \<Rightarrow> 'h process option" where
  "process_step T (Ev_new onload) b = Some (snd (NPP_New T onload b))"
| "process_step T (Ev_object i) b = Some (snd (NPP_GetValue T i b))"
| "process_step T (Ev_call i o1 c) b = object_call T i o1 c b"
| "process_step T (Ev_destroy i) b = map_option snd (NPP_Destroy i b)"

fun process_run :: "'h tab_env \<Rightarrow> browser_event list \<Rightarrow> 'h process \<Rightarrow> 'h process option" where
  "process_run T [] b = Some b"
| "process_run T (e # es) b = do { b1 \<leftarrow> process_step T e b; process_run T es b1 }"

end
