(* ===== verification/ScriptLemmas.thy ===== *)
theory ScriptLemmas
  imports NpObject LibSession
begin

text \<open>
  What every entry point of the browser keeps. The wrapper is verified once, against the contract \<open>jsapi_object\<close> of the JSAPI object
  it wraps, which the scriptable object and the function objects interpret.
\<close>

section \<open>Frames of \<open>JSAPIAuto\<close>\<close>

text \<open>\<open>same_members a a'\<close>: what has been registered, the flags and the stack of zones are the same.\<close>

definition same_members :: "'z jsapi_scheme \<Rightarrow> 'z jsapi_scheme \<Rightarrow> bool" where
  "same_members a a' \<longleftrightarrow> m_methodFunctorMap a' = m_methodFunctorMap a \<and> m_propertyFunctorsMap a' = m_propertyFunctorsMap a \<and>
     m_defaultZone a' = m_defaultZone a \<and> m_pushedZones a' = m_pushedZones a \<and> m_description a' = m_description a \<and>
     m_reservedMembers a' = m_reservedMembers a \<and> m_allowDynamicAttributes a' = m_allowDynamicAttributes a \<and>
     m_allowRemoveProperties a' = m_allowRemoveProperties a \<and> m_allowMethodObjects a' = m_allowMethodObjects a"

text \<open>\<open>plain a a'\<close>: moreover the object is as valid as before, and nothing outside \<open>JSAPIAuto\<close> has changed.\<close>

definition plain :: "'z jsapi_scheme \<Rightarrow> 'z jsapi_scheme \<Rightarrow> bool" where
  "plain a a' \<longleftrightarrow> same_members a a' \<and> m_valid a' = m_valid a \<and> jsapi.more a' = jsapi.more a"

lemma same_members_refl [simp]: "same_members a a"
  by (simp add: same_members_def)

lemma same_members_trans: "same_members a b \<Longrightarrow> same_members b c \<Longrightarrow> same_members a c"
  by (simp add: same_members_def)

lemma plain_refl [simp]: "plain a a"
  by (simp add: plain_def)

lemmas plain_defs = plain_def same_members_def js_simps

lemma registerAttribute_plain [simp]: "plain a (registerAttribute name v ro a)"
  by (simp add: registerAttribute_def plain_defs)

lemma unregisterAttribute_plain: "unregisterAttribute name a = Some (r, a') \<Longrightarrow> plain a a'"
  by (auto simp: unregisterAttribute_def plain_defs split: option.splits if_splits)

lemma GetMethodObject_plain: "GetMethodObject hm name a = Some (r, a') \<Longrightarrow> plain a a'"
  by (auto simp: GetMethodObject_def plain_defs split: if_splits)

lemma GetProperty_plain:
  assumes "GetProperty hm hmo getp name a = Some (r, a')" "m_allowRemoveProperties a = False"
    and "\<And>p r a'. getp p a = Some (r, a') \<Longrightarrow> plain a a'"
  shows "plain a a'"
  using assms(1,3) GetMethodObject_plain [of hm name a r a']
  by (auto simp: GetProperty_def js_simps split: option.splits if_splits)

lemma RemoveProperty_plain:
  "RemoveProperty name a = Some (r, a') \<Longrightarrow> \<not> m_allowRemoveProperties a \<Longrightarrow> plain a a'"
  by (auto simp: RemoveProperty_def js_simps split: if_splits dest: unregisterAttribute_plain)

lemma index_plain:
  "GetProperty_index i a = Some (x, a') \<Longrightarrow> plain a a'"
  "SetProperty_index i v a = Some (u, a') \<Longrightarrow> plain a a'"
  "RemoveProperty_index i a = Some (u, a') \<Longrightarrow> plain a a'"
  by (auto simp: GetProperty_index_def SetProperty_index_def RemoveProperty_index_def js_simps
      split: option.splits if_splits dest: unregisterAttribute_plain)

lemma Construct_plain: "Construct args a = Some (r, a') \<Longrightarrow> plain a a'"
  by (auto simp: Construct_def js_simps)

lemma setAttribute_plain: "setAttribute name v a = Some (r, a') \<Longrightarrow> plain a a'"
  by (auto simp: setAttribute_def plain_defs split: if_splits)

lemma event_plain:
  "registerEventMethod name l a = Some (r, a') \<Longrightarrow> plain a a'"
  "unregisterEventMethod name l a = Some (r, a') \<Longrightarrow> plain a a'"
  by (auto simp: registerEventMethod_def unregisterEventMethod_def plain_defs split: option.splits if_splits)

lemma base_apply_plain: "base_apply m vs a = Some (r, a') \<Longrightarrow> plain a a'"
  by (cases m) (auto simp: base_apply_def no_result_def js_simps dest: setAttribute_plain)

lemma base_get_plain: "base_get p a = Some (r, a') \<Longrightarrow> plain a a'"
  by (cases p) (auto simp: js_simps)

lemma catch_cast_state: "catch_cast r = Some (x, s) \<Longrightarrow> \<exists>y. r = Some (y, s)"
  by (auto simp: catch_cast_def split: option.splits sum.splits exn.splits prod.splits)

lemma method_wrapper_cases:
  assumes "method_wrapper order tys f args s = Some (r, s')"
  obtains e where "r = Inl e" "s' = s" | vs where "f vs s = Some (r, s')"
proof -
  obtain x where "eval_args (convert_arg tys args) (order (length tys)) (replicate (length tys) V_empty) = Some x"
    "(case x of Inl e \<Rightarrow> throw e s | Inr vs \<Rightarrow> f vs s) = Some (r, s')"
    using assms by (auto simp: method_wrapper_def Let_def bind_Some_iff)
  then show ?thesis using that by (cases x) (auto simp: js_simps)
qed

lemma base_call_plain: "base_call order m args a = Some (r, a') \<Longrightarrow> plain a a'"
  unfolding base_call_def by (erule method_wrapper_cases) (auto dest: base_apply_plain)

lemma Invoke_state:
  assumes "Invoke callf name args a = Some (r, a')"
  shows "a' = a \<or> (m_valid a \<and> (\<exists>f x. callf f args a = Some (x, a')))"
  using assms by (auto simp: Invoke_def js_simps split: if_splits option.splits dest!: catch_cast_state)

lemma SetProperty_state:
  assumes "SetProperty setp name v a = Some (r, a')"
  shows "plain a a' \<or> (m_valid a \<and> (\<exists>p x. setp p v a = Some (x, a')))"
  using assms by (auto simp: SetProperty_def js_simps split: if_splits option.splits dest!: catch_cast_state)

section \<open>Frames of the plugin's object\<close>

abbreviation page_runs :: "'h script_env \<Rightarrow> page_call list \<Rightarrow> 'h plugin \<Rightarrow> 'h plugin option" where
  "page_runs E \<equiv> page_run (e_platform E) (e_hidapi E) (e_ssl E) (e_heap_pad E)"

text \<open>\<open>reaches\<close>: the members stay, an object that has become invalid stays so and its page as it was; the page got where it is by page calls.\<close>

definition reaches :: "'h script_env \<Rightarrow> 'h fum_api \<Rightarrow> 'h fum_api \<Rightarrow> bool" where
  "reaches E a a' \<longleftrightarrow> same_members a a' \<and> (m_valid a' \<longrightarrow> m_valid a) \<and> (\<not> m_valid a \<longrightarrow> page a' = page a) \<and>
     (\<exists>cs. page_runs E cs (page a) = Some (page a'))"

lemma page_run_append:
  "page_run P H S hp cs p = Some q \<Longrightarrow> page_run P H S hp ds q = Some r \<Longrightarrow> page_run P H S hp (cs @ ds) p = Some r"
  by (induction cs arbitrary: p) (auto simp: bind_Some_iff)

lemma reaches_same: "same_members a a' \<Longrightarrow> (m_valid a' \<longrightarrow> m_valid a) \<Longrightarrow> page a' = page a \<Longrightarrow> reaches E a a'"
  unfolding reaches_def by (auto intro: exI [of _ "[]"])

lemma plain_page: "plain a a' \<Longrightarrow> page a' = page a"
  by (cases a; cases a') (simp add: plain_def)

lemma plain_reaches: "plain a a' \<Longrightarrow> reaches E a a'"
  by (rule reaches_same) (simp_all add: plain_page, simp_all add: plain_def)

lemma reaches_refl [simp]: "reaches E a a"
  by (simp add: plain_reaches)

lemma reaches_trans: "reaches E a b \<Longrightarrow> reaches E b c \<Longrightarrow> reaches E a c"
proof -
  assume ab: "reaches E a b" and bc: "reaches E b c"
  obtain cs ds where "page_runs E cs (page a) = Some (page b)" "page_runs E ds (page b) = Some (page c)"
    using ab bc unfolding reaches_def by blast
  then have "page_runs E (cs @ ds) (page a) = Some (page c)" by (rule page_run_append)
  moreover have "same_members a c" using ab bc same_members_trans [of a b c] by (simp add: reaches_def)
  moreover have "(m_valid c \<longrightarrow> m_valid a) \<and> (\<not> m_valid a \<longrightarrow> page c = page a)"
    using ab bc by (auto simp: reaches_def)
  ultimately show ?thesis unfolding reaches_def by blast
qed

text \<open>A method is one page call, or none.\<close>

lemma page_step_reaches:
  assumes "page_step (e_platform E) (e_hidapi E) (e_ssl E) (e_heap_pad E) c (page a) = Some p" "m_valid a"
    and "same_members a a'" "m_valid a' = m_valid a" "page a' = p"
  shows "reaches E a a'"
proof -
  have "page_runs E [c] (page a) = Some (page a')" using assms(1,5) by simp
  then show ?thesis using assms(2-4) unfolding reaches_def by blast
qed

lemma queue_event_frame [simp]:
  "same_members a (queue_event name args a)" "m_valid (queue_event name args a) = m_valid a" "page (queue_event name args a) = page a"
  by (simp_all add: queue_event_def same_members_def)

lemma same_members_page [simp]: "same_members a (b\<lparr>page := p\<rparr>) = same_members a b"
  by (simp add: same_members_def)

lemma fum_apply_reaches:
  assumes "fum_apply E m vs a = Some (r, a')" "m_valid a"
  shows "reaches E a a'"
proof -
  note step = page_step_reaches [of E _ a, OF _ assms(2)]
  note d = fum_apply_def Let_def with_page_def page_step_def js_simps
  show ?thesis
  proof (cases m)
    case M_echo
    then obtain p where p: "echo (vs ! 0) (page a) = Some (vs ! 0, p)" "page a' = p" "same_members a a'" "m_valid a' = m_valid a"
      using assms(1) by (auto simp: d echo_def split: if_splits)
    then have "echo () (page a) = Some ((), p)" by (auto simp: echo_def split: if_splits)
    then show ?thesis using p by (intro step [of Call_echo]) (simp_all add: page_step_def)
  next
    case M_testEvent then show ?thesis using assms(1) by (intro step [of Call_testEvent]) (auto simp: d)
  next
    case M_GetToken then show ?thesis using assms(1) by (intro step [of Call_GetToken]) (auto simp: d)
  next
    case M_GetDeviceCount then show ?thesis using assms(1) by (intro step [of Call_GetDeviceCount]) (auto simp: d)
  next
    case M_GetPublicKey then show ?thesis using assms(1) by (intro step [of Call_GetPublicKey]) (auto simp: d)
  next
    case M_RsaEncrypt then show ?thesis using assms(1)
      by (intro step [of "Call_RsaEncrypt (int_arg (vs ! 0)) (string_arg (vs ! 1)) (string_arg (vs ! 2))"]) (auto simp: d)
  next
    case M_RsaDecrypt then show ?thesis using assms(1)
      by (intro step [of "Call_RsaDecrypt (int_arg (vs ! 0)) (string_arg (vs ! 1)) (string_arg (vs ! 2))"]) (auto simp: d)
  next
    case M_GetSignature then show ?thesis using assms(1)
      by (intro step [of "Call_GetSignature (int_arg (vs ! 0)) (string_arg (vs ! 1)) (string_arg (vs ! 2))"]) (auto simp: d)
  next
    case M_VerifySignature then show ?thesis using assms(1)
      by (intro step [of "Call_VerifySignature (int_arg (vs ! 0)) (string_arg (vs ! 1)) (string_arg (vs ! 2))"]) (auto simp: d)
  qed (use assms(1) in \<open>auto simp: fum_apply_def Let_def intro!: plain_reaches base_apply_plain\<close>)
qed

lemma fum_call_reaches: "fum_call E m args a = Some (r, a') \<Longrightarrow> m_valid a \<Longrightarrow> reaches E a a'"
  unfolding fum_call_def by (erule method_wrapper_cases) (auto dest: fum_apply_reaches)

lemma api_Invoke_reaches: "api_Invoke E name args a = Some (r, a') \<Longrightarrow> reaches E a a'"
  unfolding api_Invoke_def by (drule Invoke_state) (auto dest: fum_call_reaches)

lemma fum_get_plain: "fum_get E p a = Some (r, a') \<Longrightarrow> plain a a'"
  by (cases p) (auto simp: js_simps)

lemma fum_set_reaches:
  assumes "fum_set p v a = Some (r, a')" "m_valid a"
  shows "reaches E a a'"
proof (cases "\<exists>s. p = P_testString \<and> convert_string v = Inr s")
  case True
  then obtain s where "p = P_testString" "convert_string v = Inr s" by blast
  then have "a' = a\<lparr>page := set_testString s (page a)\<rparr>" using assms(1) by (simp add: js_simps)
  then show ?thesis using assms(2) by (intro page_step_reaches [of E "Call_set_testString s"]) (simp_all add: page_step_def)
next
  case False
  then have "a' = a" using assms(1) by (cases p) (auto simp: js_simps split: sum.splits)
  then show ?thesis by simp
qed

lemma SetProperty_reaches: "SetProperty fum_set name v a = Some (r, a') \<Longrightarrow> reaches E a a'"
  by (drule SetProperty_state) (auto intro: plain_reaches dest: fum_set_reaches)

section \<open>The wrapper\<close>

text \<open>
  The contract of a JSAPI object: every operation relates the states before and after by \<open>R\<close>, which is reflexive and does not look at
  the records of the wrapper.
\<close>

lemma np_catch_value [simp]: "np_catch tn o1 d (Some (Inr v, w)) = Some (True, v, w)"
  by (simp add: np_catch_def)

locale jsapi_object =
  fixes V :: "'z np_host_scheme js_ops" and R :: "'z np_host_scheme \<Rightarrow> 'z np_host_scheme \<Rightarrow> bool"
  assumes R_refl: "R w w"
    and R_host: "R w w' \<Longrightarrow> R w (w'\<lparr>exceptions := x, last_message := m\<rparr>)"
    and R_invalidate: "R w (o_invalidate V (w\<lparr>np_valid := f\<rparr>))" "R w (w\<lparr>np_valid := f\<rparr>)"
    and R_get: "o_GetMethodObject V name w = Some (r, w') \<Longrightarrow> R w w'" "o_GetProperty V name w = Some (r, w') \<Longrightarrow> R w w'"
      "o_GetProperty_index V i w = Some (r, w') \<Longrightarrow> R w w'"
    and R_set: "o_SetProperty V name v w = Some (u, w') \<Longrightarrow> R w w'" "o_SetProperty_index V i v w = Some (u, w') \<Longrightarrow> R w w'"
    and R_remove: "o_RemoveProperty V name w = Some (u, w') \<Longrightarrow> R w w'" "o_RemoveProperty_index V i w = Some (u, w') \<Longrightarrow> R w w'"
    and R_call: "o_Invoke V name args w = Some (r, w') \<Longrightarrow> R w w'" "o_Construct V args w = Some (r, w') \<Longrightarrow> R w w'"
begin

lemma catch_R:
  assumes "np_catch tn o1 d m = Some (ok, v, w')" "\<And>x w1. m = Some (x, w1) \<Longrightarrow> R w w1"
  shows "R w w'"
proof -
  obtain x w1 where m: "m = Some (x, w1)" using assms(1) by (auto simp: np_catch_def)
  then have "R w w1" by (rule assms(2))
  then show ?thesis
    using assms(1) m R_host by (auto simp: np_catch_def split: sum.splits exn.splits)
qed

lemma value_R:
  assumes "np_catch tn o1 d (map_option (\<lambda>(r, w'). (map_sum id g r, w')) m) = Some (ok, v, w')"
    and "\<And>x w1. m = Some (x, w1) \<Longrightarrow> R w w1"
  shows "R w w'"
  using assms(1) by (rule catch_R) (auto intro: assms(2))

lemma np_Invoke_R: "np_Invoke tn V o1 name args w = Some (ok, r, w') \<Longrightarrow> R w w'"
  by (auto simp: np_Invoke_def Let_def R_refl split: if_splits elim!: value_R intro: R_call)

lemma np_GetProperty_R: "np_GetProperty tn V o1 name w = Some (ok, r, w') \<Longrightarrow> R w w'"
  by (auto simp: np_GetProperty_def R_refl js_simps split: if_splits np_identifier.splits elim!: value_R intro: R_get)

lemma np_SetProperty_R: "np_SetProperty tn V o1 name v w = Some (ok, w') \<Longrightarrow> R w w'"
  by (auto simp: np_SetProperty_def R_refl js_simps split: if_splits np_identifier.splits elim!: catch_R intro: R_set)

lemma np_RemoveProperty_R: "np_RemoveProperty tn V o1 name w = Some (ok, w') \<Longrightarrow> R w w'"
  by (auto simp: np_RemoveProperty_def R_refl split: if_splits np_identifier.splits elim!: catch_R intro: R_remove)

lemma np_Construct_R: "np_Construct tn V o1 args w = Some (ok, r, w') \<Longrightarrow> R w w'"
  by (auto simp: np_Construct_def R_refl split: if_splits elim!: value_R intro: R_call)

lemma np_Invalidate_R: "R w (np_Invalidate V o1 w)"
  by (simp add: np_Invalidate_def Let_def R_invalidate)

end

section \<open>The objects of the plugin\<close>

definition world_reaches :: "'h script_env \<Rightarrow> 'h world \<Rightarrow> 'h world \<Rightarrow> bool" where
  "world_reaches E w w' \<longleftrightarrow> (\<not> m_allowRemoveProperties (api w) \<longrightarrow> reaches E (api w) (api w'))"

lemma world_reachesD: "world_reaches E w w' \<Longrightarrow> \<not> m_allowRemoveProperties (api w) \<Longrightarrow> reaches E (api w) (api w')"
  by (simp add: world_reaches_def)

lemma on_api_reaches:
  assumes "on_api f w = Some (r, w')" "\<And>r a'. \<not> m_allowRemoveProperties (api w) \<Longrightarrow> f (api w) = Some (r, a') \<Longrightarrow> reaches E (api w) a'"
  shows "world_reaches E w w'"
  using assms by (auto simp: on_api_def world_reaches_def)

lemma on_function_reaches: "on_function o1 f w = Some (r, w') \<Longrightarrow> world_reaches E w w'"
  by (auto simp: on_function_def world_reaches_def)

lemma invalidate_reaches [simp]: "reaches E a (invalidate a)"
  by (rule reaches_same) (simp_all add: invalidate_def same_members_def)

interpretation scriptable: jsapi_object "api_ops E" "world_reaches E" for E
proof (unfold_locales, unfold api_ops_def js_ops.simps)
  fix w w' :: "'a world" and name r i v u args
  show "on_api (GetMethodObject HasMethod name) w = Some (r, w') \<Longrightarrow> world_reaches E w w'"
    by (erule on_api_reaches) (blast intro: plain_reaches GetMethodObject_plain)
  show "on_api (GetProperty HasMethod HasMethodObject (fum_get E) name) w = Some (r, w') \<Longrightarrow> world_reaches E w w'"
    by (erule on_api_reaches) (auto intro!: plain_reaches elim: GetProperty_plain fum_get_plain)
  show "on_api (GetProperty_index i) w = Some (r, w') \<Longrightarrow> world_reaches E w w'"
    by (erule on_api_reaches) (blast intro: plain_reaches index_plain)
  show "on_api (SetProperty fum_set name v) w = Some (u, w') \<Longrightarrow> world_reaches E w w'"
    by (erule on_api_reaches) (rule SetProperty_reaches)
  show "on_api (SetProperty_index i v) w = Some (u, w') \<Longrightarrow> world_reaches E w w'"
    by (erule on_api_reaches) (blast intro: plain_reaches index_plain)
  show "on_api (RemoveProperty name) w = Some (u, w') \<Longrightarrow> world_reaches E w w'"
    by (erule on_api_reaches) (blast intro: plain_reaches RemoveProperty_plain)
  show "on_api (RemoveProperty_index i) w = Some (u, w') \<Longrightarrow> world_reaches E w w'"
    by (erule on_api_reaches) (blast intro: plain_reaches index_plain)
  show "on_api (api_Invoke E name args) w = Some (r, w') \<Longrightarrow> world_reaches E w w'"
    by (erule on_api_reaches) (rule api_Invoke_reaches)
  show "on_api (Construct args) w = Some (r, w') \<Longrightarrow> world_reaches E w w'"
    by (erule on_api_reaches) (blast intro: plain_reaches Construct_plain)
qed (simp_all add: world_reaches_def)

lemma zones_reach:
  assumes "reaches E (pushZone z a) a'"
  shows "reaches E a (popZone a')"
  using assms by (auto simp: reaches_def pushZone_def popZone_def same_members_def)

lemma no_result_state: "no_result m = Some (r, w) \<Longrightarrow> \<exists>x. m = Some (x, w)"
  by (auto simp: no_result_def)

lemma register_at_reaches:
  assumes "register_at f g p args w = Some (r, w')" "\<And>n l r a'. f n l (api w) = Some (r, a') \<Longrightarrow> plain (api w) a'"
  shows "world_reaches E w w'"
proof -
  have api: "world_reaches E w w'" if "no_result (on_api (f n l) w) = Some (r, w')" for n l
    using no_result_state [OF that] on_api_reaches [where E = E, OF _ plain_reaches] assms(2) by blast
  have fn: "world_reaches E w w'" if "no_result (on_function q (g n l) w) = Some (r, w')" for q n l
    using no_result_state [OF that] on_function_reaches by blast
  show ?thesis
    using assms(1) api fn by (cases p) (auto simp: register_at_def js_simps world_reaches_def split: if_splits sum.splits)
qed

lemma fn_exec_reaches:
  assumes "fn_exec E o1 args w = Some (r, w')"
  shows "world_reaches E w w'"
proof (cases o1)
  case (Method_object name z)
  then show ?thesis
    using assms by (auto simp: fn_exec_def exec_method_def world_reaches_def split: if_splits
        intro!: zones_reach dest!: api_Invoke_reaches)
qed (use assms in \<open>auto simp: fn_exec_def js_simps world_reaches_def elim!: register_at_reaches [THEN world_reachesD] dest: event_plain\<close>)

lemma fn_Invoke_reaches: "fn_Invoke E o1 name args w = Some (r, w') \<Longrightarrow> world_reaches E w w'"
  by (auto simp: fn_Invoke_def js_simps world_reaches_def split: if_splits sum.splits
      dest!: fn_exec_reaches on_function_reaches [where E = E])

interpretation fn_object: jsapi_object "function_ops E o1" "world_reaches E" for E o1
proof (unfold_locales, unfold function_ops_def js_ops.simps)
qed (auto simp: world_reaches_def dest!: on_function_reaches [where E = E] fn_Invoke_reaches)

lemma np_step_reaches:
  assumes "np_step E o1 c w = Some w'"
  shows "world_reaches E w w'"
proof (cases "o1 = Root")
  case True
  then show ?thesis
    using assms by (cases c) (auto simp: np_step_def Let_def vtable_def np_InvokeDefault_def scriptable.R_refl scriptable.np_Invalidate_R
        dest: scriptable.np_Invoke_R scriptable.np_GetProperty_R scriptable.np_SetProperty_R scriptable.np_RemoveProperty_R
          scriptable.np_Construct_R)
next
  case False
  then show ?thesis
    using assms by (cases c) (auto simp: np_step_def Let_def vtable_def np_InvokeDefault_def fn_object.R_refl fn_object.np_Invalidate_R
        dest: fn_object.np_Invoke_R fn_object.np_GetProperty_R fn_object.np_SetProperty_R fn_object.np_RemoveProperty_R
          fn_object.np_Construct_R)
qed

lemma np_run_reaches:
  "np_run E cs w = Some w' \<Longrightarrow> \<not> m_allowRemoveProperties (api w) \<Longrightarrow> reaches E (api w) (api w')"
proof (induction cs arbitrary: w)
  case (Cons x cs)
  obtain o1 c where x: "x = (o1, c)" by (cases x)
  then obtain w1 where w1: "np_step E o1 c w = Some w1" "np_run E cs w1 = Some w'" using Cons.prems by (auto simp: bind_Some_iff)
  have r: "reaches E (api w) (api w1)" using np_step_reaches [OF w1(1)] Cons.prems(2) by (simp add: world_reaches_def)
  then have "\<not> m_allowRemoveProperties (api w1)" using Cons.prems(2) by (simp add: reaches_def same_members_def)
  then show ?case using Cons.IH [OF w1(2)] reaches_trans [OF r] by blast
qed simp

section \<open>The library under the page\<close>

lemma page_lib_step:
  assumes "page_step P H S hp c p = Some p'"
  shows "\<exists>k. lib_reach P H S ((lib p)\<lparr>frames := k\<rparr>) (lib p') \<or> lib p' = lib p"
proof -
  have one: "lib_reach P H S s t" if "lib_step P H S s t" for s t using reach_step [OF reach_start that] .
  have f: "(lib p)\<lparr>frames := frames (lib p)\<rparr> = lib p" by simp
  note d = page_step_def bind_Some_iff Let_def
  show ?thesis
  proof (cases c)
    case Call_GetToken
    from Call_GetToken assms have "lib_reach P H S (lib p) (lib p') \<or> lib p' = lib p"
      by (auto simp: page_step_def GetToken_def bind_Some_iff Let_def split: if_splits
          intro: one [OF step_first] reach_step [OF one [OF step_first] step_current]
            reach_step [OF reach_step [OF one [OF step_first] step_current] step_select])
    then show ?thesis using f by metis
  next
    case Call_GetDeviceCount
    then obtain n s where "get_device_count H (lib p) = Some (n, s) \<and> lib p' = s \<or> lib p' = lib p"
      using assms by (fastforce simp: d GetDeviceCount_def split: if_splits)
    then show ?thesis using one [OF step_count] f by metis
  next
    case Call_GetPublicKey
    then have "(\<exists>b s. get_public_key P H S (lib p) = Some (b, s) \<and> lib p' = s) \<or> lib p' = lib p"
      using assms by (cases "fst (the (get_public_key P H S (lib p)))") (auto simp: d GetPublicKey_def split: if_splits)
    then show ?thesis using one [OF step_public] f by metis
  next
    case (Call_RsaEncrypt kt m pwd)
    then have "(\<exists>l f to cp k n to' s. rsa_encrypt P H S kt l f to cp ((lib p)\<lparr>frames := k\<rparr>) = Some (n, to', s) \<and> lib p' = s) \<or> lib p' = lib p"
      using assms by (fastforce simp: d RsaEncrypt_def split: if_splits)
    then show ?thesis using one step_encrypt by metis
  next
    case (Call_RsaDecrypt kt m pwd)
    then have "(\<exists>l f to cp k n to' s. rsa_decrypt P H S kt l f to cp ((lib p)\<lparr>frames := k\<rparr>) = Some (n, to', s) \<and> lib p' = s) \<or> lib p' = lib p"
      using assms by (fastforce simp: d RsaDecrypt_def split: if_splits)
    then show ?thesis using one step_decrypt by metis
  next
    case (Call_GetSignature ty m pwd)
    then have "(\<exists>m' l sg sl cp k e sg' sl' s. get_signature P H S ty m' l sg sl cp ((lib p)\<lparr>frames := k\<rparr>) = Some (e, sg', sl', s) \<and> lib p' = s) \<or> lib p' = lib p"
      using assms by (fastforce simp: d GetSignature_def split: if_splits)
    then show ?thesis using one step_sign by metis
  next
    case (Call_VerifySignature ty m sig)
    then have "(\<exists>m' l sg sl k e s. verify_signature P H S ty m' l sg sl ((lib p)\<lparr>frames := k\<rparr>) = Some (e, s) \<and> lib p' = s) \<or> lib p' = lib p"
      using assms by (fastforce simp: d VerifySignature_def split: if_splits)
    then show ?thesis using one step_verify by metis
  qed (use assms in \<open>auto simp: d echo_def testEvent_def set_testString_def split: if_splits\<close>)
qed

context hid_backend
begin

lemma page_run_keeps:
  "page_run P H S hp cs p = Some p' \<Longrightarrow> inv (hid (lib p)) \<Longrightarrow> session_ok (tk (lib p)) \<Longrightarrow>
    inv (hid (lib p')) \<and> held (hid (lib p')) = held (hid (lib p)) \<and> session_ok (tk (lib p'))"
proof (induction cs arbitrary: p)
  case (Cons c cs)
  obtain p1 where p1: "page_step P H S hp c p = Some p1" "page_run P H S hp cs p1 = Some p'"
    using Cons.prems(1) by (auto simp: bind_Some_iff)
  obtain k where "lib_reach P H S ((lib p)\<lparr>frames := k\<rparr>) (lib p1) \<or> lib p1 = lib p"
    using page_lib_step [OF p1(1)] by blast
  then have "inv (hid (lib p1)) \<and> held (hid (lib p1)) = held (hid (lib p)) \<and> session_ok (tk (lib p1))"
    using lib_reach_keeps [of P S "(lib p)\<lparr>frames := k\<rparr>" "lib p1"] Cons.prems(2,3) by auto
  then show ?case using Cons.IH [OF p1(2)] by simp
qed simp

end

end
