(* ===== verification/VariantProps.thy ===== *)
theory VariantProps
  imports Variant
begin

text \<open>The conversions of numbers: text and back, and from double to \<open>int\<close>.\<close>

section \<open>Decimal text\<close>

lemma digit_simps:
  assumes "k < 10"
  shows "is_digit (digit k)" "unat (digit k :: byte) = 48 + k" "(digit k :: byte) \<noteq> 45" "(digit k :: byte) \<noteq> 43" "\<not> is_space (digit k)"
proof -
  have "k \<in> {0..<10}" using assms by simp
  then have "k \<in> {0, 1, 2, 3, 4, 5, 6, 7, 8, 9}" by auto
  then show "is_digit (digit k)" "unat (digit k :: byte) = 48 + k" "(digit k :: byte) \<noteq> 45" "(digit k :: byte) \<noteq> 43" "\<not> is_space (digit k)"
    by (auto simp: is_digit_def is_space_def)
qed

lemma digits_are_digits: "list_all is_digit (digits n) \<and> digits n \<noteq> []"
proof (induction n rule: digits.induct)
  case (1 n)
  then show ?case by (subst digits.simps, subst digits.simps [of n]) (simp add: digit_simps)
qed

lemma fold_digits: "fold (\<lambda>b n. 10 * n + (unat b - 48)) (ds @ [digit k]) a = 10 * fold (\<lambda>b n. 10 * n + (unat b - 48)) ds a + k" if "k < 10" for a :: nat
  using digit_simps(2) [OF that] by simp

lemma digits_value_digits [simp]: "digits_value (digits n) = n"
proof (induction n rule: digits.induct)
  case (1 n)
  show ?case
  proof (cases "n < 10")
    case True
    then show ?thesis using digit_simps(2) [of n] by (simp add: digits_value_def digits.simps [of n])
  next
    case False
    have "digits_value (digits n) = 10 * digits_value (digits (n div 10)) + n mod 10"
      using False fold_digits [of "n mod 10" "digits (n div 10)" 0] by (simp add: digits_value_def digits.simps [of n])
    then show ?thesis using 1 False by simp
  qed
qed

lemma head_digit: "digits n = b # bs \<Longrightarrow> is_digit b"
  using digits_are_digits [of n] by simp

lemma digit_class: "is_digit b \<Longrightarrow> \<not> is_space b \<and> b \<noteq> 45 \<and> b \<noteq> 43"
  by (auto simp: is_digit_def is_space_def word_le_nat_alt)

lemma takeWhile_digits:
  assumes "rest = [] \<or> \<not> is_digit (hd rest)"
  shows "takeWhile is_digit (digits n @ rest) = digits n"
proof -
  have "\<forall>b\<in>set (digits n). is_digit b" using digits_are_digits [of n] by (simp add: list_all_iff)
  moreover have "takeWhile is_digit rest = []" using assms by (cases rest) auto
  ultimately show ?thesis by (simp add: takeWhile_append2)
qed

lemma parse_digits:
  assumes "rest = [] \<or> \<not> is_digit (hd rest)" "in_int (if neg then - int n else int n)"
  shows "parse_int (takeWhile is_space pre @ (if neg then [45] else []) @ digits n @ rest) = Some (if neg then - int n else int n)"
proof -
  obtain b bs where b: "digits n = b # bs" using digits_are_digits [of n] by (cases "digits n") auto
  have c: "\<not> is_space b" "b \<noteq> 45" "b \<noteq> 43" using digit_class [OF head_digit [OF b]] by simp_all
  have m: "\<not> is_space 45" by (simp add: is_space_def)
  have sp: "dropWhile is_space (takeWhile is_space pre @ xs) = dropWhile is_space xs" for xs
    by (rule dropWhile_append2) (blast dest: set_takeWhileD)
  let ?u = "(if neg then [45] else []) @ digits n @ rest"
  have d: "dropWhile is_space (takeWhile is_space pre @ ?u) = ?u"
    unfolding sp using b c(1) m by simp
  have t: "takeWhile is_digit (digits n @ rest) = digits n" by (rule takeWhile_digits [OF assms(1)])
  have ne: "digits n \<noteq> []" "digits_value (b # bs) = n" using b digits_value_digits [of n] by simp_all
  show ?thesis
    unfolding parse_int_def Let_def d
    using t ne assms(2) b c by (cases neg) auto
qed

text \<open>What \<open>convert_cast<std::string>\<close> makes of an \<open>int\<close> is read back, whatever follows it that is not a digit.\<close>

lemma parse_int_text:
  assumes "in_int i" "rest = [] \<or> \<not> is_digit (hd rest)"
  shows "parse_int (int_text i @ rest) = Some i"
proof -
  have n: "(if i < 0 then - int (nat \<bar>i\<bar>) else int (nat \<bar>i\<bar>)) = i" by simp
  show ?thesis
    using parse_digits [of rest "i < 0" "nat \<bar>i\<bar>" "[]", OF assms(2)] assms(1) unfolding n by (simp add: int_text_def)
qed

section \<open>Doubles\<close>

text \<open>The value without its fraction.\<close>

definition truncated :: "bool \<Rightarrow> nat \<Rightarrow> int \<Rightarrow> int" where
  "truncated s m e = (let (n, d) = frac m e in if s then - int (n div d) else int (n div d))"

lemma cast_int_truncates:
  "numeric_cast_int (Finite s m e) = Some (if in_int (truncated s m e) then Inr (truncated s m e) else Inl ())"
proof -
  obtain n d where f: "frac m e = (n, d)" by (cases "frac m e")
  have d: "0 < d" using frac_pos [of m e] f by simp
  have lo: "- int n \<le> (- (2 ^ 31) - 1) * int d \<longleftrightarrow> - int (n div d) < - (2 ^ 31)"
  proof -
    have "- int n \<le> (- (2 ^ 31) - 1) * int d \<longleftrightarrow> (2 ^ 31 + 1) * int d \<le> int n" by (simp add: algebra_simps)
    also have "\<dots> \<longleftrightarrow> (2 ^ 31 + 1) * d \<le> n"
    proof -
      have "(2 ^ 31 + 1) * int d = int ((2 ^ 31 + 1) * d)" by simp
      then show ?thesis by (metis of_nat_le_iff)
    qed
    also have "\<dots> \<longleftrightarrow> 2 ^ 31 + 1 \<le> n div d" using d by (simp add: less_eq_div_iff_mult_less_eq)
    also have "\<dots> \<longleftrightarrow> - int (n div d) < - (2 ^ 31)" by simp arith
    finally show ?thesis .
  qed
  have hi: "(2 ^ 31 - 1 + 1) * int d \<le> int n \<longleftrightarrow> \<not> int (n div d) < 2 ^ 31"
  proof -
    have "(2 ^ 31 - 1 + 1) * int d = int (2 ^ 31 * d)" by simp
    then have "(2 ^ 31 - 1 + 1) * int d \<le> int n \<longleftrightarrow> 2 ^ 31 * d \<le> n" by (metis of_nat_le_iff)
    also have "\<dots> \<longleftrightarrow> 2 ^ 31 \<le> n div d" using d by (simp add: less_eq_div_iff_mult_less_eq)
    also have "\<dots> \<longleftrightarrow> \<not> int (n div d) < 2 ^ 31" by simp arith
    finally show ?thesis .
  qed
  have "(- (2 ^ 31) - 1) * int d < 0" "0 < (2 ^ 31 - 1 + 1) * int d" using d by simp_all
  then have pos: "\<not> int n \<le> (- (2 ^ 31) - 1) * int d" "\<not> (2 ^ 31 - 1 + 1) * int d \<le> - int n" by linarith+
  have q: "- (2 ^ 31) \<le> int (n div d)" "- int (n div d) < 2 ^ 31" by simp_all
  show ?thesis
    using lo hi pos q unfolding numeric_cast_int_def truncated_def dbl.case f prod.case Let_def in_int_def LE_PrevLoT_def GE_SuccHiT_def
    by (cases s) auto
qed

text \<open>A whole number of up to six digits is printed as it is.\<close>

lemma digits_times_ten: "0 < k \<Longrightarrow> digits (10 * k) = digits k @ [48]"
  by (subst digits.simps) simp

lemma digits_scale: "0 < k \<Longrightarrow> digits (k * 10 ^ j) = digits k @ replicate j 48"
proof (induction j)
  case (Suc j)
  have "digits (k * 10 ^ Suc j) = digits (10 * (k * 10 ^ j))" by (simp add: algebra_simps)
  also have "\<dots> = digits (k * 10 ^ j) @ [48]" using Suc.prems by (intro digits_times_ten) simp
  finally show ?case using Suc by (simp add: replicate_append_same)
qed simp

lemma digits_bound: "k < 10 ^ length (digits k)"
proof (induction k rule: digits.induct)
  case (1 k)
  show ?case
  proof (cases "k < 10")
    case False
    then have "k div 10 < 10 ^ length (digits (k div 10))" using 1 by simp
    then have "k < 10 * 10 ^ length (digits (k div 10))" by (simp add: less_mult_imp_div_less div_less_iff_less_mult mult.commute)
    then show ?thesis using False by (simp add: digits.simps [of k])
  qed (simp add: digits.simps [of k])
qed

lemma digits_length: "k < 10 ^ j \<Longrightarrow> 0 < j \<Longrightarrow> length (digits k) \<le> j"
proof (induction k arbitrary: j rule: digits.induct)
  case (1 k)
  show ?case
  proof (cases "k < 10")
    case False
    obtain i where j: "j = Suc i" using "1.prems"(2) by (cases j) auto
    then have i: "0 < i" using "1.prems"(1) False by (cases i) auto
    have "k div 10 < 10 ^ i" using "1.prems"(1) j by (simp add: div_less_iff_less_mult mult.commute)
    then show ?thesis using "1.IH" [OF False _ i] j False by (simp add: digits.simps [of k])
  qed (use "1.prems" in \<open>simp add: digits.simps [of k]\<close>)
qed

lemma round_even_one [simp]: "round_even n 1 = n"
  by (simp add: round_even_def Let_def)

lemma whole_text:
  assumes "k < 10 ^ 6"
  shows "magnitude_text k 1 = digits k"
proof (cases "k = 0")
  case False
  let ?l = "length (digits k)"
  have l: "?l \<le> 6" "0 < ?l" using digits_length [OF assms] digits_are_digits [of k] by simp_all
  have e: "exponent k 1 = int ?l - 1" using False by (simp add: exponent_def)
  have n: "nat (5 - (int ?l - 1)) = 6 - ?l" "int ?l - 1 \<le> 5" "0 \<le> int ?l - 1" "int ?l - 1 < 6" "nat (int ?l - 1) + 1 = ?l"
    using l by arith+
  have "k * 10 ^ (6 - ?l) < 10 ^ ?l * 10 ^ (6 - ?l)" using digits_bound [of k] by simp
  also have "\<dots> = 10 ^ 6" using l by (simp flip: power_add)
  finally have q: "k * 10 ^ (6 - ?l) \<noteq> 10 ^ 6" by simp
  have s: "six_digits k 1 = (k * 10 ^ (6 - ?l), int ?l - 1)"
    unfolding six_digits_def Let_def e n(1) using n(2) q by (simp only: if_True if_False round_even_one)
  have d: "digits (k * 10 ^ (6 - ?l)) = digits k @ replicate (6 - ?l) 48" using False by (intro digits_scale) simp
  have "trim_zeros (replicate j 48) = []" for j by (simp add: trim_zeros_def)
  then show ?thesis
    using False n(3-5) unfolding magnitude_text_def s prod.case Let_def d n(5) by (simp add: with_point_def)
qed (simp add: magnitude_text_def digits.simps)

lemma double_text_whole: "k < 10 ^ 6 \<Longrightarrow> double_text (Finite s k 0) = (if s then [45] else []) @ digits k"
  using whole_text by (simp add: double_text_def frac_def)

section \<open>Properties\<close>

text \<open>
  C33. Whatever a script passes for a parameter of type \<open>int\<close>: a NaN alone has no defined result; a value that is taken is an \<open>int\<close>, and
  for a finite double it is the whole part, towards zero, which is taken exactly when it is an \<open>int\<close>.
\<close>

theorem int_argument:
  assumes "\<And>i. v = V_int i \<Longrightarrow> in_int i"
  shows "(convert_int v = None \<longleftrightarrow> (\<exists>s. v = V_double (Nan s))) \<and> (convert_int v = Some (Inr k) \<longrightarrow> in_int k) \<and>
    (v = V_double (Finite s m e) \<longrightarrow> (convert_int v = Some (Inr k) \<longleftrightarrow> k = truncated s m e \<and> in_int k))"
proof -
  have p: "parse_int t = Some i \<Longrightarrow> in_int i" for t i by (auto simp: parse_int_def Let_def split: if_splits)
  have b: "in_int 0" "in_int 1" by (simp_all add: in_int_def)
  have d: "convert_int (V_double (Finite s m e)) = Some (if in_int (truncated s m e) then Inr (truncated s m e) else Inl (T_double, T_int))"
    for s m e by (simp add: convert_int_def cast_int_truncates)
  have o1: "convert_int (V_double (Nan s)) = None" "convert_int (V_double (Infinite s)) = Some (Inl (T_double, T_int))" for s
    by (simp_all add: convert_int_def numeric_cast_int_def)
  have "convert_int v = None \<longleftrightarrow> (\<exists>s. v = V_double (Nan s))"
  proof (cases v)
    case (V_double x) then show ?thesis by (cases x) (simp_all add: d o1)
  qed (simp_all add: convert_int_def)
  moreover have "in_int k" if k: "convert_int v = Some (Inr k)"
  proof (cases v)
    case (V_double x) then show ?thesis using k by (cases x) (auto simp: d o1 split: if_splits)
  next
    case (V_string t) then show ?thesis using k p by (auto simp: convert_int_def split: option.splits)
  qed (use k assms b in \<open>auto simp: convert_int_def\<close>)
  ultimately show ?thesis using d by auto
qed

theorem int_argument_witness:
  "convert_int (V_double (Finite True 5 (-1))) = Some (Inr (- 2)) \<and> convert_int (V_double (Finite False 1 31)) \<noteq> Some (Inr (2 ^ 31))"
  using int_argument [of "V_double (Finite True 5 (-1))" "- 2" True 5 "- 1"]
    int_argument [of "V_double (Finite False 1 31)" "2 ^ 31" False 1 31]
  by (simp add: truncated_def frac_def in_int_def)

text \<open>
  Numbers as text: an \<open>int\<close> turned into a string is read back as that \<open>int\<close>, whatever follows it that is not a digit, and so is a whole
  double of up to six digits. A larger one is not: 1234567 becomes \<^verbatim>\<open>1.23457e+06\<close>, which is read as 1.
\<close>

theorem number_text_roundtrip:
  assumes "in_int i" "rest = [] \<or> \<not> is_digit (hd rest)"
  shows "(\<forall>t. convert_string (V_int i) = Inr t \<longrightarrow> convert_int (V_string (t @ rest)) = Some (Inr i)) \<and>
    (\<forall>s k t. i = (if s then - int k else int k) \<longrightarrow> k < 10 ^ 6 \<longrightarrow> convert_string (V_double (Finite s k 0)) = Inr t \<longrightarrow>
      convert_int (V_string (t @ rest)) = Some (Inr i)) \<and>
    (\<exists>t. convert_string (V_double (Finite False 1234567 0)) = Inr t \<and> convert_int (V_string t) = Some (Inr 1))"
proof (intro conjI)
  show "\<forall>t. convert_string (V_int i) = Inr t \<longrightarrow> convert_int (V_string (t @ rest)) = Some (Inr i)"
    using parse_int_text [OF assms] by (simp add: convert_string_def convert_int_def)
  show "\<forall>s k t. i = (if s then - int k else int k) \<longrightarrow> k < 10 ^ 6 \<longrightarrow> convert_string (V_double (Finite s k 0)) = Inr t \<longrightarrow>
      convert_int (V_string (t @ rest)) = Some (Inr i)"
  proof (intro allI impI)
    fix s k t
    assume i: "i = (if s then - int k else int k)" and k: "k < 10 ^ 6" "convert_string (V_double (Finite s k 0)) = Inr t"
    have "t = (if s then [45] else []) @ digits k" using k double_text_whole by (simp add: convert_string_def)
    then show "convert_int (V_string (t @ rest)) = Some (Inr i)"
      using parse_digits [of rest s k "[]", OF assms(2)] assms(1) i by (simp add: convert_int_def)
  qed
  let ?t = "[49, 46, 50, 51, 52, 53, 55, 101, 43, 48, 54] :: byte list"
  have "digits 1234567 = [49, 50, 51, 52, 53, 54, 55]" "digits 123457 = [49, 50, 51, 52, 53, 55]" "digits 6 = [54]" by (simp_all add: digits.simps)
  then have "double_text (Finite False 1234567 0) = ?t"
    by (simp add: double_text_def frac_def magnitude_text_def six_digits_def exponent_def round_even_def with_point_def trim_zeros_def)
  moreover have "parse_int ?t = Some 1" by code_simp
  ultimately show "\<exists>t. convert_string (V_double (Finite False 1234567 0)) = Inr t \<and> convert_int (V_string t) = Some (Inr 1)"
    by (simp add: convert_string_def convert_int_def)
qed

theorem number_text_roundtrip_witness:
  "convert_int (V_string (int_text (- 42) @ [32, 120])) = Some (Inr (- 42))"
  using number_text_roundtrip [of "- 42" "[32, 120]"] by (simp add: in_int_def is_digit_def convert_string_def)

end
