(* ===== verification/ScriptCalls.thy ===== *)
theory ScriptCalls
  imports ScriptLemmas VariantProps PluginProps
begin

text \<open>Calls of a script that uses the plugin through the browser: which arguments they take, and what becomes of them.\<close>

section \<open>A call from a script\<close>

text \<open>
  \<open>plugin.name(args)\<close>: since there are method objects, the browser is told that \<open>name\<close> is a property, fetches the method object and calls it.
\<close>

definition script_call ::
    "'h script_env \<Rightarrow> string \<Rightarrow> npvariant list \<Rightarrow> 'h world \<Rightarrow> (bool \<times> npvariant \<times> 'h world) option" where
  "script_call E name args w = do {
     (ok, r, w1) \<leftarrow> np_GetProperty (e_type_name E) (vtable E Root) Root (Id_string name) w;
     case r of
       NP_Object (Plugin_object f) \<Rightarrow> np_InvokeDefault (e_type_name E) (vtable E f) f args w1
     | _ \<Rightarrow> Some (False, NP_Void, w1)
   }"

text \<open>The methods registered, those of \<open>JSAPIAuto\<close> included, and an object on which they can be called.\<close>

definition all_methods :: "(string \<times> meth) list" where
  "all_methods = [(''toString'', M_toString), (''getAttribute'', M_getAttribute), (''setAttribute'', M_setAttribute)] @ plugin_methods"

definition can_call :: "'h fum_api \<Rightarrow> bool" where
  "can_call a \<longleftrightarrow> m_valid a \<and> m_defaultZone a = 0 \<and> m_pushedZones a = [] \<and> m_allowMethodObjects a \<and> m_allowDynamicAttributes a \<and>
     \<not> m_allowRemoveProperties a \<and>
     list_all (\<lambda>(name, m). map_of (m_methodFunctorMap a) name = Some m \<and> map_of (m_zoneMap a) name = Some 0 \<and>
       map_of (m_propertyFunctorsMap a) name = None) all_methods"

definition script_ready :: "'h world \<Rightarrow> bool" where
  "script_ready w \<longleftrightarrow> (\<forall>o1. np_valid w o1) \<and> host_alive w \<and> api_alive w \<and> can_call (api w) \<and>
     (\<forall>name. getZone (fn_objects w (Method_object name 0)) = 0)"

definition any_order :: "'h script_env \<Rightarrow> bool" where
  "any_order E \<longleftrightarrow> (\<forall>n. set (e_order E n) = {0..<n} \<and> distinct (e_order E n))"

lemma registered_maps:
  "m_methodFunctorMap (registerMethod name f a) = smap_set name f (m_methodFunctorMap a)"
  "m_methodFunctorMap (registerProperty name g a) = m_methodFunctorMap a"
  "m_propertyFunctorsMap (registerMethod name f a) = m_propertyFunctorsMap a"
  "m_propertyFunctorsMap (registerProperty name g a) = smap_set name g (m_propertyFunctorsMap a)"
  "m_zoneMap (registerMethod name f a) = smap_set name (getZone a) (m_zoneMap a)"
  "m_zoneMap (registerProperty name g a) = smap_set name (getZone a) (m_zoneMap a)"
  "getZone (registerMethod name f a) = getZone a" "getZone (registerProperty name g a) = getZone a"
  "m_valid (registerMethod name f a) = m_valid a" "m_valid (registerProperty name g a) = m_valid a"
  "m_defaultZone (registerMethod name f a) = m_defaultZone a" "m_defaultZone (registerProperty name g a) = m_defaultZone a"
  "m_pushedZones (registerMethod name f a) = m_pushedZones a" "m_pushedZones (registerProperty name g a) = m_pushedZones a"
  "m_allowMethodObjects (registerMethod name f a) = m_allowMethodObjects a"
  "m_allowMethodObjects (registerProperty name g a) = m_allowMethodObjects a"
  "m_allowDynamicAttributes (registerMethod name f a) = m_allowDynamicAttributes a"
  "m_allowDynamicAttributes (registerProperty name g a) = m_allowDynamicAttributes a"
  "m_allowRemoveProperties (registerMethod name f a) = m_allowRemoveProperties a"
  "m_allowRemoveProperties (registerProperty name g a) = m_allowRemoveProperties a"
  "m_attributes (registerMethod name f a) = m_attributes a" "m_attributes (registerProperty name g a) = m_attributes a"
  "m_eventMap (registerMethod name f a) = m_eventMap a" "m_eventMap (registerProperty name g a) = m_eventMap a"
  "jsapi.more (registerMethod name f a) = jsapi.more a" "jsapi.more (registerProperty name g a) = jsapi.more a"
  by (simp_all add: registerMethod_def registerProperty_def getZone_def)

lemma reserved_maps:
  "m_methodFunctorMap (fold setReserved ns a) = m_methodFunctorMap a" "m_propertyFunctorsMap (fold setReserved ns a) = m_propertyFunctorsMap a"
  "m_zoneMap (fold setReserved ns a) = m_zoneMap a" "m_valid (fold setReserved ns a) = m_valid a"
  "m_defaultZone (fold setReserved ns a) = m_defaultZone a" "m_pushedZones (fold setReserved ns a) = m_pushedZones a"
  "m_allowMethodObjects (fold setReserved ns a) = m_allowMethodObjects a"
  "m_allowDynamicAttributes (fold setReserved ns a) = m_allowDynamicAttributes a"
  "m_allowRemoveProperties (fold setReserved ns a) = m_allowRemoveProperties a" "m_attributes (fold setReserved ns a) = m_attributes a"
  "m_eventMap (fold setReserved ns a) = m_eventMap a"
  by (induction ns arbitrary: a) (simp_all add: setReserved_def)

lemma extend_maps [simp]:
  "m_methodFunctorMap (jsapi.extend a x) = m_methodFunctorMap a" "m_propertyFunctorsMap (jsapi.extend a x) = m_propertyFunctorsMap a"
  "m_zoneMap (jsapi.extend a x) = m_zoneMap a" "m_valid (jsapi.extend a x) = m_valid a"
  "m_defaultZone (jsapi.extend a x) = m_defaultZone a" "m_pushedZones (jsapi.extend a x) = m_pushedZones a"
  "m_allowMethodObjects (jsapi.extend a x) = m_allowMethodObjects a"
  "m_allowDynamicAttributes (jsapi.extend a x) = m_allowDynamicAttributes a"
  "m_allowRemoveProperties (jsapi.extend a x) = m_allowRemoveProperties a" "m_attributes (jsapi.extend a x) = m_attributes a"
  "m_eventMap (jsapi.extend a x) = m_eventMap a" "getZone (jsapi.extend a x) = getZone a" "jsapi.more (jsapi.extend a x) = x"
  by (simp_all add: jsapi.defs getZone_def)

lemmas init_maps = init_def Let_def registered_maps reserved_maps pushZone_def popZone_def blank_def getZone_def SecurityScope_Public_def

lemma new_api_can_call: "can_call (new_api L ser n s)"
  by (simp add: can_call_def new_api_def all_methods_def plugin_methods_def plugin_properties_def init_maps)

lemma new_function_zone: "getZone (new_function name z) = z"
  by (simp add: new_function_def init_maps)

lemma new_api_page: "page (new_api L ser n s) = new_plugin L ser n s"
proof -
  have "page (fold (\<lambda>(name, f). registerProperty name f) ps a) = page a" "page (fold (\<lambda>(name, f). registerMethod name f) ms a) = page a"
    for ps ms and a :: "'a fum_api"
    by (induction ps arbitrary: a; force simp: registerProperty_def) (induction ms arbitrary: a; force simp: registerMethod_def)
  then show ?thesis by (simp add: new_api_def jsapi.defs fum_api.defs)
qed

lemma new_world_ready: "script_ready (new_world L ser n s)"
  by (simp add: script_ready_def new_world_def new_api_can_call fresh_function_def new_function_zone)

section \<open>Evaluating arguments\<close>

lemma eval_args_ok:
  assumes "\<forall>i\<in>set is. conv i = Some (Inr (xs ! i))"
  shows "eval_args conv is vs = Some (Inr (fold (\<lambda>i vs. vs[i := xs ! i]) is vs))"
  using assms by (induction "is" arbitrary: vs) simp_all

lemma assigned_nth:
  "j < length vs \<Longrightarrow> length (fold (\<lambda>i vs. vs[i := xs ! i]) is vs) = length vs \<and>
    fold (\<lambda>i vs. vs[i := xs ! i]) is vs ! j = (if j \<in> set is then xs ! j else vs ! j)"
  by (induction "is" arbitrary: vs) (auto simp: nth_list_update)

text \<open>In whatever order the arguments are converted, when each succeeds the values are those.\<close>

lemma eval_args_all:
  assumes "any_order E" "length xs = n" "\<forall>i<n. conv i = Some (Inr (xs ! i))"
  shows "eval_args conv (e_order E n) (replicate n V_empty) = Some (Inr xs)"
proof -
  have s: "set (e_order E n) = {0..<n}" using assms(1) by (simp add: any_order_def)
  let ?r = "fold (\<lambda>i vs. vs[i := xs ! i]) (e_order E n) (replicate n V_empty)"
  have "length ?r = n"
    using assigned_nth [where vs = "replicate n V_empty" and xs = xs] by (cases n) (auto simp: fold_invariant [where Q = "\<lambda>_. True"])
  moreover have "?r ! j = xs ! j" if "j < n" for j
    using assigned_nth [of j "replicate n V_empty" xs "e_order E n"] that s by simp
  ultimately have "?r = xs" using assms(2) by (auto intro: nth_equalityI)
  then show ?thesis using eval_args_ok [of "e_order E n" conv xs] assms(3) s by simp
qed

text \<open>When one fails and none is undefined, the call ends with the exception of one that fails.\<close>

lemma eval_args_error:
  assumes "j \<in> set is" "conv j = Some (Inl e)" "\<forall>i\<in>set is. conv i \<noteq> None"
  shows "\<exists>i\<in>set is. \<exists>e. conv i = Some (Inl e) \<and> eval_args conv is vs = Some (Inl e)"
  using assms
proof (induction "is" arbitrary: vs)
  case (Cons i "is")
  then obtain r where r: "conv i = Some r" by auto
  show ?case
  proof (cases r)
    case (Inr v)
    then have "j \<in> set is" using Cons.prems(1,2) r by auto
    then show ?thesis using Cons.IH [of "vs[i := v]"] Cons.prems r Inr by auto
  qed (use r in auto)
qed simp

lemma eval_args_undefined:
  assumes "j \<in> set is" "conv j = None" "\<forall>i\<in>set is. \<forall>e. conv i \<noteq> Some (Inl e)"
  shows "eval_args conv is vs = None"
  using assms
proof (induction "is" arbitrary: vs)
  case (Cons i "is")
  show ?case
  proof (cases "conv i")
    case (Some r)
    then obtain v where "r = Inr v" using Cons.prems(3) by (cases r) auto
    then show ?thesis using Cons.IH [of "vs[i := v]"] Cons.prems Some by auto
  qed simp
qed simp

section \<open>One call\<close>

text \<open>The object as the called method finds it: the method object is remembered and its zone pushed.\<close>

definition in_call :: "string \<Rightarrow> 'h fum_api \<Rightarrow> 'h fum_api" where
  "in_call name a = pushZone 0 (a\<lparr>m_methodObjectMap := List.insert (name, 0) (m_methodObjectMap a)\<rparr>)"

lemma in_call_simps [simp]:
  "m_valid (in_call name a) = m_valid a" "m_methodFunctorMap (in_call name a) = m_methodFunctorMap a"
  "m_zoneMap (in_call name a) = m_zoneMap a" "getZone (in_call name a) = 0" "page (in_call name a) = page a"
  by (simp_all add: in_call_def pushZone_def getZone_def)

lemma can_call_method:
  assumes "can_call a" "(name, m) \<in> set all_methods"
  shows "map_of (m_methodFunctorMap a) name = Some m" "map_of (m_zoneMap a) name = Some 0"
    "map_of (m_propertyFunctorsMap a) name = None" "name \<notin> set own_names" "name \<noteq> []"
proof -
  show "map_of (m_methodFunctorMap a) name = Some m" "map_of (m_zoneMap a) name = Some 0" "map_of (m_propertyFunctorsMap a) name = None"
    using assms by (auto simp: can_call_def list_all_iff)
  show "name \<notin> set own_names" "name \<noteq> []" using assms(2) by (auto simp: all_methods_def plugin_methods_def own_names_def)
qed

lemma script_call_eq:
  assumes "script_ready w" "(name, m) \<in> set all_methods"
  shows "script_call E name args w =
    np_catch (e_type_name E) (Method_object name 0) NP_Void (map_option (\<lambda>(r, a). (map_sum id getNPVariant r, w\<lparr>api := popZone a\<rparr>))
      (catch_cast (fum_call E m (map getVariant args) (in_call name (api w)))))"
proof -
  have c: "can_call (api w)" and v: "np_valid w o1" "host_alive w" "api_alive w" "getZone (fn_objects w (Method_object name 0)) = 0" for o1
    using assms(1) by (simp_all add: script_ready_def)
  note k = can_call_method [OF c assms(2)]
  have z: "getZone (api w) = 0" "m_valid (api w)" "m_allowMethodObjects (api w)" using c by (simp_all add: can_call_def getZone_def)
  have h: "HasMethod name (api w)" "memberAccessible name (api w)" using k z by (simp_all add: HasMethod_def memberAccessible_def)
  let ?w = "w\<lparr>api := (api w)\<lparr>m_methodObjectMap := List.insert (name, 0) (m_methodObjectMap (api w))\<rparr>\<rparr>"
  have "np_GetProperty (e_type_name E) (vtable E Root) Root (Id_string name) w =
      Some (True, NP_Object (Plugin_object (Method_object name 0)), ?w)"
    using v k(4) h z by (simp add: np_GetProperty_def vtable_def api_ops_def np_isValid_def own_names_def HasMethodObject_def on_api_def
        GetMethodObject_def js_simps getNPVariant_def)
  moreover have "np_InvokeDefault (e_type_name E) (vtable E (Method_object name 0)) (Method_object name 0) args ?w =
      np_catch (e_type_name E) (Method_object name 0) NP_Void (map_option (\<lambda>(r, a). (map_sum id getNPVariant r, w\<lparr>api := popZone a\<rparr>))
      (catch_cast (fum_call E m (map getVariant args) (in_call name (api w)))))"
    using v k z by (simp add: np_InvokeDefault_def np_Invoke_def vtable_def function_ops_def np_isValid_def object_expired_def fn_Invoke_def
        fn_exec_def exec_method_def api_Invoke_def Invoke_def memberAccessible_def option.map_comp o_def case_prod_unfold flip: in_call_def)
  ultimately show ?thesis by (simp add: script_call_def)
qed

text \<open>What a call leaves of the object.\<close>

lemma after_call:
  assumes "script_ready w" "a = (in_call name (api w))\<lparr>page := p, queued := q, m_attributes := at\<rparr>"
  shows "script_ready (w\<lparr>api := popZone a\<rparr>)" "page (popZone a) = p"
  using assms by (simp_all add: script_ready_def can_call_def in_call_def pushZone_def popZone_def)

lemma script_call_value:
  assumes "script_ready w" "(name, m) \<in> set all_methods"
    and "fum_call E m (map getVariant args) (in_call name (api w)) = Some (Inr v, (in_call name (api w))\<lparr>page := p\<rparr>)"
  shows "\<exists>w'. script_call E name args w = Some (True, getNPVariant v, w') \<and> page (api w') = p \<and> script_ready w'"
proof -
  let ?a = "(in_call name (api w))\<lparr>page := p\<rparr>"
  have "?a = (in_call name (api w))\<lparr>page := p, queued := queued (api w), m_attributes := m_attributes (api w)\<rparr>"
    by (simp add: in_call_def pushZone_def)
  from after_call [OF assms(1) this]
  show ?thesis using assms(3) by (simp add: script_call_eq [OF assms(1,2)] catch_cast_def np_catch_def)
qed

lemma script_call_error:
  assumes "script_ready w" "(name, m) \<in> set all_methods"
    and "fum_call E m (map getVariant args) (in_call name (api w)) = Some (Inl (Invalid_arguments x), in_call name (api w))"
  shows "\<exists>w'. script_call E name args w = Some (False, NP_Void, w') \<and> page (api w') = page (api w) \<and> script_ready w' \<and>
    last_message w' = V_string (bytes (what (e_type_name E) (Invalid_arguments x)))"
proof -
  let ?a = "in_call name (api w)"
  have "?a = ?a\<lparr>page := page (api w), queued := queued (api w), m_attributes := m_attributes (api w)\<rparr>"
    by (simp add: in_call_def pushZone_def)
  from after_call [OF assms(1) this]
  have "script_ready (w\<lparr>api := popZone ?a\<rparr>)" "page (popZone ?a) = page (api w)" .
  then show ?thesis
    using assms(3) by (simp add: script_call_eq [OF assms(1,2)] catch_cast_def np_catch_def) (simp add: script_ready_def)
qed

lemma script_call_undefined:
  assumes "script_ready w" "(name, m) \<in> set all_methods" "fum_call E m (map getVariant args) (in_call name (api w)) = None"
  shows "script_call E name args w = None"
  using assms(3) by (simp add: script_call_eq [OF assms(1,2)] catch_cast_def np_catch_def)

section \<open>Arguments of a call\<close>

text \<open>What a parameter of each type does not take, and the calls whose arguments do not fit; a NaN is left out.\<close>

definition wrong_type :: "ptype \<Rightarrow> variant \<Rightarrow> bool" where
  "wrong_type ty v = (case ty of
     A_variant \<Rightarrow> False
   | A_string \<Rightarrow> (case v of V_string s \<Rightarrow> False | V_int i \<Rightarrow> False | V_double d \<Rightarrow> False | V_bool b \<Rightarrow> False | _ \<Rightarrow> True)
   | A_int \<Rightarrow> (case v of
       V_string s \<Rightarrow> parse_int s = None
     | V_int i \<Rightarrow> False
     | V_double (Finite s m e) \<Rightarrow> \<not> in_int (truncated s m e)
     | V_bool b \<Rightarrow> False
     | _ \<Rightarrow> True))"

definition bad_call :: "ptype list \<Rightarrow> variant list \<Rightarrow> bool" where
  "bad_call tys args \<longleftrightarrow> tys \<noteq> [] \<and> length tys < length args \<or>
     (\<exists>i<length tys. if i < length args then wrong_type (tys ! i) (args ! i) else tys ! i \<noteq> A_variant)"

fun is_nan :: "variant \<Rightarrow> bool" where
  "is_nan (V_double (Nan s)) = True"
| "is_nan v = False"

definition has_type :: "ptype \<Rightarrow> variant \<Rightarrow> bool" where
  "has_type ty v = (case ty of A_variant \<Rightarrow> True | A_string \<Rightarrow> \<exists>s. v = V_string s | A_int \<Rightarrow> \<exists>i. v = V_int i)"

lemma convert_value_cases:
  assumes "\<not> is_nan v"
  shows "if wrong_type ty v then \<exists>x. convert_value ty v k = Some (Inl (Invalid_arguments x))
    else \<exists>u. convert_value ty v k = Some (Inr u) \<and> has_type ty u"
proof (cases ty)
  case A_int
  then show ?thesis
    by (cases v rule: is_nan.cases)
      (use assms in \<open>auto simp: wrong_type_def has_type_def convert_int_def numeric_cast_int_def [of "Infinite _"] cast_int_truncates bad_argument_def split: option.splits\<close>)
next
  case A_string
  then show ?thesis by (cases v) (auto simp: wrong_type_def has_type_def convert_string_def bad_argument_def)
qed (simp add: wrong_type_def has_type_def)

text \<open>Whether the argument for parameter \<open>i\<close> ends the call; the last one is where too many are found.\<close>

definition bad_arg :: "ptype list \<Rightarrow> variant list \<Rightarrow> nat \<Rightarrow> bool" where
  "bad_arg tys args i \<longleftrightarrow> Suc i = length tys \<and> length tys < length args \<or>
     (if i < length args then wrong_type (tys ! i) (args ! i) else tys ! i \<noteq> A_variant)"

lemma bad_call_iff: "bad_call tys args \<longleftrightarrow> (\<exists>i<length tys. bad_arg tys args i)"
proof (cases "tys \<noteq> [] \<and> length tys < length args")
  case True
  then have "length tys - 1 < length tys" "bad_arg tys args (length tys - 1)" by (simp_all add: bad_arg_def)
  then have "\<exists>i<length tys. bad_arg tys args i" by blast
  then show ?thesis using True by (simp add: bad_call_def)
next
  case False
  then have "\<not> (Suc i = length tys \<and> length tys < length args)" for i by auto
  then show ?thesis using False by (simp only: bad_call_def bad_arg_def simp_thms)
qed

lemma convert_arg_cases:
  assumes "i < length tys" "\<forall>v\<in>set args. \<not> is_nan v"
  shows "if bad_arg tys args i
    then \<exists>x. convert_arg tys args i = Some (Inl (Invalid_arguments x))
    else \<exists>u. convert_arg tys args i = Some (Inr u) \<and> has_type (tys ! i) u"
proof -
  have soft: "if (if i < length args then wrong_type (tys ! i) (args ! i) else tys ! i \<noteq> A_variant)
    then \<exists>x. convertArgumentSoft (tys ! i) args (Suc i) = Some (Inl (Invalid_arguments x))
    else \<exists>u. convertArgumentSoft (tys ! i) args (Suc i) = Some (Inr u) \<and> has_type (tys ! i) u"
  proof (cases "i < length args")
    case True
    then have "\<not> is_nan (args ! i)" using assms(2) by simp
    from convert_value_cases [OF this, of "tys ! i" "Some (Suc i)"] show ?thesis using True by (simp add: convertArgumentSoft_def)
  qed (simp add: convertArgumentSoft_def has_type_def)
  show ?thesis
  proof (cases "Suc i = length tys \<and> length tys < length args")
    case True
    then show ?thesis by (simp add: convert_arg_def convertLastArgument_def bad_arg_def)
  next
    case False
    then have "convert_arg tys args i = convertArgumentSoft (tys ! i) args (Suc i)"
      by (auto simp: convert_arg_def convertLastArgument_def)
    then show ?thesis using soft False by (simp only: bad_arg_def simp_thms)
  qed
qed

lemma bad_call_error:
  assumes "any_order E" "bad_call (params m) args" "\<forall>v\<in>set args. \<not> is_nan v"
  shows "\<exists>x. \<forall>a. fum_call E m args a = Some (Inl (Invalid_arguments x), a)"
proof -
  let ?t = "params m"
  have s: "set (e_order E (length ?t)) = {0..<length ?t}" using assms(1) by (simp add: any_order_def)
  obtain j where j: "j < length ?t" "bad_arg ?t args j" using assms(2) unfolding bad_call_iff by blast
  then obtain x where x: "convert_arg ?t args j = Some (Inl (Invalid_arguments x))" using convert_arg_cases [OF j(1) assms(3)] by auto
  have c: "convert_arg ?t args i \<noteq> None \<and> (\<forall>e. convert_arg ?t args i = Some (Inl e) \<longrightarrow> (\<exists>x. e = Invalid_arguments x))"
    if "i < length ?t" for i
    using convert_arg_cases [OF that assms(3)] by (auto split: if_splits)
  have "j \<in> set (e_order E (length ?t))" "\<forall>i\<in>set (e_order E (length ?t)). convert_arg ?t args i \<noteq> None" using s j c by auto
  from eval_args_error [OF this(1) x this(2)]
  obtain e i where e: "i \<in> set (e_order E (length ?t))" "convert_arg ?t args i = Some (Inl e)"
    "eval_args (convert_arg ?t args) (e_order E (length ?t)) (replicate (length ?t) V_empty) = Some (Inl e)" by blast
  then obtain y where "e = Invalid_arguments y" using c [of i] s by auto
  then show ?thesis using e(3) by (auto simp: fum_call_def method_wrapper_def Let_def throw_def)
qed

lemma good_call_applies:
  assumes "any_order E" "\<not> bad_call (params m) args" "\<forall>v\<in>set args. \<not> is_nan v"
  shows "\<exists>vs. list_all2 has_type (params m) vs \<and> (\<forall>a. fum_call E m args a = fum_apply E m vs a)"
proof -
  let ?t = "params m"
  have "\<exists>u. convert_arg ?t args i = Some (Inr u) \<and> has_type (?t ! i) u" if "i < length ?t" for i
    using convert_arg_cases [OF that assms(3)] assms(2) that unfolding bad_call_iff by (simp split: if_splits)
  then obtain f where f: "\<forall>i<length ?t. convert_arg ?t args i = Some (Inr (f i)) \<and> has_type (?t ! i) (f i)" by metis
  let ?vs = "map f [0..<length ?t]"
  have "eval_args (convert_arg ?t args) (e_order E (length ?t)) (replicate (length ?t) V_empty) = Some (Inr ?vs)"
    using f by (intro eval_args_all [OF assms(1)]) simp_all
  moreover have "list_all2 has_type ?t ?vs" using f by (simp add: list_all2_conv_all_nth)
  ultimately show ?thesis by (auto simp: fum_call_def method_wrapper_def Let_def)
qed

text \<open>A call with a number and two strings.\<close>

lemma three_arguments:
  assumes "any_order E" "params m = [A_int, A_string, A_string]" "convert_int k = Some (Inr n)"
  shows "fum_call E m [k, V_string s, V_string t] a = fum_apply E m [V_int n, V_string s, V_string t] a"
proof -
  have "eval_args (convert_arg (params m) [k, V_string s, V_string t]) (e_order E 3) (replicate 3 V_empty) = Some (Inr [V_int n, V_string s, V_string t])"
    using assms(2,3) by (intro eval_args_all [OF assms(1)]) (auto simp: less_Suc_eq numeral_3_eq_3 convert_arg_def convertLastArgument_def
        convertArgumentSoft_def convert_string_def)
  then show ?thesis using assms(2) by (simp add: fum_call_def method_wrapper_def numeral_3_eq_3)
qed

lemma no_arguments: "params m = [] \<Longrightarrow> any_order E \<Longrightarrow> fum_call E m args a = fum_apply E m [] a"
  using eval_args_all [of E "[]" 0] by (simp add: fum_call_def method_wrapper_def Let_def)

end
