(* ===== verification/ScriptProps.thy ===== *)
theory ScriptProps
  imports ScriptCalls
begin

text \<open>What a script gets that uses the plugin through the browser, and what it cannot do.\<close>

section \<open>A concrete browser\<close>

text \<open>A surrounding in which the compiler evaluates arguments from the last to the first.\<close>

definition example_env :: "ust script_env" where
  "example_env = \<lparr>e_platform = example_platform, e_hidapi = libusb_backend (example_usb (0, 8)), e_ssl = example_padding,
     e_heap_pad = 0, e_version = [49], e_order = (\<lambda>n. rev [0..<n]), e_array = (\<lambda>l. Inr []), e_type_name = (\<lambda>t. ''type'')\<rparr>"

definition example_world :: "ust world" where
  "example_world = new_world \<lparr>ld_open = True, ld_error = (\<lambda>name. False)\<rparr> [0, 0, 0, 0] 0 example_start"

lemma example_world_ok: "any_order example_env" "script_ready example_world" "fresh_page (page (api example_world))"
proof -
  show "any_order example_env" by (simp add: any_order_def example_env_def)
  show "script_ready example_world" unfolding example_world_def by (rule new_world_ready)
  have "page (api example_world) = example_page" by (simp add: example_world_def new_world_def new_api_page example_page_def)
  then show "fresh_page (page (api example_world))" using example_page_ok by simp
qed

lemma example_padding_ok: "openssl_succeeds example_padding" "rsa_pair example_padding pub priv [72, 105]"
  by (simp_all add: openssl_succeeds_def rsa_pair_def example_padding_def example_ssl_def)

lemma method_names: "(''GetToken'', M_GetToken) \<in> set all_methods" "(''RsaEncrypt'', M_RsaEncrypt) \<in> set all_methods"
  "(''RsaDecrypt'', M_RsaDecrypt) \<in> set all_methods" "(''testEvent'', M_testEvent) \<in> set all_methods"
  "(''setAttribute'', M_setAttribute) \<in> set all_methods"
  by (simp_all add: all_methods_def plugin_methods_def)

text \<open>A call of a script is two entries into the plugin.\<close>

lemma script_call_run:
  assumes "script_call E name args w = Some (ok, r, w')"
  shows "\<exists>cs. cs \<noteq> [] \<and> np_run E cs w = Some w'"
proof -
  obtain ok1 v w1 where g: "np_GetProperty (e_type_name E) (vtable E Root) Root (Id_string name) w = Some (ok1, v, w1)"
    using assms by (auto simp: script_call_def bind_Some_iff)
  then have s: "np_step E Root (NP_GetProperty (Id_string name)) w = Some w1" by (simp add: np_step_def Let_def)
  consider f where "v = NP_Object (Plugin_object f)" | "w' = w1"
    using assms g by (auto simp: script_call_def split: npvariant.splits np_object.splits)
  then show ?thesis
  proof cases
    case 1
    then have "np_step E f (NP_InvokeDefault args) w1 = Some w'" using assms g by (simp add: script_call_def np_step_def Let_def)
    then have "np_run E [(Root, NP_GetProperty (Id_string name)), (f, NP_InvokeDefault args)] w = Some w'" using s by simp
    then show ?thesis by blast
  next
    case 2
    then have "np_run E [(Root, NP_GetProperty (Id_string name))] w = Some w'" using s by simp
    then show ?thesis by blast
  qed
qed

lemma example_token_got:
  "\<exists>w1 cs. np_run example_env cs example_world = Some w1 \<and> api_alive w1 \<and>
    GetToken example_platform (libusb_backend (example_usb (0, 8))) example_page = Some (page (api w1))"
proof -
  obtain p1 where p: "GetToken example_platform (libusb_backend (example_usb (0, 8))) example_page = Some p1"
    using page_roundtrip_attached [OF plugged_attached [OF example_plugged [of "(0, 8)"]] _ _ _ example_ok(4) example_padding_ok(1) example_usable
        example_ok(7) example_private example_padding_ok(2)] example_page_ok unfolding fresh_page_def by fastforce
  have pg: "page (api example_world) = example_page" by (simp add: example_world_def new_world_def new_api_page example_page_def)
  have "fum_call example_env M_GetToken (map getVariant []) (in_call ''GetToken'' (api example_world)) =
      Some (Inr V_empty, (in_call ''GetToken'' (api example_world))\<lparr>page := p1\<rparr>)"
    using no_arguments [of M_GetToken example_env] example_world_ok(1) p pg
    by (simp add: fum_apply_def Let_def with_page_def) (simp add: example_env_def)
  from script_call_value [OF example_world_ok(2) method_names(1) this]
  obtain w1 where "script_call example_env ''GetToken'' [] example_world = Some (True, getNPVariant V_empty, w1)"
    "page (api w1) = p1" "script_ready w1" by blast
  then show ?thesis using script_call_run p unfolding script_ready_def by fastforce
qed

section \<open>Whatever a script does\<close>

text \<open>
  C5. Whatever a page does with the plugin's objects through the entry points of the browser, on the scriptable object, on method
  objects and on the functions of the wrappers, with any arguments: the plugin gets where it is by calls of its methods, and over
  libusb no device stays open, neither in HIDAPI nor in the system, the structures of HIDAPI are consistent, and at most entry 0 of
  \<open>tk\<close> is in use. The tables in which the constructor registers methods and properties are as the constructor left them, and no
  security zone stays pushed. (The members a page sees are another matter: it can set and delete attributes, and one with the name of
  a method takes its place.)
\<close>

theorem browser_keeps_library:
  assumes "e_hidapi E = libusb_backend U" "lib_start h s" "usb_inv h" "np_run E cs (new_world L ser n s) = Some w"
  shows "(\<exists>ps. page_run (e_platform E) (e_hidapi E) (e_ssl E) (e_heap_pad E) ps (new_plugin L ser n s) = Some (page (api w))) \<and>
    usb_inv (hid (lib (page (api w)))) \<and> usb_live (hid (lib (page (api w)))) = usb_live h \<and>
    handles (hid (lib (page (api w)))) = handles h \<and> session_ok (tk (lib (page (api w)))) \<and>
    m_methodFunctorMap (api w) = m_methodFunctorMap (new_api L ser n s) \<and>
    m_propertyFunctorsMap (api w) = m_propertyFunctorsMap (new_api L ser n s) \<and> m_pushedZones (api w) = []"
proof -
  let ?a = "new_api L ser n s"
  have c: "\<not> m_allowRemoveProperties ?a" "m_pushedZones ?a = []"
    using new_api_can_call [of L ser n s] by (simp_all add: can_call_def)
  have r: "reaches E ?a (api w)" using np_run_reaches [OF assms(4)] c by (simp add: new_world_def)
  then obtain ps where ps: "page_runs E ps (page ?a) = Some (page (api w))" unfolding reaches_def by blast
  have "session_ok (tk s)" "hid s = h" using assms(2) session_ok_zero by (simp_all add: lib_start_def)
  then have "hid (lib (page ?a)) = h" "session_ok (tk (lib (page ?a)))" by (simp_all add: new_api_page new_plugin_def split_beta)
  then have "usb_inv (hid (lib (page (api w)))) \<and> usb_held (hid (lib (page (api w)))) = usb_held h \<and> session_ok (tk (lib (page (api w))))"
    using hid_backend.page_run_keeps [OF usb.hid_backend_axioms ps [unfolded assms(1)]] assms(3) by simp
  then show ?thesis using ps r c(2) by (auto simp: reaches_def same_members_def new_api_page usb_held_def)
qed

theorem browser_keeps_library_witness:
  "\<exists>cs w. np_run example_env cs example_world = Some w \<and> usb_live (hid (lib (page (api w)))) = {} \<and>
    handles (hid (lib (page (api w)))) = Map.empty \<and>
    GetToken example_platform (libusb_backend (example_usb (0, 8))) example_page = Some (page (api w))"
proof -
  obtain w cs where w: "np_run example_env cs example_world = Some w"
    "GetToken example_platform (libusb_backend (example_usb (0, 8))) example_page = Some (page (api w))"
    using example_token_got by blast
  have "e_hidapi example_env = libusb_backend (example_usb (0, 8))" by (simp add: example_env_def)
  moreover have "handles (hid example_start) = Map.empty" by (simp add: example_start_def)
  ultimately show ?thesis
    using browser_keeps_library [OF _ example_start_ok(3,1) w(1) [unfolded example_world_def]] w example_start_ok(2) by metis
qed

text \<open>
  C24. When the browser invalidates the scriptable object, whatever the page still does, with references it has kept as well, calls no
  method of the plugin any more; a method object it has kept says that the object is no longer valid.
\<close>

theorem invalidated_page_frozen:
  assumes "np_run E cs0 (new_world L ser n s) = Some w0" "api_alive w0" "w = np_Invalidate (vtable E Root) Root w0"
    and "np_run E cs w = Some w'"
  shows "page (api w') = page (api w0) \<and>
    (\<forall>name z args ok r w2. np_valid w' (Method_object name z) \<longrightarrow> host_alive w' \<longrightarrow> api_alive w' \<longrightarrow>
      np_InvokeDefault (e_type_name E) (vtable E (Method_object name z)) (Method_object name z) args w' = Some (ok, r, w2) \<longrightarrow>
      \<not> ok \<and> last_message w2 = V_string (bytes ''This object is no longer valid''))"
proof -
  have c: "\<not> m_allowRemoveProperties (new_api L ser n s)" using new_api_can_call [of L ser n s] by (simp add: can_call_def)
  then have "reaches E (new_api L ser n s) (api w0)" using np_run_reaches [OF assms(1)] by (simp add: new_world_def)
  then have r: "\<not> m_allowRemoveProperties (api w0)" using c by (simp add: reaches_def same_members_def)
  have w: "api w = invalidate (api w0)" using assms(2,3) by (simp add: np_Invalidate_def Let_def vtable_def api_ops_def)
  then have i: "\<not> m_valid (api w)" "page (api w) = page (api w0)" by (simp_all add: invalidate_def)
  have "\<not> m_allowRemoveProperties (api w)" using r w by (simp add: invalidate_def)
  then have rw: "reaches E (api w) (api w')" using np_run_reaches [OF assms(4)] by simp
  then have v: "\<not> m_valid (api w')" "page (api w') = page (api w)" using i(1) by (auto simp: reaches_def)
  then show ?thesis
    using i(2) by (auto simp: np_InvokeDefault_def np_Invoke_def vtable_def function_ops_def np_isValid_def object_expired_def fn_Invoke_def
      fn_exec_def exec_method_def api_Invoke_def Invoke_def pushZone_def js_simps np_catch_def)
qed

theorem invalidated_page_frozen_witness:
  "\<exists>w0 w2. GetToken example_platform (libusb_backend (example_usb (0, 8))) example_page = Some (page (api w0)) \<and>
    np_run example_env [(Root, NP_GetProperty (Id_string ''GetToken''))] (np_Invalidate (vtable example_env Root) Root w0) = Some w2 \<and>
    page (api w2) = page (api w0)"
proof -
  obtain w0 cs where w: "np_run example_env cs example_world = Some w0" "api_alive w0"
    "GetToken example_platform (libusb_backend (example_usb (0, 8))) example_page = Some (page (api w0))"
    using example_token_got by blast
  let ?w = "np_Invalidate (vtable example_env Root) Root w0"
  have "np_run example_env [(Root, NP_GetProperty (Id_string ''GetToken''))] ?w = Some ?w"
    using w(2) by (simp add: np_step_def Let_def np_GetProperty_def np_isValid_def np_Invalidate_def vtable_def api_ops_def)
  with invalidated_page_frozen [OF w(1) [unfolded example_world_def] w(2) refl this] w(3) show ?thesis by blast
qed

section \<open>Calls that succeed\<close>

text \<open>A call of a method with a number and two strings that returns a string.\<close>

lemma script_text_call:
  assumes "script_ready w" "any_order E" "(name, m) \<in> set all_methods" "params m = [A_int, A_string, A_string]"
    and "convert_int (getVariant k) = Some (Inr n)"
    and "\<And>a. fum_apply E m [V_int n, V_string t, V_string u] a = with_page V_string (f (page a)) a" "f (page (api w)) = Some (r, p)"
  shows "\<exists>w'. script_call E name [k, NP_String t, NP_String u] w = Some (True, NP_String r, w') \<and> page (api w') = p \<and> script_ready w'"
proof -
  have "map getVariant [k, NP_String t, NP_String u] = [getVariant k, V_string t, V_string u]" by (simp add: getVariant_def)
  then have "fum_call E m (map getVariant [k, NP_String t, NP_String u]) (in_call name (api w)) =
      Some (Inr (V_string r), (in_call name (api w))\<lparr>page := p\<rparr>)"
    using three_arguments [OF assms(2,4,5)] assms(6,7) by (simp add: with_page_def)
  from script_call_value [OF assms(1,3) this] show ?thesis by (simp add: getNPVariant_def)
qed

text \<open>
  C2. The round trip from the browser's side: a script calls \<open>GetToken\<close>, \<open>RsaEncrypt\<close> and \<open>RsaDecrypt\<close> through the browser; the key
  types may be anything that converts to 1 and 2, a number or a text, and the compiler may convert the arguments in any order. What the
  third call returns is the message given to the second.
\<close>

theorem script_roundtrip:
  assumes "plugged (e_platform E) U ser (lo, hi) key" "e_hidapi E = libusb_backend U" "any_order E"
    and "script_ready w" "fresh_page (page (api w))" "good_stack (e_platform E)" "openssl_succeeds (e_ssl E)"
    and "usable (uint hi * 256 + uint lo)" "holds_public key Ke N" "holds_private key (password16 pwd) D N"
    and "rsa_pair (e_ssl E) (rsa_value Ke N None) (rsa_value Ke N (Some D)) m" "0 \<notin> set m" "length m < 1024"
    and "convert_int (getVariant k1) = Some (Inr 1)" "convert_int (getVariant k2) = Some (Inr 2)"
  shows "\<exists>w1 w2 w3 hex. script_call E ''GetToken'' [] w = Some (True, NP_Void, w1) \<and>
    script_call E ''RsaEncrypt'' [k1, NP_String m, NP_String pwd] w1 = Some (True, NP_String hex, w2) \<and> length hex = 256 \<and>
    script_call E ''RsaDecrypt'' [k2, NP_String hex, NP_String pwd] w2 = Some (True, NP_String m, w3)"
proof -
  let ?P = "e_platform E" and ?H = "e_hidapi E" and ?S = "e_ssl E"
  obtain p1 p2 p3 hex where p: "GetToken ?P ?H (page (api w)) = Some p1" "RsaEncrypt ?P ?H ?S 1 m pwd p1 = Some (hex, p2)"
    "length hex = 256" "RsaDecrypt ?P ?H ?S 2 hex pwd p2 = Some (m, p3)"
    using page_roundtrip_attached [OF plugged_attached [OF assms(1)] _ _ _ assms(6-13)] assms(2,5) unfolding fresh_page_def by metis
  have "fum_call E M_GetToken (map getVariant []) (in_call ''GetToken'' (api w)) =
      Some (Inr V_empty, (in_call ''GetToken'' (api w))\<lparr>page := p1\<rparr>)"
    using no_arguments [of M_GetToken E] assms(3) p(1) by (simp add: fum_apply_def Let_def with_page_def)
  from script_call_value [OF assms(4) method_names(1) this] obtain w1 where
    w1: "script_call E ''GetToken'' [] w = Some (True, NP_Void, w1)" "page (api w1) = p1" "script_ready w1"
    by (auto simp: getNPVariant_def)
  have a: "fum_apply E M_RsaEncrypt [V_int n, V_string t, V_string u] a = with_page V_string (RsaEncrypt ?P ?H ?S n t u (page a)) a"
    "fum_apply E M_RsaDecrypt [V_int n, V_string t, V_string u] a = with_page V_string (RsaDecrypt ?P ?H ?S n t u (page a)) a" for n t u a
    by (simp_all add: fum_apply_def Let_def)
  obtain w2 where w2: "script_call E ''RsaEncrypt'' [k1, NP_String m, NP_String pwd] w1 = Some (True, NP_String hex, w2)"
    "page (api w2) = p2" "script_ready w2"
    using script_text_call [OF w1(3) assms(3) method_names(2) _ assms(14) a(1)] p(2) w1(2) by fastforce
  obtain w3 where "script_call E ''RsaDecrypt'' [k2, NP_String hex, NP_String pwd] w2 = Some (True, NP_String m, w3)"
    using script_text_call [OF w2(3) assms(3) method_names(3) _ assms(15) a(2)] p(4) w2(2) by fastforce
  then show ?thesis using w1(1) w2(1) p(3) by blast
qed

theorem script_roundtrip_witness:
  "\<exists>w1 w2 w3 hex. script_call example_env ''GetToken'' [] example_world = Some (True, NP_Void, w1) \<and>
    script_call example_env ''RsaEncrypt'' [NP_Double (Finite False 1 0), NP_String [72, 105], NP_String example_pwd] w1 =
      Some (True, NP_String hex, w2) \<and>
    script_call example_env ''RsaDecrypt'' [NP_String [50], NP_String hex, NP_String example_pwd] w2 = Some (True, NP_String [72, 105], w3)"
proof -
  have k: "convert_int (getVariant (NP_Double (Finite False 1 0))) = Some (Inr 1)" "convert_int (getVariant (NP_String [50])) = Some (Inr 2)"
    by code_simp+
  have e: "e_platform example_env = example_platform" "e_hidapi example_env = libusb_backend (example_usb (0, 8))"
    "e_ssl example_env = example_padding" by (simp_all add: example_env_def)
  show ?thesis
    using script_roundtrip [of example_env "example_usb (0, 8)", unfolded e, OF example_plugged [of "(0, 8)"] refl example_world_ok
        example_ok(4) example_padding_ok(1) example_usable example_ok(7) example_private example_padding_ok(2) _ _ k] by fastforce
qed

section \<open>Arguments that do not fit\<close>

text \<open>
  C23. A method with parameters that is called with too many arguments, without one it needs or with one of a wrong type, in whatever
  order they are converted: the call fails, no method of the plugin is called and the page is as before, and \<open>getLastException\<close>
  gives the complaint. In every other case the method is called with values of its parameters' types: when the arguments fit, and, for
  a method without parameters, whatever the arguments, which its wrapper does not look at. A NaN aside, there is nothing else.
\<close>

theorem bad_arguments_rejected:
  assumes "script_ready w" "any_order E" "(name, m) \<in> set all_methods" "\<forall>v\<in>set (map getVariant args). \<not> is_nan v"
  shows "if bad_call (params m) (map getVariant args)
    then \<exists>w' x. script_call E name args w = Some (False, NP_Void, w') \<and> page (api w') = page (api w) \<and> script_ready w' \<and>
      last_message w' = V_string (bytes (arg_error_text (e_type_name E) x))
    else \<exists>vs. list_all2 has_type (params m) vs \<and> script_call E name args w =
      np_catch (e_type_name E) (Method_object name 0) NP_Void (map_option (\<lambda>(r, a). (map_sum id getNPVariant r, w\<lparr>api := popZone a\<rparr>))
        (catch_cast (fum_apply E m vs (in_call name (api w)))))"
proof (cases "bad_call (params m) (map getVariant args)")
  case True
  then obtain x where "fum_call E m (map getVariant args) (in_call name (api w)) = Some (Inl (Invalid_arguments x), in_call name (api w))"
    using bad_call_error [OF assms(2) _ assms(4)] by blast
  from script_call_error [OF assms(1,3) this] show ?thesis using True by auto
next
  case False
  then obtain vs where "list_all2 has_type (params m) vs" "\<forall>a. fum_call E m (map getVariant args) a = fum_apply E m vs a"
    using good_call_applies [OF assms(2) _ assms(4)] by blast
  then show ?thesis using False script_call_eq [OF assms(1,3), of E args] by auto
qed

theorem bad_arguments_rejected_witness:
  "\<exists>w' x. script_call example_env ''RsaEncrypt'' [NP_Int32 1, NP_Null] example_world = Some (False, NP_Void, w') \<and>
    last_message w' = V_string (bytes (arg_error_text (e_type_name example_env) x))"
proof -
  have b: "bad_call (params M_RsaEncrypt) (map getVariant [NP_Int32 1, NP_Null])"
    unfolding bad_call_def by (rule disjI2, rule exI [of _ 1]) (simp add: getVariant_def wrong_type_def)
  have n: "\<forall>v\<in>set (map getVariant [NP_Int32 1, NP_Null]). \<not> is_nan v" by (simp add: getVariant_def)
  show ?thesis
    using bad_arguments_rejected [OF example_world_ok(2,1) method_names(2) n] unfolding if_P [OF b] by blast
qed

text \<open>
  A NaN as key type or hash type has no defined outcome: the range check of \<open>numeric_cast\<close> lets it through to a conversion to
  \<open>int\<close>, which is undefined.
\<close>

theorem nan_argument_undefined:
  assumes "script_ready w" "any_order E" "(name, m) \<in> set all_methods" "params m = [A_int, A_string, A_string]"
  shows "script_call E name [NP_Double (Nan s), NP_String t, NP_String u] w = None"
proof -
  let ?vs = "map getVariant [NP_Double (Nan s), NP_String t, NP_String u]"
  have v: "?vs = [V_double (Nan s), V_string t, V_string u]" by (simp add: getVariant_def)
  have c: "convert_arg (params m) ?vs 0 = None" "convert_arg (params m) ?vs 1 = Some (Inr (V_string t))" "convert_arg (params m) ?vs 2 = Some (Inr (V_string u))"
    unfolding v assms(4)
    by (simp_all add: convert_arg_def convertArgumentSoft_def convertLastArgument_def convert_int_def numeric_cast_int_def convert_string_def)
  have o1: "set (e_order E 3) = {0, 1, 2}" using assms(2) by (auto simp: any_order_def numeral_3_eq_3)
  have "eval_args (convert_arg (params m) ?vs) (e_order E 3) (replicate 3 V_empty) = None"
    by (rule eval_args_undefined [of 0]) (use c o1 in auto)
  then have "fum_call E m ?vs a = None" for a using assms(4) by (simp add: fum_call_def method_wrapper_def numeral_3_eq_3 v)
  then show ?thesis by (rule script_call_undefined [OF assms(1,3)])
qed

theorem nan_argument_undefined_witness:
  "script_call example_env ''RsaDecrypt'' [NP_Double (Nan False), NP_String [], NP_String []] example_world = None"
  by (rule nan_argument_undefined [OF example_world_ok(2,1) method_names(3)]) simp

section \<open>Attributes and listeners\<close>

lemma chars_bytes [simp]: "chars (bytes s) = s"
proof -
  have "char_of (unat (of_char c :: byte)) = c" for c
  proof -
    have "(of_char c :: byte) = of_nat (of_char c)" by (rule of_nat_of_char [symmetric])
    then have "unat (of_char c :: byte) = of_char c" using nat_of_char_less_256 [of c] by (simp only: unat_of_nat) simp
    then show ?thesis by simp
  qed
  then show ?thesis by (simp add: chars_def bytes_def o_def)
qed

text \<open>
  C31. \<open>setAttribute\<close> takes the name of a method, and deleting the property then takes away the method: its functor is still registered
  but the security zone is gone, so the browser finds no such member and a call of it is refused.
\<close>

theorem attribute_hides_method:
  assumes "script_ready w" "any_order E" "(name, m) \<in> set all_methods" "map_of (m_attributes (api w)) name = None"
  shows "\<exists>w1 w2. script_call E ''setAttribute'' [NP_String (bytes name), v] w = Some (True, NP_Void, w1) \<and>
    np_RemoveProperty (e_type_name E) (vtable E Root) Root (Id_string name) w1 = Some (True, w2) \<and>
    map_of (m_methodFunctorMap (api w2)) name = Some m \<and>
    np_GetProperty (e_type_name E) (vtable E Root) Root (Id_string name) w2 = Some (True, NP_Void, w2) \<and>
    (\<forall>args. \<exists>w3. np_Invoke (e_type_name E) (vtable E Root) Root (Some (Id_string name)) args w2 = Some (False, NP_Void, w3))"
proof -
  have c: "can_call (api w)" and h: "np_valid w o1" "host_alive w" "api_alive w" for o1 using assms(1) by (simp_all add: script_ready_def)
  note k = can_call_method [OF c assms(3)]
  have z: "getZone (api w) = 0" "m_valid (api w)" "m_allowDynamicAttributes (api w)" "\<not> m_allowRemoveProperties (api w)" "m_pushedZones (api w) = []"
    using c by (simp_all add: can_call_def getZone_def)
  let ?b = "in_call ''setAttribute'' (api w)"
  let ?a = "?b\<lparr>m_attributes := smap_set name (getVariant v, False) (m_attributes (api w)), m_zoneMap := smap_set name 0 (m_zoneMap (api w))\<rparr>"
  let ?w1 = "w\<lparr>api := popZone ?a\<rparr>"
  have at: "m_attributes ?b = m_attributes (api w)" "m_pushedZones ?b = [0]" "m_defaultZone ?b = 0"
    using z c by (simp_all add: in_call_def pushZone_def can_call_def)
  have "eval_args (convert_arg [A_string, A_variant] [V_string (bytes name), getVariant v]) (e_order E 2) (replicate 2 V_empty) =
      Some (Inr [V_string (bytes name), getVariant v])"
    by (intro eval_args_all [OF assms(2)]) (auto simp: less_2_cases_iff convert_arg_def convertLastArgument_def
        convertArgumentSoft_def convert_string_def)
  then have "fum_call E M_setAttribute (map getVariant [NP_String (bytes name), v]) ?b = Some (Inr V_empty, ?a)"
    using assms(4) at
    by (simp add: fum_call_def method_wrapper_def numeral_2_eq_2 getVariant_def [of "NP_String _"] fum_apply_def Let_def base_apply_def
        setAttribute_def no_result_def js_simps)
  then have s: "script_call E ''setAttribute'' [NP_String (bytes name), v] w = Some (True, NP_Void, ?w1)"
    by (simp add: script_call_eq [OF assms(1) method_names(5)] catch_cast_def np_catch_def getNPVariant_def)
  let ?w2 = "w\<lparr>api := (popZone ?a)\<lparr>m_attributes := smap_erase name (m_attributes ?a), m_zoneMap := smap_erase name (m_zoneMap ?a)\<rparr>\<rparr>"
  have f: "m_valid (popZone ?a)" "m_allowDynamicAttributes (popZone ?a)" "\<not> m_allowRemoveProperties (popZone ?a)" "getZone (popZone ?a) = 0"
    "m_attributes (popZone ?a) = m_attributes ?a" "m_zoneMap (popZone ?a) = m_zoneMap ?a"
    "map_of (m_methodFunctorMap (popZone ?a)) name = Some m" "map_of (m_propertyFunctorsMap (popZone ?a)) name = None"
    using z k c by (simp_all add: in_call_def pushZone_def popZone_def getZone_def)
  note v = np_isValid_def vtable_def api_ops_def on_api_def js_simps np_catch_def
  have "np_RemoveProperty (e_type_name E) (vtable E Root) Root (Id_string name) ?w1 = Some (True, ?w2)"
    using f h by (simp add: np_RemoveProperty_def v RemoveProperty_def memberAccessible_def writable_def unregisterAttribute_def)
  moreover have "np_GetProperty (e_type_name E) (vtable E Root) Root (Id_string name) ?w2 = Some (True, NP_Void, ?w2)"
    using f h k(4) by (simp add: np_GetProperty_def v GetProperty_def memberAccessible_def HasMethodObject_def HasMethod_def
        own_names_def getNPVariant_def)
  moreover have "\<exists>w3. np_Invoke (e_type_name E) (vtable E Root) Root (Some (Id_string name)) args ?w2 = Some (False, NP_Void, w3)" for args
    using f h by (simp add: np_Invoke_def v api_Invoke_def Invoke_def memberAccessible_def StringFromIdentifier_def)
  ultimately show ?thesis using s f(7) by fastforce
qed

theorem attribute_hides_method_witness:
  "\<exists>w1 w2 w3. script_call example_env ''setAttribute'' [NP_String (bytes ''GetToken''), NP_Null] example_world = Some (True, NP_Void, w1) \<and>
    np_RemoveProperty (e_type_name example_env) (vtable example_env Root) Root (Id_string ''GetToken'') w1 = Some (True, w2) \<and>
    np_Invoke (e_type_name example_env) (vtable example_env Root) Root (Some (Id_string ''GetToken'')) [] w2 = Some (False, NP_Void, w3)"
proof -
  have "map_of (m_attributes (api example_world)) ''GetToken'' = None"
    by (simp add: example_world_def new_world_def new_api_def plugin_methods_def plugin_properties_def init_maps)
  then show ?thesis using attribute_hides_method [OF example_world_ok(2,1) method_names(1)] by blast
qed

text \<open>What \<open>addEventListener\<close> and \<open>removeEventListener\<close> do.\<close>

definition with_listeners :: "(string \<times> np_object) list \<Rightarrow> 'h world \<Rightarrow> 'h world" where
  "with_listeners ls w = w\<lparr>api := (api w)\<lparr>m_eventMap := ls\<rparr>\<rparr>"

lemma listener_calls:
  assumes "script_ready w"
  shows "np_InvokeDefault tn (vtable E (Add_listener Root)) (Add_listener Root) [NP_String (bytes ev), NP_Object l] w =
      Some (True, NP_Void, if (''on'' @ ev, l) \<in> set (m_eventMap (api w)) then w
        else with_listeners (m_eventMap (api w) @ [(''on'' @ ev, l)]) w)"
    "np_InvokeDefault tn (vtable E (Remove_listener Root)) (Remove_listener Root) [NP_String (bytes ev), NP_Object l] w =
      Some (True, NP_Void, with_listeners (remove1 (''on'' @ ev, l) (m_eventMap (api w))) w)"
  using assms
  by (simp_all add: script_ready_def np_InvokeDefault_def np_Invoke_def vtable_def function_ops_def np_isValid_def object_expired_def fn_Invoke_def
      fn_exec_def register_at_def getVariant_def convert_string_def listener_of_def no_result_def on_api_def registerEventMethod_def
      unregisterEventMethod_def js_simps np_catch_def getNPVariant_def with_listeners_def)

lemma with_listeners_ready [simp]: "script_ready (with_listeners ls w) = script_ready w"
  by (simp add: with_listeners_def script_ready_def can_call_def)

text \<open>
  C32. A listener that a page adds twice for the event \<open>test\<close> is called once when \<open>testEvent\<close> fires it, after those added before it, and
  removing it once restores the listeners there were.
\<close>

theorem listener_called_once:
  assumes "script_ready w" "any_order E" "(''ontest'', l) \<notin> set (m_eventMap (api w))" "map_of (m_attributes (api w)) ''ontest'' = None"
  shows "\<exists>w1 w2 w3. np_InvokeDefault (e_type_name E) (vtable E (Add_listener Root)) (Add_listener Root)
      [NP_String (bytes ''test''), NP_Object l] w = Some (True, NP_Void, w1) \<and>
    np_InvokeDefault (e_type_name E) (vtable E (Add_listener Root)) (Add_listener Root)
      [NP_String (bytes ''test''), NP_Object l] w1 = Some (True, NP_Void, w1) \<and>
    script_call E ''testEvent'' [] w1 = Some (True, NP_Void, w2) \<and>
    queued (api w2) = queued (api w) @ map (\<lambda>x. (x, [])) (FireEvent ''ontest'' (api w) @ [l]) \<and>
    np_InvokeDefault (e_type_name E) (vtable E (Remove_listener Root)) (Remove_listener Root)
      [NP_String (bytes ''test''), NP_Object l] w2 = Some (True, NP_Void, w3) \<and> m_eventMap (api w3) = m_eventMap (api w)"
proof -
  let ?M = "m_eventMap (api w)"
  let ?w1 = "with_listeners (?M @ [(''ontest'', l)]) w"
  have r1: "script_ready ?w1" using assms(1) by simp
  have m1: "m_eventMap (api ?w1) = ?M @ [(''ontest'', l)]" by (simp add: with_listeners_def)
  have a1: "np_InvokeDefault tn (vtable E (Add_listener Root)) (Add_listener Root) [NP_String (bytes ''test''), NP_Object l] w =
      Some (True, NP_Void, ?w1)" for tn
    using listener_calls(1) [OF assms(1), of tn E "''test''" l] assms(3) by simp
  have a2: "np_InvokeDefault tn (vtable E (Add_listener Root)) (Add_listener Root) [NP_String (bytes ''test''), NP_Object l] ?w1 =
      Some (True, NP_Void, ?w1)" for tn
    using listener_calls(1) [OF r1, of tn E "''test''" l] m1 by simp
  let ?b = "in_call ''testEvent'' (api ?w1)"
  let ?a = "(queue_event ''ontest'' [] ?b)\<lparr>page := testEvent (page ?b)\<rparr>"
  have v: "m_valid (api w)" using assms(1) by (simp add: script_ready_def can_call_def)
  have "FireEvent ''ontest'' ?b = FireEvent ''ontest'' (api w) @ [l]"
    using v assms(4) by (simp add: FireEvent_def fireAsyncEvent_def fireAsyncEvent_impl_def getAttribute_def in_call_def pushZone_def with_listeners_def)
  then have q: "queued ?a = queued (api w) @ map (\<lambda>x. (x, [])) (FireEvent ''ontest'' (api w) @ [l])"
    by (simp add: queue_event_def in_call_def pushZone_def with_listeners_def)
  have e: "?a = ?b\<lparr>page := page ?a, queued := queued ?a, m_attributes := m_attributes (api ?w1)\<rparr>"
    by (simp add: queue_event_def in_call_def pushZone_def)
  let ?w2 = "?w1\<lparr>api := popZone ?a\<rparr>"
  have "fum_call E M_testEvent (map getVariant []) ?b = Some (Inr V_empty, ?a)"
    using no_arguments [of M_testEvent E] assms(2) by (simp add: fum_apply_def Let_def js_simps)
  then have t: "script_call E ''testEvent'' [] ?w1 = Some (True, NP_Void, ?w2)"
    by (simp add: script_call_eq [OF r1 method_names(4)] catch_cast_def np_catch_def getNPVariant_def)
  have r2: "script_ready ?w2" by (rule after_call(1) [OF r1 e])
  have m2: "m_eventMap (api ?w2) = ?M @ [(''ontest'', l)]" "queued (api ?w2) = queued ?a"
    using m1 by (simp_all add: popZone_def queue_event_def in_call_def pushZone_def)
  have d: "np_InvokeDefault tn (vtable E (Remove_listener Root)) (Remove_listener Root) [NP_String (bytes ''test''), NP_Object l] ?w2 =
      Some (True, NP_Void, with_listeners ?M ?w2)" for tn
    using listener_calls(2) [OF r2, of tn E "''test''" l] m2 assms(3) by (simp add: remove1_append)
  have "m_eventMap (api (with_listeners ?M ?w2)) = ?M" by (simp add: with_listeners_def)
  then show ?thesis using a1 a2 t q m2(2) d by metis
qed

theorem listener_called_once_witness:
  "\<exists>w1 w2. np_InvokeDefault (e_type_name example_env) (vtable example_env (Add_listener Root)) (Add_listener Root)
      [NP_String (bytes ''test''), NP_Object (Browser_object 3)] example_world = Some (True, NP_Void, w1) \<and>
    script_call example_env ''testEvent'' [] w1 = Some (True, NP_Void, w2) \<and> queued (api w2) = [(Browser_object 3, [])]"
proof -
  have "m_eventMap (api example_world) = []" "m_attributes (api example_world) = []" "queued (api example_world) = []" "m_valid (api example_world)"
    by (simp_all add: example_world_def new_world_def new_api_def plugin_methods_def plugin_properties_def init_maps registerMethod_def
        registerProperty_def jsapi.defs fum_api.defs)
  then show ?thesis
    using listener_called_once [OF example_world_ok(2,1), of "Browser_object 3"] by (auto simp: FireEvent_def fireAsyncEvent_def fireAsyncEvent_impl_def getAttribute_def)
qed

end
