(* ===== verification/TabProps.thy ===== *)
theory TabProps
  imports PluginTabs ScriptProps
begin

text \<open>
  Several instances of the plugin at once: the loader counts those that have a scriptable object, an event of one either leaves the
  library alone or is calls of its page; what the instances share, and what one can do to the others.
\<close>

section \<open>What every event keeps\<close>

lemma page_step_handle:
  assumes "page_step P H S hp c p = Some p'"
  shows "token_handle p' = token_handle p"
proof (cases "c = Call_GetPublicKey")
  case True
  show ?thesis
  proof (cases "get_TkErr p \<noteq> nErr_OK")
    case False
    then obtain buff s where "get_public_key P H S (lib p) = Some (buff, s)"
      "(case buff of Indeterminate \<Rightarrow> None | Heap x \<Rightarrow> do { r \<leftarrow> c_string x; Some (r, p\<lparr>lib := s, new_blocks := new_blocks p + 1\<rparr>) }) = Some (fst (the (GetPublicKey P H S p)), p')"
      using assms True by (auto simp: page_step_def GetPublicKey_def bind_Some_iff)
    then show ?thesis by (cases buff) (auto simp: bind_Some_iff)
  qed (use assms True in \<open>simp add: page_step_def GetPublicKey_def\<close>)
qed (use assms in \<open>cases c; auto simp: page_step_def echo_def testEvent_def GetToken_def GetDeviceCount_def RsaEncrypt_def
    RsaDecrypt_def GetSignature_def VerifySignature_def set_testString_def Let_def bind_Some_iff split: if_splits\<close>)

lemma page_run_handle: "page_run P H S hp cs p = Some p' \<Longrightarrow> token_handle p' = token_handle p"
  by (induction cs arbitrary: p) (auto simp: bind_Some_iff dest: page_step_handle)

text \<open>The loader counts the instances that have a scriptable object.\<close>

definition in_use :: "'h tab \<Rightarrow> bool" where
  "in_use t \<longleftrightarrow> pdata t \<and> objects t \<noteq> None"

definition tab_ok :: "'h tab_env \<Rightarrow> 'h tab \<Rightarrow> bool" where
  "tab_ok T t \<longleftrightarrow> (\<forall>w. objects t = Some w \<longrightarrow> \<not> m_allowRemoveProperties (api w) \<and>
     (pdata t \<longrightarrow> token_handle (page (api w)) = ld_open (t_loader T)))"

definition process_ok :: "'h tab_env \<Rightarrow> 'h process \<Rightarrow> bool" where
  "process_ok T b \<longleftrightarrow> loads b = (if ld_open (t_loader T) then length (filter in_use (tabs b)) else 0) \<and> (\<forall>t\<in>set (tabs b). tab_ok T t)"

lemma filter_update:
  "i < length xs \<Longrightarrow> length (filter P (xs[i := y])) + (if P (xs ! i) then 1 else 0) = length (filter P xs) + (if P y then 1 else 0)"
proof (induction xs arbitrary: i)
  case (Cons x xs)
  then show ?case using Cons.IH [of "i - 1"] by (cases i) simp_all
qed simp

lemma set_tab_simps [simp]:
  "library (set_tab i t b) = library b" "loads (set_tab i t b) = loads b" "tabs (set_tab i t b) = (tabs b)[i := t]"
  "click_count (set_tab i t b) = click_count b" "last_exception (set_tab i t b) = last_exception b"
  by (simp_all add: set_tab_def)

lemma load_library_simps [simp]:
  "tabs (load_library T b) = tabs b" "loads (load_library T b) = (if ld_open (t_loader T) then loads b + 1 else loads b)"
  "loads b \<noteq> 0 \<Longrightarrow> library (load_library T b) = library b"
  by (simp_all add: load_library_def)

lemma set_tab_ok: "\<forall>t\<in>set ts. tab_ok T t \<Longrightarrow> tab_ok T u \<Longrightarrow> \<forall>t\<in>set (ts[i := u]). tab_ok T t"
  using set_update_subset_insert [of ts i u] by blast

lemma new_world_tab: "tab_ok T \<lparr>pdata = p, objects = Some (new_world (t_loader T) ser n s)\<rparr>"
proof -
  have "token_handle (new_plugin L ser n s) = ld_open L" for L :: loader
    by (simp add: new_plugin_def loadTokenDll_def)
  then show ?thesis using new_api_can_call [of "t_loader T" ser n s]
    by (simp add: tab_ok_def new_world_def new_api_page can_call_def)
qed

lemma getRootJSAPI_ok:
  assumes "process_ok T b" "validInstance i b"
  shows "process_ok T (getRootJSAPI T i b)"
proof (cases "objects (tabs b ! i)")
  case None
  let ?t = "(tabs b ! i)\<lparr>objects := Some (new_world (t_loader T) (t_serial T i) (click_count (load_library T b)) (library (load_library T b)))\<rparr>"
  have r: "getRootJSAPI T i b = set_tab i ?t (load_library T b)" using None by (simp add: getRootJSAPI_def createJSAPI_def Let_def)
  have "tab_ok T ?t" by (cases "tabs b ! i") (simp add: new_world_tab)
  moreover have "in_use ?t" "\<not> in_use (tabs b ! i)" using assms(2) None by (simp_all add: in_use_def validInstance_def)
  moreover have "i < length (tabs b)" using assms(2) by (simp add: validInstance_def)
  ultimately show ?thesis
    unfolding r using assms(1) filter_update [of i "tabs b" in_use ?t] set_tab_ok [of "tabs b" T ?t i] by (simp add: process_ok_def)
qed (use assms in \<open>simp add: getRootJSAPI_def\<close>)

text \<open>A call, on the page the object then has.\<close>

lemma object_call_cases:
  assumes "object_call T i o1 c b = Some b'" "process_ok T b"
  obtains "b' = b"
  | w w1 ps where "i < length (tabs b)" "objects (tabs b ! i) = Some w" "b' = leave i w1 b"
      "page_runs (t_script T) ps (page (api (enter b w))) = Some (page (api w1))" "\<not> m_allowRemoveProperties (api w1)"
      "tab_ok T ((tabs b ! i)\<lparr>objects := Some w1\<rparr>)"
proof (cases "i < length (tabs b) \<and> objects (tabs b ! i) \<noteq> None")
  case True
  then obtain w w1 where w: "i < length (tabs b)" "objects (tabs b ! i) = Some w" "np_step (t_script T) o1 c (enter b w) = Some w1"
    "b' = leave i w1 b" using assms(1) by (auto simp: object_call_def)
  have ok: "tab_ok T (tabs b ! i)" using assms(2) w(1) by (simp add: process_ok_def)
  then have "\<not> m_allowRemoveProperties (api (enter b w))" using w(2) by (simp add: tab_ok_def enter_def)
  then have r: "reaches (t_script T) (api (enter b w)) (api w1)" using np_step_reaches [OF w(3)] by (simp add: world_reaches_def)
  then obtain ps where ps: "page_runs (t_script T) ps (page (api (enter b w))) = Some (page (api w1))" unfolding reaches_def by blast
  have "token_handle (page (api w1)) = token_handle (page (api w))" using page_run_handle [OF ps] by (simp add: enter_def)
  moreover have m: "\<not> m_allowRemoveProperties (api w1)"
    using r ok w(2) by (simp add: reaches_def same_members_def tab_ok_def enter_def)
  ultimately have "tab_ok T ((tabs b ! i)\<lparr>objects := Some w1\<rparr>)" using ok w(2) by (simp add: tab_ok_def)
  then show ?thesis using that(2) [OF w(1,2,4) ps m] by blast
qed (use that(1) assms(1) in \<open>auto simp: object_call_def split: if_splits\<close>)

lemma process_step_ok:
  assumes "process_step T e b = Some b'" "process_ok T b"
  shows "process_ok T b'"
proof (cases e)
  case (Ev_new onload)
  let ?b = "b\<lparr>tabs := tabs b @ [\<lparr>pdata = True, objects = None\<rparr>]\<rparr>"
  have "process_ok T ?b" "validInstance (length (tabs b)) ?b"
    using assms(2) by (simp_all add: process_ok_def validInstance_def in_use_def tab_ok_def)
  then show ?thesis using Ev_new assms(1) getRootJSAPI_ok by (auto simp: NPP_New_def Let_def)
next
  case (Ev_object i)
  then show ?thesis using assms getRootJSAPI_ok by (auto simp: NPP_GetValue_def)
next
  case (Ev_call i o1 c)
  then have "object_call T i o1 c b = Some b'" using assms(1) by simp
  then show ?thesis
  proof (cases rule: object_call_cases [OF _ assms(2), consumes 1, case_names none call])
    case (call w w1 ps)
    let ?t = "(tabs b ! i)\<lparr>objects := Some w1\<rparr>"
    have "in_use ?t = in_use (tabs b ! i)" using call(2) by (simp add: in_use_def)
    then show ?thesis using assms(2) call filter_update [of i "tabs b" in_use ?t] set_tab_ok [of "tabs b" T ?t i]
      by (simp add: process_ok_def leave_def split: if_splits)
  qed (use assms(2) in simp)
next
  case (Ev_destroy i)
  then obtain x where x: "NPP_Destroy i b = Some (x, b')" using assms(1) by auto
  show ?thesis
  proof (cases "validInstance i b")
    case True
    then have i: "i < length (tabs b)" "pdata (tabs b ! i)" by (simp_all add: validInstance_def)
    have ok: "tab_ok T (tabs b ! i)" using assms(2) i(1) by (simp add: process_ok_def)
    show ?thesis
    proof (cases "objects (tabs b ! i)")
      case None
      let ?t = "\<lparr>pdata = False, objects = None\<rparr> :: 'a tab"
      have "\<not> in_use ?t" "\<not> in_use (tabs b ! i)" "tab_ok T ?t" using None by (simp_all add: in_use_def tab_ok_def)
      then show ?thesis using x True None assms(2) filter_update [OF i(1), of in_use ?t] set_tab_ok [of "tabs b" T ?t i]
        by (simp add: NPP_Destroy_def process_ok_def) (auto split: if_splits)
    next
      case (Some w)
      let ?w = "w\<lparr>host_alive := False, api_alive := False, api := (api w)\<lparr>page := delete_plugin (page (api w))\<rparr>\<rparr>"
      let ?t = "\<lparr>pdata = False, objects = Some ?w\<rparr>"
      have h: "token_handle (page (api w))" "b' = (set_tab i ?t b)\<lparr>loads := loads b - 1\<rparr>"
        using x True Some by (auto simp: NPP_Destroy_def split: if_splits)
      have "in_use (tabs b ! i)" "\<not> in_use ?t" using i Some by (simp_all add: in_use_def)
      moreover have "tab_ok T ?t" using ok Some by (simp add: tab_ok_def)
      moreover have "ld_open (t_loader T)" using ok Some h(1) i(2) by (simp add: tab_ok_def)
      ultimately show ?thesis
        unfolding h(2) using assms(2) filter_update [OF i(1), of in_use ?t] set_tab_ok [of "tabs b" T ?t i] by (simp add: process_ok_def)
    qed
  qed (use x assms(2) in \<open>simp add: NPP_Destroy_def\<close>)
qed

lemma process_run_ok: "process_run T es b = Some b' \<Longrightarrow> process_ok T b \<Longrightarrow> process_ok T b'"
  by (induction es arbitrary: b) (auto simp: bind_Some_iff dest: process_step_ok)

lemma new_process_ok: "process_ok T (new_process s)"
  by (simp add: process_ok_def new_process_def)

lemma getRootJSAPI_library: "library (getRootJSAPI T i b) = library b \<or> library (getRootJSAPI T i b) = library (load_library T b)"
  by (auto simp: getRootJSAPI_def createJSAPI_def Let_def split: option.splits)

lemma load_library_tabs [simp]: "library (load_library T (b\<lparr>tabs := ts\<rparr>)) = library (load_library T b)"
  by (simp add: load_library_def)

lemma process_step_library:
  assumes "process_step T e b = Some b'" "\<nexists>i o1 c. e = Ev_call i o1 c"
  shows "library b' = library b \<or> library b' = library (load_library T b)"
proof (cases e)
  case (Ev_new onload)
  then show ?thesis
    using assms(1) getRootJSAPI_library [of T "length (tabs b)" "b\<lparr>tabs := tabs b @ [\<lparr>pdata = True, objects = None\<rparr>]\<rparr>"]
    by (auto simp: NPP_New_def Let_def split: if_splits)
next
  case (Ev_object i)
  then show ?thesis using assms(1) getRootJSAPI_library [of T i b] by (auto simp: NPP_GetValue_def split: if_splits)
next
  case (Ev_destroy i)
  then show ?thesis using assms(1) by (auto simp: NPP_Destroy_def split: if_splits option.splits)
qed (use assms(2) in blast)

section \<open>One library for all instances\<close>

text \<open>What the loader does with the static variable \<open>usb_context\<close> of HIDAPI.\<close>

definition usb_reload :: "ust \<Rightarrow> ust" where
  "usb_reload h = h\<lparr>usb_context := False\<rparr>"

lemma usb_reload_simps [simp]: "usb_inv (usb_reload h) = usb_inv h" "usb_held (usb_reload h) = usb_held h"
proof -
  have "handle_of (usb_reload h) = handle_of h" by (rule ext) (simp add: usb_reload_def handle_of_def)
  then show "usb_inv (usb_reload h) = usb_inv h" by (simp add: usb_inv_def usb_live_def fresh_ids_def) (simp add: usb_reload_def)
  show "usb_held (usb_reload h) = usb_held h" by (simp add: usb_reload_def usb_live_def usb_held_def)
qed

definition library_ok :: "nat set \<times> (nat \<Rightarrow> usb_device option) \<Rightarrow> ust nst \<Rightarrow> bool" where
  "library_ok A s \<longleftrightarrow> usb_inv (hid s) \<and> usb_held (hid s) = A \<and> session_ok (tk s)"

lemma load_library_keeps:
  "t_reload T = usb_reload \<Longrightarrow> library_ok A (library b) \<Longrightarrow> library_ok A (library (load_library T b))"
  by (simp add: load_library_def library_ok_def session_ok_zero)

lemma process_step_keeps:
  assumes "process_step T e b = Some b'" "process_ok T b" "e_hidapi (t_script T) = libusb_backend U" "t_reload T = usb_reload"
    and "library_ok A (library b)"
  shows "library_ok A (library b')"
proof (cases "\<exists>i o1 c. e = Ev_call i o1 c")
  case True
  then obtain i o1 c where "object_call T i o1 c b = Some b'" using assms(1) by auto
  then show ?thesis
  proof (cases rule: object_call_cases [OF _ assms(2), consumes 1, case_names none call])
    case (call w w1 ps)
    have "lib (page (api (enter b w))) = library b" by (simp add: enter_def)
    then have "library_ok A (lib (page (api w1)))"
      using hid_backend.page_run_keeps [OF usb.hid_backend_axioms call(4) [unfolded assms(3)]] assms(5) by (simp add: library_ok_def)
    then show ?thesis using call(3) by (simp add: leave_def)
  qed (use assms(5) in simp)
next
  case False
  then show ?thesis using process_step_library [OF assms(1)] load_library_keeps [OF assms(4), of A] assms(5) by fastforce
qed

lemma process_run_keeps:
  assumes "process_run T es b = Some b'" "process_ok T b" "e_hidapi (t_script T) = libusb_backend U" "t_reload T = usb_reload"
    and "library_ok A (library b)"
  shows "library_ok A (library b')"
  using assms
proof (induction es arbitrary: b)
  case (Cons e es)
  then obtain b1 where b1: "process_step T e b = Some b1" "process_run T es b1 = Some b'" by (auto simp: bind_Some_iff)
  show ?case
    using Cons.IH [OF b1(2) process_step_ok [OF b1(1) Cons.prems(2)] Cons.prems(3,4)]
      process_step_keeps [OF b1(1) Cons.prems(2,3,4,5)] by blast
qed simp

text \<open>
  C6. Several instances of the plugin in one process, created, used by their pages and destroyed in any order, over libusb: no device
  stays open, neither in HIDAPI nor in the system, the structures of HIDAPI are consistent and at most entry 0 of \<open>tk\<close> is in use, whichever page called last; and the
  loader has counted the instances that have a scriptable object, so that the library goes with the last of them and not before.
\<close>

theorem tabs_keep_library:
  assumes "process_run T es (new_process s) = Some b" "e_hidapi (t_script T) = libusb_backend U" "t_reload T = usb_reload"
    and "lib_start h s" "usb_inv h"
  shows "usb_inv (hid (library b)) \<and> usb_live (hid (library b)) = usb_live h \<and> handles (hid (library b)) = handles h \<and>
    session_ok (tk (library b)) \<and> loads b = (if ld_open (t_loader T) then length (filter in_use (tabs b)) else 0)"
proof -
  have "library_ok (usb_held h) (library (new_process s))"
    using assms(4,5) session_ok_zero by (simp add: library_ok_def new_process_def lib_start_def)
  from process_run_keeps [OF assms(1) new_process_ok assms(2,3) this] show ?thesis
    using process_run_ok [OF assms(1) new_process_ok] by (simp add: library_ok_def process_ok_def usb_held_def)
qed

section \<open>Errors\<close>

lemma locked_step_process:
  assumes "process_step T e b = Some b'" "process_ok T b" "LAST_ERR_NO (library b) \<noteq> nErr_OK"
    and "j < length (tabs b)" "in_use (tabs b ! j)" "e \<noteq> Ev_destroy j"
  shows "library b' = library b \<and> j < length (tabs b') \<and> in_use (tabs b' ! j)"
proof -
  have "in_use (tabs b ! j) \<Longrightarrow> 0 < length (filter in_use (tabs b))" using assms(4) by (auto simp: filter_empty_conv)
  then have "\<not> ld_open (t_loader T) \<or> loads b \<noteq> 0" using assms(2,5) by (simp add: process_ok_def)
  then have l: "library (load_library T b) = library b" by (auto simp: load_library_def)
  have g: "j < length (tabs c) \<Longrightarrow> in_use (tabs c ! j) \<Longrightarrow>
      j < length (tabs (getRootJSAPI T i c)) \<and> in_use (tabs (getRootJSAPI T i c) ! j)" for i c
    by (cases "i = j") (auto simp: getRootJSAPI_def createJSAPI_def Let_def in_use_def split: option.splits)
  show ?thesis
  proof (cases "\<exists>i o1 c. e = Ev_call i o1 c")
    case True
    then obtain i o1 c where "object_call T i o1 c b = Some b'" using assms(1) by auto
    then show ?thesis
    proof (cases rule: object_call_cases [OF _ assms(2), consumes 1, case_names none call])
      case (call w w1 ps)
      have "get_TkErr (page (api (enter b w))) \<noteq> nErr_OK"
        using assms(3) by (simp add: get_TkErr_def get_err_no_def enter_def nErr_DLL_def nErr_OK_def)
      from locked_run [OF this call(4)] have "lib (page (api w1)) = library b" by (simp add: enter_def)
      then show ?thesis using call(1,2,3) assms(4,5) by (auto simp: leave_def nth_list_update in_use_def)
    qed (use assms(4,5) in simp)
  next
    case False
    then have lb: "library b' = library b" using process_step_library [OF assms(1)] l by auto
    show ?thesis
    proof (cases e)
      case (Ev_new onload)
      then show ?thesis using lb assms(1,4,5) g [of "b\<lparr>tabs := tabs b @ [\<lparr>pdata = True, objects = None\<rparr>]\<rparr>"]
        by (auto simp: NPP_New_def Let_def nth_append split: if_splits)
    next
      case (Ev_object i)
      then show ?thesis using lb assms(1,4,5) g [of b i] by (auto simp: NPP_GetValue_def split: if_splits)
    next
      case (Ev_destroy i)
      then show ?thesis using lb assms(1,4,5,6) by (auto simp: NPP_Destroy_def split: if_splits option.splits)
    qed (use False in blast)
  qed
qed

text \<open>
  C25. The error is the library's, not the page's. Once a call of any page has left one, no event of any instance touches the library
  again, and an instance made later finds the error as well, as long as one that has a scriptable object stays.
\<close>

theorem error_locks_all_tabs:
  assumes "process_run T es0 (new_process s) = Some b" "LAST_ERR_NO (library b) \<noteq> nErr_OK"
    and "j < length (tabs b)" "in_use (tabs b ! j)" "Ev_destroy j \<notin> set es" "process_run T es b = Some b'"
  shows "library b' = library b"
proof -
  have "process_ok T b \<Longrightarrow> LAST_ERR_NO (library b) \<noteq> nErr_OK \<Longrightarrow> j < length (tabs b) \<Longrightarrow> in_use (tabs b ! j) \<Longrightarrow>
      process_run T es b = Some b' \<Longrightarrow> library b' = library b" for b
    using assms(5)
  proof (induction es arbitrary: b)
    case (Cons e es)
    then obtain b1 where b1: "process_step T e b = Some b1" "process_run T es b1 = Some b'" by (auto simp: bind_Some_iff)
    have "library b1 = library b \<and> j < length (tabs b1) \<and> in_use (tabs b1 ! j)"
      using locked_step_process [OF b1(1) Cons.prems(1,2,3,4)] Cons.prems(6) by auto
    then show ?case using Cons.IH [of b1] process_step_ok [OF b1(1) Cons.prems(1)] Cons.prems(2,6) b1(2) by simp
  qed simp
  from this [OF process_run_ok [OF assms(1) new_process_ok] assms(2,3,4,6)] show ?thesis .
qed

section \<open>One session for all pages\<close>

text \<open>A call of a method by the page of instance \<open>i\<close>, and what the object finds.\<close>

definition tab_call :: "'h tab_env \<Rightarrow> nat \<Rightarrow> string \<Rightarrow> npvariant list \<Rightarrow> 'h process \<Rightarrow> (bool \<times> npvariant \<times> 'h process) option" where
  "tab_call T i name args b = (case objects (tabs b ! i) of
     None \<Rightarrow> None
   | Some w \<Rightarrow> map_option (\<lambda>(ok, r, w1). (ok, r, leave i w1 b)) (script_call (t_script T) name args (enter b w)))"

definition tab_world :: "'h process \<Rightarrow> nat \<Rightarrow> 'h world" where
  "tab_world b i = enter b (the (objects (tabs b ! i)))"

definition tab_page :: "'h process \<Rightarrow> nat \<Rightarrow> 'h plugin" where
  "tab_page b i = page (api (tab_world b i))"

definition tab_ready :: "'h process \<Rightarrow> nat \<Rightarrow> bool" where
  "tab_ready b i \<longleftrightarrow> i < length (tabs b) \<and> in_use (tabs b ! i) \<and> script_ready (tab_world b i) \<and>
     dll_load_stat (tab_page b i) = nErr_OK \<and> length (dev_serial (tab_page b i)) = 4"

lemma tab_page_lib [simp]: "lib (tab_page b i) = library b"
  by (simp add: tab_page_def tab_world_def enter_def)

lemma leave_simps [simp]: "library (leave i w b) = lib (page (api w))" "tabs (leave i w b) = (tabs b)[i := (tabs b ! i)\<lparr>objects := Some w\<rparr>]"
  "length (tabs (leave i w b)) = length (tabs b)"
  by (simp_all add: leave_def)

text \<open>Entering an object changes neither the members of the object nor what is valid.\<close>

lemma enter_ready: "script_ready (enter b w) = script_ready (enter b' w)"
  by (simp add: script_ready_def enter_def can_call_def)

lemma enter_page: "dll_load_stat (page (api (enter b w))) = dll_load_stat (page (api w))"
  "dev_serial (page (api (enter b w))) = dev_serial (page (api w))"
  by (simp_all add: enter_def)

lemma enter_self: "script_ready w \<Longrightarrow> script_ready (enter b w)"
  by (simp add: script_ready_def enter_def can_call_def)

lemma tab_ready_leave:
  assumes "tab_ready b j" "i < length (tabs b)" "script_ready w" "dll_load_stat (page (api w)) = nErr_OK" "length (dev_serial (page (api w))) = 4"
  shows "tab_ready (leave i w b) j"
proof (cases "i = j")
  case True
  then show ?thesis using assms enter_self by (simp add: tab_ready_def tab_world_def tab_page_def enter_page in_use_def)
next
  case False
  then show ?thesis using assms(1) enter_ready [of b _ "leave i w b"] by (auto simp: tab_ready_def tab_world_def tab_page_def enter_page)
qed

lemma tab_call_value:
  assumes "tab_ready b i" "(name, m) \<in> set all_methods"
    and "fum_call (t_script T) m (map getVariant args) (in_call name (api (tab_world b i))) =
      Some (Inr v, (in_call name (api (tab_world b i)))\<lparr>page := p\<rparr>)"
    and "dll_load_stat p = nErr_OK" "length (dev_serial p) = 4"
  shows "\<exists>b'. tab_call T i name args b = Some (True, getNPVariant v, b') \<and> library b' = lib p \<and> (\<forall>j. tab_ready b j \<longrightarrow> tab_ready b' j)"
proof -
  obtain w where w: "i < length (tabs b)" "objects (tabs b ! i) = Some w" "tab_world b i = enter b w" "script_ready (tab_world b i)"
    using assms(1) by (auto simp: tab_ready_def tab_world_def in_use_def)
  from script_call_value [OF w(4) assms(2,3)] obtain w1 where
    w1: "script_call (t_script T) name args (enter b w) = Some (True, getNPVariant v, w1)" "page (api w1) = p" "script_ready w1"
    using w(3) by auto
  then have "tab_call T i name args b = Some (True, getNPVariant v, leave i w1 b)" using w(2) by (simp add: tab_call_def)
  moreover have "\<forall>j. tab_ready b j \<longrightarrow> tab_ready (leave i w1 b) j" using tab_ready_leave [OF _ w(1) w1(3)] w1(2) assms(4,5) by blast
  ultimately show ?thesis using w1(2) by auto
qed

lemma tab_text_call:
  assumes "tab_ready b i" "any_order (t_script T)" "(name, m) \<in> set all_methods" "params m = [A_int, A_string, A_string]"
    and "convert_int (getVariant k) = Some (Inr n)"
    and "\<And>a. fum_apply (t_script T) m [V_int n, V_string t, V_string u] a = with_page V_string (f (page a)) a"
    and "f (tab_page b i) = Some (r, (tab_page b i)\<lparr>lib := s\<rparr>)"
  shows "\<exists>b'. tab_call T i name [k, NP_String t, NP_String u] b = Some (True, NP_String r, b') \<and> library b' = s \<and>
    (\<forall>j. tab_ready b j \<longrightarrow> tab_ready b' j)"
proof -
  have "map getVariant [k, NP_String t, NP_String u] = [getVariant k, V_string t, V_string u]" by (simp add: getVariant_def)
  then have "fum_call (t_script T) m (map getVariant [k, NP_String t, NP_String u]) (in_call name (api (tab_world b i))) =
      Some (Inr (V_string r), (in_call name (api (tab_world b i)))\<lparr>page := (tab_page b i)\<lparr>lib := s\<rparr>\<rparr>)"
    using three_arguments [OF assms(2,4,5)] assms(6,7) by (simp add: with_page_def tab_page_def)
  from tab_call_value [OF assms(1,3) this] assms(1) show ?thesis by (simp add: getNPVariant_def tab_ready_def)
qed

text \<open>The events behind such a call.\<close>

lemma enter_leave: "enter (leave i w b) w = w"
  by (simp add: enter_def leave_def)

lemma leave_leave: "leave i w (leave i w1 b) = leave i w b"
  by (cases "i < length (tabs b)") (simp_all add: leave_def set_tab_def list_update_beyond)

lemma calls_run:
  assumes "np_run (t_script T) cs (enter b w) = Some w1" "cs \<noteq> []" "i < length (tabs b)" "objects (tabs b ! i) = Some w"
  shows "process_run T (map (\<lambda>(o1, c). Ev_call i o1 c) cs) b = Some (leave i w1 b)"
  using assms
proof (induction cs arbitrary: b w)
  case (Cons x cs)
  obtain o1 c where x: "x = (o1, c)" by fastforce
  then obtain w' where w': "np_step (t_script T) o1 c (enter b w) = Some w'" "np_run (t_script T) cs w' = Some w1"
    using Cons.prems(1) by (auto simp: bind_Some_iff)
  let ?b = "leave i w' b"
  have s: "object_call T i o1 c b = Some ?b" using w'(1) Cons.prems(3,4) by (simp add: object_call_def)
  show ?case
  proof (cases "cs = []")
    case True
    then show ?thesis using x s w'(2) by simp
  next
    case False
    have "process_run T (map (\<lambda>(o1, c). Ev_call i o1 c) cs) ?b = Some (leave i w1 ?b)"
      using Cons.IH [of ?b w'] w'(2) False Cons.prems(3) by (simp add: enter_leave)
    then show ?thesis using x s by (simp add: leave_leave)
  qed
qed simp

lemma tab_call_run:
  assumes "tab_call T i name args b = Some (ok, r, b')" "i < length (tabs b)"
  shows "\<exists>es. process_run T es b = Some b' \<and> (\<forall>e\<in>set es. \<exists>o1 c. e = Ev_call i o1 c)"
proof -
  obtain w w1 where w: "objects (tabs b ! i) = Some w" "script_call (t_script T) name args (enter b w) = Some (ok, r, w1)" "b' = leave i w1 b"
    using assms(1) by (auto simp: tab_call_def split: option.splits)
  obtain cs where "cs \<noteq> []" "np_run (t_script T) cs (enter b w) = Some w1" using script_call_run [OF w(2)] by blast
  from calls_run [OF this(2,1) assms(2) w(1)] w(3) show ?thesis
    by (intro exI [of _ "map (\<lambda>(o1, c). Ev_call i o1 c) cs"]) auto
qed

text \<open>\<open>GetToken\<close> by one of the pages.\<close>

lemma tab_no_error: "tab_ready b l \<Longrightarrow> LAST_ERR_NO (library b) = nErr_OK \<Longrightarrow> get_TkErr (tab_page b l) = nErr_OK"
  by (simp add: get_TkErr_def get_err_no_def tab_ready_def)

lemma tab_GetToken:
  assumes "plugged (e_platform (t_script T)) U ser (lo, hi) key" "e_hidapi (t_script T) = libusb_backend U" "any_order (t_script T)"
    and "tab_ready b i" "usb_inv (hid (library b))" "LAST_ERR_NO (library b) = nErr_OK"
  shows "\<exists>b1. tab_call T i ''GetToken'' [] b = Some (True, NP_Void, b1) \<and> in_session usb_inv ser (library b1) \<and>
    LAST_ERR_NO (library b1) = nErr_OK \<and> (\<forall>j. tab_ready b j \<longrightarrow> tab_ready b1 j)"
proof -
  let ?E = "t_script T"
  note a = plugged_attached [OF assms(1), folded assms(2)]
  obtain p1 where p1: "GetToken (e_platform ?E) (e_hidapi ?E) (tab_page b i) = Some p1" "in_session usb_inv ser (lib p1)"
    "get_TkErr p1 = nErr_OK" "dll_load_stat p1 = nErr_OK" "dev_serial p1 = ser"
    using GetToken_ok [OF attached_present [OF a], of "tab_page b i"] assms(4,5,6) tab_no_error by (auto simp: tab_ready_def)
  have l: "length (dev_serial p1) = 4" using attached_present [OF a] p1(5) by (simp add: present_def)
  have "fum_call ?E M_GetToken (map getVariant []) (in_call ''GetToken'' (api (tab_world b i))) =
      Some (Inr V_empty, (in_call ''GetToken'' (api (tab_world b i)))\<lparr>page := p1\<rparr>)"
    using no_arguments [of M_GetToken ?E] assms(3) p1(1) by (simp add: fum_apply_def Let_def with_page_def tab_page_def)
  from tab_call_value [OF assms(4) method_names(1) this p1(4) l] show ?thesis
    using p1(2,3,4) by (auto simp: getNPVariant_def get_TkErr_def get_err_no_def)
qed

lemma RsaEncrypt_apply:
  "fum_apply E M_RsaEncrypt [V_int n, V_string t, V_string u] a =
    with_page V_string (RsaEncrypt (e_platform E) (e_hidapi E) (e_ssl E) n t u (page a)) a"
  by (simp add: fum_apply_def Let_def)

lemma RsaDecrypt_apply:
  "fum_apply E M_RsaDecrypt [V_int n, V_string t, V_string u] a =
    with_page V_string (RsaDecrypt (e_platform E) (e_hidapi E) (e_ssl E) n t u (page a)) a"
  by (simp add: fum_apply_def Let_def)

text \<open>A key type that there is not.\<close>

lemma RsaEncrypt_lib: "RsaEncrypt P H S kt m pwd p = Some (r, p') \<Longrightarrow> \<exists>s. p' = p\<lparr>lib := s\<rparr>"
  by (auto simp: RsaEncrypt_def Let_def bind_Some_iff split: if_splits intro: exI [of _ "lib p"])

lemma tab_wrong_key_type:
  assumes "plugged (e_platform (t_script T)) U ser (lo, hi) key" "e_hidapi (t_script T) = libusb_backend U" "any_order (t_script T)"
    and "tab_ready b i" "in_session usb_inv ser (library b)" "LAST_ERR_NO (library b) = nErr_OK"
    and "openssl_succeeds (e_ssl (t_script T))" "usable (uint hi * 256 + uint lo)" "length (cstr m) < 1024"
    and "convert_int (getVariant k) = Some (Inr n)" "n \<noteq> 1" "n \<noteq> 2"
  shows "\<exists>b1. tab_call T i ''RsaEncrypt'' [k, NP_String m, NP_String pwd] b = Some (True, NP_String [], b1) \<and>
    LAST_ERR_NO (library b1) = nErr_INVKT \<and> (\<forall>j. tab_ready b j \<longrightarrow> tab_ready b1 j)"
proof -
  let ?E = "t_script T"
  note a = plugged_attached [OF assms(1), folded assms(2)]
  obtain p1 where p1: "RsaEncrypt (e_platform ?E) (e_hidapi ?E) (e_ssl ?E) n m pwd (tab_page b i) = Some ([], p1)" "get_TkErr p1 = nErr_INVKT"
    using RsaEncrypt_key_type [OF a _ assms(7,8) tab_no_error [OF assms(4,6)] assms(11,12,9)] assms(5) by auto
  then obtain s where s: "p1 = (tab_page b i)\<lparr>lib := s\<rparr>" using RsaEncrypt_lib by blast
  from tab_text_call [OF assms(4,3) method_names(2) _ assms(10) RsaEncrypt_apply p1(1) [unfolded s]] show ?thesis
    using p1(2) assms(4) by (auto simp: s get_TkErr_def get_err_no_def tab_ready_def)
qed

text \<open>
  C7. The session with the token is the library's as well. The pages of three instances, or of one: the first calls \<open>GetToken\<close>, then
  the second \<open>RsaEncrypt\<close>, though it has never asked for the token, and the third gets the message back with \<open>RsaDecrypt\<close> and the
  password.
\<close>

theorem tabs_share_session:
  assumes "plugged (e_platform (t_script T)) U ser (lo, hi) key" "e_hidapi (t_script T) = libusb_backend U" "any_order (t_script T)"
    and "tab_ready b i" "tab_ready b j" "tab_ready b k" "usb_inv (hid (library b))" "LAST_ERR_NO (library b) = nErr_OK"
    and "good_stack (e_platform (t_script T))" "openssl_succeeds (e_ssl (t_script T))"
    and "usable (uint hi * 256 + uint lo)" "holds_public key Ke N" "holds_private key (password16 pwd) D N"
    and "rsa_pair (e_ssl (t_script T)) (rsa_value Ke N None) (rsa_value Ke N (Some D)) m" "0 \<notin> set m" "length m < 1024"
  shows "\<exists>b1 b2 b3 hex. tab_call T i ''GetToken'' [] b = Some (True, NP_Void, b1) \<and>
    tab_call T j ''RsaEncrypt'' [NP_Int32 1, NP_String m, NP_String pwd] b1 = Some (True, NP_String hex, b2) \<and> length hex = 256 \<and>
    tab_call T k ''RsaDecrypt'' [NP_Int32 2, NP_String hex, NP_String pwd] b2 = Some (True, NP_String m, b3)"
proof -
  let ?E = "t_script T"
  let ?P = "e_platform ?E" and ?H = "e_hidapi ?E" and ?S = "e_ssl ?E"
  note a = plugged_attached [OF assms(1), folded assms(2)]
  obtain c where c: "ssl_RSA_crypt ?S RSA_public_encrypt (int (length m)) m (rsa_value Ke N None) = (128, c)"
    "length c = 128" "ssl_RSA_crypt ?S RSA_private_decrypt 128 c (rsa_value Ke N (Some D)) = (int (length m), m)"
    using assms(14) unfolding rsa_pair_def by blast
  obtain b1 where b1: "tab_call T i ''GetToken'' [] b = Some (True, NP_Void, b1)" "in_session usb_inv ser (library b1)"
    "LAST_ERR_NO (library b1) = nErr_OK" "tab_ready b1 j" "tab_ready b1 k"
    using tab_GetToken [OF assms(1-4,7,8)] assms(5,6) by blast
  have k: "convert_int (getVariant (NP_Int32 1)) = Some (Inr 1)" "convert_int (getVariant (NP_Int32 2)) = Some (Inr 2)" by code_simp+
  obtain s2 where s2: "RsaEncrypt ?P ?H ?S 1 m pwd (tab_page b1 j) = Some (hex_text c, (tab_page b1 j)\<lparr>lib := s2\<rparr>)"
    "in_session usb_inv ser s2" "LAST_ERR_NO s2 = nErr_OK"
    using RsaEncrypt_ok [OF a _ assms(9,10,11,12) tab_no_error [OF b1(4,3)] c(1,2) assms(15,16)] b1(2) by auto
  obtain b2 where b2: "tab_call T j ''RsaEncrypt'' [NP_Int32 1, NP_String m, NP_String pwd] b1 = Some (True, NP_String (hex_text c), b2)"
    "library b2 = s2" "tab_ready b2 k"
    using tab_text_call [OF b1(4) assms(3) method_names(2) _ k(1) RsaEncrypt_apply s2(1)] b1(5) by auto
  obtain s3 where "RsaDecrypt ?P ?H ?S 2 (hex_text c) pwd (tab_page b2 k) = Some (m, (tab_page b2 k)\<lparr>lib := s3\<rparr>)"
    using RsaDecrypt_ok [OF a _ assms(9,10,11,12,13) tab_no_error [OF b2(3)] c(3,2) assms(15,16)] s2(2,3) b2(2) by auto
  from tab_text_call [OF b2(3) assms(3) method_names(3) _ k(2) RsaDecrypt_apply this] obtain b3 where
    "tab_call T k ''RsaDecrypt'' [NP_Int32 2, NP_String (hex_text c), NP_String pwd] b2 = Some (True, NP_String m, b3)" by auto
  moreover have "length (hex_text c) = 256" using c(2) by simp
  ultimately show ?thesis using b1(1) b2(1) by blast
qed

section \<open>A process with two instances\<close>

definition example_tabs :: "ust tab_env" where
  "example_tabs = \<lparr>t_script = example_env, t_loader = \<lparr>ld_open = True, ld_error = (\<lambda>name. False)\<rparr>, t_serial = (\<lambda>n. [0, 0, 0, 0]),
     t_reload = usb_reload\<rparr>"

definition two_tabs :: "ust process" where
  "two_tabs = \<lparr>library = example_start, loads = 2, click_count = 0, last_exception = V_empty,
     tabs = replicate 2 \<lparr>pdata = True, objects = Some example_world\<rparr>\<rparr>"

lemma two_tabs_run: "process_run example_tabs [Ev_new False, Ev_object 0, Ev_new False, Ev_object 1] (new_process example_start) = Some two_tabs"
proof -
  have "example_start\<lparr>tk := zero_tk, LAST_ERR_NO := nErr_OK, hid := usb_reload (hid example_start)\<rparr> = example_start"
    using example_start_ok(3) by (simp add: example_start_def usb_reload_def lib_start_def)
  then show ?thesis
    by (simp add: two_tabs_def new_process_def NPP_New_def NPP_GetValue_def validInstance_def getRootJSAPI_def createJSAPI_def load_library_def
      set_tab_def example_tabs_def example_world_def Let_def numeral_2_eq_2)
qed

lemma two_tabs_ready: "tab_ready two_tabs 0" "tab_ready two_tabs 1"
proof -
  have "length (dev_serial (page (api example_world))) = 4" "dll_load_stat (page (api example_world)) = nErr_OK"
    by (simp_all add: example_world_def new_world_def new_api_page new_plugin_def loadTokenDll_def dll_symbols_def)
  then show "tab_ready two_tabs 0" "tab_ready two_tabs 1"
    using enter_self [OF example_world_ok(2), of two_tabs]
    by (simp_all add: tab_ready_def tab_world_def tab_page_def enter_page) (simp_all add: two_tabs_def in_use_def)
qed

lemma example_tabs_ok: "t_script example_tabs = example_env" "t_reload example_tabs = usb_reload" "ld_open (t_loader example_tabs)"
  "e_hidapi example_env = libusb_backend (example_usb (0, 8))" "library two_tabs = example_start"
  by (simp_all add: example_tabs_def example_env_def two_tabs_def)

theorem tabs_share_session_witness:
  "\<exists>b1 b2 b3 hex. tab_call example_tabs 0 ''GetToken'' [] two_tabs = Some (True, NP_Void, b1) \<and>
    tab_call example_tabs 1 ''RsaEncrypt'' [NP_Int32 1, NP_String [72, 105], NP_String example_pwd] b1 = Some (True, NP_String hex, b2) \<and>
    tab_call example_tabs 0 ''RsaDecrypt'' [NP_Int32 2, NP_String hex, NP_String example_pwd] b2 = Some (True, NP_String [72, 105], b3)"
proof -
  have e: "e_platform example_env = example_platform" "e_ssl example_env = example_padding" by (simp_all add: example_env_def)
  have l: "LAST_ERR_NO example_start = nErr_OK" using example_start_ok(3) by (simp add: lib_start_def)
  show ?thesis
    using tabs_share_session [of example_tabs "example_usb (0, 8)" _ _ _ _ two_tabs 0 1 0, unfolded example_tabs_ok e, OF
        example_plugged [of "(0, 8)"] refl example_world_ok(1) two_tabs_ready two_tabs_ready(1) example_start_ok(1) l
        example_ok(4) example_padding_ok(1) example_usable example_ok(7) example_private example_padding_ok(2)] by fastforce
qed

lemma process_run_append: "process_run T (es @ es') b = do { b1 \<leftarrow> process_run T es b; process_run T es' b1 }"
  by (induction es arbitrary: b) (simp_all split: bind_split)

text \<open>One page gets the token and then passes a key type that there is not.\<close>

lemma two_tabs_error:
  "\<exists>es b es' b'. process_run example_tabs es (new_process example_start) = Some b \<and>
    in_session usb_inv example_ser (library b) \<and> tab_ready b 0 \<and> tab_ready b 1 \<and>
    process_run example_tabs es' b = Some b' \<and> LAST_ERR_NO (library b') = nErr_INVKT \<and> tab_ready b' 0 \<and> tab_ready b' 1"
proof -
  let ?T = example_tabs
  have e: "e_platform example_env = example_platform" "e_ssl example_env = example_padding" by (simp_all add: example_env_def)
  have l: "LAST_ERR_NO example_start = nErr_OK" using example_start_ok(3) by (simp add: lib_start_def)
  obtain b1 where b1: "tab_call ?T 0 ''GetToken'' [] two_tabs = Some (True, NP_Void, b1)" "in_session usb_inv example_ser (library b1)"
    "LAST_ERR_NO (library b1) = nErr_OK" "tab_ready b1 0" "tab_ready b1 1"
    using tab_GetToken [of ?T "example_usb (0, 8)" _ _ _ _ two_tabs 0, unfolded example_tabs_ok e, OF example_plugged [of "(0, 8)"] refl
        example_world_ok(1) two_tabs_ready(1) example_start_ok(1) l] two_tabs_ready by blast
  have k: "convert_int (getVariant (NP_Int32 3)) = Some (Inr 3)" by code_simp
  obtain b2 where b2: "tab_call ?T 0 ''RsaEncrypt'' [NP_Int32 3, NP_String [72], NP_String []] b1 = Some (True, NP_String [], b2)"
    "LAST_ERR_NO (library b2) = nErr_INVKT" "tab_ready b2 0" "tab_ready b2 1"
    using tab_wrong_key_type [of ?T "example_usb (0, 8)", unfolded example_tabs_ok e, OF example_plugged [of "(0, 8)"] refl example_world_ok(1)
        b1(4,2,3) example_padding_ok(1) example_usable _ k, of "[72]" "[]"] b1(4,5) by (auto simp: cstr_def)
  obtain es1 es2 where "process_run ?T es1 two_tabs = Some b1" "process_run ?T es2 b1 = Some b2"
    using tab_call_run [OF b1(1)] tab_call_run [OF b2(1)] two_tabs_ready(1) b1(4) by (auto simp: tab_ready_def)
  then have "process_run ?T ([Ev_new False, Ev_object 0, Ev_new False, Ev_object 1] @ es1) (new_process example_start) = Some b1"
    "process_run ?T es2 b1 = Some b2" by (simp_all only: process_run_append two_tabs_run bind.bind_lunit)
  then show ?thesis using b1(2,4,5) b2(2-4) by blast
qed

theorem tabs_keep_library_witness:
  "\<exists>es b. process_run example_tabs es (new_process example_start) = Some b \<and> in_session usb_inv example_ser (library b) \<and>
    usb_live (hid (library b)) = {}"
proof -
  obtain es b where b: "process_run example_tabs es (new_process example_start) = Some b" "in_session usb_inv example_ser (library b)"
    using two_tabs_error by blast
  from tabs_keep_library [OF this(1) _ _ example_start_ok(3,1)] b show ?thesis using example_start_ok(2) example_tabs_ok by auto
qed

lemma destroy_defined:
  assumes "process_ok T b" "ld_open (t_loader T)"
  shows "\<exists>b'. process_step T (Ev_destroy i) b = Some b'"
proof (cases "validInstance i b")
  case True
  then have "tab_ok T (tabs b ! i)" "pdata (tabs b ! i)" using assms(1) by (simp_all add: process_ok_def validInstance_def)
  then show ?thesis using True assms(2) by (auto simp: NPP_Destroy_def tab_ok_def split: option.splits)
qed (simp add: NPP_Destroy_def)

theorem error_locks_all_tabs_witness:
  "\<exists>es b b'. process_run example_tabs es (new_process example_start) = Some b \<and> LAST_ERR_NO (library b) = nErr_INVKT \<and>
    process_run example_tabs [Ev_destroy 0, Ev_new True] b = Some b' \<and> library b' = library b"
proof -
  obtain es b1 es' b where r: "process_run example_tabs es (new_process example_start) = Some b1" "process_run example_tabs es' b1 = Some b"
    and b: "LAST_ERR_NO (library b) = nErr_INVKT" "tab_ready b 1" using two_tabs_error by blast
  have run: "process_run example_tabs (es @ es') (new_process example_start) = Some b" using r by (simp add: process_run_append)
  obtain b' where b': "process_run example_tabs [Ev_destroy 0, Ev_new True] b = Some b'"
    using destroy_defined [OF process_run_ok [OF run new_process_ok] example_tabs_ok(3), of 0] by auto
  have "LAST_ERR_NO (library b) \<noteq> nErr_OK" using b(1) by (simp add: const_simps)
  from error_locks_all_tabs [OF run this _ _ _ b', of 1] show ?thesis using run b b' by (auto simp: tab_ready_def)
qed

section \<open>What pages see of each other\<close>

lemma getLastException_call:
  assumes "script_ready w" "last_message w = V_string t"
  shows "script_call E ''getLastException'' args w = Some (True, NP_String t, w)"
  using assms by (simp add: script_call_def script_ready_def np_GetProperty_def np_isValid_def vtable_def api_ops_def function_ops_def give_def
    np_catch_def getNPVariant_def np_InvokeDefault_def np_Invoke_def object_expired_def fn_Invoke_def fn_exec_def)

text \<open>
  C34. The text that \<open>getLastException\<close> gives is a static variable: when a call by the page of one instance fails because of its
  arguments, the page of any other that asks gets the complaint.
\<close>

theorem exceptions_cross_pages:
  assumes "any_order (t_script T)" "tab_ready b i" "tab_ready b j" "(name, m) \<in> set all_methods"
    and "bad_call (params m) (map getVariant args)" "\<forall>v\<in>set (map getVariant args). \<not> is_nan v"
  shows "\<exists>b1 b2 x. tab_call T i name args b = Some (False, NP_Void, b1) \<and>
    tab_call T j ''getLastException'' [] b1 = Some (True, NP_String (bytes (arg_error_text (e_type_name (t_script T)) x)), b2)"
proof -
  let ?E = "t_script T"
  obtain w where w: "i < length (tabs b)" "objects (tabs b ! i) = Some w" "tab_world b i = enter b w" "script_ready (enter b w)"
    using assms(2) by (auto simp: tab_ready_def tab_world_def in_use_def)
  obtain x where "fum_call ?E m (map getVariant args) (in_call name (api (enter b w))) =
      Some (Inl (Invalid_arguments x), in_call name (api (enter b w)))"
    using bad_call_error [OF assms(1,5,6)] by blast
  from script_call_error [OF w(4) assms(4) this] obtain w1 where w1: "script_call ?E name args (enter b w) = Some (False, NP_Void, w1)"
    "page (api w1) = page (api (enter b w))" "script_ready w1" "last_message w1 = V_string (bytes (arg_error_text (e_type_name ?E) x))"
    by auto
  let ?b = "leave i w1 b"
  have r: "tab_ready ?b j" using tab_ready_leave [OF assms(3) w(1) w1(3)] w1(2) assms(2) w(3) by (simp add: tab_ready_def tab_page_def)
  then obtain u where u: "objects (tabs ?b ! j) = Some u" "script_ready (enter ?b u)" by (auto simp: tab_ready_def tab_world_def in_use_def)
  have "last_message (enter ?b u) = last_message w1" by (simp add: enter_def leave_def)
  then have "tab_call T j ''getLastException'' [] ?b = Some (True, NP_String (bytes (arg_error_text (e_type_name ?E) x)), leave j (enter ?b u) ?b)"
    using getLastException_call [OF u(2)] u(1) w1(4) by (simp add: tab_call_def)
  moreover have "tab_call T i name args b = Some (False, NP_Void, ?b)" using w(2) w1(1) by (simp add: tab_call_def)
  ultimately show ?thesis by blast
qed

theorem exceptions_cross_pages_witness:
  "\<exists>b1 b2 x. tab_call example_tabs 0 ''RsaDecrypt'' [NP_String [50]] two_tabs = Some (False, NP_Void, b1) \<and>
    tab_call example_tabs 1 ''getLastException'' [] b1 = Some (True, NP_String (bytes (arg_error_text (\<lambda>t. ''type'') x)), b2)"
proof -
  have "bad_call (params M_RsaDecrypt) (map getVariant [NP_String [50]])" "\<forall>v\<in>set (map getVariant [NP_String [50]]). \<not> is_nan v" by code_simp+
  from exceptions_cross_pages [of example_tabs, OF _ two_tabs_ready method_names(3) this] show ?thesis
    using example_world_ok(1) by (simp add: example_tabs_ok) (simp add: example_env_def)
qed

text \<open>
  When \<open>dlopen\<close> has failed the destructor calls \<open>dlclose\<close> with NULL, as soon as a page with a scriptable object is closed.
\<close>

theorem close_without_library:
  assumes "process_run T es (new_process s) = Some b" "\<not> ld_open (t_loader T)" "i < length (tabs b)" "in_use (tabs b ! i)"
  shows "process_step T (Ev_destroy i) b = None"
proof -
  have "tab_ok T (tabs b ! i)" using process_run_ok [OF assms(1) new_process_ok] assms(3) by (simp add: process_ok_def)
  then show ?thesis using assms(2-4) by (auto simp: NPP_Destroy_def validInstance_def in_use_def tab_ok_def)
qed

theorem close_without_library_witness:
  "\<exists>b. process_run (example_tabs\<lparr>t_loader := \<lparr>ld_open = False, ld_error = (\<lambda>name. True)\<rparr>\<rparr>) [Ev_new False, Ev_object 0]
      (new_process example_start) = Some b \<and>
    process_step (example_tabs\<lparr>t_loader := \<lparr>ld_open = False, ld_error = (\<lambda>name. True)\<rparr>\<rparr>) (Ev_destroy 0) b = None"
proof -
  let ?T = "example_tabs\<lparr>t_loader := \<lparr>ld_open = False, ld_error = (\<lambda>name. True)\<rparr>\<rparr>"
  obtain b where b: "process_run ?T [Ev_new False, Ev_object 0] (new_process example_start) = Some b" "0 < length (tabs b)" "in_use (tabs b ! 0)"
    by (simp add: new_process_def NPP_New_def NPP_GetValue_def validInstance_def getRootJSAPI_def createJSAPI_def load_library_def
      set_tab_def Let_def in_use_def)
  show ?thesis using b(1) close_without_library [OF b(1) _ b(2,3)] by simp
qed

text \<open>The library goes with the last instance, and what comes back with the next is without an error and without a token.\<close>

lemma reload_clears:
  assumes "process_run T es (new_process s) = Some b" "ld_open (t_loader T)" "\<forall>t\<in>set (tabs b). \<not> in_use t" "validInstance i b"
  shows "\<exists>b'. process_step T (Ev_object i) b = Some b' \<and> LAST_ERR_NO (library b') = nErr_OK \<and> tk (library b') = zero_tk \<and> loads b' = 1"
proof -
  have "loads b = 0" using process_run_ok [OF assms(1) new_process_ok] assms(2,3) by (simp add: process_ok_def filter_empty_conv)
  moreover have "objects (tabs b ! i) = None" using assms(3,4) by (force simp: validInstance_def in_use_def)
  ultimately show ?thesis
    using assms(2,4) by (simp add: NPP_GetValue_def getRootJSAPI_def createJSAPI_def Let_def load_library_def)
qed

end
