(* ===== verification/Spec2Isabelle.thy ===== *)
theory Spec2Isabelle
  imports UsbProps ReaderThread HidLinuxProps HidWindowsProps HidMacProps SampleProps ServiceProps TabProps
begin

text \<open>
  A verification library for the USB token plugin: the library \<^verbatim>\<open>libnovin\<close> that talks to the token, the implementations of
  HIDAPI it can run on under Linux, Windows and Mac OS X, the object the browser plugin offers to a page, and the part of FireBreath
  through which a browser reaches it.

  \<^bold>\<open>The program.\<close> A browser hands a page an \<^verbatim>\<open>NPObject\<close> whose entry points (\<^verbatim>\<open>NpapiCore/NPJavascriptObject.cpp\<close>) convert values and
  pass the call to a \<^verbatim>\<open>JSAPIAuto\<close> (\<^verbatim>\<open>ScriptingCore\<close>), which converts the arguments and calls the method registered: one of
  \<open>fumPluginAPI\<close> (\<^verbatim>\<open>src/fumPlugin/fumPluginAPI.cpp\<close>), which has loaded the token
  library with \<open>dlopen\<close>. The public functions of the library (\<^verbatim>\<open>src/token-DLL/lib/novinlib.c\<close>) look for a token, select it, and
  encrypt, decrypt, sign and verify with RSA keys that are stored on it; the requests themselves
  (\<^verbatim>\<open>novintools.c\<close>: status words, keys in pieces of sixteen bytes) are packets of 38 bytes, obfuscated with the
  token's serial number, which travel as HID feature reports. HIDAPI (\<^verbatim>\<open>hidapi.h\<close>) is the interface to the device; the
  makefile links \<^verbatim>\<open>hid-libusb.c\<close>, over libusb, \<^verbatim>\<open>hidapi-master/linux/hid.c\<close>, over hidraw and udev, is its alternative, \<^verbatim>\<open>hidapi-master/windows/hid.c\<close> and
  \<^verbatim>\<open>mac/hid.c\<close> are the ones for Windows and Mac OS X. An open device of the first and the last has a thread of its own that collects
  input reports.

  \<^bold>\<open>Theories and code.\<close>
  \<^item> \<open>Prelude\<close>: byte arrays with checked accesses, the option monad, words.
  \<^item> \<open>NovinConsts\<close>, \<open>PacketCrypt\<close>, \<open>SerialConv\<close>, \<open>NovinTools\<close>: error codes and the table \<open>tk\<close>
    (\<^verbatim>\<open>novin-error.h\<close>, \<^verbatim>\<open>novin-op-code.h\<close>); \<open>_encrypt_packet\<close> and \<open>_decrypt_packet\<close>; \<open>_cnv_hex_to_decimal_serial\<close>; \<open>_send_packet\<close>
    and the key and status requests (\<^verbatim>\<open>novintools.c\<close>). The record \<open>nst\<close> is the state of the library: \<open>tk\<close>, \<open>LAST_ERR_NO\<close>, the
    state \<open>hid\<close> of the HIDAPI underneath, and counters for what OpenSSL and stdio hand out.
  \<^item> \<open>NovinLib\<close>: every public function of \<^verbatim>\<open>novinlib.c\<close>, over any HIDAPI (record \<open>hidapi\<close>) and any OpenSSL (record \<open>openssl\<close>).
  \<^item> \<open>HidApi\<close>: \<open>struct hid_device_info\<close>, the function table, and the contract \<open>hid_backend\<close>. Its parameter \<open>held\<close> is
    everything an implementation holds open, in its own structures and in the system: handles of libusb, descriptors, handles of Windows and
    preparsed data, opens and retained references of IOKit. A call that returns gives back what it has taken.
  \<^item> \<open>UsbBus\<close>, \<open>UsbStrings\<close>, \<open>LangMap\<close>, \<open>HidLibusb\<close>, \<open>InputQueue\<close>, \<open>ReaderThread\<close>: \<^verbatim>\<open>hid-libusb.c\<close>. The state \<open>ust\<close> has the device
    structures by address, the open libusb handles, a count of heap blocks, and the history of libusb calls.
    \<open>ReaderThread\<close> is a step relation on \<open>read_thread\<close> and the application thread: a step is the code
    between two points where the other thread can come in.
  \<^item> \<open>BoundedBuffer\<close>: the buffer of 32 reports the threads implement, and the contracts \<open>report_queue\<close> and \<open>buffered_threads\<close>, which
    the implementations over libusb and on Mac OS X interpret.
  \<^item> \<open>ReportDesc\<close>, \<open>Uevent\<close>, \<open>HidLinux\<close>: the parsers of report descriptors, and \<^verbatim>\<open>linux/hid.c\<close>, with a descriptor table.
  \<^item> \<open>HidWindows\<close>: \<^verbatim>\<open>windows/hid.c\<close>. The state \<open>wst\<close> has the device structures, the handles, the devices whose read buffer the kernel may still
    use, and the heap blocks.
  \<^item> \<open>HidMac\<close>, \<open>MacThread\<close>: \<^verbatim>\<open>mac/hid.c\<close>. The state \<open>mst\<close> has the device structures, the manager, what has been opened, retained and
    created; \<open>MacThread\<close> is the step relation of \<open>read_thread\<close>, its run loop and the application, with the file's own barriers. Its
    parameter says whether a wait at a barrier may return by itself.
  \<^item> \<open>PluginCodec\<close>, \<open>FumPlugin\<close>: the hex codec and the object of the plugin; \<open>page_step\<close> is one call of a script.
  \<^item> \<open>StdMap\<close>, \<open>Variant\<close>: \<^verbatim>\<open>std::map\<close> with strings as keys, the values of scripts and their conversions (\<^verbatim>\<open>variant.h\<close>).
  \<^item> \<open>JsApi\<close>: \<^verbatim>\<open>JSAPIAuto.cpp\<close> and \<^verbatim>\<open>JSAPIImpl.cpp\<close>; the record \<open>jsapi\<close> has what is registered, the security zones, attributes and
    listeners. \<open>FumScript\<close>: what the plugin registers, the conversion of arguments (\<^verbatim>\<open>MethodConverter.h\<close>, \<^verbatim>\<open>ConverterUtils.h\<close>),
    method objects (\<^verbatim>\<open>JSFunction.cpp\<close>); its record \<open>fum_api\<close> extends \<open>jsapi\<close> by the page, as the class does. \<open>NpObject\<close>: the wrapper with
    the entry points, over any table of virtual functions, and the objects of the plugin (record \<open>world\<close>); \<open>np_step\<close> is one entry.
  \<^item> \<open>ScriptLemmas\<close>, \<open>ScriptCalls\<close>: the contract \<open>jsapi_object\<close> of an object in the wrapper, which the scriptable object and the
    function objects interpret, and the effect of one call of a script.
  \<^item> \<open>PluginTabs\<close>: the instances of the plugin in one process (\<^verbatim>\<open>NpapiPluginModule_NPP.cpp\<close>, \<^verbatim>\<open>fumPlugin.cpp\<close>). The record \<open>process\<close> has what they
    share, the library with the loader's count and the static variables, and the instances; \<open>process_step\<close> is one event of the browser.
  \<^item> \<open>Samples\<close>: the programs \<^verbatim>\<open>sample.c\<close> and \<^verbatim>\<open>dynamic-sample.c\<close>, a list of calls each with what is printed.
  \<^item> \<open>ServiceSpec\<close>, \<open>ServiceProps\<close>: an abstract specification of the token library, a machine with three phases, and the refinement.
  \<^item> \<open>TokenKey\<close>, \<open>TokenSession\<close>, \<open>UsbToken\<close>, \<open>HidLinuxToken\<close>, \<open>HidWindowsToken\<close>, \<open>HidMacToken\<close>: a token that answers as the protocol has it, and the devices that show one.
  \<^item> \<open>LibFrames\<close>, \<open>LibSession\<close>, \<open>HidLibusbContract\<close>, \<open>HidLinuxContract\<close>, \<open>HidWindowsContract\<close>, \<open>HidMacContract\<close>: frames and invariants; the four
    implementations interpret \<open>hid_backend\<close>, and the lemmas about the library are proved once, inside that locale.
  \<^item> \<open>SessionProps\<close>, \<open>LibraryProps\<close>, \<open>UsbProps\<close>, \<open>PluginProps\<close>, \<open>HidLinuxProps\<close>, \<open>HidWindowsProps\<close>, \<open>HidMacProps\<close>, \<open>SampleProps\<close>,
    \<open>VariantProps\<close>, \<open>ScriptProps\<close>, \<open>TabProps\<close>: properties that span components;
    \<open>TokenExample\<close>: the concrete bus, token and OpenSSL the witnesses run on.
\<close>

text \<open>
  \<^bold>\<open>Conventions.\<close> A function that can run into undefined behaviour of C (an access outside an array, NULL, a freed structure)
  has a result of type \<open>option\<close>, and \<open>None\<close> is that and nothing else, except for the loops of \<open>ReportDesc\<close> and the run loop
  of \<open>HidMac\<close>, where it is also a loop that does not end. Error codes are integers, as in the code. libusb, the kernel, udev, Win32, IOKit, OpenSSL, stdio, the dynamic
  loader and the multibyte encoding are records of functions that take the history of calls, or the number of the call, so that each
  call may fail on its own. Uninitialised local arrays hold bytes the record \<open>platform\<close> chooses;
  \<open>stack_pad\<close> is the number of bytes behind a local array that can be touched without harm, \<open>heap_pad\<close> that behind a block from
  \<open>new\<close>. \<open>malloc\<close> and \<open>calloc\<close> succeed. The order in which a compiler evaluates the arguments of a call is the parameter \<open>e_order\<close>,
  any permutation; the names of types in messages are \<open>e_type_name\<close>. What \<open>dlopen\<close> makes of the static variables of HIDAPI is \<open>t_reload\<close>. A thrown pointer counts as undefined, nothing catches it.

  \<^bold>\<open>What is shown.\<close>
  \<^item> From the page down to the reports on the bus, over libusb, over hidraw, on Windows and on Mac OS X: what \<open>RsaEncrypt\<close> returns, \<open>RsaDecrypt\<close> turns back into
    the message; signatures verify; status words are reported as they are.
  \<^item> With a token attached, the public functions refine that specification: any sequence of calls has the error codes, lengths and
    arrays the specification names, over any of the four HIDAPIs.
  \<^item> Whatever the bus does and whichever call fails, any sequence of public calls leaves what is open in the system and in HIDAPI as it was
    before the first call, over any of the four implementations, and the structures of HIDAPI consistent; opening, closing and enumerating
    balance their memory. Two exceptions are stated with the theorems: a free descriptor 0 under hidraw, which \<open>hid_open_path\<close> can
    fill and lose, and a device unplugged under Mac OS X, which \<open>hid_close\<close> does not close.
  \<^item> The two threads: they refine a bounded buffer of 32 reports, so that reports are neither lost nor doubled but by that bound, no
    wake-up is lost, and \<open>hid_close\<close> returns within ten steps whatever the schedule; and two ways in which this goes wrong after errors of libusb.
  \<^item> On Windows a read that timed out keeps its request and loses nothing, but closing the device then frees a buffer that the kernel
    may still write to.
  \<^item> On Mac OS X the threads refine the same buffer, start and end in order and come to an end as long as no wait at a barrier returns by
    itself; with a spurious wake-up they do not. A session gives back what it has taken.
  \<^item> Round trips of the packet cipher, the serial number, the hex codec and the uevent parser; the parsers of report descriptors agree
    with a decomposition into items, and end.
  \<^item> What \<^verbatim>\<open>sample.c\<close> prints with a working token; that it prints a pointer it has never assigned when the token is busy, and that
    \<^verbatim>\<open>dynamic-sample.c\<close> always does.
  \<^item> Through the browser: the same round trip, with arguments of any type that converts; calls of methods with parameters are refused without effect
    when the arguments do not fit, methods without parameters take any; whatever a page does, in any order and on any object it has got, comes down to calls of the plugin's methods and keeps the
    library's invariant; after the browser has invalidated the object nothing reaches the plugin. A page can make a method unreachable.
  \<^item> With several instances in a process, created, used and destroyed in any order: the invariant, and a loader's count that fits the instances.
    They share one session with the token, one error, which any of them can leave behind for all, and one text of the last exception.
  \<^item> Where the code overruns arrays, loses descriptors, reports success for errors or locks the page.

  \<^bold>\<open>Bounds and fuel.\<close> \<open>clear_queue\<close> takes the length of the queue as fuel, which its loop cannot exceed. The loops of \<open>ReportDesc\<close> are
  partial functions, shown to end for descriptors shorter than 2^32 - 258 bytes, beyond which the index could wrap around; the callers
  pass at most 4096. \<open>process_pending_events\<close> is a partial function, which returns as soon as the run loop has nothing to do. Everything else is structural recursion over a list or a counter.

  \<^bold>\<open>Not modelled.\<close> The block of \<open>hid_enumerate\<close> in \<^verbatim>\<open>hid-libusb.c\<close> under \<open>INVASIVE_GET_USAGE\<close>, which is compiled out (its parser is);
  reference counts of udev and libusb objects; texts written to \<open>stderr\<close>; several devices open at once over libusb, whose
  event threads could deliver each other's transfers. The objects behind Core Foundation references, of which only the
  number is kept; the test program under \<open>#if 0\<close> in \<^verbatim>\<open>mac/hid.c\<close>;
  in \<open>HidMac\<close>, as opposed to \<open>MacThread\<close>, removal callbacks come between the operations on a device, not while one runs, and not within a
  call of the token library. Of the sample programs the headings they print, and
  those of HIDAPI (\<^verbatim>\<open>hidtest\<close>, \<^verbatim>\<open>testgui\<close>); \<^verbatim>\<open>hidapi-master/libusb/hid.c\<close> is a copy of \<^verbatim>\<open>hid-libusb.c\<close>. Of FireBreath: exceptions while an instance is created, windows, streams, DOM and ActiveX, the hooks
  generated for the plugin, proxies of a scriptable object, lists, maps and wide strings as values. What a listener or an array of the
  page does when it is called is outside: calls of listeners are recorded, arrays are read through \<open>e_array\<close>. There is one browser
  context in an instance, and one wrapper for each object, which lives as long as the page; instances in different processes share nothing.
\<close>

end
